(* ===== verification/Prelude.thy ===== *)
theory Prelude
  imports Main "HOL-Library.Word"
begin

unbundle bit_operations_syntax

text \<open>
  Shared vocabulary of the development: the exceptions a function of the client can throw,
  results and sequential effects built from them, and the generic lemmas on lists, options
  and association lists that the component theories use.

  A TypeScript function that can throw is a function into \<^verbatim>\<open>js_error + 'a\<close> (\<^verbatim>\<open>Inl\<close> is
  the exception); an \<^verbatim>\<open>async\<close> function over an outside world of type \<^verbatim>\<open>'w\<close> is an
  \<^verbatim>\<open>io\<close>: it returns with a new world, or, when one of its loops never ends, not at all.
\<close>

section \<open>Exceptions\<close>

text \<open>
  One constructor per kind of exception the sources throw. \<^verbatim>\<open>Foreign\<close> is an exception that
  comes out of code that is not part of the repository (the RPC client, the curve library, a
  wallet).
\<close>

datatype js_error =
    RangeError int
  | SyntaxError string
  | TypeError string
  | OddLengthHex
  | BadLength nat nat
  | BadStrkey nat string
  | DegenerateKey
  | ZeroEphemeral
  | NegativeAmount
  | ExceedsBalance
  | UndecryptableEvent
  | EphemeralMismatch
  | MissingField string
  | MissingTopic string nat
  | BadScVal string
  | NoStart
  | HttpError int string
  | SimulationFailed string string
  | NoResult string
  | SendRejected string
  | FailedOnChain string string
  | ConfirmationTimeout string string
  | SyncTimeout
  | VerifyFailed string
  | Refused string
  | Foreign string

type_synonym 'a res = "js_error + 'a"

definition rbind :: "'e + 'a \<Rightarrow> ('a \<Rightarrow> 'e + 'b) \<Rightarrow> 'e + 'b" where
  "rbind m f = (case m of Inl e \<Rightarrow> Inl e | Inr a \<Rightarrow> f a)"

lemma rbind_simps [simp]:
  "rbind (Inl e) f = Inl e"
  "rbind (Inr a) f = f a"
  by (simp_all add: rbind_def)

lemma rbind_Inr_iff: "rbind m f = Inr b \<longleftrightarrow> (\<exists>a. m = Inr a \<and> f a = Inr b)"
  by (cases m) auto

lemma rbind_InrE:
  assumes "rbind m f = Inr b"
  obtains a where "m = Inr a" and "f a = Inr b"
  using assms by (auto simp: rbind_Inr_iff)

lemma rbind_cong [fundef_cong]:
  assumes "m = m'" and "\<And>a. m' = Inr a \<Longrightarrow> f a = f' a"
  shows "rbind m f = rbind m' f'"
  using assms by (cases m') auto

definition rmap :: "('a \<Rightarrow> 'b) \<Rightarrow> 'e + 'a \<Rightarrow> 'e + 'b" where
  "rmap f m = (case m of Inl e \<Rightarrow> Inl e | Inr a \<Rightarrow> Inr (f a))"

lemma rmap_simps [simp]:
  "rmap f (Inl e) = Inl e"
  "rmap f (Inr a) = Inr (f a)"
  by (simp_all add: rmap_def)

lemma rmap_Inr_iff: "rmap f m = Inr b \<longleftrightarrow> (\<exists>a. m = Inr a \<and> b = f a)"
  by (cases m) auto

text \<open>A \<^verbatim>\<open>catch\<close> that maps every exception to a value.\<close>

definition catch :: "'e + 'a \<Rightarrow> 'a \<Rightarrow> 'a" where
  "catch m d = (case m of Inl e \<Rightarrow> d | Inr a \<Rightarrow> a)"

lemma catch_simps [simp]:
  "catch (Inl e) d = d"
  "catch (Inr a) d = a"
  by (simp_all add: catch_def)

text \<open>A loop that pushes one result per element, the first exception ending it.\<close>

fun traverse :: "('a \<Rightarrow> 'e + 'b) \<Rightarrow> 'a list \<Rightarrow> 'e + 'b list" where
  "traverse f [] = Inr []"
| "traverse f (x # xs) = rbind (f x) (\<lambda>y. rmap (\<lambda>ys. y # ys) (traverse f xs))"

lemma traverse_Inr_map:
  assumes "\<And>x. x \<in> set xs \<Longrightarrow> f x = Inr (g x)"
  shows "traverse f xs = Inr (map g xs)"
  using assms by (induction xs) auto

lemma traverse_append:
  "traverse f (xs @ ys) = rbind (traverse f xs) (\<lambda>a. rmap (\<lambda>b. a @ b) (traverse f ys))"
  by (induction xs) (auto simp: rbind_def rmap_def split: sum.splits)

lemma traverse_append_Inr:
  "traverse f (xs @ ys) = Inr zs \<longleftrightarrow> (\<exists>a b. traverse f xs = Inr a \<and> traverse f ys = Inr b \<and> zs = a @ b)"
  by (auto simp: traverse_append rbind_Inr_iff rmap_Inr_iff)

lemma traverse_length: "traverse f xs = Inr ys \<Longrightarrow> length ys = length xs"
  by (induction xs arbitrary: ys) (auto simp: rbind_Inr_iff rmap_Inr_iff)

section \<open>Effects\<close>

type_synonym ('w, 'a) io = "'w \<Rightarrow> ('a res \<times> 'w) option"

definition io_return :: "'a \<Rightarrow> ('w, 'a) io" where
  "io_return a = (\<lambda>w. Some (Inr a, w))"

definition io_throw :: "js_error \<Rightarrow> ('w, 'a) io" where
  "io_throw e = (\<lambda>w. Some (Inl e, w))"

definition io_bind :: "('w, 'a) io \<Rightarrow> ('a \<Rightarrow> ('w, 'b) io) \<Rightarrow> ('w, 'b) io" where
  "io_bind m f = (\<lambda>w. case m w of
       None \<Rightarrow> None
     | Some (r, w') \<Rightarrow> (case r of Inl e \<Rightarrow> Some (Inl e, w') | Inr a \<Rightarrow> f a w'))"

definition io_catch :: "('w, 'a) io \<Rightarrow> (js_error \<Rightarrow> ('w, 'a) io) \<Rightarrow> ('w, 'a) io" where
  "io_catch m h = (\<lambda>w. case m w of
       None \<Rightarrow> None
     | Some (r, w') \<Rightarrow> (case r of Inl e \<Rightarrow> h e w' | Inr a \<Rightarrow> Some (Inr a, w')))"

text \<open>A result that is already there, and a call to the outside that always answers.\<close>

definition io_res :: "'a res \<Rightarrow> ('w, 'a) io" where
  "io_res r = (\<lambda>w. Some (r, w))"

definition io_call :: "('w \<Rightarrow> 'a res \<times> 'w) \<Rightarrow> ('w, 'a) io" where
  "io_call f = (\<lambda>w. Some (f w))"

named_theorems io_simps \<open>evaluation of effects\<close>

lemma io_return_apply [io_simps]: "io_return a w = Some (Inr a, w)"
  by (simp add: io_return_def)

lemma io_throw_apply [io_simps]: "io_throw e w = Some (Inl e, w)"
  by (simp add: io_throw_def)

lemma io_res_apply [io_simps]: "io_res r w = Some (r, w)"
  by (simp add: io_res_def)

lemma io_call_apply [io_simps]: "io_call f w = Some (f w)"
  by (simp add: io_call_def)

lemma io_bind_apply [io_simps]:
  "io_bind m f w = (case m w of None \<Rightarrow> None
     | Some (r, w') \<Rightarrow> (case r of Inl e \<Rightarrow> Some (Inl e, w') | Inr a \<Rightarrow> f a w'))"
  by (simp add: io_bind_def)

lemma io_catch_apply [io_simps]:
  "io_catch m h w = (case m w of None \<Rightarrow> None
     | Some (r, w') \<Rightarrow> (case r of Inl e \<Rightarrow> h e w' | Inr a \<Rightarrow> Some (Inr a, w')))"
  by (simp add: io_catch_def)

lemma io_bind_InrE:
  assumes "io_bind m f w = Some (Inr b, w'')"
  obtains a w' where "m w = Some (Inr a, w')" and "f a w' = Some (Inr b, w'')"
  using assms by (auto simp: io_bind_def split: option.splits sum.splits prod.splits)

lemma io_bind_cong [fundef_cong]:
  assumes "m = m'" and "\<And>a. f a = f' a"
  shows "io_bind m f = io_bind m' f'"
proof -
  from assms(2) have "f = f'" by (simp add: fun_eq_iff)
  with assms(1) show ?thesis by simp
qed

text \<open>The operator \<^verbatim>\<open>??\<close> on a value that can be missing.\<close>

definition given :: "'a option \<Rightarrow> 'a \<Rightarrow> 'a" where
  "given opt d = (case opt of Some x \<Rightarrow> x | None \<Rightarrow> d)"

lemma given_simps [simp]: "given (Some x) d = x" "given None d = d"
  by (simp_all add: given_def)

section \<open>Association lists: objects and maps with insertion order\<close>

text \<open>
  A JavaScript object or \<^verbatim>\<open>Map\<close> keeps its keys in the order of their first insertion;
  storing to a key it has overwrites the value in place.
\<close>

fun put :: "'k \<Rightarrow> 'v \<Rightarrow> ('k \<times> 'v) list \<Rightarrow> ('k \<times> 'v) list" where
  "put k v [] = [(k, v)]"
| "put k v ((k', v') # kvs) = (if k' = k then (k, v) # kvs else (k', v') # put k v kvs)"

lemma map_of_put: "map_of (put k v kvs) k' = (if k' = k then Some v else map_of kvs k')"
  by (induction kvs) auto

lemma set_put: "(k', v') \<in> set (put k v m) \<Longrightarrow> (k', v') = (k, v) \<or> (k', v') \<in> set m"
  by (induction k v m rule: put.induct) (auto split: if_splits)

lemma keys_put: "set (map fst (put k v kvs)) = insert k (set (map fst kvs))"
  by (induction k v kvs rule: put.induct) (simp_all add: insert_commute)

lemma distinct_put: "distinct (map fst kvs) \<Longrightarrow> distinct (map fst (put k v kvs))"
proof (induction kvs)
  case (Cons kv kvs)
  then show ?case using keys_put[of k v kvs] by (cases kv) auto
qed simp

lemma put_fresh: "k \<notin> set (map fst kvs) \<Longrightarrow> put k v kvs = kvs @ [(k, v)]"
  by (induction kvs) auto

lemma map_of_fold_put:
  assumes "distinct (map fst kvs)"
  shows "map_of (fold (\<lambda>(k, v). put k v) kvs acc) k
         = (case map_of kvs k of Some v \<Rightarrow> Some v | None \<Rightarrow> map_of acc k)"
  using assms
proof (induction kvs arbitrary: acc)
  case (Cons kv kvs)
  obtain a b where kv: "kv = (a, b)" by (cases kv)
  with Cons.prems have "map_of kvs a = None" by (auto simp: map_of_eq_None_iff)
  with Cons kv show ?case by (auto simp: map_of_put split: option.splits)
qed simp

section \<open>Lists\<close>

lemma foldl_inj_left:
  assumes "\<And>a b x. f a x = f b x \<Longrightarrow> a = b" and "foldl f a xs = foldl f b xs"
  shows "a = b"
  using assms(2) by (induction xs arbitrary: a b) (auto dest: assms(1))

text \<open>The \<^verbatim>\<open>Set\<close> of a list, spread back: first occurrences, in order.\<close>

fun uniq :: "'a list \<Rightarrow> 'a list" where
  "uniq [] = []"
| "uniq (x # xs) = x # uniq (filter (\<lambda>y. y \<noteq> x) xs)"

end
