(* ===== verification/JsText.thy ===== *)
theory JsText
  imports Prelude
begin

text \<open>
  The part of the JavaScript standard library that turns numbers into text and back:
  \<^verbatim>\<open>toString(16)\<close>, \<^verbatim>\<open>padStart\<close>, \<^verbatim>\<open>BigInt(string)\<close>, \<^verbatim>\<open>Number(string)\<close>,
  \<^verbatim>\<open>parseInt(s, 16)\<close>, \<^verbatim>\<open>split\<close> and \<^verbatim>\<open>startsWith\<close>. Text is \<^typ>\<open>string\<close>; the
  strings the client handles (strkeys, hashes, hex, decimal numbers, symbol names) are ASCII.
\<close>

section \<open>Digits\<close>

definition hex_digit :: "nat \<Rightarrow> char" where
  "hex_digit d = (if d < 10 then char_of (48 + d) else char_of (87 + d))"

definition hex_val :: "char \<Rightarrow> nat option" where
  "hex_val c = (let n = of_char c in
     if 48 \<le> n \<and> n \<le> 57 then Some (n - 48)
     else if 97 \<le> n \<and> n \<le> 102 then Some (n - 87)
     else if 65 \<le> n \<and> n \<le> 70 then Some (n - 55)
     else None)"

definition dec_val :: "char \<Rightarrow> nat option" where
  "dec_val c = (let n = of_char c in if 48 \<le> n \<and> n \<le> 57 then Some (n - 48) else None)"

lemma hex_val_digit [simp]: "d < 16 \<Longrightarrow> hex_val (hex_digit d) = Some d"
  by (auto simp: hex_val_def hex_digit_def Let_def of_char_of)

lemma dec_val_digit [simp]: "d < 10 \<Longrightarrow> dec_val (hex_digit d) = Some d"
  by (auto simp: dec_val_def hex_digit_def Let_def of_char_of)

lemma of_hex_digit: "d < 16 \<Longrightarrow> of_char (hex_digit d) = (if d < 10 then 48 + d else 87 + d)"
  by (simp add: hex_digit_def of_char_of)

text \<open>\<^verbatim>\<open>n.toString(b)\<close> for a non-negative integer and a base of at most 16.\<close>

fun digits_of :: "nat \<Rightarrow> nat \<Rightarrow> string" where
  "digits_of b n = (if b < 2 \<or> n < b then [hex_digit n]
                    else digits_of b (n div b) @ [hex_digit (n mod b)])"

declare digits_of.simps [simp del]

text \<open>The value of a string of digits, most significant first; \<^term>\<open>None\<close> at a wrong digit.\<close>

fun value_of :: "(char \<Rightarrow> nat option) \<Rightarrow> nat \<Rightarrow> nat \<Rightarrow> string \<Rightarrow> nat option" where
  "value_of val b acc [] = Some acc"
| "value_of val b acc (c # cs) =
     (case val c of None \<Rightarrow> None | Some d \<Rightarrow> value_of val b (acc * b + d) cs)"

lemma value_of_append:
  "value_of val b acc (xs @ ys)
   = (case value_of val b acc xs of None \<Rightarrow> None | Some a \<Rightarrow> value_of val b a ys)"
  by (induction xs arbitrary: acc) (auto split: option.splits)

lemma value_of_digits:
  assumes "2 \<le> b" and "\<And>d. d < b \<Longrightarrow> val (hex_digit d) = Some d"
  shows "value_of val b 0 (digits_of b n) = Some n"
proof (induction n rule: less_induct)
  case (less n)
  show ?case
  proof (cases "n < b")
    case True
    with assms show ?thesis by (simp add: digits_of.simps[of b n])
  next
    case False
    with assms(1) have "n div b < n" by simp
    then have "value_of val b 0 (digits_of b (n div b)) = Some (n div b)" by (rule less.IH)
    with False assms show ?thesis
      by (simp add: digits_of.simps[of b n] value_of_append div_mult_mod_eq)
  qed
qed

lemma digits_of_ne [simp]: "digits_of b n \<noteq> []"
  by (subst digits_of.simps) simp

lemma set_digits_of: "b \<le> 16 \<Longrightarrow> 2 \<le> b \<Longrightarrow> set (digits_of b n) \<subseteq> hex_digit ` {..<b}"
proof (induction n rule: less_induct)
  case (less n)
  then show ?case
    by (subst digits_of.simps) (auto dest!: less.IH[rotated 2] intro: div_less_dividend)
qed

lemma length_digits_of: "2 \<le> b \<Longrightarrow> n < b ^ k \<Longrightarrow> 0 < k \<Longrightarrow> length (digits_of b n) \<le> k"
proof (induction k arbitrary: n)
  case (Suc k)
  show ?case
  proof (cases "n < b")
    case True
    then show ?thesis by (subst digits_of.simps) simp
  next
    case False
    with Suc.prems have "k \<noteq> 0" by (cases k) auto
    moreover from Suc.prems have "n div b < b ^ k"
      by (simp add: less_mult_imp_div_less mult.commute)
    ultimately have "length (digits_of b (n div b)) \<le> k" using Suc by simp
    with False Suc.prems(1) show ?thesis by (subst digits_of.simps) simp
  qed
qed simp

lemma value_of_zeros:
  assumes "val (hex_digit 0) = Some 0"
  shows "value_of val b 0 (replicate k (hex_digit 0) @ s) = value_of val b 0 s"
  using assms by (induction k) auto

text \<open>\<^verbatim>\<open>s.padStart(n, '0')\<close>\<close>

definition padStart0 :: "nat \<Rightarrow> string \<Rightarrow> string" where
  "padStart0 n s = replicate (n - length s) (CHR ''0'') @ s"

lemma hex_digit_0: "hex_digit 0 = CHR ''0''"
  by (simp add: hex_digit_def char_of_eq_iff)

lemma value_of_padStart0:
  "val (CHR ''0'') = Some 0 \<Longrightarrow> value_of val b 0 (padStart0 n s) = value_of val b 0 s"
  using value_of_zeros[of val b "n - length s" s] by (simp add: padStart0_def hex_digit_0)

lemma length_padStart0 [simp]: "length (padStart0 n s) = max n (length s)"
  by (simp add: padStart0_def)

section \<open>Integers as text\<close>

text \<open>\<^verbatim>\<open>x.toString(16)\<close> and \<^verbatim>\<open>String(x)\<close> of an integer.\<close>

definition toString16 :: "int \<Rightarrow> string" where
  "toString16 x = (if x < 0 then ''-'' @ digits_of 16 (nat (- x)) else digits_of 16 (nat x))"

definition toString10 :: "int \<Rightarrow> string" where
  "toString10 x = (if x < 0 then ''-'' @ digits_of 10 (nat (- x)) else digits_of 10 (nat x))"

definition undefinedText :: string where "undefinedText = ''undefined''"

text \<open>White space; of the characters JavaScript trims, those of ASCII.\<close>

definition js_space :: "char \<Rightarrow> bool" where
  "js_space c \<longleftrightarrow> of_char c \<in> {9, 10, 11, 12, 13, 32 :: nat}"

definition trim :: "string \<Rightarrow> string" where
  "trim s = rev (dropWhile js_space (rev (dropWhile js_space s)))"

lemma trim_trim [simp]: "trim (trim s) = trim s"
proof -
  have idem: "dropWhile p (dropWhile p xs) = dropWhile p xs" for p and xs :: string
    by (induction xs) simp_all
  have keep: "dropWhile p (rev (dropWhile p (rev (dropWhile p xs)))) = rev (dropWhile p (rev (dropWhile p xs)))" for p and xs :: string
  proof (cases "dropWhile p xs")
    case Nil
    show ?thesis unfolding Nil by simp
  next
    case (Cons y ys)
    then have "\<not> p y" by (meson dropWhile_eq_Cons_conv)
    then have "dropWhile p (rev ys @ [y]) = dropWhile p (rev ys) @ [y]" by (simp add: dropWhile_append3)
    with Cons \<open>\<not> p y\<close> show ?thesis by simp
  qed
  show ?thesis by (simp add: trim_def keep idem)
qed

definition startsWith :: "string \<Rightarrow> string \<Rightarrow> bool" where
  "startsWith p s \<longleftrightarrow> take (length p) s = p"

text \<open>\<^verbatim>\<open>s.includes(p)\<close> of a text.\<close>

fun contains :: "string \<Rightarrow> string \<Rightarrow> bool" where
  "contains [] p \<longleftrightarrow> p = []"
| "contains (c # s) p \<longleftrightarrow> startsWith p (c # s) \<or> contains s p"

text \<open>
  \<^verbatim>\<open>BigInt(string)\<close>: an optionally signed decimal, or an unsigned hexadecimal, octal or
  binary literal; the empty text is 0; everything else is a \<^verbatim>\<open>SyntaxError\<close>.
\<close>

definition digits_value :: "(char \<Rightarrow> nat option) \<Rightarrow> nat \<Rightarrow> string \<Rightarrow> int option" where
  "digits_value val b s = (if s = [] then None else map_option int (value_of val b 0 s))"

definition bounded_val :: "nat \<Rightarrow> char \<Rightarrow> nat option" where
  "bounded_val b c = (case dec_val c of Some d \<Rightarrow> (if d < b then Some d else None) | None \<Rightarrow> None)"

definition parse_bigint :: "string \<Rightarrow> int option" where
  "parse_bigint s0 = (let s = trim s0 in
     if s = [] then Some 0
     else if startsWith ''0x'' s \<or> startsWith ''0X'' s then digits_value hex_val 16 (drop 2 s)
     else if startsWith ''0o'' s \<or> startsWith ''0O'' s then digits_value (bounded_val 8) 8 (drop 2 s)
     else if startsWith ''0b'' s \<or> startsWith ''0B'' s then digits_value (bounded_val 2) 2 (drop 2 s)
     else if startsWith ''-'' s then map_option uminus (digits_value dec_val 10 (drop 1 s))
     else if startsWith ''+'' s then digits_value dec_val 10 (drop 1 s)
     else digits_value dec_val 10 s)"

definition BigInt_of :: "string \<Rightarrow> int res" where
  "BigInt_of s = (case parse_bigint s of Some x \<Rightarrow> Inr x | None \<Rightarrow> Inl (SyntaxError s))"

text \<open>
  \<^verbatim>\<open>Number(string)\<close> on the texts the client passes to it, which are integers: \<^term>\<open>None\<close>
  is \<^verbatim>\<open>NaN\<close>. (Fractions and exponents do not occur; \<^verbatim>\<open>Number\<close> has no sign on
  hexadecimal literals, as \<^verbatim>\<open>BigInt\<close> has none.)
\<close>

definition Number_of :: "string \<Rightarrow> int option" where
  "Number_of s = parse_bigint s"

lemma js_space_hex_digit [simp]:
  assumes "d < 16"
  shows "\<not> js_space (hex_digit d)"
proof -
  have "48 \<le> (of_char (hex_digit d) :: nat)" and "(of_char (hex_digit d) :: nat) \<le> 102"
    using assms by (simp_all add: of_hex_digit)
  then show ?thesis unfolding js_space_def insert_iff empty_iff by arith
qed

lemma trim_id:
  assumes "s \<noteq> []" and "\<not> js_space (hd s)" and "\<not> js_space (last s)"
  shows "trim s = s"
proof -
  from assms(1,2) have "dropWhile js_space s = s" by (simp add: dropWhile_eq_self_iff)
  moreover from assms(1,3) have "dropWhile js_space (rev s) = rev s"
    by (simp add: dropWhile_eq_self_iff hd_rev)
  ultimately show ?thesis by (simp add: trim_def)
qed

lemma hd_last_digits:
  assumes "2 \<le> b" and "b \<le> 16"
  shows "hd (digits_of b n) \<in> hex_digit ` {..<b}" and "last (digits_of b n) \<in> hex_digit ` {..<b}"
  using set_digits_of[OF assms(2,1), of n] hd_in_set[of "digits_of b n"]
    last_in_set[of "digits_of b n"] digits_of_ne[of b n] by blast+

lemma trim_digits [simp]:
  assumes "2 \<le> b" and "b \<le> 16"
  shows "trim (digits_of b n) = digits_of b n"
proof (rule trim_id)
  show "\<not> js_space (hd (digits_of b n))" "\<not> js_space (last (digits_of b n))"
    using hd_last_digits[OF assms, of n] assms by auto
qed simp


lemma digits_charE:
  assumes "c \<in> set (digits_of b n)" and "2 \<le> b" and "b \<le> 16"
  obtains d where "d < b" and "c = hex_digit d"
  using set_digits_of[OF assms(3,2), of n] assms(1) by blast

text \<open>No digit below \<^verbatim>\<open>b\<close> reads as a sign, a separator or, for decimals, a base prefix.\<close>

lemma hex_digit_neq:
  assumes "d < 16"
  shows "hex_digit d \<noteq> CHR ''-''" "hex_digit d \<noteq> CHR ''+''" "hex_digit d \<noteq> CHR ''x''"
    "hex_digit d \<noteq> CHR ''X''" "hex_digit d \<noteq> CHR ''o''" "hex_digit d \<noteq> CHR ''O''"
  using assms of_hex_digit[OF assms] by (auto split: if_splits)

lemma dec_digit_neq:
  assumes "d < 10"
  shows "hex_digit d \<noteq> CHR ''b''" "hex_digit d \<noteq> CHR ''B''"
  using assms of_hex_digit[of d] by auto

lemma startsWith_mem: "startsWith p s \<Longrightarrow> c \<in> set p \<Longrightarrow> c \<in> set s"
  unfolding startsWith_def by (metis in_set_takeD)

lemma no_prefix_dec:
  assumes "c \<in> set p" and "c \<in> {CHR ''x'', CHR ''X'', CHR ''o'', CHR ''O'', CHR ''b'', CHR ''B'',
    CHR ''-'', CHR ''+''}"
  shows "\<not> startsWith p (digits_of 10 n)"
proof
  assume "startsWith p (digits_of 10 n)"
  with assms(1) have "c \<in> set (digits_of 10 n)" by (blast dest: startsWith_mem)
  then obtain d where "d < 10" and "c = hex_digit d" by (rule digits_charE) simp_all
  with assms(2) show False using hex_digit_neq[of d] dec_digit_neq[of d] by auto
qed

lemma parse_bigint_dec [simp]: "parse_bigint (digits_of 10 n) = Some (int n)"
  using value_of_digits[of 10 dec_val n]
  by (simp add: parse_bigint_def Let_def digits_value_def no_prefix_dec[of "CHR ''x''"]
      no_prefix_dec[of "CHR ''X''"] no_prefix_dec[of "CHR ''o''"] no_prefix_dec[of "CHR ''O''"]
      no_prefix_dec[of "CHR ''b''"] no_prefix_dec[of "CHR ''B''"] no_prefix_dec[of "CHR ''-''"]
      no_prefix_dec[of "CHR ''+''"])

lemma trim_cons:
  assumes "\<not> js_space c" and "s \<noteq> []" and "\<not> js_space (last s)"
  shows "trim (c # s) = c # s"
  using assms by (intro trim_id) auto

lemma js_space_ascii [simp]: "\<not> js_space (CHR ''-'')" "\<not> js_space (CHR ''0'')" "\<not> js_space (CHR ''x'')"
  by (simp_all add: js_space_def)

lemma last_digits_nospace [simp]: "2 \<le> b \<Longrightarrow> b \<le> 16 \<Longrightarrow> \<not> js_space (last (digits_of b n))"
  using hd_last_digits(2)[of b n] by auto

lemma parse_bigint_toString10 [simp]: "parse_bigint (toString10 x) = Some x"
proof (cases "x < 0")
  case True
  have "trim (CHR ''-'' # digits_of 10 (nat (- x))) = CHR ''-'' # digits_of 10 (nat (- x))"
    by (rule trim_cons) simp_all
  with True show ?thesis using value_of_digits[of 10 dec_val "nat (- x)"]
    by (simp add: toString10_def parse_bigint_def startsWith_def digits_value_def)
next
  case False
  then show ?thesis by (simp add: toString10_def)
qed

lemma hex_val_0: "hex_val (CHR ''0'') = Some 0"
  using hex_val_digit[of 0] by (simp add: hex_digit_0)

lemma parse_bigint_hex:
  "parse_bigint (''0x'' @ padStart0 k (digits_of 16 n)) = Some (int n)"
proof -
  have "trim (''0x'' @ padStart0 k (digits_of 16 n)) = ''0x'' @ padStart0 k (digits_of 16 n)"
    by (rule trim_id) (simp_all add: padStart0_def)
  then show ?thesis using value_of_digits[of 16 hex_val n]
    by (simp add: parse_bigint_def startsWith_def digits_value_def value_of_padStart0 hex_val_0)
      (simp add: padStart0_def)
qed

lemma padStart0_0 [simp]: "padStart0 0 s = s"
  by (simp add: padStart0_def)

lemma parse_bigint_hex0: "parse_bigint (''0x'' @ digits_of 16 n) = Some (int n)"
  using parse_bigint_hex[of 0 n] by simp

section \<open>Splitting at a separator\<close>

text \<open>\<^verbatim>\<open>s.split(c)\<close> for a one-character separator: always at least one piece.\<close>

fun split_on :: "char \<Rightarrow> string \<Rightarrow> string list" where
  "split_on c [] = [[]]"
| "split_on c (x # xs) =
     (if x = c then [] # split_on c xs
      else (case split_on c xs of [] \<Rightarrow> [[x]] | p # ps \<Rightarrow> (x # p) # ps))"

lemma split_on_ne [simp]: "split_on c s \<noteq> []"
  by (induction s) (auto split: list.splits)

lemma split_on_none: "c \<notin> set s \<Longrightarrow> split_on c s = [s]"
  by (induction s) auto

lemma split_on_sep: "c \<notin> set s \<Longrightarrow> split_on c (s @ c # t) = s # split_on c t"
  by (induction s) auto

lemma dash_digits [simp]: "CHR ''-'' \<notin> set (digits_of 10 n)"
proof
  assume "CHR ''-'' \<in> set (digits_of 10 n)"
  then obtain d where "d < 10" and "CHR ''-'' = hex_digit d" by (rule digits_charE) simp_all
  with hex_digit_neq(1)[of d] show False by simp
qed

lemma dash_toString10: "0 \<le> x \<Longrightarrow> CHR ''-'' \<notin> set (toString10 x)"
  by (simp add: toString10_def)

lemma toString10_inj: "toString10 x = toString10 y \<longleftrightarrow> x = y"
  using parse_bigint_toString10 by (metis option.inject)

end
