(* ===== verification/Field.thy ===== *)
theory Field
  imports JsText
begin

text \<open>
  \<^verbatim>\<open>crypto/constants.ts\<close> and \<^verbatim>\<open>crypto/field.ts\<close>: the two moduli, the domain tags and
  the helpers that every layer above uses to reduce, encode and decode field elements. A
  \<^verbatim>\<open>bigint\<close> is an \<^typ>\<open>int\<close>; an element of a \<^verbatim>\<open>Uint8Array\<close> is an \<^typ>\<open>8 word\<close>.
\<close>

type_synonym byte = "8 word"

section \<open>Constants\<close>

definition FR_MODULUS :: int where
  "FR_MODULUS = 0x30644e72e131a029b85045b68181585d2833e84879b9709143e1f593f0000001"

definition FP_MODULUS :: int where
  "FP_MODULUS = 0x30644e72e131a029b85045b68181585d97816a916871ca8d3c208c16d87cfd47"

definition G_X :: int where
  "G_X = 0x083e7911d835097629f0067531fc15cafd79a89beecb39903f69572c636f4a5a"

definition G_Y :: int where
  "G_Y = 0x1a7f5efaad7f315c25a918f30cc8d7333fccab7ad7c90f14de81bcc528f9935d"

definition H_X :: int where
  "H_X = 0x054aa86a73cb8a34525e5bbed6e43ba1198e860f5f3950268f71df4591bde402"

definition H_Y :: int where
  "H_Y = 0x209dcfbf2cfb57f9f6046f44d71ac6faf87254afc7407c04eb621a6287cac126"

definition POSEIDON2_IV_BASE :: int where
  "POSEIDON2_IV_BASE = push_bit 64 1"

datatype domain =
    ADDRESS | VIEWING_KEY | DELEGATION_VIEWING_KEY | SPEND_RANDOMNESS | TX_BLINDING | TX_AMOUNT
  | ENCRYPTED_BALANCE | ENCRYPTED_ALLOWANCE | ALLOWANCE_RANDOMNESS
  | ESCROWED_DELEGATION_VIEWING_KEY | AUDITOR_SENDER | AUDITOR_RECIPIENT | DISCLOSURE
  | DISCLOSURE_BIND | EPHEMERAL_KEY

fun DOMAIN :: "domain \<Rightarrow> int" where
  "DOMAIN ADDRESS = 1"
| "DOMAIN VIEWING_KEY = 2"
| "DOMAIN DELEGATION_VIEWING_KEY = 3"
| "DOMAIN SPEND_RANDOMNESS = 4"
| "DOMAIN TX_BLINDING = 5"
| "DOMAIN TX_AMOUNT = 6"
| "DOMAIN ENCRYPTED_BALANCE = 7"
| "DOMAIN ENCRYPTED_ALLOWANCE = 8"
| "DOMAIN ALLOWANCE_RANDOMNESS = 9"
| "DOMAIN ESCROWED_DELEGATION_VIEWING_KEY = 10"
| "DOMAIN AUDITOR_SENDER = 11"
| "DOMAIN AUDITOR_RECIPIENT = 12"
| "DOMAIN DISCLOSURE = 13"
| "DOMAIN DISCLOSURE_BIND = 14"
| "DOMAIN EPHEMERAL_KEY = 15"

text \<open>The tags separate: no two derivations absorb the same first element.\<close>

lemma DOMAIN_inj: "DOMAIN d = DOMAIN e \<longleftrightarrow> d = e"
  by (cases d; cases e) simp_all

datatype circuitTypeName =
  CtRegister | CtWithdraw | CtTransfer | CtSpenderTransfer | CtSetSpender | CtRevokeSpender

fun CIRCUIT_TYPE :: "circuitTypeName \<Rightarrow> int" where
  "CIRCUIT_TYPE CtRegister = 0"
| "CIRCUIT_TYPE CtWithdraw = 1"
| "CIRCUIT_TYPE CtTransfer = 2"
| "CIRCUIT_TYPE CtSpenderTransfer = 3"
| "CIRCUIT_TYPE CtSetSpender = 4"
| "CIRCUIT_TYPE CtRevokeSpender = 5"

section \<open>Reduction\<close>

text \<open>The operator \<^verbatim>\<open>%\<close> on bigints truncates: the remainder has the sign of the dividend.\<close>

definition js_rem :: "int \<Rightarrow> int \<Rightarrow> int" where
  "js_rem a b = sgn a * (\<bar>a\<bar> mod \<bar>b\<bar>)"

definition frMod :: "int \<Rightarrow> int" where
  "frMod x = (let m = js_rem x FR_MODULUS in if m < 0 then m + FR_MODULUS else m)"

definition frAdd :: "int \<Rightarrow> int \<Rightarrow> int" where
  "frAdd a b = frMod (a + b)"

definition frSub :: "int \<Rightarrow> int \<Rightarrow> int" where
  "frSub a b = frMod (a - b)"

definition isCanonicalFr :: "int \<Rightarrow> bool" where
  "isCanonicalFr x \<longleftrightarrow> 0 \<le> x \<and> x < FR_MODULUS"

named_theorems fr_simps \<open>reduction modulo the field order\<close>

lemma FR_pos [simp]: "0 < FR_MODULUS" and FR_lt_FP: "FR_MODULUS < FP_MODULUS"
  and FP_pos [simp]: "0 < FP_MODULUS" and FP_lt_2FR: "FP_MODULUS < 2 * FR_MODULUS"
  by (simp_all add: FR_MODULUS_def FP_MODULUS_def)

lemma js_rem_shift:
  assumes "0 < m"
  shows "(if js_rem x m < 0 then js_rem x m + m else js_rem x m) = x mod m"
proof (cases "x < 0")
  case True
  show ?thesis
  proof (cases "x mod m = 0")
    case True
    then have "(- x) mod m = 0" by (simp add: zmod_zminus1_eq_if)
    with \<open>x < 0\<close> \<open>x mod m = 0\<close> assms show ?thesis by (simp add: js_rem_def)
  next
    case False
    then have neg: "(- x) mod m = m - x mod m" by (simp add: zmod_zminus1_eq_if)
    have "x mod m < m" using assms by simp
    with \<open>x < 0\<close> neg assms show ?thesis by (simp add: js_rem_def)
  qed
next
  case False
  with assms have "js_rem x m = x mod m"
    by (cases "x = 0") (auto simp: js_rem_def)
  moreover have "0 \<le> x mod m" using assms by simp
  ultimately show ?thesis by simp
qed

lemma frMod_mod [fr_simps]: "frMod x = x mod FR_MODULUS"
  using js_rem_shift[OF FR_pos, of x] by (simp add: frMod_def Let_def)

lemma frMod_canonical [simp]: "isCanonicalFr (frMod x)"
  by (simp add: fr_simps isCanonicalFr_def)

lemma frMod_id: "isCanonicalFr x \<Longrightarrow> frMod x = x"
  by (simp add: fr_simps isCanonicalFr_def)

lemma frMod_idem [simp]: "frMod (frMod x) = frMod x"
  by (simp add: frMod_id)

lemma frMod_nonneg [simp]: "0 \<le> frMod x" and frMod_less [simp]: "frMod x < FR_MODULUS"
  by (simp_all add: fr_simps)

lemma frAdd_canonical [simp]: "isCanonicalFr (frAdd a b)"
  by (simp add: frAdd_def)

lemma frAdd_nonneg [simp]: "0 \<le> frAdd a b"
  by (simp add: frAdd_def)

lemma frMod_unmask: "frMod (frAdd v m - m) = frMod v"
  by (simp add: frAdd_def fr_simps mod_diff_left_eq)

lemma frMod_mask_inj: "frAdd v m = frAdd v' m \<Longrightarrow> frMod v = frMod v'"
  by (metis frMod_unmask)

lemma frAdd_assoc: "frAdd (frAdd a b) c = frAdd a (frAdd b c)"
  by (simp add: frAdd_def fr_simps mod_add_left_eq mod_add_right_eq add.assoc)

lemma frAdd_commute: "frAdd a b = frAdd b a"
  by (simp add: frAdd_def add.commute)

lemma frSub_frAdd: "frSub (frAdd a b) b = frMod a"
  by (simp add: frSub_def frMod_unmask)

lemma amount_canonical: "0 \<le> v \<Longrightarrow> v < 2 ^ 127 \<Longrightarrow> isCanonicalFr v"
  by (simp add: isCanonicalFr_def FR_MODULUS_def)

section \<open>Bytes\<close>

text \<open>
  The loop of \<^verbatim>\<open>toBytes32BE\<close> fills the array from its last index down: each step stores the
  low byte of \<^verbatim>\<open>v\<close> and shifts it right by eight.
\<close>

fun be_fill :: "nat \<Rightarrow> int \<Rightarrow> byte list \<Rightarrow> byte list" where
  "be_fill 0 v out = out"
| "be_fill (Suc i) v out = be_fill i (drop_bit 8 v) (word_of_int (v AND 255) # out)"

definition toBytes32BE :: "int \<Rightarrow> byte list res" where
  "toBytes32BE x = (if x < 0 \<or> push_bit 256 1 \<le> x then Inl (RangeError x) else Inr (be_fill 32 x []))"

definition shift_in :: "int \<Rightarrow> byte \<Rightarrow> int" where
  "shift_in v b = push_bit 8 v OR uint b"

definition fromBytesBE :: "byte list \<Rightarrow> int" where
  "fromBytesBE b = foldl shift_in 0 b"

definition fromBytesLE :: "byte list \<Rightarrow> int" where
  "fromBytesLE b = foldr (\<lambda>x v. shift_in v x) b 0"

lemma shift_in_eq: "shift_in v b = v * 256 + uint b"
proof -
  have lt: "uint b < 256" using uint_lt2p[of b] by simp
  then have low: "push_bit 8 (drop_bit 8 (uint b)) = 0"
    by (simp add: drop_bit_eq_div)
  have "push_bit 8 v AND uint b = 0"
  proof (rule bit_eqI)
    fix n
    show "bit (push_bit 8 v AND uint b) n = bit 0 n"
      using bit_uint_iff[of b n] by (auto simp: bit_and_iff bit_push_bit_iff)
  qed
  then have "push_bit 8 v OR uint b = push_bit 8 v + uint b"
    by (simp add: disjunctive_add_eq_or)
  then show ?thesis by (simp add: shift_in_def push_bit_eq_mult mult.commute)
qed

lemma fromBytesBE_snoc: "foldl shift_in a (xs @ [b]) = foldl shift_in a xs * 256 + uint b"
  by (simp add: shift_in_eq)

lemma foldl_shift_in: "foldl shift_in a bs = a * 256 ^ length bs + fromBytesBE bs"
proof (induction bs rule: rev_induct)
  case (snoc b bs)
  then show ?case by (simp add: fromBytesBE_def shift_in_eq algebra_simps)
qed (simp add: fromBytesBE_def)

lemma fromBytesBE_append:
  "fromBytesBE (xs @ ys) = fromBytesBE xs * 256 ^ length ys + fromBytesBE ys"
  using foldl_shift_in[of "foldl shift_in 0 xs" ys] by (simp add: fromBytesBE_def)

lemma fromBytesBE_Nil [simp]: "fromBytesBE [] = 0"
  by (simp add: fromBytesBE_def)

lemma fromBytesBE_Cons: "fromBytesBE (b # bs) = uint b * 256 ^ length bs + fromBytesBE bs"
  using fromBytesBE_append[of "[b]" bs] by (simp add: fromBytesBE_def shift_in_eq)

lemma fromBytesBE_nonneg [simp]: "0 \<le> fromBytesBE bs"
  by (induction bs) (simp_all add: fromBytesBE_Cons)

lemma fromBytesBE_less: "fromBytesBE bs < 256 ^ length bs"
proof (induction bs)
  case (Cons b bs)
  have "uint b \<le> 255" using uint_lt2p[of b] by simp
  then have "uint b * 256 ^ length bs \<le> 255 * 256 ^ length bs" by (intro mult_right_mono) simp_all
  with Cons have "uint b * 256 ^ length bs + fromBytesBE bs < 255 * 256 ^ length bs + 256 ^ length bs"
    by (intro add_le_less_mono)
  then show ?case by (simp add: fromBytesBE_Cons)
qed simp

lemma uint_low_byte: "uint (word_of_int (v AND 255) :: byte) = v mod 256"
proof -
  have "v AND 255 = v mod 256"
    using take_bit_eq_mask[of 8 v] by (simp add: take_bit_eq_mod mask_eq_exp_minus_1)
  then show ?thesis by (simp add: uint_word_of_int)
qed

lemma be_fill_append: "be_fill n v out = be_fill n v [] @ out"
proof (induction n arbitrary: v out)
  case (Suc n)
  show ?case
    using Suc[of "drop_bit 8 v" "word_of_int (v AND 255) # out"]
      Suc[of "drop_bit 8 v" "[word_of_int (v AND 255)]"] by simp
qed simp

lemma length_be_fill [simp]: "length (be_fill n v out) = n + length out"
  by (induction n arbitrary: v out) auto

lemma fromBytesBE_be_fill: "fromBytesBE (be_fill n v []) = v mod 256 ^ n"
proof (induction n arbitrary: v)
  case (Suc n)
  have "be_fill (Suc n) v [] = be_fill n (drop_bit 8 v) [] @ [word_of_int (v AND 255)]"
    by (simp add: be_fill_append[of n "drop_bit 8 v" "[_]"])
  then have "fromBytesBE (be_fill (Suc n) v []) = (v div 256 mod 256 ^ n) * 256 + v mod 256"
    by (simp add: fromBytesBE_append fromBytesBE_Cons Suc uint_low_byte drop_bit_eq_div)
  also have "\<dots> = v mod 256 ^ Suc n"
    using mod_mult2_eq'[of v 256 "256 ^ n"] by (simp add: zmod_zmult2_eq mult.commute)
  finally show ?case .
qed simp

lemma toBytes32BE_Inr_iff: "(\<exists>bs. toBytes32BE x = Inr bs) \<longleftrightarrow> 0 \<le> x \<and> x < 2 ^ 256"
  by (auto simp: toBytes32BE_def push_bit_eq_mult)

lemma fromBytesBE_toBytes32BE:
  assumes "toBytes32BE x = Inr bs"
  shows "length bs = 32" and "fromBytesBE bs = x"
  using assms fromBytesBE_be_fill[of 32 x] length_be_fill[of 32 x "[]"]
  by (auto simp: toBytes32BE_def push_bit_eq_mult simp del: length_be_fill split: if_splits)

lemma toBytes32BE_canonical:
  "isCanonicalFr x \<Longrightarrow> toBytes32BE x = Inr (be_fill 32 x [])"
  by (simp add: toBytes32BE_def isCanonicalFr_def FR_MODULUS_def push_bit_eq_mult)

text \<open>Padding a big-endian array on the left with zero bytes does not change its value.\<close>

lemma fromBytesBE_zeros: "fromBytesBE (replicate k 0 @ bs) = fromBytesBE bs"
  by (induction k) (simp_all add: fromBytesBE_Cons)

lemma radix_unique:
  fixes a b c d n :: int
  assumes "c < n" and "d < n" and "a * n + c = b * n + d" and "0 \<le> c" and "0 \<le> d"
  shows "a = b \<and> c = d"
proof -
  have "(a * n + c) div n = a" using assms(1,4) by simp
  moreover have "(b * n + d) div n = b" using assms(2,5) by simp
  ultimately have "a = b" using assms(3) by metis
  with assms(3) show ?thesis by simp
qed

lemma fromBytesBE_inj:
  assumes "length xs = length ys" and "fromBytesBE xs = fromBytesBE ys"
  shows "xs = ys"
  using assms
proof (induction xs ys rule: list_induct2)
  case (Cons x xs y ys)
  let ?n = "256 ^ length xs :: int"
  have "uint x = uint y \<and> fromBytesBE xs = fromBytesBE ys"
  proof -
    have "fromBytesBE xs < ?n" and "fromBytesBE ys < ?n"
      using fromBytesBE_less[of xs] fromBytesBE_less[of ys] Cons.hyps by simp_all
    moreover have "uint x * ?n + fromBytesBE xs = uint y * ?n + fromBytesBE ys"
      using Cons.prems Cons.hyps by (simp add: fromBytesBE_Cons)
    ultimately show ?thesis
      using fromBytesBE_nonneg[of xs] fromBytesBE_nonneg[of ys] by (intro radix_unique)
  qed
  with Cons.IH show ?case by (simp add: word_uint_eq_iff)
qed simp


section \<open>Hexadecimal text\<close>

definition toHex32 :: "int \<Rightarrow> string" where
  "toHex32 x = ''0x'' @ padStart0 64 (toString16 (frMod x))"

definition has0x :: "string \<Rightarrow> bool" where
  "has0x h \<longleftrightarrow> startsWith ''0x'' h \<or> startsWith ''0X'' h"

definition fromHex :: "string \<Rightarrow> int res" where
  "fromHex h = BigInt_of (if has0x h then h else ''0x'' @ h)"

definition bytesToHex :: "byte list \<Rightarrow> string" where
  "bytesToHex b = concat (map (\<lambda>x. padStart0 2 (toString16 (uint x))) b)"

text \<open>
  \<^verbatim>\<open>parseInt(s, 16)\<close>: leading white space, a sign and a \<^verbatim>\<open>0x\<close> are skipped and the
  longest prefix of hexadecimal digits is read; \<^term>\<open>None\<close> (\<^verbatim>\<open>NaN\<close>) when it is empty. The
  store into a \<^verbatim>\<open>Uint8Array\<close> reduces modulo 256 and takes \<^verbatim>\<open>NaN\<close> to 0.
\<close>

definition parseInt16 :: "string \<Rightarrow> int option" where
  "parseInt16 s0 = (let s = dropWhile js_space s0;
     neg = startsWith ''-'' s;
     t = (if neg \<or> startsWith ''+'' s then drop 1 s else s);
     u = (if has0x t then drop 2 t else t);
     ds = takeWhile (\<lambda>c. hex_val c \<noteq> None) u
   in map_option (\<lambda>n. if neg then - n else n) (digits_value hex_val 16 ds))"

definition to_uint8 :: "int option \<Rightarrow> byte" where
  "to_uint8 n = (case n of None \<Rightarrow> 0 | Some x \<Rightarrow> word_of_int x)"

fun parse_pairs :: "string \<Rightarrow> byte list" where
  "parse_pairs (a # b # cs) = to_uint8 (parseInt16 [a, b]) # parse_pairs cs"
| "parse_pairs _ = []"

definition hexToBytes :: "string \<Rightarrow> byte list res" where
  "hexToBytes h = (let s = (if has0x h then drop 2 h else h) in
     if length s mod 2 \<noteq> 0 then Inl OddLengthHex else Inr (parse_pairs s))"

text \<open>
  \<^verbatim>\<open>randomScalar\<close> draws 32-byte samples from \<^verbatim>\<open>crypto.getRandomValues\<close> until one is
  accepted; the samples are its argument, and the result carries those not yet drawn.
\<close>

fun randomScalar :: "byte list list \<Rightarrow> (int \<times> byte list list) option" where
  "randomScalar [] = None"
| "randomScalar (bytes # rest) =
     (let v = fromBytesBE (bytes[0 := 0]) in
      if v \<noteq> 0 \<and> v < FR_MODULUS then Some (v, rest) else randomScalar rest)"

lemma frMod_digits: "toString16 (frMod x) = digits_of 16 (nat (frMod x))"
  using frMod_nonneg[of x] by (simp add: toString16_def linorder_not_less)

lemma frMod_nat_bound: "nat (frMod x) < 16 ^ 64"
proof -
  have "frMod x < 16 ^ 64" using frMod_less[of x] by (simp add: FR_MODULUS_def)
  then show ?thesis by (simp add: nat_less_iff)
qed

lemma length_toHex32: "length (toHex32 x) = 66"
  using length_digits_of[of 16 "nat (frMod x)" 64] frMod_nat_bound[of x]
  by (simp add: toHex32_def frMod_digits)

lemma has0x_toHex32 [simp]: "has0x (toHex32 x)"
  by (simp add: toHex32_def has0x_def startsWith_def)

lemma BigInt_toHex32 [simp]: "BigInt_of (toHex32 x) = Inr (frMod x)"
  using parse_bigint_hex[of 64 "nat (frMod x)"] frMod_nonneg[of x]
  by (simp add: BigInt_of_def toHex32_def frMod_digits)

lemma fromHex_toHex32_eq [simp]: "fromHex (toHex32 x) = Inr (frMod x)"
  by (simp add: fromHex_def)

lemma toHex32_inj: "toHex32 x = toHex32 y \<longleftrightarrow> frMod x = frMod y"
  by (metis fromHex_toHex32_eq frMod_idem sum.inject(2) toHex32_def)


lemma hex_pair:
  assumes "n < 256"
  shows "padStart0 2 (digits_of 16 n) = [hex_digit (n div 16), hex_digit (n mod 16)]"
proof (cases "n < 16")
  case True
  then show ?thesis by (simp add: padStart0_def digits_of.simps[of 16 n] hex_digit_0)
next
  case False
  moreover from assms have "n div 16 < 16" by simp
  ultimately show ?thesis
    by (simp add: padStart0_def digits_of.simps[of 16 n] digits_of.simps[of 16 "n div 16"])
qed

lemma parseInt16_pair:
  assumes "a < 16" and "b < 16"
  shows "parseInt16 [hex_digit a, hex_digit b] = Some (int (a * 16 + b))"
  using assms hex_digit_neq[OF assms(1)] hex_digit_neq[OF assms(2)]
  by (simp add: parseInt16_def startsWith_def has0x_def digits_value_def Let_def)

lemma unat_byte_less: "unat (x :: byte) < 256"
proof -
  have "int (unat x) < int 256" using uint_lt2p[of x] by simp
  then show ?thesis by (simp only: of_nat_less_iff)
qed

lemma hex_byte:
  "padStart0 2 (toString16 (uint (x :: byte))) = [hex_digit (unat x div 16), hex_digit (unat x mod 16)]"
  using hex_pair[of "unat x"] unat_byte_less[of x] by (simp add: toString16_def)

lemma bytesToHex_Cons:
  "bytesToHex (x # xs) = hex_digit (unat x div 16) # hex_digit (unat x mod 16) # bytesToHex xs"
  by (simp add: bytesToHex_def hex_byte)

lemma bytesToHex_Nil [simp]: "bytesToHex [] = []"
  by (simp add: bytesToHex_def)

lemma unat_byte_nibbles: "unat (x :: byte) div 16 < 16"
  using unat_byte_less[of x] by simp

lemma parse_pairs_bytesToHex: "parse_pairs (bytesToHex b) = b"
proof (induction b)
  case (Cons x xs)
  have "parseInt16 [hex_digit (unat x div 16), hex_digit (unat x mod 16)] = Some (uint x)"
    using parseInt16_pair[OF unat_byte_nibbles[of x], of "unat x mod 16"] by simp
  with Cons show ?case by (simp add: bytesToHex_Cons to_uint8_def)
qed simp

lemma length_bytesToHex: "length (bytesToHex b) = 2 * length b"
  by (induction b) (simp_all add: bytesToHex_Cons)

lemma has0x_bytesToHex [simp]: "\<not> has0x (bytesToHex b)"
proof (cases b)
  case (Cons x xs)
  then show ?thesis using hex_digit_neq[of "unat x mod 16"]
    by (simp add: bytesToHex_Cons has0x_def startsWith_def)
qed (simp add: has0x_def startsWith_def)

lemma hexToBytes_bytesToHex [simp]: "hexToBytes (bytesToHex b) = Inr b"
  by (simp add: hexToBytes_def length_bytesToHex parse_pairs_bytesToHex)

lemma hexToBytes_0x [simp]: "hexToBytes (''0x'' @ bytesToHex b) = Inr b"
  by (simp add: hexToBytes_def has0x_def startsWith_def length_bytesToHex parse_pairs_bytesToHex)

lemma bytesToHex_inj: "bytesToHex b = bytesToHex b' \<longleftrightarrow> b = b'"
  by (metis hexToBytes_bytesToHex sum.inject(2))

section \<open>Random scalars\<close>

lemma cleared_sample_bound:
  assumes "length bytes = 32"
  shows "fromBytesBE (bytes[0 := 0]) = fromBytesBE (tl bytes)" and "fromBytesBE (tl bytes) < 2 ^ 248"
proof -
  from assms obtain b bs where b: "bytes = b # bs" by (cases bytes) auto
  with assms fromBytesBE_less[of bs] show "fromBytesBE (tl bytes) < 2 ^ 248" by simp
  from b show "fromBytesBE (bytes[0 := 0]) = fromBytesBE (tl bytes)"
    by (simp add: fromBytesBE_Cons)
qed

lemma randomScalar_range: "randomScalar ss = Some (v, rest) \<Longrightarrow> 0 < v \<and> v < FR_MODULUS"
proof (induction ss rule: randomScalar.induct)
  case (2 bytes rest')
  then show ?case by (auto simp: Let_def less_le split: if_splits)
qed simp

text \<open>
  The test against the modulus never rejects, since the cleared top byte keeps the sample below
  \<^verbatim>\<open>2^248\<close>: a sample is rejected exactly when its other 31 bytes are zero.
\<close>

lemma randomScalar_step:
  assumes "length bytes = 32"
  shows "randomScalar (bytes # rest)
         = (if tl bytes = replicate 31 0 then randomScalar rest
            else Some (fromBytesBE (tl bytes), rest))"
proof -
  note c = cleared_sample_bound[OF assms]
  have lt: "fromBytesBE (tl bytes) < FR_MODULUS" using c(2) by (simp add: FR_MODULUS_def)
  have "fromBytesBE (tl bytes) = 0 \<longleftrightarrow> tl bytes = replicate 31 0"
  proof
    assume "fromBytesBE (tl bytes) = 0"
    moreover have "fromBytesBE (replicate 31 0) = 0"
      using fromBytesBE_zeros[of 31 "[]"] by simp
    ultimately show "tl bytes = replicate 31 0"
      using assms by (intro fromBytesBE_inj) simp_all
  next
    assume "tl bytes = replicate 31 0"
    then show "fromBytesBE (tl bytes) = 0" using fromBytesBE_zeros[of 31 "[]"] by simp
  qed
  with lt show ?thesis by (simp add: Let_def c(1))
qed

section \<open>Properties\<close>

text \<open>
  The 32-byte big-endian layout holds exactly the integers of 256 bits, a value it holds reads
  back, and on a canonical field element the layout is injective and never throws.
\<close>

theorem bytes32_roundtrip:
  "(\<forall>x. (\<exists>bs. toBytes32BE x = Inr bs \<and> length bs = 32 \<and> fromBytesBE bs = x) \<longleftrightarrow> 0 \<le> x \<and> x < 2 ^ 256)
   \<and> (\<forall>bs. length bs = 32 \<longrightarrow> toBytes32BE (fromBytesBE bs) = Inr bs)"
proof (intro conjI allI impI iffI)
  fix x :: int assume "0 \<le> x \<and> x < 2 ^ 256"
  then obtain bs where "toBytes32BE x = Inr bs" using toBytes32BE_Inr_iff by blast
  with fromBytesBE_toBytes32BE[OF this]
  show "\<exists>bs. toBytes32BE x = Inr bs \<and> length bs = 32 \<and> fromBytesBE bs = x" by blast
next
  fix bs :: "byte list" assume l: "length bs = 32"
  then have "fromBytesBE bs < 2 ^ 256" using fromBytesBE_less[of bs] by simp
  then obtain cs where c: "toBytes32BE (fromBytesBE bs) = Inr cs"
    using toBytes32BE_Inr_iff[of "fromBytesBE bs"] by auto
  with fromBytesBE_inj[of cs bs] fromBytesBE_toBytes32BE[OF c] l
  show "toBytes32BE (fromBytesBE bs) = Inr bs" by simp
qed (use toBytes32BE_Inr_iff in blast)+

theorem bytes32_roundtrip_witness:
  "toBytes32BE (fromBytesBE (replicate 31 0 @ [7])) = Inr (replicate 31 0 @ [7])"
  using bytes32_roundtrip by simp

text \<open>
  The 64-digit hexadecimal form of a field element reads back as its residue, two elements share
  a form exactly when they are congruent, and the bytes of a hexadecimal text read back with and
  without the prefix.
\<close>

theorem hex_roundtrip:
  "length (toHex32 x) = 66 \<and> fromHex (toHex32 x) = Inr (x mod FR_MODULUS)
   \<and> (toHex32 x = toHex32 y \<longleftrightarrow> x mod FR_MODULUS = y mod FR_MODULUS)
   \<and> hexToBytes (bytesToHex b) = Inr b \<and> hexToBytes (''0x'' @ bytesToHex b) = Inr b"
  using hexToBytes_0x[of b] by (simp add: length_toHex32 toHex32_inj frMod_mod)

text \<open>
  A drawn scalar is a nonzero canonical field element below \<^verbatim>\<open>2^248\<close>; of a stream of
  32-byte samples it is the first whose last 31 bytes are not all zero, so the comparison with the
  modulus never rejects a sample.
\<close>

theorem randomScalar_draw:
  assumes "length bytes = 32"
  shows "randomScalar (replicate k (b # replicate 31 0) @ bytes # rest)
    = (if tl bytes = replicate 31 0 then randomScalar rest else Some (fromBytesBE (tl bytes), rest))
    \<and> fromBytesBE (tl bytes) < 2 ^ 248
    \<and> (tl bytes \<noteq> replicate 31 0 \<longrightarrow> 0 < fromBytesBE (tl bytes) \<and> isCanonicalFr (fromBytesBE (tl bytes)))"
proof (intro conjI impI)
  show "randomScalar (replicate k (b # replicate 31 0) @ bytes # rest)
    = (if tl bytes = replicate 31 0 then randomScalar rest else Some (fromBytesBE (tl bytes), rest))"
    using randomScalar_step[OF assms, of rest] by (induction k) (simp_all add: randomScalar_step del: randomScalar.simps)
  show lt: "fromBytesBE (tl bytes) < 2 ^ 248" using cleared_sample_bound[OF assms] by simp
  assume "tl bytes \<noteq> replicate 31 0"
  with randomScalar_step[OF assms, of rest] have "randomScalar (bytes # rest) = Some (fromBytesBE (tl bytes), rest)"
    by simp
  from randomScalar_range[OF this]
  show "0 < fromBytesBE (tl bytes)" "isCanonicalFr (fromBytesBE (tl bytes))" by (simp_all add: isCanonicalFr_def)
qed

theorem randomScalar_draw_witness:
  "randomScalar [1 # replicate 31 0, 255 # 9 # replicate 30 0] = Some (9 * 256 ^ 30, [])"
  using randomScalar_draw[of "255 # 9 # replicate 30 0" 1 1 "[]"] fromBytesBE_zeros[of 30 "[]"]
  by (simp add: fromBytesBE_Cons replicate_Suc[of 30, simplified] del: randomScalar.simps)

end
