(* ===== verification/Primitives.thy ===== *)
theory Primitives
  imports Field
begin

text \<open>
  The two third-party packages the cryptographic layer stands on, as one record that every
  definition above takes as an argument: the curve class that \<^verbatim>\<open>weierstrassN\<close> of
  \<^verbatim>\<open>@noble/curves\<close> returns for the Grumpkin parameters, and the raw permutation of
  \<^verbatim>\<open>@zkpassport/poseidon2\<close>.

  \<^verbatim>\<open>curve_laws\<close> states what the code relies on: the points are an abelian group in which
  \<^verbatim>\<open>multiply\<close> is repeated addition and every element's order divides the curve order
  \<^const>\<open>FP_MODULUS\<close>; affine coordinates are canonical and round-trip; the second generator is
  a point of full order. The last section gives one concrete group of that order, in which the
  laws hold; the witnesses of the development use it.
\<close>

record 'p prims =
  multiply :: "int \<Rightarrow> 'p \<Rightarrow> 'p"
  padd :: "'p \<Rightarrow> 'p \<Rightarrow> 'p"
  pzero :: 'p
  is0 :: "'p \<Rightarrow> bool"
  pequals :: "'p \<Rightarrow> 'p \<Rightarrow> bool"
  toAffine :: "'p \<Rightarrow> int \<times> int"
  fromAffine :: "int \<times> int \<Rightarrow> 'p res"
  pbase :: 'p
  permute :: "int list \<Rightarrow> int list"

definition curve_laws :: "'p prims \<Rightarrow> bool" where
  "curve_laws K \<longleftrightarrow>
     (\<forall>P Q R. padd K (padd K P Q) R = padd K P (padd K Q R)) \<and>
     (\<forall>P Q. padd K P Q = padd K Q P) \<and>
     (\<forall>P. padd K (pzero K) P = P) \<and>
     (\<forall>P. is0 K P \<longleftrightarrow> P = pzero K) \<and>
     (\<forall>P Q. pequals K P Q \<longleftrightarrow> P = Q) \<and>
     (\<forall>P. multiply K 1 P = P) \<and>
     (\<forall>a. 0 < a \<and> a < FP_MODULUS \<longrightarrow> multiply K a (pzero K) = pzero K) \<and>
     (\<forall>a b P. 0 < a \<and> a < FP_MODULUS \<and> 0 < b \<and> b < FP_MODULUS \<longrightarrow>
        padd K (multiply K a P) (multiply K b P)
        = (if a + b = FP_MODULUS then pzero K else multiply K ((a + b) mod FP_MODULUS) P)) \<and>
     (\<forall>a b P. 0 < a \<and> a < FP_MODULUS \<and> 0 < b \<and> b < FP_MODULUS \<longrightarrow>
        multiply K a (multiply K b P) = multiply K b (multiply K a P)) \<and>
     (\<forall>P. P \<noteq> pzero K \<longrightarrow> fromAffine K (toAffine K P) = Inr P \<and> toAffine K P \<noteq> (0, 0)) \<and>
     (\<forall>P. isCanonicalFr (fst (toAffine K P)) \<and> isCanonicalFr (snd (toAffine K P))) \<and>
     (\<exists>h. fromAffine K (H_X, H_Y) = Inr h \<and>
        (\<forall>a. 0 < a \<and> a < FP_MODULUS \<longrightarrow> multiply K a h \<noteq> pzero K))"

named_theorems curve_simps \<open>the group of the curve\<close>

lemma curve_padd_assoc: "curve_laws K \<Longrightarrow> padd K (padd K P Q) R = padd K P (padd K Q R)"
  unfolding curve_laws_def by meson

lemma curve_padd_commute: "curve_laws K \<Longrightarrow> padd K P Q = padd K Q P"
  unfolding curve_laws_def by meson

lemma curve_padd_zero [curve_simps]: "curve_laws K \<Longrightarrow> padd K (pzero K) P = P"
  unfolding curve_laws_def by meson

lemma curve_padd_zero2 [curve_simps]: "curve_laws K \<Longrightarrow> padd K P (pzero K) = P"
  using curve_padd_commute[of K P "pzero K"] curve_padd_zero[of K P] by simp

lemma curve_is0 [curve_simps]: "curve_laws K \<Longrightarrow> is0 K P \<longleftrightarrow> P = pzero K"
  unfolding curve_laws_def by metis

lemma curve_pequals [curve_simps]: "curve_laws K \<Longrightarrow> pequals K P Q \<longleftrightarrow> P = Q"
  unfolding curve_laws_def by metis

lemma curve_multiply_1 [curve_simps]: "curve_laws K \<Longrightarrow> multiply K 1 P = P"
  unfolding curve_laws_def by meson

lemma curve_multiply_zero:
  "curve_laws K \<Longrightarrow> 0 < a \<Longrightarrow> a < FP_MODULUS \<Longrightarrow> multiply K a (pzero K) = pzero K"
  unfolding curve_laws_def by meson

lemma curve_multiply_add:
  assumes "curve_laws K" and "0 < a" "a < FP_MODULUS" and "0 < b" "b < FP_MODULUS"
  shows "padd K (multiply K a P) (multiply K b P)
         = (if a + b = FP_MODULUS then pzero K else multiply K ((a + b) mod FP_MODULUS) P)"
  using assms unfolding curve_laws_def by meson

lemma curve_multiply_commute:
  assumes "curve_laws K" and "0 < a" "a < FP_MODULUS" and "0 < b" "b < FP_MODULUS"
  shows "multiply K a (multiply K b P) = multiply K b (multiply K a P)"
  using assms unfolding curve_laws_def by meson

lemma curve_affine:
  assumes "curve_laws K" and "P \<noteq> pzero K"
  shows "fromAffine K (toAffine K P) = Inr P" and "toAffine K P \<noteq> (0, 0)"
  using assms unfolding curve_laws_def by meson+

lemma curve_affine_canonical:
  assumes "curve_laws K"
  shows "isCanonicalFr (fst (toAffine K P))" and "isCanonicalFr (snd (toAffine K P))"
  using assms unfolding curve_laws_def by meson+

lemma curve_H:
  assumes "curve_laws K"
  obtains h where "fromAffine K (H_X, H_Y) = Inr h"
    and "\<And>a. 0 < a \<Longrightarrow> a < FP_MODULUS \<Longrightarrow> multiply K a h \<noteq> pzero K"
  using assms unfolding curve_laws_def by meson

section \<open>A group of the curve's order\<close>

text \<open>
  The residues modulo \<^const>\<open>FP_MODULUS\<close> under addition, with the two generators at 3 and 1 and
  the residue itself, split at \<^const>\<open>FR_MODULUS\<close>, as affine coordinates.
\<close>

typedef residue = "{x :: int. 0 \<le> x \<and> x < FP_MODULUS}"
  by (rule exI[of _ 0]) simp

setup_lifting type_definition_residue

lift_definition res_of :: "int \<Rightarrow> residue" is "\<lambda>x. x mod FP_MODULUS"
  by simp

lift_definition res_add :: "residue \<Rightarrow> residue \<Rightarrow> residue" is "\<lambda>x y. (x + y) mod FP_MODULUS"
  by simp

lift_definition res_mul :: "int \<Rightarrow> residue \<Rightarrow> residue" is "\<lambda>a x. (a * x) mod FP_MODULUS"
  by simp

lift_definition res_affine :: "residue \<Rightarrow> int \<times> int" is "\<lambda>x. (x mod FR_MODULUS, x div FR_MODULUS)"
  .

definition residue_prims :: "(int list \<Rightarrow> int list) \<Rightarrow> residue prims" where
  "residue_prims pm = \<lparr>
     multiply = res_mul, padd = res_add, pzero = res_of 0,
     is0 = (\<lambda>P. P = res_of 0), pequals = (\<lambda>P Q. P = Q),
     toAffine = res_affine,
     fromAffine = (\<lambda>(x, y). if (x, y) = (H_X, H_Y) then Inr (res_of 1)
                            else Inr (res_of (x + FR_MODULUS * y))),
     pbase = res_of 3, permute = pm \<rparr>"


lemma residue_prims_sel [simp]:
  "multiply (residue_prims pm) = res_mul" "padd (residue_prims pm) = res_add"
  "pzero (residue_prims pm) = res_of 0" "is0 (residue_prims pm) P \<longleftrightarrow> P = res_of 0"
  "pequals (residue_prims pm) P Q \<longleftrightarrow> P = Q" "toAffine (residue_prims pm) = res_affine"
  "pbase (residue_prims pm) = res_of 3" "permute (residue_prims pm) = pm"
  by (simp_all add: residue_prims_def)

lemma residue_fromAffine:
  "fromAffine (residue_prims pm) (x, y)
   = (if (x, y) = (H_X, H_Y) then Inr (res_of 1) else Inr (res_of (x + FR_MODULUS * y)))"
  by (simp add: residue_prims_def)

lemma res_add_assoc: "res_add (res_add P Q) R = res_add P (res_add Q R)"
  by transfer (simp add: mod_add_left_eq mod_add_right_eq add.assoc)

lemma res_add_commute: "res_add P Q = res_add Q P"
  by transfer (simp add: add.commute)

lemma res_add_zero: "res_add (res_of 0) P = P"
  by transfer simp

lemma res_mul_1: "res_mul 1 P = P"
  by transfer simp

lemma res_mul_zero: "res_mul a (res_of 0) = res_of 0"
  by transfer simp

lemma res_mul_add: "res_add (res_mul a P) (res_mul b P) = res_mul ((a + b) mod FP_MODULUS) P"
  by transfer (simp add: mod_add_eq mod_mult_left_eq ring_distribs)

lemma res_mul_FP: "res_mul 0 P = res_of 0"
  by transfer simp

lemma res_mul_commute: "res_mul a (res_mul b P) = res_mul b (res_mul a P)"
  by transfer (simp add: mod_mult_right_eq mult.left_commute)

lemma res_mul_one: "0 < a \<Longrightarrow> a < FP_MODULUS \<Longrightarrow> res_mul a (res_of 1) \<noteq> res_of 0"
  by transfer (simp add: FP_MODULUS_def)

lemma res_affine_bounds:
  "isCanonicalFr (fst (res_affine P))" "0 \<le> snd (res_affine P)" "snd (res_affine P) \<le> 1"
proof -
  show "isCanonicalFr (fst (res_affine P))"
    by transfer (simp add: isCanonicalFr_def)
  show "0 \<le> snd (res_affine P)"
    by transfer (simp add: pos_imp_zdiv_nonneg_iff)
  show "snd (res_affine P) \<le> 1"
  proof transfer
    fix x :: int
    assume "0 \<le> x \<and> x < FP_MODULUS"
    with FP_lt_2FR have "x div FR_MODULUS \<le> (2 * FR_MODULUS - 1) div FR_MODULUS"
      by (intro zdiv_mono1) simp_all
    moreover have "(2 * FR_MODULUS - 1) div FR_MODULUS = 1" by (simp add: FR_MODULUS_def)
    ultimately show "snd (x mod FR_MODULUS, x div FR_MODULUS) \<le> 1" by simp
  qed
qed

lemma res_affine_join: "res_of (fst (res_affine P) + FR_MODULUS * snd (res_affine P)) = P"
  by transfer (simp add: mod_mult_div_eq)

lemma res_affine_zero: "res_affine P = (0, 0) \<Longrightarrow> P = res_of 0"
  using res_affine_join[of P] by simp

theorem residue_curve_laws: "curve_laws (residue_prims pm)"
proof -
  have aff: "fromAffine (residue_prims pm) (res_affine P) = Inr P" for P
  proof -
    obtain x y where xy: "res_affine P = (x, y)" by (cases "res_affine P")
    with res_affine_bounds(3)[of P] have "y \<noteq> H_Y" by (auto simp: H_Y_def)
    with xy res_affine_join[of P] show ?thesis by (simp add: residue_fromAffine)
  qed
  have can: "isCanonicalFr (snd (res_affine P))" for P
    using res_affine_bounds(2,3)[of P] by (simp add: isCanonicalFr_def FR_MODULUS_def)
  have sum: "res_add (res_mul a P) (res_mul b P)
      = (if a + b = FP_MODULUS then res_of 0 else res_mul ((a + b) mod FP_MODULUS) P)" for a b P
    by (simp add: res_mul_add res_mul_FP)
  show ?thesis
    unfolding curve_laws_def residue_prims_sel
    using aff can sum res_affine_bounds(1) res_affine_zero res_mul_one
    by (intro conjI allI impI)
      (auto simp: res_add_assoc res_add_zero res_mul_1 res_mul_zero residue_fromAffine
        intro: res_add_commute res_mul_commute)
qed

end
