(* ===== verification/Grumpkin.thy ===== *)
theory Grumpkin
  imports Primitives
begin

text \<open>
  \<^verbatim>\<open>crypto/grumpkin.ts\<close>: the wrapper of the curve class. \<^verbatim>\<open>K\<close> is the record of
  third-party primitives. Shown here: scalar multiplication is a homomorphism from the integers,
  a Pedersen commitment is additive in the integers and its blinding factor lives modulo
  \<^const>\<open>FP_MODULUS\<close> (not \<^const>\<open>FR_MODULUS\<close>), Diffie-Hellman agrees on both sides, and the
  64-byte layout round-trips.
\<close>

section \<open>Operations\<close>

definition G :: "'p prims \<Rightarrow> 'p" where
  "G K = pbase K"

text \<open>The module constant \<^verbatim>\<open>H\<close>: an exception here is a module that does not load.\<close>

definition H :: "'p prims \<Rightarrow> 'p" where
  "H K = catch (fromAffine K (H_X, H_Y)) (pzero K)"

definition isIdentity :: "'p prims \<Rightarrow> 'p \<Rightarrow> bool" where
  "isIdentity K p = is0 K p"

definition scalarMul :: "'p prims \<Rightarrow> int \<Rightarrow> 'p \<Rightarrow> 'p" where
  "scalarMul K scalar p =
     (let s = js_rem scalar FP_MODULUS; s = (if s < 0 then s + FP_MODULUS else s) in
      if s = 0 then pzero K else multiply K s p)"

definition commit :: "'p prims \<Rightarrow> int \<Rightarrow> int \<Rightarrow> 'p" where
  "commit K value randomness = padd K (scalarMul K value (G K)) (scalarMul K randomness (H K))"

definition ecdh :: "'p prims \<Rightarrow> int \<Rightarrow> 'p \<Rightarrow> int res" where
  "ecdh K scalar p =
     (let s = scalarMul K scalar p in if is0 K s then Inl DegenerateKey else Inr (fst (toAffine K s)))"

definition pointCoords :: "'p prims \<Rightarrow> 'p \<Rightarrow> int \<times> int" where
  "pointCoords K p = (if is0 K p then (0, 0) else toAffine K p)"

definition pointToBytes :: "'p prims \<Rightarrow> 'p \<Rightarrow> byte list res" where
  "pointToBytes K p =
     (if is0 K p then Inr (replicate 64 0)
      else case toAffine K p of (x, y) \<Rightarrow>
        rbind (toBytes32BE x) (\<lambda>bx. rmap (\<lambda>by. bx @ by) (toBytes32BE y)))"

definition pointFromBytes :: "'p prims \<Rightarrow> byte list \<Rightarrow> 'p res" where
  "pointFromBytes K b =
     (if length b \<noteq> 64 then Inl (BadLength 64 (length b))
      else if list_all (\<lambda>byte. byte = 0) b then Inr (pzero K)
      else fromAffine K (fromBytesBE (take 32 b), fromBytesBE (drop 32 b)))"

section \<open>Scalar multiplication\<close>

lemma scalarMul_mod:
  "scalarMul K a P = (if a mod FP_MODULUS = 0 then pzero K else multiply K (a mod FP_MODULUS) P)"
  unfolding scalarMul_def Let_def js_rem_shift[OF FP_pos] ..

lemma scalarMul_zero [simp]: "scalarMul K 0 P = pzero K"
  by (simp add: scalarMul_mod)

lemma scalarMul_reduce: "scalarMul K (a mod FP_MODULUS) P = scalarMul K a P"
  by (simp add: scalarMul_mod)

lemma mod_FP_range:
  assumes "a mod FP_MODULUS \<noteq> 0"
  shows "0 < a mod FP_MODULUS" and "a mod FP_MODULUS < FP_MODULUS"
  using assms pos_mod_sign[OF FP_pos, of a] pos_mod_bound[OF FP_pos, of a] by linarith+

lemma scalarMul_of_zero: "curve_laws K \<Longrightarrow> scalarMul K a (pzero K) = pzero K"
  using mod_FP_range[of a] by (simp add: scalarMul_mod curve_multiply_zero)

lemma scalarMul_add:
  assumes "curve_laws K"
  shows "padd K (scalarMul K a P) (scalarMul K b P) = scalarMul K (a + b) P"
proof -
  let ?a = "a mod FP_MODULUS" and ?b = "b mod FP_MODULUS"
  consider "?a = 0" | "?b = 0" | "?a \<noteq> 0" "?b \<noteq> 0" by blast
  then show ?thesis
  proof cases
    case 1
    then have "(a + b) mod FP_MODULUS = ?b" by (simp add: mod_add_left_eq[symmetric])
    with 1 assms show ?thesis by (simp add: scalarMul_mod curve_simps)
  next
    case 2
    then have "(a + b) mod FP_MODULUS = ?a" by (simp add: mod_add_right_eq[symmetric])
    with 2 assms show ?thesis by (simp add: scalarMul_mod curve_simps)
  next
    case 3
    note ra = mod_FP_range[OF 3(1)] and rb = mod_FP_range[OF 3(2)]
    have sum: "(a + b) mod FP_MODULUS = (?a + ?b) mod FP_MODULUS" by (simp add: mod_add_eq)
    have "(?a + ?b) mod FP_MODULUS = 0 \<longleftrightarrow> ?a + ?b = FP_MODULUS"
    proof
      assume "(?a + ?b) mod FP_MODULUS = 0"
      then obtain k where "?a + ?b = FP_MODULUS * k" by (auto elim: dvdE)
      moreover have "0 < ?a + ?b" and "?a + ?b < FP_MODULUS * 2" using ra rb by linarith+
      ultimately have "0 < k" and "k < 2" using FP_pos by (auto simp: zero_less_mult_iff)
      with \<open>?a + ?b = FP_MODULUS * k\<close> show "?a + ?b = FP_MODULUS" by simp
    qed simp
    with 3 sum curve_multiply_add[OF assms ra rb] show ?thesis by (simp add: scalarMul_mod)
  qed
qed

lemma scalarMul_commute:
  assumes "curve_laws K"
  shows "scalarMul K a (scalarMul K b P) = scalarMul K b (scalarMul K a P)"
proof (cases "a mod FP_MODULUS = 0 \<or> b mod FP_MODULUS = 0")
  case True
  moreover have "scalarMul K c Q = pzero K" if "c mod FP_MODULUS = 0" for c Q
    using that by (simp add: scalarMul_mod)
  ultimately show ?thesis using scalarMul_of_zero[OF assms] by auto
next
  case False
  then show ?thesis
    using curve_multiply_commute[OF assms mod_FP_range[of a] mod_FP_range[of b]]
    by (simp add: scalarMul_mod)
qed

lemma H_ne_zero:
  assumes "curve_laws K" and "a mod FP_MODULUS \<noteq> 0"
  shows "scalarMul K a (H K) \<noteq> pzero K"
proof -
  obtain h where "fromAffine K (H_X, H_Y) = Inr h"
    and "\<And>a. 0 < a \<Longrightarrow> a < FP_MODULUS \<Longrightarrow> multiply K a h \<noteq> pzero K"
    by (rule curve_H[OF assms(1)]) blast
  with assms(2) mod_FP_range[OF assms(2)] show ?thesis by (simp add: scalarMul_mod H_def)
qed

lemma scalarMul_cancel:
  assumes "curve_laws K" and "padd K P (scalarMul K a Q) = padd K R (scalarMul K a Q)"
  shows "P = R"
proof -
  have inv: "padd K (scalarMul K a Q) (scalarMul K (- a) Q) = pzero K"
    using scalarMul_add[OF assms(1), of a Q "- a"] by simp
  have "padd K (padd K P (scalarMul K a Q)) (scalarMul K (- a) Q)
      = padd K (padd K R (scalarMul K a Q)) (scalarMul K (- a) Q)" using assms(2) by simp
  with inv assms(1) show ?thesis by (simp add: curve_padd_assoc curve_padd_zero2)
qed

section \<open>Pedersen commitments\<close>

lemma padd_swap:
  assumes "curve_laws K"
  shows "padd K (padd K a b) (padd K c d) = padd K (padd K a c) (padd K b d)"
  by (metis assms curve_padd_assoc curve_padd_commute)

lemma commit_add:
  assumes "curve_laws K"
  shows "padd K (commit K v r) (commit K v' r') = commit K (v + v') (r + r')"
  unfolding commit_def
  by (subst padd_swap[OF assms]) (simp add: scalarMul_add[OF assms])

lemma commit_zero: "curve_laws K \<Longrightarrow> commit K 0 0 = pzero K"
  by (simp add: commit_def curve_simps)

lemma commit_blinding:
  assumes "curve_laws K"
  shows "commit K v r = commit K v r' \<longleftrightarrow> r mod FP_MODULUS = r' mod FP_MODULUS"
proof
  assume eq: "commit K v r = commit K v r'"
  have "commit K v r = padd K (scalarMul K (r - r') (H K)) (padd K (scalarMul K r' (H K))
          (scalarMul K v (G K)))"
    using assms scalarMul_add[OF assms, of "r - r'" "H K" r']
    by (simp add: commit_def curve_padd_commute[of K _ "scalarMul K r (H K)"]
        flip: curve_padd_assoc)
  moreover have "commit K v r' = padd K (pzero K) (padd K (scalarMul K r' (H K))
          (scalarMul K v (G K)))"
    using assms by (simp add: commit_def curve_simps curve_padd_commute)
  ultimately have "padd K (padd K (scalarMul K (r - r') (H K)) (scalarMul K v (G K)))
        (scalarMul K r' (H K))
      = padd K (padd K (pzero K) (scalarMul K v (G K))) (scalarMul K r' (H K))"
    using eq assms by (metis curve_padd_assoc curve_padd_commute)
  then have "padd K (scalarMul K (r - r') (H K)) (scalarMul K v (G K))
      = padd K (pzero K) (scalarMul K v (G K))" by (rule scalarMul_cancel[OF assms])
  then have "scalarMul K (r - r') (H K) = pzero K" by (rule scalarMul_cancel[OF assms])
  with H_ne_zero[OF assms] have "(r - r') mod FP_MODULUS = 0" by blast
  then show "r mod FP_MODULUS = r' mod FP_MODULUS" by (simp add: mod_eq_dvd_iff mod_0_imp_dvd)
next
  assume "r mod FP_MODULUS = r' mod FP_MODULUS"
  then show "commit K v r = commit K v r'"
    using scalarMul_reduce[of K r "H K"] scalarMul_reduce[of K r' "H K"] by (simp add: commit_def)
qed

section \<open>Diffie-Hellman\<close>

lemma ecdh_agree:
  assumes "curve_laws K"
  shows "ecdh K a (scalarMul K b (H K)) = ecdh K b (scalarMul K a (H K))"
  by (simp add: ecdh_def scalarMul_commute[OF assms, of a b])

section \<open>Encoding\<close>

lemma pointCoords_canonical:
  assumes "curve_laws K" and "pointCoords K P = (x, y)"
  shows "isCanonicalFr x" and "isCanonicalFr y"
  using assms curve_affine_canonical[OF assms(1), of P]
  by (auto simp: pointCoords_def isCanonicalFr_def split: if_splits)

lemma pointCoords_inj:
  assumes "curve_laws K" and "pointCoords K P = pointCoords K Q"
  shows "P = Q"
proof (cases "P = pzero K \<or> Q = pzero K")
  case True
  with assms curve_affine(2)[OF assms(1)] show ?thesis
    by (auto simp: pointCoords_def curve_simps split: if_splits dest: sym)
next
  case False
  with assms have "toAffine K P = toAffine K Q" by (simp add: pointCoords_def curve_simps)
  with False curve_affine(1)[OF assms(1)] show ?thesis by (metis sum.inject(2))
qed

lemma be_fill_zero_iff:
  assumes "isCanonicalFr x" and "toBytes32BE x = Inr bs"
  shows "list_all (\<lambda>b. b = 0) bs \<longleftrightarrow> x = 0"
proof -
  note bs = fromBytesBE_toBytes32BE[OF assms(2)]
  have "list_all (\<lambda>b. b = 0) bs \<longleftrightarrow> bs = replicate 32 0"
    using bs(1) by (auto simp: list_all_iff replicate_eqI intro: replicate_eqI[symmetric])
  also have "\<dots> \<longleftrightarrow> x = 0"
    using bs fromBytesBE_inj[of bs "replicate 32 0"] fromBytesBE_zeros[of 32 "[]"] by auto
  finally show ?thesis .
qed

lemma pointToBytes_ok:
  assumes "curve_laws K"
  obtains bs where "pointToBytes K P = Inr bs" and "length bs = 64" and "pointFromBytes K bs = Inr P"
proof (cases "P = pzero K")
  case True
  with assms that[of "replicate 64 0"] show ?thesis
    by (simp add: pointToBytes_def pointFromBytes_def curve_simps list_all_iff)
next
  case False
  obtain x y where xy: "toAffine K P = (x, y)" by (cases "toAffine K P")
  with curve_affine_canonical[OF assms, of P]
  have can: "isCanonicalFr x" "isCanonicalFr y" by simp_all
  define bx by' where "bx = be_fill 32 x []" and "by' = be_fill 32 y []"
  from can have enc: "toBytes32BE x = Inr bx" "toBytes32BE y = Inr by'"
    by (simp_all add: toBytes32BE_canonical bx_def by'_def)
  note vx = fromBytesBE_toBytes32BE[OF enc(1)] and vy = fromBytesBE_toBytes32BE[OF enc(2)]
  have "\<not> list_all (\<lambda>b. b = 0) (bx @ by')"
    using curve_affine(2)[OF assms False] xy be_fill_zero_iff[OF can(1) enc(1)]
      be_fill_zero_iff[OF can(2) enc(2)] by simp
  then have "pointFromBytes K (bx @ by') = Inr P"
    using vx vy xy curve_affine(1)[OF assms False]
    by (simp add: pointFromBytes_def del: list_all_append)
  moreover have "pointToBytes K P = Inr (bx @ by')"
    using assms False xy enc by (simp add: pointToBytes_def curve_simps)
  ultimately show ?thesis using that vx vy by simp
qed

section \<open>Properties\<close>

text \<open>
  Every point has a 64-byte layout that decodes to it, and no two points share one; the identity
  is the layout of zeros.
\<close>

theorem point_bytes_roundtrip:
  assumes "curve_laws K"
  shows "\<exists>bs. pointToBytes K P = Inr bs \<and> length bs = 64 \<and> pointFromBytes K bs = Inr P
    \<and> (bs = replicate 64 0 \<longleftrightarrow> isIdentity K P) \<and> (pointToBytes K Q = Inr bs \<longrightarrow> Q = P)"
proof -
  obtain bs where bs: "pointToBytes K P = Inr bs" "length bs = 64" "pointFromBytes K bs = Inr P"
    by (rule pointToBytes_ok[OF assms, of P])
  have z: "pointFromBytes K (replicate 64 0) = Inr (pzero K)"
    by (simp add: pointFromBytes_def list_all_iff)
  have "bs = replicate 64 0 \<longleftrightarrow> isIdentity K P"
    using bs z assms by (auto simp: isIdentity_def curve_simps pointToBytes_def)
  moreover have "Q = P" if q: "pointToBytes K Q = Inr bs"
  proof -
    obtain cs where "pointToBytes K Q = Inr cs" "pointFromBytes K cs = Inr Q"
      by (rule pointToBytes_ok[OF assms, of Q])
    with q bs(3) show ?thesis by simp
  qed
  ultimately show ?thesis using bs by blast
qed

theorem point_bytes_roundtrip_witness:
  "\<exists>bs. pointToBytes (residue_prims (\<lambda>s. s)) (res_of 5) = Inr bs
    \<and> pointFromBytes (residue_prims (\<lambda>s. s)) bs = Inr (res_of 5)"
  using point_bytes_roundtrip[OF residue_curve_laws, of "\<lambda>s. s" "res_of 5"] by blast

text \<open>
  Pedersen commitments add like the integers they commit to, the blinding factor of a commitment
  is determined up to the curve's order, and Diffie-Hellman gives both sides one secret.
\<close>

theorem pedersen_homomorphic:
  assumes "curve_laws K"
  shows "padd K (commit K v r) (commit K v' r') = commit K (v + v') (r + r')
    \<and> (commit K v r = commit K v r' \<longleftrightarrow> r mod FP_MODULUS = r' mod FP_MODULUS)
    \<and> ecdh K a (scalarMul K b (H K)) = ecdh K b (scalarMul K a (H K))"
  using commit_add[OF assms] commit_blinding[OF assms] ecdh_agree[OF assms] by blast

theorem pedersen_homomorphic_witness:
  "padd (residue_prims (\<lambda>s. s)) (commit (residue_prims (\<lambda>s. s)) 1 2) (commit (residue_prims (\<lambda>s. s)) 3 4)
     = commit (residue_prims (\<lambda>s. s)) (1 + 3) (2 + 4)"
  by (rule pedersen_homomorphic[OF residue_curve_laws, THEN conjunct1])

end
