(* ===== verification/Poseidon2.thy ===== *)
theory Poseidon2
  imports Primitives
begin

text \<open>
  \<^verbatim>\<open>crypto/poseidon2.ts\<close>: the sponge over the third-party permutation, the derivations
  built on it and the scalar ciphertexts. A ciphertext is a plaintext plus a mask that both ends
  derive; the locale \<^verbatim>\<open>masked_channel\<close> is that contract (sealed values are canonical and
  open to the plaintext), and every pair of the file interprets it. \<^verbatim>\<open>pm\<close> is the permutation.
\<close>

section \<open>The sponge\<close>

text \<open>
  Three elements are added into the state per permutation; a remainder of one or two is added and
  permuted once more.
\<close>

fun absorb :: "(int list \<Rightarrow> int list) \<Rightarrow> int list \<Rightarrow> int list \<Rightarrow> int list" where
  "absorb pm state (a # b # c # rest) =
     absorb pm (pm (state[0 := frAdd (state ! 0) a, 1 := frAdd (state ! 1) b, 2 := frAdd (state ! 2) c])) rest"
| "absorb pm state [a, b] = pm (state[0 := frAdd (state ! 0) a, 1 := frAdd (state ! 1) b])"
| "absorb pm state [a] = pm (state[0 := frAdd (state ! 0) a])"
| "absorb pm state [] = state"

definition sponge :: "(int list \<Rightarrow> int list) \<Rightarrow> int list \<Rightarrow> int" where
  "sponge pm inputs =
     (let iv = frMod (int (length inputs) * POSEIDON2_IV_BASE)
      in absorb pm [0, 0, 0, iv] inputs ! 0)"

definition poseidonWithDomain :: "(int list \<Rightarrow> int list) \<Rightarrow> domain \<Rightarrow> int list \<Rightarrow> int" where
  "poseidonWithDomain pm d inputs = sponge pm (DOMAIN d # inputs)"

definition spongeSqueeze2 :: "(int list \<Rightarrow> int list) \<Rightarrow> domain \<Rightarrow> int \<Rightarrow> int \<Rightarrow> int \<times> int" where
  "spongeSqueeze2 pm d sx sigma =
     (let iv = frMod (3 * POSEIDON2_IV_BASE); state = pm [DOMAIN d, sx, sigma, iv]
      in (state ! 0, state ! 1))"

section \<open>Derivations\<close>

definition vkFromSk :: "(int list \<Rightarrow> int list) \<Rightarrow> int \<Rightarrow> int \<Rightarrow> int" where
  "vkFromSk pm sk addrF = poseidonWithDomain pm VIEWING_KEY [sk, addrF]"

definition dvkFromVkOp :: "(int list \<Rightarrow> int list) \<Rightarrow> int \<Rightarrow> int \<Rightarrow> int" where
  "dvkFromVkOp pm vk opI = poseidonWithDomain pm DELEGATION_VIEWING_KEY [vk, opI]"

definition deriveSpendR :: "(int list \<Rightarrow> int list) \<Rightarrow> int \<Rightarrow> int \<Rightarrow> int" where
  "deriveSpendR pm vk sigma = poseidonWithDomain pm SPEND_RANDOMNESS [vk, sigma]"

definition deriveAllowR :: "(int list \<Rightarrow> int list) \<Rightarrow> int \<Rightarrow> int \<Rightarrow> int" where
  "deriveAllowR pm dvk sigmaA = poseidonWithDomain pm ALLOWANCE_RANDOMNESS [dvk, sigmaA]"

definition deriveTxBlind :: "(int list \<Rightarrow> int list) \<Rightarrow> int \<Rightarrow> int \<Rightarrow> int" where
  "deriveTxBlind pm s sigma = poseidonWithDomain pm TX_BLINDING [s, sigma]"

definition deriveEphemeralRE :: "(int list \<Rightarrow> int list) \<Rightarrow> int \<Rightarrow> int \<Rightarrow> int res" where
  "deriveEphemeralRE pm vk sigma =
     (let rE = poseidonWithDomain pm EPHEMERAL_KEY [vk, sigma]
      in if rE = 0 then Inl ZeroEphemeral else Inr rE)"

section \<open>Scalar ciphertexts\<close>

definition encryptAmount :: "(int list \<Rightarrow> int list) \<Rightarrow> int \<Rightarrow> int \<Rightarrow> int \<Rightarrow> int" where
  "encryptAmount pm vTx s sigma = frAdd vTx (poseidonWithDomain pm TX_AMOUNT [s, sigma])"

definition encryptBalance :: "(int list \<Rightarrow> int list) \<Rightarrow> int \<Rightarrow> int \<Rightarrow> int \<Rightarrow> int" where
  "encryptBalance pm vNew vk sigma = frAdd vNew (poseidonWithDomain pm ENCRYPTED_BALANCE [vk, sigma])"

definition encryptAllowance :: "(int list \<Rightarrow> int list) \<Rightarrow> int \<Rightarrow> int \<Rightarrow> int \<Rightarrow> int" where
  "encryptAllowance pm vA dvk sigmaA =
     frAdd vA (poseidonWithDomain pm ENCRYPTED_ALLOWANCE [dvk, sigmaA])"

definition encryptEscDvk :: "(int list \<Rightarrow> int list) \<Rightarrow> int \<Rightarrow> int \<Rightarrow> int \<Rightarrow> int" where
  "encryptEscDvk pm dvk s opI =
     frAdd dvk (poseidonWithDomain pm ESCROWED_DELEGATION_VIEWING_KEY [s, opI])"

definition encryptAuditorSenderBalance :: "(int list \<Rightarrow> int list) \<Rightarrow> int \<Rightarrow> int \<Rightarrow> int \<Rightarrow> int" where
  "encryptAuditorSenderBalance pm vNew sAsX sigma =
     frAdd vNew (poseidonWithDomain pm AUDITOR_SENDER [sAsX, sigma])"

definition encryptDisclosure :: "(int list \<Rightarrow> int list) \<Rightarrow> int \<Rightarrow> int \<Rightarrow> int \<Rightarrow> int" where
  "encryptDisclosure pm vTx sDiscX nu = frAdd vTx (poseidonWithDomain pm DISCLOSURE [sDiscX, nu])"

definition decryptWithDomain :: "(int list \<Rightarrow> int list) \<Rightarrow> int \<Rightarrow> domain \<Rightarrow> int \<Rightarrow> int \<Rightarrow> int" where
  "decryptWithDomain pm ciphertext d a b = frMod (ciphertext - poseidonWithDomain pm d [a, b])"

section \<open>The contract of a masked channel\<close>

text \<open>
  Both ends hold a shared key and a public salt. What the sealing end emits is a canonical field
  element; the opening end, with the same key and salt, reads the plaintext modulo the field.
\<close>

locale masked_channel =
  fixes seal :: "int \<Rightarrow> int \<Rightarrow> int \<Rightarrow> int"
    and unseal :: "int \<Rightarrow> int \<Rightarrow> int \<Rightarrow> int"
  assumes unseal_seal: "unseal (seal v k s) k s = frMod v"
    and seal_canonical: "isCanonicalFr (seal v k s)"
begin

lemma open_plain: "isCanonicalFr v \<Longrightarrow> unseal (seal v k s) k s = v"
  by (simp add: unseal_seal frMod_id)

lemma open_amount: "0 \<le> v \<Longrightarrow> v < 2 ^ 127 \<Longrightarrow> unseal (seal v k s) k s = v"
  by (simp add: open_plain amount_canonical)

lemma seal_inj: "seal v k s = seal v' k s \<Longrightarrow> frMod v = frMod v'"
  by (metis unseal_seal)

lemma seal_nonneg: "0 \<le> seal v k s"
  using seal_canonical by (simp add: isCanonicalFr_def)

lemma seal_hex: "fromHex (toHex32 (seal v k s)) = Inr (seal v k s)"
  by (simp add: frMod_id seal_canonical)

end

named_theorems mask_simps \<open>opening what was sealed\<close>

interpretation amount_channel: masked_channel "encryptAmount pm"
  "\<lambda>c k s. decryptWithDomain pm c TX_AMOUNT k s" for pm
  by unfold_locales (simp_all add: encryptAmount_def decryptWithDomain_def frMod_unmask)

interpretation balance_channel: masked_channel "encryptBalance pm"
  "\<lambda>c k s. decryptWithDomain pm c ENCRYPTED_BALANCE k s" for pm
  by unfold_locales (simp_all add: encryptBalance_def decryptWithDomain_def frMod_unmask)

interpretation allowance_channel: masked_channel "encryptAllowance pm"
  "\<lambda>c k s. decryptWithDomain pm c ENCRYPTED_ALLOWANCE k s" for pm
  by unfold_locales (simp_all add: encryptAllowance_def decryptWithDomain_def frMod_unmask)

interpretation escrow_channel: masked_channel "encryptEscDvk pm"
  "\<lambda>c k s. decryptWithDomain pm c ESCROWED_DELEGATION_VIEWING_KEY k s" for pm
  by unfold_locales (simp_all add: encryptEscDvk_def decryptWithDomain_def frMod_unmask)

interpretation auditor_balance_channel: masked_channel "encryptAuditorSenderBalance pm"
  "\<lambda>c k s. decryptWithDomain pm c AUDITOR_SENDER k s" for pm
  by unfold_locales (simp_all add: encryptAuditorSenderBalance_def decryptWithDomain_def frMod_unmask)

interpretation disclosure_channel: masked_channel "encryptDisclosure pm"
  "\<lambda>c k s. decryptWithDomain pm c DISCLOSURE k s" for pm
  by unfold_locales (simp_all add: encryptDisclosure_def decryptWithDomain_def frMod_unmask)

lemmas [mask_simps] =
  amount_channel.unseal_seal balance_channel.unseal_seal allowance_channel.unseal_seal
  escrow_channel.unseal_seal auditor_balance_channel.unseal_seal disclosure_channel.unseal_seal

section \<open>The absorbed block\<close>

text \<open>
  A domain tag and two inputs are exactly one rate block, so a key or mask derivation costs one
  permutation, of the tag, the two inputs and the length tag \<^verbatim>\<open>3 * 2^64\<close>. The two-squeeze
  sponge permutes the same block, so its first element is the one-squeeze mask of the same inputs.
\<close>

lemma DOMAIN_canonical: "isCanonicalFr (DOMAIN d)"
  by (cases d) (simp_all add: isCanonicalFr_def FR_MODULUS_def)

lemma frAdd_0 [simp]: "frAdd 0 x = frMod x"
  by (simp add: frAdd_def)

lemma poseidon_one_block:
  "poseidonWithDomain pm d [a, b]
   = pm [DOMAIN d, frMod a, frMod b, frMod (3 * POSEIDON2_IV_BASE)] ! 0"
  by (simp add: poseidonWithDomain_def sponge_def frMod_id[OF DOMAIN_canonical])

lemma squeeze2_fst:
  assumes "isCanonicalFr sx" and "isCanonicalFr sigma"
  shows "fst (spongeSqueeze2 pm d sx sigma) = poseidonWithDomain pm d [sx, sigma]"
  using assms by (simp add: spongeSqueeze2_def poseidon_one_block frMod_id Let_def)

end
