(* ===== verification/Keys.thy ===== *)
theory Keys
  imports Grumpkin Poseidon2
begin

text \<open>
  \<^verbatim>\<open>crypto/address.ts\<close> and \<^verbatim>\<open>crypto/keys.ts\<close>: the contract address as a field
  element, and the key set that is a function of the secret and that element.
\<close>

section \<open>Addresses\<close>

definition STRKEY_LEN :: nat where "STRKEY_LEN = 56"

definition STRKEY_LIMB_LEN :: nat where "STRKEY_LIMB_LEN = 28"

text \<open>\<^verbatim>\<open>new TextEncoder().encode(s)\<close> of an ASCII text.\<close>

definition encode_ascii :: "string \<Rightarrow> byte list" where
  "encode_ascii s = map (\<lambda>c. word_of_int (int (of_char c))) s"

definition addressToField :: "(int list \<Rightarrow> int list) \<Rightarrow> string \<Rightarrow> int res" where
  "addressToField pm strkey =
     (let ascii = encode_ascii strkey in
      if length ascii \<noteq> STRKEY_LEN then Inl (BadStrkey (length ascii) strkey)
      else let lo = fromBytesLE (take STRKEY_LIMB_LEN ascii);
               hi = fromBytesLE (take (STRKEY_LEN - STRKEY_LIMB_LEN) (drop STRKEY_LIMB_LEN ascii))
           in Inr (poseidonWithDomain pm ADDRESS [lo, hi]))"

lemma fromBytesLE_rev: "fromBytesLE b = fromBytesBE (rev b)"
  by (simp add: fromBytesLE_def fromBytesBE_def foldl_conv_foldr)

lemma limb_canonical: "length b \<le> 28 \<Longrightarrow> isCanonicalFr (fromBytesLE b)"
proof -
  assume "length b \<le> 28"
  then have "(256 :: int) ^ length b \<le> 256 ^ 28" by (intro power_increasing) simp_all
  with fromBytesBE_less[of "rev b"] have "fromBytesLE b < 256 ^ 28" by (simp add: fromBytesLE_rev)
  then show ?thesis by (simp add: isCanonicalFr_def fromBytesLE_rev FR_MODULUS_def)
qed

lemma encode_ascii_inj: "encode_ascii s = encode_ascii t \<Longrightarrow> s = t"
proof -
  assume eq: "encode_ascii s = encode_ascii t"
  have "inj (\<lambda>c. word_of_int (int (of_char c)) :: byte)"
  proof (rule injI)
    fix c d :: char
    assume "(word_of_int (int (of_char c)) :: byte) = word_of_int (int (of_char d))"
    then have "unat (word_of_nat (of_char c) :: byte) = unat (word_of_nat (of_char d) :: byte)"
      by simp
    then have "(of_char c :: nat) mod 256 = of_char d mod 256" by (simp add: unat_of_nat)
    then show "c = d" by simp
  qed
  with eq show "s = t" by (simp add: encode_ascii_def inj_map_eq_map)
qed

section \<open>Key sets\<close>

record 'p keyPair =
  k_sk :: int
  k_vk :: int
  k_Y :: 'p
  k_PVK :: 'p
  k_addrF :: int

record serializedKeyPair =
  s_sk :: string
  s_addrF :: string

definition deriveKeys :: "'p prims \<Rightarrow> int \<Rightarrow> int \<Rightarrow> 'p keyPair" where
  "deriveKeys K sk addrF =
     (let vk = vkFromSk (permute K) sk addrF
      in \<lparr>k_sk = sk, k_vk = vk, k_Y = scalarMul K sk (H K), k_PVK = scalarMul K vk (H K),
          k_addrF = addrF\<rparr>)"

definition generateKeys :: "'p prims \<Rightarrow> byte list list \<Rightarrow> int \<Rightarrow> ('p keyPair \<times> byte list list) option" where
  "generateKeys K samples addrF =
     (case randomScalar samples of None \<Rightarrow> None
      | Some (sk, rest) \<Rightarrow> Some (deriveKeys K sk addrF, rest))"

definition serializeKeys :: "'p keyPair \<Rightarrow> serializedKeyPair" where
  "serializeKeys keys = \<lparr>s_sk = toHex32 (k_sk keys), s_addrF = toHex32 (k_addrF keys)\<rparr>"

definition deserializeKeys :: "'p prims \<Rightarrow> serializedKeyPair \<Rightarrow> 'p keyPair res" where
  "deserializeKeys K d =
     rbind (BigInt_of (s_sk d)) (\<lambda>s. rmap (\<lambda>a. deriveKeys K s a) (BigInt_of (s_addrF d)))"

lemma deriveKeys_sel [simp]:
  "k_sk (deriveKeys K s a) = s" "k_addrF (deriveKeys K s a) = a"
  "k_vk (deriveKeys K s a) = vkFromSk (permute K) s a"
  "k_Y (deriveKeys K s a) = scalarMul K s (H K)"
  "k_PVK (deriveKeys K s a) = scalarMul K (k_vk (deriveKeys K s a)) (H K)"
  by (simp_all add: deriveKeys_def Let_def)

text \<open>A key set the program holds is one that \<^const>\<open>deriveKeys\<close> built.\<close>

definition key_set :: "'p prims \<Rightarrow> 'p keyPair \<Rightarrow> bool" where
  "key_set K keys \<longleftrightarrow> keys = deriveKeys K (k_sk keys) (k_addrF keys)"

lemma key_set_derive [simp]: "key_set K (deriveKeys K s a)"
  by (simp add: key_set_def)

lemma key_set_PVK: "key_set K keys \<Longrightarrow> k_PVK keys = scalarMul K (k_vk keys) (H K)"
  unfolding key_set_def by (metis deriveKeys_sel(5))

lemma key_set_Y: "key_set K keys \<Longrightarrow> k_Y keys = scalarMul K (k_sk keys) (H K)"
  unfolding key_set_def by (metis deriveKeys_sel(4))

lemma deserialize_serialize:
  "deserializeKeys K (serializeKeys (deriveKeys K s a)) = Inr (deriveKeys K (frMod s) (frMod a))"
  by (simp add: deserializeKeys_def serializeKeys_def)

end
