(* ===== verification/Json.thy ===== *)
theory Json
  imports JsText
begin

text \<open>
  JSON values, \<^verbatim>\<open>JSON.stringify\<close> (with and without an indentation) and \<^verbatim>\<open>JSON.parse\<close>,
  with the round trip between them. A number is an integer (the client's JSON carries no others,
  a text with a fraction or an exponent is refused), an object keeps its keys in insertion order,
  and a key that occurs twice in a text keeps its last value, as in JavaScript.
\<close>

section \<open>Values\<close>

datatype json =
    JNull | JBool bool | JNum int | JStr string | JArr "json list" | JObj "(string \<times> json) list"

fun obj_get :: "json \<Rightarrow> string \<Rightarrow> json option" where
  "obj_get (JObj kvs) k = map_of kvs k"
| "obj_get _ k = None"

text \<open>A member that \<^verbatim>\<open>JSON.stringify\<close> leaves out when it is \<^verbatim>\<open>undefined\<close>.\<close>

definition opt_member :: "string \<Rightarrow> json option \<Rightarrow> (string \<times> json) list" where
  "opt_member k v = (case v of None \<Rightarrow> [] | Some j \<Rightarrow> [(k, j)])"

lemma opt_member_simps [simp]: "opt_member k None = []" "opt_member k (Some j) = [(k, j)]"
  by (simp_all add: opt_member_def)

section \<open>Writing\<close>

text \<open>
  Characters by code: 34 is the quotation mark, 92 the backslash; the five control characters with
  a short escape are 8, 9, 10, 12 and 13.
\<close>

definition short_escapes :: "(nat \<times> char) list" where
  "short_escapes = [(34, CHR 0x22), (92, CHR 0x5C), (8, CHR ''b''), (9, CHR ''t''),
     (10, CHR ''n''), (12, CHR ''f''), (13, CHR ''r'')]"

definition escape :: "char \<Rightarrow> string" where
  "escape c = (case map_of short_escapes (of_char c) of
      Some e \<Rightarrow> [CHR 0x5C, e]
    | None \<Rightarrow> if (of_char c :: nat) < 32
        then CHR 0x5C # CHR ''u'' # padStart0 4 (digits_of 16 (of_char c)) else [c])"

definition quote :: "string \<Rightarrow> string" where
  "quote s = CHR 0x22 # concat (map escape s) @ [CHR 0x22]"

fun join :: "string \<Rightarrow> string list \<Rightarrow> string" where
  "join sep [] = []"
| "join sep [s] = s"
| "join sep (s # t # ss) = s @ sep @ join sep (t # ss)"

text \<open>
  The text between an opening bracket and the first item, between two items, and before the closing
  bracket: empty without a gap, a new line and the indentation with one.
\<close>

definition line_to :: "string \<Rightarrow> string \<Rightarrow> string" where
  "line_to gap ind = (if gap = [] then [] else CHR 0x0A # ind)"

definition colon :: "string \<Rightarrow> string" where
  "colon gap = (if gap = [] then '':'' else '': '')"

fun stringify :: "string \<Rightarrow> string \<Rightarrow> json \<Rightarrow> string" where
  "stringify gap ind JNull = ''null''"
| "stringify gap ind (JBool b) = (if b then ''true'' else ''false'')"
| "stringify gap ind (JNum n) = toString10 n"
| "stringify gap ind (JStr s) = quote s"
| "stringify gap ind (JArr xs) = (if xs = [] then ''[]'' else
     ''['' @ line_to gap (ind @ gap)
       @ join ('','' @ line_to gap (ind @ gap)) (map (stringify gap (ind @ gap)) xs)
       @ line_to gap ind @ '']'')"
| "stringify gap ind (JObj kvs) = (if kvs = [] then ''{}'' else
     ''{'' @ line_to gap (ind @ gap)
       @ join ('','' @ line_to gap (ind @ gap))
           (map (\<lambda>(k, v). quote k @ colon gap @ stringify gap (ind @ gap) v) kvs)
       @ line_to gap ind @ ''}'')"

section \<open>Reading\<close>

definition json_ws :: "char \<Rightarrow> bool" where
  "json_ws c \<longleftrightarrow> (of_char c :: nat) \<in> {9, 10, 13, 32}"

abbreviation skip_ws :: "string \<Rightarrow> string" where
  "skip_ws s \<equiv> dropWhile json_ws s"

definition unescape :: "char \<Rightarrow> char option" where
  "unescape e = (if e = CHR ''/'' then Some e
     else map_option char_of (map_of (map (\<lambda>(n, c). (c, n)) short_escapes) e))"

definition unicode4 :: "string \<Rightarrow> (char \<times> string) option" where
  "unicode4 s = (if length s < 4 then None else
     case value_of hex_val 16 0 (take 4 s) of
       Some n \<Rightarrow> if n < 256 then Some (char_of n, drop 4 s) else None
     | None \<Rightarrow> None)"

function parse_chars :: "string \<Rightarrow> (string \<times> string) option" where
  "parse_chars [] = None"
| "parse_chars (c # cs) =
     (if c = CHR 0x22 then Some ([], cs)
      else if c = CHR 0x5C then
        (case cs of [] \<Rightarrow> None
         | e # ds \<Rightarrow>
            if e = CHR ''u'' then
              (case unicode4 ds of None \<Rightarrow> None
               | Some (x, r) \<Rightarrow> map_option (\<lambda>(s, t). (x # s, t)) (parse_chars r))
            else (case unescape e of None \<Rightarrow> None
               | Some x \<Rightarrow> map_option (\<lambda>(s, t). (x # s, t)) (parse_chars ds)))
      else if (of_char c :: nat) < 32 then None
      else map_option (\<lambda>(s, t). (c # s, t)) (parse_chars cs))"
  by pat_completeness auto
termination
  by (relation "measure length") (auto simp: unicode4_def split: if_splits option.splits)

definition is_dec :: "char \<Rightarrow> bool" where
  "is_dec c \<longleftrightarrow> dec_val c \<noteq> None"

definition parse_number :: "string \<Rightarrow> (json \<times> string) option" where
  "parse_number s = (let neg = startsWith ''-'' s; t = (if neg then drop 1 s else s);
     ds = takeWhile is_dec t; r = dropWhile is_dec t
   in if ds = [] \<or> (length ds > 1 \<and> hd ds = CHR ''0'') \<or> (r \<noteq> [] \<and> hd r \<in> set ''.eE'') then None
      else map_option (\<lambda>n. (JNum (if neg then - int n else int n), r)) (value_of dec_val 10 0 ds))"

fun parse_value :: "nat \<Rightarrow> string \<Rightarrow> (json \<times> string) option"
and parse_elems :: "nat \<Rightarrow> string \<Rightarrow> (json list \<times> string) option"
and parse_members :: "nat \<Rightarrow> string \<Rightarrow> ((string \<times> json) list \<times> string) option" where
  "parse_value 0 s = None"
| "parse_value (Suc n) s = (case skip_ws s of [] \<Rightarrow> None
     | c # cs \<Rightarrow>
       if c = CHR ''{'' then
         (if startsWith ''}'' (skip_ws cs) then Some (JObj [], drop 1 (skip_ws cs))
          else map_option (\<lambda>(kvs, r). (JObj (fold (\<lambda>(k, v). put k v) kvs []), r)) (parse_members n cs))
       else if c = CHR ''['' then
         (if startsWith '']'' (skip_ws cs) then Some (JArr [], drop 1 (skip_ws cs))
          else map_option (\<lambda>(xs, r). (JArr xs, r)) (parse_elems n cs))
       else if c = CHR 0x22 then map_option (\<lambda>(t, r). (JStr t, r)) (parse_chars cs)
       else if startsWith ''null'' (c # cs) then Some (JNull, drop 3 cs)
       else if startsWith ''true'' (c # cs) then Some (JBool True, drop 3 cs)
       else if startsWith ''false'' (c # cs) then Some (JBool False, drop 4 cs)
       else parse_number (c # cs))"
| "parse_elems 0 s = None"
| "parse_elems (Suc n) s = (case parse_value n s of None \<Rightarrow> None
     | Some (v, r) \<Rightarrow> (case skip_ws r of [] \<Rightarrow> None
        | c # cs \<Rightarrow> if c = CHR '','' then map_option (\<lambda>(vs, t). (v # vs, t)) (parse_elems n cs)
                   else if c = CHR '']'' then Some ([v], cs) else None))"
| "parse_members 0 s = None"
| "parse_members (Suc n) s = (case skip_ws s of [] \<Rightarrow> None
     | q # qs \<Rightarrow> if q \<noteq> CHR 0x22 then None else
       (case parse_chars qs of None \<Rightarrow> None
        | Some (k, r) \<Rightarrow> (case skip_ws r of [] \<Rightarrow> None
           | d # ds \<Rightarrow> if d \<noteq> CHR '':'' then None else
             (case parse_value n ds of None \<Rightarrow> None
              | Some (v, t) \<Rightarrow> (case skip_ws t of [] \<Rightarrow> None
                 | c # cs \<Rightarrow>
                   if c = CHR '','' then map_option (\<lambda>(kvs, u). ((k, v) # kvs, u)) (parse_members n cs)
                   else if c = CHR ''}'' then Some ([(k, v)], cs) else None)))))"

text \<open>
  \<^verbatim>\<open>JSON.parse\<close>; \<^term>\<open>None\<close> is its \<^verbatim>\<open>SyntaxError\<close>. A character is consumed at least
  at every second level of the recursion, so the fuel is enough for every text.
\<close>

definition JSON_parse :: "string \<Rightarrow> json option" where
  "JSON_parse s = (case parse_value (2 * length s + 1) s of None \<Rightarrow> None
     | Some (v, r) \<Rightarrow> if skip_ws r = [] then Some v else None)"

section \<open>Reading back what was written\<close>

lemma unicode4_pad:
  assumes "(n :: nat) < 32"
  shows "unicode4 (padStart0 4 (digits_of 16 n) @ r) = Some (char_of n, r)"
proof -
  have l: "length (padStart0 4 (digits_of 16 n)) = 4"
    using length_digits_of[of 16 n 4] assms by simp
  have "value_of hex_val 16 0 (padStart0 4 (digits_of 16 n)) = Some n"
    using value_of_padStart0[of hex_val 16 4 "digits_of 16 n"] value_of_digits[of 16 hex_val n]
    by (simp add: hex_val_0)
  with l assms show ?thesis by (simp add: unicode4_def)
qed

lemma parse_chars_plain:
  assumes "c \<noteq> CHR 0x22" "c \<noteq> CHR 0x5C" "\<not> (of_char c :: nat) < 32"
  shows "parse_chars (c # cs) = map_option (\<lambda>(s, t). (c # s, t)) (parse_chars cs)"
  using assms by simp

lemma char_by_code: "(of_char c :: nat) = n \<Longrightarrow> c = char_of n"
  by (metis char_of_char)

lemma short_escape_cases:
  assumes "map_of short_escapes (of_char c) = Some e"
  shows "e \<noteq> CHR ''u'' \<and> unescape e = Some c"
proof -
  have "(of_char c, e) \<in> set short_escapes" using assms by (rule map_of_SomeD)
  then show ?thesis
    by (auto simp: short_escapes_def unescape_def dest!: char_by_code)
qed

lemma parse_chars_escape:
  "parse_chars (escape c @ cs) = map_option (\<lambda>(s, t). (c # s, t)) (parse_chars cs)"
proof (cases "map_of short_escapes (of_char c)")
  case (Some e)
  with short_escape_cases[OF Some] show ?thesis by (simp add: escape_def)
next
  case None
  show ?thesis
  proof (cases "(of_char c :: nat) < 32")
    case True
    with None unicode4_pad[OF True, of cs] show ?thesis by (simp add: escape_def)
  next
    case False
    have "(of_char c :: nat) \<noteq> 34" "(of_char c :: nat) \<noteq> 92"
      using None by (auto simp: short_escapes_def split: if_splits)
    then have "c \<noteq> CHR 0x22" "c \<noteq> CHR 0x5C" by auto
    with None False show ?thesis by (simp add: escape_def)
  qed
qed

lemma parse_chars_quoted: "parse_chars (concat (map escape s) @ CHR 0x22 # r) = Some (s, r)"
  by (induction s) (simp_all add: parse_chars_escape)

text \<open>What can follow a value in a text: not the continuation of a number.\<close>

definition ends_here :: "string \<Rightarrow> bool" where
  "ends_here r \<longleftrightarrow> (r = [] \<or> (\<not> is_dec (hd r) \<and> hd r \<notin> set ''.eE''))"

abbreviation blank :: "string \<Rightarrow> bool" where
  "blank w \<equiv> list_all json_ws w"

lemma json_ws_facts [simp]:
  "\<not> json_ws (CHR '','')" "\<not> json_ws (CHR '']'')" "\<not> json_ws (CHR ''}'')" "\<not> json_ws (CHR '':'')"
  "\<not> json_ws (CHR ''['')" "\<not> json_ws (CHR ''{'')" "\<not> json_ws (CHR 0x22)" "json_ws (CHR '' '')"
  "json_ws (CHR 0x0A)" "\<not> json_ws (CHR ''n'')" "\<not> json_ws (CHR ''t'')" "\<not> json_ws (CHR ''f'')"
  "\<not> json_ws (CHR ''-'')"
  by (simp_all add: json_ws_def)

lemma skip_blank [simp]: "blank w \<Longrightarrow> skip_ws (w @ s) = skip_ws s"
  by (induction w) auto

lemma parse_value_blank: "blank w \<Longrightarrow> parse_value n (w @ s) = parse_value n s"
  by (cases n) simp_all

lemma is_dec_ws: "json_ws c \<Longrightarrow> \<not> is_dec c \<and> c \<notin> set ''.eE''"
  by (auto simp: json_ws_def is_dec_def dec_val_def Let_def)

lemma ends_here_blank: "blank w \<Longrightarrow> \<not> is_dec c \<Longrightarrow> c \<notin> set ''.eE'' \<Longrightarrow> ends_here (w @ c # r)"
  by (cases w) (auto simp: ends_here_def dest: is_dec_ws)

lemma dec_digits_is_dec: "c \<in> set (digits_of 10 n) \<Longrightarrow> is_dec c"
  using set_digits_of[of 10 n] by (auto simp: is_dec_def)

lemma takeWhile_digits: "ends_here r \<Longrightarrow> takeWhile is_dec (digits_of 10 n @ r) = digits_of 10 n
    \<and> dropWhile is_dec (digits_of 10 n @ r) = r"
  using dec_digits_is_dec[of _ n]
  by (cases r) (auto simp: ends_here_def takeWhile_append dropWhile_append takeWhile_eq_all_conv
      dropWhile_eq_self_iff)

lemma digits_no_leading_zero: "length (digits_of 10 n) > 1 \<Longrightarrow> hd (digits_of 10 n) \<noteq> CHR ''0''"
proof (induction n rule: less_induct)
  case (less n)
  then have n: "10 \<le> n" by (subst (asm) (2) digits_of.simps) (auto split: if_splits)
  then have d: "digits_of 10 n = digits_of 10 (n div 10) @ [hex_digit (n mod 10)]"
    by (subst digits_of.simps) simp
  show ?case
  proof (cases "length (digits_of 10 (n div 10)) > 1")
    case True
    with less.IH[of "n div 10"] n d show ?thesis by simp
  next
    case False
    then have "n div 10 < 10" by (cases "n div 10 < 10") (auto simp: digits_of.simps[of 10 "n div 10"])
    moreover from this have "take_bit 8 (48 + n div 10) = 48 + n div 10"
      by (simp add: take_bit_nat_eq_self)
    moreover have "0 < n div 10" using n by simp
    ultimately show ?thesis
      using d by (simp add: digits_of.simps[of 10 "n div 10"] hex_digit_def char_of_eq_iff)
  qed
qed

lemma not_minus_dec: "hd (digits_of 10 n @ r) \<noteq> CHR ''-''"
proof -
  have "is_dec (hd (digits_of 10 n))" using dec_digits_is_dec[of _ n] by simp
  then show ?thesis by (auto simp: is_dec_def dec_val_def Let_def)
qed

lemma startsWith_char [simp]: "startsWith [c] (d # s) \<longleftrightarrow> d = c" "\<not> startsWith [c] []"
  by (auto simp: startsWith_def)

lemma parse_number_back:
  assumes "ends_here r"
  shows "parse_number (toString10 x @ r) = Some (JNum x, r)"
proof -
  let ?d = "\<lambda>n. digits_of 10 n"
  have v: "value_of dec_val 10 0 (?d n) = Some n" for n
    by (rule value_of_digits) simp_all
  have nm: "\<not> startsWith ''-'' (?d n @ r)" for n
    using not_minus_dec[of n r] by (cases "?d n @ r") auto
  have e: "r \<noteq> [] \<longrightarrow> hd r \<notin> set ''.eE''" using assms by (auto simp: ends_here_def)
  show ?thesis
  proof (cases "x < 0")
    case True
    then show ?thesis using takeWhile_digits[OF assms, of "nat (- x)"] v e
        digits_no_leading_zero[of "nat (- x)"]
      by (auto simp: parse_number_def toString10_def Let_def)
  next
    case False
    then show ?thesis using takeWhile_digits[OF assms, of "nat x"] v e nm
        digits_no_leading_zero[of "nat x"]
      by (auto simp: parse_number_def toString10_def Let_def)
  qed
qed

text \<open>The length of a text bounds the recursion its value needs.\<close>

fun depth_cost :: "json \<Rightarrow> nat" where
  "depth_cost (JArr xs) = 1 + sum_list (map (\<lambda>x. 1 + depth_cost x) xs)"
| "depth_cost (JObj kvs) = 1 + sum_list (map (\<lambda>(k, v). 1 + depth_cost v) kvs)"
| "depth_cost _ = 1"

text \<open>A value of the language: no object has a key twice.\<close>

fun json_wf :: "json \<Rightarrow> bool" where
  "json_wf (JArr xs) \<longleftrightarrow> list_all json_wf xs"
| "json_wf (JObj kvs) \<longleftrightarrow> distinct (map fst kvs) \<and> list_all (\<lambda>(k, v). json_wf v) kvs"
| "json_wf _ \<longleftrightarrow> True"

lemma blank_line_to [simp]: "blank ind \<Longrightarrow> blank (line_to gap ind)"
  by (simp add: line_to_def)

lemma is_dec_starts: "is_dec c \<Longrightarrow> \<not> json_ws c \<and> c \<notin> set '']}''"
  using is_dec_ws[of c] by (auto simp: is_dec_def dec_val_def Let_def)

lemma stringify_starts:
  "\<exists>c cs. stringify gap ind v = c # cs \<and> \<not> json_ws c \<and> c \<notin> set '']}''"
proof (cases v)
  case (JNum n)
  have "is_dec (hd (digits_of 10 k))" for k using dec_digits_is_dec[of _ k] by simp
  then have "\<not> json_ws (hd (digits_of 10 k)) \<and> hd (digits_of 10 k) \<notin> set '']}''" for k
    using is_dec_starts by blast
  moreover have "\<exists>c cs. digits_of 10 k = c # cs \<and> c = hd (digits_of 10 k)" for k
    by (cases "digits_of 10 k") (use digits_of_ne[of 10 k] in auto)
  ultimately have "\<exists>c cs. digits_of 10 k = c # cs \<and> \<not> json_ws c \<and> c \<notin> set '']}''" for k
    by metis
  then show ?thesis using JNum by (simp add: toString10_def)
next
  case (JBool b)
  then show ?thesis by (cases b) simp_all
qed (simp_all add: quote_def)

lemma fold_put_distinct:
  "distinct (map fst (acc @ kvs)) \<Longrightarrow> fold (\<lambda>(k, v). put k v) kvs acc = acc @ kvs"
proof (induction kvs arbitrary: acc)
  case (Cons kv kvs)
  obtain k v where kv: "kv = (k, v)" by (cases kv)
  with Cons.prems have "put k v acc = acc @ [(k, v)]" by (intro put_fresh) auto
  with Cons.IH[of "acc @ [(k, v)]"] Cons.prems kv show ?case by simp
qed simp

definition reads_back :: "string \<Rightarrow> json \<Rightarrow> bool" where
  "reads_back gap v \<longleftrightarrow> (\<forall>ind n r. blank ind \<longrightarrow> depth_cost v \<le> n \<longrightarrow> ends_here r \<longrightarrow>
     parse_value n (stringify gap ind v @ r) = Some (v, r))"

lemma parse_elems_back:
  assumes "xs \<noteq> []" and "\<And>x. x \<in> set xs \<Longrightarrow> reads_back gap x" and "blank w" "blank w'" "blank ind"
    and "sum_list (map (\<lambda>x. 1 + depth_cost x) xs) \<le> n"
  shows "parse_elems n (w @ join ('','' @ w) (map (stringify gap ind) xs) @ w' @ '']'' @ r)
         = Some (xs, r)"
  using assms(1,2,6)
proof (induction xs arbitrary: n)
  case (Cons x xs)
  from Cons.prems obtain m where m: "n = Suc m" by (cases n) auto
  have ends: "ends_here (w' @ CHR '']'' # r)" "ends_here (CHR '','' # q)" for q
    using assms(4) ends_here_blank[of w' "CHR '']''" r]
    by (simp_all add: ends_here_def is_dec_def dec_val_def Let_def)
  have x: "parse_value m (w @ stringify gap ind x @ q) = Some (x, q)" if "ends_here q" for q
    using Cons.prems that assms(3,5) m parse_value_blank by (simp add: reads_back_def)
  show ?case
  proof (cases xs)
    case Nil
    with x[OF ends(1)] m assms(4) show ?thesis by simp
  next
    case (Cons y ys)
    with Cons.IH[of m] Cons.prems m
    have "parse_elems m (w @ join ('','' @ w) (map (stringify gap ind) xs) @ w' @ '']'' @ r)
        = Some (xs, r)" by simp
    with Cons x[OF ends(2)] m show ?thesis by simp
  qed
qed simp

lemma parse_members_back:
  assumes "kvs \<noteq> []" and "\<And>k v. (k, v) \<in> set kvs \<Longrightarrow> reads_back gap v" and "blank w" "blank w'" "blank ind"
    and "sum_list (map (\<lambda>(k, v). 1 + depth_cost v) kvs) \<le> n"
  shows "parse_members n (w @ join ('','' @ w)
           (map (\<lambda>(k, v). quote k @ colon gap @ stringify gap ind v) kvs) @ w' @ ''}'' @ r)
         = Some (kvs, r)"
  using assms(1,2,6)
proof (induction kvs arbitrary: n)
  case (Cons kv kvs)
  from Cons.prems obtain m where m: "n = Suc m" by (cases n; cases kv) auto
  obtain k v where kv: "kv = (k, v)" by (cases kv)
  have ends: "ends_here (w' @ CHR ''}'' # r)" "ends_here (CHR '','' # q)" for q
    using assms(4) ends_here_blank[of w' "CHR ''}''" r]
    by (simp_all add: ends_here_def is_dec_def dec_val_def Let_def)
  obtain ct where colon: "colon gap = CHR '':'' # ct" "blank ct" by (cases "gap = []") (simp_all add: colon_def)
  have x: "parse_value m (ct @ stringify gap ind v @ q) = Some (v, q)" if "ends_here q" for q
    using Cons.prems(2)[of k v] Cons.prems(3) that assms(5) m kv parse_value_blank[OF colon(2)]
    by (simp add: reads_back_def)
  have chars: "parse_chars (concat (map escape k) @ CHR 0x22 # CHR '':'' # ct @ stringify gap ind v @ q)
      = Some (k, CHR '':'' # ct @ stringify gap ind v @ q)" for q
    by (rule parse_chars_quoted)
  show ?case
  proof (cases kvs)
    case Nil
    with x[OF ends(1)] m kv chars assms(3,4) show ?thesis by (simp add: quote_def colon(1))
  next
    case (Cons y ys)
    have "parse_members m (w @ join ('','' @ w)
        (map (\<lambda>(k, v). quote k @ colon gap @ stringify gap ind v) kvs) @ w' @ ''}'' @ r)
        = Some (kvs, r)"
    proof (rule Cons.IH)
      show "kvs \<noteq> []" using Cons by simp
      show "reads_back gap v" if "(k, v) \<in> set kvs" for k v
        using Cons.prems(2)[of k v] that by simp
      show "sum_list (map (\<lambda>(k, v). 1 + depth_cost v) kvs) \<le> m"
        using Cons.prems(3) m kv by simp
    qed
    with Cons x[OF ends(2)] m kv chars assms(3) show ?thesis by (simp add: quote_def colon(1))
  qed
qed simp

lemma fst_split [simp]: "(case p of (k, v) \<Rightarrow> k) = fst p"
  by (cases p) simp

lemma value_reads_back:
  assumes "blank gap"
  shows "json_wf v \<Longrightarrow> reads_back gap v"
proof (induction v)
  case (JNum n)
  have "parse_value (Suc m) (toString10 n @ r) = Some (JNum n, r)" if "ends_here r" for m r
  proof -
    obtain c cs where s: "toString10 n = c # cs" "\<not> json_ws c"
      using stringify_starts[of gap "[]" "JNum n"] by auto
    have "c = CHR ''-'' \<or> is_dec c"
      using s(1) dec_digits_is_dec[of c "nat n"] by (auto simp: toString10_def split: if_splits)
    then have "c \<noteq> CHR ''{'' \<and> c \<noteq> CHR ''['' \<and> c \<noteq> CHR 0x22 \<and> c \<noteq> CHR ''n'' \<and> c \<noteq> CHR ''t'' \<and> c \<noteq> CHR ''f''"
      by (auto simp: is_dec_def dec_val_def Let_def)
    with s parse_number_back[OF that, of n] show ?thesis by (simp add: startsWith_def)
  qed
  then show ?case by (auto simp: reads_back_def dest!: Suc_le_D)
next
  case (JStr s)
  then show ?case using parse_chars_quoted[of s] by (auto simp: reads_back_def quote_def dest!: Suc_le_D)
next
  case (JArr xs)
  show ?case
    unfolding reads_back_def
  proof (intro allI impI)
    fix ind n r
    assume h: "blank ind" "depth_cost (JArr xs) \<le> n" "ends_here r"
    then obtain m where m: "n = Suc m" by (cases n) auto
    let ?w = "line_to gap (ind @ gap)"
    show "parse_value n (stringify gap ind (JArr xs) @ r) = Some (JArr xs, r)"
    proof (cases xs)
      case Nil
      with m show ?thesis by simp
    next
      case (Cons y ys)
      have e: "parse_elems m (?w @ join ('','' @ ?w) (map (stringify gap (ind @ gap)) xs)
          @ line_to gap ind @ '']'' @ r) = Some (xs, r)"
      proof (rule parse_elems_back)
        show "reads_back gap x" if "x \<in> set xs" for x
          using JArr.IH[OF that] JArr.prems that by (auto simp: list_all_iff)
      qed (use Cons h m assms in simp_all)
      obtain c cs where "stringify gap (ind @ gap) y = c # cs" "\<not> json_ws c" "c \<notin> set '']}''"
        using stringify_starts by blast
      then have "\<not> startsWith '']'' (skip_ws (?w @ join ('','' @ ?w) (map (stringify gap (ind @ gap)) xs)
          @ line_to gap ind @ '']'' @ r))"
        using Cons h(1) assms by (cases ys) simp_all
      with e m Cons show ?thesis by simp
    qed
  qed
next
  case (JObj kvs)
  show ?case
    unfolding reads_back_def
  proof (intro allI impI)
    fix ind n r
    assume h: "blank ind" "depth_cost (JObj kvs) \<le> n" "ends_here r"
    then obtain m where m: "n = Suc m" by (cases n) auto
    let ?w = "line_to gap (ind @ gap)"
    let ?f = "\<lambda>(k, v). quote k @ colon gap @ stringify gap (ind @ gap) v"
    show "parse_value n (stringify gap ind (JObj kvs) @ r) = Some (JObj kvs, r)"
    proof (cases kvs)
      case Nil
      with m show ?thesis by simp
    next
      case (Cons y ys)
      have ih: "reads_back gap v" if "(k, v) \<in> set kvs" for k v
        using JObj.IH[OF that, of v] JObj.prems that by (auto simp: list_all_iff)
      have e: "parse_members m (?w @ join ('','' @ ?w) (map ?f kvs)
          @ line_to gap ind @ ''}'' @ r) = Some (kvs, r)"
        using ih Cons h m assms by (intro parse_members_back) auto
      have "\<not> startsWith ''}'' (skip_ws (?w @ join ('','' @ ?w) (map ?f kvs)
          @ line_to gap ind @ ''}'' @ r))"
        using Cons h(1) assms by (cases y; cases ys) (simp_all add: quote_def)
      with e m Cons fold_put_distinct[of "[]" kvs] JObj.prems show ?thesis by simp
    qed
  qed
qed (auto simp: reads_back_def startsWith_def dest!: Suc_le_D)

lemma length_join:
  "ss \<noteq> [] \<Longrightarrow> length (join sep ss) = sum_list (map length ss) + (length ss - 1) * length sep"
  by (induction sep ss rule: join.induct) auto

lemma sum_cost:
  "(\<And>x. x \<in> set xs \<Longrightarrow> f x \<le> 2 * g x) \<Longrightarrow> sum_list (map (\<lambda>x. 1 + f x) xs) \<le> 2 * sum_list (map g xs) + length xs"
  for f g :: "'a \<Rightarrow> nat"
proof (induction xs)
  case (Cons x xs)
  from Cons.prems[of x] Cons.IH Cons.prems show ?case by fastforce
qed simp

lemma bracket_cost:
  fixes f :: "'a \<Rightarrow> nat"
  assumes "xs \<noteq> []" and "\<And>x. x \<in> set xs \<Longrightarrow> f x \<le> 2 * length (s x)"
  shows "1 + sum_list (map (\<lambda>x. 1 + f x) xs) \<le> 2 * (length (join ('','' @ w) (map s xs)) + 2)"
proof -
  have "sum_list (map (\<lambda>x. 1 + f x) xs) \<le> 2 * sum_list (map (\<lambda>x. length (s x)) xs) + length xs"
    by (rule sum_cost) (rule assms(2))
  moreover have "length (join ('','' @ w) (map s xs))
      \<ge> sum_list (map (\<lambda>x. length (s x)) xs) + (length xs - 1)"
    using length_join[of "map s xs" "'','' @ w"] assms(1) by (simp add: comp_def)
  moreover obtain k where "length xs = Suc k" using assms(1) by (cases xs) auto
  ultimately show ?thesis by simp
qed

lemma cost_le_length: "depth_cost v \<le> 2 * length (stringify gap ind v)"
proof (induction v arbitrary: ind)
  case (JArr xs)
  show ?case
  proof (cases "xs = []")
    case False
    have "1 + sum_list (map (\<lambda>x. 1 + depth_cost x) xs)
        \<le> 2 * (length (join ('','' @ line_to gap (ind @ gap)) (map (stringify gap (ind @ gap)) xs)) + 2)"
      by (rule bracket_cost[OF False]) (rule JArr)
    with False show ?thesis by simp
  qed simp
next
  case (JObj kvs)
  show ?case
  proof (cases "kvs = []")
    case False
    let ?s = "\<lambda>(k, v). quote k @ colon gap @ stringify gap (ind @ gap) v"
    have "1 + sum_list (map (\<lambda>x. 1 + depth_cost (snd x)) kvs)
        \<le> 2 * (length (join ('','' @ line_to gap (ind @ gap)) (map ?s kvs)) + 2)"
    proof (rule bracket_cost[OF False])
      fix x assume x: "x \<in> set kvs"
      obtain k v where kv: "x = (k, v)" by (cases x)
      have "depth_cost v \<le> 2 * length (stringify gap (ind @ gap) v)"
        by (rule JObj.IH[OF x]) (simp add: kv)
      with kv show "depth_cost (snd x) \<le> 2 * length (?s x)" by simp
    qed
    with False show ?thesis by (simp add: case_prod_unfold)
  qed simp
next
  case (JNum n)
  then show ?case using stringify_starts[of gap ind "JNum n"] by auto
qed (simp_all add: quote_def)

lemma JSON_parse_stringify:
  assumes "json_wf v" and "blank gap" and "blank ind"
  shows "JSON_parse (stringify gap ind v) = Some v"
proof -
  have c: "depth_cost v \<le> 2 * length (stringify gap ind v) + 1"
    using cost_le_length[of v gap ind] by (rule trans_le_add1)
  have e: "ends_here []" by (simp add: ends_here_def)
  have "parse_value (2 * length (stringify gap ind v) + 1) (stringify gap ind v @ []) = Some (v, [])"
    using value_reads_back[OF assms(2,1), unfolded reads_back_def] assms(3) c e by blast
  then show ?thesis unfolding JSON_parse_def by (simp del: parse_value.simps)
qed

lemma put_wf: "json_wf (JObj m) \<Longrightarrow> json_wf v \<Longrightarrow> json_wf (JObj (put k v m))"
  by (auto simp: list_all_iff intro: distinct_put dest!: set_put)

text \<open>What parses is a value of the language.\<close>

lemma fold_put_wf:
  assumes "json_wf (JObj m)" and "list_all (\<lambda>(k, v). json_wf v) kvs"
  shows "json_wf (JObj (fold (\<lambda>(k, v). put k v) kvs m))"
  using assms
proof (induction kvs arbitrary: m)
  case (Cons kv kvs)
  obtain k v where kv: "kv = (k, v)" by (cases kv)
  have "json_wf (JObj (put k v m))" using Cons.prems kv by (auto simp: list_all_iff intro: distinct_put dest!: set_put)
  with Cons kv show ?case by simp
qed simp

lemma parse_wf:
  "parse_value n s = Some (v, r) \<Longrightarrow> json_wf v"
  "parse_elems n s = Some (vs, r) \<Longrightarrow> list_all json_wf vs"
  "parse_members n s = Some (kvs, r) \<Longrightarrow> list_all (\<lambda>(k, v). json_wf v) kvs"
proof (induction n s and n s and n s arbitrary: v r and vs r and kvs r rule: parse_value_parse_elems_parse_members.induct)
  case (2 n s)
  show ?case
  proof (cases "skip_ws s")
    case (Cons c cs)
    have f: "json_wf (JObj (fold (\<lambda>(k, v). put k v) kvs []))" if "list_all (\<lambda>(k, v). json_wf v) kvs" for kvs
      using fold_put_wf[of "[]" kvs] that by simp
    show ?thesis using 2
      by (auto simp: Cons parse_number_def Let_def simp del: json_wf.simps(2) intro!: f split: if_splits) simp
  next
    case Nil
    with 2 show ?thesis by simp
  qed
qed (auto split: option.splits list.splits if_splits)

lemma JSON_parse_wf: "JSON_parse s = Some j \<Longrightarrow> json_wf j"
  by (auto simp: JSON_parse_def simp del: parse_value.simps split: option.splits if_splits dest: parse_wf(1))

end
