(* ===== verification/Events.thy ===== *)
theory Events
  imports Keys Json
begin

text \<open>
  \<^verbatim>\<open>chain/events.ts\<close>: the event types, the one builder both decoders share, the identifiers
  that make events from two sources comparable, and the paging loop over the RPC. Event values of
  the RPC are XDR \<^verbatim>\<open>ScVal\<close>s; \<^verbatim>\<open>scval\<close> is their shape and the accessors throw on the wrong
  arm, as the XDR library's do.
\<close>

section \<open>Events\<close>

datatype 'p eventBody =
    RegisterEvent (ev_account: string) (ev_auditorId: "int option")
  | DepositEvent (ev_from: string) (ev_to: string) (ev_amount: int)
  | MergeEvent (ev_account: string)
  | WithdrawEvent (ev_from: string) (ev_to: string) (ev_amount: int) (ev_rE: 'p) (ev_sigma: int)
      (ev_bTilde: int) (ev_bAudS: int)
  | TransferEvent (ev_from: string) (ev_to: string) (ev_rE: 'p) (ev_vTilde: int) (ev_sigma: int)
      (ev_bTilde: int) (ev_vAudR: int) (ev_rAudR: int) (ev_vAudS: int) (ev_bAudS: int)

record baseEvent =
  ev_ledger :: int
  ev_txHash :: string
  ev_cursor :: string

record 'p confidentialEvent = baseEvent +
  ev_body :: "'p eventBody"

definition KNOWN :: "string list" where
  "KNOWN = [''register'', ''deposit'', ''merge'', ''withdraw'', ''transfer'']"

text \<open>
  The accessor over an event's data: the four typed reads by field name. A \<^verbatim>\<open>number\<close> read can
  be \<^verbatim>\<open>NaN\<close>, the \<^term>\<open>None\<close> of \<^verbatim>\<open>acc_u32\<close>.
\<close>

record 'p accessor =
  acc_field :: "string \<Rightarrow> int res"
  acc_point :: "string \<Rightarrow> 'p res"
  acc_i128 :: "string \<Rightarrow> int res"
  acc_u32 :: "string \<Rightarrow> int option res"

definition buildBody ::
  "string \<Rightarrow> (nat \<Rightarrow> string res) \<Rightarrow> 'p accessor \<Rightarrow> 'p eventBody option res" where
  "buildBody name addr data =
     (if name = ''register'' then
        rbind (addr 1) (\<lambda>a. rmap (\<lambda>u. Some (RegisterEvent a u)) (acc_u32 data ''auditor_id''))
      else if name = ''deposit'' then
        rbind (addr 1) (\<lambda>f. rbind (addr 2) (\<lambda>t.
          rmap (\<lambda>a. Some (DepositEvent f t a)) (acc_i128 data ''amount'')))
      else if name = ''merge'' then rmap (\<lambda>a. Some (MergeEvent a)) (addr 1)
      else if name = ''withdraw'' then
        rbind (addr 1) (\<lambda>f. rbind (addr 2) (\<lambda>t.
        rbind (acc_i128 data ''amount'') (\<lambda>a. rbind (acc_point data ''r_e'') (\<lambda>rE.
        rbind (acc_field data ''sigma'') (\<lambda>s. rbind (acc_field data ''b_tilde'') (\<lambda>b.
        rmap (\<lambda>ba. Some (WithdrawEvent f t a rE s b ba)) (acc_field data ''b_aud_s'')))))))
      else if name = ''transfer'' then
        rbind (addr 1) (\<lambda>f. rbind (addr 2) (\<lambda>t.
        rbind (acc_point data ''r_e'') (\<lambda>rE. rbind (acc_field data ''v_tilde'') (\<lambda>v.
        rbind (acc_field data ''sigma'') (\<lambda>s. rbind (acc_field data ''b_tilde'') (\<lambda>b.
        rbind (acc_field data ''v_aud_r'') (\<lambda>var. rbind (acc_field data ''r_aud_r'') (\<lambda>rar.
        rbind (acc_field data ''v_aud_s'') (\<lambda>vas.
        rmap (\<lambda>bas. Some (TransferEvent f t rE v s b var rar vas bas))
          (acc_field data ''b_aud_s''))))))))))
      else Inr None)"

definition with_base :: "baseEvent \<Rightarrow> 'p eventBody \<Rightarrow> 'p confidentialEvent" where
  "with_base b x = \<lparr>ev_ledger = ev_ledger b, ev_txHash = ev_txHash b, ev_cursor = ev_cursor b,
     ev_body = x\<rparr>"

definition buildConfidentialEvent ::
  "string \<Rightarrow> baseEvent \<Rightarrow> (nat \<Rightarrow> string res) \<Rightarrow> 'p accessor \<Rightarrow> 'p confidentialEvent option res" where
  "buildConfidentialEvent name base addr data =
     rmap (map_option (with_base base)) (buildBody name addr data)"

lemma with_base_sel [simp]:
  "ev_ledger (with_base b x) = ev_ledger b" "ev_txHash (with_base b x) = ev_txHash b"
  "ev_cursor (with_base b x) = ev_cursor b" "ev_body (with_base b x) = x"
  by (simp_all add: with_base_def)

section \<open>Identifiers\<close>

text \<open>A \<^verbatim>\<open>number\<close> inside a template literal; \<^term>\<open>None\<close> is \<^verbatim>\<open>NaN\<close>.\<close>

definition showNumber :: "int option \<Rightarrow> string" where
  "showNumber n = (case n of Some x \<Rightarrow> toString10 x | None \<Rightarrow> ''NaN'')"

definition cursorLedger :: "string \<Rightarrow> int res" where
  "cursorLedger cursor = rmap (drop_bit 32) (BigInt_of (hd (split_on (CHR ''-'') cursor)))"

definition naturalEventId :: "int \<Rightarrow> string \<Rightarrow> int option \<Rightarrow> int option \<Rightarrow> string" where
  "naturalEventId ledger txHash opIndex eventIndex =
     toString10 ledger @ ''-'' @ txHash @ ''-'' @ showNumber opIndex @ ''-'' @ showNumber eventIndex"

definition rpcEventCoords :: "string \<Rightarrow> (int \<times> int option) res" where
  "rpcEventCoords rid =
     (let parts = split_on (CHR ''-'') rid;
          eventStr = (case tl parts of [] \<Rightarrow> ''0'' | e # _ \<Rightarrow> e)
      in rmap (\<lambda>t. (t AND 0xfff, Number_of eventStr)) (BigInt_of (hd parts)))"

record eventRefT =
  ref_ledger :: int
  ref_id :: string
  ref_txHash :: string

definition eventRef :: "'p confidentialEvent \<Rightarrow> eventRefT" where
  "eventRef ev = \<lparr>ref_ledger = ev_ledger ev, ref_id = ev_cursor ev, ref_txHash = ev_txHash ev\<rparr>"

section \<open>XDR values\<close>

datatype scval =
    ScSymbol string | ScString string | ScAddress string | ScBytes "byte list"
  | ScU32 int | ScI128 int | ScMap "(scval \<times> scval) list" | ScVec "scval list" | ScBool bool | ScVoid

fun sc_sym :: "scval \<Rightarrow> string res" where
  "sc_sym (ScSymbol s) = Inr s"
| "sc_sym _ = Inl (TypeError ''sym not set'')"

fun sc_bytes :: "scval \<Rightarrow> byte list res" where
  "sc_bytes (ScBytes b) = Inr b"
| "sc_bytes _ = Inl (TypeError ''bytes not set'')"

fun sc_u32 :: "scval \<Rightarrow> int res" where
  "sc_u32 (ScU32 n) = Inr n"
| "sc_u32 _ = Inl (TypeError ''u32 not set'')"

fun sc_map :: "scval \<Rightarrow> (scval \<times> scval) list res" where
  "sc_map (ScMap es) = Inr es"
| "sc_map _ = Inl (TypeError ''map not set'')"

fun sc_address :: "scval \<Rightarrow> string res" where
  "sc_address (ScAddress a) = Inr a"
| "sc_address _ = Inl (TypeError ''Unsupported address type'')"

text \<open>
  \<^verbatim>\<open>scValToNative(v) as bigint\<close>: the value of an \<^verbatim>\<open>i128\<close>; other arms come back as other
  JavaScript types, which the cast does not convert and the model refuses.
\<close>

fun sc_native_i128 :: "scval \<Rightarrow> int res" where
  "sc_native_i128 (ScI128 n) = Inr n"
| "sc_native_i128 _ = Inl (TypeError ''not an i128'')"

fun entries_by_name :: "(string \<times> scval) list \<Rightarrow> (scval \<times> scval) list \<Rightarrow> (string \<times> scval) list res" where
  "entries_by_name acc [] = Inr acc"
| "entries_by_name acc ((k, v) # es) = rbind (sc_sym k) (\<lambda>s. entries_by_name (put s v acc) es)"

text \<open>The map is built when the accessor is made; a missing field throws when it is read.\<close>

definition dataMap :: "'p prims \<Rightarrow> scval \<Rightarrow> 'p accessor res" where
  "dataMap K value = rmap (\<lambda>byName.
     let get = (\<lambda>name. case map_of byName name of Some v \<Rightarrow> Inr v | None \<Rightarrow> Inl (MissingField name)) in
     \<lparr>acc_field = (\<lambda>name. rbind (get name) (\<lambda>v. rmap fromBytesBE (sc_bytes v))),
      acc_point = (\<lambda>name. rbind (get name) (\<lambda>v. rbind (sc_bytes v) (pointFromBytes K))),
      acc_i128 = (\<lambda>name. rbind (get name) sc_native_i128),
      acc_u32 = (\<lambda>name. rbind (get name) (\<lambda>v. rmap Some (sc_u32 v)))\<rparr>)
   (rbind (sc_map value) (entries_by_name []))"

section \<open>Parsing an RPC event\<close>

record eventResponse =
  er_id :: string
  er_ledger :: int
  er_txHash :: string
  er_topic :: "scval list"
  er_value :: scval

definition topic_addr :: "scval list \<Rightarrow> nat \<Rightarrow> string res" where
  "topic_addr topics i = (if i < length topics then sc_address (topics ! i)
                          else Inl (TypeError ''undefined''))"

definition parseEvent :: "'p prims \<Rightarrow> eventResponse \<Rightarrow> 'p confidentialEvent option res" where
  "parseEvent K ev =
     (case er_topic ev of [] \<Rightarrow> Inr None
      | t0 # _ \<Rightarrow> rbind (sc_sym t0) (\<lambda>name.
         if name \<notin> set KNOWN then Inr None
         else rbind (rpcEventCoords (er_id ev)) (\<lambda>(opIndex, eventIndex).
           let base = \<lparr>ev_ledger = er_ledger ev, ev_txHash = er_txHash ev,
                 ev_cursor = naturalEventId (er_ledger ev) (er_txHash ev) (Some opIndex) eventIndex\<rparr>
           in rbind (dataMap K (er_value ev))
                (buildConfidentialEvent name base (topic_addr (er_topic ev))))))"


section \<open>Paging over the RPC\<close>

text \<open>
  The two RPC calls the client uses. A request names its start by cursor or by ledger; a response
  without a cursor is \<^term>\<open>None\<close>.
\<close>

datatype eventsRequest =
    ByCursor string string int
  | ByLedger string "int option" int
  | ByRange string int int int

record eventsResponse =
  resp_events :: "eventResponse list"
  resp_cursor :: "string option"
  resp_latestLedger :: int

record 'w rpcServer =
  getHealth :: "'w \<Rightarrow> int option res \<times> 'w"
  getEvents :: "eventsRequest \<Rightarrow> 'w \<Rightarrow> eventsResponse res \<times> 'w"

record 'p fetchEventsResult =
  fr_events :: "'p confidentialEvent list"
  fr_cursor :: "string option"
  fr_latestLedger :: int

text \<open>A text is falsy when it is missing or empty.\<close>

definition truthy :: "string option \<Rightarrow> bool" where
  "truthy s \<longleftrightarrow> s \<noteq> None \<and> s \<noteq> Some []"

lemma truthy_iff: "truthy s \<longleftrightarrow> (\<exists>c. s = Some c \<and> c \<noteq> [])"
  by (auto simp: truthy_def)

lemma truthy_None [simp]: "\<not> truthy None"
  by (simp add: truthy_def)

definition parsePage :: "'p prims \<Rightarrow> eventResponse list \<Rightarrow> 'p confidentialEvent list res" where
  "parsePage K evs = rmap (List.map_filter id) (traverse (parseEvent K) evs)"

definition page_request :: "string \<Rightarrow> string option \<Rightarrow> int option \<Rightarrow> int \<Rightarrow> eventsRequest" where
  "page_request tokenId pageCursor startLedger limit =
     (if truthy pageCursor then ByCursor tokenId (the pageCursor) limit
      else ByLedger tokenId startLedger limit)"

partial_function (option) fetchLoop ::
  "'p prims \<Rightarrow> 'w rpcServer \<Rightarrow> string \<Rightarrow> int option \<Rightarrow> int \<Rightarrow> string option \<Rightarrow> string option
   \<Rightarrow> 'p confidentialEvent list \<Rightarrow> 'w \<Rightarrow> ('p fetchEventsResult res \<times> 'w) option" where
  "fetchLoop K srv tokenId startLedger limit pageCursor resumeCursor out w =
     (case getEvents srv (page_request tokenId pageCursor startLedger limit) w of (r, w') \<Rightarrow>
      (case r of Inl e \<Rightarrow> Some (Inl e, w')
       | Inr resp \<Rightarrow>
        (case parsePage K (resp_events resp) of Inl e \<Rightarrow> Some (Inl e, w')
         | Inr evs \<Rightarrow>
           if \<not> truthy (resp_cursor resp)
           then Some (Inr \<lparr>fr_events = out @ evs, fr_cursor = resp_cursor resp,
                        fr_latestLedger = resp_latestLedger resp\<rparr>, w')
           else (case cursorLedger (the (resp_cursor resp)) of Inl e \<Rightarrow> Some (Inl e, w')
             | Inr l \<Rightarrow>
               if resp_latestLedger resp \<le> l \<or> resp_cursor resp = resumeCursor
               then Some (Inr \<lparr>fr_events = out @ evs, fr_cursor = resp_cursor resp,
                            fr_latestLedger = resp_latestLedger resp\<rparr>, w')
               else fetchLoop K srv tokenId startLedger limit (resp_cursor resp) (resp_cursor resp)
                      (out @ evs) w'))))"

definition fetchEvents ::
  "'p prims \<Rightarrow> 'w rpcServer \<Rightarrow> string \<Rightarrow> int option \<Rightarrow> string option \<Rightarrow> int option
   \<Rightarrow> ('w, 'p fetchEventsResult) io" where
  "fetchEvents K srv tokenId startLedger startCursor pageLimit =
     (if startCursor = None \<and> startLedger = None then io_throw NoStart
      else fetchLoop K srv tokenId startLedger (given pageLimit 100) startCursor startCursor [])"

definition resolveEventRef ::
  "'p prims \<Rightarrow> 'w rpcServer \<Rightarrow> string \<Rightarrow> eventRefT \<Rightarrow> ('w, 'p confidentialEvent option) io" where
  "resolveEventRef K srv tokenId ref =
     io_bind (io_call (getEvents srv (ByRange tokenId (ref_ledger ref) (ref_ledger ref + 1) 200))) (\<lambda>resp.
     io_bind (io_res (traverse (parseEvent K) (resp_events resp))) (\<lambda>parsed.
     io_return (case filter (\<lambda>ev. ev_cursor ev = ref_id ref) (List.map_filter id parsed) of
         [ev] \<Rightarrow> (if ev_txHash ev \<noteq> ref_txHash ref then None else Some ev)
       | _ \<Rightarrow> None)))"

section \<open>Projection to JSON\<close>

definition pointJson :: "'p prims \<Rightarrow> 'p \<Rightarrow> json" where
  "pointJson K p = (case pointCoords K p of (x, y) \<Rightarrow>
     JObj [(''x'', JStr (toHex32 x)), (''y'', JStr (toHex32 y))])"

definition numJson :: "int option \<Rightarrow> json" where
  "numJson n = (case n of Some x \<Rightarrow> JNum x | None \<Rightarrow> JNull)"

fun bodyJson :: "'p prims \<Rightarrow> 'p eventBody \<Rightarrow> (string \<times> json) list" where
  "bodyJson K (RegisterEvent a u) =
     [(''type'', JStr ''register''), (''account'', JStr a), (''auditorId'', numJson u)]"
| "bodyJson K (DepositEvent f t a) =
     [(''type'', JStr ''deposit''), (''from'', JStr f), (''to'', JStr t), (''amount'', JStr (toHex32 a))]"
| "bodyJson K (MergeEvent a) = [(''type'', JStr ''merge''), (''account'', JStr a)]"
| "bodyJson K (WithdrawEvent f t a rE s b ba) =
     [(''type'', JStr ''withdraw''), (''from'', JStr f), (''to'', JStr t), (''amount'', JStr (toHex32 a)),
      (''rE'', pointJson K rE), (''sigma'', JStr (toHex32 s)), (''bTilde'', JStr (toHex32 b)),
      (''bAudS'', JStr (toHex32 ba))]"
| "bodyJson K (TransferEvent f t rE v s b var rar vas bas) =
     [(''type'', JStr ''transfer''), (''from'', JStr f), (''to'', JStr t), (''rE'', pointJson K rE),
      (''vTilde'', JStr (toHex32 v)), (''sigma'', JStr (toHex32 s)), (''bTilde'', JStr (toHex32 b)),
      (''vAudR'', JStr (toHex32 var)), (''rAudR'', JStr (toHex32 rar)),
      (''vAudS'', JStr (toHex32 vas)), (''bAudS'', JStr (toHex32 bas))]"

definition eventToJson :: "'p prims \<Rightarrow> 'p confidentialEvent \<Rightarrow> json" where
  "eventToJson K ev =
     JObj ([(''ref'', JObj [(''ledger'', JNum (ev_ledger ev)), (''id'', JStr (ev_cursor ev)),
              (''txHash'', JStr (ev_txHash ev))]),
            (''ledger'', JNum (ev_ledger ev)), (''txHash'', JStr (ev_txHash ev))]
           @ bodyJson K (ev_body ev))"


section \<open>Identifiers: facts\<close>

lemma split_naturalEventId:
  assumes "0 \<le> l" and "CHR ''-'' \<notin> set t" and "0 \<le> opi"
  shows "split_on (CHR ''-'') (naturalEventId l t (Some opi) (Some evi))
         = toString10 l # t # toString10 opi # split_on (CHR ''-'') (toString10 evi)"
  using assms
  by (simp add: naturalEventId_def showNumber_def split_on_sep dash_toString10)

lemma naturalEventId_split:
  assumes "0 \<le> l" and "CHR ''-'' \<notin> set t" and "0 \<le> opi" and "0 \<le> evi"
  shows "split_on (CHR ''-'') (naturalEventId l t (Some opi) (Some evi))
         = [toString10 l, t, toString10 opi, toString10 evi]"
  using split_naturalEventId[OF assms(1-3)] split_on_none[OF dash_toString10[OF assms(4)]] by simp

lemma naturalEventId_eq_iff:
  assumes "0 \<le> l" "CHR ''-'' \<notin> set t" "0 \<le> opi" "0 \<le> evi"
    and "0 \<le> l'" "CHR ''-'' \<notin> set t'" "0 \<le> opi'" "0 \<le> evi'"
  shows "naturalEventId l t (Some opi) (Some evi) = naturalEventId l' t' (Some opi') (Some evi')
         \<longleftrightarrow> l = l' \<and> t = t' \<and> opi = opi' \<and> evi = evi'"
proof
  assume "naturalEventId l t (Some opi) (Some evi) = naturalEventId l' t' (Some opi') (Some evi')"
  then have "split_on (CHR ''-'') (naturalEventId l t (Some opi) (Some evi))
      = split_on (CHR ''-'') (naturalEventId l' t' (Some opi') (Some evi'))" by simp
  then show "l = l' \<and> t = t' \<and> opi = opi' \<and> evi = evi'"
    unfolding naturalEventId_split[OF assms(1-4)] naturalEventId_split[OF assms(5-8)]
    by (simp add: toString10_inj)
qed simp

text \<open>
  The RPC's paging token of an event is \<^verbatim>\<open><toid>-<event index>\<close> with the ledger in the upper
  32 bits of the \<^verbatim>\<open>toid\<close> and the operation index in its lowest twelve.
\<close>

definition rpcToken :: "int \<Rightarrow> int \<Rightarrow> int \<Rightarrow> int \<Rightarrow> string" where
  "rpcToken ledger txOrder opIndex eventIndex =
     toString10 (ledger * 2 ^ 32 + txOrder * 2 ^ 12 + opIndex) @ ''-'' @ toString10 eventIndex"

lemma BigInt_toString10 [simp]: "BigInt_of (toString10 x) = Inr x"
  by (simp add: BigInt_of_def)

lemma split_rpcToken:
  assumes "0 \<le> l" "0 \<le> t" "0 \<le> opi" "0 \<le> evi"
  shows "split_on (CHR ''-'') (rpcToken l t opi evi)
         = [toString10 (l * 2 ^ 32 + t * 2 ^ 12 + opi), toString10 evi]"
  using assms split_on_none[OF dash_toString10[of evi]]
  by (simp add: rpcToken_def split_on_sep dash_toString10)

lemma cursorLedger_token:
  assumes "0 \<le> l" "0 \<le> t" "t < 2 ^ 20" "0 \<le> opi" "opi < 2 ^ 12" "0 \<le> evi"
  shows "cursorLedger (rpcToken l t opi evi) = Inr l"
proof -
  have "(l * 2 ^ 32 + (t * 2 ^ 12 + opi)) div 2 ^ 32 = l" using assms by simp
  then show ?thesis using split_rpcToken[OF assms(1,2,4,6)]
    by (simp add: cursorLedger_def drop_bit_eq_div add.assoc)
qed

lemma rpcEventCoords_token:
  assumes "0 \<le> l" "0 \<le> t" "0 \<le> opi" "opi < 2 ^ 12" "0 \<le> evi"
  shows "rpcEventCoords (rpcToken l t opi evi) = Inr (opi, Some evi)"
proof -
  let ?n = "l * 2 ^ 32 + t * 2 ^ 12 + opi"
  have "?n AND 0xfff = take_bit 12 ?n" by (simp add: take_bit_eq_mask mask_eq_exp_minus_1)
  also have "\<dots> = (opi + (l * 2 ^ 20 + t) * 2 ^ 12) mod 2 ^ 12"
    by (simp add: take_bit_eq_mod algebra_simps)
  also have "\<dots> = opi" using assms by (simp only: mod_mult_self1) simp
  finally show ?thesis using split_rpcToken[OF assms(1,2,3,5)]
    by (simp add: rpcEventCoords_def Number_of_def)
qed

section \<open>One shape, two encodings\<close>

text \<open>
  What an event carries, independent of how a source encodes it: its name, its address topics and
  its data fields by name. A source encodes the fields its own way and offers an accessor; the
  locale is what the shared builder needs of the pair.
\<close>

datatype 'p fieldVal = FField int | FPoint 'p | FI128 int | FU32 int

fun body_name :: "'p eventBody \<Rightarrow> string" where
  "body_name (RegisterEvent a u) = ''register''"
| "body_name (DepositEvent f t a) = ''deposit''"
| "body_name (MergeEvent a) = ''merge''"
| "body_name (WithdrawEvent f t a rE s b ba) = ''withdraw''"
| "body_name (TransferEvent f t rE v s b var rar vas bas) = ''transfer''"

fun body_addrs :: "'p eventBody \<Rightarrow> string list" where
  "body_addrs (RegisterEvent a u) = [a]"
| "body_addrs (DepositEvent f t a) = [f, t]"
| "body_addrs (MergeEvent a) = [a]"
| "body_addrs (WithdrawEvent f t a rE s b ba) = [f, t]"
| "body_addrs (TransferEvent f t rE v s b var rar vas bas) = [f, t]"

fun body_data :: "'p eventBody \<Rightarrow> (string \<times> 'p fieldVal) list" where
  "body_data (RegisterEvent a u) = [(''auditor_id'', FU32 (given u 0))]"
| "body_data (DepositEvent f t a) = [(''amount'', FI128 a)]"
| "body_data (MergeEvent a) = []"
| "body_data (WithdrawEvent f t a rE s b ba) =
     [(''amount'', FI128 a), (''b_aud_s'', FField ba), (''b_tilde'', FField b), (''r_e'', FPoint rE),
      (''sigma'', FField s)]"
| "body_data (TransferEvent f t rE v s b var rar vas bas) =
     [(''b_aud_s'', FField bas), (''b_tilde'', FField b), (''r_aud_r'', FField rar),
      (''r_e'', FPoint rE), (''sigma'', FField s), (''v_aud_r'', FField var), (''v_aud_s'', FField vas),
      (''v_tilde'', FField v)]"

text \<open>Every body but a register without an auditor number can be emitted.\<close>

fun emittable :: "'p eventBody \<Rightarrow> bool" where
  "emittable (RegisterEvent a u) \<longleftrightarrow> u \<noteq> None"
| "emittable _ \<longleftrightarrow> True"

fun reads1 :: "'p accessor \<Rightarrow> string \<Rightarrow> 'p fieldVal \<Rightarrow> bool" where
  "reads1 acc n (FField x) \<longleftrightarrow> acc_field acc n = Inr x"
| "reads1 acc n (FPoint p) \<longleftrightarrow> acc_point acc n = Inr p"
| "reads1 acc n (FI128 x) \<longleftrightarrow> acc_i128 acc n = Inr x"
| "reads1 acc n (FU32 x) \<longleftrightarrow> acc_u32 acc n = Inr (Some x)"

definition reads :: "'p accessor \<Rightarrow> (string \<times> 'p fieldVal) list \<Rightarrow> bool" where
  "reads acc d \<longleftrightarrow> list_all (\<lambda>(n, v). reads1 acc n v) d"

lemma readsI: "(\<And>n v. (n, v) \<in> set d \<Longrightarrow> reads1 acc n v) \<Longrightarrow> reads acc d"
  by (auto simp: reads_def list_all_iff)

locale event_codec =
  fixes encode :: "(string \<times> 'p fieldVal) list \<Rightarrow> 'v"
    and acc_of :: "'v \<Rightarrow> 'p accessor res"
    and ok :: "'p fieldVal \<Rightarrow> bool"
  assumes acc_encode: "distinct (map fst d) \<Longrightarrow> [] \<notin> set (map fst d) \<Longrightarrow> list_all (\<lambda>x. ok (snd x)) d
    \<Longrightarrow> \<exists>acc. acc_of (encode d) = Inr acc \<and> reads acc d"
begin

lemma built_back:
  assumes "emittable b" and "list_all (\<lambda>x. ok (snd x)) (body_data b)"
    and "\<And>i. i < length (body_addrs b) \<Longrightarrow> addr (Suc i) = Inr (body_addrs b ! i)"
  shows "rbind (acc_of (encode (body_data b))) (buildConfidentialEvent (body_name b) base addr)
         = Inr (Some (with_base base b))"
proof -
  have "distinct (map fst (body_data b))" and "[] \<notin> set (map fst (body_data b))"
    by (cases b; simp)+
  then obtain acc where acc: "acc_of (encode (body_data b)) = Inr acc" "reads acc (body_data b)"
    using acc_encode assms(2) by blast
  have "buildBody (body_name b) addr acc = Inr (Some b)"
    using acc(2) assms(1) assms(3)[of 0] assms(3)[of 1]
    by (cases b) (auto simp: buildBody_def reads_def numeral_2_eq_2)
  with acc(1) show ?thesis by (simp add: buildConfidentialEvent_def)
qed

end

text \<open>The XDR encoding, and the field values its bytes can carry.\<close>

fun xdrField :: "'p prims \<Rightarrow> 'p fieldVal \<Rightarrow> scval" where
  "xdrField K (FField x) = ScBytes (catch (toBytes32BE x) [])"
| "xdrField K (FPoint p) = ScBytes (catch (pointToBytes K p) [])"
| "xdrField K (FI128 x) = ScI128 x"
| "xdrField K (FU32 x) = ScU32 x"

definition xdrData :: "'p prims \<Rightarrow> (string \<times> 'p fieldVal) list \<Rightarrow> scval" where
  "xdrData K d = ScMap (map (\<lambda>(n, v). (ScSymbol n, xdrField K v)) d)"

fun encodable :: "'p prims \<Rightarrow> 'p fieldVal \<Rightarrow> bool" where
  "encodable K (FField x) \<longleftrightarrow> 0 \<le> x \<and> x < 2 ^ 256"
| "encodable K (FPoint p) \<longleftrightarrow> length (catch (pointToBytes K p) []) = 64
     \<and> pointFromBytes K (catch (pointToBytes K p) []) = Inr p"
| "encodable K (FI128 x) \<longleftrightarrow> - (2 ^ 127) \<le> x \<and> x < 2 ^ 127"
| "encodable K (FU32 x) \<longleftrightarrow> 0 \<le> x \<and> x < 2 ^ 32"

lemma point_encodable: "curve_laws K \<Longrightarrow> encodable K (FPoint p)"
  using pointToBytes_ok[of K p] by (metis catch_simps(2) encodable.simps(2))

lemma field_encoded:
  assumes "encodable K (FField x)"
  shows "length (catch (toBytes32BE x) []) = 32" and "fromBytesBE (catch (toBytes32BE x) []) = x"
proof -
  obtain bs where "toBytes32BE x = Inr bs" using assms toBytes32BE_Inr_iff[of x] by auto
  with fromBytesBE_toBytes32BE[OF this]
  show "length (catch (toBytes32BE x) []) = 32" "fromBytesBE (catch (toBytes32BE x) []) = x"
    by simp_all
qed

lemma entries_xdr:
  "entries_by_name acc (map (\<lambda>(n, v). (ScSymbol n, f v)) d)
   = Inr (fold (\<lambda>(n, v). put n (f v)) d acc)"
  by (induction d arbitrary: acc) auto

lemma map_of_entries:
  assumes "distinct (map fst d)" and "(n, v) \<in> set d"
  shows "map_of (fold (\<lambda>(n, v). put n (f v)) d []) n = Some (f v)"
proof -
  have "fold (\<lambda>(n, v). put n (f v)) d [] = fold (\<lambda>(n, v). put n v) (map (\<lambda>(n, v). (n, f v)) d) []"
    by (simp add: fold_map comp_def case_prod_unfold)
  moreover have "map_of (map (\<lambda>(n, v). (n, f v)) d) n = Some (f v)"
    using assms by (simp add: map_of_map comp_def)
  ultimately show ?thesis
    using assms(1) map_of_fold_put[of "map (\<lambda>(n, v). (n, f v)) d" "[]" n]
    by (simp add: comp_def case_prod_unfold)
qed

interpretation xdr_codec: event_codec "xdrData K" "dataMap K" "encodable K" for K
proof unfold_locales
  fix d :: "(string \<times> 'a fieldVal) list"
  assume d: "distinct (map fst d)" "list_all (\<lambda>x. encodable K (snd x)) d"
    and "[] \<notin> set (map fst d)"
  let ?m = "fold (\<lambda>(n, v). put n (xdrField K v)) d []"
  have m: "map_of ?m n = Some (xdrField K v)" if "(n, v) \<in> set d" for n v
    by (rule map_of_entries[OF d(1) that])
  obtain acc where acc: "dataMap K (xdrData K d) = Inr acc"
    by (simp add: dataMap_def xdrData_def entries_xdr)
  have "reads acc d"
  proof (rule readsI)
    fix n v
    assume nv: "(n, v) \<in> set d"
    with d(2) have "encodable K v" by (auto simp: list_all_iff)
    with acc m[OF nv] field_encoded[of K] show "reads1 acc n v"
      by (cases v) (auto simp: dataMap_def xdrData_def entries_xdr)
  qed
  with acc show "\<exists>acc. dataMap K (xdrData K d) = Inr acc \<and> reads acc d" by blast
qed

text \<open>The RPC's response for an event, and the event parsed back from it.\<close>

definition rpcResponse :: "'p prims \<Rightarrow> int \<Rightarrow> string \<Rightarrow> int \<Rightarrow> int \<Rightarrow> int \<Rightarrow> 'p eventBody \<Rightarrow> eventResponse" where
  "rpcResponse K l h txo opi evi b =
     \<lparr>er_id = rpcToken l txo opi evi, er_ledger = l, er_txHash = h,
      er_topic = ScSymbol (body_name b) # map ScAddress (body_addrs b),
      er_value = xdrData K (body_data b)\<rparr>"

definition eventOf :: "int \<Rightarrow> string \<Rightarrow> int \<Rightarrow> int \<Rightarrow> 'p eventBody \<Rightarrow> 'p confidentialEvent" where
  "eventOf l h opi evi b = with_base \<lparr>ev_ledger = l, ev_txHash = h,
     ev_cursor = naturalEventId l h (Some opi) (Some evi)\<rparr> b"

lemma body_name_KNOWN [simp]: "body_name b \<in> set KNOWN"
  by (cases b) (simp_all add: KNOWN_def)

lemma parseEvent_rpcResponse:
  assumes "emittable b" and "list_all (\<lambda>x. encodable K (snd x)) (body_data b)"
    and "0 \<le> l" "0 \<le> txo" "0 \<le> opi" "opi < 2 ^ 12" "0 \<le> evi"
  shows "parseEvent K (rpcResponse K l h txo opi evi b) = Inr (Some (eventOf l h opi evi b))"
proof -
  have "topic_addr (ScSymbol (body_name b) # map ScAddress (body_addrs b)) (Suc i)
      = Inr (body_addrs b ! i)" if "i < length (body_addrs b)" for i
    using that by (simp add: topic_addr_def)
  from xdr_codec.built_back[OF assms(1,2) this] show ?thesis
    using rpcEventCoords_token[OF assms(3-7)]
    by (simp add: parseEvent_def rpcResponse_def eventOf_def)
qed


section \<open>The paging loop\<close>

text \<open>
  A run of pages: each page is requested with the cursor of the one before, and the loop goes on
  exactly while the page's cursor is short of the chain head and moves.
\<close>

definition page_stops :: "string option \<Rightarrow> eventsResponse \<Rightarrow> bool" where
  "page_stops prev resp \<longleftrightarrow> \<not> truthy (resp_cursor resp) \<or>
     (\<exists>l. cursorLedger (the (resp_cursor resp)) = Inr l
        \<and> (resp_latestLedger resp \<le> l \<or> resp_cursor resp = prev))"

inductive page_run ::
  "'w rpcServer \<Rightarrow> string \<Rightarrow> int option \<Rightarrow> int \<Rightarrow> string option \<Rightarrow> 'w
   \<Rightarrow> eventsResponse list \<Rightarrow> 'w \<Rightarrow> bool"
  for srv tokenId startLedger limit where
  last_page: "getEvents srv (page_request tokenId c startLedger limit) w = (Inr resp, w')
     \<Longrightarrow> page_stops c resp \<Longrightarrow> page_run srv tokenId startLedger limit c w [resp] w'"
| next_page: "getEvents srv (page_request tokenId c startLedger limit) w = (Inr resp, w')
     \<Longrightarrow> \<not> page_stops c resp
     \<Longrightarrow> page_run srv tokenId startLedger limit (resp_cursor resp) w' resps w''
     \<Longrightarrow> page_run srv tokenId startLedger limit c w (resp # resps) w''"

inductive_cases page_run_NilE: "page_run srv tokenId startLedger limit c w [] w'"

lemma page_run_ne: "page_run srv tokenId sl lim c w resps w' \<Longrightarrow> resps \<noteq> []"
  by (auto elim: page_run_NilE)

definition pages_result ::
  "'p confidentialEvent list \<Rightarrow> 'p confidentialEvent list list \<Rightarrow> eventsResponse list \<Rightarrow> 'p fetchEventsResult" where
  "pages_result out evss resps = \<lparr>fr_events = out @ concat evss, fr_cursor = resp_cursor (last resps),
     fr_latestLedger = resp_latestLedger (last resps)\<rparr>"

lemma fetchLoop_pages_aux:
  fixes K :: "'p prims" and srv :: "'w rpcServer"
  assumes "fetchLoop K srv tok sl lim pc rc out w = Some r0"
  shows "\<forall>r w'. r0 = (Inr r, w') \<longrightarrow> pc = rc \<longrightarrow>
     (\<exists>resps evss. page_run srv tok sl lim pc w resps w'
       \<and> traverse (\<lambda>p. parsePage K (resp_events p)) resps = Inr evss
       \<and> r = pages_result out evss resps)"
proof (induct K srv tok sl lim pc rc out w r0 rule: fetchLoop.raw_induct)
  case (1 loop K srv tok sl lim pc rc out w r0)
  show ?case
  proof (intro allI impI)
    fix r w'
    assume r0: "r0 = (Inr r, w')" and pc: "pc = rc"
    obtain resp w1 where g: "getEvents srv (page_request tok pc sl lim) w = (Inr resp, w1)"
      using 1(2) r0 by (auto split: prod.splits sum.splits)
    obtain evs where p: "parsePage K (resp_events resp) = Inr evs"
      using 1(2) r0 g by (auto split: sum.splits)
    show "\<exists>resps evss. page_run srv tok sl lim pc w resps w'
        \<and> traverse (\<lambda>p. parsePage K (resp_events p)) resps = Inr evss
        \<and> r = pages_result out evss resps"
    proof (cases "page_stops pc resp")
      case True
      then have "r = pages_result out [evs] [resp]" and "w' = w1"
        using 1(2) r0 g p pc
        by (auto simp: page_stops_def pages_result_def split: if_splits sum.splits)
      with last_page[OF g True] p show ?thesis by (intro exI[of _ "[resp]"] exI[of _ "[evs]"]) simp
    next
      case False
      then have "loop K srv tok sl lim (resp_cursor resp) (resp_cursor resp) (out @ evs) w1
          = Some (Inr r, w')"
        using 1(2) r0 g p pc by (auto simp: page_stops_def split: if_splits sum.splits)
      from 1(1)[OF this] obtain resps evss where
        run: "page_run srv tok sl lim (resp_cursor resp) w1 resps w'"
        and evss: "traverse (\<lambda>p. parsePage K (resp_events p)) resps = Inr evss"
        and r: "r = pages_result (out @ evs) evss resps" by blast
      have "page_run srv tok sl lim pc w (resp # resps) w'" by (rule next_page[OF g False run])
      moreover have "r = pages_result out (evs # evss) (resp # resps)"
        using r page_run_ne[OF run] by (simp add: pages_result_def)
      moreover have "traverse (\<lambda>p. parsePage K (resp_events p)) (resp # resps) = Inr (evs # evss)"
        using p evss by simp
      ultimately show ?thesis by blast
    qed
  qed
next
  case 2
  show ?case by (rule assms)
qed

lemma fetchLoop_pages:
  assumes "fetchLoop K srv tok sl lim c c out w = Some (Inr r, w')"
  shows "\<exists>resps evss. page_run srv tok sl lim c w resps w'
       \<and> traverse (\<lambda>p. parsePage K (resp_events p)) resps = Inr evss
       \<and> r = pages_result out evss resps"
  using fetchLoop_pages_aux[OF assms] by blast

text \<open>
  The loop ends when the server makes progress: in some count of its positions, the cursor of a page that
  does not end the loop lies after the one it was asked with, and not after the end of what there is. The
  measure is the distance to that end.
\<close>

definition progressing ::
  "(string option \<Rightarrow> int) \<Rightarrow> 'w rpcServer \<Rightarrow> string \<Rightarrow> int option \<Rightarrow> int \<Rightarrow> int \<Rightarrow> bool" where
  "progressing pos srv tok sl lim end1 \<longleftrightarrow>
     (\<forall>c w resp w'. getEvents srv (page_request tok c sl lim) w = (Inr resp, w')
        \<longrightarrow> \<not> page_stops c resp \<longrightarrow> pos c < pos (resp_cursor resp) \<and> pos (resp_cursor resp) \<le> end1)"

lemma fetchLoop_returns:
  assumes "progressing pos srv tok sl lim end1"
  shows "\<exists>r. fetchLoop K srv tok sl lim c c out w = Some r"
proof (induction "nat (end1 - pos c)" arbitrary: c out w rule: less_induct)
  case less
  obtain r w' where g: "getEvents srv (page_request tok c sl lim) w = (r, w')"
    by (cases "getEvents srv (page_request tok c sl lim) w")
  show ?case
  proof (cases r)
    case (Inl e)
    with g show ?thesis by (simp add: fetchLoop.simps)
  next
    case (Inr resp)
    show ?thesis
    proof (cases "parsePage K (resp_events resp)")
      case (Inl e)
      with g Inr show ?thesis by (simp add: fetchLoop.simps)
    next
      case p: (Inr evs)
      let ?c = "resp_cursor resp"
      show ?thesis
      proof (cases "\<not> truthy ?c \<or> (\<exists>e. cursorLedger (the ?c) = Inl e)")
        case True
        with g Inr p show ?thesis by (auto simp: fetchLoop.simps)
      next
        case False
        then obtain s l where s: "?c = Some s" "truthy ?c" and l: "cursorLedger s = Inr l"
          by (cases "cursorLedger (the ?c)") (auto simp: truthy_iff)
        show ?thesis
        proof (cases "page_stops c resp")
          case True
          with g Inr p s l show ?thesis by (auto simp: fetchLoop.simps page_stops_def)
        next
          case ns: False
          with assms g Inr have "pos c < pos ?c" and "pos ?c \<le> end1" unfolding progressing_def by blast+
          then have "nat (end1 - pos ?c) < nat (end1 - pos c)" by simp
          from less[OF this] obtain r' where
            "fetchLoop K srv tok sl lim ?c ?c (out @ evs) w' = Some r'" by blast
          moreover have "fetchLoop K srv tok sl lim c c out w
              = fetchLoop K srv tok sl lim ?c ?c (out @ evs) w'"
            using g Inr p s l ns by (subst fetchLoop.simps) (simp add: page_stops_def)
          ultimately show ?thesis by simp
        qed
      qed
    qed
  qed
qed

lemma page_run_bounded:
  assumes "page_run srv tok sl lim c w resps w'" and "progressing pos srv tok sl lim end1"
  shows "length resps \<le> Suc (nat (end1 - pos c))"
  using assms
proof (induction rule: page_run.induct)
  case (next_page c w resp w' resps w'')
  then have "pos c < pos (resp_cursor resp)" "pos (resp_cursor resp) \<le> end1" unfolding progressing_def by blast+
  with next_page.IH[OF next_page.prems] show ?case by simp
qed simp

end
