(* ===== verification/Indexer.thy ===== *)
theory Indexer
  imports Events
begin

text \<open>
  \<^verbatim>\<open>chain/indexer.ts\<close>: the client of the full-history indexer. Its rows carry JSON renderings
  of the XDR values; the decoders accept several renderings of each kind of value, and the events
  they build are the ones the RPC decoder builds. A missing JSON member is \<^term>\<open>None\<close>.
\<close>

section \<open>Reading JSON values\<close>

fun normalizeJson :: "json option \<Rightarrow> json option" where
  "normalizeJson (Some (JStr s)) = (case JSON_parse s of Some v \<Rightarrow> Some v | None \<Rightarrow> Some (JStr s))"
| "normalizeJson v = v"

fun asRecord :: "json option \<Rightarrow> (string \<times> json) list option" where
  "asRecord (Some (JObj kvs)) = Some kvs"
| "asRecord _ = None"

definition asArray :: "json option \<Rightarrow> json list" where
  "asArray v = (case v of Some (JArr xs) \<Rightarrow> xs
     | _ \<Rightarrow> (case asRecord v of
          Some r \<Rightarrow> (case map_of r ''items'' of Some (JArr xs) \<Rightarrow> xs | _ \<Rightarrow> [])
        | None \<Rightarrow> []))"

text \<open>The first of some keys whose member is a text.\<close>

fun first_text :: "string list \<Rightarrow> (string \<times> json) list \<Rightarrow> string option" where
  "first_text [] r = None"
| "first_text (k # ks) r = (case map_of r k of Some (JStr s) \<Rightarrow> Some s | _ \<Rightarrow> first_text ks r)"

definition scvString :: "json option \<Rightarrow> string option" where
  "scvString v = (case v of Some (JStr s) \<Rightarrow> Some s
     | Some (JNum n) \<Rightarrow> Some (toString10 n)
     | _ \<Rightarrow> (case asRecord v of None \<Rightarrow> None
          | Some r \<Rightarrow> first_text [''symbol'', ''address'', ''string'', ''sym'', ''str'', ''value''] r))"

text \<open>\<^verbatim>\<open>atob\<close>: white space is dropped, up to two padding characters are removed.\<close>

definition b64_val :: "char \<Rightarrow> nat option" where
  "b64_val c = (let n = of_char c in
     if 65 \<le> n \<and> n \<le> 90 then Some (n - 65)
     else if 97 \<le> n \<and> n \<le> 122 then Some (n - 71)
     else if 48 \<le> n \<and> n \<le> 57 then Some (n + 4)
     else if n = 43 then Some 62 else if n = 47 then Some 63 else None)"

fun b64_groups :: "nat list \<Rightarrow> byte list" where
  "b64_groups (a # b # c # d # r) =
     of_nat (4 * a + b div 16) # of_nat (16 * (b mod 16) + c div 4) # of_nat (64 * (c mod 4) + d)
       # b64_groups r"
| "b64_groups [a, b, c] = [of_nat (4 * a + b div 16), of_nat (16 * (b mod 16) + c div 4)]"
| "b64_groups [a, b] = [of_nat (4 * a + b div 16)]"
| "b64_groups _ = []"

definition atob :: "string \<Rightarrow> byte list res" where
  "atob s = (let t = filter (\<lambda>c. (of_char c :: nat) \<notin> {9, 10, 12, 13, 32}) s;
      u = (if length t mod 4 \<noteq> 0 then t
           else if drop (length t - 2) t = ''=='' then take (length t - 2) t
           else if drop (length t - 1) t = ''='' then take (length t - 1) t else t)
    in if length u mod 4 = 1 \<or> list_ex (\<lambda>c. b64_val c = None) u
       then Inl (SyntaxError ''InvalidCharacterError'')
       else Inr (b64_groups (map (\<lambda>c. the (b64_val c)) u)))"

definition decodeBytesString :: "string \<Rightarrow> byte list res" where
  "decodeBytesString s = (let hex = (if startsWith ''0x'' s \<or> startsWith ''0X'' s then drop 2 s else s) in
     if length hex mod 2 = 0 \<and> list_all (\<lambda>c. hex_val c \<noteq> None) hex then hexToBytes hex
     else atob s)"

definition scvBytes :: "json option \<Rightarrow> byte list res" where
  "scvBytes v = (case (case v of Some (JStr s) \<Rightarrow> Some s
       | _ \<Rightarrow> (case asRecord v of None \<Rightarrow> None
            | Some r \<Rightarrow> first_text [''bytes'', ''hex'', ''b64'', ''bytesN'', ''value''] r)) of
     None \<Rightarrow> Inl (BadScVal ''bytes'')
   | Some s \<Rightarrow> decodeBytesString s)"

definition padTo :: "byte list \<Rightarrow> nat \<Rightarrow> byte list res" where
  "padTo bytes len = (if length bytes = len then Inr bytes
     else if len < length bytes then Inl (BadLength len (length bytes))
     else Inr (replicate (len - length bytes) 0 @ bytes))"

text \<open>\<^verbatim>\<open>BigInt(v)\<close> of a JSON value.\<close>

fun BigInt_json :: "json \<Rightarrow> int res" where
  "BigInt_json (JNum n) = Inr n"
| "BigInt_json (JStr s) = BigInt_of s"
| "BigInt_json (JBool b) = Inr (if b then 1 else 0)"
| "BigInt_json JNull = Inl (TypeError ''null'')"
| "BigInt_json _ = Inl (SyntaxError ''object'')"

text \<open>The first of some keys whose member is a text or a number.\<close>

fun first_scalar :: "string list \<Rightarrow> (string \<times> json) list \<Rightarrow> json option" where
  "first_scalar [] r = None"
| "first_scalar (k # ks) r = (case map_of r k of
      Some (JStr s) \<Rightarrow> Some (JStr s) | Some (JNum n) \<Rightarrow> Some (JNum n) | _ \<Rightarrow> first_scalar ks r)"

definition scvI128 :: "json option \<Rightarrow> int res" where
  "scvI128 v = (case v of Some (JNum n) \<Rightarrow> Inr n | Some (JStr s) \<Rightarrow> BigInt_of s
     | _ \<Rightarrow> (case asRecord v of None \<Rightarrow> Inl (BadScVal ''i128'')
        | Some r \<Rightarrow> (case first_scalar [''i128'', ''i64'', ''u64'', ''value''] r of
            Some x \<Rightarrow> BigInt_json x
          | None \<Rightarrow> (case (map_of r ''hi'', map_of r ''lo'') of
              (Some hi, Some lo) \<Rightarrow> rbind (BigInt_json hi) (\<lambda>h. rbind (BigInt_json lo) (\<lambda>l.
                 Inr (push_bit 64 h OR (l AND (2 ^ 64 - 1)))))
            | _ \<Rightarrow> Inl (BadScVal ''i128'')))))"

definition scvU32 :: "json option \<Rightarrow> int option res" where
  "scvU32 v = (case v of Some (JNum n) \<Rightarrow> Inr (Some n) | Some (JStr s) \<Rightarrow> Inr (Number_of s)
     | _ \<Rightarrow> (case asRecord v of None \<Rightarrow> Inl (BadScVal ''u32'')
        | Some r \<Rightarrow> (case first_scalar [''u32'', ''u64'', ''value''] r of
            Some (JNum n) \<Rightarrow> Inr (Some n) | Some (JStr s) \<Rightarrow> Inr (Number_of s)
          | _ \<Rightarrow> Inl (BadScVal ''u32''))))"

text \<open>
  The data of an event by field name. A value of the result is \<^term>\<open>None\<close> when an entry of the
  map has a key but no \<^verbatim>\<open>val\<close>.
\<close>

fun scval_entries :: "(string \<times> json option) list \<Rightarrow> json list \<Rightarrow> (string \<times> json option) list" where
  "scval_entries acc [] = acc"
| "scval_entries acc (e # es) = (case asRecord (Some e) of None \<Rightarrow> scval_entries acc es
     | Some r \<Rightarrow> (case scvString (map_of r ''key'') of
          Some (c # cs) \<Rightarrow> scval_entries (put (c # cs) (map_of r ''val'') acc) es
        | _ \<Rightarrow> scval_entries acc es))"

definition parseScValMap :: "json option \<Rightarrow> (string \<times> json option) list" where
  "parseScValMap v = (case asRecord v of None \<Rightarrow> []
     | Some r \<Rightarrow> (let entries = asArray (map_of r ''map'') in
         if entries = [] then map (\<lambda>(k, x). (k, Some x)) r else scval_entries [] entries))"

definition idxDataMap :: "'p prims \<Rightarrow> json option \<Rightarrow> 'p accessor" where
  "idxDataMap K value = (let byName = parseScValMap (normalizeJson value);
     get = (\<lambda>name. case map_of byName name of None \<Rightarrow> Inl (MissingField name) | Some v \<Rightarrow> Inr v) in
     \<lparr>acc_field = (\<lambda>name. rbind (get name) (\<lambda>v. rmap fromBytesBE (scvBytes v))),
      acc_point = (\<lambda>name. rbind (get name) (\<lambda>v. rbind (scvBytes v) (\<lambda>b. rbind (padTo b 64) (pointFromBytes K)))),
      acc_i128 = (\<lambda>name. rbind (get name) scvI128),
      acc_u32 = (\<lambda>name. rbind (get name) scvU32)\<rparr>)"

section \<open>Row identifiers\<close>

text \<open>The match of \<^verbatim>\<open>/op-(\d+)-event-(\d+)\s*$/i\<close>: the leftmost position where it holds.\<close>

definition lower :: "char \<Rightarrow> char" where
  "lower c = (let n = of_char c :: nat in if 65 \<le> n \<and> n \<le> 90 then char_of (n + 32) else c)"

definition after_word :: "string \<Rightarrow> string \<Rightarrow> string option" where
  "after_word p s = (if map lower (take (length p) s) = p then Some (drop (length p) s) else None)"

definition match_op_event :: "string \<Rightarrow> (string \<times> string) option" where
  "match_op_event s = (case after_word ''op-'' s of None \<Rightarrow> None
     | Some t \<Rightarrow> (let d1 = takeWhile is_dec t in
        case after_word ''-event-'' (dropWhile is_dec t) of None \<Rightarrow> None
        | Some u \<Rightarrow> (let d2 = takeWhile is_dec u in
            if d1 \<noteq> [] \<and> d2 \<noteq> [] \<and> list_all js_space (dropWhile is_dec u) then Some (d1, d2) else None)))"

fun find_op_event :: "string \<Rightarrow> (string \<times> string) option" where
  "find_op_event [] = None"
| "find_op_event (c # cs) = (case match_op_event (c # cs) of Some m \<Rightarrow> Some m | None \<Rightarrow> find_op_event cs)"

definition indexerEventId :: "string \<Rightarrow> int \<Rightarrow> string \<Rightarrow> string" where
  "indexerEventId rowId ledger txHash = (case find_op_event rowId of None \<Rightarrow> rowId
     | Some (o1, e1) \<Rightarrow> naturalEventId ledger txHash (Number_of o1) (Number_of e1))"

section \<open>Rows\<close>

record indexerRow =
  row_id :: string
  row_ledger :: int
  row_txHash :: "string option"
  row_topic :: "json option"
  row_value :: "json option"

definition parseIndexerEvent :: "'p prims \<Rightarrow> indexerRow \<Rightarrow> 'p confidentialEvent option res" where
  "parseIndexerEvent K row =
     (let topics = asArray (normalizeJson (row_topic row)) in
      if topics = [] then Inr None
      else case scvString (Some (hd topics)) of None \<Rightarrow> Inr None
      | Some name \<Rightarrow>
        if name = [] \<or> name \<notin> set KNOWN then Inr None
        else (let ledger = row_ledger row; txHash = given (row_txHash row) [];
            base = \<lparr>ev_ledger = ledger, ev_txHash = txHash,
                    ev_cursor = indexerEventId (row_id row) ledger txHash\<rparr>;
            addr = (\<lambda>i. case scvString (if i < length topics then Some (topics ! i) else None) of
                None \<Rightarrow> Inl (MissingTopic name i)
              | Some a \<Rightarrow> if a = [] then Inl (MissingTopic name i) else Inr a)
          in buildConfidentialEvent name base addr (idxDataMap K (row_value row))))"

section \<open>The client\<close>

text \<open>
  A request is its path and its query; parameters that are \<^verbatim>\<open>undefined\<close> are left out. The base
  URL gets exactly one trailing slash and the path loses a leading one, so resolving the one
  against the other is concatenation.
\<close>

record httpRequest =
  rq_path :: string
  rq_query :: "(string \<times> string) list"

record 'a httpResponse =
  http_ok :: bool
  http_status :: int
  http_text :: "string res"
  http_json :: "'a res"

definition one_slash :: "string \<Rightarrow> string" where
  "one_slash s = (if s \<noteq> [] \<and> last s = CHR ''/'' then s else s @ ''/'')"

definition indexerUrl :: "string \<Rightarrow> string \<Rightarrow> (string \<times> string option) list \<Rightarrow> httpRequest" where
  "indexerUrl baseUrl path params =
     \<lparr>rq_path = one_slash baseUrl @ (if startsWith ''/'' path then drop 1 path else path),
      rq_query = List.map_filter (\<lambda>(k, v). map_option (Pair k) v) params\<rparr>"

record eventsPage =
  pg_latestLedger :: "int option"
  pg_cursor :: "string option"
  pg_events :: "indexerRow list option"

record 'w indexerApi =
  api_health :: "httpRequest \<Rightarrow> 'w \<Rightarrow> int option httpResponse res \<times> 'w"
  api_events :: "httpRequest \<Rightarrow> 'w \<Rightarrow> eventsPage httpResponse res \<times> 'w"

definition DEFAULT_PAGE_LIMIT :: int where "DEFAULT_PAGE_LIMIT = 200"

definition safeText :: "'a httpResponse \<Rightarrow> string" where
  "safeText resp = catch (rmap (take 200) (http_text resp)) []"

definition health :: "'w indexerApi \<Rightarrow> string \<Rightarrow> ('w, int) io" where
  "health api baseUrl =
     io_bind (io_call (api_health api (indexerUrl baseUrl ''health'' []))) (\<lambda>resp.
     io_bind (io_res (http_json resp)) (\<lambda>latest. io_return (given latest 0)))"

definition parseRows :: "'p prims \<Rightarrow> eventsPage \<Rightarrow> 'p confidentialEvent list res" where
  "parseRows K page = rmap (List.map_filter id) (traverse (parseIndexerEvent K) (given (pg_events page) []))"

definition idxRequest ::
  "string \<Rightarrow> string \<Rightarrow> int option \<Rightarrow> int option \<Rightarrow> int \<Rightarrow> string option \<Rightarrow> httpRequest" where
  "idxRequest baseUrl contractId startLedger endLedger limit cursor =
     indexerUrl baseUrl (''contracts/'' @ contractId @ ''/events'')
       [(''startLedger'', if truthy cursor then None else map_option toString10 startLedger),
        (''endLedger'', map_option toString10 endLedger),
        (''cursor'', cursor),
        (''limit'', Some (toString10 limit))]"

partial_function (option) idxLoop ::
  "'p prims \<Rightarrow> 'w indexerApi \<Rightarrow> (string option \<Rightarrow> httpRequest) \<Rightarrow> string option \<Rightarrow> int
   \<Rightarrow> 'p confidentialEvent list \<Rightarrow> 'w \<Rightarrow> ('p fetchEventsResult res \<times> 'w) option" where
  "idxLoop K api req cursor latest out w =
     (case api_events api (req cursor) w of (r, w') \<Rightarrow>
      (case r of Inl e \<Rightarrow> Some (Inl e, w')
       | Inr resp \<Rightarrow>
         if \<not> http_ok resp then Some (Inl (HttpError (http_status resp) (safeText resp)), w')
         else (case http_json resp of Inl e \<Rightarrow> Some (Inl e, w')
         | Inr page \<Rightarrow>
           (case parseRows K page of Inl e \<Rightarrow> Some (Inl e, w')
            | Inr evs \<Rightarrow>
              if \<not> truthy (pg_cursor page) \<or> given (pg_events page) [] = [] \<or> pg_cursor page = cursor
              then Some (Inr \<lparr>fr_events = out @ evs, fr_cursor = None,
                           fr_latestLedger = given (pg_latestLedger page) latest\<rparr>, w')
              else idxLoop K api req (pg_cursor page) (given (pg_latestLedger page) latest) (out @ evs) w'))))"

definition idxFetchEvents ::
  "'p prims \<Rightarrow> 'w indexerApi \<Rightarrow> string \<Rightarrow> string \<Rightarrow> int option \<Rightarrow> int option \<Rightarrow> int option
   \<Rightarrow> ('w, 'p fetchEventsResult) io" where
  "idxFetchEvents K api baseUrl contractId startLedger endLedger pageLimit =
     idxLoop K api (idxRequest baseUrl contractId startLedger endLedger (given pageLimit DEFAULT_PAGE_LIMIT))
       None 0 []"

definition idxResolveEventRef ::
  "'p prims \<Rightarrow> 'w indexerApi \<Rightarrow> string \<Rightarrow> string \<Rightarrow> eventRefT \<Rightarrow> ('w, 'p confidentialEvent option) io" where
  "idxResolveEventRef K api baseUrl contractId ref =
     io_bind (io_call (api_events api (indexerUrl baseUrl (''contracts/'' @ contractId @ ''/events'')
         [(''startLedger'', Some (toString10 (ref_ledger ref))),
          (''endLedger'', Some (toString10 (ref_ledger ref))), (''limit'', Some (toString10 200))]))) (\<lambda>resp.
     if \<not> http_ok resp then io_return None
     else io_bind (io_res (http_json resp)) (\<lambda>page.
       io_bind (io_res (traverse (parseIndexerEvent K) (given (pg_events page) []))) (\<lambda>parsed.
       io_return (case List.find (\<lambda>ev. ev_cursor ev = ref_id ref) (List.map_filter id parsed) of
           None \<Rightarrow> None
         | Some ev \<Rightarrow> if ev_txHash ev \<noteq> ref_txHash ref then None else Some ev))))"

section \<open>Decoding what was rendered\<close>

lemma hex_all:
  "list_all (\<lambda>c. hex_val c \<noteq> None) (bytesToHex b)"
proof -
  have "hex_val c \<noteq> None" if "c \<in> set (digits_of 16 n)" for c n
    using that set_digits_of[of 16 n] by auto
  then show ?thesis
    by (auto simp: bytesToHex_def list_all_iff padStart0_def toString16_def hex_val_0)
qed

lemma even_bytesToHex: "length (bytesToHex b) mod 2 = 0"
  by (simp add: length_bytesToHex)

lemma hex_val_x: "hex_val (CHR ''x'') = None" "hex_val (CHR ''X'') = None"
  by (simp_all add: hex_val_def)

lemma decode_bytesToHex: "decodeBytesString (bytesToHex b) = Inr b"
proof -
  have "CHR ''x'' \<notin> set (bytesToHex b)" and "CHR ''X'' \<notin> set (bytesToHex b)"
    using hex_all[of b] hex_val_x unfolding list_all_iff by metis+
  then have "\<not> startsWith ''0x'' (bytesToHex b)" and "\<not> startsWith ''0X'' (bytesToHex b)"
    using startsWith_mem[of "''0x''" "bytesToHex b" "CHR ''x''"]
      startsWith_mem[of "''0X''" "bytesToHex b" "CHR ''X''"] by auto
  then show ?thesis
    using hex_all[of b] even_bytesToHex[of b] hexToBytes_bytesToHex[of b]
    by (simp add: decodeBytesString_def)
qed

lemma decode_0x_bytesToHex: "decodeBytesString (''0x'' @ bytesToHex b) = Inr b"
  using hex_all[of b] even_bytesToHex[of b] hexToBytes_bytesToHex[of b]
  by (simp add: decodeBytesString_def startsWith_def)

text \<open>An \<^verbatim>\<open>i128\<close> split into a signed upper and an unsigned lower half.\<close>

lemma i128_halves: "push_bit 64 (drop_bit 64 x) OR (x AND (2 ^ 64 - 1)) = (x :: int)"
proof -
  have "x AND (2 ^ 64 - 1) = take_bit 64 x"
    by (simp only: take_bit_eq_mask mask_eq_exp_minus_1)
  moreover have "push_bit 64 (drop_bit 64 x) OR take_bit 64 x = x"
    by (rule bit_eqI) (auto simp: bit_or_iff bit_take_bit_iff bit_push_bit_iff bit_drop_bit_eq)
  ultimately show ?thesis by simp
qed

text \<open>
  A JSON rendering of an event's data: the map form, with bytes as hexadecimal text, an
  \<^verbatim>\<open>i128\<close> as decimal text or in halves, a \<^verbatim>\<open>u32\<close> as a number. The four switches are the
  choices an encoder has: a \<^verbatim>\<open>0x\<close> prefix, points without their leading zero bytes, halves, and
  the whole map as a text of JSON.
\<close>

record jsonStyle =
  js_prefix :: bool
  js_trimmed :: bool
  js_halves :: bool
  js_text :: bool

definition jsonBytes :: "jsonStyle \<Rightarrow> byte list \<Rightarrow> json" where
  "jsonBytes st b = JObj [(''bytes'', JStr ((if js_prefix st then ''0x'' else []) @ bytesToHex b))]"

fun jsonField :: "jsonStyle \<Rightarrow> 'p prims \<Rightarrow> 'p fieldVal \<Rightarrow> json" where
  "jsonField st K (FField x) = jsonBytes st (catch (toBytes32BE x) [])"
| "jsonField st K (FPoint p) = jsonBytes st (let b = catch (pointToBytes K p) [] in
     if js_trimmed st then dropWhile (\<lambda>x. x = 0) b else b)"
| "jsonField st K (FI128 x) = (if js_halves st
     then JObj [(''hi'', JNum (drop_bit 64 x)), (''lo'', JStr (toString10 (x AND (2 ^ 64 - 1))))]
     else JObj [(''i128'', JStr (toString10 x))])"
| "jsonField st K (FU32 x) = JObj [(''u32'', JNum x)]"

definition as_text :: "jsonStyle \<Rightarrow> json \<Rightarrow> json" where
  "as_text st v = (if js_text st then JStr (stringify [] [] v) else v)"

definition jsonMap :: "jsonStyle \<Rightarrow> 'p prims \<Rightarrow> (string \<times> 'p fieldVal) list \<Rightarrow> json" where
  "jsonMap st K d = JObj [(''map'', JArr (map (\<lambda>(n, v).
     JObj [(''key'', JObj [(''symbol'', JStr n)]), (''val'', jsonField st K v)]) d))]"

definition jsonTopics :: "'p eventBody \<Rightarrow> json" where
  "jsonTopics b = JArr (JObj [(''symbol'', JStr (body_name b))]
     # map (\<lambda>a. JObj [(''address'', JStr a)]) (body_addrs b))"

lemma jsonMap_wf: "json_wf (jsonMap st K d)"
proof -
  have "json_wf (jsonField st K v)" for v by (cases v) (simp_all add: jsonBytes_def)
  then show ?thesis by (auto simp: jsonMap_def list_all_iff)
qed

lemma normalize_as_text:
  assumes "json_wf v" and "\<not> (\<exists>s. v = JStr s)"
  shows "normalizeJson (Some (as_text st v)) = Some v"
proof (cases "js_text st")
  case True
  then show ?thesis using JSON_parse_stringify[OF assms(1), of "[]" "[]"] by (simp add: as_text_def)
next
  case False
  with assms(2) show ?thesis by (cases v) (simp_all add: as_text_def)
qed

lemma scvBytes_jsonBytes: "scvBytes (Some (jsonBytes st b)) = Inr b"
  using decode_bytesToHex[of b] decode_0x_bytesToHex[of b]
  by (simp add: scvBytes_def jsonBytes_def)

lemma entries_json:
  assumes "\<And>n v. (n, v) \<in> set d \<Longrightarrow> n \<noteq> []"
  shows "scval_entries acc (map (\<lambda>(n, v). JObj [(''key'', JObj [(''symbol'', JStr n)]), (''val'', f v)]) d)
    = fold (\<lambda>(n, v). put n (Some (f v))) d acc"
  using assms
proof (induction d arbitrary: acc)
  case (Cons nv d)
  obtain n v where "nv = (n, v)" by (cases nv)
  moreover from this Cons.prems obtain c cs where "n = c # cs" by (cases n) auto
  moreover have "m \<noteq> []" if "(m, w) \<in> set d" for m w using Cons.prems[of m w] that by simp
  ultimately show ?case by (simp add: scvString_def Cons.IH)
qed simp

lemma padTo_trimmed:
  assumes "length b = n"
  shows "padTo (dropWhile (\<lambda>x. x = 0) b) n = Inr b"
proof -
  let ?z = "takeWhile (\<lambda>x. x = 0) b" and ?r = "dropWhile (\<lambda>x. x = 0) b"
  have z: "?z = replicate (length ?z) 0" 
    by (rule replicate_length_same[symmetric]) (auto dest: set_takeWhileD)
  have l: "length ?z + length ?r = n"
    using assms by (metis length_append takeWhile_dropWhile_id)
  then have "n - length ?r = length ?z" by simp
  with z have "replicate (n - length ?r) 0 = ?z" by metis
  then have "replicate (n - length ?r) 0 @ ?r = b" by (metis takeWhile_dropWhile_id)
  then show ?thesis using l by (auto simp: padTo_def)
qed

lemma first_scalar_skip: "map_of r k = None \<Longrightarrow> first_scalar (k # ks) r = first_scalar ks r"
  by simp

lemma scvI128_back:
  "scvI128 (Some (jsonField st K (FI128 x))) = Inr x"
  using i128_halves[of x] by (simp add: scvI128_def BigInt_of_def)

lemma scvU32_back: "scvU32 (Some (jsonField st K (FU32 x))) = Inr (Some x)"
  by (simp add: scvU32_def)

lemma json_point_back:
  assumes "encodable K (FPoint p)"
  shows "rbind (scvBytes (Some (jsonField st K (FPoint p)))) (\<lambda>b. rbind (padTo b 64) (pointFromBytes K)) = Inr p"
proof -
  let ?b = "catch (pointToBytes K p) []"
  have l: "length ?b = 64" and p: "pointFromBytes K ?b = Inr p" using assms by simp_all
  have "padTo ?b 64 = Inr ?b" using l by (simp add: padTo_def)
  then show ?thesis
    using padTo_trimmed[OF l] p by (simp add: scvBytes_jsonBytes Let_def)
qed

interpretation json_codec: event_codec "\<lambda>d. as_text st (jsonMap st K d)"
    "\<lambda>v. Inr (idxDataMap K (Some v))" "encodable K" for st K
proof unfold_locales
  fix d :: "(string \<times> 'a fieldVal) list"
  assume d: "distinct (map fst d)" "[] \<notin> set (map fst d)" "list_all (\<lambda>x. encodable K (snd x)) d"
  let ?acc = "idxDataMap K (Some (as_text st (jsonMap st K d)))"
  have "normalizeJson (Some (as_text st (jsonMap st K d))) = Some (jsonMap st K d)"
    by (rule normalize_as_text[OF jsonMap_wf]) (simp add: jsonMap_def)
  moreover have "n \<noteq> []" if "(n, v) \<in> set d" for n v
    using d(2) that by force
  ultimately have m: "map_of (parseScValMap (normalizeJson (Some (as_text st (jsonMap st K d))))) n
      = Some (Some (jsonField st K v))" if "(n, v) \<in> set d" for n v
    using that map_of_entries[OF d(1) that, of "\<lambda>v. Some (jsonField st K v)"]
    by (auto simp: parseScValMap_def asArray_def jsonMap_def entries_json Let_def)
  have "reads ?acc d"
  proof (rule readsI)
    fix n v
    assume nv: "(n, v) \<in> set d"
    with d(3) have "encodable K v" by (auto simp: list_all_iff)
    with m[OF nv] field_encoded[of K] json_point_back[of K _ st] scvI128_back[of st K] scvU32_back[of st K]
    show "reads1 ?acc n v"
      by (cases v) (simp_all add: idxDataMap_def scvBytes_jsonBytes Let_def)
  qed
  then show "\<exists>acc. Inr (idxDataMap K (Some (as_text st (jsonMap st K d)))) = Inr acc \<and> reads acc d"
    by blast
qed

section \<open>Row identifiers: facts\<close>

lemma lower_o: "of_char c \<notin> {79, 111 :: nat} \<Longrightarrow> lower c \<noteq> CHR ''o''"
proof
  assume c: "of_char c \<notin> {79, 111 :: nat}" and l: "lower c = CHR ''o''"
  show False
  proof (cases "65 \<le> (of_char c :: nat) \<and> of_char c \<le> (90 :: nat)")
    case True
    then have "(of_char (lower c) :: nat) = of_char c + 32"
      by (simp add: lower_def Let_def of_char_of take_bit_nat_eq_self)
    with l c show False by simp
  next
    case False
    with l have "c = CHR ''o''" by (auto simp: lower_def Let_def)
    with c show False by simp
  qed
qed

definition no_o :: "string \<Rightarrow> bool" where
  "no_o s \<longleftrightarrow> list_all (\<lambda>c. (of_char c :: nat) \<notin> {79, 111}) s"

lemma find_here: "match_op_event s = Some x \<Longrightarrow> find_op_event s = Some x"
  by (cases s) (simp_all add: match_op_event_def after_word_def)

lemma find_skip: "no_o xs \<Longrightarrow> find_op_event (xs @ s) = find_op_event s"
proof (induction xs)
  case (Cons c cs)
  then have "match_op_event (c # cs @ s) = None"
    using lower_o[of c] by (simp add: match_op_event_def after_word_def no_o_def)
  with Cons show ?case by (simp add: no_o_def)
qed (simp add: no_o_def)

lemma digits_no_o: "no_o (toString10 x)" if "0 \<le> x"
proof -
  have "(of_char c :: nat) \<notin> {79, 111}" if "c \<in> set (digits_of 10 n)" for c n
    using dec_digits_is_dec[OF that] by (auto simp: is_dec_def dec_val_def Let_def split: if_splits)
  then show ?thesis using that by (auto simp: no_o_def toString10_def list_all_iff)
qed

lemma takeWhile_dec:
  assumes "0 \<le> x" and "r = [] \<or> \<not> is_dec (hd r)"
  shows "takeWhile is_dec (toString10 x @ r) = toString10 x" "dropWhile is_dec (toString10 x @ r) = r"
  using assms dec_digits_is_dec[of _ "nat x"]
  by (cases r; auto simp: toString10_def takeWhile_append dropWhile_append takeWhile_eq_all_conv
      dropWhile_eq_self_iff)+

definition goldskyId :: "int \<Rightarrow> string \<Rightarrow> int \<Rightarrow> int \<Rightarrow> string" where
  "goldskyId l h opi evi = toString10 l @ ''-'' @ h @ ''-op-'' @ toString10 opi @ ''-event-'' @ toString10 evi"

lemma after_words:
  "after_word ''op-'' (''op-'' @ r) = Some r" "after_word ''-event-'' (''-event-'' @ r) = Some r"
  by (simp_all add: after_word_def lower_def Let_def)

lemma find_goldskyId:
  assumes "0 \<le> l" "no_o h" "0 \<le> opi" "0 \<le> evi"
  shows "find_op_event (goldskyId l h opi evi) = Some (toString10 opi, toString10 evi)"
proof -
  have ne: "toString10 opi \<noteq> []" "toString10 evi \<noteq> []" by (simp_all add: toString10_def)
  let ?s = "''op-'' @ toString10 opi @ ''-event-'' @ toString10 evi"
  have "\<not> is_dec (CHR ''-'')" by (simp add: is_dec_def dec_val_def)
  then have tw: "takeWhile is_dec (toString10 opi @ ''-event-'' @ toString10 evi) = toString10 opi"
      "dropWhile is_dec (toString10 opi @ ''-event-'' @ toString10 evi) = ''-event-'' @ toString10 evi"
      "takeWhile is_dec (toString10 evi) = toString10 evi" "dropWhile is_dec (toString10 evi) = []"
    using takeWhile_dec[OF assms(3), of "''-event-'' @ toString10 evi"] takeWhile_dec[OF assms(4), of "[]"]
    by simp_all
  have m: "match_op_event ?s = Some (toString10 opi, toString10 evi)"
    unfolding match_op_event_def after_words option.case Let_def tw using ne by simp
  have p: "no_o (toString10 l @ ''-'' @ h @ ''-'')"
    using digits_no_o[OF assms(1)] assms(2) by (simp add: no_o_def)
  have g: "goldskyId l h opi evi = (toString10 l @ ''-'' @ h @ ''-'') @ ?s" by (simp add: goldskyId_def)
  show ?thesis unfolding g find_skip[OF p] by (rule find_here[OF m])
qed

lemma Number_toString10 [simp]: "Number_of (toString10 x) = Some x"
  by (simp add: Number_of_def)

lemma indexerEventId_goldsky:
  assumes "0 \<le> l" "no_o h" "0 \<le> opi" "0 \<le> evi"
  shows "indexerEventId (goldskyId l h opi evi) l h = naturalEventId l h (Some opi) (Some evi)"
  using find_goldskyId[OF assms] by (simp add: indexerEventId_def)

section \<open>Rows and RPC responses decode to the same event\<close>

definition goldskyRow :: "jsonStyle \<Rightarrow> 'p prims \<Rightarrow> int \<Rightarrow> string \<Rightarrow> int \<Rightarrow> int \<Rightarrow> 'p eventBody \<Rightarrow> indexerRow" where
  "goldskyRow st K l h opi evi b =
     \<lparr>row_id = goldskyId l h opi evi, row_ledger = l, row_txHash = Some h,
      row_topic = Some (as_text st (jsonTopics b)),
      row_value = Some (as_text st (jsonMap st K (body_data b)))\<rparr>"

lemma jsonTopics_wf: "json_wf (jsonTopics b)"
  by (simp add: jsonTopics_def list_all_iff)

lemma parseIndexerEvent_goldskyRow:
  assumes "emittable b" and "list_all (\<lambda>x. encodable K (snd x)) (body_data b)"
    and "[] \<notin> set (body_addrs b)" and "0 \<le> l" "no_o h" "0 \<le> opi" "0 \<le> evi"
  shows "parseIndexerEvent K (goldskyRow st K l h opi evi b) = Inr (Some (eventOf l h opi evi b))"
proof -
  have t: "normalizeJson (Some (as_text st (jsonTopics b))) = Some (jsonTopics b)"
    by (rule normalize_as_text[OF jsonTopics_wf]) (simp add: jsonTopics_def)
  have ne: "body_name b \<noteq> []" by (cases b) simp_all
  let ?ts = "JObj [(''symbol'', JStr (body_name b))] # map (\<lambda>a. JObj [(''address'', JStr a)]) (body_addrs b)"
  let ?addr = "\<lambda>i. case scvString (if i < length ?ts then Some (?ts ! i) else None) of
      None \<Rightarrow> Inl (MissingTopic (body_name b) i)
    | Some a \<Rightarrow> if a = [] then Inl (MissingTopic (body_name b) i) else Inr a"
  have a: "?addr (Suc i) = Inr (body_addrs b ! i)" if "i < length (body_addrs b)" for i
    using that nth_mem[OF that] assms(3) by (cases "body_addrs b ! i") (simp_all add: scvString_def)
  have "buildConfidentialEvent (body_name b) base ?addr
      (idxDataMap K (Some (as_text st (jsonMap st K (body_data b))))) = Inr (Some (with_base base b))" for base
    using json_codec.built_back[OF assms(1,2) a] by simp
  then show ?thesis
    using t ne body_name_KNOWN[of b] indexerEventId_goldsky[OF assms(4-7)]
    by (simp add: parseIndexerEvent_def goldskyRow_def jsonTopics_def asArray_def Let_def
        scvString_def eventOf_def del: body_name_KNOWN)
qed

end
