(* ===== verification/IssuerIndexer.thy ===== *)
theory IssuerIndexer
  imports Indexer
begin

text \<open>
  \<^verbatim>\<open>chain/issuer-indexer.ts\<close>: the adapter for the issuer service's event store, whose rows are
  already decoded, with field elements as hexadecimal text. Everything a row lacks makes the row
  unusable: the adapter answers \<^const>\<open>None\<close> for it. The last section relates it to the writer of
  those rows, \<^verbatim>\<open>issuer-service/lib/confidentialIndexer.js\<close>.
\<close>

section \<open>Rows\<close>

record issuerRow =
  ir_id :: string
  ir_ledger :: int
  ir_txHash :: string
  ir_type :: string
  ir_account :: "string option"
  ir_from :: "string option"
  ir_to :: "string option"
  ir_amount :: "string option"
  ir_auditorId :: "int option"
  ir_sigma :: "string option"
  ir_rE :: "(string \<times> string) option"
  ir_vTilde :: "string option"
  ir_bTilde :: "string option"
  ir_vAudR :: "string option"
  ir_rAudR :: "string option"
  ir_vAudS :: "string option"
  ir_bAudS :: "string option"

definition parseHexField :: "string option \<Rightarrow> int res" where
  "parseHexField v = (case v of None \<Rightarrow> Inl (MissingField ''field element'')
     | Some s \<Rightarrow> if s = [] then Inl (MissingField ''field element'')
         else (let hex = (if startsWith ''0x'' s \<or> startsWith ''0X'' s then drop 2 s else s) in
           rmap fromBytesBE (hexToBytes hex)))"

definition parseHexPoint :: "'p prims \<Rightarrow> (string \<times> string) option \<Rightarrow> 'p res" where
  "parseHexPoint K v = (case v of None \<Rightarrow> Inl (MissingField ''point'')
     | Some (vx, vy) \<Rightarrow> rbind (parseHexField (Some vx)) (\<lambda>x. rbind (parseHexField (Some vy)) (\<lambda>y.
         if x = 0 \<and> y = 0 then Inr (pzero K) else fromAffine K (x, y))))"

definition issuerData :: "'p prims \<Rightarrow> issuerRow \<Rightarrow> 'p accessor" where
  "issuerData K row =
     \<lparr>acc_field = (\<lambda>name. parseHexField (case map_of
          [(''sigma'', ir_sigma row), (''v_tilde'', ir_vTilde row), (''b_tilde'', ir_bTilde row),
           (''v_aud_r'', ir_vAudR row), (''r_aud_r'', ir_rAudR row), (''v_aud_s'', ir_vAudS row),
           (''b_aud_s'', ir_bAudS row)] name of Some v \<Rightarrow> v | None \<Rightarrow> None)),
      acc_point = (\<lambda>name. if name = ''r_e'' then parseHexPoint K (ir_rE row) else parseHexPoint K None),
      acc_i128 = (\<lambda>name. if name \<noteq> ''amount'' then Inl (MissingField name)
         else case ir_amount row of None \<Rightarrow> Inl (MissingField name) | Some a \<Rightarrow> BigInt_of a),
      acc_u32 = (\<lambda>name. if name \<noteq> ''auditor_id'' then Inl (MissingField name)
         else case ir_auditorId row of None \<Rightarrow> Inl (MissingField name) | Some n \<Rightarrow> Inr (Some n))\<rparr>"

definition issuer_addr :: "issuerRow \<Rightarrow> string \<Rightarrow> string res" where
  "issuer_addr row f = (case (if f = ''account'' then ir_account row
      else if f = ''from'' then ir_from row else ir_to row) of
     None \<Rightarrow> Inl (MissingField f)
   | Some v \<Rightarrow> if v = [] then Inl (MissingField f) else Inr v)"

definition parseIssuerCtEvent :: "'p prims \<Rightarrow> issuerRow \<Rightarrow> 'p confidentialEvent option" where
  "parseIssuerCtEvent K row =
     (let base = \<lparr>ev_ledger = ir_ledger row, ev_txHash = ir_txHash row, ev_cursor = ir_id row\<rparr>;
          data = issuerData K row;
          one = (\<lambda>i. if i = 1 then issuer_addr row ''account'' else Inr []);
          two = (\<lambda>i. if i = 1 then issuer_addr row ''from''
                     else if i = 2 then issuer_addr row ''to'' else Inr [])
      in catch
       (if ir_type row = ''register'' then buildConfidentialEvent ''register'' base one data
        else if ir_type row = ''deposit'' then buildConfidentialEvent ''deposit'' base two data
        else if ir_type row = ''merge'' then buildConfidentialEvent ''merge'' base one data
        else if ir_type row = ''transfer'' then buildConfidentialEvent ''transfer'' base two data
        else if ir_type row = ''withdraw'' then Inr None
        else Inr None) None)"

section \<open>The client\<close>

record ctResponse =
  ct_events :: "issuerRow list option"
  ct_latestLedger :: "int option"

type_synonym 'w ctApi = "httpRequest \<Rightarrow> 'w \<Rightarrow> ctResponse httpResponse res \<times> 'w"

definition no_slash :: "string \<Rightarrow> string" where
  "no_slash s = (if s \<noteq> [] \<and> last s = CHR ''/'' then butlast s else s)"

definition eventsPath :: "string \<Rightarrow> string option \<Rightarrow> int option \<Rightarrow> httpRequest" where
  "eventsPath baseUrl assetKey startLedger =
     \<lparr>rq_path = no_slash baseUrl @ ''/ct/events'',
      rq_query = (if truthy assetKey then [(''asset'', the assetKey)] else [])
        @ (case startLedger of None \<Rightarrow> [] | Some l \<Rightarrow> [(''fromLedger'', toString10 l)])\<rparr>"

definition ctHealth :: "'w ctApi \<Rightarrow> string \<Rightarrow> string option \<Rightarrow> ('w, int) io" where
  "ctHealth api baseUrl assetKey =
     io_bind (io_call (api (eventsPath baseUrl assetKey None))) (\<lambda>resp.
       if \<not> http_ok resp then io_return 0
       else io_bind (io_res (http_json resp)) (\<lambda>body. io_return (given (ct_latestLedger body) 0)))"

definition MAX_SAFE_INTEGER :: int where "MAX_SAFE_INTEGER = 2 ^ 53 - 1"

definition ctFetchEvents ::
  "'p prims \<Rightarrow> 'w ctApi \<Rightarrow> string \<Rightarrow> string option \<Rightarrow> int option \<Rightarrow> int option
   \<Rightarrow> ('w, 'p fetchEventsResult) io" where
  "ctFetchEvents K api baseUrl assetKey startLedger endLedger =
     io_bind (io_call (api (eventsPath baseUrl assetKey startLedger))) (\<lambda>resp.
       if \<not> http_ok resp
       then io_bind (io_res (http_text resp)) (\<lambda>t. io_throw (HttpError (http_status resp) (take 200 t)))
       else io_bind (io_res (http_json resp)) (\<lambda>body.
         let end1 = given endLedger MAX_SAFE_INTEGER;
             rows = filter (\<lambda>row. \<not> (ir_ledger row < given startLedger 0 \<or> ir_ledger row > end1))
                      (given (ct_events body) [])
         in io_return \<lparr>fr_events = List.map_filter (parseIssuerCtEvent K) rows, fr_cursor = None,
              fr_latestLedger = given (ct_latestLedger body) 0\<rparr>))"

definition ctResolveEventRef ::
  "'p prims \<Rightarrow> 'w ctApi \<Rightarrow> string \<Rightarrow> string option \<Rightarrow> eventRefT \<Rightarrow> ('w, 'p confidentialEvent option) io" where
  "ctResolveEventRef K api baseUrl assetKey ref =
     io_bind (io_call (api (eventsPath baseUrl assetKey (Some (ref_ledger ref))))) (\<lambda>resp.
       if \<not> http_ok resp then io_return None
       else io_bind (io_res (http_json resp)) (\<lambda>body.
         io_return (case List.find (\<lambda>ev. ev_cursor ev = ref_id ref)
             (List.map_filter (parseIssuerCtEvent K) (given (ct_events body) [])) of
             None \<Rightarrow> None
           | Some ev \<Rightarrow> if ev_txHash ev \<noteq> ref_txHash ref then None else Some ev)))"

section \<open>The rows the issuer service writes\<close>

text \<open>
  \<^verbatim>\<open>fieldHex\<close> and \<^verbatim>\<open>pointField\<close> of the service, and the row \<^verbatim>\<open>parseRpcEvent\<close> stores for an
  event: the numbers are written without padding.
\<close>

definition fieldHex :: "int \<Rightarrow> string" where
  "fieldHex x = ''0x'' @ toString16 x"

definition pointHex :: "'p prims \<Rightarrow> 'p \<Rightarrow> string \<times> string" where
  "pointHex K p = (if is0 K p then (''0x0'', ''0x0'')
     else (fieldHex (fst (toAffine K p)), fieldHex (snd (toAffine K p))))"

definition emptyRow :: "string \<Rightarrow> int \<Rightarrow> string \<Rightarrow> string \<Rightarrow> issuerRow" where
  "emptyRow rid l h ty = \<lparr>ir_id = rid, ir_ledger = l, ir_txHash = h, ir_type = ty, ir_account = None,
     ir_from = None, ir_to = None, ir_amount = None, ir_auditorId = None, ir_sigma = None, ir_rE = None,
     ir_vTilde = None, ir_bTilde = None, ir_vAudR = None, ir_rAudR = None, ir_vAudS = None, ir_bAudS = None\<rparr>"

fun serviceRow :: "'p prims \<Rightarrow> 'p confidentialEvent \<Rightarrow> issuerRow" where
  "serviceRow K ev = (let r = emptyRow (ev_cursor ev) (ev_ledger ev) (ev_txHash ev) (body_name (ev_body ev)) in
     case ev_body ev of
       RegisterEvent a u \<Rightarrow> r\<lparr>ir_account := Some a, ir_auditorId := u\<rparr>
     | DepositEvent f t a \<Rightarrow> r\<lparr>ir_from := Some f, ir_to := Some t, ir_amount := Some (toString10 a)\<rparr>
     | MergeEvent a \<Rightarrow> r\<lparr>ir_account := Some a\<rparr>
     | WithdrawEvent f t a rE s b ba \<Rightarrow>
         r\<lparr>ir_from := Some f, ir_to := Some t, ir_amount := Some (toString10 a)\<rparr>
     | TransferEvent f t rE v s b var rar vas bas \<Rightarrow>
         r\<lparr>ir_from := Some f, ir_to := Some t, ir_rE := Some (pointHex K rE), ir_sigma := Some (fieldHex s),
           ir_vTilde := Some (fieldHex v), ir_bTilde := Some (fieldHex b), ir_vAudR := Some (fieldHex var),
           ir_rAudR := Some (fieldHex rar), ir_vAudS := Some (fieldHex vas), ir_bAudS := Some (fieldHex bas)\<rparr>)"

text \<open>A number the service writes can be read exactly when it has an even number of digits.\<close>

definition even_hex :: "int \<Rightarrow> bool" where
  "even_hex x \<longleftrightarrow> even (length (toString16 x))"

lemma parse_pairs_value:
  "even (length ds) \<Longrightarrow> list_all (\<lambda>d. d < 16) ds \<Longrightarrow>
   value_of hex_val 16 acc (map hex_digit ds) = Some n \<Longrightarrow>
   foldl shift_in (int acc) (parse_pairs (map hex_digit ds)) = int n"
proof (induction ds arbitrary: acc rule: induct_list012)
  case (3 a b ds)
  then have ab: "a < 16" "b < 16" by simp_all
  have w: "uint (word_of_int (int (a * 16 + b)) :: byte) = int (a * 16 + b)"
    using ab by (simp add: unsigned_of_nat take_bit_nat_eq_self del: of_nat_add of_nat_mult of_nat_numeral)
  have "shift_in (int acc) (to_uint8 (parseInt16 [hex_digit a, hex_digit b])) = int ((acc * 16 + a) * 16 + b)"
    using parseInt16_pair[OF ab] w by (simp add: to_uint8_def shift_in_eq)
  with "3.IH"[of "(acc * 16 + a) * 16 + b"] "3.prems" ab show ?case
    by (simp only: list.map parse_pairs.simps foldl_Cons) (simp add: algebra_simps)
qed simp_all

lemma even_hex_digits: "0 \<le> x \<Longrightarrow> even_hex x \<longleftrightarrow> even (length (digits_of 16 (nat x)))"
  by (simp add: even_hex_def toString16_def)

lemma sublist_image: "set xs \<subseteq> f ` A \<Longrightarrow> \<exists>ys. xs = map f ys \<and> set ys \<subseteq> A"
proof (induction xs)
  case (Cons x xs)
  then obtain ys a where "xs = map f ys" "set ys \<subseteq> A" "x = f a" "a \<in> A" by auto
  then show ?case by (intro exI[of _ "a # ys"]) simp
qed simp

lemma parseHexField_fieldHex:
  assumes "0 \<le> x"
  shows "parseHexField (Some (fieldHex x)) = (if even_hex x then Inr x else Inl OddLengthHex)"
proof -
  let ?d = "digits_of 16 (nat x)"
  obtain ds where ds: "?d = map hex_digit ds" "list_all (\<lambda>d. d < 16) ds"
    using sublist_image[OF set_digits_of[of 16 "nat x"]] by (auto simp: list_all_iff subset_iff)
  have v: "value_of hex_val 16 0 ?d = Some (nat x)" by (rule value_of_digits) simp_all
  have nx: "\<not> has0x ?d"
    using ds hex_digit_neq by (cases ds; cases "tl ds") (auto simp: has0x_def startsWith_def)
  have "fromBytesBE (parse_pairs ?d) = x" if "even (length ?d)"
    using parse_pairs_value[of ds 0 "nat x"] ds v that assms by (simp add: fromBytesBE_def)
  then show ?thesis using assms nx even_hex_digits[OF assms]
    by (simp add: parseHexField_def fieldHex_def toString16_def startsWith_def hexToBytes_def Let_def
        even_iff_mod_2_eq_zero)
qed

lemma parseHexPoint_pointHex:
  assumes "curve_laws K"
  shows "parseHexPoint K (Some (pointHex K p))
    = (if \<not> is0 K p \<and> even_hex (fst (toAffine K p)) \<and> even_hex (snd (toAffine K p)) then Inr p
       else Inl OddLengthHex)"
proof (cases "is0 K p")
  case True
  have "even_hex 0 \<longleftrightarrow> False" by (simp add: even_hex_def toString16_def digits_of.simps)
  moreover have "fieldHex 0 = ''0x0''" by (simp add: fieldHex_def toString16_def digits_of.simps hex_digit_0)
  ultimately show ?thesis using True parseHexField_fieldHex[of 0]
    by (simp add: parseHexPoint_def pointHex_def)
next
  case False
  then have "p \<noteq> pzero K" using curve_is0[OF assms] by simp
  moreover have "0 \<le> fst (toAffine K p)" "0 \<le> snd (toAffine K p)"
    using curve_affine_canonical[OF assms, of p] by (simp_all add: isCanonicalFr_def)
  moreover obtain x y where "toAffine K p = (x, y)" by (cases "toAffine K p")
  ultimately show ?thesis
    using False curve_affine[OF assms, of p] parseHexField_fieldHex[of x] parseHexField_fieldHex[of y]
    by (auto simp: parseHexPoint_def pointHex_def)
qed

text \<open>
  Which of the service's rows the adapter can use: every register, deposit and merge, no withdraw,
  and a transfer exactly when all nine of its numbers have an even number of hexadecimal digits.
\<close>

fun issuer_readable :: "'p prims \<Rightarrow> 'p eventBody \<Rightarrow> bool" where
  "issuer_readable K (WithdrawEvent f t a rE s b ba) \<longleftrightarrow> False"
| "issuer_readable K (TransferEvent f t rE v s b var rar vas bas) \<longleftrightarrow>
     \<not> is0 K rE \<and> list_all even_hex [fst (toAffine K rE), snd (toAffine K rE), v, s, b, var, rar, vas, bas]"
| "issuer_readable K _ \<longleftrightarrow> True"

fun nonneg_body :: "'p eventBody \<Rightarrow> bool" where
  "nonneg_body (TransferEvent f t rE v s b var rar vas bas) \<longleftrightarrow>
     list_all (\<lambda>x. 0 \<le> x) [v, s, b, var, rar, vas, bas]"
| "nonneg_body _ \<longleftrightarrow> True"

lemma parseIssuerCtEvent_serviceRow:
  assumes "curve_laws K" and "emittable (ev_body ev)" and "[] \<notin> set (body_addrs (ev_body ev))"
    and "nonneg_body (ev_body ev)"
  shows "parseIssuerCtEvent K (serviceRow K ev)
    = (if issuer_readable K (ev_body ev) then Some ev else None)"
proof (cases "ev_body ev")
  case (TransferEvent f t rE v s b var rar vas bas)
  with assms(3,4) parseHexPoint_pointHex[OF assms(1), of rE] show ?thesis
    by (auto simp: parseIssuerCtEvent_def emptyRow_def issuerData_def issuer_addr_def
        buildConfidentialEvent_def buildBody_def parseHexField_fieldHex with_base_def Let_def)
qed (use assms(2,3) in \<open>auto simp: parseIssuerCtEvent_def emptyRow_def issuerData_def issuer_addr_def
        buildConfidentialEvent_def buildBody_def with_base_def Let_def BigInt_of_def\<close>)

end
