(* ===== verification/EventSource.thy ===== *)
theory EventSource
  imports IssuerIndexer
begin

text \<open>
  \<^verbatim>\<open>chain/event-source.ts\<close>: events from an optional history indexer below the RPC's retention
  window and from the RPC above it, deduplicated by identifier and ordered by ledger. Both history
  clients offer the same two operations; \<^verbatim>\<open>historyIndexer\<close> is the union the code takes.
  The trace calls and console warnings of the sources have no effect on the result.
\<close>

section \<open>Deduplication\<close>

text \<open>The map keeps the first event of each identifier, in insertion order.\<close>

fun insert_first :: "'p confidentialEvent list \<Rightarrow> 'p confidentialEvent list \<Rightarrow> 'p confidentialEvent list" where
  "insert_first byId [] = byId"
| "insert_first byId (ev # evs) =
     insert_first (if ev_cursor ev \<in> set (map ev_cursor byId) then byId else byId @ [ev]) evs"

definition dedupeById :: "'p confidentialEvent list \<Rightarrow> 'p confidentialEvent list" where
  "dedupeById events = sort_key ev_ledger (insert_first [] events)"

section \<open>The two sources\<close>

datatype 'w historyIndexer =
    Goldsky "'w indexerApi" string
  | IssuerCt "'w ctApi" string "string option"

fun history_fetch ::
  "'p prims \<Rightarrow> 'w historyIndexer \<Rightarrow> string \<Rightarrow> int \<Rightarrow> int \<Rightarrow> ('w, 'p fetchEventsResult) io" where
  "history_fetch K (Goldsky api url) tokenId s e = idxFetchEvents K api url tokenId (Some s) (Some e) None"
| "history_fetch K (IssuerCt api url asset) tokenId s e = ctFetchEvents K api url asset (Some s) (Some e)"

fun history_resolve ::
  "'p prims \<Rightarrow> 'w historyIndexer \<Rightarrow> string \<Rightarrow> eventRefT \<Rightarrow> ('w, 'p confidentialEvent option) io" where
  "history_resolve K (Goldsky api url) tokenId ref = idxResolveEventRef K api url tokenId ref"
| "history_resolve K (IssuerCt api url asset) tokenId ref = ctResolveEventRef K api url asset ref"

definition RPC_SEAM_MARGIN :: int where "RPC_SEAM_MARGIN = 60"

definition rpcOldestLedger :: "'w rpcServer \<Rightarrow> ('w, int) io" where
  "rpcOldestLedger srv =
     io_catch (io_bind (io_call (getHealth srv)) (\<lambda>oldest. io_return (given oldest 0)))
              (\<lambda>e. io_return 0)"

definition hybridFetchEvents ::
  "'p prims \<Rightarrow> 'w rpcServer \<Rightarrow> 'w historyIndexer option \<Rightarrow> string \<Rightarrow> int \<Rightarrow> string option
   \<Rightarrow> ('w, 'p fetchEventsResult) io" where
  "hybridFetchEvents K srv indexer tokenId fromLedger startCursor =
     io_bind (io_res (if truthy startCursor
         then rmap (\<lambda>l. l + 1) (cursorLedger (the startCursor)) else Inr fromLedger)) (\<lambda>next1.
     io_bind (if indexer \<noteq> None \<or> \<not> truthy startCursor then rpcOldestLedger srv else io_return 0) (\<lambda>rpcOldest.
     io_bind
      (if indexer \<noteq> None \<and> 0 < rpcOldest \<and> next1 < rpcOldest then
         (let seam = rpcOldest + RPC_SEAM_MARGIN in
          io_bind (io_catch
              (io_bind (history_fetch K (the indexer) tokenId next1 (seam - 1)) (\<lambda>res. io_return (fr_events res)))
              (\<lambda>e. io_return [])) (\<lambda>old.
          io_bind (fetchEvents K srv tokenId (Some seam) None None) (\<lambda>recent. io_return (old, recent))))
       else if truthy startCursor then
         io_bind (fetchEvents K srv tokenId None startCursor None) (\<lambda>recent. io_return ([], recent))
       else
         (let floor1 = (if 0 < rpcOldest then rpcOldest + 1 else fromLedger) in
          io_bind (fetchEvents K srv tokenId (Some (max fromLedger floor1)) None None)
            (\<lambda>recent. io_return ([], recent))))
      (\<lambda>(old, recent). io_return \<lparr>fr_events = dedupeById (old @ fr_events recent),
           fr_cursor = fr_cursor recent, fr_latestLedger = fr_latestLedger recent\<rparr>)))"

definition hybridResolveEventRef ::
  "'p prims \<Rightarrow> 'w rpcServer \<Rightarrow> 'w historyIndexer option \<Rightarrow> string \<Rightarrow> eventRefT
   \<Rightarrow> ('w, 'p confidentialEvent option) io" where
  "hybridResolveEventRef K srv indexer tokenId ref =
     io_bind (io_catch (resolveEventRef K srv tokenId ref) (\<lambda>e. io_return None)) (\<lambda>fromRpc.
       if fromRpc \<noteq> None \<or> indexer = None then io_return fromRpc
       else io_catch (history_resolve K (the indexer) tokenId ref) (\<lambda>e. io_return None))"

section \<open>What deduplication keeps\<close>

lemma insert_first_props:
  assumes "distinct (map ev_cursor acc)"
  shows "distinct (map ev_cursor (insert_first acc evs))"
    and "set (map ev_cursor (insert_first acc evs)) = set (map ev_cursor acc) \<union> set (map ev_cursor evs)"
    and "set (insert_first acc evs) \<subseteq> set acc \<union> set evs"
proof -
  have "distinct (map ev_cursor (insert_first acc evs))
    \<and> set (map ev_cursor (insert_first acc evs)) = set (map ev_cursor acc) \<union> set (map ev_cursor evs)
    \<and> set (insert_first acc evs) \<subseteq> set acc \<union> set evs"
    using assms
  proof (induction evs arbitrary: acc)
    case (Cons ev evs)
    let ?acc = "if ev_cursor ev \<in> set (map ev_cursor acc) then acc else acc @ [ev]"
    have "distinct (map ev_cursor ?acc)" using Cons.prems by simp
    from Cons.IH[OF this] show ?case by (auto split: if_splits)
  qed simp
  then show "distinct (map ev_cursor (insert_first acc evs))"
    and "set (map ev_cursor (insert_first acc evs)) = set (map ev_cursor acc) \<union> set (map ev_cursor evs)"
    and "set (insert_first acc evs) \<subseteq> set acc \<union> set evs" by simp_all
qed

lemma insert_first_distinct:
  "distinct (map ev_cursor (acc @ evs)) \<Longrightarrow> insert_first acc evs = acc @ evs"
  by (induction acc evs rule: insert_first.induct) auto

lemma filter_insert_first:
  "(\<And>e. e \<in> set evs \<Longrightarrow> ev_cursor e \<in> set (map ev_cursor acc)) \<Longrightarrow> insert_first acc evs = acc"
  by (induction evs) auto

text \<open>Events already there, repeated after it, change nothing.\<close>

lemma insert_first_append:
  "insert_first acc (xs @ ys) = insert_first (insert_first acc xs) ys"
  by (induction acc xs rule: insert_first.induct) simp_all

lemma insert_first_again: "insert_first [] (evs @ evs) = insert_first [] evs"
proof -
  have "ev_cursor e \<in> set (map ev_cursor (insert_first [] evs))" if "e \<in> set evs" for e
    using insert_first_props(2)[of "[]" evs] that by auto
  then show ?thesis by (simp add: insert_first_append filter_insert_first)
qed

lemma sorted_dedupe: "sorted (map ev_ledger (dedupeById evs))"
  by (simp add: dedupeById_def)

lemma dedupe_distinct: "distinct (map ev_cursor (dedupeById evs))"
  using insert_first_props(1)[of "[]" evs]
  by (simp add: dedupeById_def distinct_map inj_on_def)

lemma dedupe_cursors: "set (map ev_cursor (dedupeById evs)) = set (map ev_cursor evs)"
  using insert_first_props(2)[of "[]" evs] by (simp add: dedupeById_def)

lemma dedupe_stable:
  "filter (\<lambda>e. ev_ledger e = l) (dedupeById evs) = filter (\<lambda>e. ev_ledger e = l) (insert_first [] evs)"
  by (simp add: dedupeById_def sort_key_stable)

lemma dedupe_history:
  assumes "sorted (map ev_ledger evs)" and "distinct (map ev_cursor evs)"
  shows "dedupeById evs = evs"
  using insert_first_distinct[of "[]" evs] assms by (simp add: dedupeById_def sort_key_id_if_sorted)

text \<open>A chain's events between two ledgers, in order.\<close>

definition from_to :: "int \<Rightarrow> int \<Rightarrow> 'p confidentialEvent list \<Rightarrow> 'p confidentialEvent list" where
  "from_to a b chain = filter (\<lambda>e. a \<le> ev_ledger e \<and> ev_ledger e \<le> b) chain"

definition from_on :: "int \<Rightarrow> 'p confidentialEvent list \<Rightarrow> 'p confidentialEvent list" where
  "from_on a chain = filter (\<lambda>e. a \<le> ev_ledger e) chain"

definition history :: "'p confidentialEvent list \<Rightarrow> bool" where
  "history chain \<longleftrightarrow> sorted (map ev_ledger chain) \<and> distinct (map ev_cursor chain)"

lemma split_at_ledger:
  assumes "sorted (map ev_ledger chain)" and "a \<le> m"
  shows "from_to a (m - 1) chain @ from_on m chain = from_on a chain"
  using assms
proof (induction chain)
  case (Cons e es)
  show ?case
  proof (cases "ev_ledger e < m")
    case True
    with Cons show ?thesis by (auto simp: from_to_def from_on_def)
  next
    case False
    with Cons.prems have ge: "m \<le> ev_ledger x" if "x \<in> set (e # es)" for x using that by auto
    then have "from_to a (m - 1) (e # es) = []" unfolding from_to_def
      by (intro filter_False) force
    moreover have "from_on m (e # es) = from_on a (e # es)" unfolding from_on_def
      using ge Cons.prems(2) by (intro filter_cong) force+
    ultimately show ?thesis by simp
  qed
qed (simp add: from_to_def from_on_def)

lemma dedupe_from_on: "history chain \<Longrightarrow> dedupeById (from_on a chain) = from_on a chain"
  unfolding history_def from_on_def
  by (intro dedupe_history) (auto intro: sorted_filter distinct_map_filter)

lemma insert_first_known:
  "C \<subseteq> set (map ev_cursor acc) \<Longrightarrow> insert_first acc (filter (\<lambda>e. ev_cursor e \<notin> C) evs) = insert_first acc evs"
proof (induction evs arbitrary: acc)
  case (Cons e es)
  from Cons.prems Cons.IH[of acc] Cons.IH[of "acc @ [e]"] show ?case by auto
qed simp

text \<open>What the history index delivers beyond the seam the RPC delivers too; it is kept once.\<close>

lemma dedupe_overlap:
  assumes chain: "history chain" and le: "a \<le> b" "b \<le> top1 + 1"
  shows "dedupeById (from_to a top1 chain @ from_on b chain) = from_on a chain"
proof -
  let ?A = "from_to a top1 chain"
  have inj: "inj_on ev_cursor (set chain)" and d: "distinct (map ev_cursor chain)" and s: "sorted (map ev_ledger chain)"
    using chain by (auto simp: history_def distinct_map)
  have rest: "filter (\<lambda>e. ev_cursor e \<notin> set (map ev_cursor ?A)) (from_on b chain) = from_on (top1 + 1) chain"
    using le unfolding from_to_def from_on_def filter_filter
    by (intro filter_cong refl) (auto dest: inj_onD[OF inj])
  have whole: "?A @ from_on (top1 + 1) chain = from_on a chain"
    using split_at_ledger[OF s, of a "top1 + 1"] le by simp
  have "insert_first [] ?A = ?A"
    using d by (simp add: insert_first_distinct[of "[]"] from_to_def distinct_map_filter)
  then have "insert_first [] (?A @ from_on b chain) = insert_first ?A (from_on (top1 + 1) chain)"
    unfolding insert_first_append using insert_first_known[of "set (map ev_cursor ?A)" ?A "from_on b chain"] rest by simp
  also have "\<dots> = from_on a chain"
    using d unfolding whole[symmetric]
    by (intro insert_first_distinct) (simp only: whole, simp add: from_on_def distinct_map_filter)
  finally have "insert_first [] (?A @ from_on b chain) = from_on a chain" .
  then show ?thesis using s by (simp add: dedupeById_def from_on_def sort_key_id_if_sorted sorted_filter)
qed

section \<open>What a synchronisation reads\<close>

text \<open>
  The three routes of \<^const>\<open>hybridFetchEvents\<close>: a backfill below the seam joined with the RPC
  from the seam on, a failed backfill, and the RPC alone.
\<close>

lemma hybrid_backfilled:
  assumes "(if truthy startCursor then rmap (\<lambda>l. l + 1) (cursorLedger (the startCursor)) else Inr fromLedger)
      = Inr next1"
    and "getHealth srv w = (Inr (Some oldest), w1)" and "0 < oldest" and "next1 < oldest"
    and "history_fetch K ix tokenId next1 (oldest + RPC_SEAM_MARGIN - 1) w1 = Some (r, w2)"
    and "fetchEvents K srv tokenId (Some (oldest + RPC_SEAM_MARGIN)) None None w2 = Some (Inr rpc, w3)"
  shows "hybridFetchEvents K srv (Some ix) tokenId fromLedger startCursor w
    = Some (Inr \<lparr>fr_events = dedupeById (catch (rmap fr_events r) [] @ fr_events rpc),
                fr_cursor = fr_cursor rpc, fr_latestLedger = fr_latestLedger rpc\<rparr>, w3)"
  using assms
  by (cases r) (simp_all add: hybridFetchEvents_def rpcOldestLedger_def io_simps Let_def)

lemma hybrid_cold:
  assumes "getHealth srv w = (Inr (Some oldest), w1)" and "0 < oldest"
    and "fetchEvents K srv tokenId (Some (max fromLedger (oldest + 1))) None None w1 = Some (Inr rpc, w2)"
  shows "hybridFetchEvents K srv None tokenId fromLedger None w
    = Some (Inr \<lparr>fr_events = dedupeById (fr_events rpc), fr_cursor = fr_cursor rpc,
                fr_latestLedger = fr_latestLedger rpc\<rparr>, w2)"
  using assms by (simp add: hybridFetchEvents_def rpcOldestLedger_def truthy_def io_simps Let_def)

text \<open>
  A failed backfill: the RPC is still asked from the seam on, so the events the RPC retains between
  its oldest ledger and the seam are in neither leg.
\<close>

lemma hybrid_failed_backfill:
  assumes "history chain"
    and "(if truthy startCursor then rmap (\<lambda>l. l + 1) (cursorLedger (the startCursor)) else Inr fromLedger)
      = Inr next1"
    and "getHealth srv w = (Inr (Some oldest), w1)" and "0 < oldest" and "next1 < oldest"
    and "history_fetch K ix tokenId next1 (oldest + RPC_SEAM_MARGIN - 1) w1 = Some (Inl err, w2)"
    and "fetchEvents K srv tokenId (Some (oldest + RPC_SEAM_MARGIN)) None None w2 = Some (Inr rpc, w3)"
    and "fr_events rpc = from_on (oldest + RPC_SEAM_MARGIN) chain"
  shows "\<exists>res. hybridFetchEvents K srv (Some ix) tokenId fromLedger startCursor w = Some (Inr res, w3)
     \<and> fr_events res = from_on (oldest + 60) chain \<and> fr_cursor res = fr_cursor rpc"
  using hybrid_backfilled[OF assms(2-7)] dedupe_from_on[OF assms(1), of "oldest + 60"] assms(8)
  by (simp add: RPC_SEAM_MARGIN_def)

section \<open>Resolving a pinned event\<close>

lemma find_SomeE:
  assumes "List.find P xs = Some x"
  shows "P x \<and> x \<in> set xs"
  using assms by (auto simp: find_Some_iff)

lemma resolve_rpc_pinned:
  assumes "resolveEventRef K srv tokenId ref w = Some (Inr (Some ev), w')"
  shows "eventRef ev = ref \<lparr>ref_ledger := ev_ledger ev\<rparr>"
  using assms
  by (auto simp: resolveEventRef_def io_simps eventRef_def filter_eq_Cons_iff
      split: prod.splits sum.splits list.splits if_splits option.splits)

lemma resolve_history_pinned:
  assumes "history_resolve K ix tokenId ref w = Some (Inr (Some ev), w')"
  shows "eventRef ev = ref \<lparr>ref_ledger := ev_ledger ev\<rparr>"
proof (cases ix)
  case (Goldsky api url)
  with assms show ?thesis
    by (auto simp: idxResolveEventRef_def io_simps eventRef_def dest!: find_SomeE
        split: prod.splits sum.splits if_splits option.splits)
next
  case (IssuerCt api url asset)
  with assms show ?thesis
    by (auto simp: ctResolveEventRef_def io_simps eventRef_def dest!: find_SomeE
        split: prod.splits sum.splits if_splits option.splits)
qed

lemma hybrid_resolve_pinned:
  assumes "hybridResolveEventRef K srv ix tokenId ref w = Some (Inr (Some ev), w')"
  shows "ev_cursor ev = ref_id ref \<and> ev_txHash ev = ref_txHash ref"
proof -
  have "eventRef ev = ref \<lparr>ref_ledger := ev_ledger ev\<rparr>"
    using assms resolve_rpc_pinned resolve_history_pinned
    by (auto simp: hybridResolveEventRef_def io_simps split: prod.splits sum.splits if_splits option.splits)
  then show ?thesis by (cases ref) (simp add: eventRef_def)
qed

lemma hybrid_resolve_never_throws:
  assumes "hybridResolveEventRef K srv ix tokenId ref w = Some (r, w')"
  shows "\<exists>x. r = Inr x"
  using assms
  by (auto simp: hybridResolveEventRef_def io_simps split: prod.splits sum.splits if_splits option.splits)

end
