(* ===== verification/Witness.thy ===== *)
theory Witness
  imports Keys
begin

text \<open>
  \<^verbatim>\<open>witness/*.ts\<close>: the five builders of circuit inputs. A builder takes the secrets and
  public values of one operation, rejects what the circuit could not prove, and returns the named
  circuit inputs, the on-chain payload and the opening to cache. A scalar the caller does not fix
  is drawn from \<^const>\<open>randomScalar\<close>; those draws are the arguments \<^verbatim>\<open>fs\<close>, \<^verbatim>\<open>fr\<close> and
  \<^verbatim>\<open>fd\<close> (for \<^verbatim>\<open>sigma\<close>, \<^verbatim>\<open>rE\<close> and \<^verbatim>\<open>rDisc\<close>), in the order of the calls.
\<close>

section \<open>Circuit inputs\<close>

type_synonym noirInputs = "(string \<times> string) list"

definition fieldIn :: "int \<Rightarrow> string" where
  "fieldIn x = toHex32 x"

definition pointIn :: "'p prims \<Rightarrow> string \<Rightarrow> 'p \<Rightarrow> noirInputs" where
  "pointIn K prefix p =
     (case pointCoords K p of (x, y) \<Rightarrow> [(prefix @ ''_x'', toHex32 x), (prefix @ ''_y'', toHex32 y)])"

lemma fst_pointIn [simp]: "map fst (pointIn K pre p) = [pre @ ''_x'', pre @ ''_y'']"
  by (simp add: pointIn_def split: prod.splits)

lemma fst_pointIn_set [simp]: "fst ` set (pointIn K pre p) = {pre @ ''_x'', pre @ ''_y''}"
  by (cases "pointCoords K p") (simp add: pointIn_def)

section \<open>Register\<close>

record 'p registerWitness =
  rw_inputs :: noirInputs
  rw_y :: 'p
  rw_pvk :: 'p

definition buildRegisterWitness :: "'p prims \<Rightarrow> 'p keyPair \<Rightarrow> 'p registerWitness" where
  "buildRegisterWitness K keys =
     \<lparr>rw_inputs = [(''sk'', fieldIn (k_sk keys))] @ pointIn K ''y'' (k_Y keys)
        @ pointIn K ''pvk'' (k_PVK keys) @ [(''addr_f'', fieldIn (k_addrF keys))],
      rw_y = k_Y keys, rw_pvk = k_PVK keys\<rparr>"

section \<open>Withdraw\<close>

record 'p nextSpendable =
  n_v :: int
  n_r :: int
  n_cSpend :: 'p

record 'p withdrawParams =
  wp_keys :: "'p keyPair"
  wp_v :: int
  wp_r :: int
  wp_amount :: int
  wp_kAudS :: 'p
  wp_sigma :: "int option"
  wp_rE :: "int option"

record 'p withdrawPayload =
  w_cSpendNew :: 'p
  w_bTilde :: int
  w_rE :: 'p
  w_sigma :: int
  w_bAudS :: int

record 'p withdrawWitness =
  ww_inputs :: noirInputs
  ww_payload :: "'p withdrawPayload"
  ww_next :: "'p nextSpendable"

definition buildWithdrawWitness ::
  "'p prims \<Rightarrow> 'p withdrawParams \<Rightarrow> int \<Rightarrow> int \<Rightarrow> 'p withdrawWitness res" where
  "buildWithdrawWitness K p fs fr =
     (let keys = wp_keys p; v = wp_v p; r = wp_r p; amount = wp_amount p; kAudS = wp_kAudS p;
          vNew = v - amount in
      if amount < 0 then Inl NegativeAmount
      else if vNew < 0 then Inl ExceedsBalance
      else
        let sigma = given (wp_sigma p) fs;
            rE = given (wp_rE p) fr;
            cSpend = commit K v r;
            rNew = deriveSpendR (permute K) (k_vk keys) sigma;
            cSpendNew = commit K vNew rNew;
            bTilde = encryptBalance (permute K) vNew (k_vk keys) sigma;
            rePoint = scalarMul K rE (H K)
        in rbind (ecdh K rE kAudS) (\<lambda>sAsX.
          let bAudS = encryptAuditorSenderBalance (permute K) vNew sAsX sigma;
              inputs = [(''sk'', fieldIn (k_sk keys)), (''v'', fieldIn v), (''r'', fieldIn r),
                  (''r_e'', fieldIn rE)]
                @ pointIn K ''c_spend'' cSpend @ pointIn K ''y'' (k_Y keys)
                @ [(''addr_f'', fieldIn (k_addrF keys))] @ pointIn K ''k_aud_s'' kAudS
                @ [(''a'', fieldIn amount)] @ pointIn K ''c_spend_new'' cSpendNew
                @ [(''sigma'', fieldIn sigma), (''b_tilde'', fieldIn bTilde)]
                @ pointIn K ''r_e'' rePoint @ [(''b_tilde_aud_s'', fieldIn bAudS)]
          in Inr \<lparr>ww_inputs = inputs,
               ww_payload = \<lparr>w_cSpendNew = cSpendNew, w_bTilde = bTilde, w_rE = rePoint,
                 w_sigma = sigma, w_bAudS = bAudS\<rparr>,
               ww_next = \<lparr>n_v = vNew, n_r = rNew, n_cSpend = cSpendNew\<rparr>\<rparr>))"

section \<open>Transfer\<close>

record 'p transferParams =
  tp_keys :: "'p keyPair"
  tp_v :: int
  tp_r :: int
  tp_amount :: int
  tp_pvkB :: 'p
  tp_kAudR :: 'p
  tp_kAudS :: 'p
  tp_sigma :: "int option"
  tp_rE :: "int option"

record 'p transferPayload =
  t_cSpendNew :: 'p
  t_cTx :: 'p
  t_rE :: 'p
  t_vTilde :: int
  t_bTilde :: int
  t_sigma :: int
  t_vAudR :: int
  t_rAudR :: int
  t_vAudS :: int
  t_bAudS :: int

record 'p recipientView =
  rv_vTx :: int
  rv_rTx :: int
  rv_cTx :: 'p

record 'p transferWitness =
  tw_inputs :: noirInputs
  tw_payload :: "'p transferPayload"
  tw_next :: "'p nextSpendable"
  tw_recipientView :: "'p recipientView"
  tw_rEScalar :: int

definition buildTransferWitness ::
  "'p prims \<Rightarrow> 'p transferParams \<Rightarrow> int \<Rightarrow> 'p transferWitness res" where
  "buildTransferWitness K p fs =
     (let keys = tp_keys p; v = tp_v p; r = tp_r p; amount = tp_amount p; pvkB = tp_pvkB p;
          kAudR = tp_kAudR p; kAudS = tp_kAudS p; pm = permute K; vNew = v - amount in
      if amount < 0 then Inl NegativeAmount
      else if vNew < 0 then Inl ExceedsBalance
      else
        let sigma = given (tp_sigma p) fs in
        rbind (case tp_rE p of Some x \<Rightarrow> Inr x | None \<Rightarrow> deriveEphemeralRE pm (k_vk keys) sigma) (\<lambda>rE.
        let cSpend = commit K v r;
            rNew = deriveSpendR pm (k_vk keys) sigma;
            cSpendNew = commit K vNew rNew;
            bTilde = encryptBalance pm vNew (k_vk keys) sigma;
            rePoint = scalarMul K rE (H K)
        in rbind (ecdh K rE pvkB) (\<lambda>sX.
        let rTx = deriveTxBlind pm sX sigma;
            cTx = commit K amount rTx;
            vTilde = encryptAmount pm amount sX sigma
        in rbind (ecdh K rE kAudR) (\<lambda>sArX.
        let mR = spongeSqueeze2 pm AUDITOR_RECIPIENT sArX sigma;
            vAudR = frAdd amount (fst mR);
            rAudR = frAdd rTx (snd mR)
        in rbind (ecdh K rE kAudS) (\<lambda>sAsX.
        let mS = spongeSqueeze2 pm AUDITOR_SENDER sAsX sigma;
            vAudS = frAdd amount (fst mS);
            bAudS = frAdd vNew (snd mS);
            inputs = [(''sk'', fieldIn (k_sk keys)), (''v'', fieldIn v), (''r'', fieldIn r),
                (''v_tx'', fieldIn amount), (''r_e'', fieldIn rE)]
              @ pointIn K ''c_spend'' cSpend @ pointIn K ''y'' (k_Y keys)
              @ pointIn K ''pvk_b'' pvkB @ [(''addr_f'', fieldIn (k_addrF keys))]
              @ pointIn K ''k_aud_r'' kAudR @ pointIn K ''k_aud_s'' kAudS
              @ pointIn K ''c_spend_new'' cSpendNew @ pointIn K ''c_tx'' cTx
              @ pointIn K ''r_e'' rePoint
              @ [(''v_tilde'', fieldIn vTilde), (''b_tilde'', fieldIn bTilde),
                 (''sigma'', fieldIn sigma), (''v_tilde_aud_r'', fieldIn vAudR),
                 (''r_tilde_aud_r'', fieldIn rAudR), (''v_tilde_aud_s'', fieldIn vAudS),
                 (''b_tilde_aud_s'', fieldIn bAudS)]
        in Inr \<lparr>tw_inputs = inputs,
             tw_payload = \<lparr>t_cSpendNew = cSpendNew, t_cTx = cTx, t_rE = rePoint, t_vTilde = vTilde,
               t_bTilde = bTilde, t_sigma = sigma, t_vAudR = vAudR, t_rAudR = rAudR,
               t_vAudS = vAudS, t_bAudS = bAudS\<rparr>,
             tw_next = \<lparr>n_v = vNew, n_r = rNew, n_cSpend = cSpendNew\<rparr>,
             tw_recipientView = \<lparr>rv_vTx = amount, rv_rTx = rTx, rv_cTx = cTx\<rparr>,
             tw_rEScalar = rE\<rparr>)))))"

section \<open>Disclosure by the recipient\<close>

record 'p discloseEvent =
  de_rE :: 'p
  de_sigma :: int
  de_vTilde :: int

record 'p discloseWitness =
  dw_inputs :: noirInputs
  dw_vTx :: int
  dw_rDisc :: 'p
  dw_vTildeDisc :: int

definition buildDiscloseRecipientWitness ::
  "'p prims \<Rightarrow> 'p keyPair \<Rightarrow> 'p discloseEvent \<Rightarrow> 'p \<Rightarrow> int \<Rightarrow> int option \<Rightarrow> int
   \<Rightarrow> 'p discloseWitness res" where
  "buildDiscloseRecipientWitness K keys event pR nu rDiscGiven fd =
     rbind (ecdh K (k_vk keys) (de_rE event)) (\<lambda>sX.
     let vTx = decryptWithDomain (permute K) (de_vTilde event) TX_AMOUNT sX (de_sigma event) in
     if push_bit 127 1 \<le> vTx then Inl UndecryptableEvent
     else
       let rDiscScalar = given rDiscGiven fd;
           rDisc = scalarMul K rDiscScalar (H K)
       in rbind (ecdh K rDiscScalar pR) (\<lambda>sDiscX.
       let vTildeDisc = encryptDisclosure (permute K) vTx sDiscX nu;
           inputs = [(''sk'', fieldIn (k_sk keys)), (''v_tx'', fieldIn vTx),
               (''r_disc'', fieldIn rDiscScalar), (''addr_f'', fieldIn (k_addrF keys))]
             @ pointIn K ''pvk_a'' (k_PVK keys) @ pointIn K ''r_e'' (de_rE event)
             @ [(''sigma'', fieldIn (de_sigma event)), (''v_tilde'', fieldIn (de_vTilde event))]
             @ pointIn K ''p_r'' pR @ [(''nu'', fieldIn nu)] @ pointIn K ''r_disc'' rDisc
             @ [(''v_tilde_disc'', fieldIn vTildeDisc)]
       in Inr \<lparr>dw_inputs = inputs, dw_vTx = vTx, dw_rDisc = rDisc, dw_vTildeDisc = vTildeDisc\<rparr>))"

section \<open>Disclosure by the sender\<close>

definition buildDiscloseSenderWitness ::
  "'p prims \<Rightarrow> 'p keyPair \<Rightarrow> int \<Rightarrow> 'p discloseEvent \<Rightarrow> 'p \<Rightarrow> 'p \<Rightarrow> int \<Rightarrow> int option \<Rightarrow> int
   \<Rightarrow> 'p discloseWitness res" where
  "buildDiscloseSenderWitness K keys rEScalar event pvkB pR nu rDiscGiven fd =
     (let rEDerived = pointCoords K (scalarMul K rEScalar (H K));
          rEEvent = pointCoords K (de_rE event) in
      if fst rEDerived \<noteq> fst rEEvent \<or> snd rEDerived \<noteq> snd rEEvent then Inl EphemeralMismatch
      else rbind (ecdh K rEScalar pvkB) (\<lambda>sBx.
      let vTx = decryptWithDomain (permute K) (de_vTilde event) TX_AMOUNT sBx (de_sigma event) in
      if push_bit 127 1 \<le> vTx then Inl UndecryptableEvent
      else
        let rDiscScalar = given rDiscGiven fd;
            rDisc = scalarMul K rDiscScalar (H K)
        in rbind (ecdh K rDiscScalar pR) (\<lambda>sDiscX.
        let vTildeDisc = encryptDisclosure (permute K) vTx sDiscX nu;
            inputs = [(''sk'', fieldIn (k_sk keys)), (''r_e'', fieldIn rEScalar),
                (''v_tx'', fieldIn vTx), (''r_disc'', fieldIn rDiscScalar),
                (''addr_f'', fieldIn (k_addrF keys))]
              @ pointIn K ''pvk_a'' (k_PVK keys) @ pointIn K ''r_e'' (de_rE event)
              @ [(''sigma'', fieldIn (de_sigma event)), (''v_tilde'', fieldIn (de_vTilde event))]
              @ pointIn K ''pvk_b'' pvkB @ pointIn K ''p_r'' pR @ [(''nu'', fieldIn nu)]
              @ pointIn K ''r_disc'' rDisc @ [(''v_tilde_disc'', fieldIn vTildeDisc)]
        in Inr \<lparr>dw_inputs = inputs, dw_vTx = vTx, dw_rDisc = rDisc, dw_vTildeDisc = vTildeDisc\<rparr>)))"


section \<open>What a successful builder returns\<close>

text \<open>
  The builders guard in the order of the source: the sign of the amount, the remaining balance,
  then whatever a degenerate key makes throw. The elimination rules give the parts of a successful
  result that the other components read.
\<close>

lemma withdraw_rejects:
  "wp_amount p < 0 \<Longrightarrow> buildWithdrawWitness K p fs fr = Inl NegativeAmount"
  "0 \<le> wp_amount p \<Longrightarrow> wp_v p < wp_amount p \<Longrightarrow> buildWithdrawWitness K p fs fr = Inl ExceedsBalance"
  by (simp_all add: buildWithdrawWitness_def Let_def)

lemma transfer_rejects:
  "tp_amount p < 0 \<Longrightarrow> buildTransferWitness K p fs = Inl NegativeAmount"
  "0 \<le> tp_amount p \<Longrightarrow> tp_v p < tp_amount p \<Longrightarrow> buildTransferWitness K p fs = Inl ExceedsBalance"
  by (simp_all add: buildTransferWitness_def Let_def)

lemma withdraw_built:
  assumes "buildWithdrawWitness K p fs fr = Inr w"
  defines "sigma \<equiv> given (wp_sigma p) fs" and "rE \<equiv> given (wp_rE p) fr"
    and "vNew \<equiv> wp_v p - wp_amount p"
  obtains s where "0 \<le> wp_amount p" and "wp_amount p \<le> wp_v p"
    and "ecdh K rE (wp_kAudS p) = Inr s"
    and "ww_payload w = \<lparr>
       w_cSpendNew = commit K vNew (deriveSpendR (permute K) (k_vk (wp_keys p)) sigma),
       w_bTilde = encryptBalance (permute K) vNew (k_vk (wp_keys p)) sigma,
       w_rE = scalarMul K rE (H K), w_sigma = sigma,
       w_bAudS = encryptAuditorSenderBalance (permute K) vNew s sigma\<rparr>"
    and "ww_next w = \<lparr>n_v = vNew, n_r = deriveSpendR (permute K) (k_vk (wp_keys p)) sigma,
       n_cSpend = commit K vNew (deriveSpendR (permute K) (k_vk (wp_keys p)) sigma)\<rparr>"
    and "distinct (map fst (ww_inputs w))"
  using assms(1) that unfolding sigma_def rE_def vNew_def
  by (auto simp: buildWithdrawWitness_def Let_def rbind_Inr_iff split: if_splits)

definition transfer_rE :: "'p prims \<Rightarrow> 'p transferParams \<Rightarrow> int \<Rightarrow> int res" where
  "transfer_rE K p fs = (case tp_rE p of Some x \<Rightarrow> Inr x
     | None \<Rightarrow> deriveEphemeralRE (permute K) (k_vk (tp_keys p)) (given (tp_sigma p) fs))"

lemma transfer_built:
  assumes "buildTransferWitness K p fs = Inr w"
  defines "sigma \<equiv> given (tp_sigma p) fs" and "vNew \<equiv> tp_v p - tp_amount p"
    and "pm \<equiv> permute K" and "vk \<equiv> k_vk (tp_keys p)"
  obtains rE sX sArX sAsX where "0 \<le> tp_amount p" and "tp_amount p \<le> tp_v p"
    and "transfer_rE K p fs = Inr rE" and "ecdh K rE (tp_pvkB p) = Inr sX"
    and "ecdh K rE (tp_kAudR p) = Inr sArX" and "ecdh K rE (tp_kAudS p) = Inr sAsX"
    and "tw_payload w = \<lparr>t_cSpendNew = commit K vNew (deriveSpendR pm vk sigma),
       t_cTx = commit K (tp_amount p) (deriveTxBlind pm sX sigma),
       t_rE = scalarMul K rE (H K), t_vTilde = encryptAmount pm (tp_amount p) sX sigma,
       t_bTilde = encryptBalance pm vNew vk sigma, t_sigma = sigma,
       t_vAudR = frAdd (tp_amount p) (fst (spongeSqueeze2 pm AUDITOR_RECIPIENT sArX sigma)),
       t_rAudR = frAdd (deriveTxBlind pm sX sigma) (snd (spongeSqueeze2 pm AUDITOR_RECIPIENT sArX sigma)),
       t_vAudS = frAdd (tp_amount p) (fst (spongeSqueeze2 pm AUDITOR_SENDER sAsX sigma)),
       t_bAudS = frAdd vNew (snd (spongeSqueeze2 pm AUDITOR_SENDER sAsX sigma))\<rparr>"
    and "tw_next w = \<lparr>n_v = vNew, n_r = deriveSpendR pm vk sigma,
       n_cSpend = commit K vNew (deriveSpendR pm vk sigma)\<rparr>"
    and "tw_recipientView w = \<lparr>rv_vTx = tp_amount p, rv_rTx = deriveTxBlind pm sX sigma,
       rv_cTx = commit K (tp_amount p) (deriveTxBlind pm sX sigma)\<rparr>"
    and "tw_rEScalar w = rE" and "distinct (map fst (tw_inputs w))"
  using assms(1) that unfolding sigma_def vNew_def pm_def vk_def
  by (auto simp: buildTransferWitness_def transfer_rE_def Let_def rbind_Inr_iff split: if_splits)

lemma discloseRecipient_built:
  assumes "buildDiscloseRecipientWitness K keys event pR nu g fd = Inr w"
  obtains sX sD where "ecdh K (k_vk keys) (de_rE event) = Inr sX"
    and "dw_vTx w = decryptWithDomain (permute K) (de_vTilde event) TX_AMOUNT sX (de_sigma event)"
    and "dw_vTx w < 2 ^ 127" and "ecdh K (given g fd) pR = Inr sD"
    and "dw_rDisc w = scalarMul K (given g fd) (H K)"
    and "dw_vTildeDisc w = encryptDisclosure (permute K) (dw_vTx w) sD nu"
    and "distinct (map fst (dw_inputs w))"
  using assms that
  by (auto simp: buildDiscloseRecipientWitness_def Let_def rbind_Inr_iff push_bit_eq_mult split: if_splits)

lemma discloseSender_built:
  assumes "buildDiscloseSenderWitness K keys rE event pvkB pR nu g fd = Inr w"
  obtains sX sD where "pointCoords K (scalarMul K rE (H K)) = pointCoords K (de_rE event)"
    and "ecdh K rE pvkB = Inr sX"
    and "dw_vTx w = decryptWithDomain (permute K) (de_vTilde event) TX_AMOUNT sX (de_sigma event)"
    and "dw_vTx w < 2 ^ 127" and "ecdh K (given g fd) pR = Inr sD"
    and "dw_rDisc w = scalarMul K (given g fd) (H K)"
    and "dw_vTildeDisc w = encryptDisclosure (permute K) (dw_vTx w) sD nu"
    and "distinct (map fst (dw_inputs w))"
  using assms that
  by (auto simp: buildDiscloseSenderWitness_def Let_def rbind_Inr_iff push_bit_eq_mult prod_eq_iff
      split: if_splits)

end
