(* ===== verification/Payload.thy ===== *)
theory Payload
  imports Events Witness "HOL-Library.List_Lexorder" "HOL-Library.Char_ord"
begin

text \<open>
  \<^verbatim>\<open>chain/payload.ts\<close>: the \<^verbatim>\<open>data\<close> argument of the proof-carrying entry points. A struct is
  a map with its field names in ascending order, points are 64 bytes, field elements 32. \<^verbatim>\<open>toXDR\<close>
  is the SDK's serialisation of a value to bytes. Shown: a field read back from the built struct by
  name is the value the witness holds, and a struct's names are strictly ascending.
\<close>

definition scvBytesOf :: "byte list \<Rightarrow> scval" where
  "scvBytesOf b = ScBytes b"

definition pointVal :: "'p prims \<Rightarrow> 'p \<Rightarrow> scval res" where
  "pointVal K p = rmap scvBytesOf (pointToBytes K p)"

definition fieldValue :: "int \<Rightarrow> scval res" where
  "fieldValue v = rmap scvBytesOf (toBytes32BE v)"

definition scvStruct :: "(string \<times> scval) list \<Rightarrow> scval" where
  "scvStruct flds = ScMap (map (\<lambda>(k, v). (ScSymbol k, v)) (sort_key fst flds))"

definition envelope :: "(scval \<Rightarrow> byte list) \<Rightarrow> scval \<Rightarrow> byte list \<Rightarrow> scval" where
  "envelope toXDR payload proof =
     (let data = scvStruct [(''payload'', payload), (''proof'', scvBytesOf proof)]
      in scvBytesOf (toXDR data))"

text \<open>The members of an object literal, evaluated in the order they are written.\<close>

definition fields_res :: "(string \<times> scval res) list \<Rightarrow> (string \<times> scval) list res" where
  "fields_res fs = traverse (\<lambda>(k, r). rmap (Pair k) r) fs"

definition registerPayload :: "'p prims \<Rightarrow> 'p registerWitness \<Rightarrow> scval res" where
  "registerPayload K w = rmap scvStruct (fields_res
     [(''y'', pointVal K (rw_y w)), (''pvk'', pointVal K (rw_pvk w))])"

definition withdrawPayloadVal :: "'p prims \<Rightarrow> 'p withdrawPayload \<Rightarrow> scval res" where
  "withdrawPayloadVal K p = rmap scvStruct (fields_res
     [(''c_spend_new'', pointVal K (w_cSpendNew p)), (''b_tilde'', fieldValue (w_bTilde p)),
      (''r_e'', pointVal K (w_rE p)), (''sigma'', fieldValue (w_sigma p)),
      (''b_aud_s'', fieldValue (w_bAudS p))])"

definition transferPayloadVal :: "'p prims \<Rightarrow> 'p transferPayload \<Rightarrow> scval res" where
  "transferPayloadVal K p = rmap scvStruct (fields_res
     [(''c_spend_new'', pointVal K (t_cSpendNew p)), (''c_tx'', pointVal K (t_cTx p)),
      (''r_e'', pointVal K (t_rE p)), (''v_tilde'', fieldValue (t_vTilde p)),
      (''b_tilde'', fieldValue (t_bTilde p)), (''sigma'', fieldValue (t_sigma p)),
      (''v_aud_r'', fieldValue (t_vAudR p)), (''r_aud_r'', fieldValue (t_rAudR p)),
      (''v_aud_s'', fieldValue (t_vAudS p)), (''b_aud_s'', fieldValue (t_bAudS p))])"

definition encodeRegisterData ::
  "(scval \<Rightarrow> byte list) \<Rightarrow> 'p prims \<Rightarrow> 'p registerWitness \<Rightarrow> byte list \<Rightarrow> scval res" where
  "encodeRegisterData toXDR K w proof = rmap (\<lambda>p. envelope toXDR p proof) (registerPayload K w)"

definition encodeWithdrawData ::
  "(scval \<Rightarrow> byte list) \<Rightarrow> 'p prims \<Rightarrow> 'p withdrawWitness \<Rightarrow> byte list \<Rightarrow> scval res" where
  "encodeWithdrawData toXDR K w proof =
     rmap (\<lambda>p. envelope toXDR p proof) (withdrawPayloadVal K (ww_payload w))"

definition encodeTransferData ::
  "(scval \<Rightarrow> byte list) \<Rightarrow> 'p prims \<Rightarrow> 'p transferWitness \<Rightarrow> byte list \<Rightarrow> scval res" where
  "encodeTransferData toXDR K w proof =
     rmap (\<lambda>p. envelope toXDR p proof) (transferPayloadVal K (tw_payload w))"

section \<open>Structs\<close>

text \<open>The fields of a struct value by name, and their order.\<close>

fun struct_keys :: "scval \<Rightarrow> string list" where
  "struct_keys (ScMap es) = map (\<lambda>(k, v). catch (sc_sym k) []) es"
| "struct_keys _ = []"

definition struct_field :: "scval \<Rightarrow> string \<Rightarrow> scval option" where
  "struct_field v k = (case rbind (sc_map v) (entries_by_name []) of
      Inr m \<Rightarrow> map_of m k | Inl e \<Rightarrow> None)"

lemma struct_keys_scvStruct: "struct_keys (scvStruct fs) = map fst (sort_key fst fs)"
  by (simp add: scvStruct_def case_prod_unfold)

lemma struct_ascending: "sorted (struct_keys (scvStruct fs))"
  by (simp add: struct_keys_scvStruct)

lemma struct_strictly_ascending:
  "distinct (map fst fs) \<Longrightarrow> sorted_wrt (<) (struct_keys (scvStruct fs))"
  by (simp add: strict_sorted_iff struct_ascending)
     (simp add: struct_keys_scvStruct distinct_map inj_on_def)

lemma struct_field_scvStruct:
  assumes "distinct (map fst fs)"
  shows "struct_field (scvStruct fs) k = map_of fs k"
proof -
  let ?s = "sort_key fst fs"
  have d: "distinct (map fst ?s)" using assms by (simp add: distinct_map)
  have e: "entries_by_name [] (map (\<lambda>(k, v). (ScSymbol k, v)) ?s) = Inr (fold (\<lambda>(n, v). put n v) ?s [])"
    using entries_xdr[of "[]" "\<lambda>v. v" ?s] by simp
  have "map_of ?s k = Some v \<longleftrightarrow> map_of fs k = Some v" for v
    using map_of_eq_Some_iff[OF assms] map_of_eq_Some_iff[OF d] by simp
  then have "map_of ?s k = map_of fs k" by (cases "map_of fs k"; cases "map_of ?s k") auto
  with e map_of_fold_put[OF d, of "[]" k] show ?thesis
    by (simp add: struct_field_def scvStruct_def split: option.splits)
qed

lemma fields_res_Inr:
  assumes "\<And>k r. (k, r) \<in> set fs \<Longrightarrow> r = Inr (f k)"
  shows "fields_res fs = Inr (map (\<lambda>(k, r). (k, f k)) fs)"
  unfolding fields_res_def
proof (rule traverse_Inr_map[where g = "\<lambda>(k, r). (k, f k)"])
  fix x assume x: "x \<in> set fs"
  obtain k r where kr: "x = (k, r)" by (cases x)
  from assms[OF x[unfolded kr]] kr
  show "(case x of (k, r) \<Rightarrow> rmap (Pair k) r) = Inr (case x of (k, r) \<Rightarrow> (k, f k))" by simp
qed

text \<open>
  What a payload holds: the bytes of each field of the witness, each of the length the contract's
  type has. A point is always encodable; a field element when it is canonical.
\<close>

definition withdraw_fields :: "'p prims \<Rightarrow> 'p withdrawPayload \<Rightarrow> (string \<times> 'p fieldVal) list" where
  "withdraw_fields K p =
     [(''c_spend_new'', FPoint (w_cSpendNew p)), (''b_tilde'', FField (w_bTilde p)),
      (''r_e'', FPoint (w_rE p)), (''sigma'', FField (w_sigma p)), (''b_aud_s'', FField (w_bAudS p))]"

definition transfer_fields :: "'p prims \<Rightarrow> 'p transferPayload \<Rightarrow> (string \<times> 'p fieldVal) list" where
  "transfer_fields K p =
     [(''c_spend_new'', FPoint (t_cSpendNew p)), (''c_tx'', FPoint (t_cTx p)),
      (''r_e'', FPoint (t_rE p)), (''v_tilde'', FField (t_vTilde p)),
      (''b_tilde'', FField (t_bTilde p)), (''sigma'', FField (t_sigma p)),
      (''v_aud_r'', FField (t_vAudR p)), (''r_aud_r'', FField (t_rAudR p)),
      (''v_aud_s'', FField (t_vAudS p)), (''b_aud_s'', FField (t_bAudS p))]"

lemma pointVal_ok:
  assumes "curve_laws K"
  shows "pointVal K P = Inr (xdrField K (FPoint P))"
proof -
  obtain bs where "pointToBytes K P = Inr bs" by (rule pointToBytes_ok[OF assms, of P])
  then show ?thesis by (simp add: pointVal_def scvBytesOf_def)
qed

lemma fieldValue_ok:
  assumes "0 \<le> x" "x < 2 ^ 256"
  shows "fieldValue x = Inr (xdrField K (FField x))"
proof -
  obtain bs where "toBytes32BE x = Inr bs" using toBytes32BE_Inr_iff[of x] assms by auto
  then show ?thesis by (simp add: fieldValue_def scvBytesOf_def)
qed

lemma sort_map:
  assumes "\<And>x. fst (f x) = fst x"
  shows "sort_key fst (map f d) = map f (sort_key fst d)"
proof -
  have "map f (insort_key fst x ys) = insort_key fst (f x) (map f ys)" for x ys
    using assms by (induction ys) auto
  then show ?thesis by (induction d) simp_all
qed

lemma struct_reads:
  assumes "distinct (map fst d)" and "[] \<notin> set (map fst d)" and "list_all (\<lambda>x. encodable K (snd x)) d"
  shows "\<exists>acc. dataMap K (scvStruct (map (\<lambda>(n, v). (n, xdrField K v)) d)) = Inr acc \<and> reads acc d"
proof -
  have "sort_key fst (map (\<lambda>(n, v). (n, xdrField K v)) d)
      = map (\<lambda>(n, v). (n, xdrField K v)) (sort_key fst d)"
    by (rule sort_map) (simp add: case_prod_unfold)
  then have s: "scvStruct (map (\<lambda>(n, v). (n, xdrField K v)) d) = xdrData K (sort_key fst d)"
    by (simp add: scvStruct_def xdrData_def case_prod_unfold comp_def)
  have "distinct (map fst (sort_key fst d))" using assms(1) by (simp add: distinct_map)
  then obtain acc where "dataMap K (xdrData K (sort_key fst d)) = Inr acc" "reads acc (sort_key fst d)"
    using xdr_codec.acc_encode[of "sort_key fst d" K] assms by (auto simp: list_all_iff)
  then show ?thesis unfolding s by (auto simp: reads_def list_all_iff)
qed

text \<open>The two payloads as structs of encoded fields.\<close>

lemma withdrawPayloadVal_ok:
  assumes "curve_laws K" and "list_all (\<lambda>x. encodable K (snd x)) (withdraw_fields K p)"
  shows "withdrawPayloadVal K p
    = Inr (scvStruct (map (\<lambda>(n, v). (n, xdrField K v)) (withdraw_fields K p)))"
  using assms fieldValue_ok[of _ K]
  by (simp add: withdrawPayloadVal_def withdraw_fields_def fields_res_def pointVal_ok)

lemma transferPayloadVal_ok:
  assumes "curve_laws K" and "list_all (\<lambda>x. encodable K (snd x)) (transfer_fields K p)"
  shows "transferPayloadVal K p
    = Inr (scvStruct (map (\<lambda>(n, v). (n, xdrField K v)) (transfer_fields K p)))"
  using assms fieldValue_ok[of _ K]
  by (simp add: transferPayloadVal_def transfer_fields_def fields_res_def pointVal_ok)

end
