(* ===== verification/ChainClient.thy ===== *)
theory ChainClient
  imports Payload
begin

text \<open>
  \<^verbatim>\<open>chain/client.ts\<close> and \<^verbatim>\<open>chain/contract.ts\<close>: simulated reads, the invocation of an entry
  point (simulate, assemble, sign, send, poll) and the five submitters. The RPC server, the SDK's
  transaction assembly and the signer are parameters: an \<^verbatim>\<open>'w chainServer\<close> is what the client
  calls of them. Shown: what each outcome of a poll gives, that a transaction is sent at most once
  and polled at most sixty times, and that a read never throws.
\<close>

definition NULL_ACCOUNT :: string where
  "NULL_ACCOUNT = ''GAAAAAAAAAAAAAAAAAAAAAAAAAAAAAAAAAAAAAAAAAAAAAAAAAAAAWHF''"

definition MAX_POLL_ATTEMPTS :: nat where "MAX_POLL_ATTEMPTS = 60"

section \<open>What the client calls\<close>

record txAccount =
  ac_address :: string
  ac_sequence :: int

record callTx =
  tx_source :: txAccount
  tx_contract :: string
  tx_method :: string
  tx_args :: "scval list"
  tx_timeout :: int

text \<open>A simulation fails with a text or succeeds, with or without a result.\<close>

datatype simResponse = SimError string | SimSuccess "scval option"

datatype sendStatus = SendError string | SendAccepted

record sendResponse =
  snd_hash :: string
  snd_status :: sendStatus

datatype txStatus = TxNotFound | TxFailed | TxSuccess "scval option"

record 'w chainServer =
  cs_rpc :: "'w rpcServer"
  cs_getAccount :: "string \<Rightarrow> 'w \<Rightarrow> txAccount res \<times> 'w"
  cs_simulate :: "callTx \<Rightarrow> 'w \<Rightarrow> simResponse res \<times> 'w"
  cs_assemble :: "callTx \<Rightarrow> scval option \<Rightarrow> string res"
  cs_send :: "string \<Rightarrow> 'w \<Rightarrow> sendResponse res \<times> 'w"
  cs_getTransaction :: "string \<Rightarrow> 'w \<Rightarrow> txStatus res \<times> 'w"
  cs_latestLedger :: "'w \<Rightarrow> int res \<times> 'w"
  cs_address :: "string \<Rightarrow> scval res"

record 'w signer =
  sg_publicKey :: string
  sg_sign :: "string \<Rightarrow> 'w \<Rightarrow> string res \<times> 'w"

record contractIds =
  c_token :: string
  c_verifier :: string
  c_auditor :: string

record 'w chainClient =
  cc_server :: "'w chainServer"
  cc_contracts :: contractIds

record invokeResult =
  iv_hash :: string
  iv_status :: string
  iv_returnValue :: "scval option"

text \<open>Members a contract's map did not have are missing, whatever the cast says.\<close>

record 'p onChainAccount =
  oc_spendingKey :: "'p option"
  oc_viewingPublicKey :: "'p option"
  oc_spendableBalance :: "'p option"
  oc_receivingBalance :: "'p option"
  oc_auditorId :: "int option"

section \<open>Reads\<close>

definition simulate ::
  "'w chainServer \<Rightarrow> string \<Rightarrow> string \<Rightarrow> scval list \<Rightarrow> ('w, scval) io" where
  "simulate srv contractId method1 args =
     io_bind (io_catch (io_call (cs_getAccount srv NULL_ACCOUNT))
       (\<lambda>e. io_return \<lparr>ac_address = NULL_ACCOUNT, ac_sequence = 0\<rparr>)) (\<lambda>account.
     io_bind (io_call (cs_simulate srv \<lparr>tx_source = account, tx_contract = contractId,
         tx_method = method1, tx_args = args, tx_timeout = 30\<rparr>)) (\<lambda>sim.
       case sim of SimError e \<Rightarrow> io_throw (SimulationFailed method1 e)
       | SimSuccess None \<Rightarrow> io_throw (NoResult method1)
       | SimSuccess (Some retval) \<Rightarrow> io_return retval))"

definition empty_account :: "'p onChainAccount" where
  "empty_account = \<lparr>oc_spendingKey = None, oc_viewingPublicKey = None, oc_spendableBalance = None,
     oc_receivingBalance = None, oc_auditorId = None\<rparr>"

definition val_point :: "'p prims \<Rightarrow> scval \<Rightarrow> 'p res" where
  "val_point K v = rbind (sc_bytes v) (pointFromBytes K)"

definition account_field ::
  "'p prims \<Rightarrow> scval \<times> scval \<Rightarrow> 'p onChainAccount \<Rightarrow> 'p onChainAccount res" where
  "account_field K e out = rbind (sc_sym (fst e)) (\<lambda>key.
     if key = ''spending_key'' then rmap (\<lambda>p. out\<lparr>oc_spendingKey := Some p\<rparr>) (val_point K (snd e))
     else if key = ''viewing_public_key'' then
       rmap (\<lambda>p. out\<lparr>oc_viewingPublicKey := Some p\<rparr>) (val_point K (snd e))
     else if key = ''spendable_balance'' then
       rmap (\<lambda>p. out\<lparr>oc_spendableBalance := Some p\<rparr>) (val_point K (snd e))
     else if key = ''receiving_balance'' then
       rmap (\<lambda>p. out\<lparr>oc_receivingBalance := Some p\<rparr>) (val_point K (snd e))
     else if key = ''auditor_id'' then rmap (\<lambda>n. out\<lparr>oc_auditorId := Some n\<rparr>) (sc_u32 (snd e))
     else Inr out)"

fun account_fields ::
  "'p prims \<Rightarrow> (scval \<times> scval) list \<Rightarrow> 'p onChainAccount \<Rightarrow> 'p onChainAccount res" where
  "account_fields K [] out = Inr out"
| "account_fields K (e # es) out = rbind (account_field K e out) (account_fields K es)"

definition parseAccount :: "'p prims \<Rightarrow> scval \<Rightarrow> 'p onChainAccount res" where
  "parseAccount K val = rbind (sc_map val) (\<lambda>es. account_fields K es empty_account)"

definition confidentialBalance ::
  "'p prims \<Rightarrow> 'w chainClient \<Rightarrow> string \<Rightarrow> ('w, 'p onChainAccount option) io" where
  "confidentialBalance K client address =
     io_catch
       (io_bind (io_res (cs_address (cc_server client) address)) (\<lambda>a.
        io_bind (simulate (cc_server client) (c_token (cc_contracts client)) ''confidential_balance'' [a])
          (\<lambda>retval. io_bind (io_res (parseAccount K retval)) (\<lambda>acc. io_return (Some acc)))))
       (\<lambda>e. io_return None)"

definition isRegistered :: "'p prims \<Rightarrow> 'w chainClient \<Rightarrow> string \<Rightarrow> ('w, bool) io" where
  "isRegistered K client address =
     io_bind (confidentialBalance K client address) (\<lambda>acc. io_return (acc \<noteq> None))"

definition auditorKey :: "'p prims \<Rightarrow> 'w chainClient \<Rightarrow> int \<Rightarrow> ('w, 'p) io" where
  "auditorKey K client auditorId =
     io_bind (simulate (cc_server client) (c_auditor (cc_contracts client)) ''get_key'' [ScU32 auditorId])
       (\<lambda>retval. io_res (val_point K retval))"

definition latestLedger :: "'w chainClient \<Rightarrow> ('w, int) io" where
  "latestLedger client = io_call (cs_latestLedger (cc_server client))"

section \<open>Writes\<close>

text \<open>The polling loop; the waits between its steps change nothing.\<close>

fun poll :: "'w chainServer \<Rightarrow> string \<Rightarrow> string \<Rightarrow> nat \<Rightarrow> ('w, invokeResult) io" where
  "poll srv method1 hash1 0 = io_throw (ConfirmationTimeout method1 hash1)"
| "poll srv method1 hash1 (Suc n) =
     io_bind (io_call (cs_getTransaction srv hash1)) (\<lambda>st.
       case st of TxNotFound \<Rightarrow> poll srv method1 hash1 n
       | TxFailed \<Rightarrow> io_throw (FailedOnChain method1 hash1)
       | TxSuccess rv \<Rightarrow> io_return \<lparr>iv_hash = hash1, iv_status = ''SUCCESS'', iv_returnValue = rv\<rparr>)"

definition invoke ::
  "'w chainServer \<Rightarrow> string \<Rightarrow> string \<Rightarrow> scval list \<Rightarrow> 'w signer \<Rightarrow> ('w, invokeResult) io" where
  "invoke srv contractId method1 args sg =
     io_bind (io_call (cs_getAccount srv (sg_publicKey sg))) (\<lambda>source.
     let tx = \<lparr>tx_source = source, tx_contract = contractId, tx_method = method1, tx_args = args,
               tx_timeout = 180\<rparr> in
     io_bind (io_call (cs_simulate srv tx)) (\<lambda>sim.
     case sim of SimError e \<Rightarrow> io_throw (SimulationFailed method1 e)
     | SimSuccess result \<Rightarrow>
       io_bind (io_res (cs_assemble srv tx result)) (\<lambda>assembled.
       io_bind (io_call (sg_sign sg assembled)) (\<lambda>signed.
       io_bind (io_call (cs_send srv signed)) (\<lambda>send.
       case snd_status send of SendError e \<Rightarrow> io_throw (SendRejected method1)
       | SendAccepted \<Rightarrow> poll srv method1 (snd_hash send) MAX_POLL_ATTEMPTS)))))"

section \<open>The entry points\<close>

definition token_call ::
  "'w chainClient \<Rightarrow> string \<Rightarrow> scval res list \<Rightarrow> 'w signer \<Rightarrow> ('w, invokeResult) io" where
  "token_call client method1 args sg =
     io_bind (io_res (traverse (\<lambda>a. a) args)) (\<lambda>vals.
       invoke (cc_server client) (c_token (cc_contracts client)) method1 vals sg)"

definition addrVal :: "'w chainClient \<Rightarrow> string \<Rightarrow> scval res" where
  "addrVal client a = cs_address (cc_server client) a"

text \<open>\<^verbatim>\<open>nativeToScVal(v, { type: "i128" })\<close> throws outside the 128-bit range.\<close>

definition i128Val :: "int \<Rightarrow> scval res" where
  "i128Val v = (if - (2 ^ 127) \<le> v \<and> v < 2 ^ 127 then Inr (ScI128 v) else Inl (RangeError v))"

definition submitRegister where
  "submitRegister toXDR K client sg account auditorId witness proof =
     token_call client ''register''
       [addrVal client account, Inr (ScU32 auditorId), encodeRegisterData toXDR K witness proof] sg"

definition submitDeposit where
  "submitDeposit client sg from1 to1 amount =
     token_call client ''deposit'' [addrVal client from1, addrVal client to1, i128Val amount] sg"

definition submitMerge where
  "submitMerge client sg account = token_call client ''merge'' [addrVal client account] sg"

definition submitWithdraw where
  "submitWithdraw toXDR K client sg from1 to1 amount witness proof =
     token_call client ''withdraw''
       [addrVal client from1, addrVal client to1, i128Val amount,
        encodeWithdrawData toXDR K witness proof] sg"

definition submitTransfer where
  "submitTransfer toXDR K client sg from1 to1 witness proof =
     token_call client ''confidential_transfer''
       [addrVal client from1, addrVal client to1, encodeTransferData toXDR K witness proof] sg"

section \<open>Facts\<close>

text \<open>Every call comes back, and a read of an account never throws.\<close>

lemma simulate_returns: "\<exists>r. simulate srv c m args w = Some r"
  by (auto simp: simulate_def io_simps split: prod.splits sum.splits simResponse.splits option.splits)

lemma confidentialBalance_total:
  "\<exists>acc w'. confidentialBalance K client address w = Some (Inr acc, w')"
  by (auto simp: confidentialBalance_def simulate_def io_simps
      split: prod.splits sum.splits simResponse.splits option.splits)

lemma poll_returns: "\<exists>r. poll srv m h n w = Some r"
  by (induction n arbitrary: w) (auto simp: io_simps split: prod.splits sum.splits txStatus.splits)

lemma invoke_returns: "\<exists>r. invoke srv c m args sg w = Some r"
  using poll_returns[of srv m _ MAX_POLL_ATTEMPTS]
  by (auto simp: invoke_def io_simps Let_def split: prod.splits sum.splits simResponse.splits sendStatus.splits)

text \<open>
  The states the world goes through while the transaction is not found: the poll's outcome is the
  first answer that is not \<^const>\<open>TxNotFound\<close>.
\<close>

fun not_found_for :: "'w chainServer \<Rightarrow> string \<Rightarrow> nat \<Rightarrow> 'w \<Rightarrow> 'w option" where
  "not_found_for srv h 0 w = Some w"
| "not_found_for srv h (Suc k) w = (case cs_getTransaction srv h w of
      (Inr TxNotFound, w') \<Rightarrow> not_found_for srv h k w' | _ \<Rightarrow> None)"

lemma poll_skips:
  "not_found_for srv h k w = Some w1 \<Longrightarrow> poll srv m h (k + n) w = poll srv m h n w1"
  by (induction k arbitrary: w) (auto simp: io_simps split: prod.splits sum.splits txStatus.splits)

lemma poll_success:
  assumes "not_found_for srv h k w = Some w1" and "cs_getTransaction srv h w1 = (Inr (TxSuccess rv), w2)"
    and "k < n"
  shows "poll srv m h n w = Some (Inr \<lparr>iv_hash = h, iv_status = ''SUCCESS'', iv_returnValue = rv\<rparr>, w2)"
proof -
  obtain j where n: "n = k + Suc j" using assms(3) by (metis less_iff_Suc_add add_Suc_right)
  show ?thesis unfolding n poll_skips[OF assms(1)] using assms(2) by (simp add: io_simps)
qed

lemma poll_timeout:
  assumes "not_found_for srv h n w = Some w1"
  shows "poll srv m h n w = Some (Inl (ConfirmationTimeout m h), w1)"
  using poll_skips[OF assms, of m 0] by (simp add: io_simps)

lemma poll_success_iff:
  "poll srv m h n w = Some (Inr iv, w2) \<longleftrightarrow>
   (\<exists>k<n. \<exists>w1. not_found_for srv h k w = Some w1
     \<and> (\<exists>rv. cs_getTransaction srv h w1 = (Inr (TxSuccess rv), w2)
          \<and> iv = \<lparr>iv_hash = h, iv_status = ''SUCCESS'', iv_returnValue = rv\<rparr>))"
proof
  show "poll srv m h n w = Some (Inr iv, w2) \<Longrightarrow> \<exists>k<n. \<exists>w1. not_found_for srv h k w = Some w1
     \<and> (\<exists>rv. cs_getTransaction srv h w1 = (Inr (TxSuccess rv), w2)
          \<and> iv = \<lparr>iv_hash = h, iv_status = ''SUCCESS'', iv_returnValue = rv\<rparr>)"
  proof (induction n arbitrary: w)
    case (Suc n)
    obtain r w1 where g: "cs_getTransaction srv h w = (r, w1)" by (cases "cs_getTransaction srv h w")
    consider (nf) "r = Inr TxNotFound" | (ok) rv where "r = Inr (TxSuccess rv)"
      using Suc.prems g by (auto simp: io_simps split: sum.splits txStatus.splits)
    then show ?case
    proof cases
      case nf
      with Suc.prems g have "poll srv m h n w1 = Some (Inr iv, w2)" by (simp add: io_simps)
      from Suc.IH[OF this] obtain k w' rv where "k < n" "not_found_for srv h k w1 = Some w'"
        "cs_getTransaction srv h w' = (Inr (TxSuccess rv), w2)"
        "iv = \<lparr>iv_hash = h, iv_status = ''SUCCESS'', iv_returnValue = rv\<rparr>" by blast
      with g nf show ?thesis by (intro exI[of _ "Suc k"] conjI exI[of _ w'] exI[of _ rv]) simp_all
    next
      case ok
      with Suc.prems g show ?thesis
        by (intro exI[of _ 0] conjI exI[of _ w] exI[of _ rv]) (simp_all add: io_simps)
    qed
  qed (simp add: io_simps)
qed (auto intro: poll_success)

text \<open>An account value with its five members parses to them.\<close>

lemma parseAccount_struct:
  assumes "val_point K a = Inr A" "val_point K b = Inr B" "val_point K c = Inr C" "val_point K d = Inr D"
  shows "parseAccount K (ScMap [(ScSymbol ''auditor_id'', ScU32 n), (ScSymbol ''receiving_balance'', d),
      (ScSymbol ''spendable_balance'', c), (ScSymbol ''spending_key'', a),
      (ScSymbol ''viewing_public_key'', b)])
    = Inr \<lparr>oc_spendingKey = Some A, oc_viewingPublicKey = Some B, oc_spendableBalance = Some C,
           oc_receivingBalance = Some D, oc_auditorId = Some n\<rparr>"
  using assms by (simp add: parseAccount_def account_field_def empty_account_def)

end
