(* ===== verification/State.thy ===== *)
theory State
  imports Field Json
begin

text \<open>
  \<^verbatim>\<open>state/types.ts\<close>, \<^verbatim>\<open>state/store.ts\<close>, \<^verbatim>\<open>state/browser-store.ts\<close> and
  \<^verbatim>\<open>state/json-store.ts\<close>: the reconstructed account state, its JSON form, and three stores. The
  locale \<^verbatim>\<open>state_store\<close> is what the engine relies on; each store interprets it. The texts in
  \<^verbatim>\<open>localStorage\<close> and in the file are modelled as texts: what is read back went through
  \<^const>\<open>stringify\<close> and \<^const>\<open>JSON_parse\<close>.
\<close>

section \<open>Account state\<close>

record Opening =
  op_v :: int
  op_r :: int

record accountState =
  st_address :: string
  st_spendable :: Opening
  st_receiving :: Opening
  st_registered :: bool
  st_cursor :: "string option"
  st_syncedLedger :: int
  st_optimistic :: "string list option"

definition zero_opening :: Opening where
  "zero_opening = \<lparr>op_v = 0, op_r = 0\<rparr>"

definition freshState :: "string \<Rightarrow> accountState" where
  "freshState address = \<lparr>st_address = address, st_spendable = zero_opening, st_receiving = zero_opening,
     st_registered = False, st_cursor = None, st_syncedLedger = 0, st_optimistic = None\<rparr>"

definition cloneState :: "accountState \<Rightarrow> accountState" where
  "cloneState s = \<lparr>st_address = st_address s,
     st_spendable = \<lparr>op_v = op_v (st_spendable s), op_r = op_r (st_spendable s)\<rparr>,
     st_receiving = \<lparr>op_v = op_v (st_receiving s), op_r = op_r (st_receiving s)\<rparr>,
     st_registered = st_registered s, st_cursor = st_cursor s, st_syncedLedger = st_syncedLedger s,
     st_optimistic = (case st_optimistic s of Some hs \<Rightarrow> Some hs | None \<Rightarrow> None)\<rparr>"

lemma cloneState_id [simp]: "cloneState s = s"
  by (cases s) (simp add: cloneState_def split: option.splits)

section \<open>The JSON form\<close>

definition bigintReplacer :: "int \<Rightarrow> json" where
  "bigintReplacer v = JStr (''0x'' @ toString16 v)"

definition openingJson :: "Opening \<Rightarrow> json" where
  "openingJson x = JObj [(''v'', bigintReplacer (op_v x)), (''r'', bigintReplacer (op_r x))]"

definition stateJson :: "accountState \<Rightarrow> json" where
  "stateJson s = JObj ([(''address'', JStr (st_address s)), (''spendable'', openingJson (st_spendable s)),
       (''receiving'', openingJson (st_receiving s)), (''registered'', JBool (st_registered s))]
     @ opt_member ''cursor'' (map_option JStr (st_cursor s))
     @ [(''syncedLedger'', JNum (st_syncedLedger s))]
     @ opt_member ''optimisticTxHashes'' (map_option (\<lambda>hs. JArr (map JStr hs)) (st_optimistic s)))"

text \<open>
  Reading the form back. The casts of the source convert nothing, so a member of another JSON type
  than the cast names is refused here.
\<close>

fun as_str :: "json option \<Rightarrow> string res" where
  "as_str (Some (JStr s)) = Inr s"
| "as_str _ = Inl (TypeError ''string'')"

fun as_bool :: "json option \<Rightarrow> bool res" where
  "as_bool (Some (JBool b)) = Inr b"
| "as_bool _ = Inl (TypeError ''boolean'')"

fun as_num :: "json option \<Rightarrow> int res" where
  "as_num (Some (JNum n)) = Inr n"
| "as_num _ = Inl (TypeError ''number'')"

fun as_opt_str :: "json option \<Rightarrow> string option res" where
  "as_opt_str None = Inr None"
| "as_opt_str v = rmap Some (as_str v)"

definition reviveOpening :: "json option \<Rightarrow> Opening res" where
  "reviveOpening o1 = (case o1 of None \<Rightarrow> Inl (TypeError ''undefined'')
     | Some j \<Rightarrow> rbind (rbind (as_str (obj_get j ''v'')) BigInt_of) (\<lambda>v.
         rmap (\<lambda>r. \<lparr>op_v = v, op_r = r\<rparr>) (rbind (as_str (obj_get j ''r'')) BigInt_of)))"

definition reviveHashes :: "json option \<Rightarrow> string list option res" where
  "reviveHashes v = (case v of Some (JArr xs) \<Rightarrow> rmap Some (traverse (\<lambda>x. as_str (Some x)) xs)
     | _ \<Rightarrow> Inr None)"

definition reviveState :: "json \<Rightarrow> accountState res" where
  "reviveState raw =
     rbind (as_str (obj_get raw ''address'')) (\<lambda>a.
     rbind (reviveOpening (obj_get raw ''spendable'')) (\<lambda>sp.
     rbind (reviveOpening (obj_get raw ''receiving'')) (\<lambda>rc.
     rbind (as_bool (obj_get raw ''registered'')) (\<lambda>reg.
     rbind (as_opt_str (obj_get raw ''cursor'')) (\<lambda>cur.
     rbind (as_num (obj_get raw ''syncedLedger'')) (\<lambda>l.
     rmap (\<lambda>hs. \<lparr>st_address = a, st_spendable = sp, st_receiving = rc, st_registered = reg,
            st_cursor = cur, st_syncedLedger = l, st_optimistic = hs\<rparr>)
       (reviveHashes (obj_get raw ''optimisticTxHashes''))))))))"

section \<open>Stores\<close>

record 's stateStore =
  ss_load :: "string \<Rightarrow> 's \<Rightarrow> accountState option res \<times> 's"
  ss_save :: "accountState \<Rightarrow> 's \<Rightarrow> unit res \<times> 's"

text \<open>The map from addresses to states in memory.\<close>

definition MemoryStore :: "(string \<times> accountState) list stateStore" where
  "MemoryStore = \<lparr>ss_load = (\<lambda>a s. (Inr (map_option cloneState (map_of s a)), s)),
     ss_save = (\<lambda>st s. (Inr (), put (st_address st) (cloneState st) s))\<rparr>"

text \<open>\<^verbatim>\<open>localStorage\<close>: texts by key, or \<^const>\<open>None\<close> where the global does not exist.\<close>

definition LocalStorageStore :: "string \<Rightarrow> (string \<times> string) list option stateStore" where
  "LocalStorageStore prefix =
    \<lparr>ss_load = (\<lambda>a s. (case s of None \<Rightarrow> Inr None
        | Some items \<Rightarrow> (case map_of items (prefix @ a) of None \<Rightarrow> Inr None
            | Some raw \<Rightarrow> if raw = [] then Inr None else
                (case JSON_parse raw of None \<Rightarrow> Inl (SyntaxError raw)
                 | Some j \<Rightarrow> rmap Some (reviveState j))), s)),
     ss_save = (\<lambda>st s. (Inr (), map_option (put (prefix @ st_address st) (stringify [] [] (stateJson st))) s))\<rparr>"

text \<open>The text of a file, or \<^const>\<open>None\<close> where it does not exist.\<close>

definition readAll :: "string option \<Rightarrow> json res" where
  "readAll f = (case f of None \<Rightarrow> Inr (JObj [])
     | Some text \<Rightarrow> (case JSON_parse text of None \<Rightarrow> Inl (SyntaxError text) | Some j \<Rightarrow> Inr j))"

definition js_truthy :: "json option \<Rightarrow> bool" where
  "js_truthy v \<longleftrightarrow> v \<notin> {None, Some JNull, Some (JBool False), Some (JNum 0), Some (JStr [])}"

definition JsonFileStore :: "string option stateStore" where
  "JsonFileStore =
    \<lparr>ss_load = (\<lambda>a f. (rbind (readAll f) (\<lambda>all1.
        let raw = obj_get all1 a in
        if js_truthy raw then rmap Some (reviveState (the raw)) else Inr None), f)),
     ss_save = (\<lambda>st f. (case readAll f of Inl e \<Rightarrow> (Inl e, f)
        | Inr (JObj kvs) \<Rightarrow> (Inr (), Some (stringify ''  '' [] (JObj (put (st_address st) (stateJson st) kvs))))
        | Inr _ \<Rightarrow> (Inl (TypeError ''not an object''), f)))\<rparr>"

section \<open>What the engine relies on\<close>

text \<open>
  In a good store a save succeeds, keeps the store good, makes the saved state the one loaded for
  its address, and leaves other addresses alone; a load changes nothing.
\<close>

locale state_store =
  fixes store :: "'s stateStore"
    and good :: "'s \<Rightarrow> bool"
    and savable :: "accountState \<Rightarrow> bool"
  assumes load_keeps: "snd (ss_load store a s) = s"
    and save_ok: "good s \<Longrightarrow> savable st \<Longrightarrow> \<exists>s'. ss_save store st s = (Inr (), s') \<and> good s'
       \<and> fst (ss_load store (st_address st) s') = Inr (Some st)"
    and save_other: "good s \<Longrightarrow> savable st \<Longrightarrow> a \<noteq> st_address st
       \<Longrightarrow> fst (ss_load store a (snd (ss_save store st s))) = fst (ss_load store a s)"
begin

lemma load_after_save:
  assumes "good s" "savable st" "ss_save store st s = (r, s')"
  shows "r = Inr ()" and "good s'" and "ss_load store (st_address st) s' = (Inr (Some st), s')"
  using save_ok[OF assms(1,2)] assms(3) load_keeps[of "st_address st" s'] by (auto intro: prod_eqI)

lemma save_twice:
  assumes "good s" "savable st" "savable st'" "st_address st' = st_address st"
    and "ss_save store st s = (r, s1)" "ss_save store st' s1 = (r', s2)"
  shows "ss_load store (st_address st) s2 = (Inr (Some st'), s2)"
  using load_after_save(3)[OF load_after_save(2)[OF assms(1,2,5)] assms(3,6)] assms(4) by simp

end

text \<open>A state whose numbers the JSON form can carry: a negative number has no literal.\<close>

definition nonneg_opening :: "Opening \<Rightarrow> bool" where
  "nonneg_opening x \<longleftrightarrow> 0 \<le> op_v x \<and> 0 \<le> op_r x"

definition storable :: "accountState \<Rightarrow> bool" where
  "storable s \<longleftrightarrow> nonneg_opening (st_spendable s) \<and> nonneg_opening (st_receiving s)"

lemma reviveOpening_json:
  "nonneg_opening x \<Longrightarrow> reviveOpening (Some (openingJson x)) = Inr x"
  by (simp add: nonneg_opening_def reviveOpening_def openingJson_def bigintReplacer_def BigInt_of_def
      toString16_def parse_bigint_hex0[unfolded append_Cons append_Nil])

lemma reviveState_stateJson:
  assumes "storable s"
  shows "reviveState (stateJson s) = Inr s"
proof -
  have "traverse (\<lambda>x. as_str (Some x)) (map JStr hs) = Inr hs" for hs
    by (induction hs) simp_all
  then show ?thesis using assms
    by (cases "st_cursor s"; cases "st_optimistic s")
       (simp_all add: reviveState_def stateJson_def storable_def reviveOpening_json reviveHashes_def)
qed

lemma stateJson_wf: "json_wf (stateJson s)"
  by (cases "st_cursor s"; cases "st_optimistic s")
     (simp_all add: stateJson_def openingJson_def bigintReplacer_def list_all_iff)

lemma parse_bigint_negative_hex: "parse_bigint (''0x-'' @ digits_of 16 n) = None"
proof -
  have "trim (''0x-'' @ digits_of 16 n) = ''0x-'' @ digits_of 16 n"
    by (rule trim_id) simp_all
  then show ?thesis
    by (simp add: parse_bigint_def startsWith_def digits_value_def hex_val_def)
qed

lemma negative_not_revived:
  assumes "op_v x < 0"
  shows "\<exists>e. reviveOpening (Some (openingJson x)) = Inl e"
  using assms parse_bigint_negative_hex[of "nat (- op_v x)"]
  by (simp add: reviveOpening_def openingJson_def bigintReplacer_def BigInt_of_def toString16_def)

section \<open>The stores keep what the engine relies on\<close>

lemma MemoryStore_sel [simp]:
  "ss_load MemoryStore a s = (Inr (map_of s a), s)"
  "ss_save MemoryStore st s = (Inr (), put (st_address st) st s)"
  by (simp_all add: MemoryStore_def option.map_ident cong: option.map_cong)

interpretation memory_store: state_store MemoryStore "\<lambda>s. True" "\<lambda>st. True"
  by unfold_locales (simp_all add: map_of_put)

interpretation local_storage: state_store "LocalStorageStore prefix" "\<lambda>s. s \<noteq> None" storable for prefix
proof unfold_locales
  fix s st and a :: string
  show "snd (ss_load (LocalStorageStore prefix) a s) = s"
    by (simp add: LocalStorageStore_def)
  assume s: "s \<noteq> None" and st: "storable st"
  have "stringify [] [] (stateJson st) \<noteq> []" using stringify_starts[of "[]" "[]" "stateJson st"] by auto
  moreover have "JSON_parse (stringify [] [] (stateJson st)) = Some (stateJson st)"
    by (rule JSON_parse_stringify[OF stateJson_wf]) simp_all
  ultimately show "\<exists>s'. ss_save (LocalStorageStore prefix) st s = (Inr (), s') \<and> s' \<noteq> None
      \<and> fst (ss_load (LocalStorageStore prefix) (st_address st) s') = Inr (Some st)"
    using s reviveState_stateJson[OF st] by (auto simp: LocalStorageStore_def map_of_put)
  assume "a \<noteq> st_address st"
  with s show "fst (ss_load (LocalStorageStore prefix) a (snd (ss_save (LocalStorageStore prefix) st s)))
      = fst (ss_load (LocalStorageStore prefix) a s)"
    by (auto simp: LocalStorageStore_def map_of_put)
qed

text \<open>A file the client wrote, or none.\<close>

definition good_file :: "string option \<Rightarrow> bool" where
  "good_file f \<longleftrightarrow> (\<exists>kvs. readAll f = Inr (JObj kvs) \<and> json_wf (JObj kvs))"

lemma json_wf_put:
  assumes "json_wf (JObj kvs)" and "json_wf v"
  shows "json_wf (JObj (put k v kvs))"
proof -
  have "(a, b) \<in> set (put k v kvs) \<Longrightarrow> (a, b) = (k, v) \<or> (a, b) \<in> set kvs" for a b
    by (induction kvs) (auto split: if_splits)
  with assms show ?thesis by (fastforce simp: list_all_iff distinct_put)
qed

lemma saved_file:
  assumes "readAll f = Inr (JObj kvs)" and "json_wf (JObj kvs)"
  shows "readAll (snd (ss_save JsonFileStore st f)) = Inr (JObj (put (st_address st) (stateJson st) kvs))"
    and "fst (ss_save JsonFileStore st f) = Inr ()"
  using assms JSON_parse_stringify[OF json_wf_put[OF assms(2) stateJson_wf], of "''  ''" "[]"]
  by (simp_all add: JsonFileStore_def readAll_def)

lemma stateJson_truthy: "js_truthy (Some (stateJson st))"
  by (simp add: js_truthy_def stateJson_def)

interpretation json_file: state_store JsonFileStore good_file storable
proof unfold_locales
  fix f st and a :: string
  show "snd (ss_load JsonFileStore a f) = f" by (simp add: JsonFileStore_def)
  assume f: "good_file f" and st: "storable st"
  then obtain kvs where kvs: "readAll f = Inr (JObj kvs)" "json_wf (JObj kvs)"
    by (auto simp: good_file_def)
  let ?f = "snd (ss_save JsonFileStore st f)"
  have "good_file ?f" unfolding good_file_def
    using saved_file(1)[OF kvs] json_wf_put[OF kvs(2) stateJson_wf] by blast
  moreover have "fst (ss_load JsonFileStore (st_address st) ?f) = Inr (Some st)"
    using saved_file(1)[OF kvs, of st] reviveState_stateJson[OF st] stateJson_truthy[of st]
    by (simp add: JsonFileStore_def[THEN arg_cong[of _ _ ss_load]] map_of_put)
  moreover have "ss_save JsonFileStore st f = (Inr (), ?f)"
    using saved_file(2)[OF kvs, of st] by (simp add: prod_eq_iff)
  ultimately show "\<exists>s'. ss_save JsonFileStore st f = (Inr (), s') \<and> good_file s'
      \<and> fst (ss_load JsonFileStore (st_address st) s') = Inr (Some st)" by blast
  assume "a \<noteq> st_address st"
  with kvs(1) saved_file(1)[OF kvs, of st]
  show "fst (ss_load JsonFileStore a ?f) = fst (ss_load JsonFileStore a f)"
    by (simp add: JsonFileStore_def[THEN arg_cong[of _ _ ss_load]] map_of_put)
qed

end
