(* ===== verification/Builders.thy ===== *)
theory Builders
  imports Witness
begin

text \<open>
  The properties of the builders, and one concrete account, auditor and pair of operations, over the
  group of \<^const>\<open>residue_prims\<close> and a constant permutation: the properties of this and the
  following theories are applied to them, which shows that their hypotheses can hold together.
\<close>

section \<open>Computing with residues\<close>

lemma res_of_eq_iff: "res_of x = res_of y \<longleftrightarrow> x mod FP_MODULUS = y mod FP_MODULUS"
  by transfer simp

lemma res_mul_of [simp]: "res_mul a (res_of x) = res_of (a * x)"
  by transfer (simp add: mod_mult_right_eq)

lemma res_add_of [simp]: "res_add (res_of x) (res_of y) = res_of (x + y)"
  by transfer (simp add: mod_add_eq)

lemma res_affine_of: "res_affine (res_of x) = (x mod FP_MODULUS mod FR_MODULUS, x mod FP_MODULUS div FR_MODULUS)"
  by transfer simp

section \<open>The account\<close>

definition demo :: "residue prims" where
  "demo = residue_prims (\<lambda>_. [7, 11, 0, 0])"

lemma demo_sel [simp]:
  "multiply demo = res_mul" "padd demo = res_add" "pzero demo = res_of 0" "is0 demo P \<longleftrightarrow> P = res_of 0"
  "pequals demo P Q \<longleftrightarrow> P = Q" "toAffine demo = res_affine" "permute demo = (\<lambda>_. [7, 11, 0, 0])"
  by (simp_all add: demo_def)

lemma demo_laws [simp]: "curve_laws demo"
  unfolding demo_def by (rule residue_curve_laws)

lemma demo_H [simp]: "H demo = res_of 1"
  by (simp add: H_def demo_def residue_fromAffine)

lemma demo_G [simp]: "G demo = res_of 3"
  by (simp add: G_def demo_def residue_prims_def)

definition demo_keys :: "residue keyPair" where
  "demo_keys = deriveKeys demo 5 9"

definition demo_auditor :: residue where
  "demo_auditor = scalarMul demo 13 (H demo)"

definition demo_withdraw :: "residue withdrawParams" where
  "demo_withdraw = \<lparr>wp_keys = demo_keys, wp_v = 100, wp_r = 4, wp_amount = 30, wp_kAudS = demo_auditor,
     wp_sigma = Some 2, wp_rE = Some 6\<rparr>"

definition demo_transfer :: "residue transferParams" where
  "demo_transfer = \<lparr>tp_keys = demo_keys, tp_v = 100, tp_r = 4, tp_amount = 30, tp_pvkB = k_PVK demo_keys,
     tp_kAudR = demo_auditor, tp_kAudS = demo_auditor, tp_sigma = Some 2, tp_rE = Some 6\<rparr>"

lemma sponge_demo: "sponge (\<lambda>_. [7, 11, 0, 0]) [a, b, c] = 7"
  by (simp add: sponge_def)

lemmas demo_eval = scalarMul_mod ecdh_def commit_def res_of_eq_iff res_affine_of Let_def
  FP_MODULUS_def FR_MODULUS_def deriveKeys_def vkFromSk_def poseidonWithDomain_def sponge_demo
  spongeSqueeze2_def

lemma demo_keys_sel [simp]: "key_set demo demo_keys" "k_vk demo_keys = 7" "k_sk demo_keys = 5"
    "k_Y demo_keys = res_of 5" "k_PVK demo_keys = res_of 7" "k_addrF demo_keys = 9"
  by (simp add: demo_keys_def) (simp_all add: demo_keys_def demo_eval)

lemma demo_auditor_eq: "demo_auditor = res_of 13"
  by (simp add: demo_auditor_def demo_eval)

lemma demo_ecdh: "ecdh demo 6 (res_of 7) = Inr 42" "ecdh demo 6 (res_of 13) = Inr 78"
  by (simp_all add: demo_eval)

lemma demo_withdraw_built: "\<exists>w. buildWithdrawWitness demo demo_withdraw 0 0 = Inr w"
  by (simp add: buildWithdrawWitness_def demo_withdraw_def Let_def demo_auditor_eq demo_ecdh)

lemma demo_transfer_built: "\<exists>w. buildTransferWitness demo demo_transfer 0 = Inr w"
  by (simp add: buildTransferWitness_def demo_transfer_def Let_def demo_auditor_eq demo_ecdh)

definition demo_withdrawn :: "residue withdrawWitness" where
  "demo_withdrawn = catch (buildWithdrawWitness demo demo_withdraw 0 0) undefined"

definition demo_transferred :: "residue transferWitness" where
  "demo_transferred = catch (buildTransferWitness demo demo_transfer 0) undefined"

lemma demo_withdrawn: "buildWithdrawWitness demo demo_withdraw 0 0 = Inr demo_withdrawn"
  using demo_withdraw_built by (auto simp: demo_withdrawn_def)

lemma demo_transferred: "buildTransferWitness demo demo_transfer 0 = Inr demo_transferred"
  using demo_transfer_built by (auto simp: demo_transferred_def)

section \<open>Properties\<close>

text \<open>
  A transfer's witness is built exactly when the amount is between zero and the balance and none
  of the three key agreements meets the identity; a negative amount and one above the balance are
  refused before any key is used. The circuit inputs of a built witness have distinct names.
\<close>

theorem transfer_builds_iff:
  assumes "transfer_rE K p fs = Inr rE"
  shows "((\<exists>w. buildTransferWitness K p fs = Inr w \<and> distinct (map fst (tw_inputs w)) \<and> tw_rEScalar w = rE)
      \<longleftrightarrow> 0 \<le> tp_amount p \<and> tp_amount p \<le> tp_v p \<and> \<not> is0 K (scalarMul K rE (tp_pvkB p))
        \<and> \<not> is0 K (scalarMul K rE (tp_kAudR p)) \<and> \<not> is0 K (scalarMul K rE (tp_kAudS p)))
    \<and> (buildTransferWitness K p fs = Inl NegativeAmount \<longleftrightarrow> tp_amount p < 0)
    \<and> (buildTransferWitness K p fs = Inl ExceedsBalance \<longleftrightarrow> 0 \<le> tp_amount p \<and> tp_v p < tp_amount p)"
  using assms by (auto simp: buildTransferWitness_def transfer_rE_def ecdh_def Let_def)

theorem transfer_builds_iff_witness:
  "\<exists>w. buildTransferWitness demo demo_transfer 0 = Inr w \<and> distinct (map fst (tw_inputs w))"
  using transfer_builds_iff[of demo demo_transfer 0 6]
  by (auto simp: transfer_rE_def demo_transfer_def demo_auditor_eq demo_eval)

text \<open>
  The same for a withdrawal, whose only key agreement is with the sender's auditor.
\<close>

theorem withdraw_builds_iff:
  "((\<exists>w. buildWithdrawWitness K p fs fr = Inr w \<and> distinct (map fst (ww_inputs w))
        \<and> n_v (ww_next w) = wp_v p - wp_amount p)
      \<longleftrightarrow> 0 \<le> wp_amount p \<and> wp_amount p \<le> wp_v p \<and> \<not> is0 K (scalarMul K (given (wp_rE p) fr) (wp_kAudS p)))
    \<and> (buildWithdrawWitness K p fs fr = Inl NegativeAmount \<longleftrightarrow> wp_amount p < 0)
    \<and> (buildWithdrawWitness K p fs fr = Inl ExceedsBalance \<longleftrightarrow> 0 \<le> wp_amount p \<and> wp_v p < wp_amount p)"
  by (auto simp: buildWithdrawWitness_def ecdh_def Let_def)

end
