(* ===== verification/Engine.thy ===== *)
theory Engine
  imports EventSource ChainClient State Builders
begin

text \<open>
  \<^verbatim>\<open>state/engine.ts\<close>: the replay of the event stream into an account's openings, the
  optimistic updates, and the verification against the commitments on chain. The world is a pair of
  the store's state and the network's; the waits and the trace calls change neither. The polling of
  a transaction's status is \<^verbatim>\<open>waitForTransactionStatus\<close> of \<^verbatim>\<open>lib/contracts.ts\<close>.
\<close>

section \<open>The engine and its world\<close>

record ('p, 's, 'n) engine =
  en_K :: "'p prims"
  en_client :: "'n chainClient"
  en_store :: "'s stateStore"
  en_keys :: "'p keyPair"
  en_address :: string
  en_fromLedger :: int
  en_indexer :: "'n historyIndexer option"
  en_txStatus :: "string \<Rightarrow> string \<Rightarrow> 'n \<Rightarrow> string option httpResponse res \<times> 'n"

definition net_io :: "('n, 'a) io \<Rightarrow> ('s \<times> 'n, 'a) io" where
  "net_io m = (\<lambda>(s, n). case m n of None \<Rightarrow> None | Some (r, n') \<Rightarrow> Some (r, (s, n')))"

definition store_io :: "('s \<Rightarrow> 'a res \<times> 's) \<Rightarrow> ('s \<times> 'n, 'a) io" where
  "store_io f = (\<lambda>(s, n). case f s of (r, s') \<Rightarrow> Some (r, (s', n)))"

lemma net_io_apply [io_simps]:
  "net_io m (s, n) = (case m n of None \<Rightarrow> None | Some (r, n') \<Rightarrow> Some (r, (s, n')))"
  by (simp add: net_io_def)

lemma store_io_apply [io_simps]: "store_io f (s, n) = (case f s of (r, s') \<Rightarrow> Some (r, (s', n)))"
  by (simp add: store_io_def)

section \<open>Decryption\<close>

definition decryptIncoming :: "'p prims \<Rightarrow> 'p keyPair \<Rightarrow> 'p \<Rightarrow> int \<Rightarrow> int \<Rightarrow> (int \<times> int) res" where
  "decryptIncoming K keys rE vTilde sigma =
     rmap (\<lambda>s. (frMod (vTilde - poseidonWithDomain (permute K) TX_AMOUNT [s, sigma]),
                deriveTxBlind (permute K) s sigma))
       (ecdh K (k_vk keys) rE)"

definition openSpendable :: "'p prims \<Rightarrow> 'p keyPair \<Rightarrow> int \<Rightarrow> int \<Rightarrow> Opening" where
  "openSpendable K keys bTilde sigma =
     \<lparr>op_v = frMod (bTilde - poseidonWithDomain (permute K) ENCRYPTED_BALANCE [k_vk keys, sigma]),
      op_r = deriveSpendR (permute K) (k_vk keys) sigma\<rparr>"

section \<open>Replay\<close>

definition is_optimistic :: "accountState \<Rightarrow> string \<Rightarrow> bool" where
  "is_optimistic state h \<longleftrightarrow> (case st_optimistic state of None \<Rightarrow> False | Some hs \<Rightarrow> h \<in> set hs)"

definition merged :: "accountState \<Rightarrow> accountState" where
  "merged state = state\<lparr>
     st_spendable := \<lparr>op_v = op_v (st_spendable state) + op_v (st_receiving state),
                      op_r = frAdd (op_r (st_spendable state)) (op_r (st_receiving state))\<rparr>,
     st_receiving := zero_opening\<rparr>"

definition credited :: "int \<Rightarrow> int \<Rightarrow> accountState \<Rightarrow> accountState" where
  "credited v r state = state\<lparr>st_receiving :=
     \<lparr>op_v = op_v (st_receiving state) + v, op_r = frAdd (op_r (st_receiving state)) r\<rparr>\<rparr>"

fun apply_body :: "'p prims \<Rightarrow> 'p keyPair \<Rightarrow> accountState \<Rightarrow> 'p eventBody \<Rightarrow> accountState res" where
  "apply_body K keys state (RegisterEvent a u) =
     Inr (if a = st_address state then state\<lparr>st_registered := True\<rparr> else state)"
| "apply_body K keys state (DepositEvent f t amount) =
     Inr (if t = st_address state
          then state\<lparr>st_receiving := (st_receiving state)\<lparr>op_v := op_v (st_receiving state) + amount\<rparr>\<rparr>
          else state)"
| "apply_body K keys state (MergeEvent a) =
     Inr (if a = st_address state then merged state else state)"
| "apply_body K keys state (WithdrawEvent f t amount rE sigma bTilde bAudS) =
     Inr (if f = st_address state then state\<lparr>st_spendable := openSpendable K keys bTilde sigma\<rparr> else state)"
| "apply_body K keys state (TransferEvent f t rE vTilde sigma bTilde vAudR rAudR vAudS bAudS) =
     (let state1 = (if f = st_address state
          then state\<lparr>st_spendable := openSpendable K keys bTilde sigma\<rparr> else state) in
      if t = st_address state
      then rmap (\<lambda>(vTx, rTx). credited vTx rTx state1) (decryptIncoming K keys rE vTilde sigma)
      else Inr state1)"

definition at_ledger :: "int \<Rightarrow> accountState \<Rightarrow> accountState" where
  "at_ledger l state = state\<lparr>st_syncedLedger := max (st_syncedLedger state) l\<rparr>"

definition apply_event ::
  "'p prims \<Rightarrow> 'p keyPair \<Rightarrow> accountState \<Rightarrow> 'p confidentialEvent \<Rightarrow> accountState res" where
  "apply_event K keys state ev =
     (if is_optimistic state (ev_txHash ev) then Inr (at_ledger (ev_ledger ev) state)
      else rmap (at_ledger (ev_ledger ev)) (apply_body K keys state (ev_body ev)))"

fun apply_all ::
  "'p prims \<Rightarrow> 'p keyPair \<Rightarrow> accountState \<Rightarrow> 'p confidentialEvent list \<Rightarrow> accountState res" where
  "apply_all K keys state [] = Inr state"
| "apply_all K keys state (ev # evs) = rbind (apply_event K keys state ev) (\<lambda>s. apply_all K keys s evs)"

section \<open>Synchronising\<close>

definition load_state :: "('p, 's, 'n) engine \<Rightarrow> ('s \<times> 'n, accountState option) io" where
  "load_state E = store_io (ss_load (en_store E) (en_address E))"

definition save_state :: "('p, 's, 'n) engine \<Rightarrow> accountState \<Rightarrow> ('s \<times> 'n, unit) io" where
  "save_state E state = store_io (ss_save (en_store E) state)"

definition current :: "('p, 's, 'n) engine \<Rightarrow> ('s \<times> 'n, accountState) io" where
  "current E = io_bind (load_state E) (\<lambda>prior. io_return (given prior (freshState (en_address E))))"

definition replay_from ::
  "('p, 's, 'n) engine \<Rightarrow> accountState \<Rightarrow> string option \<Rightarrow> ('s \<times> 'n, accountState) io" where
  "replay_from E state startCursor =
     io_bind (net_io (hybridFetchEvents (en_K E) (cs_rpc (cc_server (en_client E))) (en_indexer E)
         (c_token (cc_contracts (en_client E))) (en_fromLedger E) startCursor)) (\<lambda>res.
     io_bind (io_res (apply_all (en_K E) (en_keys E) state (fr_events res))) (\<lambda>state1.
     let state2 = (if truthy (fr_cursor res) then state1\<lparr>st_cursor := fr_cursor res\<rparr> else state1);
         state3 = at_ledger (fr_latestLedger res) state2
     in io_bind (save_state E state3) (\<lambda>u. io_return state3)))"

definition sync :: "('p, 's, 'n) engine \<Rightarrow> ('s \<times> 'n, accountState) io" where
  "sync E = io_bind (load_state E) (\<lambda>prior.
     let state = given prior (freshState (en_address E)) in replay_from E state (st_cursor state))"

definition rebuildFromEvents :: "('p, 's, 'n) engine \<Rightarrow> ('s \<times> 'n, accountState) io" where
  "rebuildFromEvents E = replay_from E (freshState (en_address E)) None"

definition setSpendable :: "('p, 's, 'n) engine \<Rightarrow> Opening \<Rightarrow> ('s \<times> 'n, accountState) io" where
  "setSpendable E next1 = io_bind (current E) (\<lambda>state.
     let state1 = state\<lparr>st_spendable := next1\<rparr> in io_bind (save_state E state1) (\<lambda>u. io_return state1))"

section \<open>Verification against the chain\<close>

record verified =
  vf_ok :: bool
  vf_spendableOk :: bool
  vf_receivingOk :: bool

definition equals_member :: "'p prims \<Rightarrow> 'p \<Rightarrow> 'p option \<Rightarrow> bool res" where
  "equals_member K p q = (case q of None \<Rightarrow> Inl (TypeError ''undefined'') | Some x \<Rightarrow> Inr (pequals K p x))"

definition verifyAgainstChain :: "('p, 's, 'n) engine \<Rightarrow> ('s \<times> 'n, verified) io" where
  "verifyAgainstChain E = io_bind (current E) (\<lambda>state.
     io_bind (net_io (confidentialBalance (en_K E) (en_client E) (en_address E))) (\<lambda>onchain.
     case onchain of None \<Rightarrow> io_return \<lparr>vf_ok = False, vf_spendableOk = False, vf_receivingOk = False\<rparr>
     | Some acc \<Rightarrow>
       io_bind (io_res (equals_member (en_K E)
           (commit (en_K E) (op_v (st_spendable state)) (op_r (st_spendable state)))
           (oc_spendableBalance acc))) (\<lambda>sOk.
       io_bind (io_res (equals_member (en_K E)
           (commit (en_K E) (op_v (st_receiving state)) (op_r (st_receiving state)))
           (oc_receivingBalance acc))) (\<lambda>rOk.
       io_return \<lparr>vf_ok = sOk \<and> rOk, vf_spendableOk = sOk, vf_receivingOk = rOk\<rparr>))))"

section \<open>Optimistic updates\<close>

definition mark :: "string option \<Rightarrow> accountState \<Rightarrow> accountState" where
  "mark txHash state = (if truthy txHash
     then state\<lparr>st_optimistic := Some (uniq (given (st_optimistic state) [] @ [the txHash]))\<rparr> else state)"

definition creditReceiving ::
  "('p, 's, 'n) engine \<Rightarrow> int \<Rightarrow> string option \<Rightarrow> ('s \<times> 'n, accountState) io" where
  "creditReceiving E amount txHash = io_bind (current E) (\<lambda>state.
     let state1 = mark txHash (state\<lparr>st_receiving :=
           \<lparr>op_v = op_v (st_receiving state) + amount, op_r = op_r (st_receiving state)\<rparr>\<rparr>)
     in io_bind (save_state E state1) (\<lambda>u. io_return state1))"

definition applyMergeLocal :: "('p, 's, 'n) engine \<Rightarrow> string option \<Rightarrow> ('s \<times> 'n, accountState) io" where
  "applyMergeLocal E txHash = io_bind (current E) (\<lambda>state.
     let state1 = mark txHash (merged state)
     in io_bind (save_state E state1) (\<lambda>u. io_return state1))"

definition clearOptimisticMarkersIfVerified ::
  "('p, 's, 'n) engine \<Rightarrow> verified \<Rightarrow> ('s \<times> 'n, unit) io" where
  "clearOptimisticMarkersIfVerified E v = (if \<not> vf_ok v then io_return ()
     else io_bind (current E) (\<lambda>state.
       if given (st_optimistic state) [] = [] then io_return ()
       else save_state E (state\<lparr>st_optimistic := None\<rparr>)))"

section \<open>Waiting\<close>

definition fetchTransactionStatus ::
  "(string \<Rightarrow> string \<Rightarrow> 'n \<Rightarrow> string option httpResponse res \<times> 'n) \<Rightarrow> string \<Rightarrow> string \<Rightarrow> ('n, string) io" where
  "fetchTransactionStatus post rpcUrl hash1 =
     io_bind (io_call (post rpcUrl hash1)) (\<lambda>resp.
       if \<not> http_ok resp then io_return ''NOT_FOUND''
       else io_bind (io_res (http_json resp)) (\<lambda>status. io_return (given status ''NOT_FOUND'')))"

text \<open>The loop of \<^verbatim>\<open>waitForTransactionStatus\<close>; its default is 45 attempts.\<close>

fun waitForTransactionStatus ::
  "(string \<Rightarrow> string \<Rightarrow> 'n \<Rightarrow> string option httpResponse res \<times> 'n) \<Rightarrow> string \<Rightarrow> string \<Rightarrow> nat \<Rightarrow> ('n, unit) io" where
  "waitForTransactionStatus post rpcUrl hash1 0 = io_throw (ConfirmationTimeout ''transaction'' hash1)"
| "waitForTransactionStatus post rpcUrl hash1 (Suc n) =
     io_bind (fetchTransactionStatus post rpcUrl hash1) (\<lambda>status.
       if status = ''SUCCESS'' then io_return ()
       else if status = ''FAILED'' then io_throw (FailedOnChain ''transaction'' hash1)
       else waitForTransactionStatus post rpcUrl hash1 n)"

record waitOptions =
  wo_afterTxHash :: "string option"
  wo_rpcUrl :: "string option"
  wo_maxAttempts :: "int option"
  wo_requireSpendable :: bool
  wo_requireReceiving :: bool
  wo_skipSync :: bool
  wo_allowRebuild :: "bool option"

definition no_options :: waitOptions where
  "no_options = \<lparr>wo_afterTxHash = None, wo_rpcUrl = None, wo_maxAttempts = None, wo_requireSpendable = False,
     wo_requireReceiving = False, wo_skipSync = False, wo_allowRebuild = None\<rparr>"

definition meets :: "waitOptions \<Rightarrow> verified \<Rightarrow> bool" where
  "meets opts v = (if wo_requireReceiving opts \<or> wo_requireSpendable opts
     then (\<not> wo_requireReceiving opts \<or> vf_receivingOk v) \<and> (\<not> wo_requireSpendable opts \<or> vf_spendableOk v)
     else vf_ok v)"

definition refresh :: "('p, 's, 'n) engine \<Rightarrow> waitOptions \<Rightarrow> ('s \<times> 'n, accountState) io" where
  "refresh E opts = (if wo_skipSync opts then current E else sync E)"

text \<open>The attempts of the loop; \<^const>\<open>None\<close> when none of them met the requirement.\<close>

fun verify_attempts ::
  "('p, 's, 'n) engine \<Rightarrow> waitOptions \<Rightarrow> nat \<Rightarrow> accountState \<Rightarrow> ('s \<times> 'n, accountState option) io" where
  "verify_attempts E opts 0 state = io_return None"
| "verify_attempts E opts (Suc n) state =
     io_bind (verifyAgainstChain E) (\<lambda>v.
       if meets opts v then io_return (Some state)
       else if n = 0 then io_return None
       else io_bind (refresh E opts) (verify_attempts E opts n))"

definition waitUntilVerified :: "('p, 's, 'n) engine \<Rightarrow> waitOptions \<Rightarrow> ('s \<times> 'n, accountState) io" where
  "waitUntilVerified E opts =
     io_bind (current E) (\<lambda>prior.
     io_bind (if truthy (wo_afterTxHash opts) \<and> truthy (wo_rpcUrl opts)
        then net_io (waitForTransactionStatus (en_txStatus E) (the (wo_rpcUrl opts)) (the (wo_afterTxHash opts)) 45)
        else io_return ()) (\<lambda>u.
     io_bind (refresh E opts) (\<lambda>state.
     io_bind (verify_attempts E opts (nat (given (wo_maxAttempts opts) 40)) state) (\<lambda>found.
     case found of Some s \<Rightarrow> io_return s
     | None \<Rightarrow>
       if wo_allowRebuild opts = Some False then io_throw SyncTimeout
       else io_bind (rebuildFromEvents E) (\<lambda>rebuilt.
         io_bind (verifyAgainstChain E) (\<lambda>v.
         if meets opts v then io_return rebuilt
         else io_bind (save_state E prior) (\<lambda>u. io_throw SyncTimeout)))))))"

section \<open>Reconciling for a read\<close>

definition tryVerifiedRebuild ::
  "('p, 's, 'n) engine \<Rightarrow> (verified \<Rightarrow> bool) \<Rightarrow> ('s \<times> 'n, (accountState \<times> verified) option) io" where
  "tryVerifiedRebuild E accepts =
     io_bind (current E) (\<lambda>prior.
     io_bind (rebuildFromEvents E) (\<lambda>rebuilt.
     io_bind (verifyAgainstChain E) (\<lambda>v.
     if accepts v
     then io_bind (clearOptimisticMarkersIfVerified E v) (\<lambda>u. io_return (Some (rebuilt, v)))
     else io_bind (save_state E prior) (\<lambda>u. io_return None))))"

text \<open>The three short waits: the last state and verification, or the one that verified.\<close>

fun short_waits ::
  "('p, 's, 'n) engine \<Rightarrow> bool \<Rightarrow> nat \<Rightarrow> verified \<Rightarrow> ('s \<times> 'n, (accountState \<times> verified) option \<times> verified) io" where
  "short_waits E hadOptimistic 0 v = io_return (None, v)"
| "short_waits E hadOptimistic (Suc n) v0 =
     io_bind (if hadOptimistic then current E else sync E) (\<lambda>state.
     io_bind (verifyAgainstChain E) (\<lambda>v.
     if vf_spendableOk v
     then io_bind (clearOptimisticMarkersIfVerified E v) (\<lambda>u. io_return (Some (state, v), v))
     else short_waits E hadOptimistic n v))"

definition reconcileForRead :: "('p, 's, 'n) engine \<Rightarrow> ('s \<times> 'n, accountState \<times> verified) io" where
  "reconcileForRead E =
     io_bind (current E) (\<lambda>prior.
     let hadOptimistic = given (st_optimistic prior) [] \<noteq> [] in
     io_bind (sync E) (\<lambda>state.
     io_bind (verifyAgainstChain E) (\<lambda>v.
     if vf_spendableOk v
     then io_bind (clearOptimisticMarkersIfVerified E v) (\<lambda>u. io_return (state, v))
     else
      io_bind (rebuildFromEvents E) (\<lambda>rebuilt.
      io_bind (verifyAgainstChain E) (\<lambda>rv.
      if vf_spendableOk rv
      then io_bind (clearOptimisticMarkersIfVerified E rv) (\<lambda>u. io_return (rebuilt, rv))
      else
       io_bind (short_waits E hadOptimistic 3 rv) (\<lambda>(found, v3).
       case found of Some sv \<Rightarrow> io_return sv
       | None \<Rightarrow>
         io_bind (if hadOptimistic
           then tryVerifiedRebuild E (\<lambda>v. vf_spendableOk v \<or> vf_receivingOk v) else io_return None)
         (\<lambda>repaired. case repaired of Some sv \<Rightarrow> io_return sv
          | None \<Rightarrow>
            if hadOptimistic then io_bind (save_state E prior) (\<lambda>u. io_return (prior, v3))
            else io_bind (current E) (\<lambda>s. io_return (s, v3)))))))))"

section \<open>Decrypting what the builders encrypted\<close>

lemma decryptIncoming_built:
  assumes "curve_laws K" and "key_set K keys" and "tp_pvkB p = k_PVK keys"
    and "buildTransferWitness K p fs = Inr w" and "tp_amount p < 2 ^ 127"
  shows "decryptIncoming K keys (t_rE (tw_payload w)) (t_vTilde (tw_payload w)) (t_sigma (tw_payload w))
     = Inr (rv_vTx (tw_recipientView w), rv_rTx (tw_recipientView w))"
proof -
  obtain rE sX sArX sAsX where b: "0 \<le> tp_amount p" "ecdh K rE (tp_pvkB p) = Inr sX"
    "tw_payload w = \<lparr>t_cSpendNew = commit K (tp_v p - tp_amount p)
         (deriveSpendR (permute K) (k_vk (tp_keys p)) (given (tp_sigma p) fs)),
       t_cTx = commit K (tp_amount p) (deriveTxBlind (permute K) sX (given (tp_sigma p) fs)),
       t_rE = scalarMul K rE (H K), t_vTilde = encryptAmount (permute K) (tp_amount p) sX (given (tp_sigma p) fs),
       t_bTilde = encryptBalance (permute K) (tp_v p - tp_amount p) (k_vk (tp_keys p)) (given (tp_sigma p) fs),
       t_sigma = given (tp_sigma p) fs,
       t_vAudR = frAdd (tp_amount p) (fst (spongeSqueeze2 (permute K) AUDITOR_RECIPIENT sArX (given (tp_sigma p) fs))),
       t_rAudR = frAdd (deriveTxBlind (permute K) sX (given (tp_sigma p) fs))
         (snd (spongeSqueeze2 (permute K) AUDITOR_RECIPIENT sArX (given (tp_sigma p) fs))),
       t_vAudS = frAdd (tp_amount p) (fst (spongeSqueeze2 (permute K) AUDITOR_SENDER sAsX (given (tp_sigma p) fs))),
       t_bAudS = frAdd (tp_v p - tp_amount p)
         (snd (spongeSqueeze2 (permute K) AUDITOR_SENDER sAsX (given (tp_sigma p) fs)))\<rparr>"
    "tw_recipientView w = \<lparr>rv_vTx = tp_amount p,
       rv_rTx = deriveTxBlind (permute K) sX (given (tp_sigma p) fs),
       rv_cTx = commit K (tp_amount p) (deriveTxBlind (permute K) sX (given (tp_sigma p) fs))\<rparr>"
    by (rule transfer_built[OF assms(4)]) blast
  have "ecdh K (k_vk keys) (scalarMul K rE (H K)) = ecdh K rE (tp_pvkB p)"
    using ecdh_agree[OF assms(1), of "k_vk keys" rE] key_set_PVK[OF assms(2)] assms(3) by simp
  with b(2) have s: "ecdh K (k_vk keys) (scalarMul K rE (H K)) = Inr sX" by simp
  have "decryptWithDomain (permute K) (encryptAmount (permute K) (tp_amount p) sX (given (tp_sigma p) fs))
      TX_AMOUNT sX (given (tp_sigma p) fs) = tp_amount p"
    by (rule amount_channel.open_amount[OF b(1) assms(5)])
  with s show ?thesis by (simp add: b(3,4) decryptIncoming_def decryptWithDomain_def)
qed

end
