(* ===== verification/Replay.thy ===== *)
theory Replay
  imports Engine
begin

text \<open>
  The contract between the event stream and the account on chain, and the refinement: replaying the
  events of an account gives openings of its two commitments, and the plain amounts. The account on
  chain is what the token contract keeps: commitments that deposits, transfers and merges add up
  and that the owner's operations replace. The refinement needs every sum of blinding factors the
  replay forms to stay below the field's modulus; the last section shows the condition is
  exact for a merge.
\<close>

section \<open>The account on chain\<close>

record 'p chainAccount =
  ca_spend :: 'p
  ca_receive :: 'p
  ca_plainSpend :: int
  ca_plainReceive :: int

definition new_account :: "'p prims \<Rightarrow> 'p chainAccount" where
  "new_account K = \<lparr>ca_spend = pzero K, ca_receive = pzero K, ca_plainSpend = 0, ca_plainReceive = 0\<rparr>"

definition add_receive :: "'p prims \<Rightarrow> 'p \<Rightarrow> int \<Rightarrow> 'p chainAccount \<Rightarrow> 'p chainAccount" where
  "add_receive K C v c = c\<lparr>ca_receive := padd K (ca_receive c) C, ca_plainReceive := ca_plainReceive c + v\<rparr>"

definition set_spend :: "'p \<Rightarrow> int \<Rightarrow> 'p chainAccount \<Rightarrow> 'p chainAccount" where
  "set_spend C v c = c\<lparr>ca_spend := C, ca_plainSpend := v\<rparr>"

definition fold_receive :: "'p prims \<Rightarrow> 'p chainAccount \<Rightarrow> 'p chainAccount" where
  "fold_receive K c = \<lparr>ca_spend = padd K (ca_spend c) (ca_receive c), ca_receive = pzero K,
     ca_plainSpend = ca_plainSpend c + ca_plainReceive c, ca_plainReceive = 0\<rparr>"

definition withdrawEventOf :: "string \<Rightarrow> string \<Rightarrow> int \<Rightarrow> 'p withdrawPayload \<Rightarrow> 'p eventBody" where
  "withdrawEventOf f t amount p = WithdrawEvent f t amount (w_rE p) (w_sigma p) (w_bTilde p) (w_bAudS p)"

definition transferEventOf :: "string \<Rightarrow> string \<Rightarrow> 'p transferPayload \<Rightarrow> 'p eventBody" where
  "transferEventOf f t p = TransferEvent f t (t_rE p) (t_vTilde p) (t_sigma p) (t_bTilde p) (t_vAudR p)
     (t_rAudR p) (t_vAudS p) (t_bAudS p)"

text \<open>
  The steps of the account of \<^verbatim>\<open>me\<close>, whose keys are \<^verbatim>\<open>keys\<close>. Events of proof-carrying entry
  points carry a payload that a builder made; the contract's proof check stands behind that.
\<close>

inductive chain_step ::
  "'p prims \<Rightarrow> 'p keyPair \<Rightarrow> string \<Rightarrow> 'p chainAccount \<Rightarrow> 'p eventBody \<Rightarrow> 'p chainAccount \<Rightarrow> bool"
  for K keys me where
  register: "chain_step K keys me c (RegisterEvent a u) c"
| deposit_in: "chain_step K keys me c (DepositEvent f me amount) (add_receive K (commit K amount 0) amount c)"
| deposit_other: "t \<noteq> me \<Longrightarrow> chain_step K keys me c (DepositEvent f t amount) c"
| merge: "chain_step K keys me c (MergeEvent me) (fold_receive K c)"
| merge_other: "a \<noteq> me \<Longrightarrow> chain_step K keys me c (MergeEvent a) c"
| withdraw: "buildWithdrawWitness K p fs fr = Inr w \<Longrightarrow> wp_keys p = keys \<Longrightarrow> wp_v p = ca_plainSpend c
    \<Longrightarrow> wp_v p < 2 ^ 127 \<Longrightarrow>
    chain_step K keys me c (withdrawEventOf me t (wp_amount p) (ww_payload w))
      (set_spend (w_cSpendNew (ww_payload w)) (wp_v p - wp_amount p) c)"
| withdraw_other: "f \<noteq> me \<Longrightarrow> chain_step K keys me c (WithdrawEvent f t amount rE s b ba) c"
| transfer_out: "buildTransferWitness K p fs = Inr w \<Longrightarrow> tp_keys p = keys \<Longrightarrow> tp_v p = ca_plainSpend c
    \<Longrightarrow> tp_v p < 2 ^ 127 \<Longrightarrow> t \<noteq> me \<Longrightarrow>
    chain_step K keys me c (transferEventOf me t (tw_payload w))
      (set_spend (t_cSpendNew (tw_payload w)) (tp_v p - tp_amount p) c)"
| transfer_in: "buildTransferWitness K p fs = Inr w \<Longrightarrow> tp_pvkB p = k_PVK keys
    \<Longrightarrow> tp_amount p < 2 ^ 127 \<Longrightarrow> f \<noteq> me \<Longrightarrow>
    chain_step K keys me c (transferEventOf f me (tw_payload w))
      (add_receive K (t_cTx (tw_payload w)) (tp_amount p) c)"
| transfer_self: "buildTransferWitness K p fs = Inr w \<Longrightarrow> tp_keys p = keys \<Longrightarrow> tp_pvkB p = k_PVK keys
    \<Longrightarrow> tp_v p = ca_plainSpend c \<Longrightarrow> tp_v p < 2 ^ 127 \<Longrightarrow>
    chain_step K keys me c (transferEventOf me me (tw_payload w))
      (add_receive K (t_cTx (tw_payload w)) (tp_amount p)
        (set_spend (t_cSpendNew (tw_payload w)) (tp_v p - tp_amount p) c))"
| transfer_other: "f \<noteq> me \<Longrightarrow> t \<noteq> me \<Longrightarrow>
    chain_step K keys me c (TransferEvent f t rE v s b var rar vas bas) c"

inductive chain_run ::
  "'p prims \<Rightarrow> 'p keyPair \<Rightarrow> string \<Rightarrow> 'p chainAccount \<Rightarrow> 'p confidentialEvent list \<Rightarrow> 'p chainAccount \<Rightarrow> bool"
  for K keys me where
  run_nil: "chain_run K keys me c [] c"
| run_cons: "chain_step K keys me c (ev_body ev) c1 \<Longrightarrow> chain_run K keys me c1 evs c2
    \<Longrightarrow> chain_run K keys me c (ev # evs) c2"

inductive_cases chain_run_ConsE: "chain_run K keys me c (ev # evs) c2"
inductive_simps chain_run_Nil [simp]: "chain_run K keys me c [] c2"

section \<open>Openings of the account\<close>

definition opens :: "'p prims \<Rightarrow> accountState \<Rightarrow> 'p chainAccount \<Rightarrow> bool" where
  "opens K state c \<longleftrightarrow>
     commit K (op_v (st_spendable state)) (op_r (st_spendable state)) = ca_spend c
   \<and> commit K (op_v (st_receiving state)) (op_r (st_receiving state)) = ca_receive c
   \<and> op_v (st_spendable state) = ca_plainSpend c \<and> op_v (st_receiving state) = ca_plainReceive c"

lemma opensD:
  assumes "opens K state c"
  shows "commit K (op_v (st_spendable state)) (op_r (st_spendable state)) = ca_spend c"
    and "commit K (op_v (st_receiving state)) (op_r (st_receiving state)) = ca_receive c"
  using assms unfolding opens_def by blast+

text \<open>Adding two blinding factors in the field without a reduction.\<close>

definition no_wrap :: "int \<Rightarrow> int \<Rightarrow> bool" where
  "no_wrap a b \<longleftrightarrow> 0 \<le> a + b \<and> a + b < FR_MODULUS"

lemma frAdd_no_wrap: "no_wrap a b \<Longrightarrow> frAdd a b = a + b"
  by (simp add: no_wrap_def frAdd_def frMod_id isCanonicalFr_def)

fun unreduced :: "'p prims \<Rightarrow> 'p keyPair \<Rightarrow> accountState \<Rightarrow> 'p eventBody \<Rightarrow> bool" where
  "unreduced K keys state (MergeEvent a) \<longleftrightarrow> a = st_address state \<longrightarrow>
     no_wrap (op_r (st_spendable state)) (op_r (st_receiving state))"
| "unreduced K keys state (TransferEvent f t rE v s b var rar vas bas) \<longleftrightarrow> t = st_address state \<longrightarrow>
     (case decryptIncoming K keys rE v s of Inr (vTx, rTx) \<Rightarrow> no_wrap (op_r (st_receiving state)) rTx
      | Inl e \<Rightarrow> True)"
| "unreduced K keys state _ \<longleftrightarrow> True"

fun unreduced_run :: "'p prims \<Rightarrow> 'p keyPair \<Rightarrow> accountState \<Rightarrow> 'p confidentialEvent list \<Rightarrow> bool" where
  "unreduced_run K keys state [] \<longleftrightarrow> True"
| "unreduced_run K keys state (ev # evs) \<longleftrightarrow> unreduced K keys state (ev_body ev) \<and>
     (case apply_event K keys state ev of Inr s \<Rightarrow> unreduced_run K keys s evs | Inl e \<Rightarrow> True)"

lemma openSpendable_withdraw:
  assumes "buildWithdrawWitness K p fs fr = Inr w" and "wp_v p < 2 ^ 127"
  shows "openSpendable K (wp_keys p) (w_bTilde (ww_payload w)) (w_sigma (ww_payload w))
    = \<lparr>op_v = wp_v p - wp_amount p, op_r = n_r (ww_next w)\<rparr>"
    and "w_cSpendNew (ww_payload w) = commit K (wp_v p - wp_amount p) (n_r (ww_next w))"
proof -
  let ?sg = "given (wp_sigma p) fs" and ?v = "wp_v p - wp_amount p" and ?vk = "k_vk (wp_keys p)"
  obtain s where b: "0 \<le> wp_amount p" "wp_amount p \<le> wp_v p"
    "ww_payload w = \<lparr>w_cSpendNew = commit K ?v (deriveSpendR (permute K) ?vk ?sg),
       w_bTilde = encryptBalance (permute K) ?v ?vk ?sg, w_rE = scalarMul K (given (wp_rE p) fr) (H K),
       w_sigma = ?sg, w_bAudS = encryptAuditorSenderBalance (permute K) ?v s ?sg\<rparr>"
    "ww_next w = \<lparr>n_v = ?v, n_r = deriveSpendR (permute K) ?vk ?sg,
       n_cSpend = commit K ?v (deriveSpendR (permute K) ?vk ?sg)\<rparr>"
    by (rule withdraw_built[OF assms(1)]) blast
  have "decryptWithDomain (permute K) (encryptBalance (permute K) ?v ?vk ?sg) ENCRYPTED_BALANCE ?vk ?sg = ?v"
    using b(1,2) assms(2) by (intro balance_channel.open_amount) simp_all
  then show "openSpendable K (wp_keys p) (w_bTilde (ww_payload w)) (w_sigma (ww_payload w))
    = \<lparr>op_v = wp_v p - wp_amount p, op_r = n_r (ww_next w)\<rparr>"
    and "w_cSpendNew (ww_payload w) = commit K (wp_v p - wp_amount p) (n_r (ww_next w))"
    by (simp_all add: b(3,4) openSpendable_def decryptWithDomain_def)
qed

lemma openSpendable_transfer:
  assumes "buildTransferWitness K p fs = Inr w" and "tp_v p < 2 ^ 127"
  shows "openSpendable K (tp_keys p) (t_bTilde (tw_payload w)) (t_sigma (tw_payload w))
      = \<lparr>op_v = tp_v p - tp_amount p, op_r = n_r (tw_next w)\<rparr>"
    and "t_cSpendNew (tw_payload w) = commit K (tp_v p - tp_amount p) (n_r (tw_next w))"
proof -
  let ?sg = "given (tp_sigma p) fs" and ?v = "tp_v p - tp_amount p" and ?vk = "k_vk (tp_keys p)"
  obtain rE sX sArX sAsX where b: "0 \<le> tp_amount p" "tp_amount p \<le> tp_v p"
    "t_bTilde (tw_payload w) = frAdd ?v (snd (spongeSqueeze2 (permute K) AUDITOR_SENDER sAsX ?sg))
       \<or> t_bTilde (tw_payload w) = encryptBalance (permute K) ?v ?vk ?sg"
    "t_bTilde (tw_payload w) = encryptBalance (permute K) ?v ?vk ?sg" "t_sigma (tw_payload w) = ?sg"
    "t_cSpendNew (tw_payload w) = commit K ?v (deriveSpendR (permute K) ?vk ?sg)"
    "n_r (tw_next w) = deriveSpendR (permute K) ?vk ?sg"
    by (rule transfer_built[OF assms(1)]) simp
  have "decryptWithDomain (permute K) (encryptBalance (permute K) ?v ?vk ?sg) ENCRYPTED_BALANCE ?vk ?sg = ?v"
    using b(1,2) assms(2) by (intro balance_channel.open_amount) simp_all
  then show "openSpendable K (tp_keys p) (t_bTilde (tw_payload w)) (t_sigma (tw_payload w))
      = \<lparr>op_v = tp_v p - tp_amount p, op_r = n_r (tw_next w)\<rparr>"
    and "t_cSpendNew (tw_payload w) = commit K (tp_v p - tp_amount p) (n_r (tw_next w))"
    by (simp_all add: b(4-7) openSpendable_def decryptWithDomain_def)
qed

lemma recipientView_opens:
  assumes "buildTransferWitness K p fs = Inr w"
  shows "t_cTx (tw_payload w) = commit K (rv_vTx (tw_recipientView w)) (rv_rTx (tw_recipientView w))"
    and "rv_vTx (tw_recipientView w) = tp_amount p"
  by (rule transfer_built[OF assms]; simp)+

lemma opens_credited:
  assumes "curve_laws K" and "opens K state c" and "no_wrap (op_r (st_receiving state)) r"
  shows "opens K (credited v r state) (add_receive K (commit K v r) v c)"
  using assms commit_add[OF assms(1), of "op_v (st_receiving state)" "op_r (st_receiving state)" v r]
  by (auto simp: opens_def credited_def add_receive_def frAdd_no_wrap)

lemma opens_merged:
  assumes "curve_laws K" and "opens K state c"
    and "no_wrap (op_r (st_spendable state)) (op_r (st_receiving state))"
  shows "opens K (merged state) (fold_receive K c)"
  using assms commit_add[OF assms(1), of "op_v (st_spendable state)" "op_r (st_spendable state)"
      "op_v (st_receiving state)" "op_r (st_receiving state)"]
  by (auto simp: opens_def merged_def fold_receive_def zero_opening_def frAdd_no_wrap commit_zero)

lemma opens_set_spend:
  assumes "opens K state c" and "C = commit K v r"
  shows "opens K (state\<lparr>st_spendable := \<lparr>op_v = v, op_r = r\<rparr>\<rparr>) (set_spend C v c)"
  using assms by (auto simp: opens_def set_spend_def)

lemma credited_sel [simp]:
  "st_address (credited v r s) = st_address s" "st_optimistic (credited v r s) = st_optimistic s"
  "st_address (merged s) = st_address s" "st_optimistic (merged s) = st_optimistic s"
  "st_address (at_ledger l s) = st_address s" "st_optimistic (at_ledger l s) = st_optimistic s"
  by (simp_all add: credited_def merged_def at_ledger_def)

lemma opens_at_ledger [simp]: "opens K (at_ledger l s) c \<longleftrightarrow> opens K s c"
  by (simp add: opens_def at_ledger_def)

lemma incoming_amount:
  assumes "curve_laws K" and "key_set K keys" and "tp_pvkB p = k_PVK keys"
    and "buildTransferWitness K p fs = Inr w" and "tp_amount p < 2 ^ 127"
  shows "decryptIncoming K keys (t_rE (tw_payload w)) (t_vTilde (tw_payload w)) (t_sigma (tw_payload w))
     = Inr (tp_amount p, rv_rTx (tw_recipientView w))"
    and "t_cTx (tw_payload w) = commit K (tp_amount p) (rv_rTx (tw_recipientView w))"
  using decryptIncoming_built[OF assms] recipientView_opens[OF assms(4)] by simp_all

text \<open>One event: the replay follows the account on chain.\<close>

lemma apply_body_opens:
  assumes K: "curve_laws K" and keys: "key_set K keys" and me: "st_address state = me"
    and op: "opens K state c" and un: "unreduced K keys state b" and step: "chain_step K keys me c b c'"
  shows "\<exists>s'. apply_body K keys state b = Inr s' \<and> opens K s' c' \<and> st_address s' = me
     \<and> st_optimistic s' = st_optimistic state"
  using step
proof cases
  case (register a u)
  have "opens K (state\<lparr>st_registered := True\<rparr>) c" using op by (auto simp: opens_def)
  with op me register show ?thesis by simp
next
  case (deposit_in f amount)
  have "opens K (state\<lparr>st_receiving := (st_receiving state)\<lparr>op_v := op_v (st_receiving state) + amount\<rparr>\<rparr>)
      (add_receive K (commit K amount 0) amount c)"
    using op commit_add[OF K, of "op_v (st_receiving state)" "op_r (st_receiving state)" amount 0]
    by (auto simp: opens_def add_receive_def)
  with deposit_in me show ?thesis by simp
next
  case (merge)
  with op me un K show ?thesis by (simp add: opens_merged)
next
  case (withdraw p fs fr w t)
  then show ?thesis
    using op me openSpendable_withdraw[OF withdraw(3,6)] opens_set_spend[OF op]
    by (simp add: withdrawEventOf_def)
next
  case (transfer_out p fs w t)
  then show ?thesis
    using op me openSpendable_transfer[OF transfer_out(3,6)] opens_set_spend[OF op]
    by (simp add: transferEventOf_def)
next
  case (transfer_in p fs w f)
  note d = incoming_amount[OF K keys transfer_in(4,3,5)]
  from transfer_in(1) un me d(1) have "no_wrap (op_r (st_receiving state)) (rv_rTx (tw_recipientView w))"
    by (simp add: transferEventOf_def)
  with transfer_in me d opens_credited[OF K op] show ?thesis by (simp add: transferEventOf_def)
next
  case (transfer_self p fs w)
  have "0 \<le> ca_plainSpend c - tp_amount p"
    using transfer_rejects(2)[of p K fs] transfer_rejects(1)[of p K fs] transfer_self
    by (cases "tp_v p < tp_amount p"; cases "tp_amount p < 0") auto
  with transfer_self have "tp_amount p < 2 ^ 127" by simp
  note d = incoming_amount[OF K keys transfer_self(5,3) this]
  let ?s = "state\<lparr>st_spendable := \<lparr>op_v = tp_v p - tp_amount p, op_r = n_r (tw_next w)\<rparr>\<rparr>"
  have s: "opens K ?s (set_spend (t_cSpendNew (tw_payload w)) (tp_v p - tp_amount p) c)"
    by (rule opens_set_spend[OF op openSpendable_transfer(2)[OF transfer_self(3,7)]])
  from transfer_self(1) un me d(1) have "no_wrap (op_r (st_receiving ?s)) (rv_rTx (tw_recipientView w))"
    by (simp add: transferEventOf_def)
  with transfer_self me d opens_credited[OF K s] openSpendable_transfer(1)[OF transfer_self(3,7)]
  show ?thesis by (simp add: transferEventOf_def)
qed (use op me in simp_all)

lemma is_optimistic_None [simp]: "st_optimistic s = None \<Longrightarrow> \<not> is_optimistic s h"
  by (simp add: is_optimistic_def)

text \<open>All events: the refinement.\<close>

lemma apply_all_opens:
  assumes "curve_laws K" and "key_set K keys" and "st_address state = me"
    and "st_optimistic state = None" and "opens K state c" and "unreduced_run K keys state evs"
    and "chain_run K keys me c evs c'"
  shows "\<exists>s'. apply_all K keys state evs = Inr s' \<and> opens K s' c' \<and> st_address s' = me
     \<and> st_optimistic s' = None"
  using assms(3-7)
proof (induction evs arbitrary: state c)
  case (Cons ev evs)
  from Cons.prems(5) obtain c1 where step: "chain_step K keys me c (ev_body ev) c1"
    and run: "chain_run K keys me c1 evs c'" by (rule chain_run_ConsE)
  obtain s1 where s1: "apply_body K keys state (ev_body ev) = Inr s1" "opens K s1 c1"
    "st_address s1 = me" "st_optimistic s1 = None"
    using apply_body_opens[OF assms(1,2) Cons.prems(1,3) _ step] Cons.prems(2,4) by auto
  let ?s = "at_ledger (ev_ledger ev) s1"
  have a: "apply_event K keys state ev = Inr ?s"
    using s1(1) Cons.prems(2) by (simp add: apply_event_def)
  with Cons.prems(4) have "unreduced_run K keys ?s evs" by simp
  with Cons.IH[of ?s c1] s1 run a show ?case by simp
qed simp

lemma fresh_opens: "curve_laws K \<Longrightarrow> opens K (freshState me) (new_account K)"
  by (simp add: opens_def freshState_def new_account_def zero_opening_def commit_zero)

section \<open>When a sum is reduced\<close>

text \<open>
  The field's modulus is not a multiple of the group's order, so a reduced sum of blinding factors
  is a different scalar, and the merged opening does not open the merged commitment.
\<close>

lemma FR_mod_FP: "(x - FR_MODULUS) mod FP_MODULUS \<noteq> x mod FP_MODULUS"
proof
  assume "(x - FR_MODULUS) mod FP_MODULUS = x mod FP_MODULUS"
  then have "(x - (x - FR_MODULUS)) mod FP_MODULUS = 0"
    by (metis diff_self mod_diff_cong mod_0)
  then have "FR_MODULUS mod FP_MODULUS = 0" by simp
  then show False using FR_lt_FP FR_pos by simp
qed

lemma frAdd_wrapped:
  assumes "isCanonicalFr a" and "isCanonicalFr b" and "\<not> no_wrap a b"
  shows "frAdd a b = a + b - FR_MODULUS"
proof -
  have "FR_MODULUS \<le> a + b" "a + b < 2 * FR_MODULUS"
    using assms by (auto simp: no_wrap_def isCanonicalFr_def)
  then have "(a + b - FR_MODULUS) mod FR_MODULUS = a + b - FR_MODULUS"
    by (intro mod_pos_pos_trivial) linarith+
  then have "(a + b) mod FR_MODULUS = a + b - FR_MODULUS"
    using minus_mod_self2[of "a + b" FR_MODULUS] by metis
  then show ?thesis by (simp add: frAdd_def frMod_mod)
qed

text \<open>
  C2: merging two openings of the account's commitments opens the merged commitment exactly when the
  blinding factors sum below the field's modulus: the code adds them in the field, while the curve
  adds them modulo its own order, which is another prime.
\<close>

theorem merged_opens_iff:
  assumes K: "curve_laws K" and op: "opens K state c"
    and r: "isCanonicalFr (op_r (st_spendable state))" "isCanonicalFr (op_r (st_receiving state))"
  shows "opens K (merged state) (fold_receive K c)
    \<longleftrightarrow> op_r (st_spendable state) + op_r (st_receiving state) < FR_MODULUS"
proof -
  let ?a = "op_r (st_spendable state)" and ?b = "op_r (st_receiving state)"
  let ?v = "op_v (st_spendable state) + op_v (st_receiving state)"
  have nw: "no_wrap ?a ?b \<longleftrightarrow> ?a + ?b < FR_MODULUS"
    using r by (auto simp: no_wrap_def isCanonicalFr_def)
  have "\<not> opens K (merged state) (fold_receive K c)" if "\<not> no_wrap ?a ?b"
  proof
    assume "opens K (merged state) (fold_receive K c)"
    then have "commit K (op_v (st_spendable (merged state))) (op_r (st_spendable (merged state)))
        = ca_spend (fold_receive K c)" by (rule opensD)
    then have "commit K ?v (frAdd ?a ?b) = padd K (ca_spend c) (ca_receive c)"
      by (simp add: merged_def fold_receive_def)
    also have "ca_spend c = commit K (op_v (st_spendable state)) ?a" by (rule opensD(1)[OF op, symmetric])
    also have "ca_receive c = commit K (op_v (st_receiving state)) ?b" by (rule opensD(2)[OF op, symmetric])
    also note commit_add[OF K]
    finally have "frAdd ?a ?b mod FP_MODULUS = (?a + ?b) mod FP_MODULUS"
      using commit_blinding[OF K] by simp
    then show False using frAdd_wrapped[OF r that] FR_mod_FP by simp
  qed
  with opens_merged[OF K op] nw show ?thesis by blast
qed

section \<open>Properties\<close>

text \<open>
  C1: replaying the events of any run of the account's contract, from the fresh state, succeeds and
  ends in openings of the commitments on chain with the plain amounts, as long as no sum of two
  blinding factors is reduced.
\<close>

theorem replay_opens_chain:
  assumes "curve_laws K" and "key_set K keys" and "chain_run K keys me (new_account K) evs c"
    and "unreduced_run K keys (freshState me) evs"
  shows "\<exists>s. apply_all K keys (freshState me) evs = Inr s \<and> opens K s c \<and> st_address s = me"
  using apply_all_opens[OF assms(1,2) _ _ fresh_opens[OF assms(1)] assms(4,3)]
  by (auto simp: freshState_def)

definition demo_event :: "int \<Rightarrow> residue eventBody \<Rightarrow> residue confidentialEvent" where
  "demo_event l b = with_base \<lparr>ev_ledger = l, ev_txHash = ''t'', ev_cursor = toString10 l\<rparr> b"

definition demo_run :: "residue confidentialEvent list" where
  "demo_run = [demo_event 1 (RegisterEvent ''me'' (Some 0)), demo_event 2 (DepositEvent ''me'' ''me'' 100),
     demo_event 3 (MergeEvent ''me''),
     demo_event 4 (transferEventOf ''me'' ''me'' (tw_payload demo_transferred))]"

lemma demo_transfer_sel [simp]:
  "tp_keys demo_transfer = demo_keys" "tp_pvkB demo_transfer = k_PVK demo_keys" "tp_v demo_transfer = 100"
  "tp_amount demo_transfer = 30" "tp_kAudS demo_transfer = demo_auditor" "tp_kAudR demo_transfer = demo_auditor"
  by (simp_all add: demo_transfer_def)

lemma demo_event_body [simp]: "ev_body (demo_event l b) = b"
  by (simp add: demo_event_def)

lemma demo_chain_run: "\<exists>c. chain_run demo demo_keys ''me'' (new_account demo) demo_run c"
proof -
  let ?c2 = "add_receive demo (commit demo 100 0) 100 (new_account demo)"
  let ?c3 = "fold_receive demo ?c2"
  have "tp_v demo_transfer = ca_plainSpend ?c3"
    by (simp add: fold_receive_def add_receive_def new_account_def)
  from transfer_self[OF demo_transferred _ _ this, of demo_keys "''me''"] obtain c4 where
    "chain_step demo demo_keys ''me'' ?c3 (transferEventOf ''me'' ''me'' (tw_payload demo_transferred)) c4"
    by simp
  then have "chain_run demo demo_keys ''me'' (new_account demo) demo_run c4"
    unfolding demo_run_def
    by (intro run_cons[OF _ run_cons[OF _ run_cons[OF _ run_cons]]])
       (auto intro: chain_step.intros)
  then show ?thesis ..
qed

lemma demo_rTx: "rv_rTx (tw_recipientView demo_transferred) = 7"
  by (rule transfer_built[OF demo_transferred]) (simp add: deriveTxBlind_def poseidonWithDomain_def sponge_demo)

lemma demo_incoming: "decryptIncoming demo demo_keys (t_rE (tw_payload demo_transferred))
    (t_vTilde (tw_payload demo_transferred)) (t_sigma (tw_payload demo_transferred)) = Inr (30, 7)"
  using incoming_amount(1)[OF demo_laws demo_keys_sel(1) _ demo_transferred] by (simp add: demo_rTx)

theorem replay_opens_chain_witness:
  "\<exists>s c. apply_all demo demo_keys (freshState ''me'') demo_run = Inr s \<and> opens demo s c"
proof -
  obtain c where "chain_run demo demo_keys ''me'' (new_account demo) demo_run c"
    using demo_chain_run by blast
  moreover have "unreduced_run demo demo_keys (freshState ''me'') demo_run"
    by (simp add: demo_run_def apply_event_def transferEventOf_def demo_incoming freshState_def zero_opening_def
        no_wrap_def merged_def at_ledger_def frAdd_def frMod_mod FR_MODULUS_def)
  ultimately show ?thesis using replay_opens_chain[OF demo_laws demo_keys_sel(1)] by blast
qed

definition demo_state :: "int \<Rightarrow> int \<Rightarrow> accountState" where
  "demo_state a b = (freshState ''me'')\<lparr>st_spendable := \<lparr>op_v = 2, op_r = a\<rparr>, st_receiving := \<lparr>op_v = 3, op_r = b\<rparr>\<rparr>"

definition demo_account :: "int \<Rightarrow> int \<Rightarrow> residue chainAccount" where
  "demo_account a b = \<lparr>ca_spend = commit demo 2 a, ca_receive = commit demo 3 b, ca_plainSpend = 2, ca_plainReceive = 3\<rparr>"

lemma demo_state_opens: "opens demo (demo_state a b) (demo_account a b)"
  by (simp add: opens_def demo_state_def demo_account_def)

theorem merged_opens_iff_witness:
  "opens demo (merged (demo_state 5 6)) (fold_receive demo (demo_account 5 6))
   \<and> \<not> opens demo (merged (demo_state (FR_MODULUS - 1) 1)) (fold_receive demo (demo_account (FR_MODULUS - 1) 1))"
  using merged_opens_iff[OF demo_laws demo_state_opens, of 5 6]
    merged_opens_iff[OF demo_laws demo_state_opens, of "FR_MODULUS - 1" 1]
  by (simp add: demo_state_def isCanonicalFr_def FR_MODULUS_def)

text \<open>
  C3: from a transfer's event the recipient recovers the amount and the blinding factor of the credit
  commitment, and the sender recovers the opening of the new spendable commitment, which is the one
  the builder told the sender to cache.
\<close>

theorem transfer_reads_back:
  assumes "curve_laws K" and "buildTransferWitness K p fs = Inr w" and "tp_v p < 2 ^ 127"
    and "key_set K keys" and "tp_pvkB p = k_PVK keys"
  shows "decryptIncoming K keys (t_rE (tw_payload w)) (t_vTilde (tw_payload w)) (t_sigma (tw_payload w))
      = Inr (tp_amount p, rv_rTx (tw_recipientView w))
    \<and> t_cTx (tw_payload w) = commit K (tp_amount p) (rv_rTx (tw_recipientView w))
    \<and> openSpendable K (tp_keys p) (t_bTilde (tw_payload w)) (t_sigma (tw_payload w))
      = \<lparr>op_v = n_v (tw_next w), op_r = n_r (tw_next w)\<rparr>
    \<and> n_v (tw_next w) = tp_v p - tp_amount p
    \<and> t_cSpendNew (tw_payload w) = commit K (n_v (tw_next w)) (n_r (tw_next w))"
proof -
  have "0 \<le> tp_amount p" "tp_amount p \<le> tp_v p" "n_v (tw_next w) = tp_v p - tp_amount p"
    by (rule transfer_built[OF assms(2)]; simp)+
  with assms(3) have "tp_amount p < 2 ^ 127" by linarith
  from incoming_amount[OF assms(1,4,5,2) this] openSpendable_transfer[OF assms(2,3)]
    \<open>n_v (tw_next w) = tp_v p - tp_amount p\<close> show ?thesis by simp
qed

theorem transfer_reads_back_witness:
  "n_v (tw_next demo_transferred) = 70
   \<and> t_cSpendNew (tw_payload demo_transferred) = commit demo 70 (n_r (tw_next demo_transferred))"
  using transfer_reads_back[OF demo_laws demo_transferred _ demo_keys_sel(1)] by simp

text \<open>
  The same for a withdrawal: the checkpoint in its event opens to the balance that is left, with
  the blinding factor the builder chose, and the new commitment commits to exactly these.
\<close>

theorem withdraw_reads_back:
  assumes "buildWithdrawWitness K p fs fr = Inr w" and "wp_v p < 2 ^ 127"
  shows "openSpendable K (wp_keys p) (w_bTilde (ww_payload w)) (w_sigma (ww_payload w))
      = \<lparr>op_v = wp_v p - wp_amount p, op_r = n_r (ww_next w)\<rparr>
    \<and> w_cSpendNew (ww_payload w) = commit K (wp_v p - wp_amount p) (n_r (ww_next w))
    \<and> n_v (ww_next w) = wp_v p - wp_amount p"
  using openSpendable_withdraw[OF assms] by (auto intro: withdraw_built[OF assms(1)])

theorem withdraw_reads_back_witness:
  "n_v (ww_next demo_withdrawn) = 70"
  using withdraw_reads_back[OF demo_withdrawn] by (simp add: demo_withdraw_def)

end
