(* ===== verification/Auditor.thy ===== *)
theory Auditor
  imports Replay
begin

text \<open>
  \<^verbatim>\<open>auditor/decrypt.ts\<close>: what an auditor reads from a transfer or a withdraw with the secret
  behind its registry key. Shown, for events whose payload a builder made: the amounts, balances and
  blinding factors come back, and the two channels of a transfer agree.
\<close>

record auditedSenderChannel =
  as_amount :: int
  as_senderBalance :: int

record auditedRecipientChannel =
  ar_amount :: int
  ar_rTx :: int

record auditedTransfer =
  at_amount :: int
  at_senderBalance :: int
  at_rTx :: int
  at_channelsAgree :: bool

definition auditTransferSenderChannel ::
  "'p prims \<Rightarrow> int \<Rightarrow> 'p \<Rightarrow> int \<Rightarrow> int \<Rightarrow> int \<Rightarrow> auditedSenderChannel res" where
  "auditTransferSenderChannel K k rE sigma vAudS bAudS =
     rmap (\<lambda>sX. case spongeSqueeze2 (permute K) AUDITOR_SENDER sX sigma of (mV, mB) \<Rightarrow>
         \<lparr>as_amount = frMod (vAudS - mV), as_senderBalance = frMod (bAudS - mB)\<rparr>)
       (ecdh K k rE)"

definition auditTransferRecipientChannel ::
  "'p prims \<Rightarrow> int \<Rightarrow> 'p \<Rightarrow> int \<Rightarrow> int \<Rightarrow> int \<Rightarrow> auditedRecipientChannel res" where
  "auditTransferRecipientChannel K k rE sigma vAudR rAudR =
     rmap (\<lambda>sX. case spongeSqueeze2 (permute K) AUDITOR_RECIPIENT sX sigma of (mV, mR) \<Rightarrow>
         \<lparr>ar_amount = frMod (vAudR - mV), ar_rTx = frMod (rAudR - mR)\<rparr>)
       (ecdh K k rE)"

text \<open>An event that is not a transfer is outside the parameter's type.\<close>

fun auditTransfer :: "'p prims \<Rightarrow> int \<Rightarrow> 'p eventBody \<Rightarrow> auditedTransfer res" where
  "auditTransfer K k (TransferEvent f t rE vTilde sigma bTilde vAudR rAudR vAudS bAudS) =
     rbind (auditTransferSenderChannel K k rE sigma vAudS bAudS) (\<lambda>s.
     rmap (\<lambda>r. \<lparr>at_amount = as_amount s, at_senderBalance = as_senderBalance s, at_rTx = ar_rTx r,
                at_channelsAgree = (as_amount s = ar_amount r)\<rparr>)
       (auditTransferRecipientChannel K k rE sigma vAudR rAudR))"
| "auditTransfer K k _ = Inl (TypeError ''transfer'')"

definition auditWithdraw :: "'p prims \<Rightarrow> int \<Rightarrow> 'p \<Rightarrow> int \<Rightarrow> int \<Rightarrow> int res" where
  "auditWithdraw K k rE sigma bAudS =
     rmap (\<lambda>sX. decryptWithDomain (permute K) bAudS AUDITOR_SENDER sX sigma) (ecdh K k rE)"

definition auditorPublicKey :: "'p prims \<Rightarrow> int \<Rightarrow> 'p" where
  "auditorPublicKey K k = scalarMul K k (H K)"

section \<open>Reading back\<close>

lemma audit_shared:
  assumes "curve_laws K" and "ecdh K rE (auditorPublicKey K k) = Inr s"
  shows "ecdh K k (scalarMul K rE (H K)) = Inr s"
  using ecdh_agree[OF assms(1), of k rE] assms(2) by (simp add: auditorPublicKey_def)

lemma small_id: "0 \<le> x \<Longrightarrow> x < 2 ^ 127 \<Longrightarrow> frMod x = x"
  by (rule frMod_id) (rule amount_canonical)

text \<open>The amount is below the bound that keeps it apart from a field wrap-around.\<close>

text \<open>
  C30: An auditor who holds the key both parties registered under reads from a transfer's event the
  amount, the sender's remaining balance and the blinding factor of the credit, and finds that the
  two channels agree.
\<close>

theorem auditTransfer_built:
  assumes K: "curve_laws K" and w: "buildTransferWitness K p fs = Inr w" and v: "tp_v p < 2 ^ 127"
    and s: "tp_kAudS p = auditorPublicKey K k" and r: "tp_kAudR p = auditorPublicKey K k"
  shows "auditTransfer K k (transferEventOf f t (tw_payload w))
    = Inr \<lparr>at_amount = tp_amount p, at_senderBalance = tp_v p - tp_amount p,
           at_rTx = frMod (rv_rTx (tw_recipientView w)), at_channelsAgree = True\<rparr>"
proof -
  let ?sg = "given (tp_sigma p) fs" and ?v = "tp_v p - tp_amount p" and ?pm = "permute K"
  obtain rE sX sR sS where b: "0 \<le> tp_amount p" "tp_amount p \<le> tp_v p"
    "ecdh K rE (tp_kAudR p) = Inr sR" "ecdh K rE (tp_kAudS p) = Inr sS"
    "t_rE (tw_payload w) = scalarMul K rE (H K)" "t_sigma (tw_payload w) = ?sg"
    "t_vAudR (tw_payload w) = frAdd (tp_amount p) (fst (spongeSqueeze2 ?pm AUDITOR_RECIPIENT sR ?sg))"
    "t_rAudR (tw_payload w) = frAdd (deriveTxBlind ?pm sX ?sg) (snd (spongeSqueeze2 ?pm AUDITOR_RECIPIENT sR ?sg))"
    "t_vAudS (tw_payload w) = frAdd (tp_amount p) (fst (spongeSqueeze2 ?pm AUDITOR_SENDER sS ?sg))"
    "t_bAudS (tw_payload w) = frAdd ?v (snd (spongeSqueeze2 ?pm AUDITOR_SENDER sS ?sg))"
    "rv_rTx (tw_recipientView w) = deriveTxBlind ?pm sX ?sg"
    by (rule transfer_built[OF w]) simp
  have sh: "ecdh K k (scalarMul K rE (H K)) = Inr sR" "ecdh K k (scalarMul K rE (H K)) = Inr sS"
    using audit_shared[OF K] b(3,4) r s by simp_all
  have "tp_amount p < 2 ^ 127" "0 \<le> ?v" "?v < 2 ^ 127" using b(1,2) v by linarith+
  then have id: "frMod (tp_amount p) = tp_amount p" "frMod ?v = ?v"
    using small_id b(1) by blast+
  have send: "auditTransferSenderChannel K k (t_rE (tw_payload w)) (t_sigma (tw_payload w))
      (t_vAudS (tw_payload w)) (t_bAudS (tw_payload w))
    = Inr \<lparr>as_amount = tp_amount p, as_senderBalance = ?v\<rparr>"
    unfolding auditTransferSenderChannel_def b(5,6,9,10) sh(2) rmap_simps
    by (simp add: frMod_unmask id case_prod_unfold)
  have rec: "auditTransferRecipientChannel K k (t_rE (tw_payload w)) (t_sigma (tw_payload w))
      (t_vAudR (tw_payload w)) (t_rAudR (tw_payload w))
    = Inr \<lparr>ar_amount = tp_amount p, ar_rTx = frMod (rv_rTx (tw_recipientView w))\<rparr>"
    unfolding auditTransferRecipientChannel_def b(5,6,7,8,11) sh(1) rmap_simps
    by (simp add: frMod_unmask id case_prod_unfold)
  show ?thesis by (simp add: transferEventOf_def send rec)
qed

theorem auditTransfer_built_witness:
  "auditTransfer demo 13 (transferEventOf ''a'' ''b'' (tw_payload demo_transferred))
    = Inr \<lparr>at_amount = 30, at_senderBalance = 70,
           at_rTx = frMod (rv_rTx (tw_recipientView demo_transferred)), at_channelsAgree = True\<rparr>"
  using auditTransfer_built[OF demo_laws demo_transferred]
  by (simp add: demo_auditor_def auditorPublicKey_def)

text \<open>
  From a withdrawal's event the auditor of the sender reads the balance that is left.
\<close>

theorem auditWithdraw_built:
  assumes K: "curve_laws K" and w: "buildWithdrawWitness K p fs fr = Inr w" and v: "wp_v p < 2 ^ 127"
    and s: "wp_kAudS p = auditorPublicKey K k"
  shows "auditWithdraw K k (w_rE (ww_payload w)) (w_sigma (ww_payload w)) (w_bAudS (ww_payload w))
    = Inr (wp_v p - wp_amount p)"
proof -
  let ?sg = "given (wp_sigma p) fs" and ?v = "wp_v p - wp_amount p" and ?pm = "permute K"
  obtain sx where b: "0 \<le> wp_amount p" "wp_amount p \<le> wp_v p"
    "ecdh K (given (wp_rE p) fr) (wp_kAudS p) = Inr sx"
    "w_rE (ww_payload w) = scalarMul K (given (wp_rE p) fr) (H K)" "w_sigma (ww_payload w) = ?sg"
    "w_bAudS (ww_payload w) = encryptAuditorSenderBalance ?pm ?v sx ?sg"
    by (rule withdraw_built[OF w]) simp
  have sh: "ecdh K k (scalarMul K (given (wp_rE p) fr) (H K)) = Inr sx"
    using audit_shared[OF K] b(3) s by simp
  have "0 \<le> ?v" "?v < 2 ^ 127" using b(1,2) v by linarith+
  then have "decryptWithDomain ?pm (encryptAuditorSenderBalance ?pm ?v sx ?sg) AUDITOR_SENDER sx ?sg = ?v"
    by (rule auditor_balance_channel.open_amount)
  with sh show ?thesis by (simp add: auditWithdraw_def b(4-6))
qed

theorem auditWithdraw_built_witness:
  "auditWithdraw demo 13 (w_rE (ww_payload demo_withdrawn)) (w_sigma (ww_payload demo_withdrawn))
     (w_bAudS (ww_payload demo_withdrawn)) = Inr 70"
  using auditWithdraw_built[OF demo_laws demo_withdrawn]
  by (simp add: demo_auditor_def auditorPublicKey_def demo_withdraw_def)

end
