(* ===== verification/Postconditions.thy ===== *)
theory Postconditions
  imports Prelude
begin

text \<open>
  A calculus of postconditions for effects: \<^verbatim>\<open>io_post m w Q\<close> says that whatever \<^verbatim>\<open>m\<close> returns
  or throws from the world \<^verbatim>\<open>w\<close>, \<^verbatim>\<open>Q\<close> holds of the outcome and the new world. The rules
  push a postcondition backwards through an effect; together they are the simplification set
  \<^verbatim>\<open>io_wp\<close>. An invariant of the world is kept when it is such a postcondition from every world that
  has it; the introduction rules \<^verbatim>\<open>keeps\<close> build that up from the parts.
\<close>

definition io_post :: "('w, 'a) io \<Rightarrow> 'w \<Rightarrow> ('a res \<Rightarrow> 'w \<Rightarrow> bool) \<Rightarrow> bool" where
  "io_post m w Q \<longleftrightarrow> (case m w of None \<Rightarrow> True | Some (r, w') \<Rightarrow> Q r w')"

named_theorems io_wp \<open>postconditions of effects\<close>

lemma io_postI: "(\<And>r w'. m w = Some (r, w') \<Longrightarrow> Q r w') \<Longrightarrow> io_post m w Q"
  by (auto simp: io_post_def split: option.split)

lemma io_postD: "io_post m w Q \<Longrightarrow> m w = Some (r, w') \<Longrightarrow> Q r w'"
  by (simp add: io_post_def)

lemma io_post_mono:
  assumes "io_post m w Q" and "\<And>r w'. m w = Some (r, w') \<Longrightarrow> Q r w' \<Longrightarrow> R r w'"
  shows "io_post m w R"
  using assms by (auto simp: io_post_def split: option.splits)

lemma io_post_return [io_wp]: "io_post (io_return a) w Q \<longleftrightarrow> Q (Inr a) w"
  by (simp add: io_post_def io_simps)

lemma io_post_throw [io_wp]: "io_post (io_throw e) w Q \<longleftrightarrow> Q (Inl e) w"
  by (simp add: io_post_def io_simps)

lemma io_post_res [io_wp]: "io_post (io_res r) w Q \<longleftrightarrow> Q r w"
  by (simp add: io_post_def io_simps)

lemma io_post_call [io_wp]: "io_post (io_call f) w Q \<longleftrightarrow> (case f w of (r, w') \<Rightarrow> Q r w')"
  by (simp add: io_post_def io_simps)

lemma io_post_bind [io_wp]:
  "io_post (io_bind m f) w Q \<longleftrightarrow>
   io_post m w (\<lambda>r w'. case r of Inl e \<Rightarrow> Q (Inl e) w' | Inr a \<Rightarrow> io_post (f a) w' Q)"
  by (auto simp: io_post_def io_simps split: option.splits sum.splits)

lemma io_post_catch [io_wp]:
  "io_post (io_catch m h) w Q \<longleftrightarrow>
   io_post m w (\<lambda>r w'. case r of Inl e \<Rightarrow> io_post (h e) w' Q | Inr a \<Rightarrow> Q (Inr a) w')"
  by (auto simp: io_post_def io_simps split: option.splits sum.splits)

lemma io_post_if [io_wp]: "io_post (if b then m else m') w Q \<longleftrightarrow> (if b then io_post m w Q else io_post m' w Q)"
  by simp

lemma io_post_bindI:
  assumes "io_post m w P" and "\<And>a w'. P (Inr a) w' \<Longrightarrow> io_post (f a) w' Q" and "\<And>e w'. P (Inl e) w' \<Longrightarrow> Q (Inl e) w'"
  shows "io_post (io_bind m f) w Q"
  using assms by (auto simp: io_post_bind elim!: io_post_mono split: sum.split)

lemma io_bind_return: "io_bind (io_return a) f = f a"
  by (simp add: io_bind_def io_return_def)

lemma io_bind_throw: "io_bind (io_throw e) f = io_throw e"
  by (simp add: io_bind_def io_throw_def)

lemma io_bind_res: "io_bind (io_res (Inr a)) f = f a" "io_bind (io_res (Inl e)) f = io_throw e"
  by (simp_all add: io_bind_def io_res_def io_throw_def)

lemma io_post_conj: "io_post m w (\<lambda>r w'. P r w' \<and> Q r w') \<longleftrightarrow> io_post m w P \<and> io_post m w Q"
  by (auto simp: io_post_def split: option.splits)

lemma io_post_success:
  "io_post m w (\<lambda>r w'. \<forall>a. r = Inr a \<longrightarrow> Q a w') \<longleftrightarrow> (\<forall>a w'. m w = Some (Inr a, w') \<longrightarrow> Q a w')"
  by (auto simp: io_post_def split: option.splits)

section \<open>Runs that succeed\<close>

named_theorems run_iff \<open>when an effect returns\<close>

lemma io_bind_run [run_iff]:
  "io_bind m f w = Some (Inr b, w'') \<longleftrightarrow> (\<exists>a w'. m w = Some (Inr a, w') \<and> f a w' = Some (Inr b, w''))"
  by (auto simp: io_bind_def split: option.splits sum.splits)

lemma io_run [run_iff]:
  "io_return a w = Some (Inr b, w') \<longleftrightarrow> a = b \<and> w = w'" "io_throw e w = Some (Inr b, w') \<longleftrightarrow> False"
  "io_res r w = Some (Inr b, w') \<longleftrightarrow> r = Inr b \<and> w = w'" "io_call c w = Some (Inr b, w') \<longleftrightarrow> c w = (Inr b, w')"
  "(if p then m else k) w = Some (Inr b, w') \<longleftrightarrow> (if p then m w = Some (Inr b, w') else k w = Some (Inr b, w'))"
  by (auto simp: io_simps)

lemma split_run [run_iff]:
  "(case opt of None \<Rightarrow> m | Some a \<Rightarrow> k a) w = Some (Inr b, w')
     \<longleftrightarrow> opt = None \<and> m w = Some (Inr b, w') \<or> (\<exists>a. opt = Some a \<and> k a w = Some (Inr b, w'))"
  "(case pr of (x, y) \<Rightarrow> h x y) w = Some (Inr b, w') \<longleftrightarrow> h (fst pr) (snd pr) w = Some (Inr b, w')"
  by (auto split: option.split prod.split)

section \<open>Invariants of the world\<close>

definition keeps :: "('w \<Rightarrow> bool) \<Rightarrow> ('w, 'a) io \<Rightarrow> bool" where
  "keeps I m \<longleftrightarrow> (\<forall>w. I w \<longrightarrow> io_post m w (\<lambda>r w'. I w'))"

named_theorems keeps_intros \<open>effects that keep an invariant of the world\<close>

lemma keepsI: "(\<And>w. I w \<Longrightarrow> io_post m w (\<lambda>r w'. I w')) \<Longrightarrow> keeps I m"
  by (simp add: keeps_def)

lemma keepsD: "keeps I m \<Longrightarrow> I w \<Longrightarrow> m w = Some (r, w') \<Longrightarrow> I w'"
  by (auto simp: keeps_def dest: io_postD)

lemma keeps_post: "keeps I m \<Longrightarrow> I w \<Longrightarrow> io_post m w (\<lambda>r w'. I w')"
  by (simp add: keeps_def)

lemma keeps_return [keeps_intros]: "keeps I (io_return a)"
  by (simp add: keeps_def io_wp)

lemma keeps_throw [keeps_intros]: "keeps I (io_throw e)"
  by (simp add: keeps_def io_wp)

lemma keeps_res [keeps_intros]: "keeps I (io_res r)"
  by (simp add: keeps_def io_wp)

lemma keeps_bind [keeps_intros]:
  assumes "keeps I m" and "\<And>a. keeps I (f a)"
  shows "keeps I (io_bind m f)"
  using assms by (auto simp: keeps_def io_wp elim!: io_post_mono split: sum.split)

lemma keeps_catch [keeps_intros]:
  assumes "keeps I m" and "\<And>e. keeps I (h e)"
  shows "keeps I (io_catch m h)"
  using assms by (auto simp: keeps_def io_wp elim!: io_post_mono split: sum.split)

lemma keeps_if [keeps_intros]: "keeps I m \<Longrightarrow> keeps I m' \<Longrightarrow> keeps I (if b then m else m')"
  by simp

lemma keeps_let [keeps_intros]: "(\<And>y. keeps I (f y)) \<Longrightarrow> keeps I (let x = t in f x)"
  by (simp add: Let_def)

lemma keeps_option [keeps_intros]:
  "keeps I m \<Longrightarrow> (\<And>x. keeps I (f x)) \<Longrightarrow> keeps I (case opt of None \<Rightarrow> m | Some x \<Rightarrow> f x)"
  by (cases opt) simp_all

lemma keeps_prod [keeps_intros]: "(\<And>x y. keeps I (f x y)) \<Longrightarrow> keeps I (case p of (x, y) \<Rightarrow> f x y)"
  by (cases p) simp

end
