(* ===== verification/Disclosure.thy ===== *)
theory Disclosure
  imports Auditor Postconditions
begin

text \<open>
  \<^verbatim>\<open>disclosure/*.ts\<close> and \<^verbatim>\<open>proving/prover.ts\<close>: recipients' keys and requests, the bundle
  a holder proves, and the verification of a bundle against the chain. Shown: the amount a verifier
  accepts is the amount of the event for a bundle an honest holder made, an accepted bundle was
  verified against inputs rebuilt from chain state, and what a bundle can influence is its
  ciphertext alone.
\<close>

section \<open>The prover\<close>

text \<open>
  The proving backend is created from the circuit's bytecode on first use and kept. The loader, the
  witness solver and the backend's three operations are third-party code; every one of them is
  called with the keccak transcript.
\<close>

record ('b, 'w) backendOps =
  bb_load :: "string \<Rightarrow> 'w \<Rightarrow> 'b res \<times> 'w"
  noir_execute :: "noirInputs \<Rightarrow> 'w \<Rightarrow> byte list res \<times> 'w"
  bb_generateProof :: "'b \<Rightarrow> byte list \<Rightarrow> bool \<Rightarrow> 'w \<Rightarrow> (byte list \<times> string list) res \<times> 'w"
  bb_verifyProof :: "'b \<Rightarrow> byte list \<Rightarrow> string list \<Rightarrow> bool \<Rightarrow> 'w \<Rightarrow> bool res \<times> 'w"
  bb_getVerificationKey :: "'b \<Rightarrow> bool \<Rightarrow> 'w \<Rightarrow> byte list res \<times> 'w"
  bb_destroy :: "'b \<Rightarrow> 'w \<Rightarrow> unit res \<times> 'w"

record 'b circuitProver =
  cp_bytecode :: string
  cp_backend :: "'b option"

definition KECCAK :: bool where "KECCAK = True"

definition backendInstance :: "('b, 'w) backendOps \<Rightarrow> ('b circuitProver \<times> 'w, 'b) io" where
  "backendInstance B = (\<lambda>(cp, w). case cp_backend cp of
       Some b \<Rightarrow> Some (Inr b, (cp, w))
     | None \<Rightarrow> (case bb_load B (cp_bytecode cp) w of
          (Inl e, w') \<Rightarrow> Some (Inl e, (cp, w'))
        | (Inr b, w') \<Rightarrow> Some (Inr b, (cp\<lparr>cp_backend := Some b\<rparr>, w'))))"

definition bb_io :: "('w \<Rightarrow> 'a res \<times> 'w) \<Rightarrow> ('b circuitProver \<times> 'w, 'a) io" where
  "bb_io f = (\<lambda>(cp, w). case f w of (r, w') \<Rightarrow> Some (r, (cp, w')))"

definition prove :: "('b, 'w) backendOps \<Rightarrow> noirInputs \<Rightarrow> ('b circuitProver \<times> 'w, byte list \<times> string list) io" where
  "prove B inputs =
     io_bind (bb_io (noir_execute B inputs)) (\<lambda>witness.
     io_bind (backendInstance B) (\<lambda>b. bb_io (bb_generateProof B b witness KECCAK)))"

definition verify ::
  "('b, 'w) backendOps \<Rightarrow> byte list \<Rightarrow> string list \<Rightarrow> ('b circuitProver \<times> 'w, bool) io" where
  "verify B proof publicInputs =
     io_bind (backendInstance B) (\<lambda>b. bb_io (bb_verifyProof B b proof publicInputs KECCAK))"

definition verificationKey :: "('b, 'w) backendOps \<Rightarrow> ('b circuitProver \<times> 'w, byte list) io" where
  "verificationKey B = io_bind (backendInstance B) (\<lambda>b. bb_io (bb_getVerificationKey B b KECCAK))"

definition destroy :: "('b, 'w) backendOps \<Rightarrow> ('b circuitProver \<times> 'w, unit) io" where
  "destroy B = (\<lambda>(cp, w). case cp_backend cp of None \<Rightarrow> Some (Inr (), (cp, w))
     | Some b \<Rightarrow> bb_io (bb_destroy B b) (cp, w))"

lemma backendInstance_keeps:
  "backendInstance B (cp, w) = Some (r, (cp', w')) \<Longrightarrow> cp_bytecode cp' = cp_bytecode cp
     \<and> (\<forall>b. cp_backend cp = Some b \<longrightarrow> cp' = cp \<and> r = Inr b \<and> w' = w)
     \<and> (\<forall>b. r = Inr b \<longrightarrow> cp_backend cp' = Some b)"
  by (auto simp: backendInstance_def split: option.splits prod.splits sum.splits)

text \<open>A backend that was created once is the one every later call uses.\<close>

lemma backend_created_once:
  assumes "backendInstance B (cp, w) = Some (Inr b, (cp', w'))"
  shows "backendInstance B (cp', v) = Some (Inr b, (cp', v))"
  using backendInstance_keeps[OF assms] by (simp add: backendInstance_def)

section \<open>Wire types\<close>

definition DISCLOSE_RECIPIENT_CIRCUIT_ID :: string where
  "DISCLOSE_RECIPIENT_CIRCUIT_ID = ''disclose_recipient''"

definition DISCLOSE_SENDER_CIRCUIT_ID :: string where
  "DISCLOSE_SENDER_CIRCUIT_ID = ''disclose_sender''"

definition DISCLOSURE_CIRCUIT_IDS :: "string list" where
  "DISCLOSURE_CIRCUIT_IDS = [DISCLOSE_RECIPIENT_CIRCUIT_ID, DISCLOSE_SENDER_CIRCUIT_ID]"

record jsonPoint =
  jp_x :: string
  jp_y :: string

record disclosureRequest =
  rq_pR :: jsonPoint
  rq_nu :: string

record disclosureBundle =
  db_circuitId :: string
  db_refE :: eventRefT
  db_proof :: string
  db_rDisc :: jsonPoint
  db_vTildeDisc :: string

record recipientKeys =
  rk_rR :: int
  rk_pR :: jsonPoint

section \<open>Recipients\<close>

definition pointToJson :: "'p prims \<Rightarrow> 'p \<Rightarrow> jsonPoint" where
  "pointToJson K p = (case pointCoords K p of (x, y) \<Rightarrow> \<lparr>jp_x = toHex32 x, jp_y = toHex32 y\<rparr>)"

definition pointFromJson :: "'p prims \<Rightarrow> jsonPoint \<Rightarrow> 'p res" where
  "pointFromJson K p = rbind (fromHex (jp_x p)) (\<lambda>x. rbind (fromHex (jp_y p)) (\<lambda>y. fromAffine K (x, y)))"

definition recipientKeysFromSecret :: "'p prims \<Rightarrow> int \<Rightarrow> recipientKeys" where
  "recipientKeysFromSecret K rR = \<lparr>rk_rR = rR, rk_pR = pointToJson K (scalarMul K rR (H K))\<rparr>"

definition generateRecipientKeys ::
  "'p prims \<Rightarrow> byte list list \<Rightarrow> (recipientKeys \<times> byte list list) option" where
  "generateRecipientKeys K samples = (case randomScalar samples of None \<Rightarrow> None
     | Some (rR, rest) \<Rightarrow> Some (recipientKeysFromSecret K rR, rest))"

definition newDisclosureRequest ::
  "recipientKeys \<Rightarrow> byte list list \<Rightarrow> (disclosureRequest \<times> byte list list) option" where
  "newDisclosureRequest keys samples = (case randomScalar samples of None \<Rightarrow> None
     | Some (nu, rest) \<Rightarrow> Some (\<lparr>rq_pR = rk_pR keys, rq_nu = toHex32 nu\<rparr>, rest))"

definition decryptDisclosure :: "'p prims \<Rightarrow> int \<Rightarrow> 'p \<Rightarrow> int \<Rightarrow> int \<Rightarrow> int res" where
  "decryptDisclosure K rR rDisc vTildeDisc nu =
     rmap (\<lambda>sDiscX. decryptWithDomain (permute K) vTildeDisc DISCLOSURE sDiscX nu) (ecdh K rR rDisc)"

section \<open>Holders\<close>

definition disclosureBundleOf :: "'p prims \<Rightarrow> string \<Rightarrow> 'p confidentialEvent \<Rightarrow> byte list \<Rightarrow> 'p discloseWitness \<Rightarrow> disclosureBundle" where
  "disclosureBundleOf K circuitId event proof w =
     \<lparr>db_circuitId = circuitId, db_refE = eventRef event, db_proof = ''0x'' @ bytesToHex proof,
      db_rDisc = pointToJson K (dw_rDisc w), db_vTildeDisc = toHex32 (dw_vTildeDisc w)\<rparr>"

text \<open>The fields of a transfer event a disclosure is about.\<close>

fun disclose_event :: "'p eventBody \<Rightarrow> 'p discloseEvent option" where
  "disclose_event (TransferEvent f t rE vTilde sigma bTilde vAudR rAudR vAudS bAudS) =
     Some \<lparr>de_rE = rE, de_sigma = sigma, de_vTilde = vTilde\<rparr>"
| "disclose_event _ = None"

definition event_fields :: "'p confidentialEvent \<Rightarrow> 'p discloseEvent res" where
  "event_fields event = (case disclose_event (ev_body event) of None \<Rightarrow> Inl (TypeError ''not a transfer event'') | Some de \<Rightarrow> Inr de)"

text \<open>The source's type of \<^verbatim>\<open>event\<close> is that of transfer events. \<^verbatim>\<open>fd\<close> is the draw of the
  disclosure's ephemeral scalar.\<close>

definition proveRecipientDisclosure ::
  "('b, 'w) backendOps \<Rightarrow> 'p prims \<Rightarrow> 'p keyPair \<Rightarrow> 'p confidentialEvent
   \<Rightarrow> disclosureRequest \<Rightarrow> int \<Rightarrow> ('b circuitProver \<times> 'w, disclosureBundle) io" where
  "proveRecipientDisclosure B K keys event request fd =
     io_bind (io_res (rbind (event_fields event) (\<lambda>de. rbind (pointFromJson K (rq_pR request)) (\<lambda>pR.
       rbind (fromHex (rq_nu request)) (\<lambda>nu.
         buildDiscloseRecipientWitness K keys de pR nu None fd))))) (\<lambda>w.
     io_bind (prove B (dw_inputs w)) (\<lambda>(proof, publicInputs).
     io_return (disclosureBundleOf K DISCLOSE_RECIPIENT_CIRCUIT_ID event proof w)))"

definition proveSenderDisclosure ::
  "('b, 'w) backendOps \<Rightarrow> 'p prims \<Rightarrow> 'p keyPair \<Rightarrow> int \<Rightarrow> 'p confidentialEvent
   \<Rightarrow> 'p \<Rightarrow> disclosureRequest \<Rightarrow> int \<Rightarrow> ('b circuitProver \<times> 'w, disclosureBundle) io" where
  "proveSenderDisclosure B K keys rEScalar event pvkB request fd =
     io_bind (io_res (rbind (event_fields event) (\<lambda>de. rbind (pointFromJson K (rq_pR request)) (\<lambda>pR.
       rbind (fromHex (rq_nu request)) (\<lambda>nu.
         buildDiscloseSenderWitness K keys rEScalar de pvkB pR nu None fd))))) (\<lambda>w.
     io_bind (prove B (dw_inputs w)) (\<lambda>(proof, publicInputs).
     io_return (disclosureBundleOf K DISCLOSE_SENDER_CIRCUIT_ID event proof w)))"

section \<open>Verifiers\<close>

text \<open>The display trace: one constructor per message, with the values it shows.\<close>

datatype verifyStep =
    VkPinned string nat
  | ResolvedEvent string string string int
  | ReadPvkA bool string
  | ReadPvkB string
  | ConstructedInputs
  | ProofVerified
  | Decrypted int

record 'p verifiedDisclosure =
  vd_amount :: int
  vd_event :: "'p confidentialEvent"
  vd_role :: string
  vd_disclosingAccount :: string
  vd_steps :: "verifyStep list"

text \<open>The verifier's world is the network's and its prover's.\<close>

definition on_net :: "('w, 'a) io \<Rightarrow> ('b circuitProver \<times> 'w, 'a) io" where
  "on_net m = (\<lambda>(cp, w). case m w of None \<Rightarrow> None | Some (r, w') \<Rightarrow> Some (r, (cp, w')))"

definition coords_member :: "'p prims \<Rightarrow> 'p option \<Rightarrow> (int \<times> int) res" where
  "coords_member K p = (case p of None \<Rightarrow> Inl (TypeError ''undefined'') | Some q \<Rightarrow> Inr (pointCoords K q))"

definition publicInputsOf ::
  "int \<Rightarrow> int \<times> int \<Rightarrow> int \<times> int \<Rightarrow> int \<Rightarrow> int \<Rightarrow> (int \<times> int) option \<Rightarrow> disclosureRequest
   \<Rightarrow> disclosureBundle \<Rightarrow> string list res" where
  "publicInputsOf addrF pvkA rE sigma vTilde pvkB request bundle =
     traverse (\<lambda>h. rmap toHex32 (fromHex h))
       ([toHex32 addrF, toHex32 (fst pvkA), toHex32 (snd pvkA), toHex32 (fst rE), toHex32 (snd rE),
         toHex32 sigma, toHex32 vTilde]
        @ (case pvkB of None \<Rightarrow> [] | Some (x, y) \<Rightarrow> [toHex32 x, toHex32 y])
        @ [jp_x (rq_pR request), jp_y (rq_pR request), rq_nu request,
           jp_x (db_rDisc bundle), jp_y (db_rDisc bundle), db_vTildeDisc bundle])"

definition pin_step ::
  "('b, 'w) backendOps \<Rightarrow> string \<Rightarrow> byte list option \<Rightarrow> ('b circuitProver \<times> 'w, verifyStep list) io" where
  "pin_step B circuitId pinnedVk = (case pinnedVk of None \<Rightarrow> io_return []
     | Some pinned \<Rightarrow> io_bind (verificationKey B) (\<lambda>vk.
         if vk \<noteq> pinned then io_throw (VerifyFailed ''vk-pinning'')
         else io_return [VkPinned circuitId (length vk)]))"

text \<open>The last step: the sealed value is opened and bounded.\<close>

definition open_step ::
  "'p prims \<Rightarrow> disclosureBundle \<Rightarrow> disclosureRequest \<Rightarrow> recipientKeys \<Rightarrow> bool \<Rightarrow> 'p confidentialEvent
   \<Rightarrow> string \<Rightarrow> string \<Rightarrow> verifyStep list \<Rightarrow> ('b circuitProver \<times> 'w, 'p verifiedDisclosure) io" where
  "open_step K bundle request keys isSender event from1 to1 steps =
     (let disclosingAccount = (if isSender then from1 else to1) in
     io_bind (io_res (rbind (pointFromJson K (db_rDisc bundle)) (\<lambda>rDisc.
        rbind (fromHex (db_vTildeDisc bundle)) (\<lambda>c.
        rbind (fromHex (rq_nu request)) (\<lambda>nu. decryptDisclosure K (rk_rR keys) rDisc c nu))))) (\<lambda>amount.
     if push_bit 127 1 \<le> amount then io_throw (VerifyFailed ''decrypt'')
     else io_return \<lparr>vd_amount = amount, vd_event = event,
        vd_role = (if isSender then ''sender'' else ''recipient''),
        vd_disclosingAccount = disclosingAccount,
        vd_steps = steps @ [ResolvedEvent from1 to1 (ev_txHash event) (ev_ledger event),
            ReadPvkA isSender disclosingAccount] @ (if isSender then [ReadPvkB to1] else [])
          @ [ConstructedInputs, ProofVerified, Decrypted amount]\<rparr>))"

text \<open>The checks after the disclosing account has been read.\<close>

definition check_rest ::
  "('b, 'w) backendOps \<Rightarrow> 'p prims \<Rightarrow> 'w chainClient \<Rightarrow> disclosureBundle \<Rightarrow> disclosureRequest
   \<Rightarrow> recipientKeys \<Rightarrow> bool \<Rightarrow> 'p confidentialEvent \<Rightarrow> 'p discloseEvent \<Rightarrow> string \<Rightarrow> string
   \<Rightarrow> verifyStep list \<Rightarrow> 'p onChainAccount \<Rightarrow> ('b circuitProver \<times> 'w, 'p verifiedDisclosure) io" where
  "check_rest B K client bundle request keys isSender event de from1 to1 steps accountA =
     io_bind (if isSender
        then io_bind (on_net (confidentialBalance K client to1)) (\<lambda>accB.
          case accB of None \<Rightarrow> io_throw (VerifyFailed ''resolve-account'')
          | Some accountB \<Rightarrow> io_bind (io_res (coords_member K (oc_viewingPublicKey accountB)))
              (\<lambda>c. io_return (Some c)))
        else io_return None) (\<lambda>pvkB.
     io_bind (io_res (addressToField (permute K) (c_token (cc_contracts client)))) (\<lambda>addrF.
     io_bind (io_res (coords_member K (oc_viewingPublicKey accountA))) (\<lambda>pvkA.
     io_bind (io_res (publicInputsOf addrF pvkA (pointCoords K (de_rE de)) (de_sigma de) (de_vTilde de)
        pvkB request bundle)) (\<lambda>publicInputs.
     io_bind (io_res (hexToBytes (db_proof bundle))) (\<lambda>proof.
     io_bind (verify B proof publicInputs) (\<lambda>ok.
     if \<not> ok then io_throw (VerifyFailed ''verify-proof'')
     else
     open_step K bundle request keys isSender event from1 to1 steps))))))"

definition check_step ::
  "('b, 'w) backendOps \<Rightarrow> 'p prims \<Rightarrow> 'w chainClient \<Rightarrow> disclosureBundle \<Rightarrow> disclosureRequest
   \<Rightarrow> recipientKeys \<Rightarrow> bool \<Rightarrow> 'p confidentialEvent \<Rightarrow> 'p discloseEvent \<Rightarrow> string \<Rightarrow> string
   \<Rightarrow> verifyStep list \<Rightarrow> ('b circuitProver \<times> 'w, 'p verifiedDisclosure) io" where
  "check_step B K client bundle request keys isSender event de from1 to1 steps =
     (let disclosingAccount = (if isSender then from1 else to1) in
     io_bind (on_net (confidentialBalance K client disclosingAccount)) (\<lambda>accA.
     case accA of None \<Rightarrow> io_throw (VerifyFailed ''resolve-account'')
     | Some accountA \<Rightarrow>
       check_rest B K client bundle request keys isSender event de from1 to1 steps accountA))"

definition verifyDisclosure ::
  "('b, 'w) backendOps \<Rightarrow> 'p prims \<Rightarrow> 'w chainClient \<Rightarrow> disclosureBundle \<Rightarrow> disclosureRequest
   \<Rightarrow> recipientKeys \<Rightarrow> byte list option \<Rightarrow> 'w historyIndexer option
   \<Rightarrow> ('b circuitProver \<times> 'w, 'p verifiedDisclosure) io" where
  "verifyDisclosure B K client bundle request keys pinnedVk indexer =
     (if db_circuitId bundle \<notin> set DISCLOSURE_CIRCUIT_IDS then io_throw (VerifyFailed ''vk-pinning'')
      else
       let isSender = (db_circuitId bundle = DISCLOSE_SENDER_CIRCUIT_ID) in
       if jp_x (rq_pR request) \<noteq> jp_x (rk_pR keys) \<or> jp_y (rq_pR request) \<noteq> jp_y (rk_pR keys)
       then io_throw (VerifyFailed ''decrypt'')
       else
       io_bind (pin_step B (db_circuitId bundle) pinnedVk) (\<lambda>steps.
       io_bind (on_net (hybridResolveEventRef K (cs_rpc (cc_server client)) indexer
           (c_token (cc_contracts client)) (db_refE bundle))) (\<lambda>resolved.
       case resolved of None \<Rightarrow> io_throw (VerifyFailed ''resolve-event'')
       | Some event \<Rightarrow>
         (case ev_body event of
            TransferEvent f t rE vTilde sigma bTilde vAudR rAudR vAudS bAudS \<Rightarrow>
              check_step B K client bundle request keys isSender event
                \<lparr>de_rE = rE, de_sigma = sigma, de_vTilde = vTilde\<rparr> f t steps
          | _ \<Rightarrow> io_throw (VerifyFailed ''resolve-event'')))))"

section \<open>From the holder to the verifier\<close>

lemma toHex32_back: "isCanonicalFr x \<Longrightarrow> fromHex (toHex32 x) = Inr x"
  by (simp add: frMod_id)

lemma point_json_back:
  assumes "curve_laws K" and "P \<noteq> pzero K"
  shows "pointFromJson K (pointToJson K P) = Inr P"
proof -
  obtain x y where xy: "toAffine K P = (x, y)" by (cases "toAffine K P")
  with curve_affine_canonical[OF assms(1), of P] have "isCanonicalFr x" "isCanonicalFr y" by simp_all
  with xy assms curve_affine(1)[OF assms] show ?thesis
    by (simp add: pointFromJson_def pointToJson_def pointCoords_def curve_is0 frMod_id)
qed

text \<open>
  The recipient's public key is never the identity when the secret is a drawn scalar, so a request
  parses back to the key it was made from.
\<close>

lemma request_key_back:
  assumes "curve_laws K" and "rR mod FP_MODULUS \<noteq> 0"
  shows "pointFromJson K (rk_pR (recipientKeysFromSecret K rR)) = Inr (scalarMul K rR (H K))"
  using point_json_back[OF assms(1) H_ne_zero[OF assms]] by (simp add: recipientKeysFromSecret_def)

lemma decryptDisclosure_sealed:
  assumes "curve_laws K" and "ecdh K rd (scalarMul K rR (H K)) = Inr s" and "0 \<le> v" "v < 2 ^ 127"
  shows "decryptDisclosure K rR (scalarMul K rd (H K)) (encryptDisclosure (permute K) v s nu) nu = Inr v"
  using ecdh_agree[OF assms(1), of rR rd] assms(2) disclosure_channel.open_amount[OF assms(3,4)]
  by (simp add: decryptDisclosure_def)

text \<open>What a holder sees of an event a builder made: the recipient and the sender read its amount.\<close>

lemma recipient_discloses_amount:
  assumes K: "curve_laws K" and keys: "key_set K keys" and pv: "tp_pvkB p = k_PVK keys"
    and w: "buildTransferWitness K p fs = Inr w" and a: "tp_amount p < 2 ^ 127"
    and d: "buildDiscloseRecipientWitness K keys \<lparr>de_rE = t_rE (tw_payload w), de_sigma = t_sigma (tw_payload w),
       de_vTilde = t_vTilde (tw_payload w)\<rparr> pR nu g fd = Inr dw"
  shows "dw_vTx dw = tp_amount p"
proof -
  obtain sX where "ecdh K (k_vk keys) (t_rE (tw_payload w)) = Inr sX"
    "dw_vTx dw = decryptWithDomain (permute K) (t_vTilde (tw_payload w)) TX_AMOUNT sX (t_sigma (tw_payload w))"
    using discloseRecipient_built[OF d] by (metis discloseEvent.select_convs)
  then show ?thesis using incoming_amount(1)[OF K keys pv w a]
    by (simp add: decryptIncoming_def decryptWithDomain_def)
qed

lemma sender_discloses_amount:
  assumes K: "curve_laws K" and w: "buildTransferWitness K p fs = Inr w" and a: "tp_amount p < 2 ^ 127"
    and d: "buildDiscloseSenderWitness K keys (tw_rEScalar w) \<lparr>de_rE = t_rE (tw_payload w),
       de_sigma = t_sigma (tw_payload w), de_vTilde = t_vTilde (tw_payload w)\<rparr> (tp_pvkB p) pR nu g fd = Inr dw"
  shows "dw_vTx dw = tp_amount p"
proof -
  let ?sg = "given (tp_sigma p) fs"
  obtain rE sX where b: "0 \<le> tp_amount p" "ecdh K rE (tp_pvkB p) = Inr sX"
    "t_vTilde (tw_payload w) = encryptAmount (permute K) (tp_amount p) sX ?sg"
    "t_sigma (tw_payload w) = ?sg" "tw_rEScalar w = rE"
    by (rule transfer_built[OF w]) simp
  obtain sX' where "ecdh K (tw_rEScalar w) (tp_pvkB p) = Inr sX'"
    "dw_vTx dw = decryptWithDomain (permute K) (t_vTilde (tw_payload w)) TX_AMOUNT sX' (t_sigma (tw_payload w))"
    using discloseSender_built[OF d] by (metis discloseEvent.select_convs)
  with b show ?thesis using amount_channel.open_amount[OF b(1) a] by simp
qed

text \<open>
  A bundle's ciphertext opens, under the key of the request it answers, to the amount its witness
  holds, for both roles.
\<close>

lemma recipient_bundle_opens:
  assumes K: "curve_laws K" and r: "rR mod FP_MODULUS \<noteq> 0" and fd: "fd mod FP_MODULUS \<noteq> 0"
    and nn: "0 \<le> dw_vTx dw"
    and d: "buildDiscloseRecipientWitness K keys de (scalarMul K rR (H K)) nu None fd = Inr dw"
  shows "rbind (pointFromJson K (db_rDisc (disclosureBundleOf K cid event proof dw))) (\<lambda>rDisc.
     rbind (fromHex (db_vTildeDisc (disclosureBundleOf K cid event proof dw)))
       (\<lambda>c. decryptDisclosure K rR rDisc c nu)) = Inr (dw_vTx dw)"
proof -
  obtain sD where b: "dw_vTx dw < 2 ^ 127" "ecdh K fd (scalarMul K rR (H K)) = Inr sD"
    "dw_rDisc dw = scalarMul K fd (H K)" "dw_vTildeDisc dw = encryptDisclosure (permute K) (dw_vTx dw) sD nu"
    by (rule discloseRecipient_built[OF d]) simp
  have "pointFromJson K (pointToJson K (dw_rDisc dw)) = Inr (dw_rDisc dw)"
    using point_json_back[OF K H_ne_zero[OF K fd]] b(3) by simp
  moreover have "fromHex (toHex32 (dw_vTildeDisc dw)) = Inr (dw_vTildeDisc dw)"
    unfolding b(4) by (rule disclosure_channel.seal_hex)
  ultimately show ?thesis using decryptDisclosure_sealed[OF K b(2) nn b(1)] b(3,4)
    by (simp add: disclosureBundleOf_def)
qed

lemma sender_bundle_opens:
  assumes K: "curve_laws K" and r: "rR mod FP_MODULUS \<noteq> 0" and fd: "fd mod FP_MODULUS \<noteq> 0"
    and nn: "0 \<le> dw_vTx dw"
    and d: "buildDiscloseSenderWitness K keys rE de pvkB (scalarMul K rR (H K)) nu None fd = Inr dw"
  shows "rbind (pointFromJson K (db_rDisc (disclosureBundleOf K cid event proof dw))) (\<lambda>rDisc.
     rbind (fromHex (db_vTildeDisc (disclosureBundleOf K cid event proof dw)))
       (\<lambda>c. decryptDisclosure K rR rDisc c nu)) = Inr (dw_vTx dw)"
proof -
  obtain sD where b: "dw_vTx dw < 2 ^ 127" "ecdh K fd (scalarMul K rR (H K)) = Inr sD"
    "dw_rDisc dw = scalarMul K fd (H K)" "dw_vTildeDisc dw = encryptDisclosure (permute K) (dw_vTx dw) sD nu"
    by (rule discloseSender_built[OF d]) simp
  have "pointFromJson K (pointToJson K (dw_rDisc dw)) = Inr (dw_rDisc dw)"
    using point_json_back[OF K H_ne_zero[OF K fd]] b(3) by simp
  moreover have "fromHex (toHex32 (dw_vTildeDisc dw)) = Inr (dw_vTildeDisc dw)"
    unfolding b(4) by (rule disclosure_channel.seal_hex)
  ultimately show ?thesis using decryptDisclosure_sealed[OF K b(2) nn b(1)] b(3,4)
    by (simp add: disclosureBundleOf_def)
qed

section \<open>What an accepted bundle went through\<close>

text \<open>
  What a bundle can influence of the public inputs is its ciphertext: the inputs made for two
  bundles, against one event, one set of keys and one request, differ in the last three only.
\<close>

theorem publicInputs_prefix:
  assumes "publicInputsOf addrF pvkA rE sg vt pvkB request b1 = Inr xs"
    and "publicInputsOf addrF pvkA rE sg vt pvkB request b2 = Inr ys"
  shows "length xs = length ys \<and> take (length xs - 3) xs = take (length ys - 3) ys"
proof -
  let ?f = "\<lambda>h. rmap toHex32 (fromHex h)"
  let ?pre = "[toHex32 addrF, toHex32 (fst pvkA), toHex32 (snd pvkA), toHex32 (fst rE), toHex32 (snd rE),
         toHex32 sg, toHex32 vt] @ (case pvkB of None \<Rightarrow> [] | Some (x, y) \<Rightarrow> [toHex32 x, toHex32 y])
        @ [jp_x (rq_pR request), jp_y (rq_pR request), rq_nu request]"
  have split: "publicInputsOf addrF pvkA rE sg vt pvkB request b
      = traverse ?f (?pre @ [jp_x (db_rDisc b), jp_y (db_rDisc b), db_vTildeDisc b])" for b
    unfolding publicInputsOf_def by simp
  obtain ps where ps: "traverse ?f ?pre = Inr ps"
    using assms(1) unfolding split traverse_append by (rule rbind_InrE)
  from assms ps obtain q1 q2 where
    "xs = ps @ q1" "traverse ?f [jp_x (db_rDisc b1), jp_y (db_rDisc b1), db_vTildeDisc b1] = Inr q1"
    "ys = ps @ q2" "traverse ?f [jp_x (db_rDisc b2), jp_y (db_rDisc b2), db_vTildeDisc b2] = Inr q2"
    unfolding split traverse_append by (auto simp: rmap_Inr_iff)
  moreover from this have "length q1 = 3" "length q2 = 3"
    using traverse_length by fastforce+
  ultimately show ?thesis by simp
qed

definition sample_bundle :: "int \<Rightarrow> disclosureBundle" where
  "sample_bundle c = \<lparr>db_circuitId = [], db_refE = \<lparr>ref_ledger = 1, ref_id = [], ref_txHash = []\<rparr>, db_proof = [],
     db_rDisc = \<lparr>jp_x = toHex32 11, jp_y = toHex32 12\<rparr>, db_vTildeDisc = toHex32 c\<rparr>"

definition sample_inputs :: "int \<Rightarrow> string list res" where
  "sample_inputs c = publicInputsOf 1 (2, 3) (4, 5) 6 7 None
     \<lparr>rq_pR = \<lparr>jp_x = toHex32 8, jp_y = toHex32 9\<rparr>, rq_nu = toHex32 10\<rparr> (sample_bundle c)"

theorem publicInputs_prefix_witness:
  "\<exists>xs ys. sample_inputs 13 = Inr xs \<and> sample_inputs 14 = Inr ys \<and> take (length xs - 3) xs = take (length ys - 3) ys"
proof -
  have "\<exists>xs. sample_inputs c = Inr xs" for c
    by (simp add: sample_inputs_def publicInputsOf_def sample_bundle_def)
  then obtain xs ys where "sample_inputs 13 = Inr xs" "sample_inputs 14 = Inr ys" by blast
  with publicInputs_prefix[OF this[unfolded sample_inputs_def]] show ?thesis by blast
qed

text \<open>What the holder of the request's secret reads from a bundle's ciphertext.\<close>

definition opened_amount :: "'p prims \<Rightarrow> int \<Rightarrow> disclosureRequest \<Rightarrow> disclosureBundle \<Rightarrow> int res" where
  "opened_amount K rR request b = rbind (pointFromJson K (db_rDisc b)) (\<lambda>rDisc.
     rbind (fromHex (db_vTildeDisc b)) (\<lambda>c. rbind (fromHex (rq_nu request)) (decryptDisclosure K rR rDisc c)))"

lemma on_net_run [run_iff]:
  "on_net m cw = Some (Inr a, cw') \<longleftrightarrow> (\<exists>n'. m (snd cw) = Some (Inr a, n') \<and> cw' = (fst cw, n'))"
  by (cases cw) (auto simp: on_net_def split: option.splits prod.splits)

text \<open>The verifier's steps, each from the world it finds to the one it leaves: the pinned key, the event the
  sources return for the bundle's reference, the viewing key of an account on chain.\<close>

definition pinned_as :: "('b, 'w) backendOps \<Rightarrow> byte list option \<Rightarrow> 'b circuitProver \<times> 'w \<Rightarrow> 'b circuitProver \<times> 'w \<Rightarrow> bool" where
  "pinned_as B pinnedVk cw cw' \<longleftrightarrow> (case pinnedVk of None \<Rightarrow> cw' = cw | Some vk \<Rightarrow> verificationKey B cw = Some (Inr vk, cw'))"

definition event_returned ::
  "'p prims \<Rightarrow> 'w chainClient \<Rightarrow> 'w historyIndexer option \<Rightarrow> eventRefT \<Rightarrow> 'b circuitProver \<times> 'w \<Rightarrow> 'p confidentialEvent
   \<Rightarrow> 'b circuitProver \<times> 'w \<Rightarrow> bool" where
  "event_returned K client indexer ref cw event cw' \<longleftrightarrow> (\<exists>n. hybridResolveEventRef K (cs_rpc (cc_server client)) indexer
     (c_token (cc_contracts client)) ref (snd cw) = Some (Inr (Some event), n) \<and> cw' = (fst cw, n))"

definition key_read ::
  "'p prims \<Rightarrow> 'w chainClient \<Rightarrow> string \<Rightarrow> 'b circuitProver \<times> 'w \<Rightarrow> int \<times> int \<Rightarrow> 'b circuitProver \<times> 'w \<Rightarrow> bool" where
  "key_read K client a cw c cw' \<longleftrightarrow> (\<exists>acc n. confidentialBalance K client a (snd cw) = Some (Inr (Some acc), n)
     \<and> coords_member K (oc_viewingPublicKey acc) = Inr c \<and> cw' = (fst cw, n))"

text \<open>The key of the account the event pays, which only a sender's disclosure needs.\<close>

definition other_key_read ::
  "'p prims \<Rightarrow> 'w chainClient \<Rightarrow> bool \<Rightarrow> string \<Rightarrow> 'b circuitProver \<times> 'w \<Rightarrow> (int \<times> int) option \<Rightarrow> 'b circuitProver \<times> 'w \<Rightarrow> bool" where
  "other_key_read K client isSender a cw pvkB cw' \<longleftrightarrow>
     (if isSender then \<exists>c. pvkB = Some c \<and> key_read K client a cw c cw' else pvkB = None \<and> cw' = cw)"

text \<open>
  The proof was verified against inputs made of the contract's address, the keys read from chain, the
  event's own fields, the verifier's own request and the bundle's ciphertext.
\<close>

definition proof_accepted ::
  "('b, 'w) backendOps \<Rightarrow> 'p prims \<Rightarrow> 'w chainClient \<Rightarrow> disclosureBundle \<Rightarrow> disclosureRequest \<Rightarrow> 'p discloseEvent
   \<Rightarrow> int \<times> int \<Rightarrow> (int \<times> int) option \<Rightarrow> 'b circuitProver \<times> 'w \<Rightarrow> 'b circuitProver \<times> 'w \<Rightarrow> bool" where
  "proof_accepted B K client bundle1 request de pvkA pvkB cw cw' \<longleftrightarrow> (\<exists>addrF inputs pf.
       addressToField (permute K) (c_token (cc_contracts client)) = Inr addrF
     \<and> publicInputsOf addrF pvkA (pointCoords K (de_rE de)) (de_sigma de) (de_vTilde de) pvkB request bundle1 = Inr inputs
     \<and> hexToBytes (db_proof bundle1) = Inr pf \<and> verify B pf inputs cw = Some (Inr True, cw'))"

text \<open>What is told of an accepted bundle: the amount its ciphertext opens to under the verifier's secret.\<close>

definition accepted_as ::
  "'p prims \<Rightarrow> disclosureBundle \<Rightarrow> disclosureRequest \<Rightarrow> recipientKeys \<Rightarrow> 'p confidentialEvent \<Rightarrow> bool \<Rightarrow> string \<Rightarrow> string
   \<Rightarrow> 'p verifiedDisclosure \<Rightarrow> bool" where
  "accepted_as K bundle1 request keys event isSender f t vd \<longleftrightarrow> vd_event vd = event
     \<and> vd_disclosingAccount vd = (if isSender then f else t)
     \<and> vd_role vd = (if isSender then ''sender'' else ''recipient'')
     \<and> opened_amount K (rk_rR keys) request bundle1 = Inr (vd_amount vd) \<and> vd_amount vd < 2 ^ 127"

lemma open_step_accepts:
  assumes "open_step K bundle1 request keys isSender event f t steps c = Some (Inr vd, c')"
  shows "c' = c \<and> accepted_as K bundle1 request keys event isSender f t vd"
  using assms unfolding open_step_def accepted_as_def Let_def opened_amount_def
  by (auto simp: run_iff push_bit_eq_mult split: if_splits)

lemma check_rest_accepts:
  assumes "check_rest B K client bundle1 request keys isSender event de f t steps accountA cw = Some (Inr vd, cw')"
  shows "accepted_as K bundle1 request keys event isSender f t vd
    \<and> (\<exists>pvkA pvkB cw1. coords_member K (oc_viewingPublicKey accountA) = Inr pvkA \<and> other_key_read K client isSender t cw pvkB cw1
       \<and> proof_accepted B K client bundle1 request de pvkA pvkB cw1 cw')"
proof -
  from assms obtain pvkB cw1 addrF pvkA inputs pf cw2 where b: "other_key_read K client isSender t cw pvkB cw1"
    and p: "addressToField (permute K) (c_token (cc_contracts client)) = Inr addrF"
      "publicInputsOf addrF pvkA (pointCoords K (de_rE de)) (de_sigma de) (de_vTilde de) pvkB request bundle1 = Inr inputs"
      "hexToBytes (db_proof bundle1) = Inr pf" "verify B pf inputs cw1 = Some (Inr True, cw2)"
    and a: "coords_member K (oc_viewingPublicKey accountA) = Inr pvkA"
    and o1: "open_step K bundle1 request keys isSender event f t steps cw2 = Some (Inr vd, cw')"
    by (cases isSender) (auto simp: check_rest_def other_key_read_def key_read_def run_iff split: if_splits)
  from open_step_accepts[OF o1] p a b show ?thesis unfolding proof_accepted_def by blast
qed

lemma check_step_accepts:
  assumes "check_step B K client bundle1 request keys isSender event de f t steps cw = Some (Inr vd, cw')"
  shows "accepted_as K bundle1 request keys event isSender f t vd
    \<and> (\<exists>pvkA pvkB cw1 cw2. key_read K client (if isSender then f else t) cw pvkA cw1
       \<and> other_key_read K client isSender t cw1 pvkB cw2 \<and> proof_accepted B K client bundle1 request de pvkA pvkB cw2 cw')"
proof -
  from assms obtain accountA n where "confidentialBalance K client (if isSender then f else t) (snd cw) = Some (Inr (Some accountA), n)"
    and r: "check_rest B K client bundle1 request keys isSender event de f t steps accountA (fst cw, n) = Some (Inr vd, cw')"
    unfolding check_step_def Let_def by (simp only: run_iff) blast
  with check_rest_accepts[OF r] show ?thesis unfolding key_read_def by blast
qed

section \<open>Properties\<close>

definition transfer_de :: "'p transferPayload \<Rightarrow> 'p discloseEvent" where
  "transfer_de p = \<lparr>de_rE = t_rE p, de_sigma = t_sigma p, de_vTilde = t_vTilde p\<rparr>"

lemma event_fields_transfer: "ev_body event = transferEventOf f t p \<Longrightarrow> event_fields event = Inr (transfer_de p)"
  by (simp add: event_fields_def transferEventOf_def transfer_de_def)

text \<open>A disclosure of the concrete transfer.\<close>

definition demo_ops :: "(unit, unit) backendOps" where
  "demo_ops = \<lparr>bb_load = (\<lambda>c w. (Inr (), w)), noir_execute = (\<lambda>i w. (Inr [], w)),
     bb_generateProof = (\<lambda>b i k w. (Inr ([], []), w)), bb_verifyProof = (\<lambda>b p i k w. (Inr True, w)),
     bb_getVerificationKey = (\<lambda>b k w. (Inr [1], w)), bb_destroy = (\<lambda>b w. (Inr (), w))\<rparr>"

definition demo_prover :: "unit circuitProver" where
  "demo_prover = \<lparr>cp_bytecode = ''code'', cp_backend = None\<rparr>"

definition demo_request :: disclosureRequest where
  "demo_request = \<lparr>rq_pR = rk_pR (recipientKeysFromSecret demo 19), rq_nu = toHex32 23\<rparr>"

definition demo_paid :: "residue confidentialEvent" where
  "demo_paid = eventOf 4 ''t'' 1 0 (transferEventOf ''me'' ''me'' (tw_payload demo_transferred))"

lemma demo_small: "x mod FP_MODULUS \<noteq> 0" if "0 < x" "x < 1000" for x
  using that by (simp add: FP_MODULUS_def)

lemma demo_ecdh_in: "\<exists>s. ecdh demo 7 (t_rE (tw_payload demo_transferred)) = Inr s
   \<and> decryptWithDomain (\<lambda>_. [7, 11, 0, 0]) (t_vTilde (tw_payload demo_transferred)) TX_AMOUNT s (t_sigma (tw_payload demo_transferred)) = 30"
  using demo_incoming by (auto simp: decryptIncoming_def rmap_Inr_iff decryptWithDomain_def)

lemma demo_seal: "ecdh demo 17 (scalarMul demo 19 (H demo)) = Inr 323"
  by (simp add: demo_eval)

lemma demo_discloses: "\<exists>dw. buildDiscloseRecipientWitness demo demo_keys (transfer_de (tw_payload demo_transferred))
     (scalarMul demo 19 (H demo)) 23 None 17 = Inr dw"
  using demo_ecdh_in by (auto simp: buildDiscloseRecipientWitness_def transfer_de_def Let_def demo_seal
      simp del: demo_H)

lemma demo_sends: "\<exists>dw. buildDiscloseSenderWitness demo demo_keys (tw_rEScalar demo_transferred)
     (transfer_de (tw_payload demo_transferred)) (tp_pvkB demo_transfer)
     (scalarMul demo 19 (H demo)) 23 None 17 = Inr dw"
proof -
  obtain rE sX where b: "transfer_rE demo demo_transfer 0 = Inr rE" "ecdh demo rE (tp_pvkB demo_transfer) = Inr sX"
    "t_vTilde (tw_payload demo_transferred) = encryptAmount (permute demo) (tp_amount demo_transfer) sX (given (tp_sigma demo_transfer) 0)"
    "t_rE (tw_payload demo_transferred) = scalarMul demo rE (H demo)"
    "t_sigma (tw_payload demo_transferred) = given (tp_sigma demo_transfer) 0" "tw_rEScalar demo_transferred = rE"
    by (rule transfer_built[OF demo_transferred]) simp
  then have "decryptWithDomain (permute demo) (t_vTilde (tw_payload demo_transferred)) TX_AMOUNT sX (t_sigma (tw_payload demo_transferred)) = 30"
    using amount_channel.open_amount[of 30 "permute demo" sX] by simp
  then show ?thesis using b(2,4-6)
    by (simp add: buildDiscloseSenderWitness_def transfer_de_def Let_def demo_seal del: demo_H)
qed

lemma demo_paid_body: "ev_body demo_paid = transferEventOf ''me'' ''me'' (tw_payload demo_transferred)"
  by (simp add: demo_paid_def eventOf_def)

lemma demo_proves: "\<exists>b. proveRecipientDisclosure demo_ops demo demo_keys demo_paid demo_request 17 (demo_prover, ())
   = Some (Inr b, (demo_prover\<lparr>cp_backend := Some ()\<rparr>, ()))"
  using demo_discloses demo_H request_key_back[OF demo_laws demo_small[of 19]]
  by (auto simp: proveRecipientDisclosure_def event_fields_transfer[OF demo_paid_body] demo_request_def demo_prover_def demo_ops_def prove_def bb_io_def backendInstance_def
     io_simps frMod_id isCanonicalFr_def FR_MODULUS_def)
lemma demo_proves2: "\<exists>b. proveSenderDisclosure demo_ops demo demo_keys (tw_rEScalar demo_transferred) demo_paid
    (tp_pvkB demo_transfer) demo_request 17 (demo_prover, ())
   = Some (Inr b, (demo_prover\<lparr>cp_backend := Some ()\<rparr>, ()))"
  using demo_sends request_key_back[OF demo_laws demo_small[of 19]]
  by (auto simp: proveSenderDisclosure_def event_fields_transfer[OF demo_paid_body] demo_request_def demo_prover_def demo_ops_def prove_def bb_io_def backendInstance_def
     io_simps frMod_id isCanonicalFr_def FR_MODULUS_def)

text \<open>
  C32: a bundle the recipient of a transfer proves for a request opens, with the secret of the request,
  to the transferred amount, and names the recipient's circuit and the event.
\<close>

theorem recipient_disclosure_opens:
  assumes "curve_laws K" and "key_set K keys" and "tp_pvkB p = k_PVK keys"
    and "buildTransferWitness K p fs = Inr w" and "tp_amount p < 2 ^ 127"
    and "rR mod FP_MODULUS \<noteq> 0" and "fd mod FP_MODULUS \<noteq> 0"
    and "rq_pR request = rk_pR (recipientKeysFromSecret K rR)"
    and "ev_body event = transferEventOf f t (tw_payload w)"
    and "proveRecipientDisclosure B K keys event request fd cw = Some (Inr b, cw')"
  shows "opened_amount K rR request b = Inr (tp_amount p)
    \<and> db_circuitId b = DISCLOSE_RECIPIENT_CIRCUIT_ID \<and> db_refE b = eventRef event"
proof -
  obtain nu dw proof1 where nu: "fromHex (rq_nu request) = Inr nu"
    and d: "buildDiscloseRecipientWitness K keys (transfer_de (tw_payload w)) (scalarMul K rR (H K)) nu None fd = Inr dw"
    and b: "b = disclosureBundleOf K DISCLOSE_RECIPIENT_CIRCUIT_ID event proof1 dw"
    using assms(10) unfolding proveRecipientDisclosure_def event_fields_transfer[OF assms(9)] assms(8) request_key_back[OF assms(1,6)]
    by (elim io_bind_InrE) (auto simp: io_res_apply io_return_apply rbind_Inr_iff split: prod.splits)
  have a: "dw_vTx dw = tp_amount p"
    by (rule recipient_discloses_amount[OF assms(1-5) d[unfolded transfer_de_def]])
  have "0 \<le> dw_vTx dw" unfolding a by (rule transfer_built[OF assms(4)]) simp
  from recipient_bundle_opens[OF assms(1,6,7) this d, of DISCLOSE_RECIPIENT_CIRCUIT_ID event proof1]
  show ?thesis unfolding b a opened_amount_def nu by (simp add: disclosureBundleOf_def)
qed

theorem recipient_disclosure_opens_witness:
  "\<exists>b. opened_amount demo 19 demo_request b = Inr 30 \<and> db_refE b = eventRef demo_paid"
proof -
  obtain b cw where "proveRecipientDisclosure demo_ops demo demo_keys demo_paid demo_request 17 (demo_prover, ()) = Some (Inr b, cw)"
    using demo_proves by blast
  from recipient_disclosure_opens[OF demo_laws demo_keys_sel(1) _ demo_transferred _ demo_small demo_small _ demo_paid_body this, of 19]
  show ?thesis by (auto simp: demo_request_def)
qed

text \<open>
  The same for the sender, who proves from the ephemeral scalar of the transfer instead of the
  recipient's key.
\<close>

theorem sender_disclosure_opens:
  assumes "curve_laws K" and "buildTransferWitness K p fs = Inr w" and "tp_amount p < 2 ^ 127"
    and "rR mod FP_MODULUS \<noteq> 0" and "fd mod FP_MODULUS \<noteq> 0"
    and "rq_pR request = rk_pR (recipientKeysFromSecret K rR)"
    and "ev_body event = transferEventOf f t (tw_payload w)"
    and "proveSenderDisclosure B K keys (tw_rEScalar w) event (tp_pvkB p) request fd cw = Some (Inr b, cw')"
  shows "opened_amount K rR request b = Inr (tp_amount p)
    \<and> db_circuitId b = DISCLOSE_SENDER_CIRCUIT_ID \<and> db_refE b = eventRef event"
proof -
  obtain nu dw proof1 where nu: "fromHex (rq_nu request) = Inr nu"
    and d: "buildDiscloseSenderWitness K keys (tw_rEScalar w) (transfer_de (tw_payload w)) (tp_pvkB p)
        (scalarMul K rR (H K)) nu None fd = Inr dw"
    and b: "b = disclosureBundleOf K DISCLOSE_SENDER_CIRCUIT_ID event proof1 dw"
    using assms(8) unfolding proveSenderDisclosure_def event_fields_transfer[OF assms(7)] assms(6) request_key_back[OF assms(1,4)]
    by (elim io_bind_InrE) (auto simp: io_res_apply io_return_apply rbind_Inr_iff split: prod.splits)
  have a: "dw_vTx dw = tp_amount p"
    by (rule sender_discloses_amount[OF assms(1-3) d[unfolded transfer_de_def]])
  have "0 \<le> dw_vTx dw" unfolding a by (rule transfer_built[OF assms(2)]) simp
  from sender_bundle_opens[OF assms(1,4,5) this d, of DISCLOSE_SENDER_CIRCUIT_ID event proof1]
  show ?thesis unfolding b a opened_amount_def nu by (simp add: disclosureBundleOf_def)
qed

theorem sender_disclosure_opens_witness:
  "\<exists>b. opened_amount demo 19 demo_request b = Inr 30 \<and> db_circuitId b = ''disclose_sender''"
proof -
  obtain b cw where "proveSenderDisclosure demo_ops demo demo_keys (tw_rEScalar demo_transferred) demo_paid
    (tp_pvkB demo_transfer) demo_request 17 (demo_prover, ()) = Some (Inr b, cw)"
    using demo_proves2 by blast
  from sender_disclosure_opens[OF demo_laws demo_transferred _ demo_small demo_small _ demo_paid_body this, of 19]
  show ?thesis by (auto simp: demo_request_def DISCLOSE_SENDER_CIRCUIT_ID_def)
qed

section \<open>The verifier's trust boundary\<close>

lemma pin_step_run: "pin_step B circuitId pinnedVk cw = Some (Inr steps, cw') \<Longrightarrow> pinned_as B pinnedVk cw cw'"
  by (cases pinnedVk) (auto simp: pin_step_def pinned_as_def run_iff split: if_splits)

text \<open>
  C31: an accepted bundle names a known circuit and answers a request under the verifier's own key. The steps
  behind it follow one another: the circuit's verification key is the pinned one, when one is pinned; the sources
  return, for the bundle's reference, the transfer event that the result names, whose transaction and identifier
  are those of the reference; the viewing keys of the event's accounts are read from chain; the proof is
  verified on inputs made of the token's address, these keys, the event's fields, the verifier's request and the
  bundle's ciphertext. The amount is what that ciphertext opens to under the verifier's secret, below \<^verbatim>\<open>2^127\<close>.
\<close>

theorem accepted_disclosure:
  assumes "verifyDisclosure B K client bundle1 request keys pinnedVk indexer cw = Some (Inr vd, cw')"
  shows "db_circuitId bundle1 \<in> set DISCLOSURE_CIRCUIT_IDS \<and> rq_pR request = rk_pR keys
    \<and> ev_cursor (vd_event vd) = ref_id (db_refE bundle1) \<and> ev_txHash (vd_event vd) = ref_txHash (db_refE bundle1)
    \<and> (\<exists>f t rE vTilde sigma bTilde vAudR rAudR vAudS bAudS isSender pvkA pvkB cw1 cw2 cw3 cw4.
        isSender = (db_circuitId bundle1 = DISCLOSE_SENDER_CIRCUIT_ID)
      \<and> pinned_as B pinnedVk cw cw1 \<and> event_returned K client indexer (db_refE bundle1) cw1 (vd_event vd) cw2
      \<and> ev_body (vd_event vd) = TransferEvent f t rE vTilde sigma bTilde vAudR rAudR vAudS bAudS
      \<and> key_read K client (if isSender then f else t) cw2 pvkA cw3 \<and> other_key_read K client isSender t cw3 pvkB cw4
      \<and> proof_accepted B K client bundle1 request \<lparr>de_rE = rE, de_sigma = sigma, de_vTilde = vTilde\<rparr> pvkA pvkB cw4 cw'
      \<and> accepted_as K bundle1 request keys (vd_event vd) isSender f t vd)"
proof -
  let ?s = "db_circuitId bundle1 = DISCLOSE_SENDER_CIRCUIT_ID"
  have own: "db_circuitId bundle1 \<in> set DISCLOSURE_CIRCUIT_IDS" "rq_pR request = rk_pR keys"
    using assms by (auto simp: verifyDisclosure_def Let_def run_iff split: if_splits intro: jsonPoint.equality)
  from assms obtain steps cw1 event n where p: "pinned_as B pinnedVk cw cw1"
    and h: "hybridResolveEventRef K (cs_rpc (cc_server client)) indexer (c_token (cc_contracts client)) (db_refE bundle1) (snd cw1)
      = Some (Inr (Some event), n)"
    and r: "(case ev_body event of TransferEvent f t rE vTilde sigma bTilde vAudR rAudR vAudS bAudS \<Rightarrow>
          check_step B K client bundle1 request keys ?s event \<lparr>de_rE = rE, de_sigma = sigma, de_vTilde = vTilde\<rparr> f t steps
        | _ \<Rightarrow> io_throw (VerifyFailed ''resolve-event'')) (fst cw1, n) = Some (Inr vd, cw')"
    unfolding verifyDisclosure_def Let_def by (simp only: run_iff simp_thms split: if_splits) (blast dest: pin_step_run)
  from r obtain f t rE vTilde sigma bTilde vAudR rAudR vAudS bAudS where
    b: "ev_body event = TransferEvent f t rE vTilde sigma bTilde vAudR rAudR vAudS bAudS"
    and c: "check_step B K client bundle1 request keys ?s event
        \<lparr>de_rE = rE, de_sigma = sigma, de_vTilde = vTilde\<rparr> f t steps (fst cw1, n) = Some (Inr vd, cw')"
    by (cases "ev_body event") (simp_all add: io_throw_apply)
  have e: "vd_event vd = event" using check_step_accepts[OF c] by (simp add: accepted_as_def)
  have "event_returned K client indexer (db_refE bundle1) cw1 (vd_event vd) (fst cw1, n)"
    unfolding event_returned_def e using h by blast
  with check_step_accepts[OF c] own p b hybrid_resolve_pinned[OF h] show ?thesis unfolding e by blast
qed

text \<open>A client, and the concrete disclosure accepted.\<close>

definition demo_token :: string where "demo_token = replicate 56 (CHR ''C'')"

definition demo_account_val :: scval where
  "demo_account_val = ScMap [(ScSymbol ''viewing_public_key'', scvBytesOf (catch (pointToBytes demo (res_of 7)) []))]"

definition demo_response :: eventResponse where
  "demo_response = rpcResponse demo 4 ''t'' 1 1 0 (transferEventOf ''me'' ''me'' (tw_payload demo_transferred))"

definition demo_client :: "unit chainClient" where
  "demo_client = \<lparr>cc_server = \<lparr>
      cs_rpc = \<lparr>getHealth = (\<lambda>w. (Inr (Some 1), w)),
        getEvents = (\<lambda>r w. (Inr \<lparr>resp_events = [demo_response], resp_cursor = None, resp_latestLedger = 9\<rparr>, w))\<rparr>,
      cs_getAccount = (\<lambda>a w. (Inr \<lparr>ac_address = a, ac_sequence = 0\<rparr>, w)),
      cs_simulate = (\<lambda>t w. (Inr (SimSuccess (Some demo_account_val)), w)),
      cs_assemble = (\<lambda>t r. Inr []), cs_send = (\<lambda>t w. (Inr \<lparr>snd_hash = ''h'', snd_status = SendAccepted\<rparr>, w)),
      cs_getTransaction = (\<lambda>h w. (Inr TxNotFound, w)), cs_latestLedger = (\<lambda>w. (Inr 9, w)),
      cs_address = (\<lambda>a. Inr (ScAddress a))\<rparr>,
    cc_contracts = \<lparr>c_token = demo_token, c_verifier = ''v'', c_auditor = ''a''\<rparr>\<rparr>"

lemma demo_balance: "\<exists>acc. confidentialBalance demo demo_client a () = Some (Inr (Some acc), ())
    \<and> oc_viewingPublicKey acc = Some (res_of 7)"
proof -
  obtain bs where bs: "pointToBytes demo (res_of 7) = Inr bs" "pointFromBytes demo bs = Inr (res_of 7)"
    by (rule pointToBytes_ok[OF demo_laws, of "res_of 7"])
  show ?thesis
    by (simp add: confidentialBalance_def demo_client_def io_simps simulate_def demo_account_val_def
        parseAccount_def account_field_def val_point_def scvBytesOf_def bs empty_account_def)
qed

lemma demo_event_fields:
  "list_all (\<lambda>x. encodable demo (snd x)) (body_data (transferEventOf f t (tw_payload demo_transferred)))"
proof -
  have r: "0 \<le> frAdd a b \<and> frAdd a b < 2 ^ 256" for a b
    using frAdd_canonical[of a b] by (simp add: isCanonicalFr_def FR_MODULUS_def)
  show ?thesis
    using point_encodable[OF demo_laws, of "t_rE (tw_payload demo_transferred)"] r
    by (rule_tac transfer_built[OF demo_transferred])
      (auto simp: transferEventOf_def encryptAmount_def encryptBalance_def demo_transfer_def)
qed

lemma demo_resolved: "hybridResolveEventRef demo (cs_rpc (cc_server demo_client)) None demo_token (eventRef demo_paid) ()
   = Some (Inr (Some demo_paid), ())"
proof -
  have "parseEvent demo demo_response = Inr (Some demo_paid)"
    unfolding demo_response_def demo_paid_def
    by (rule parseEvent_rpcResponse[OF _ demo_event_fields]) (simp_all add: transferEventOf_def)
  moreover have "ev_txHash demo_paid = ref_txHash (eventRef demo_paid)" "ev_cursor demo_paid = ref_id (eventRef demo_paid)"
    by (simp_all add: eventRef_def)
  ultimately show ?thesis
    by (simp add: hybridResolveEventRef_def resolveEventRef_def demo_client_def io_simps List.map_filter_simps)
qed

definition demo_bundle :: "residue discloseWitness \<Rightarrow> disclosureBundle" where
  "demo_bundle dw = disclosureBundleOf demo DISCLOSE_RECIPIENT_CIRCUIT_ID demo_paid [] dw"

lemma demo_verifies:
  "\<exists>b vd cw. verifyDisclosure demo_ops demo demo_client b demo_request (recipientKeysFromSecret demo 19)
     (Some [1]) None (demo_prover, ()) = Some (Inr vd, cw)"
proof -
  obtain dw where dw: "buildDiscloseRecipientWitness demo demo_keys (transfer_de (tw_payload demo_transferred))
     (scalarMul demo 19 (H demo)) 23 None 17 = Inr dw" using demo_discloses by blast
  have amount: "dw_vTx dw = 30"
    using recipient_discloses_amount[OF demo_laws demo_keys_sel(1) _ demo_transferred _ dw[unfolded transfer_de_def]] by simp
  let ?b = "demo_bundle dw" and ?P = "(demo_prover\<lparr>cp_backend := Some ()\<rparr>, ())"
  have opened: "rbind (pointFromJson demo (db_rDisc ?b)) (\<lambda>rDisc.
        rbind (fromHex (db_vTildeDisc ?b)) (\<lambda>c.
        rbind (fromHex (rq_nu demo_request)) (\<lambda>nu. decryptDisclosure demo 19 rDisc c nu))) = Inr 30"
    using recipient_bundle_opens[OF demo_laws demo_small demo_small _ dw] amount
    by (simp add: demo_bundle_def demo_request_def frMod_id isCanonicalFr_def FR_MODULUS_def)
  have fields: "db_circuitId ?b = DISCLOSE_RECIPIENT_CIRCUIT_ID" "db_refE ?b = eventRef demo_paid"
      "db_proof ?b = ''0x''" "db_rDisc ?b = pointToJson demo (dw_rDisc dw)" "db_vTildeDisc ?b = toHex32 (dw_vTildeDisc dw)"
    by (simp_all add: demo_bundle_def disclosureBundleOf_def)
  have inputs: "\<exists>xs. publicInputsOf f a r s v None demo_request ?b = Inr xs" for f a r s v
    by (cases "pointCoords demo (dw_rDisc dw)"; cases "pointCoords demo (scalarMul demo 19 (H demo))")
      (simp add: publicInputsOf_def fields pointToJson_def demo_request_def recipientKeysFromSecret_def del: demo_H)
  obtain acc where acc: "confidentialBalance demo demo_client ''me'' () = Some (Inr (Some acc), ())"
    "oc_viewingPublicKey acc = Some (res_of 7)" using demo_balance by blast
  have rest: "\<exists>vd. check_rest demo_ops demo demo_client ?b demo_request (recipientKeysFromSecret demo 19) False
      demo_paid de ''me'' ''me'' st acc ?P = Some (Inr vd, ?P)" for de st
  proof -
    obtain xs where "publicInputsOf 7 (pointCoords demo (res_of 7)) (pointCoords demo (de_rE de)) (de_sigma de)
       (de_vTilde de) None demo_request ?b = Inr xs" using inputs by blast
    moreover have "addressToField (permute demo) (c_token (cc_contracts demo_client)) = Inr 7"
      by (simp add: demo_client_def addressToField_def demo_token_def encode_ascii_def STRKEY_LEN_def
          poseidonWithDomain_def sponge_demo)
    moreover have "hexToBytes (db_proof ?b) = Inr []" using hexToBytes_0x[of "[]"] fields(3) by simp
    ultimately show ?thesis using opened
      by (simp add: check_rest_def open_step_def io_simps coords_member_def acc(2) verify_def backendInstance_def
          bb_io_def demo_ops_def recipientKeysFromSecret_def Let_def)
  qed
  have ids: "db_circuitId ?b \<in> set DISCLOSURE_CIRCUIT_IDS" "db_circuitId ?b \<noteq> DISCLOSE_SENDER_CIRCUIT_ID"
    by (simp_all add: fields DISCLOSURE_CIRCUIT_IDS_def DISCLOSE_RECIPIENT_CIRCUIT_ID_def DISCLOSE_SENDER_CIRCUIT_ID_def)
  have pin: "pin_step demo_ops c (Some [1]) (demo_prover, ()) = Some (Inr [VkPinned c 1], ?P)" for c
    by (simp add: pin_step_def verificationKey_def backendInstance_def demo_ops_def demo_prover_def bb_io_def io_simps)
  have token: "c_token (cc_contracts demo_client) = demo_token" by (simp add: demo_client_def)
  have body: "ev_body demo_paid = transferEventOf ''me'' ''me'' (tw_payload demo_transferred)"
    by (simp add: demo_paid_def eventOf_def)
  note body = body[unfolded transferEventOf_def]
  have "\<exists>vd. verifyDisclosure demo_ops demo demo_client ?b demo_request (recipientKeysFromSecret demo 19)
     (Some [1]) None (demo_prover, ()) = Some (Inr vd, ?P)"
    using rest demo_resolved acc(1) ids pin
    by (simp add: verifyDisclosure_def demo_request_def[THEN arg_cong[of _ _ rq_pR]] fields(2) token io_simps
        on_net_def body check_step_def)
  then show ?thesis by blast
qed

theorem accepted_disclosure_witness:
  "\<exists>b vd cw. verifyDisclosure demo_ops demo demo_client b demo_request (recipientKeysFromSecret demo 19)
     (Some [1]) None (demo_prover, ()) = Some (Inr vd, cw)
    \<and> opened_amount demo 19 demo_request b = Inr (vd_amount vd)
    \<and> (\<exists>(cw1 :: unit circuitProver \<times> unit) cw2. event_returned demo demo_client None (db_refE b) cw1 (vd_event vd) cw2)"
proof -
  obtain b vd cw where run: "verifyDisclosure demo_ops demo demo_client b demo_request (recipientKeysFromSecret demo 19)
     (Some [1]) None (demo_prover, ()) = Some (Inr vd, cw)" using demo_verifies by blast
  from accepted_disclosure[OF run] obtain cw1 cw2 :: "unit circuitProver \<times> unit" where "event_returned demo demo_client None (db_refE b) cw1 (vd_event vd) cw2"
    "opened_amount demo (rk_rR (recipientKeysFromSecret demo 19)) demo_request b = Inr (vd_amount vd)"
    unfolding accepted_as_def by blast
  moreover have "rk_rR (recipientKeysFromSecret demo 19) = 19" by (simp add: recipientKeysFromSecret_def)
  ultimately show ?thesis using run by (simp only:) blast
qed

end
