(* ===== verification/Sources.thy ===== *)
theory Sources
  imports EventSource Builders State
begin

text \<open>
  The properties of the event sources and of the store they feed: the three encodings of an event
  read back as the same event, what a synchronisation over two sources delivers, that reading pages
  ends, and that a saved account state is the state that is loaded.
\<close>

section \<open>A chain of two events on a small network\<close>

definition old_body :: "residue eventBody" where "old_body = RegisterEvent ''GA'' (Some 1)"

definition old_event :: "residue confidentialEvent" where "old_event = eventOf 100 ''aa'' 0 0 old_body"

definition new_event :: "residue confidentialEvent" where "new_event = eventOf 200 ''bb'' 0 0 (MergeEvent ''GA'')"

text \<open>The RPC retains ledgers from 120 on; the issuer's service holds the older event, or is down.\<close>

definition two_server :: "unit rpcServer" where
  "two_server = \<lparr>getHealth = (\<lambda>w. (Inr (Some 120), w)),
     getEvents = (\<lambda>rq w. (Inr \<lparr>resp_events = [rpcResponse demo 200 ''bb'' 1 0 0 (MergeEvent ''GA'')],
        resp_cursor = None, resp_latestLedger = 210\<rparr>, w))\<rparr>"

definition two_history :: "bool \<Rightarrow> unit historyIndexer" where
  "two_history up = IssuerCt (\<lambda>rq w. (if up then Inr \<lparr>http_ok = True, http_status = 200, http_text = Inr [],
      http_json = Inr \<lparr>ct_events = Some [serviceRow demo old_event], ct_latestLedger = Some 210\<rparr>\<rparr>
    else Inl (Foreign ''fetch failed''), w)) ''https://i'' None"

lemma old_event_sel [simp]:
  "ev_ledger old_event = 100" "ev_body old_event = old_body" "ev_cursor old_event = naturalEventId 100 ''aa'' (Some 0) (Some 0)"
  by (simp_all add: old_event_def eventOf_def)

lemma new_event_sel [simp]:
  "ev_ledger new_event = 200" "ev_cursor new_event = naturalEventId 200 ''bb'' (Some 0) (Some 0)"
  by (simp_all add: new_event_def eventOf_def)

lemma two_chain: "history [old_event, new_event]"
  by (simp add: history_def naturalEventId_eq_iff)

lemma two_recent:
  "fetchEvents demo two_server tok (Some l) None None ()
   = Some (Inr \<lparr>fr_events = [new_event], fr_cursor = None, fr_latestLedger = 210\<rparr>, ())"
proof -
  have "parseEvent demo (rpcResponse demo 200 ''bb'' 1 0 0 (MergeEvent ''GA'')) = Inr (Some new_event)"
    unfolding new_event_def by (rule parseEvent_rpcResponse) simp_all
  then show ?thesis
    by (subst fetchEvents_def, simp, subst fetchLoop.simps)
      (simp add: two_server_def parsePage_def List.map_filter_simps truthy_def)
qed

lemma two_old:
  "history_fetch demo (two_history True) tok 0 179 ()
   = Some (Inr \<lparr>fr_events = [old_event], fr_cursor = None, fr_latestLedger = 210\<rparr>, ())"
proof -
  have "parseIssuerCtEvent demo (serviceRow demo old_event) = Some old_event"
    by (subst parseIssuerCtEvent_serviceRow) (simp_all add: old_body_def)
  moreover have "ir_ledger (serviceRow demo old_event) = 100"
    by (simp add: emptyRow_def old_body_def Let_def)
  ultimately show ?thesis
    by (simp add: two_history_def ctFetchEvents_def io_simps Let_def List.map_filter_simps)
qed

lemma two_down: "\<exists>e. history_fetch demo (two_history False) tok 0 179 () = Some (Inl e, ())"
  by (simp add: two_history_def ctFetchEvents_def io_simps)

section \<open>Properties\<close>

text \<open>
  C36: One event, three encodings: the XDR the RPC returns, the JSON row of the Goldsky
  index in each of its styles, and the row the issuer's service stores all read back as the same
  event with the same identifier. The last is read only when it is no withdrawal and every number of
  a transfer has an even count of hexadecimal digits; otherwise the event is dropped without an
  error.
\<close>

theorem event_encodings_agree:
  assumes "curve_laws K" and "emittable b" and "list_all (\<lambda>x. encodable K (snd x)) (body_data b)"
    and "[] \<notin> set (body_addrs b)" and "nonneg_body b"
    and "0 \<le> l" and "no_o h" and "0 \<le> txo" and "0 \<le> opi" and "opi < 2 ^ 12" and "0 \<le> evi"
  shows "parseEvent K (rpcResponse K l h txo opi evi b) = Inr (Some (eventOf l h opi evi b))
    \<and> parseIndexerEvent K (goldskyRow st K l h opi evi b) = Inr (Some (eventOf l h opi evi b))
    \<and> parseIssuerCtEvent K (serviceRow K (eventOf l h opi evi b))
        = (if issuer_readable K b then Some (eventOf l h opi evi b) else None)"
proof -
  have body: "ev_body (eventOf l h opi evi b) = b" by (simp add: eventOf_def)
  show ?thesis
    using parseEvent_rpcResponse[OF assms(2,3,6,8-11)] parseIndexerEvent_goldskyRow[OF assms(2-4,6,7,9,11)]
      parseIssuerCtEvent_serviceRow[of K "eventOf l h opi evi b", unfolded body, OF assms(1,2,4,5)] by blast
qed

definition odd_withdraw :: "residue eventBody" where
  "odd_withdraw = WithdrawEvent ''GA'' ''GB'' 30 (res_of 5) 2 3 4"

theorem event_encodings_agree_witness:
  "parseEvent demo (rpcResponse demo 100 ''aa'' 1 0 0 odd_withdraw) = Inr (Some (eventOf 100 ''aa'' 0 0 odd_withdraw))
   \<and> parseIssuerCtEvent demo (serviceRow demo (eventOf 100 ''aa'' 0 0 odd_withdraw)) = None"
proof -
  have "encodable demo (FPoint (res_of 5))" by (rule point_encodable) simp
  then have e: "list_all (\<lambda>x. encodable demo (snd x)) (body_data odd_withdraw)"
    unfolding odd_withdraw_def by (simp del: encodable.simps(2))
  have o: "no_o ''aa''" by (simp add: no_o_def)
  show ?thesis
    using event_encodings_agree[OF demo_laws _ e _ _ _ o, of 100 1 0 0] by (simp add: odd_withdraw_def)
qed


text \<open>Both sources deliver the event of ledger 170.\<close>

definition mid_event :: "residue confidentialEvent" where "mid_event = eventOf 170 ''mm'' 0 0 (MergeEvent ''GA'')"

definition overlap_server :: "unit rpcServer" where
  "overlap_server = \<lparr>getHealth = (\<lambda>w. (Inr (Some 120), w)),
     getEvents = (\<lambda>rq w. (Inr \<lparr>resp_events = [rpcResponse demo 170 ''mm'' 1 0 0 (MergeEvent ''GA''),
        rpcResponse demo 200 ''bb'' 1 0 0 (MergeEvent ''GA'')], resp_cursor = None, resp_latestLedger = 210\<rparr>, w))\<rparr>"

definition overlap_history :: "unit historyIndexer" where
  "overlap_history = IssuerCt (\<lambda>rq w. (Inr \<lparr>http_ok = True, http_status = 200, http_text = Inr [],
      http_json = Inr \<lparr>ct_events = Some [serviceRow demo old_event, serviceRow demo mid_event], ct_latestLedger = Some 210\<rparr>\<rparr>, w))
     ''https://i'' None"

lemma overlap_recent:
  "fetchEvents demo overlap_server tok (Some l) None None ()
   = Some (Inr \<lparr>fr_events = [mid_event, new_event], fr_cursor = None, fr_latestLedger = 210\<rparr>, ())"
proof -
  have "parseEvent demo (rpcResponse demo 170 ''mm'' 1 0 0 (MergeEvent ''GA'')) = Inr (Some mid_event)"
    "parseEvent demo (rpcResponse demo 200 ''bb'' 1 0 0 (MergeEvent ''GA'')) = Inr (Some new_event)"
    unfolding new_event_def mid_event_def by (rule parseEvent_rpcResponse; simp)+
  then show ?thesis
    by (subst fetchEvents_def, simp, subst fetchLoop.simps)
      (simp add: overlap_server_def parsePage_def List.map_filter_simps truthy_def)
qed

lemma overlap_old:
  "history_fetch demo overlap_history tok 0 179 ()
   = Some (Inr \<lparr>fr_events = [old_event, mid_event], fr_cursor = None, fr_latestLedger = 210\<rparr>, ())"
proof -
  have "parseIssuerCtEvent demo (serviceRow demo old_event) = Some old_event"
    by (subst parseIssuerCtEvent_serviceRow) (simp_all add: old_body_def)
  moreover have "parseIssuerCtEvent demo (serviceRow demo mid_event) = Some mid_event"
    by (subst parseIssuerCtEvent_serviceRow) (simp_all add: mid_event_def eventOf_def)
  moreover have "ir_ledger (serviceRow demo old_event) = 100" "ir_ledger (serviceRow demo mid_event) = 170"
    by (simp_all add: emptyRow_def old_body_def mid_event_def eventOf_def Let_def)
  ultimately show ?thesis
    by (simp add: overlap_history_def ctFetchEvents_def io_simps Let_def List.map_filter_simps)
qed

lemma overlap_chain: "history [old_event, mid_event, new_event]" "ev_ledger mid_event = 170"
  by (simp_all add: history_def mid_event_def eventOf_def new_event_def old_event_def naturalEventId_eq_iff)


text \<open>
  When the history index fails, the synchronisation still succeeds but delivers only the
  events from the seam on: those the RPC retains between its oldest ledger and the seam, sixty
  ledgers later, are in neither leg although the RPC has them.
\<close>

theorem sync_failed_backfill:
  assumes "history chain"
    and "(if truthy startCursor then rmap (\<lambda>l. l + 1) (cursorLedger (the startCursor)) else Inr fromLedger) = Inr next1"
    and "getHealth srv w = (Inr (Some oldest), w1)" and "0 < oldest" and "next1 < oldest"
    and "history_fetch K ix tokenId next1 (oldest + RPC_SEAM_MARGIN - 1) w1 = Some (Inl err, w2)"
    and "fetchEvents K srv tokenId (Some (oldest + RPC_SEAM_MARGIN)) None None w2 = Some (Inr rpc, w3)"
    and "fr_events rpc = from_on (oldest + RPC_SEAM_MARGIN) chain"
  shows "\<exists>res. hybridFetchEvents K srv (Some ix) tokenId fromLedger startCursor w = Some (Inr res, w3)
     \<and> fr_events res = from_on (oldest + 60) chain \<and> fr_cursor res = fr_cursor rpc"
  by (rule hybrid_failed_backfill[OF assms])

theorem sync_failed_backfill_witness:
  "\<exists>res. hybridFetchEvents demo two_server (Some (two_history False)) ''CT'' 0 None () = Some (Inr res, ())
     \<and> fr_events res = [new_event]"
proof -
  obtain e where e: "history_fetch demo (two_history False) ''CT'' 0 (120 + RPC_SEAM_MARGIN - 1) () = Some (Inl e, ())"
    using two_down[of "''CT''"] by (auto simp: RPC_SEAM_MARGIN_def)
  have "\<exists>res. hybridFetchEvents demo two_server (Some (two_history False)) ''CT'' 0 None () = Some (Inr res, ())
     \<and> fr_events res = from_on (120 + 60) [old_event, new_event]
     \<and> fr_cursor res = fr_cursor (\<lparr>fr_events = [new_event], fr_cursor = None, fr_latestLedger = 210\<rparr> :: residue fetchEventsResult)"
    by (rule sync_failed_backfill[where ?next1.0 = 0 and ?w1.0 = "()" and ?w2.0 = "()", OF two_chain _ _ _ _ e])
      (simp_all add: two_recent RPC_SEAM_MARGIN_def from_on_def, simp_all add: two_server_def)
  then show ?thesis by (auto simp: from_on_def)
qed

text \<open>
  C40: Reading pages of events ends. When the cursor of every page that is followed by another lies after the
  one the page was asked with and not after some end, counting its positions in any way, the read returns from every
  start, with an exception or with the events of the pages in their order and the last one's cursor; there are no more
  pages than positions up to the end, and one.
\<close>

theorem fetch_ends:
  assumes "progressing pos srv tokenId startLedger (given pageLimit 100) end1"
  shows "\<exists>r w'. fetchEvents K srv tokenId startLedger startCursor pageLimit w = Some (r, w')
    \<and> (\<forall>res. r = Inr res \<longrightarrow> (\<exists>resps evss. page_run srv tokenId startLedger (given pageLimit 100) startCursor w resps w'
         \<and> traverse (\<lambda>p. parsePage K (resp_events p)) resps = Inr evss \<and> res = pages_result [] evss resps
         \<and> length resps \<le> Suc (nat (end1 - pos startCursor))))"
proof -
  obtain r w' where f: "fetchEvents K srv tokenId startLedger startCursor pageLimit w = Some (r, w')"
    using fetchLoop_returns[OF assms, of K startCursor "[]" w] by (fastforce simp: fetchEvents_def io_throw_def)
  have "\<exists>resps evss. page_run srv tokenId startLedger (given pageLimit 100) startCursor w resps w'
       \<and> traverse (\<lambda>p. parsePage K (resp_events p)) resps = Inr evss \<and> res = pages_result [] evss resps
       \<and> length resps \<le> Suc (nat (end1 - pos startCursor))" if "r = Inr res" for res
  proof -
    have "fetchLoop K srv tokenId startLedger (given pageLimit 100) startCursor startCursor [] w = Some (Inr res, w')"
      using f that by (simp add: fetchEvents_def io_throw_def split: if_splits)
    from fetchLoop_pages[OF this] page_run_bounded[OF _ assms] show ?thesis by blast
  qed
  with f show ?thesis by blast
qed

text \<open>A server that answers with two pages.\<close>

definition paged_server :: "unit rpcServer" where
  "paged_server = \<lparr>getHealth = (\<lambda>w. (Inr (Some 120), w)),
     getEvents = (\<lambda>rq w. (Inr (case rq of
         ByLedger t l n \<Rightarrow> \<lparr>resp_events = [rpcResponse demo 200 ''bb'' 1 0 0 (MergeEvent ''GA'')],
           resp_cursor = Some (rpcToken 205 0 0 0), resp_latestLedger = 210\<rparr>
       | _ \<Rightarrow> \<lparr>resp_events = [], resp_cursor = None, resp_latestLedger = 210\<rparr>), w))\<rparr>"

lemma paged_progress: "progressing (\<lambda>c. if truthy c then 1 else 0) paged_server tok sl lim 1"
proof -
  have "page_request tok c sl lim = ByLedger tok sl lim" if "\<not> truthy c" for c using that by (simp add: page_request_def)
  then show ?thesis by (auto simp: progressing_def paged_server_def page_stops_def page_request_def)
qed

theorem fetch_ends_witness:
  "\<exists>w' resps. fetchEvents demo paged_server ''CT'' (Some 1) None None ()
      = Some (Inr \<lparr>fr_events = [new_event], fr_cursor = None, fr_latestLedger = 210\<rparr>, w')
    \<and> page_run paged_server ''CT'' (Some 1) 100 None () resps w' \<and> length resps \<le> 2"
proof -
  have "parseEvent demo (rpcResponse demo 200 ''bb'' 1 0 0 (MergeEvent ''GA'')) = Inr (Some new_event)"
    unfolding new_event_def by (rule parseEvent_rpcResponse) simp_all
  moreover have "cursorLedger (rpcToken 205 0 0 0) = Inr 205" by (rule cursorLedger_token) simp_all
  moreover have "truthy (Some (rpcToken 205 0 0 0))" by (simp add: truthy_def rpcToken_def)
  ultimately have run: "fetchEvents demo paged_server ''CT'' (Some 1) None None ()
      = Some (Inr \<lparr>fr_events = [new_event], fr_cursor = None, fr_latestLedger = 210\<rparr>, ())"
    by (subst fetchEvents_def, simp, subst fetchLoop.simps, subst fetchLoop.simps)
      (simp add: paged_server_def page_request_def parsePage_def List.map_filter_simps)
  have "\<exists>resps. page_run paged_server ''CT'' (Some 1) 100 None () resps () \<and> length resps \<le> Suc (nat (1 - 0))"
    using fetch_ends[OF paged_progress, of demo "''CT''" "Some 1" None None "()"] run by auto
  with run show ?thesis by (auto simp: numeral_2_eq_2)
qed

text \<open>
  The browser's store keeps an account's state: a state whose amounts and blinding factors are
  not negative is the one that is loaded after it was saved, whatever was stored before, and the
  states of other accounts stay as they were.
\<close>

theorem saved_state_loads:
  assumes "storable st"
  shows "\<exists>items'. ss_save (LocalStorageStore prefix) st (Some items) = (Inr (), Some items')
    \<and> fst (ss_load (LocalStorageStore prefix) (st_address st) (Some items')) = Inr (Some st)
    \<and> (a = st_address st \<or> fst (ss_load (LocalStorageStore prefix) a (Some items'))
         = fst (ss_load (LocalStorageStore prefix) a (Some items)))"
proof -
  obtain s' where s': "ss_save (LocalStorageStore prefix) st (Some items) = (Inr (), s')" "s' \<noteq> None"
    "fst (ss_load (LocalStorageStore prefix) (st_address st) s') = Inr (Some st)"
    using local_storage.save_ok[OF _ assms, of "Some items" prefix] by auto
  then obtain items' where "s' = Some items'" by auto
  with s' local_storage.save_other[OF _ assms, of "Some items" a prefix] show ?thesis by auto
qed

theorem saved_state_loads_witness:
  "\<exists>items'. ss_save (LocalStorageStore ''p:'') (freshState ''GA'') (Some []) = (Inr (), Some items')
    \<and> fst (ss_load (LocalStorageStore ''p:'') ''GA'' (Some items')) = Inr (Some (freshState ''GA''))"
proof -
  have "storable (freshState ''GA'')" "st_address (freshState ''GA'') = ''GA''"
    by (simp_all add: storable_def nonneg_opening_def freshState_def zero_opening_def)
  with saved_state_loads[of "freshState ''GA''" "''p:''" "[]" "''GB''"] show ?thesis by auto
qed

end
