(* ===== verification/Cbor.thy ===== *)
theory Cbor
  imports Field
begin

text \<open>
  \<^verbatim>\<open>lib/webauthnPublicKey.ts\<close>: the CBOR decoder of the passkey registration and the
  extraction of the secp256r1 public key. Byte reads past the end of the data are \<^verbatim>\<open>undefined\<close>
  in the source, which the bit operators read as 0 and the arithmetic ones turn into
  \<^verbatim>\<open>NaN\<close>; both are \<^const>\<open>None\<close> here. A text is represented by its UTF-8 bytes, as everywhere
  in the development; \<^verbatim>\<open>TextDecoder\<close> is the decoder of the WHATWG encoding standard,
  which replaces ill-formed bytes by U+FFFD and drops a leading byte order mark. \<^verbatim>\<open>base64url\<close> and the curve check of \<^verbatim>\<open>@noble/curves\<close> are
  third-party and arguments of the definitions. Shown: the decoder returns for every input (the fuel
  is the length of the data), it reads back the canonical encoding of every value whose texts are
  well-formed and do not start with a byte order mark, and the key of a canonical registration is found.
\<close>

unbundle bit_operations_syntax

section \<open>Values and lengths\<close>

definition ATTESTED_CREDENTIAL_DATA_FLAG :: int where "ATTESTED_CREDENTIAL_DATA_FLAG = 0x40"

definition SECP256R1_PUBLIC_KEY_SIZE :: nat where "SECP256R1_PUBLIC_KEY_SIZE = 65"

definition UNCOMPRESSED_POINT_PREFIX :: byte where "UNCOMPRESSED_POINT_PREFIX = 0x04"

datatype cborValue =
    CNum int | CNaN | CText string | CBytes "byte list" | CArr "cborValue list"
  | CMap "(cborValue \<times> cborValue) list" | CBool bool | CNull

text \<open>\<^verbatim>\<open>data[offset]\<close>, and an offset moved on.\<close>

definition byte_at :: "byte list \<Rightarrow> int option \<Rightarrow> int option" where
  "byte_at data off = (case off of None \<Rightarrow> None
     | Some i \<Rightarrow> if 0 \<le> i \<and> i < int (length data) then Some (uint (data ! nat i)) else None)"

definition shifted :: "int option \<Rightarrow> int \<Rightarrow> int option" where
  "shifted off k = map_option (\<lambda>i. i + k) off"

definition bits_at :: "byte list \<Rightarrow> int option \<Rightarrow> int" where
  "bits_at data off = given (byte_at data off) 0"

definition readLength :: "byte list \<Rightarrow> int option \<Rightarrow> int \<Rightarrow> (int option \<times> int option) res" where
  "readLength data off additional =
     (if additional < 24 then Inr (Some additional, off)
      else if additional = 24 then Inr (byte_at data off, shifted off 1)
      else if additional = 25 then
        Inr (Some (push_bit 8 (bits_at data off) OR bits_at data (shifted off 1)), shifted off 2)
      else if additional = 26 then
        Inr (map_option (\<lambda>b. b * 0x1000000 + (push_bit 16 (bits_at data (shifted off 1))
               OR push_bit 8 (bits_at data (shifted off 2)) OR bits_at data (shifted off 3)))
             (byte_at data off), shifted off 4)
      else Inl (Refused ''Unsupported CBOR length encoding''))"

section \<open>Decoding\<close>

text \<open>
  A decoder takes an offset to a value and the offset after it; \<^const>\<open>None\<close> says that the fuel
  ran out. \<^verbatim>\<open>many\<close> and \<^verbatim>\<open>pairs\<close> are the loops over the elements of an array and the
  entries of a map.
\<close>

type_synonym 'a decoded = "('a \<times> int option) res option"

definition dec_bind :: "'a decoded \<Rightarrow> ('a \<Rightarrow> int option \<Rightarrow> 'b decoded) \<Rightarrow> 'b decoded" where
  "dec_bind m f = (case m of None \<Rightarrow> None | Some (Inl e) \<Rightarrow> Some (Inl e) | Some (Inr (v, off)) \<Rightarrow> f v off)"

fun many :: "(int option \<Rightarrow> 'a decoded) \<Rightarrow> nat \<Rightarrow> int option \<Rightarrow> 'a list decoded" where
  "many f 0 off = Some (Inr ([], off))"
| "many f (Suc n) off = dec_bind (f off) (\<lambda>v off1. dec_bind (many f n off1) (\<lambda>vs off2. Some (Inr (v # vs, off2))))"

text \<open>\<^verbatim>\<open>Map.set\<close>: primitive keys are equal by value, an object is equal to itself alone.\<close>

fun primitive :: "cborValue \<Rightarrow> bool" where
  "primitive (CBytes b) \<longleftrightarrow> False"
| "primitive (CArr vs) \<longleftrightarrow> False"
| "primitive (CMap m) \<longleftrightarrow> False"
| "primitive v \<longleftrightarrow> True"

definition map_set :: "cborValue \<Rightarrow> cborValue \<Rightarrow> (cborValue \<times> cborValue) list \<Rightarrow> (cborValue \<times> cborValue) list" where
  "map_set k v m = (if primitive k then put k v m else m @ [(k, v)])"

fun pairs ::
  "(int option \<Rightarrow> cborValue decoded) \<Rightarrow> nat \<Rightarrow> (cborValue \<times> cborValue) list \<Rightarrow> int option
   \<Rightarrow> (cborValue \<times> cborValue) list decoded" where
  "pairs f 0 m off = Some (Inr (m, off))"
| "pairs f (Suc n) m off = dec_bind (f off) (\<lambda>k off1. dec_bind (f off1) (\<lambda>v off2. pairs f n (map_set k v m) off2))"

definition number_of :: "int option \<Rightarrow> cborValue" where
  "number_of n = (case n of None \<Rightarrow> CNaN | Some i \<Rightarrow> CNum i)"

definition as_chars :: "byte list \<Rightarrow> string" where
  "as_chars b = map (\<lambda>x. char_of (unat x)) b"

text \<open>
  \<^verbatim>\<open>new TextDecoder().decode\<close>. A lead byte tells how many continuation bytes follow and
  the range of the first of them; a byte outside the expected range ends the sequence with U+FFFD and
  is read again as a lead byte.
\<close>

definition replacement :: string where "replacement = [CHR 0xEF, CHR 0xBF, CHR 0xBD]"

definition byteOrderMark :: string where "byteOrderMark = [CHR 0xEF, CHR 0xBB, CHR 0xBF]"

definition utf8_lead :: "nat \<Rightarrow> (nat \<times> nat \<times> nat) option" where
  "utf8_lead n =
     (if 0xC2 \<le> n \<and> n \<le> 0xDF then Some (1, 0x80, 0xBF)
      else if n = 0xE0 then Some (2, 0xA0, 0xBF)
      else if n = 0xED then Some (2, 0x80, 0x9F)
      else if 0xE1 \<le> n \<and> n \<le> 0xEF then Some (2, 0x80, 0xBF)
      else if n = 0xF0 then Some (3, 0x90, 0xBF)
      else if n = 0xF4 then Some (3, 0x80, 0x8F)
      else if 0xF1 \<le> n \<and> n \<le> 0xF3 then Some (3, 0x80, 0xBF)
      else None)"

fun utf8_decode :: "string \<Rightarrow> nat \<Rightarrow> nat \<Rightarrow> nat \<Rightarrow> string \<Rightarrow> string" where
  "utf8_decode seen needed lower upper [] = (if needed = 0 then [] else replacement)"
| "utf8_decode seen needed lower upper (c # cs) =
     (if needed \<noteq> 0 \<and> lower \<le> of_char c \<and> of_char c \<le> upper then
        if needed = 1 then seen @ [c] @ utf8_decode [] 0 0x80 0xBF cs
        else utf8_decode (seen @ [c]) (needed - 1) 0x80 0xBF cs
      else (if needed = 0 then [] else replacement) @
        (case utf8_lead (of_char c) of
           Some (k, l, u) \<Rightarrow> utf8_decode [c] k l u cs
         | None \<Rightarrow> (if of_char c < (0x80 :: nat) then [c] else replacement) @ utf8_decode [] 0 0x80 0xBF cs))"

definition decodeText :: "byte list \<Rightarrow> string" where
  "decodeText b = (let t = utf8_decode [] 0 0x80 0xBF (as_chars b) in
     if take 3 t = byteOrderMark then drop 3 t else t)"

text \<open>A run of bytes: an end that is not a number passes the test and slices to nothing.\<close>

definition run_of_bytes :: "byte list \<Rightarrow> int option \<Rightarrow> int option \<Rightarrow> (byte list \<times> int option) res" where
  "run_of_bytes data off len = (case (off, len) of
       (Some i, Some l) \<Rightarrow> if int (length data) < i + l then Inl (Refused ''Truncated CBOR byte/string value'')
          else Inr (take (nat l) (drop (nat i) data), Some (i + l))
     | _ \<Rightarrow> Inr ([], None))"

fun decodeCborValue :: "nat \<Rightarrow> byte list \<Rightarrow> int option \<Rightarrow> cborValue decoded" where
  "decodeCborValue 0 data start = None"
| "decodeCborValue (Suc fuel) data start =
     (let initial = bits_at data start; major = drop_bit 5 initial; additional = initial AND 0x1f;
          off = shifted start 1 in
      if major = 0 \<or> major = 1 then
        Some (rmap (\<lambda>(len, o1). (number_of (if major = 0 then len else map_option (\<lambda>n. -1 - n) len), o1))
          (readLength data off additional))
      else if major = 2 \<or> major = 3 then
        Some (rbind (readLength data off additional) (\<lambda>(len, o1).
          rmap (\<lambda>(bytes, o2). (if major = 2 then CBytes bytes else CText (decodeText bytes), o2))
            (run_of_bytes data o1 len)))
      else if major = 4 then
        (case readLength data off additional of Inl e \<Rightarrow> Some (Inl e)
         | Inr (len, o1) \<Rightarrow> dec_bind (many (decodeCborValue fuel data) (nat (given len 0)) o1)
             (\<lambda>vs o2. Some (Inr (CArr vs, o2))))
      else if major = 5 then
        (case readLength data off additional of Inl e \<Rightarrow> Some (Inl e)
         | Inr (len, o1) \<Rightarrow> dec_bind (pairs (decodeCborValue fuel data) (nat (given len 0)) [] o1)
             (\<lambda>m o2. Some (Inr (CMap m, o2))))
      else if major = 6 then
        (case readLength data off additional of Inl e \<Rightarrow> Some (Inl e)
         | Inr (len, o1) \<Rightarrow> decodeCborValue fuel data o1)
      else if additional = 20 then Some (Inr (CBool False, off))
      else if additional = 21 then Some (Inr (CBool True, off))
      else if additional = 22 then Some (Inr (CNull, off))
      else Some (Inl (Refused ''Unsupported CBOR value'')))"

text \<open>The decoder from the start of the data, with fuel for any nesting the data can hold.\<close>

definition decodeCbor :: "byte list \<Rightarrow> cborValue res" where
  "decodeCbor data = (case decodeCborValue (length data + 1) data (Some 0) of
       Some (Inr (v, off)) \<Rightarrow> Inr v | Some (Inl e) \<Rightarrow> Inl e | None \<Rightarrow> Inl (Refused ''fuel''))"

section \<open>The public key of a registration\<close>

record passkeyLib =
  pl_toBuffer :: "string \<Rightarrow> byte list"
  pl_onCurve :: "byte list \<Rightarrow> bool"

definition assertSecp256r1Point :: "passkeyLib \<Rightarrow> byte list \<Rightarrow> byte list res" where
  "assertSecp256r1Point L publicKey =
     (if length publicKey \<noteq> SECP256R1_PUBLIC_KEY_SIZE \<or> hd publicKey \<noteq> UNCOMPRESSED_POINT_PREFIX
      then Inl (Refused ''Invalid P-256 public key format'')
      else if \<not> pl_onCurve L publicKey then Inl (Foreign ''Point.fromHex'')
      else Inr publicKey)"

fun cose_coordinate :: "cborValue option \<Rightarrow> byte list option" where
  "cose_coordinate (Some (CBytes b)) = (if length b = 32 then Some b else None)"
| "cose_coordinate _ = None"

definition coseKeyToSecp256r1PublicKey :: "passkeyLib \<Rightarrow> byte list \<Rightarrow> byte list res" where
  "coseKeyToSecp256r1PublicKey L coseKey = rbind (decodeCbor coseKey) (\<lambda>decoded.
     case decoded of CMap m \<Rightarrow>
       (if map_of m (CNum 3) \<noteq> Some (CNum (- 7)) \<or> map_of m (CNum 1) \<noteq> Some (CNum 2)
           \<or> map_of m (CNum (- 1)) \<noteq> Some (CNum 1)
        then Inl (Refused ''Passkey is not an ES256 P-256 credential'')
        else (case (cose_coordinate (map_of m (CNum (- 2))), cose_coordinate (map_of m (CNum (- 3)))) of
            (Some x, Some y) \<Rightarrow> assertSecp256r1Point L (UNCOMPRESSED_POINT_PREFIX # x @ y)
          | _ \<Rightarrow> Inl (Refused ''Invalid COSE P-256 coordinates'')))
     | _ \<Rightarrow> Inl (Refused ''COSE public key is not a map''))"

definition extractPublicKeyFromAuthData :: "passkeyLib \<Rightarrow> byte list \<Rightarrow> byte list res" where
  "extractPublicKeyFromAuthData L authData =
     (let attestedCredentialOffset = 32 + 1 + 4; flags = bits_at authData (Some 32) in
      if flags AND ATTESTED_CREDENTIAL_DATA_FLAG = 0
      then Inl (Refused ''Authenticator data does not include attested credential data'')
      else if length authData < attestedCredentialOffset + 16 + 2
      then Inl (Refused ''Authenticator data is too short'')
      else
        let credentialIdLengthOffset = int attestedCredentialOffset + 16;
            credentialIdLength = push_bit 8 (bits_at authData (Some credentialIdLengthOffset))
              OR bits_at authData (Some (credentialIdLengthOffset + 1));
            coseKeyOffset = credentialIdLengthOffset + 2 + credentialIdLength in
        if int (length authData) \<le> coseKeyOffset
        then Inl (Refused ''Authenticator data is missing COSE public key'')
        else coseKeyToSecp256r1PublicKey L (drop (nat coseKeyOffset) authData))"

definition extractPublicKeyFromAttestationObject :: "passkeyLib \<Rightarrow> byte list \<Rightarrow> byte list res" where
  "extractPublicKeyFromAttestationObject L attestationObject = rbind (decodeCbor attestationObject) (\<lambda>decoded.
     case decoded of CMap m \<Rightarrow>
       (case map_of m (CText ''authData'') of Some (CBytes authData) \<Rightarrow> extractPublicKeyFromAuthData L authData
        | _ \<Rightarrow> Inl (Refused ''Attestation object is missing authData''))
     | _ \<Rightarrow> Inl (Refused ''Attestation object is not a CBOR map''))"

record registrationResponse =
  rr_publicKey :: "string option"
  rr_authenticatorData :: "string option"
  rr_attestationObject :: "string option"

definition present :: "string option \<Rightarrow> bool" where
  "present s \<longleftrightarrow> s \<noteq> None \<and> s \<noteq> Some []"

text \<open>\<^verbatim>\<open>slice(n - 65)\<close>: a negative start counts from the end.\<close>

definition last_bytes :: "nat \<Rightarrow> byte list \<Rightarrow> byte list" where
  "last_bytes k b = (if k \<le> length b then drop (length b - k) b else drop (2 * length b - k) b)"

definition extractRegistrationPublicKey :: "passkeyLib \<Rightarrow> registrationResponse \<Rightarrow> byte list res" where
  "extractRegistrationPublicKey L response =
     (let attested = (if present (rr_authenticatorData response)
            then extractPublicKeyFromAuthData L (pl_toBuffer L (the (rr_authenticatorData response)))
          else if present (rr_attestationObject response)
            then extractPublicKeyFromAttestationObject L (pl_toBuffer L (the (rr_attestationObject response)))
          else Inl (Refused ''Could not extract passkey public key from registration response'')) in
      if present (rr_publicKey response)
      then (case assertSecp256r1Point L (last_bytes SECP256R1_PUBLIC_KEY_SIZE
               (pl_toBuffer L (the (rr_publicKey response)))) of Inr key \<Rightarrow> Inr key | Inl e \<Rightarrow> attested)
      else attested)"

section \<open>The decoder returns\<close>

definition beyond :: "int \<Rightarrow> int option \<Rightarrow> bool" where
  "beyond k off \<longleftrightarrow> (\<forall>i. off = Some i \<longrightarrow> k \<le> i)"

lemma beyond_simps [simp]: "beyond k None" "beyond k (Some i) \<longleftrightarrow> k \<le> i"
  by (simp_all add: beyond_def)

lemma beyond_mono: "beyond k off \<Longrightarrow> j \<le> k \<Longrightarrow> beyond j off"
  by (auto simp: beyond_def)

lemma beyond_shifted [simp]: "beyond k (shifted off d) \<longleftrightarrow> beyond (k - d) off"
  by (cases off) (auto simp: shifted_def)

lemma readLength_beyond: "readLength data off a = Inr (len, o1) \<Longrightarrow> beyond k off \<Longrightarrow> beyond k o1"
  by (cases off) (auto simp: readLength_def shifted_def split: if_splits)

text \<open>A decoder that returns from every offset of a class, with an offset of the class.\<close>

definition total_on :: "(int option \<Rightarrow> bool) \<Rightarrow> (int option \<Rightarrow> 'a decoded) \<Rightarrow> bool" where
  "total_on P f \<longleftrightarrow> (\<forall>off. P off \<longrightarrow> (\<exists>r. f off = Some r \<and> (\<forall>v o1. r = Inr (v, o1) \<longrightarrow> P o1)))"

lemma total_onE:
  assumes "total_on P f" and "P off"
  obtains e where "f off = Some (Inl e)" | v o1 where "f off = Some (Inr (v, o1))" "P o1"
proof -
  from assms obtain r where "f off = Some r" "\<forall>v o1. r = Inr (v, o1) \<longrightarrow> P o1"
    unfolding total_on_def by blast
  then show ?thesis using that by (cases r) auto
qed

lemma total_dec_bind:
  assumes "\<exists>r. m = Some r \<and> (\<forall>v o1. r = Inr (v, o1) \<longrightarrow> P o1)"
    and "\<And>v o1. P o1 \<Longrightarrow> \<exists>r. g v o1 = Some r \<and> (\<forall>v o1. r = Inr (v, o1) \<longrightarrow> P o1)"
  shows "\<exists>r. dec_bind m g = Some r \<and> (\<forall>v o1. r = Inr (v, o1) \<longrightarrow> P o1)"
proof -
  from assms(1) obtain r where "m = Some r" "\<forall>v o1. r = Inr (v, o1) \<longrightarrow> P o1" by blast
  with assms(2) show ?thesis by (cases r) (auto simp: dec_bind_def)
qed

lemma many_total: "total_on P f \<Longrightarrow> total_on P (many f n)"
proof (induction n)
  case (Suc n)
  show ?case unfolding total_on_def
  proof (intro allI impI)
    fix off assume "P off"
    with Suc.prems Suc.IH[OF Suc.prems] show "\<exists>r. many f (Suc n) off = Some r \<and> (\<forall>v o1. r = Inr (v, o1) \<longrightarrow> P o1)"
      unfolding many.simps by (intro total_dec_bind) (auto simp: total_on_def)
  qed
qed (simp add: total_on_def)

lemma pairs_total: "total_on P f \<Longrightarrow> total_on P (pairs f n m)"
proof (induction n arbitrary: m)
  case (Suc n)
  show ?case unfolding total_on_def
  proof (intro allI impI)
    fix off assume "P off"
    with Suc.prems Suc.IH[OF Suc.prems] show "\<exists>r. pairs f (Suc n) m off = Some r \<and> (\<forall>v o1. r = Inr (v, o1) \<longrightarrow> P o1)"
      unfolding pairs.simps by (intro total_dec_bind) (auto simp: total_on_def)
  qed
qed (simp add: total_on_def)

lemma run_of_bytes_beyond:
  "run_of_bytes data off len = Inr (b, o1) \<Longrightarrow> beyond k off \<Longrightarrow> (\<And>l. len = Some l \<Longrightarrow> 0 \<le> l) \<Longrightarrow> beyond k o1"
  by (force simp: run_of_bytes_def split: option.splits if_splits)

lemma bits_at_nonneg [simp]: "0 \<le> bits_at data off"
  by (simp add: bits_at_def byte_at_def given_def split: option.splits)

lemma readLength_nonneg:
  "readLength data off a = Inr (Some l, o1) \<Longrightarrow> 0 \<le> a \<Longrightarrow> 0 \<le> l"
  by (auto simp: readLength_def byte_at_def push_bit_eq_mult or_nonnegative_int_iff split: if_splits option.splits)

lemma length_step:
  assumes "beyond k start" and "readLength data (shifted start 1) a = Inr (len, o1)"
  shows "beyond (k + 1) o1"
  by (rule readLength_beyond[OF assms(2)]) (simp add: assms(1))

lemma bytes_step:
  assumes "beyond k start" and "readLength data (shifted start 1) a = Inr (len, o1)" and "0 \<le> a"
    and "run_of_bytes data o1 len = Inr (b, o2)"
  shows "beyond (k + 1) o2"
  by (rule run_of_bytes_beyond[OF assms(4) length_step[OF assms(1,2)]]) (use assms(2,3) readLength_nonneg in blast)

lemma bits_at_none [simp]: "bits_at data None = 0"
  by (simp add: bits_at_def byte_at_def)

lemma decode_total:
  assumes "beyond k start" and "0 \<le> k" and "int (length data) < k + int fuel" and "1 \<le> fuel"
  shows "\<exists>r. decodeCborValue fuel data start = Some r \<and> (\<forall>v o1. r = Inr (v, o1) \<longrightarrow> beyond (k + 1) o1)"
  using assms
proof (induction fuel arbitrary: k start)
  case (Suc fuel)
  define initial where "initial = bits_at data start"
  define additional where "additional = initial AND 0x1f"
  have add0: "0 \<le> additional" by (simp add: additional_def)
  show ?case
  proof (cases "drop_bit 5 initial \<in> {4, 5, 6}")
    case True
    then obtain i where i: "start = Some i" "i < int (length data)" "k \<le> i"
      using Suc.prems(1) by (cases start) (auto simp: initial_def bits_at_def byte_at_def split: if_splits)
    have t: "total_on (beyond (i + 1)) (decodeCborValue fuel data)"
      unfolding total_on_def
    proof (intro allI impI)
      fix off assume "beyond (i + 1) off"
      from Suc.IH[OF this] i Suc.prems(2,3)
      show "\<exists>r. decodeCborValue fuel data off = Some r \<and> (\<forall>v o1. r = Inr (v, o1) \<longrightarrow> beyond (i + 1) o1)"
        by (fastforce intro: beyond_mono)
    qed
    show ?thesis
    proof (cases "readLength data (shifted start 1) additional")
      case (Inl e)
      with True show ?thesis by (auto simp: Let_def initial_def additional_def)
    next
      case (Inr lo)
      then obtain len o1 where lo: "readLength data (shifted start 1) additional = Inr (len, o1)" by (cases lo) auto
      have o1: "beyond (i + 1) o1" by (rule readLength_beyond[OF lo]) (simp add: i)
      note * = many_total[OF t, of "nat (given len 0)"] pairs_total[OF t, of "nat (given len 0)" "[]"] t
      have **: "\<exists>r. f o1 = Some r \<and> (\<forall>v o1. r = Inr (v, o1) \<longrightarrow> beyond (k + 1) o1)"
        if "total_on (beyond (i + 1)) f" for f :: "int option \<Rightarrow> 'x decoded"
        using that o1 i(3) by (fastforce simp: total_on_def intro: beyond_mono)
      from True consider "drop_bit 5 initial = 4" | "drop_bit 5 initial = 5" | "drop_bit 5 initial = 6" by blast
      then show ?thesis
        using **[OF *(1)] **[OF *(2)] **[OF *(3)] lo
        by cases (auto simp: Let_def initial_def additional_def dec_bind_def split: sum.splits)
    qed
  next
    case False
    have s: "beyond (k + 1) (shifted start 1)" using Suc.prems(1) by simp
    define r where "r = readLength data (shifted start 1) additional"
    note len = length_step[OF Suc.prems(1), of data additional, folded r_def]
      and run = bytes_step[OF Suc.prems(1) _ add0, of data, folded r_def]
    have unfold: "decodeCborValue (Suc fuel) data start =
      (if drop_bit 5 initial = 0 \<or> drop_bit 5 initial = 1 then
         Some (rmap (\<lambda>(len, o1). (number_of (if drop_bit 5 initial = 0 then len else map_option (\<lambda>n. -1 - n) len), o1)) r)
       else if drop_bit 5 initial = 2 \<or> drop_bit 5 initial = 3 then
         Some (rbind r (\<lambda>(len, o1). rmap (\<lambda>(bytes, o2). (if drop_bit 5 initial = 2 then CBytes bytes
            else CText (decodeText bytes), o2)) (run_of_bytes data o1 len)))
       else if additional = 20 then Some (Inr (CBool False, shifted start 1))
       else if additional = 21 then Some (Inr (CBool True, shifted start 1))
       else if additional = 22 then Some (Inr (CNull, shifted start 1))
       else Some (Inl (Refused ''Unsupported CBOR value'')))"
      using False by (simp add: Let_def initial_def additional_def r_def)
    show ?thesis unfolding unfold using len run s
      by (auto simp: rbind_Inr_iff rmap_Inr_iff)
  qed
qed simp

section \<open>Canonical encodings\<close>

definition head :: "nat \<Rightarrow> nat \<Rightarrow> byte list" where
  "head major n =
     (if n < 24 then [of_nat (major * 32 + n)]
      else if n < 256 then [of_nat (major * 32 + 24), of_nat n]
      else if n < 65536 then [of_nat (major * 32 + 25), of_nat (n div 256), of_nat (n mod 256)]
      else [of_nat (major * 32 + 26), of_nat (n div 16777216), of_nat (n div 65536 mod 256),
            of_nat (n div 256 mod 256), of_nat (n mod 256)])"

definition as_bytes :: "string \<Rightarrow> byte list" where
  "as_bytes s = map (\<lambda>c. of_nat (of_char c)) s"

fun encodeCbor :: "cborValue \<Rightarrow> byte list" where
  "encodeCbor (CNum i) = (if 0 \<le> i then head 0 (nat i) else head 1 (nat (- 1 - i)))"
| "encodeCbor (CBytes b) = head 2 (length b) @ b"
| "encodeCbor (CText s) = head 3 (length s) @ as_bytes s"
| "encodeCbor (CArr vs) = head 4 (length vs) @ concat (map encodeCbor vs)"
| "encodeCbor (CMap m) = head 5 (length m) @ concat (map (\<lambda>(k, v). encodeCbor k @ encodeCbor v) m)"
| "encodeCbor (CBool b) = [if b then 0xf5 else 0xf4]"
| "encodeCbor CNull = [0xf6]"
| "encodeCbor CNaN = []"

text \<open>The UTF-8 form of a sequence of Unicode scalar values.\<close>

definition unicode_scalar :: "nat \<Rightarrow> bool" where
  "unicode_scalar c \<longleftrightarrow> c < 0x110000 \<and> \<not> (0xD800 \<le> c \<and> c \<le> 0xDFFF)"

definition utf8_char :: "nat \<Rightarrow> string" where
  "utf8_char c = map char_of
     (if c < 0x80 then [c]
      else if c < 0x800 then [0xC0 + c div 64, 0x80 + c mod 64]
      else if c < 0x10000 then [0xE0 + c div 4096, 0x80 + c div 64 mod 64, 0x80 + c mod 64]
      else [0xF0 + c div 262144, 0x80 + c div 4096 mod 64, 0x80 + c div 64 mod 64, 0x80 + c mod 64])"

definition utf8 :: "string \<Rightarrow> bool" where
  "utf8 s \<longleftrightarrow> (\<exists>cs. list_all unicode_scalar cs \<and> s = concat (map utf8_char cs))"

fun cbor_wf :: "cborValue \<Rightarrow> bool" where
  "cbor_wf (CNum i) \<longleftrightarrow> - (2 ^ 32) \<le> i \<and> i < 2 ^ 32"
| "cbor_wf (CBytes b) \<longleftrightarrow> length b < 2 ^ 32"
| "cbor_wf (CText s) \<longleftrightarrow> length s < 2 ^ 32 \<and> utf8 s \<and> take 3 s \<noteq> byteOrderMark"
| "cbor_wf (CArr vs) \<longleftrightarrow> length vs < 2 ^ 32 \<and> list_all cbor_wf vs"
| "cbor_wf (CMap m) \<longleftrightarrow> length m < 2 ^ 32 \<and> distinct (map fst m)
     \<and> list_all (\<lambda>(k, v). primitive k \<and> cbor_wf k \<and> cbor_wf v) m"
| "cbor_wf CNaN \<longleftrightarrow> False"
| "cbor_wf _ \<longleftrightarrow> True"

fun nesting :: "cborValue \<Rightarrow> nat" where
  "nesting (CArr vs) = Suc (Max (insert 0 (set (map nesting vs))))"
| "nesting (CMap m) = Suc (Max (insert 0 (set (map (\<lambda>(k, v). max (nesting k) (nesting v)) m))))"
| "nesting _ = 1"

lemma uint_byte: "n < 256 \<Longrightarrow> uint (of_nat n :: byte) = int n"
  by (simp add: unsigned_of_nat take_bit_eq_mod)

lemma byte_at_inside:
  assumes "j < length bs"
  shows "byte_at (pre @ bs @ post) (Some (int (length pre) + int j)) = Some (uint (bs ! j))"
proof -
  have "nat (int (length pre) + int j) = length pre + j" by simp
  with assms show ?thesis by (simp add: byte_at_def nth_append)
qed

lemma byte_at_moved:
  assumes "j < length bs" and "k = int (length pre) + int j"
  shows "byte_at (pre @ bs @ post) (Some k) = Some (uint (bs ! j))"
  using byte_at_inside[OF assms(1)] assms(2) by simp

lemma push_or:
  assumes "0 \<le> y" and "y < 2 ^ k"
  shows "push_bit k x OR y = x * 2 ^ k + (y :: int)"
proof -
  have "take_bit k y = y" using assms by (simp add: take_bit_int_eq_self)
  then have low: "bit y n \<Longrightarrow> n < k" for n by (metis bit_take_bit_iff)
  have "push_bit k x AND y = 0"
    by (auto simp: bit_eq_iff bit_simps dest: low)
  then show ?thesis by (simp add: disjunctive_add_eq_or[symmetric] push_bit_eq_mult)
qed

definition additional_of :: "nat \<Rightarrow> nat" where
  "additional_of n = (if n < 24 then n else if n < 256 then 24 else if n < 65536 then 25 else 26)"

lemma head_initial:
  assumes "major < 7"
  shows "bits_at (pre @ head major n @ post) (Some (int (length pre))) = int (major * 32 + additional_of n)"
proof -
  have h: "head major n \<noteq> []" "head major n ! 0 = of_nat (major * 32 + additional_of n)" "additional_of n < 32"
    by (auto simp: head_def additional_of_def)
  have "uint (of_nat (major * 32 + additional_of n) :: byte) = int (major * 32 + additional_of n)"
    by (rule uint_byte) (use assms h(3) in linarith)
  with h(1,2) show ?thesis
    using byte_at_moved[of 0 "head major n" "int (length pre)" pre post] by (simp only: bits_at_def given_simps) simp
qed

lemma major_split:
  assumes "a < 32"
  shows "drop_bit 5 (int (m * 32 + a)) = int m" and "int (m * 32 + a) AND 0x1f = int a"
proof -
  show "drop_bit 5 (int (m * 32 + a)) = int m" using assms by (simp add: drop_bit_eq_div)
  have "int (m * 32 + a) AND 0x1f = take_bit 5 (int (m * 32 + a))"
    by (simp add: take_bit_eq_mask mask_eq_exp_minus_1)
  then show "int (m * 32 + a) AND 0x1f = int a" using assms by (simp add: take_bit_eq_mod)
qed

lemma additional_of_less: "additional_of n < 32"
  by (simp add: additional_of_def)

lemma readLength_head:
  assumes "n < 2 ^ 32"
  shows "readLength (pre @ head major n @ post) (Some (int (length pre) + 1)) (int (additional_of n))
         = Inr (Some (int n), Some (int (length pre) + int (length (head major n))))"
proof -
  let ?d = "pre @ head major n @ post" and ?p = "int (length pre)"
  consider "n < 24" | "24 \<le> n" "n < 256" | "256 \<le> n" "n < 65536" | "65536 \<le> n" by linarith
  then show ?thesis
  proof cases
    case 1
    then show ?thesis by (simp add: additional_of_def readLength_def head_def)
  next
    case 2
    then have "byte_at ?d (Some (?p + 1)) = Some (int n)"
      using byte_at_moved[of 1 "head major n" "?p + 1" pre post] by (simp add: head_def uint_byte)
    with 2 show ?thesis by (simp add: additional_of_def readLength_def head_def shifted_def)
  next
    case 3
    then have "byte_at ?d (Some (?p + 1)) = Some (int (n div 256))" "byte_at ?d (Some (2 + ?p)) = Some (int (n mod 256))"
      using byte_at_moved[of 1 "head major n" "?p + 1" pre post] byte_at_moved[of 2 "head major n" "2 + ?p" pre post]
      by (simp_all add: head_def uint_byte)
    moreover have "push_bit 8 (int (n div 256)) OR int (n mod 256) = int n"
      by (subst push_or) (simp_all add: zdiv_int zmod_int)
    ultimately show ?thesis using 3 by (simp add: additional_of_def readLength_def head_def shifted_def bits_at_def)
  next
    case 4
    have b: "n div 16777216 < 256" using assms by simp
    with 4 have "byte_at ?d (Some (?p + 1)) = Some (int (n div 16777216))"
       "byte_at ?d (Some (2 + ?p)) = Some (int (n div 65536 mod 256))"
       "byte_at ?d (Some (3 + ?p)) = Some (int (n div 256 mod 256))" "byte_at ?d (Some (4 + ?p)) = Some (int (n mod 256))"
      using byte_at_moved[of 1 "head major n" "?p + 1" pre post] byte_at_moved[of 2 "head major n" "2 + ?p" pre post]
        byte_at_moved[of 3 "head major n" "3 + ?p" pre post] byte_at_moved[of 4 "head major n" "4 + ?p" pre post]
      by (simp_all add: head_def uint_byte)
    moreover have "int (n div 16777216) * 0x1000000 + (push_bit 16 (int (n div 65536 mod 256))
        OR push_bit 8 (int (n div 256 mod 256)) OR int (n mod 256)) = int n"
    proof -
      have "push_bit 8 (int (n div 256 mod 256)) OR int (n mod 256) = int (n mod 65536)"
        using mod_mult2_eq[of n 256 256] by (subst push_or) simp_all
      moreover have "push_bit 16 (int (n div 65536 mod 256)) OR int (n mod 65536) = int (n mod 16777216)"
        using mod_mult2_eq[of n 65536 256] by (subst push_or) simp_all
      moreover have "int n = int (n div 16777216) * 16777216 + int (n mod 16777216)"
        by (metis div_mult_mod_eq of_nat_add of_nat_mult of_nat_numeral)
      ultimately show ?thesis by (simp add: or.assoc)
    qed
    ultimately show ?thesis using 4 by (simp add: additional_of_def readLength_def head_def shifted_def bits_at_def)
  qed
qed

definition reads :: "nat \<Rightarrow> cborValue \<Rightarrow> bool" where
  "reads fuel v \<longleftrightarrow> (\<forall>pre post. decodeCborValue fuel (pre @ encodeCbor v @ post) (Some (int (length pre)))
     = Some (Inr (v, Some (int (length pre) + int (length (encodeCbor v))))))"

lemma reads_at:
  assumes "reads fuel v"
  shows "decodeCborValue fuel (pre @ encodeCbor v @ post) (Some (int (length pre)))
     = Some (Inr (v, Some (int (length (pre @ encodeCbor v)))))"
  using assms by (simp add: reads_def)

lemma many_back:
  assumes "\<And>v. v \<in> set vs \<Longrightarrow> reads fuel v"
  shows "many (decodeCborValue fuel (pre @ concat (map encodeCbor vs) @ post)) (length vs) (Some (int (length pre)))
     = Some (Inr (vs, Some (int (length pre) + int (length (concat (map encodeCbor vs))))))"
  using assms
proof (induction vs arbitrary: pre)
  case (Cons v vs)
  note first = reads_at[OF Cons.prems[of v], of pre "concat (map encodeCbor vs) @ post"]
  have "many (decodeCborValue fuel ((pre @ encodeCbor v) @ concat (map encodeCbor vs) @ post)) (length vs)
      (Some (int (length (pre @ encodeCbor v))))
     = Some (Inr (vs, Some (int (length (pre @ encodeCbor v)) + int (length (concat (map encodeCbor vs))))))"
    by (rule Cons.IH) (use Cons.prems in auto)
  with first show ?case by (simp add: dec_bind_def add.assoc)
qed simp

abbreviation encodePairs :: "(cborValue \<times> cborValue) list \<Rightarrow> byte list" where
  "encodePairs m \<equiv> concat (map (\<lambda>(k, v). encodeCbor k @ encodeCbor v) m)"

lemma pairs_back:
  assumes "\<And>k v. (k, v) \<in> set m \<Longrightarrow> reads fuel k \<and> reads fuel v \<and> primitive k"
    and "distinct (map fst (acc @ m))"
  shows "pairs (decodeCborValue fuel (pre @ encodePairs m @ post)) (length m) acc (Some (int (length pre)))
     = Some (Inr (acc @ m, Some (int (length pre) + int (length (encodePairs m)))))"
  using assms
proof (induction m arbitrary: pre acc)
  case (Cons kv m)
  obtain k v where kv: "kv = (k, v)" by (cases kv)
  from Cons.prems(1)[of k v] kv have r: "reads fuel k" "reads fuel v" and p: "primitive k" by auto
  note key = reads_at[OF r(1), of pre "encodeCbor v @ encodePairs m @ post"]
    and val = reads_at[OF r(2), of "pre @ encodeCbor k" "encodePairs m @ post"]
  have set: "map_set k v acc = acc @ [(k, v)]"
    using Cons.prems(2) p by (auto simp: map_set_def kv put_fresh)
  have "pairs (decodeCborValue fuel (((pre @ encodeCbor k) @ encodeCbor v) @ encodePairs m @ post)) (length m)
      (acc @ [(k, v)]) (Some (int (length ((pre @ encodeCbor k) @ encodeCbor v))))
     = Some (Inr ((acc @ [(k, v)]) @ m, Some (int (length ((pre @ encodeCbor k) @ encodeCbor v)) + int (length (encodePairs m)))))"
    by (rule Cons.IH) (use Cons.prems kv in auto)
  with key val set show ?case by (simp add: dec_bind_def kv add.assoc)
qed simp

lemma as_chars_bytes [simp]: "as_chars (as_bytes s) = s"
  by (induction s) (simp_all add: as_chars_def as_bytes_def unsigned_of_nat take_bit_eq_mod)

lemma digits64: "c = c div 4096 * 4096 + c div 64 mod 64 * 64 + c mod (64 :: nat)"
proof -
  have "c div 4096 = c div 64 div 64" by (simp add: div_mult2_eq[symmetric])
  with div_mult_mod_eq[of c 64] div_mult_mod_eq[of "c div 64" 64] show ?thesis by linarith
qed

lemma digits64_more: "c = c div 262144 * 262144 + c div 4096 mod 64 * 4096 + c div 64 mod 64 * 64 + c mod (64 :: nat)"
proof -
  have "c div 262144 = c div 4096 div 64" by (simp add: div_mult2_eq[symmetric])
  with digits64[of c] div_mult_mod_eq[of "c div 4096" 64] show ?thesis by linarith
qed

lemma utf8_char_read:
  assumes "unicode_scalar c"
  shows "utf8_decode [] 0 0x80 0xBF (utf8_char c @ cs) = utf8_char c @ utf8_decode [] 0 0x80 0xBF cs"
proof -
  have c: "c < 1114112" "\<not> (55296 \<le> c \<and> c \<le> 57343)" using assms by (simp_all add: unicode_scalar_def)
  consider "c < 128" | "128 \<le> c" "c < 2048" | "2048 \<le> c" "c < 65536" | "65536 \<le> c" by linarith
  then show ?thesis
  proof cases
    case 1
    then show ?thesis by (simp add: utf8_char_def utf8_lead_def take_bit_eq_mod)
  next
    case 2
    define h l where "h = c div 64" and "l = c mod 64"
    have b: "2 \<le> h" "h < 32" "l < 64" using 2 by (simp_all add: h_def l_def less_mult_imp_div_less div_le_mono)
    have e: "utf8_char c = map char_of [192 + h, 128 + l]"
      using 2 by (simp add: utf8_char_def h_def l_def)
    have "utf8_lead (192 + h) = Some (1, 128, 191)" using b by (auto simp: utf8_lead_def)
    then show ?thesis unfolding e using b by (simp add: take_bit_eq_mod)
  next
    case 3
    define h m l where "h = c div 4096" and "m = c div 64 mod 64" and "l = c mod 64"
    have b: "h < 16" "m < 64" "l < 64" "c = h * 4096 + m * 64 + l" using 3 digits64[of c] by (simp_all add: h_def m_def l_def)
    have r: "h = 0 \<longrightarrow> 32 \<le> m" "h = 13 \<longrightarrow> m < 32" using b 3 c(2) by linarith+
    have e: "utf8_char c = map char_of [224 + h, 128 + m, 128 + l]"
      using 3 by (simp add: utf8_char_def h_def m_def l_def)
    have "utf8_lead (224 + h) = Some (2, if h = 0 then 160 else 128, if h = 13 then 159 else 191)"
      using b by (auto simp: utf8_lead_def)
    then show ?thesis unfolding e using b r by (auto simp: take_bit_eq_mod)
  next
    case 4
    define h m n l where "h = c div 262144" and "m = c div 4096 mod 64" and "n = c div 64 mod 64" and "l = c mod 64"
    have b: "h \<le> 4" "m < 64" "n < 64" "l < 64" "c = h * 262144 + m * 4096 + n * 64 + l"
      using 4 c(1) digits64_more[of c] by (simp_all add: h_def m_def n_def l_def)
    have r: "h = 0 \<longrightarrow> 16 \<le> m" "h = 4 \<longrightarrow> m < 16" using b 4 c(1) by linarith+
    have e: "utf8_char c = map char_of [240 + h, 128 + m, 128 + n, 128 + l]"
      using 4 by (simp add: utf8_char_def h_def m_def n_def l_def)
    have "utf8_lead (240 + h) = Some (3, if h = 0 then 144 else 128, if h = 4 then 143 else 191)"
      using b by (auto simp: utf8_lead_def)
    then show ?thesis unfolding e using b r by (auto simp: take_bit_eq_mod)
  qed
qed

lemma utf8_read:
  assumes "utf8 s"
  shows "utf8_decode [] 0 0x80 0xBF s = s"
proof -
  from assms obtain cs where "list_all unicode_scalar cs" "s = concat (map utf8_char cs)"
    by (auto simp: utf8_def)
  then show ?thesis by (induction cs arbitrary: s) (simp_all add: utf8_char_read)
qed

lemma decodeText_as_bytes: "utf8 s \<Longrightarrow> take 3 s \<noteq> byteOrderMark \<Longrightarrow> decodeText (as_bytes s) = s"
  by (simp add: decodeText_def utf8_read)

lemma utf8_ascii [simp]: "list_all (\<lambda>c. of_char c < (0x80 :: nat)) s \<Longrightarrow> utf8 s"
  unfolding utf8_def
proof (rule exI[of _ "map of_char s"], induction s)
  case (Cons c s)
  then show ?case by (auto simp: unicode_scalar_def utf8_char_def)
qed simp

lemma length_as_bytes [simp]: "length (as_bytes s) = length s"
  by (simp add: as_bytes_def)

lemma decode_head:
  fixes pre post :: "byte list"
  assumes "major < 7" and "n < 2 ^ 32"
  defines "data \<equiv> pre @ head major n @ post"
  shows "drop_bit 5 (bits_at data (Some (int (length pre)))) = int major"
    and "bits_at data (Some (int (length pre))) AND 0x1f = int (additional_of n)"
    and "readLength data (shifted (Some (int (length pre))) 1) (int (additional_of n))
         = Inr (Some (int n), Some (int (length (pre @ head major n))))"
  using head_initial[OF assms(1), of pre n post] major_split[OF additional_of_less[of n], of major]
    readLength_head[OF assms(2), of pre major post]
  by (simp_all add: data_def shifted_def)

lemma nesting_arr: "v \<in> set vs \<Longrightarrow> nesting v < nesting (CArr vs)"
  by (simp add: le_imp_less_Suc)

lemma nesting_map:
  assumes "(k, v) \<in> set m"
  shows "nesting k < nesting (CMap m)" and "nesting v < nesting (CMap m)"
proof -
  have "max (nesting k) (nesting v) \<in> set (map (\<lambda>(k, v). max (nesting k) (nesting v)) m)"
    using assms by force
  then have "max (nesting k) (nesting v) \<le> Max (insert 0 (set (map (\<lambda>(k, v). max (nesting k) (nesting v)) m)))"
    by (intro Max_ge) auto
  then show "nesting k < nesting (CMap m)" and "nesting v < nesting (CMap m)" by (simp_all add: le_imp_less_Suc)
qed

lemma run_inside:
  "run_of_bytes (pre @ h @ b @ post) (Some (int (length (pre @ h)))) (Some (int (length b)))
   = Inr (b, Some (int (length (pre @ h)) + int (length b)))"
  by (simp add: run_of_bytes_def nat_add_distrib flip: of_nat_add)

lemma value_reads: "cbor_wf v \<Longrightarrow> nesting v \<le> fuel \<Longrightarrow> reads fuel v"
proof (induction fuel arbitrary: v)
  case 0
  then show ?case by (cases v) auto
next
  case (Suc fuel)
  show ?case unfolding reads_def
  proof (intro allI)
    fix pre post :: "byte list"
    let ?p = "int (length pre)"
    show "decodeCborValue (Suc fuel) (pre @ encodeCbor v @ post) (Some ?p)
       = Some (Inr (v, Some (?p + int (length (encodeCbor v)))))"
    proof (cases v)
      case (CNum i)
      show ?thesis
      proof (cases "0 \<le> i")
        case True
        with Suc.prems(1) CNum have "nat i < 2 ^ 32" by simp
        from decode_head[OF _ this, of 0 pre post] True CNum show ?thesis by (simp add: Let_def number_of_def)
      next
        case False
        with Suc.prems(1) CNum have "nat (- 1 - i) < 2 ^ 32" by simp
        from decode_head[OF _ this, of 1 pre post] False CNum show ?thesis by (simp add: Let_def number_of_def)
      qed
    next
      case (CText s)
      with Suc.prems(1) have "length s < 2 ^ 32" and "decodeText (as_bytes s) = s" by (simp_all add: decodeText_as_bytes)
      with decode_head[OF _ this(1), of 3 pre "as_bytes s @ post"] CText
        run_inside[of pre "head 3 (length s)" "as_bytes s" post]
      show ?thesis by (simp add: Let_def)
    next
      case (CBytes b)
      with Suc.prems(1) have "length b < 2 ^ 32" by simp
      from decode_head[OF _ this, of 2 pre "b @ post"] CBytes run_inside[of pre "head 2 (length b)" b post]
      show ?thesis by (simp add: Let_def)
    next
      case (CArr vs)
      with Suc.prems(1) have l: "length vs < 2 ^ 32" by simp
      have "reads fuel v" if "v \<in> set vs" for v
        using that Suc.prems nesting_arr[OF that] unfolding CArr by (intro Suc.IH) (auto simp: list_all_iff)
      from many_back[OF this, of vs "pre @ head 4 (length vs)" post] CArr
        decode_head[OF _ l, of 4 pre "concat (map encodeCbor vs) @ post"]
      show ?thesis by (simp add: Let_def dec_bind_def)
    next
      case (CMap m)
      with Suc.prems(1) have l: "length m < 2 ^ 32" and d: "distinct (map fst ([] @ m))" by simp_all
      have "reads fuel k \<and> reads fuel v \<and> primitive k" if "(k, v) \<in> set m" for k v
        using that Suc.prems nesting_map[OF that] unfolding CMap by (intro conjI Suc.IH) (auto simp: list_all_iff)
      from pairs_back[OF this d, of "pre @ head 5 (length m)" post] CMap
        decode_head[OF _ l, of 5 pre "encodePairs m @ post"]
      show ?thesis by (simp add: Let_def dec_bind_def)
    next
      case (CBool b)
      then show ?thesis
        using byte_at_moved[of 0 "[if b then 0xf5 else 0xf4]" ?p pre post]
        by (simp add: Let_def bits_at_def shifted_def)
    next
      case CNull
      then show ?thesis
        using byte_at_moved[of 0 "[0xf6]" ?p pre post]
        by (simp add: Let_def bits_at_def shifted_def)
    next
      case CNaN
      with Suc.prems show ?thesis by simp
    qed
  qed
qed

lemma length_head: "1 \<le> length (head major n)"
  by (simp add: head_def)

lemma length_member: "x \<in> set xs \<Longrightarrow> length (f x) \<le> length (concat (map f xs))"
  by (induction xs) auto

lemma nesting_le: "cbor_wf v \<Longrightarrow> nesting v \<le> length (encodeCbor v)"
proof (induction v)
  case (CArr vs)
  have "nesting v \<le> length (concat (map encodeCbor vs))" if "v \<in> set vs" for v
    using CArr.IH[OF that] CArr.prems that length_member[OF that, of encodeCbor] by (fastforce simp: list_all_iff)
  then have "Max (insert 0 (set (map nesting vs))) \<le> length (concat (map encodeCbor vs))"
    by (intro Max.boundedI) auto
  with length_head[of 4 "length vs"] show ?case unfolding encodeCbor.simps nesting.simps length_append by linarith
next
  case (CMap m)
  have "max (nesting k) (nesting v) \<le> length (encodePairs m)" if "(k, v) \<in> set m" for k v
    using CMap.IH[OF that] CMap.prems that length_member[OF that, of "\<lambda>(k, v). encodeCbor k @ encodeCbor v"]
    by (fastforce simp: list_all_iff)
  then have "Max (insert 0 (set (map (\<lambda>(k, v). max (nesting k) (nesting v)) m))) \<le> length (encodePairs m)"
    by (intro Max.boundedI) auto
  with length_head[of 5 "length m"] show ?case unfolding encodeCbor.simps nesting.simps length_append by linarith
qed (use length_head in \<open>auto intro: trans_le_add1\<close>)

lemma decodeCbor_encodeCbor:
  assumes "cbor_wf v"
  shows "decodeCbor (encodeCbor v @ rest) = Inr v"
proof -
  have "nesting v \<le> length (encodeCbor v @ rest) + 1" using nesting_le[OF assms] by simp
  from value_reads[OF assms this] have "decodeCborValue (length (encodeCbor v @ rest) + 1) ([] @ encodeCbor v @ rest) (Some (int (length ([] :: byte list))))
     = Some (Inr (v, Some (int (length ([] :: byte list)) + int (length (encodeCbor v)))))"
    unfolding reads_def by blast
  then show ?thesis by (simp add: decodeCbor_def)
qed

text \<open>The key of a credential, and the authenticator data that carries it.\<close>

definition coseKey :: "byte list \<Rightarrow> byte list \<Rightarrow> cborValue" where
  "coseKey x y = CMap [(CNum 1, CNum 2), (CNum 3, CNum (- 7)), (CNum (- 1), CNum 1),
     (CNum (- 2), CBytes x), (CNum (- 3), CBytes y)]"

definition authDataOf :: "byte list \<Rightarrow> byte \<Rightarrow> byte list \<Rightarrow> byte list \<Rightarrow> byte list \<Rightarrow> byte list \<Rightarrow> byte list" where
  "authDataOf rpIdHash flags rest credentialId x y =
     (rpIdHash @ [flags] @ rest) @ [of_nat (length credentialId div 256), of_nat (length credentialId mod 256)]
     @ credentialId @ encodeCbor (coseKey x y)"

lemma coseKey_read:
  assumes "length x = 32" and "length y = 32"
  shows "coseKeyToSecp256r1PublicKey L (encodeCbor (coseKey x y)) = assertSecp256r1Point L (UNCOMPRESSED_POINT_PREFIX # x @ y)"
proof -
  have "cbor_wf (coseKey x y)" using assms by (simp add: coseKey_def)
  from decodeCbor_encodeCbor[OF this, of "[]"] assms show ?thesis
    by (simp add: coseKeyToSecp256r1PublicKey_def) (simp add: coseKey_def)
qed

lemma authData_read:
  assumes "length rpIdHash = 32" and "uint flags AND 0x40 \<noteq> 0" and "length rest = 20" and "length credentialId < 65536"
    and "length x = 32" and "length y = 32"
  shows "extractPublicKeyFromAuthData L (authDataOf rpIdHash flags rest credentialId x y)
     = assertSecp256r1Point L (UNCOMPRESSED_POINT_PREFIX # x @ y)"
proof -
  let ?a = "authDataOf rpIdHash flags rest credentialId x y" and ?n = "length credentialId"
  let ?l = "[of_nat (?n div 256), of_nat (?n mod 256)] :: byte list"
  have key: "0 < length (encodeCbor (coseKey x y))" by (simp add: coseKey_def head_def)
  have flags: "bits_at ?a (Some 32) = uint flags"
    using byte_at_moved[of 0 "[flags]" 32 rpIdHash] assms(1) by (simp add: authDataOf_def bits_at_def)
  have "byte_at ?a (Some 53) = Some (int (?n div 256))" "byte_at ?a (Some 54) = Some (int (?n mod 256))"
    using byte_at_moved[of 0 ?l 53 "rpIdHash @ [flags] @ rest"] byte_at_moved[of 1 ?l 54 "rpIdHash @ [flags] @ rest"] assms(1,3,4)
    by (simp_all add: authDataOf_def uint_byte)
  moreover have "push_bit 8 (int (?n div 256)) OR int (?n mod 256) = int ?n"
    by (subst push_or) (simp_all add: zdiv_int zmod_int)
  ultimately have len: "push_bit 8 (bits_at ?a (Some 53)) OR bits_at ?a (Some 54) = int ?n"
    by (simp add: bits_at_def)
  have size: "length ?a = 55 + ?n + length (encodeCbor (coseKey x y))"
    using assms(1,3) by (simp add: authDataOf_def)
  have rest: "drop (nat (55 + int ?n)) ?a = encodeCbor (coseKey x y)"
  proof -
    let ?pre = "(rpIdHash @ [flags] @ rest) @ ?l @ credentialId"
    have "?a = ?pre @ encodeCbor (coseKey x y)" by (simp add: authDataOf_def)
    moreover have "nat (55 + int ?n) = length ?pre" using assms(1,3) by simp
    moreover have "drop (length ?pre) (?pre @ encodeCbor (coseKey x y)) = encodeCbor (coseKey x y)"
      by (rule append_eq_conv_conj[THEN iffD1, THEN conjunct2, symmetric, OF refl])
    ultimately show ?thesis by (simp only:)
  qed
  show ?thesis
    using flags len size rest key assms(2) coseKey_read[OF assms(5,6)]
    by (simp add: extractPublicKeyFromAuthData_def Let_def ATTESTED_CREDENTIAL_DATA_FLAG_def)
qed

section \<open>Properties\<close>

text \<open>
  The decoder returns for every input, well-formed or not: on each byte list it reaches a value
  or an exception within a nesting of the length of the data, so its recursion always ends, and the
  offset after a value lies behind its start.
\<close>

theorem decode_returns:
  "(\<exists>r. decodeCborValue (length data + 1) data (Some 0) = Some r)
   \<and> (\<forall>v off. decodeCborValue (length data + 1) data (Some 0) = Some (Inr (v, Some off)) \<longrightarrow> 0 < off)"
proof -
  have "\<exists>r. decodeCborValue (length data + 1) data (Some 0) = Some r \<and> (\<forall>v o1. r = Inr (v, o1) \<longrightarrow> beyond (0 + 1) o1)"
    by (rule decode_total) simp_all
  then show ?thesis by fastforce
qed

theorem decode_returns_witness:
  "\<exists>off. decodeCborValue 3 [0x18, 0x2a] (Some 0) = Some (Inr (CNum 42, Some off)) \<and> 0 < off"
proof -
  have "decodeCborValue (length [0x18, 0x2a :: byte] + 1) [0x18, 0x2a] (Some 0) = Some (Inr (CNum 42, Some 2))"
    by code_simp
  with decode_returns[of "[0x18, 0x2a]"] show ?thesis by (auto simp: numeral_eq_Suc)
qed



text \<open>
  The key of a registration is found: for an attestation object whose
  authenticator data carries the attested flag, a credential id of any length below 65536 and the
  ES256 key with coordinates x and y, the extraction checks and returns the uncompressed point
  \<^verbatim>\<open>04 x y\<close>.
\<close>

theorem registration_key_found:
  assumes "cbor_wf (CMap m)"
    and "map_of m (CText ''authData'') = Some (CBytes (authDataOf rpIdHash flags rest credentialId x y))"
    and "length rpIdHash = 32" and "uint flags AND 0x40 \<noteq> 0" and "length rest = 20"
    and "length credentialId < 65536" and "length x = 32" and "length y = 32"
    and "pl_onCurve L (UNCOMPRESSED_POINT_PREFIX # x @ y)"
  shows "extractPublicKeyFromAttestationObject L (encodeCbor (CMap m)) = Inr (UNCOMPRESSED_POINT_PREFIX # x @ y)"
  using decodeCbor_encodeCbor[OF assms(1), of "[]"] authData_read[OF assms(3-8), of L] assms(2,7-9)
  by (simp add: extractPublicKeyFromAttestationObject_def assertSecp256r1Point_def SECP256R1_PUBLIC_KEY_SIZE_def)

definition demo_lib :: passkeyLib where
  "demo_lib = \<lparr>pl_toBuffer = as_bytes, pl_onCurve = (\<lambda>b. length b = 65)\<rparr>"

theorem registration_key_found_witness:
  "extractPublicKeyFromAttestationObject demo_lib (encodeCbor (CMap
     [(CText ''fmt'', CText ''none''), (CText ''attStmt'', CMap []),
      (CText ''authData'', CBytes (authDataOf (replicate 32 7) 0x45 (replicate 20 0) [1, 2, 3] (replicate 32 5) (replicate 32 6)))]))
   = Inr (0x04 # replicate 32 5 @ replicate 32 6)"
  by (rule registration_key_found[unfolded UNCOMPRESSED_POINT_PREFIX_def, of _ "replicate 32 7" "0x45" "replicate 20 0" "[1, 2, 3]"])
    (simp_all add: authDataOf_def coseKey_def head_def demo_lib_def byteOrderMark_def)

end
