(* ===== verification/ContextRules.thy ===== *)
theory ContextRules
  imports ChainClient Cbor
begin

text \<open>
  \<^verbatim>\<open>lib/onChainContextRules.ts\<close>: the context rules of a smart account as the client reads them,
  with simulated calls of the account's contract. A \<^verbatim>\<open>native\<close> is what
  \<^verbatim>\<open>scValToNative\<close> makes of the value kinds a rule consists of; that function, base64url and
  the address codec are third-party and arguments. A simulation that is not answered in ten seconds
  is an answer \<^const>\<open>None\<close>. Shown: exactly which rules the probing finds, that both ways of
  decoding a rule read back the contract's encoding of it, and which signer of a rule the passkey
  search returns.
\<close>

section \<open>JavaScript values\<close>

datatype native =
    NUndef | NNull | NBool bool | NNum int | NText string | NBuf "byte list"
  | NArr "native list" | NObj "(string \<times> native) list"

fun js_String :: "native \<Rightarrow> string" where
  "js_String NUndef = ''undefined''"
| "js_String NNull = ''null''"
| "js_String (NBool b) = (if b then ''true'' else ''false'')"
| "js_String (NNum n) = toString10 n"
| "js_String (NText s) = s"
| "js_String (NBuf b) = utf8_decode [] 0 0x80 0xBF (as_chars b)"
| "js_String (NArr vs) = join '','' (map (\<lambda>v. if v = NUndef \<or> v = NNull then [] else js_String v) vs)"
| "js_String (NObj m) = ''[object Object]''"

text \<open>\<^verbatim>\<open>Number(v)\<close>; \<^const>\<open>None\<close> is \<^verbatim>\<open>NaN\<close>.\<close>

fun js_Number :: "native \<Rightarrow> int option" where
  "js_Number NUndef = None"
| "js_Number NNull = Some 0"
| "js_Number (NBool b) = Some (if b then 1 else 0)"
| "js_Number (NNum n) = Some n"
| "js_Number (NObj m) = None"
| "js_Number v = Number_of (js_String v)"

fun js_truth :: "native \<Rightarrow> bool" where
  "js_truth (NBool b) = b"
| "js_truth (NNum n) = (n \<noteq> 0)"
| "js_truth (NText s) = (s \<noteq> [])"
| "js_truth v = (v \<noteq> NUndef \<and> v \<noteq> NNull)"

text \<open>\<^verbatim>\<open>v.k\<close>, \<^verbatim>\<open>v?.[i]\<close> and \<^verbatim>\<open>v ?? d\<close>.\<close>

fun member :: "native \<Rightarrow> string \<Rightarrow> native" where
  "member (NObj m) k = given (map_of m k) NUndef"
| "member v k = NUndef"

fun index :: "native \<Rightarrow> nat \<Rightarrow> native" where
  "index (NArr vs) i = (if i < length vs then vs ! i else NUndef)"
| "index (NText s) i = (if i < length s then NText [s ! i] else NUndef)"
| "index (NBuf b) i = (if i < length b then NNum (uint (b ! i)) else NUndef)"
| "index (NObj m) i = given (map_of m (toString10 (int i))) NUndef"
| "index v i = NUndef"

definition or_else :: "native \<Rightarrow> native \<Rightarrow> native" where
  "or_else v d = (if v = NUndef \<or> v = NNull then d else v)"

fun is_num :: "native \<Rightarrow> bool" where "is_num (NNum n) = True" | "is_num v = False"

section \<open>Rules\<close>

definition DEFAULT_MAX_PROBED_RULE_ID :: int where "DEFAULT_MAX_PROBED_RULE_ID = 8"

definition DEFAULT_MAX_CONSECUTIVE_PROBE_MISSES :: int where "DEFAULT_MAX_CONSECUTIVE_PROBE_MISSES = 3"

text \<open>
  A signer is external, with a verifier and its key data, or (behind a cast in the source)
  delegated, with an address alone. A context type is a tag with optional values.
\<close>

datatype ctxSigner = External string "byte list" | Delegated string

record ctxType =
  ct_tag :: string
  ct_values :: "native list option"

record ctxRule =
  r_id :: "int option"
  r_type :: ctxType
  r_name :: string
  r_policies :: "string list"
  r_signers :: "ctxSigner list"
  r_validUntil :: "int option option"

definition hex_text :: "string \<Rightarrow> bool" where
  "hex_text h \<longleftrightarrow> h \<noteq> [] \<and> (\<forall>c \<in> set h. hex_val c \<noteq> None) \<and> even (length h)"

definition coerceKeyDataBuffer :: "native \<Rightarrow> byte list option" where
  "coerceKeyDataBuffer raw = (case raw of
       NBuf b \<Rightarrow> Some b
     | NArr vs \<Rightarrow> if list_all is_num vs then Some (map (\<lambda>v. to_uint8 (js_Number v)) vs) else None
     | NText s \<Rightarrow> let h = (if has0x s then drop 2 s else s) in if hex_text h then Some (parse_pairs h) else None
     | NObj m \<Rightarrow> (case (member raw ''type'', member raw ''data'') of
          (NText t, NArr vs) \<Rightarrow> if t = ''Buffer'' then Some (map (\<lambda>v. to_uint8 (js_Number v)) vs) else None
        | _ \<Rightarrow> None)
     | _ \<Rightarrow> None)"

definition default_type :: ctxType where
  "default_type = \<lparr>ct_tag = ''Default'', ct_values = None\<rparr>"

definition typed :: "string \<Rightarrow> native \<Rightarrow> ctxType option" where
  "typed tag v =
     (if tag = ''Default'' then Some default_type
      else if tag = ''CallContract'' then Some \<lparr>ct_tag = tag, ct_values = Some [NText (js_String (or_else v (NText [])))]\<rparr>
      else if tag = ''CreateContract'' then Some \<lparr>ct_tag = tag, ct_values = Some [NBuf (given (coerceKeyDataBuffer v) [])]\<rparr>
      else None)"

definition normalizeContextType :: "native \<Rightarrow> ctxType" where
  "normalizeContextType raw = given (case raw of
       NArr vs \<Rightarrow> if vs = [] then None else typed (js_String (hd vs)) (index raw 1)
     | NObj m \<Rightarrow> if map_of m ''tag'' = None then None
         else typed (js_String (or_else (member raw ''tag'') (NText ''Default''))) (index (member raw ''values'') 0)
     | _ \<Rightarrow> None) default_type"

definition type_value :: "ctxType \<Rightarrow> native" where
  "type_value t = (case ct_values t of Some (v # vs) \<Rightarrow> v | _ \<Rightarrow> NUndef)"

definition contextRuleTypeToScVal :: "(string \<Rightarrow> scval res) \<Rightarrow> ctxType \<Rightarrow> scval res" where
  "contextRuleTypeToScVal address t =
     (if ct_tag t = ''Default'' then Inr (ScVec [ScSymbol ''Default''])
      else if ct_tag t = ''CallContract'' then
        rmap (\<lambda>a. ScVec [ScSymbol ''CallContract'', a]) (address (js_String (or_else (type_value t) (NText []))))
      else Inr (ScVec [ScSymbol ''CreateContract'', ScBytes (given (coerceKeyDataBuffer (type_value t)) [])]))"

definition contextRuleTypeKey :: "ctxType \<Rightarrow> string" where
  "contextRuleTypeKey t =
     (if ct_tag t = ''Default'' then ''Default''
      else if ct_tag t = ''CallContract'' then ''CallContract:'' @ js_String (type_value t)
      else (case coerceKeyDataBuffer (type_value t) of Some wasm \<Rightarrow> ''CreateContract:'' @ bytesToHex wasm
         | None \<Rightarrow> ''CreateContract:unknown''))"

definition contextRuleTypeMatches :: "ctxType \<Rightarrow> ctxType \<Rightarrow> bool" where
  "contextRuleTypeMatches ruleType requiredType \<longleftrightarrow>
     ct_tag ruleType = ''Default'' \<or> contextRuleTypeKey ruleType = contextRuleTypeKey requiredType"

section \<open>Rules out of native values\<close>

definition external_of :: "native \<Rightarrow> native \<Rightarrow> ctxSigner option" where
  "external_of verifier key = map_option (External (js_String verifier)) (coerceKeyDataBuffer key)"

definition parseSigner :: "native \<Rightarrow> ctxSigner option" where
  "parseSigner raw = (case raw of
       NArr vs \<Rightarrow>
         if index raw 0 = NText ''Delegated'' \<and> 2 \<le> length vs then Some (Delegated (js_String (index raw 1)))
         else if index raw 0 \<noteq> NText ''External'' \<or> length vs < 3 then None
         else external_of (index raw 1) (index raw 2)
     | NObj m \<Rightarrow>
         if member raw ''tag'' = NText ''Delegated'' \<and> js_truth (index (member raw ''values'') 0)
         then Some (Delegated (js_String (index (member raw ''values'') 0)))
         else if member raw ''tag'' \<noteq> NText ''External'' then None
         else (case member raw ''values'' of
             NArr vs \<Rightarrow> if length vs < 2 then None else external_of (vs ! 0) (vs ! 1)
           | _ \<Rightarrow> None)
     | _ \<Rightarrow> None)"

fun elements :: "native \<Rightarrow> native list" where
  "elements (NArr vs) = vs"
| "elements v = []"

fun is_object :: "native \<Rightarrow> bool" where
  "is_object (NBuf b) = True"
| "is_object (NArr vs) = True"
| "is_object (NObj m) = True"
| "is_object v = False"

definition rule_of :: "native \<Rightarrow> ctxRule" where
  "rule_of item =
     \<lparr>r_id = js_Number (or_else (member item ''id'') (NNum 0)),
      r_type = normalizeContextType (member item ''context_type''),
      r_name = js_String (or_else (member item ''name'') (NText [])),
      r_policies = map js_String (elements (member item ''policies'')),
      r_signers = List.map_filter parseSigner (elements (member item ''signers'')),
      r_validUntil = (if member item ''valid_until'' = NUndef \<or> member item ''valid_until'' = NNull then None
         else Some (js_Number (member item ''valid_until'')))\<rparr>"

definition parseContextRules :: "native \<Rightarrow> ctxRule list" where
  "parseContextRules raw = map rule_of (filter is_object (elements raw))"

definition parseContextRule :: "native \<Rightarrow> ctxRule option" where
  "parseContextRule raw = (case parseContextRules (NArr [raw]) of r # rs \<Rightarrow> Some r | [] \<Rightarrow> None)"

section \<open>Finding the passkey's signer\<close>

record b64Lib =
  b64_encode :: "byte list \<Rightarrow> string"
  b64_toBuffer :: "string \<Rightarrow> byte list"

datatype credentialRef = CredText string | CredBytes "byte list"

definition credential_bytes :: "b64Lib \<Rightarrow> credentialRef \<Rightarrow> byte list" where
  "credential_bytes B c = (case c of CredText s \<Rightarrow> b64_toBuffer B s | CredBytes b \<Rightarrow> b)"

definition getCredentialIdFromKeyData :: "b64Lib \<Rightarrow> byte list \<Rightarrow> string option" where
  "getCredentialIdFromKeyData B keyData =
     (if length keyData \<le> SECP256R1_PUBLIC_KEY_SIZE then None
      else Some (b64_encode B (drop SECP256R1_PUBLIC_KEY_SIZE keyData)))"

text \<open>The key data is longer than the credential and ends with it.\<close>

definition ends_with_credential :: "byte list \<Rightarrow> byte list \<Rightarrow> bool" where
  "ends_with_credential keyData cred \<longleftrightarrow>
     length cred < length keyData \<and> drop (length keyData - length cred) keyData = cred"

text \<open>
  The loops over the signers of all rules. The key data of a delegated signer is
  \<^verbatim>\<open>undefined\<close>: reading its length throws.
\<close>

fun key_in_signers :: "b64Lib \<Rightarrow> string \<Rightarrow> credentialRef \<Rightarrow> ctxSigner list \<Rightarrow> byte list option res" where
  "key_in_signers B verifier c [] = Inr None"
| "key_in_signers B verifier c (Delegated a # ss) =
     (if a \<noteq> verifier then key_in_signers B verifier c ss else Inl (TypeError ''length''))"
| "key_in_signers B verifier c (External v key # ss) =
     (if v \<noteq> verifier then key_in_signers B verifier c ss
      else if (\<exists>s. c = CredText s \<and> getCredentialIdFromKeyData B key = Some s) then Inr (Some key)
      else if ends_with_credential key (credential_bytes B c) then Inr (Some key)
      else key_in_signers B verifier c ss)"

definition findPasskeyKeyDataInRules ::
  "b64Lib \<Rightarrow> ctxRule list \<Rightarrow> string \<Rightarrow> credentialRef \<Rightarrow> byte list option res" where
  "findPasskeyKeyDataInRules B rules verifier c = key_in_signers B verifier c (concat (map r_signers rules))"

fun signer_matches :: "b64Lib \<Rightarrow> string \<Rightarrow> string \<Rightarrow> ctxSigner \<Rightarrow> bool" where
  "signer_matches B verifier cred (Delegated a) \<longleftrightarrow> False"
| "signer_matches B verifier cred (External v key) \<longleftrightarrow> v = verifier \<and>
     (getCredentialIdFromKeyData B key = Some cred \<or> ends_with_credential key (b64_toBuffer B cred))"

definition findPasskeySignerInRules :: "b64Lib \<Rightarrow> ctxRule list \<Rightarrow> string \<Rightarrow> string \<Rightarrow> ctxSigner option" where
  "findPasskeySignerInRules B rules verifier cred =
     find (signer_matches B verifier cred) (concat (map r_signers rules))"

fun suffix_matches :: "string \<Rightarrow> byte list \<Rightarrow> ctxSigner \<Rightarrow> bool" where
  "suffix_matches verifier cred (Delegated a) \<longleftrightarrow> False"
| "suffix_matches verifier cred (External v key) \<longleftrightarrow> v = verifier \<and> ends_with_credential key cred"

definition findPasskeySignerInContextRules ::
  "b64Lib \<Rightarrow> ctxRule list \<Rightarrow> int list \<Rightarrow> string \<Rightarrow> credentialRef \<Rightarrow> ctxSigner option" where
  "findPasskeySignerInContextRules B rules ids verifier c =
     find (suffix_matches verifier (credential_bytes B c))
       (concat (map (\<lambda>i. case find (\<lambda>r. r_id r = Some i) rules of Some r \<Rightarrow> r_signers r | None \<Rightarrow> []) ids))"

definition externalSignerKeyDataEqual :: "native \<Rightarrow> native \<Rightarrow> bool" where
  "externalSignerKeyDataEqual a b = (case (coerceKeyDataBuffer a, coerceKeyDataBuffer b) of
       (Some left, Some right) \<Rightarrow> left = right | _ \<Rightarrow> False)"

section \<open>Rules out of XDR\<close>

fun arm :: "scval \<Rightarrow> string" where
  "arm (ScSymbol s) = ''scvSymbol''"
| "arm (ScString s) = ''scvString''"
| "arm (ScAddress a) = ''scvAddress''"
| "arm (ScBytes b) = ''scvBytes''"
| "arm (ScU32 n) = ''scvU32''"
| "arm (ScI128 n) = ''scvI128''"
| "arm (ScMap m) = ''scvMap''"
| "arm (ScVec vs) = ''scvVec''"
| "arm ScVoid = ''scvVoid''"

definition expected :: "string \<Rightarrow> string \<Rightarrow> scval \<Rightarrow> js_error" where
  "expected label kind v = Refused (''Expected '' @ label @ '' to be '' @ kind @ '', got '' @ arm v)"

definition symbol_entries :: "(scval \<times> scval) list \<Rightarrow> (string \<times> scval) list \<Rightarrow> (string \<times> scval) list" where
  "symbol_entries es acc =
     fold (\<lambda>e acc. case e of (ScSymbol k, v) \<Rightarrow> put k v acc | _ \<Rightarrow> acc) es acc"

definition decodeRequiredMapEntries :: "scval \<Rightarrow> (string \<times> scval) list res" where
  "decodeRequiredMapEntries val = (case val of ScMap es \<Rightarrow> Inr (symbol_entries es [])
     | _ \<Rightarrow> Inl (expected ''context rule result'' ''a map'' val))"

definition expectScVec :: "scval \<Rightarrow> string \<Rightarrow> scval list res" where
  "expectScVec val label = (case val of ScVec vs \<Rightarrow> Inr vs | _ \<Rightarrow> Inl (expected label ''a vec'' val))"

definition expectScU32 :: "scval \<Rightarrow> string \<Rightarrow> int res" where
  "expectScU32 val label = (case val of ScU32 n \<Rightarrow> Inr n | _ \<Rightarrow> Inl (expected label ''a u32'' val))"

definition expectScString :: "scval \<Rightarrow> string \<Rightarrow> string res" where
  "expectScString val label = (case val of ScString s \<Rightarrow> Inr s | _ \<Rightarrow> Inl (expected label ''a string'' val))"

definition expectScAddress :: "scval \<Rightarrow> string \<Rightarrow> string res" where
  "expectScAddress val label = (case val of ScAddress a \<Rightarrow> Inr a | _ \<Rightarrow> Inl (expected label ''an address'' val))"

definition expectScBytes :: "scval \<Rightarrow> string \<Rightarrow> byte list res" where
  "expectScBytes val label = (case val of ScBytes b \<Rightarrow> Inr b | _ \<Rightarrow> Inl (expected label ''bytes'' val))"

definition expectScSymbol :: "scval \<Rightarrow> string \<Rightarrow> string res" where
  "expectScSymbol val label = (case val of ScSymbol s \<Rightarrow> Inr s | _ \<Rightarrow> Inl (expected label ''a symbol'' val))"

text \<open>\<^verbatim>\<open>parts[i].switch()\<close> past the end of the vec.\<close>

definition part :: "scval list \<Rightarrow> nat \<Rightarrow> scval res" where
  "part parts i = (if i < length parts then Inr (parts ! i) else Inl (TypeError ''switch''))"

definition decodeContextRuleType :: "scval \<Rightarrow> ctxType res" where
  "decodeContextRuleType val =
     rbind (expectScVec val ''context_type'') (\<lambda>parts.
     rbind (rbind (part parts 0) (\<lambda>p. expectScSymbol p ''context_type tag'')) (\<lambda>tag.
     if tag = ''Default'' then Inr default_type
     else if tag = ''CallContract'' then
       rbind (rbind (part parts 1) (\<lambda>p. expectScAddress p ''call contract address''))
         (\<lambda>a. Inr \<lparr>ct_tag = tag, ct_values = Some [NText a]\<rparr>)
     else if tag = ''CreateContract'' then
       rbind (rbind (part parts 1) (\<lambda>p. expectScBytes p ''create contract wasm hash''))
         (\<lambda>b. Inr \<lparr>ct_tag = tag, ct_values = Some [NBuf b]\<rparr>)
     else Inl (Refused (''Unknown context rule type tag: '' @ tag))))"

definition decodeSigner :: "scval \<Rightarrow> ctxSigner res" where
  "decodeSigner val =
     rbind (expectScVec val ''signer'') (\<lambda>parts.
     rbind (rbind (part parts 0) (\<lambda>p. expectScSymbol p ''signer tag'')) (\<lambda>tag.
     if tag = ''Delegated'' then
       (if length parts < 2
        then Inl (Refused (''Delegated signer expected 2 items, got '' @ toString10 (int (length parts))))
        else rmap Delegated (rbind (part parts 1) (\<lambda>p. expectScAddress p ''delegated signer address'')))
     else if tag \<noteq> ''External'' \<or> length parts < 3
     then Inl (Refused (''External signer expected 3 items, got '' @ toString10 (int (length parts)) @ '' for tag '' @ tag))
     else rbind (rbind (part parts 1) (\<lambda>p. expectScAddress p ''external signer verifier'')) (\<lambda>v.
          rmap (External v) (rbind (part parts 2) (\<lambda>p. expectScBytes p ''external signer key data'')))))"

fun optional_u32 :: "scval option \<Rightarrow> int option option" where
  "optional_u32 (Some (ScU32 n)) = Some (Some n)"
| "optional_u32 _ = None"

definition decodeContextRuleResult :: "scval \<Rightarrow> ctxRule res" where
  "decodeContextRuleResult scVal = rbind (decodeRequiredMapEntries scVal) (\<lambda>entries.
     case (map_of entries ''context_type'', map_of entries ''id'', map_of entries ''name'',
           map_of entries ''policies'', map_of entries ''signers'') of
       (Some ty, Some i, Some n, Some p, Some s) \<Rightarrow>
         rbind (decodeContextRuleType ty) (\<lambda>context_type.
         rbind (expectScU32 i ''context rule id'') (\<lambda>id1.
         rbind (expectScString n ''context rule name'') (\<lambda>name.
         rbind (rbind (expectScVec p ''policies'') (\<lambda>ps.
           traverse (\<lambda>(k, policy). expectScAddress policy (''policy['' @ toString10 (int k) @ '']'')) (enumerate 0 ps)))
           (\<lambda>policies.
         rbind (rbind (expectScVec s ''signers'') (traverse decodeSigner)) (\<lambda>signers.
           Inr \<lparr>r_id = Some id1, r_type = context_type, r_name = name, r_policies = policies,
                r_signers = signers, r_validUntil = optional_u32 (map_of entries ''valid_until'')\<rparr>)))))
     | _ \<Rightarrow> Inl (Refused ''Context rule result is missing one or more required fields''))"

section \<open>Reading from the chain\<close>

record 'w ruleNet =
  rn_simulate :: "callTx \<Rightarrow> 'w \<Rightarrow> simResponse option res \<times> 'w"
  rn_address :: "string \<Rightarrow> scval res"
  rn_native :: "scval \<Rightarrow> native res"
  rn_latestLedger :: "'w \<Rightarrow> int option res \<times> 'w"

definition simulateContractCall ::
  "'w ruleNet \<Rightarrow> string \<Rightarrow> string \<Rightarrow> scval list \<Rightarrow> ('w, scval option) io" where
  "simulateContractCall N account functionName args =
     io_bind (io_res (rn_address N account)) (\<lambda>a.
     io_bind (io_call (rn_simulate N \<lparr>tx_source = \<lparr>ac_address = NULL_ACCOUNT, ac_sequence = 0\<rparr>,
         tx_contract = account, tx_method = functionName, tx_args = args, tx_timeout = 30\<rparr>)) (\<lambda>sim.
     io_return (case sim of Some (SimSuccess (Some retval)) \<Rightarrow> Some retval | _ \<Rightarrow> None)))"

definition readContextRuleById :: "'w ruleNet \<Rightarrow> string \<Rightarrow> int \<Rightarrow> ('w, ctxRule option) io" where
  "readContextRuleById N account ruleId =
     io_bind (simulateContractCall N account ''get_context_rule'' [ScU32 ruleId]) (\<lambda>retval.
     case retval of None \<Rightarrow> io_return None
     | Some v \<Rightarrow> (case decodeContextRuleResult v of
         Inr r \<Rightarrow> io_return (Some r)
       | Inl e \<Rightarrow> io_bind (io_res (rn_native N v)) (\<lambda>n. io_return (parseContextRule n))))"

definition readContextRulesCount :: "'w ruleNet \<Rightarrow> string \<Rightarrow> ('w, int) io" where
  "readContextRulesCount N account =
     io_bind (simulateContractCall N account ''get_context_rules_count'' []) (\<lambda>retval.
     io_return (case retval of Some (ScU32 n) \<Rightarrow> n | _ \<Rightarrow> 0))"

text \<open>The probing loop: the id to try, how many are left, the misses in a row.\<close>

fun probe :: "'w ruleNet \<Rightarrow> string \<Rightarrow> int \<Rightarrow> nat \<Rightarrow> int \<Rightarrow> int \<Rightarrow> ctxRule list \<Rightarrow> ('w, ctxRule list) io" where
  "probe N account maxMisses 0 ruleId misses rules = io_return rules"
| "probe N account maxMisses (Suc left) ruleId misses rules =
     io_bind (readContextRuleById N account ruleId) (\<lambda>r.
     case r of None \<Rightarrow> if maxMisses \<le> misses + 1 then io_return rules
         else probe N account maxMisses left (ruleId + 1) (misses + 1) rules
     | Some rule \<Rightarrow> probe N account maxMisses left (ruleId + 1) 0 (rules @ [rule]))"

text \<open>
  Sorted by id; with an id that is not a number the comparison is not an order and the result is the
  implementation's choice.
\<close>

definition sort_rules :: "ctxRule list \<Rightarrow> ctxRule list" where
  "sort_rules rules = (if list_all (\<lambda>r. r_id r \<noteq> None) rules then sort_key (\<lambda>r. the (r_id r)) rules else rules)"

record probeOptions =
  po_maxRuleId :: "int option"
  po_maxConsecutiveMisses :: "int option"

definition probe_range :: "int \<Rightarrow> probeOptions \<Rightarrow> int" where
  "probe_range cnt opts =
     (let maxMisses = given (po_maxConsecutiveMisses opts) DEFAULT_MAX_CONSECUTIVE_PROBE_MISSES;
          cap = given (po_maxRuleId opts) DEFAULT_MAX_PROBED_RULE_ID
      in min cap (max (cnt + maxMisses) maxMisses))"

definition listOnChainContextRules :: "'w ruleNet \<Rightarrow> string \<Rightarrow> probeOptions \<Rightarrow> ('w, ctxRule list) io" where
  "listOnChainContextRules N account opts =
     io_bind (readContextRulesCount N account) (\<lambda>cnt.
     io_bind (probe N account (given (po_maxConsecutiveMisses opts) DEFAULT_MAX_CONSECUTIVE_PROBE_MISSES)
        (nat (probe_range cnt opts + 1)) 0 0 []) (\<lambda>rules.
     io_return (sort_rules rules)))"

definition no_options :: probeOptions where
  "no_options = \<lparr>po_maxRuleId = None, po_maxConsecutiveMisses = None\<rparr>"

definition fetchContextRulesByType :: "'w ruleNet \<Rightarrow> string \<Rightarrow> ctxType \<Rightarrow> ('w, ctxRule list) io" where
  "fetchContextRulesByType N account t =
     io_bind (io_res (contextRuleTypeToScVal (rn_address N) t)) (\<lambda>tv.
     io_bind (simulateContractCall N account ''get_context_rules'' [tv]) (\<lambda>retval.
     case retval of None \<Rightarrow> io_return []
     | Some v \<Rightarrow> io_bind (io_res (rn_native N v)) (\<lambda>n. io_return (parseContextRules n))))"

definition fetchOnChainContextRules :: "'w ruleNet \<Rightarrow> string \<Rightarrow> ctxType \<Rightarrow> ('w, ctxRule list) io" where
  "fetchOnChainContextRules N account t =
     io_bind (fetchContextRulesByType N account t) (\<lambda>bulk.
     if list_ex (\<lambda>r. r_signers r \<noteq> []) bulk then io_return bulk
     else io_bind (listOnChainContextRules N account no_options) (\<lambda>allRules.
       io_return (filter (\<lambda>r. contextRuleTypeMatches (r_type r) t) allRules)))"

section \<open>The probing finds what no run of misses hides\<close>

definition run_before :: "(int \<Rightarrow> 'a option) \<Rightarrow> int \<Rightarrow> int \<Rightarrow> bool" where
  "run_before rd m i \<longleftrightarrow> (\<exists>j \<in> {0..i - m}. \<forall>k \<in> {j..<j + m}. rd k = None)"

definition reached :: "(int \<Rightarrow> 'a option) \<Rightarrow> int \<Rightarrow> int \<Rightarrow> bool" where
  "reached rd m i \<longleftrightarrow> rd i \<noteq> None \<and> \<not> run_before rd m i"

text \<open>The state of the loop: the misses counted are those right before the id.\<close>

definition counted :: "(int \<Rightarrow> 'a option) \<Rightarrow> int \<Rightarrow> int \<Rightarrow> int \<Rightarrow> bool" where
  "counted rd m i misses \<longleftrightarrow> 0 \<le> misses \<and> misses < m \<and> misses \<le> i \<and> \<not> run_before rd m i
     \<and> (\<forall>k \<in> {i - misses..<i}. rd k = None) \<and> (misses < i \<longrightarrow> rd (i - misses - 1) \<noteq> None)"

lemma run_beforeI: "0 \<le> j \<Longrightarrow> j \<le> i - m \<Longrightarrow> \<forall>k \<in> {j..<j + m}. rd k = None \<Longrightarrow> run_before rd m i"
  unfolding run_before_def by (intro bexI[of _ j]) auto

lemma counted_no_run: "counted rd m i misses \<Longrightarrow> \<not> run_before rd m i"
  by (simp add: counted_def)

lemma counted_start: "1 \<le> m \<Longrightarrow> counted rd m 0 0"
  by (auto simp: counted_def run_before_def)

lemma counted_miss:
  assumes "counted rd m i misses" and "rd i = None" and "misses + 1 < m"
  shows "counted rd m (i + 1) (misses + 1)"
proof -
  have "\<not> run_before rd m (i + 1)"
  proof
    assume "run_before rd m (i + 1)"
    then obtain j where j: "0 \<le> j" "j \<le> i + 1 - m" "\<forall>k \<in> {j..<j + m}. rd k = None"
      by (auto simp: run_before_def)
    show False
    proof (cases "j \<le> i - m")
      case True
      with run_beforeI[OF j(1) _ j(3)] counted_no_run[OF assms(1)] show False by blast
    next
      case False
      with j(2) have "j = i + 1 - m" by simp
      with j assms(1,3) have "i - misses - 1 \<in> {j..<j + m}" "misses < i" by (auto simp: counted_def)
      with j(3) assms(1) show False by (auto simp: counted_def)
    qed
  qed
  with assms show ?thesis by (auto simp: counted_def)
qed

lemma counted_hit:
  assumes "counted rd m i misses" and "rd i = Some r"
  shows "counted rd m (i + 1) 0"
proof -
  have "\<not> run_before rd m (i + 1)"
  proof
    assume "run_before rd m (i + 1)"
    then obtain j where j: "0 \<le> j" "j \<le> i + 1 - m" "\<forall>k \<in> {j..<j + m}. rd k = None"
      by (auto simp: run_before_def)
    then have "\<not> j \<le> i - m" using run_beforeI[of j i m rd] counted_no_run[OF assms(1)] by blast
    with j assms(1) have "i \<in> {j..<j + m}" by (auto simp: counted_def)
    with j(3) assms(2) show False by fastforce
  qed
  with assms show ?thesis by (auto simp: counted_def)
qed

lemma counted_end:
  assumes "counted rd m i misses" and "rd i = None" and "m \<le> misses + 1" and "i \<le> k"
  shows "\<not> reached rd m k"
proof (cases "k = i")
  case True
  with assms(2) show ?thesis by (simp add: reached_def)
next
  case False
  have m: "m = misses + 1" using assms(1,3) by (simp add: counted_def)
  have "\<forall>n \<in> {i - misses..<i - misses + m}. rd n = None"
  proof
    fix n assume "n \<in> {i - misses..<i - misses + m}"
    with m have "n \<in> {i - misses..<i} \<or> n = i" by auto
    with assms(1,2) show "rd n = None" by (auto simp: counted_def)
  qed
  moreover have "i - misses \<in> {0..k - m}" using False assms(1,4) m by (auto simp: counted_def)
  ultimately show ?thesis by (auto simp: reached_def run_before_def)
qed

definition reads_steadily :: "'w ruleNet \<Rightarrow> string \<Rightarrow> (int \<Rightarrow> ctxRule option) \<Rightarrow> bool" where
  "reads_steadily N account rd \<longleftrightarrow> (\<forall>i w. \<exists>w'. readContextRuleById N account i w = Some (Inr (rd i), w'))"

lemma probe_reached:
  assumes "reads_steadily N account rd" and "counted rd m i misses"
  shows "\<exists>w'. probe N account m left i misses acc w
     = Some (Inr (acc @ map (\<lambda>k. the (rd k)) (filter (reached rd m) [i..i + int left - 1])), w')"
  using assms(2)
proof (induction left arbitrary: i misses acc w)
  case 0
  then show ?case by (simp add: io_return_def)
next
  case (Suc left)
  from assms(1) obtain w1 where r: "readContextRuleById N account i w = Some (Inr (rd i), w1)"
    by (auto simp: reads_steadily_def)
  have list: "[i..i + int (Suc left) - 1] = i # [i + 1..(i + 1) + int left - 1]"
    by (subst upto_rec1) (simp_all add: algebra_simps)
  show ?case
  proof (cases "rd i")
    case None
    then have drop: "\<not> reached rd m i" by (simp add: reached_def)
    show ?thesis
    proof (cases "m \<le> misses + 1")
      case True
      have "filter (reached rd m) [i..i + int (Suc left) - 1] = []"
        using counted_end[OF Suc.prems None True] by (auto simp: filter_empty_conv)
      with r None True show ?thesis by (simp add: io_bind_def io_return_def)
    next
      case False
      with Suc.IH[OF counted_miss[OF Suc.prems None]] obtain w2 where
        "probe N account m left (i + 1) (misses + 1) acc w1
          = Some (Inr (acc @ map (\<lambda>k. the (rd k)) (filter (reached rd m) [i + 1..(i + 1) + int left - 1])), w2)"
        by fastforce
      with r None False drop show ?thesis unfolding list by (simp add: io_bind_def)
    qed
  next
    case (Some rule)
    then have keep: "reached rd m i" using Suc.prems by (simp add: reached_def counted_def)
    from Suc.IH[OF counted_hit[OF Suc.prems Some], of "acc @ [rule]" w1] obtain w2 where
      "probe N account m left (i + 1) 0 (acc @ [rule]) w1
        = Some (Inr ((acc @ [rule]) @ map (\<lambda>k. the (rd k)) (filter (reached rd m) [i + 1..(i + 1) + int left - 1])), w2)"
      by fastforce
    with r Some keep show ?thesis unfolding list by (simp add: io_bind_def)
  qed
qed

lemma list_reached:
  assumes "reads_steadily N account rd"
    and "\<And>w. \<exists>w'. readContextRulesCount N account w = Some (Inr cnt, w')"
    and "given (po_maxConsecutiveMisses opts) DEFAULT_MAX_CONSECUTIVE_PROBE_MISSES = m" and "1 \<le> m"
  shows "\<exists>w'. listOnChainContextRules N account opts w
     = Some (Inr (sort_rules (map (\<lambda>k. the (rd k)) (filter (reached rd m) [0..probe_range cnt opts]))), w')"
proof -
  obtain w1 where c: "readContextRulesCount N account w = Some (Inr cnt, w1)" using assms(2) by blast
  have range: "[0..0 + int (nat (probe_range cnt opts + 1)) - 1] = [0..probe_range cnt opts]"
    by (cases "0 \<le> probe_range cnt opts + 1") simp_all
  obtain w2 where "probe N account m (nat (probe_range cnt opts + 1)) 0 0 [] w1
     = Some (Inr (map (\<lambda>k. the (rd k)) (filter (reached rd m) [0..probe_range cnt opts])), w2)"
    using probe_reached[OF assms(1) counted_start[OF assms(4)], of "nat (probe_range cnt opts + 1)" "[]" w1]
    unfolding range by auto
  with c assms(3) show ?thesis by (simp add: listOnChainContextRules_def io_bind_def io_return_def)
qed

section \<open>The two readings of a rule\<close>

text \<open>The contract's encoding of a rule.\<close>

fun signerVal :: "ctxSigner \<Rightarrow> scval" where
  "signerVal (External v key) = ScVec [ScSymbol ''External'', ScAddress v, ScBytes key]"
| "signerVal (Delegated a) = ScVec [ScSymbol ''Delegated'', ScAddress a]"

definition typeVal :: "ctxType \<Rightarrow> scval" where
  "typeVal t = ScVec (ScSymbol (ct_tag t) # (case type_value t of NText a \<Rightarrow> [ScAddress a] | NBuf b \<Rightarrow> [ScBytes b] | _ \<Rightarrow> []))"

definition ruleVal :: "ctxRule \<Rightarrow> scval" where
  "ruleVal r = ScMap
     [(ScSymbol ''context_type'', typeVal (r_type r)), (ScSymbol ''id'', ScU32 (the (r_id r))),
      (ScSymbol ''name'', ScString (r_name r)), (ScSymbol ''policies'', ScVec (map ScAddress (r_policies r))),
      (ScSymbol ''signers'', ScVec (map signerVal (r_signers r))),
      (ScSymbol ''valid_until'', case r_validUntil r of None \<Rightarrow> ScVoid | Some n \<Rightarrow> ScU32 (the n))]"

definition wf_type :: "ctxType \<Rightarrow> bool" where
  "wf_type t \<longleftrightarrow> t = default_type \<or> (\<exists>a. t = \<lparr>ct_tag = ''CallContract'', ct_values = Some [NText a]\<rparr>)
     \<or> (\<exists>b. t = \<lparr>ct_tag = ''CreateContract'', ct_values = Some [NBuf b]\<rparr>)"

definition wf_rule :: "ctxRule \<Rightarrow> bool" where
  "wf_rule r \<longleftrightarrow> wf_type (r_type r) \<and> r_id r \<noteq> None \<and> r_validUntil r \<noteq> Some None"

text \<open>What the SDK documents of its conversion.\<close>

definition native_laws :: "(scval \<Rightarrow> native res) \<Rightarrow> bool" where
  "native_laws nat1 \<longleftrightarrow> (\<forall>s. nat1 (ScSymbol s) = Inr (NText s)) \<and> (\<forall>s. nat1 (ScString s) = Inr (NText s))
     \<and> (\<forall>a. nat1 (ScAddress a) = Inr (NText a)) \<and> (\<forall>b. nat1 (ScBytes b) = Inr (NBuf b))
     \<and> (\<forall>n. nat1 (ScU32 n) = Inr (NNum n)) \<and> nat1 ScVoid = Inr NNull
     \<and> (\<forall>vs. nat1 (ScVec vs) = rmap NArr (traverse nat1 vs))
     \<and> (\<forall>es. nat1 (ScMap (map (\<lambda>(k, v). (ScSymbol k, v)) es))
          = rmap NObj (traverse (\<lambda>(k, v). rmap (Pair k) (nat1 v)) es))"

lemma native_lawsD:
  assumes "native_laws f"
  shows "f (ScSymbol s) = Inr (NText s)" and "f (ScString s) = Inr (NText s)" and "f (ScAddress s) = Inr (NText s)"
    and "f (ScBytes b) = Inr (NBuf b)" and "f (ScU32 n) = Inr (NNum n)" and "f ScVoid = Inr NNull"
    and "f (ScVec vs) = rmap NArr (traverse f vs)"
    and "f (ScMap (map (\<lambda>(k, v). (ScSymbol k, v)) es)) = rmap NObj (traverse (\<lambda>(k, v). rmap (Pair k) (f v)) es)"
  using assms unfolding native_laws_def by blast+

fun signerNative :: "ctxSigner \<Rightarrow> native" where
  "signerNative (External v key) = NArr [NText ''External'', NText v, NBuf key]"
| "signerNative (Delegated a) = NArr [NText ''Delegated'', NText a]"

definition typeNative :: "ctxType \<Rightarrow> native" where
  "typeNative t = NArr (NText (ct_tag t) # (case type_value t of NText a \<Rightarrow> [NText a] | NBuf b \<Rightarrow> [NBuf b] | _ \<Rightarrow> []))"

definition ruleNative :: "ctxRule \<Rightarrow> native" where
  "ruleNative r = NObj
     [(''context_type'', typeNative (r_type r)), (''id'', NNum (the (r_id r))), (''name'', NText (r_name r)),
      (''policies'', NArr (map NText (r_policies r))), (''signers'', NArr (map signerNative (r_signers r))),
      (''valid_until'', case r_validUntil r of None \<Rightarrow> NNull | Some n \<Rightarrow> NNum (the n))]"

lemma traverse_images: "(\<And>x. x \<in> set xs \<Longrightarrow> f (g x) = Inr (h x)) \<Longrightarrow> traverse f (map g xs) = Inr (map h xs)"
  by (induction xs) auto

lemma native_rule:
  assumes "native_laws f" and "wf_rule r"
  shows "f (ruleVal r) = Inr (ruleNative r)"
proof -
  note laws = native_lawsD[OF assms(1)]
  have signer: "f (signerVal s) = Inr (signerNative s)" for s
    by (cases s) (simp_all add: laws)
  have ty: "f (typeVal (r_type r)) = Inr (typeNative (r_type r))"
    by (simp add: typeVal_def typeNative_def laws split: native.split)
  have "traverse f (map ScAddress (r_policies r)) = Inr (map NText (r_policies r))"
    and "traverse f (map signerVal (r_signers r)) = Inr (map signerNative (r_signers r))"
    by (rule traverse_images, simp add: laws signer)+
  moreover have "ruleVal r = ScMap (map (\<lambda>(k, v). (ScSymbol k, v))
     [(''context_type'', typeVal (r_type r)), (''id'', ScU32 (the (r_id r))), (''name'', ScString (r_name r)),
      (''policies'', ScVec (map ScAddress (r_policies r))), (''signers'', ScVec (map signerVal (r_signers r))),
      (''valid_until'', case r_validUntil r of None \<Rightarrow> ScVoid | Some n \<Rightarrow> ScU32 (the n))])"
    by (simp add: ruleVal_def)
  moreover have "f (case r_validUntil r of None \<Rightarrow> ScVoid | Some n \<Rightarrow> ScU32 (the n))
      = Inr (case r_validUntil r of None \<Rightarrow> NNull | Some n \<Rightarrow> NNum (the n))"
    by (simp add: laws split: option.split)
  ultimately show ?thesis
    by (simp only: laws(8)) (simp add: ruleNative_def laws(1-5) laws(7)[of "map ScAddress (r_policies r)"]
      laws(7)[of "map signerVal (r_signers r)"] ty)
qed

lemma wf_typeE:
  assumes "wf_type t"
  obtains "t = default_type" | a where "t = \<lparr>ct_tag = ''CallContract'', ct_values = Some [NText a]\<rparr>"
    | b where "t = \<lparr>ct_tag = ''CreateContract'', ct_values = Some [NBuf b]\<rparr>"
  using assms unfolding wf_type_def by blast

lemma decode_type_back:
  assumes "wf_type t"
  shows "decodeContextRuleType (typeVal t) = Inr t"
  using assms
  by (cases rule: wf_typeE) (simp_all add: decodeContextRuleType_def typeVal_def type_value_def default_type_def
      expectScVec_def part_def expectScSymbol_def expectScAddress_def expectScBytes_def)

lemma native_type_back:
  assumes "wf_type t"
  shows "normalizeContextType (typeNative t) = t"
  using assms
  by (cases rule: wf_typeE) (simp_all add: typeNative_def type_value_def default_type_def normalizeContextType_def
      typed_def or_else_def coerceKeyDataBuffer_def)

lemma decodeSigner_back: "decodeSigner (signerVal s) = Inr s"
  by (cases s) (simp_all add: decodeSigner_def expectScVec_def part_def expectScSymbol_def expectScAddress_def expectScBytes_def)

lemma parseSigner_back: "parseSigner (signerNative s) = Some s"
  by (cases s) (simp_all add: parseSigner_def external_of_def coerceKeyDataBuffer_def)

lemma traverse_enumerate:
  "(\<And>k x. f (k, g x) = Inr x) \<Longrightarrow> traverse f (enumerate n (map g xs)) = Inr xs"
  by (induction xs arbitrary: n) simp_all

lemma decode_rule:
  assumes "wf_rule r"
  shows "decodeContextRuleResult (ruleVal r) = Inr r"
proof -
  obtain i where i: "r_id r = Some i" using assms by (auto simp: wf_rule_def)
  have u: "optional_u32 (Some (case r_validUntil r of None \<Rightarrow> ScVoid | Some n \<Rightarrow> ScU32 (the n))) = r_validUntil r"
    using assms by (auto simp: wf_rule_def split: option.split)
  have "traverse (\<lambda>(k, policy). expectScAddress policy (''policy['' @ toString10 (int k) @ '']''))
     (enumerate 0 (map ScAddress (r_policies r))) = Inr (r_policies r)"
    by (rule traverse_enumerate) (simp add: expectScAddress_def)
  moreover have "traverse decodeSigner (map signerVal (r_signers r)) = Inr (r_signers r)"
    using traverse_images[of "r_signers r" decodeSigner signerVal id] decodeSigner_back by simp
  ultimately show ?thesis
    using assms i u
    by (simp add: decodeContextRuleResult_def decodeRequiredMapEntries_def ruleVal_def symbol_entries_def
        decode_type_back wf_rule_def expectScU32_def expectScString_def expectScVec_def)
qed

lemma rule_of_native:
  assumes "wf_rule r"
  shows "rule_of (ruleNative r) = r"
proof -
  obtain i where i: "r_id r = Some i" using assms by (auto simp: wf_rule_def)
  have "List.map_filter parseSigner (map signerNative (r_signers r)) = r_signers r"
    by (induction "r_signers r" rule: rev_induct) (auto simp: map_filter_def parseSigner_back comp_def)
  moreover have "map js_String (map NText (r_policies r)) = r_policies r" by (simp add: comp_def)
  ultimately show ?thesis
    using assms i native_type_back[of "r_type r"]
    by (auto simp: rule_of_def ruleNative_def or_else_def wf_rule_def split: option.split)
qed

lemma parse_rules:
  assumes "\<And>r. r \<in> set rs \<Longrightarrow> wf_rule r"
  shows "parseContextRules (NArr (map ruleNative rs)) = rs"
proof -
  have "is_object (ruleNative r)" for r by (simp add: ruleNative_def)
  then have "filter is_object (map ruleNative rs) = map ruleNative rs" by (simp add: filter_id_conv)
  moreover have "map rule_of (map ruleNative rs) = rs"
    using assms by (induction rs) (simp_all add: rule_of_native)
  ultimately show ?thesis by (simp add: parseContextRules_def)
qed

section \<open>Properties\<close>

text \<open>A network that answers at once, and an account whose rules have the ids 0, 1 and 5.\<close>

definition demo_rule :: "int \<Rightarrow> ctxRule" where
  "demo_rule i = \<lparr>r_id = Some i, r_type = \<lparr>ct_tag = ''CallContract'', ct_values = Some [NText ''CA'']\<rparr>, r_name = ''session'',
     r_policies = [''CP''], r_signers = [Delegated ''GS'', External ''CV'' (replicate 65 4 @ [1, 2])],
     r_validUntil = Some (Some 900)\<rparr>"

definition rules_net :: "int list \<Rightarrow> unit ruleNet" where
  "rules_net ids = \<lparr>rn_simulate = (\<lambda>tx w. (Inr (Some (SimSuccess
       (if tx_method tx = ''get_context_rules_count'' then Some (ScU32 (int (length ids)))
        else (case tx_args tx of [ScU32 i] \<Rightarrow> if i \<in> set ids then Some (ruleVal (demo_rule i)) else None | _ \<Rightarrow> None)))), w)),
     rn_address = (\<lambda>a. Inr (ScAddress a)), rn_native = (\<lambda>v. Inr NUndef), rn_latestLedger = (\<lambda>w. (Inr (Some 500), w))\<rparr>"

lemma wf_demo_rule: "wf_rule (demo_rule i)"
  by (simp add: wf_rule_def demo_rule_def wf_type_def)

lemma rules_net_reads:
  "reads_steadily (rules_net ids) a (\<lambda>i. if i \<in> set ids then Some (demo_rule i) else None)"
  by (simp add: reads_steadily_def readContextRuleById_def simulateContractCall_def io_simps rules_net_def
      decode_rule[OF wf_demo_rule])

lemma rules_net_count: "readContextRulesCount (rules_net ids) a w = Some (Inr (int (length ids)), w)"
  by (simp add: readContextRulesCount_def simulateContractCall_def io_simps rules_net_def)

text \<open>
  C38: Which rules are found. Of an account that answers each id the same way whenever asked, the
  listing returns, ordered by id, exactly the rules with ids up to the probed range that no run of
  \<^verbatim>\<open>maxConsecutiveMisses\<close> unused ids precedes; the range is at most
  \<^verbatim>\<open>maxRuleId\<close> however many rules the account counts.
\<close>

theorem probed_rules:
  assumes "reads_steadily N account rd"
    and "\<And>w. \<exists>w'. readContextRulesCount N account w = Some (Inr cnt, w')"
    and "given (po_maxConsecutiveMisses opts) DEFAULT_MAX_CONSECUTIVE_PROBE_MISSES = m" and "1 \<le> m"
  shows "\<exists>w'. listOnChainContextRules N account opts w
     = Some (Inr (sort_rules (map (\<lambda>k. the (rd k)) (filter (reached rd m) [0..probe_range cnt opts]))), w')
     \<and> probe_range cnt opts \<le> given (po_maxRuleId opts) DEFAULT_MAX_PROBED_RULE_ID"
  using list_reached[OF assms] by (simp add: probe_range_def Let_def)

theorem probed_rules_witness:
  "\<exists>w'. listOnChainContextRules (rules_net [0, 1, 5]) ''CACC'' no_options ()
     = Some (Inr [demo_rule 0, demo_rule 1], w')"
proof -
  let ?rd = "\<lambda>i. if i \<in> set [0, 1, 5 :: int] then Some (demo_rule i) else None"
  have "reached ?rd 3 0" "reached ?rd 3 1" by (auto simp: reached_def run_before_def)
  moreover have "run_before ?rd 3 5" by (rule run_beforeI[of 2]) auto
  moreover have "[0..6 :: int] = [0, 1, 2, 3, 4, 5, 6]" by (simp add: upto.simps)
  ultimately have f: "filter (reached ?rd 3) [0..6] = [0, 1]" by (simp add: reached_def)
  have "\<exists>w'. listOnChainContextRules (rules_net [0, 1, 5]) ''CACC'' no_options ()
     = Some (Inr (sort_rules (map (\<lambda>k. the (?rd k)) (filter (reached ?rd 3) [0..probe_range 3 no_options]))), w')
     \<and> probe_range 3 no_options \<le> given (po_maxRuleId no_options) DEFAULT_MAX_PROBED_RULE_ID"
    by (rule probed_rules[OF rules_net_reads])
      (simp_all add: rules_net_count no_options_def DEFAULT_MAX_CONSECUTIVE_PROBE_MISSES_def)
  moreover have "probe_range 3 no_options = 6"
    by (simp add: probe_range_def no_options_def DEFAULT_MAX_CONSECUTIVE_PROBE_MISSES_def DEFAULT_MAX_PROBED_RULE_ID_def)
  moreover have "sort_rules (map (\<lambda>k. the (?rd k)) [0, 1]) = [demo_rule 0, demo_rule 1]"
    by (simp add: sort_rules_def demo_rule_def)
  ultimately show ?thesis using f by auto
qed

text \<open>
  The two ways a rule is read agree: the strict decoder on the contract's encoding, and the
  tolerant parser on what the SDK converts the encoding to, both give back the rule itself, for
  every well-formed rule and for lists of them.
\<close>

theorem rule_readings_agree:
  assumes "native_laws f" and "list_all wf_rule rs"
  shows "traverse decodeContextRuleResult (map ruleVal rs) = Inr rs
    \<and> rmap parseContextRules (f (ScVec (map ruleVal rs))) = Inr rs"
proof -
  have wf: "wf_rule r" if "r \<in> set rs" for r using assms(2) that by (simp add: list_all_iff)
  have "traverse decodeContextRuleResult (map ruleVal rs) = Inr (map id rs)"
    by (rule traverse_images) (simp add: decode_rule[OF wf])
  moreover have "traverse f (map ruleVal rs) = Inr (map ruleNative rs)"
    by (rule traverse_images) (rule native_rule[OF assms(1) wf])
  ultimately show ?thesis using parse_rules[OF wf] by (simp add: native_lawsD(7)[OF assms(1)])
qed

fun sym_text :: "scval \<Rightarrow> string" where
  "sym_text (ScSymbol s) = s"
| "sym_text _ = []"

fun nativeOf :: "scval \<Rightarrow> native" where
  "nativeOf (ScSymbol s) = NText s"
| "nativeOf (ScString s) = NText s"
| "nativeOf (ScAddress s) = NText s"
| "nativeOf (ScBytes b) = NBuf b"
| "nativeOf (ScU32 n) = NNum n"
| "nativeOf (ScI128 n) = NNum n"
| "nativeOf ScVoid = NNull"
| "nativeOf (ScVec vs) = NArr (map nativeOf vs)"
| "nativeOf (ScMap es) = NObj (map (\<lambda>(k, v). (sym_text k, nativeOf v)) es)"

lemma nativeOf_laws: "native_laws (\<lambda>v. Inr (nativeOf v))"
proof -
  have "traverse (\<lambda>v. Inr (nativeOf v)) vs = (Inr (map nativeOf vs) :: native list res)" for vs
    by (rule traverse_Inr_map) simp
  moreover have "traverse (\<lambda>(k, v). Inr (k, nativeOf v)) es = (Inr (map (\<lambda>(k, v). (k, nativeOf v)) es) :: _ res)"
    for es :: "(string \<times> scval) list"
    by (rule traverse_Inr_map) auto
  ultimately show ?thesis by (auto simp: native_laws_def)
qed

theorem rule_readings_agree_witness:
  "traverse decodeContextRuleResult (map ruleVal [demo_rule 0, demo_rule 7]) = Inr [demo_rule 0, demo_rule 7]
   \<and> rmap parseContextRules (Inr (nativeOf (ScVec (map ruleVal [demo_rule 0, demo_rule 7])))) = Inr [demo_rule 0, demo_rule 7]"
  using rule_readings_agree[OF nativeOf_laws, of "[demo_rule 0, demo_rule 7]"] by (simp add: wf_demo_rule)

lemma ends_with_append: "0 < length pre \<Longrightarrow> ends_with_credential (pre @ cred) cred"
  by (simp add: ends_with_credential_def)

lemma matching_suffix:
  assumes "\<And>b. b64_toBuffer B (b64_encode B b) = b" and "signer_matches B verifier (b64_encode B cred) (External v key)"
  shows "v = verifier" and "\<exists>pre. pre \<noteq> [] \<and> key = pre @ cred"
proof -
  from assms(2) show "v = verifier" by simp
  from assms(2) consider "getCredentialIdFromKeyData B key = Some (b64_encode B cred)" | "ends_with_credential key cred"
    using assms(1) by auto
  then show "\<exists>pre. pre \<noteq> [] \<and> key = pre @ cred"
  proof cases
    case 1
    then have "b64_encode B (drop 65 key) = b64_encode B cred" and l: "65 < length key"
      by (auto simp: getCredentialIdFromKeyData_def SECP256R1_PUBLIC_KEY_SIZE_def split: if_splits)
    then have "drop 65 key = cred" using assms(1) by metis
    with l show ?thesis by (intro exI[of _ "take 65 key"]) auto
  next
    case 2
    let ?n = "length key - length cred"
    from 2 have "key = take ?n key @ cred" and "take ?n key \<noteq> []"
      by (auto simp: ends_with_credential_def) (metis append_take_drop_id)
    then show ?thesis by blast
  qed
qed

lemma key_search_find:
  assumes "Delegated verifier \<notin> set ss"
  shows "key_in_signers B verifier (CredText cred) ss
    = Inr (map_option (\<lambda>s. case s of External v key \<Rightarrow> key | Delegated a \<Rightarrow> []) (find (signer_matches B verifier cred) ss))"
  using assms
proof (induction ss)
  case (Cons s ss)
  then show ?case by (cases s) (auto simp: credential_bytes_def)
qed simp

text \<open>
  The signer of a passkey is found: when a rule carries the key data built from a
  public key and the credential id, both searches return a signer of the verifier whose key data
  ends with the credential id, and they return the same one, provided no delegated signer has the
  verifier's address (on such a signer the search for the key data throws).
\<close>

theorem passkey_signer_found:
  assumes "\<And>b. b64_toBuffer B (b64_encode B b) = b"
    and "r \<in> set rules" and "External verifier (pub @ cred) \<in> set (r_signers r)" and "pub \<noteq> []"
    and "\<And>r. r \<in> set rules \<Longrightarrow> Delegated verifier \<notin> set (r_signers r)"
  shows "\<exists>pre. pre \<noteq> [] \<and> findPasskeySignerInRules B rules verifier (b64_encode B cred) = Some (External verifier (pre @ cred))
     \<and> findPasskeyKeyDataInRules B rules verifier (CredText (b64_encode B cred)) = Inr (Some (pre @ cred))"
proof -
  let ?ss = "concat (map r_signers rules)" and ?P = "signer_matches B verifier (b64_encode B cred)"
  have "?P (External verifier (pub @ cred))" using assms(1,4) ends_with_append[of pub] by simp
  moreover have "External verifier (pub @ cred) \<in> set ?ss" using assms(2,3) by auto
  ultimately have "find ?P ?ss \<noteq> None" by (auto simp: find_None_iff)
  then obtain s where s: "find ?P ?ss = Some s" by auto
  then have p: "?P s" by (auto simp: find_Some_iff)
  then obtain v key where sv: "s = External v key" by (cases s) auto
  from matching_suffix[OF assms(1) p[unfolded sv]] obtain pre where "v = verifier" "pre \<noteq> []" "key = pre @ cred" by blast
  moreover have "Delegated verifier \<notin> set ?ss" using assms(5) by auto
  ultimately show ?thesis
    using s sv key_search_find[of verifier ?ss B "b64_encode B cred"]
    by (simp add: findPasskeySignerInRules_def findPasskeyKeyDataInRules_def)
qed

definition demo_b64 :: b64Lib where
  "demo_b64 = \<lparr>b64_encode = as_chars, b64_toBuffer = as_bytes\<rparr>"

lemma as_bytes_chars [simp]: "as_bytes (as_chars b) = b"
proof (induction b)
  case (Cons a b)
  have "unat a mod 256 = unat a" using unat_byte_less[of a] by simp
  with Cons show ?case by (simp add: as_chars_def as_bytes_def)
qed (simp add: as_chars_def as_bytes_def)

theorem passkey_signer_found_witness:
  "\<exists>pre. pre \<noteq> [] \<and> findPasskeySignerInRules demo_b64 [demo_rule 0] ''CV'' (as_chars [1, 2]) = Some (External ''CV'' (pre @ [1, 2]))
     \<and> findPasskeyKeyDataInRules demo_b64 [demo_rule 0] ''CV'' (CredText (as_chars [1, 2])) = Inr (Some (pre @ [1, 2]))"
  using passkey_signer_found[of demo_b64 "demo_rule 0" "[demo_rule 0]" "''CV''" "replicate 65 4" "[1, 2]"]
  by (simp add: demo_b64_def demo_rule_def)

text \<open>
  A rule's type matches a required one exactly when it is the default type or the same type:
  the textual keys that are compared tell contracts and code hashes apart.
\<close>

theorem context_type_matches_iff:
  assumes "wf_type t" and "wf_type required"
  shows "contextRuleTypeMatches t required \<longleftrightarrow> t = default_type \<or> t = required"
proof -
  have hex: "bytesToHex b = bytesToHex b' \<longleftrightarrow> b = b'" for b b' by (metis parse_pairs_bytesToHex)
  show ?thesis using assms(1)
    by (cases rule: wf_typeE; use assms(2) in \<open>cases rule: wf_typeE\<close>)
      (simp_all add: contextRuleTypeMatches_def contextRuleTypeKey_def default_type_def type_value_def
        coerceKeyDataBuffer_def hex)
qed

theorem context_type_matches_iff_witness:
  "\<not> contextRuleTypeMatches \<lparr>ct_tag = ''CreateContract'', ct_values = Some [NBuf [1, 2]]\<rparr>
       \<lparr>ct_tag = ''CreateContract'', ct_values = Some [NBuf [1, 3]]\<rparr>"
  by (subst context_type_matches_iff) (simp_all add: wf_type_def default_type_def)

end
