(* ===== verification/Config.thy ===== *)
theory Config
  imports IssuerIndexer ContextRules
begin

text \<open>
  \<^verbatim>\<open>lib/config.ts\<close>: the deployment configuration, resolved from the build's environment and the
  checked-in \<^verbatim>\<open>deployments.json\<close>, and the issuer service's client with its retries. The
  environment is a function of the variable's name, the deployments are a record,
  \<^verbatim>\<open>StrKey.isValidContract\<close> is a third-party predicate. Console warnings are left out. Shown:
  what every contract id of a loaded configuration is, when loading fails, and exactly which
  requests the client repeats.
\<close>

section \<open>The configuration\<close>

record tokenStack =
  st_token :: string
  st_verifier :: string
  st_auditor :: string
  st_policy :: string
  st_underlying :: string
  st_auditorIdNum :: int
  st_deployedAtLedger :: "int option"

record deploymentConfig =
  network :: string
  rpcUrl :: string
  horizonUrl :: string
  networkPassphrase :: string
  issuerServiceUrl :: string
  explorerBaseUrl :: string
  issuerRegistryId :: string
  credentialRegistryId :: string
  policyVerifierId :: string
  rwaTokenId :: string
  policyId :: "int option"
  policyId2 :: "int option"
  marketplaceSettlementAddress :: string
  rwaAdapterId :: string
  complianceSacAdminId :: "string option"
  usdcSacId :: string
  usdcIssuer :: string
  usdcAssetCode :: string
  eurcSacId :: "string option"
  eurcIssuer :: "string option"
  auditorRegistryId :: "string option"
  compliantDexId :: "string option"
  compliantPayrollId :: "string option"
  compliancePolicyId :: "string option"
  sessionStoreId :: "string option"
  lumengateSmartAccountWasmHash :: "string option"
  webauthnVerifierId :: "string option"
  openZeppelinRelayerUrl :: "string option"
  relayerEnabled :: bool
  passkeyOnlyDeployEnabled :: bool
  passkeyRpId :: "string option"
  nativeSacId :: string
  sessionKeyPolicyId :: "string option"
  governanceTimelockId :: "string option"
  privacyPoolId :: "string option"
  aspMembershipVerifierId :: "string option"
  auditorId :: "int option"
  confidentialTokenId :: "string option"
  confidentialVerifierId :: "string option"
  confidentialAuditorId :: "string option"
  confidentialPolicyId :: "string option"
  confidentialUnderlyingId :: "string option"
  confidentialAuditorIdNum :: "int option option"
  confidentialDeployedAtLedger :: "int option"
  confidentialIndexerUrl :: "string option"
  confidentialTokens :: "(string \<times> tokenStack) list option"

record deploymentStack =
  d_verifier :: string
  d_auditor :: string
  d_policy :: string
  d_token :: string
  d_underlying :: string
  d_deployed_at_ledger :: "int option"
  d_auditor_id :: "int option"

record deploymentsFile =
  issuer_registry :: string
  credential_registry :: string
  policy_verifier :: string
  rwa_token :: string
  rwa_adapter :: string
  compliance_sac_admin :: "string option"
  auditor_registry :: "string option"
  compliant_dex :: "string option"
  compliant_payroll :: "string option"
  compliance_policy :: "string option"
  session_store :: "string option"
  smart_account_wasm_hash :: "string option"
  webauthn_verifier :: "string option"
  session_key_policy :: "string option"
  governance_timelock :: "string option"
  eurc_sac :: "string option"
  native_sac :: "string option"
  usdc_sac :: "string option"
  confidential_token :: "deploymentStack option"
  confidential_tokens :: "(string \<times> deploymentStack) list option"

section \<open>The environment\<close>

type_synonym env = "string \<Rightarrow> string option"

definition strip_cr :: "string \<Rightarrow> string" where
  "strip_cr s = (if s \<noteq> [] \<and> of_char (last s) = (13 :: nat) then butlast s else s)"

definition text_or :: "string option \<Rightarrow> string option \<Rightarrow> string option" where
  "text_or a b = (if truthy a then a else b)"

definition optionalViteEnv :: "env \<Rightarrow> string \<Rightarrow> string option" where
  "optionalViteEnv env name = (if \<not> truthy (env name) then None
     else let trimmed = strip_cr (trim (the (env name))) in if trimmed = [] then None else Some trimmed)"

definition viteFlagEnabled :: "env \<Rightarrow> string \<Rightarrow> bool" where
  "viteFlagEnabled env name = (case optionalViteEnv env name of None \<Rightarrow> False
     | Some raw \<Rightarrow> map lower raw \<in> {''1'', ''true'', ''yes''})"

definition requireViteEnv :: "env \<Rightarrow> string \<Rightarrow> string res" where
  "requireViteEnv env name =
     (if \<not> truthy (env name) \<or> contains (the (env name)) ''PENDING'' then Inl (Refused (''Missing or invalid '' @ name))
      else Inr (strip_cr (trim (the (env name)))))"

definition resolveContractId :: "(string \<Rightarrow> bool) \<Rightarrow> env \<Rightarrow> string \<Rightarrow> string \<Rightarrow> string res" where
  "resolveContractId valid env envKey canonical =
     (let value = (if truthy (env envKey) then trim (the (env envKey)) else []) in
      if valid canonical then Inr canonical
      else if value \<noteq> [] \<and> valid value then Inr value
      else Inl (Refused (''Invalid contract ID for '' @ envKey)))"

definition resolveOptionalContractId ::
  "(string \<Rightarrow> bool) \<Rightarrow> env \<Rightarrow> string \<Rightarrow> string option \<Rightarrow> string option res" where
  "resolveOptionalContractId valid env envKey canonical =
     (if truthy canonical \<and> valid (the canonical) then rmap Some (resolveContractId valid env envKey (the canonical))
      else case optionalViteEnv env envKey of
          Some value \<Rightarrow> Inr (if valid value then Some value else None)
        | None \<Rightarrow> Inr None)"

definition CANONICAL_TESTNET_PASSPHRASE :: string where
  "CANONICAL_TESTNET_PASSPHRASE = ''Test SDF Network ; September 2015''"

definition resolveNetworkPassphrase :: "env \<Rightarrow> string res" where
  "resolveNetworkPassphrase env = rmap (\<lambda>raw.
     if raw = ''Test'' \<or> raw = ''Test SDF Network'' then CANONICAL_TESTNET_PASSPHRASE else raw)
   (requireViteEnv env ''VITE_NETWORK_PASSPHRASE'')"

section \<open>The confidential tokens\<close>

definition stack_entry :: "deploymentStack \<Rightarrow> tokenStack" where
  "stack_entry s = \<lparr>st_token = d_token s, st_verifier = d_verifier s, st_auditor = d_auditor s,
     st_policy = d_policy s, st_underlying = d_underlying s, st_auditorIdNum = given (d_auditor_id s) 1,
     st_deployedAtLedger = d_deployed_at_ledger s\<rparr>"

definition mapConfidentialTokenStack :: "deploymentStack option \<Rightarrow> (string \<times> tokenStack) list option" where
  "mapConfidentialTokenStack stack = (case stack of None \<Rightarrow> None
     | Some s \<Rightarrow> if d_token s = [] then None else Some [(''eurc'', stack_entry s)])"

definition loadConfidentialTokens :: "deploymentsFile \<Rightarrow> (string \<times> tokenStack) list option" where
  "loadConfidentialTokens dep =
     (let mapped = fold (\<lambda>(key, stack) m.
            if key \<noteq> ''eurc'' \<and> key \<noteq> ''usdc'' then m
            else if d_token stack = [] then m else put key (stack_entry stack) m)
          (given (confidential_tokens dep) []) (given (mapConfidentialTokenStack (confidential_token dep)) [])
      in if mapped = [] then None else Some mapped)"

section \<open>Loading\<close>

definition valid_or_none :: "(string \<Rightarrow> bool) \<Rightarrow> string option \<Rightarrow> string option" where
  "valid_or_none valid s = (if truthy s \<and> valid (the s) then s else None)"

definition number_or :: "string option \<Rightarrow> int \<Rightarrow> int option" where
  "number_or s d = (if truthy s then Number_of (the s) else Some d)"

text \<open>The object that is returned, from the parts whose resolution can throw.\<close>

definition config_record where
  "config_record valid dep env rpc horizon passphrase issuer issuerReg credReg verifier rwaToken marketplace
     adapter sacAdmin policy sessionStore webauthn native sessionKey timelock ctToken ctVerifier ctAuditor
     ctPolicy ctUnderlying =
     (let opt = optionalViteEnv env; ct = confidential_token dep in
      \<lparr>network = given (text_or (text_or (env ''VITE_STELLAR_NETWORK'') (env ''VITE_NETWORK'')) (Some ''testnet'')) [],
        rpcUrl = rpc, horizonUrl = horizon, networkPassphrase = passphrase, issuerServiceUrl = issuer,
        explorerBaseUrl = given (text_or (env ''VITE_EXPLORER_BASE_URL'') (Some ''https://stellar.expert/explorer/testnet'')) [],
        issuerRegistryId = issuerReg, credentialRegistryId = credReg, policyVerifierId = verifier,
        rwaTokenId = rwaToken, policyId = number_or (env ''VITE_POLICY_ID'') 1,
        policyId2 = number_or (env ''VITE_POLICY_ID_2'') 2, marketplaceSettlementAddress = marketplace,
        rwaAdapterId = adapter, complianceSacAdminId = sacAdmin,
        usdcSacId = given (text_or (text_or (opt ''VITE_USDC_SAC_ID'') (usdc_sac dep))
          (Some ''CBIELTK6YBZJU5UP2WWQEUCYKLPU6AUNZ2BQ4WWFEIE3USCIHMXQDAMA'')) [],
        usdcIssuer = given (text_or (opt ''VITE_USDC_ISSUER'')
          (Some ''GBBD47IF6LWK7P7MDEVSCWR7DPUWV3NY3DTQEVFL4NAT4AQH3ZLLFLA5'')) [],
        usdcAssetCode = given (text_or (opt ''VITE_USDC_ASSET_CODE'') (Some ''USDC'')) [],
        eurcSacId = text_or (opt ''VITE_EURC_SAC_ID'') (valid_or_none valid (eurc_sac dep)),
        eurcIssuer = opt ''VITE_EURC_ISSUER'',
        auditorRegistryId = text_or (opt ''VITE_AUDITOR_REGISTRY_ID'') (valid_or_none valid (auditor_registry dep)),
        compliantDexId = text_or (opt ''VITE_COMPLIANT_DEX_ID'') (compliant_dex dep),
        compliantPayrollId = text_or (opt ''VITE_COMPLIANT_PAYROLL_ID'') (compliant_payroll dep),
        compliancePolicyId = policy, sessionStoreId = sessionStore,
        lumengateSmartAccountWasmHash =
          text_or (opt ''VITE_LUMENGATE_SMART_ACCOUNT_WASM_HASH'') (smart_account_wasm_hash dep),
        webauthnVerifierId = webauthn, openZeppelinRelayerUrl = opt ''VITE_OPENZEPPELIN_RELAYER_URL'',
        relayerEnabled = viteFlagEnabled env ''VITE_RELAYER_ENABLED'',
        passkeyOnlyDeployEnabled = (viteFlagEnabled env ''VITE_RELAYER_ENABLED'' \<and> opt ''VITE_OPENZEPPELIN_RELAYER_URL'' \<noteq> None),
        passkeyRpId = opt ''VITE_PASSKEY_RP_ID'', nativeSacId = native, sessionKeyPolicyId = sessionKey,
        governanceTimelockId = timelock, privacyPoolId = opt ''VITE_PRIVACY_POOL_ID'',
        aspMembershipVerifierId = opt ''VITE_ASP_MEMBERSHIP_ID'', auditorId = number_or (opt ''VITE_AUDITOR_ID'') 1,
        confidentialTokenId = ctToken, confidentialVerifierId = ctVerifier, confidentialAuditorId = ctAuditor,
        confidentialPolicyId = ctPolicy, confidentialUnderlyingId = ctUnderlying,
        confidentialAuditorIdNum = Some (Some (given (case ct of None \<Rightarrow> None | Some s \<Rightarrow> d_auditor_id s) 1)),
        confidentialDeployedAtLedger =
          (let own = (case opt ''VITE_CONFIDENTIAL_DEPLOYED_AT_LEDGER'' of None \<Rightarrow> None | Some t \<Rightarrow> Number_of t);
               known = (case ct of None \<Rightarrow> None | Some s \<Rightarrow> d_deployed_at_ledger s) in
           if own \<noteq> None \<and> own \<noteq> Some 0 then own else if known \<noteq> Some 0 then known else None),
        confidentialIndexerUrl = opt ''VITE_CONFIDENTIAL_INDEXER_URL'',
        confidentialTokens = loadConfidentialTokens dep\<rparr>)"

definition loadDeploymentConfig :: "(string \<Rightarrow> bool) \<Rightarrow> deploymentsFile \<Rightarrow> env \<Rightarrow> deploymentConfig res" where
  "loadDeploymentConfig valid dep env =
     (let need = requireViteEnv env;
          cid = resolveContractId valid env; optid = resolveOptionalContractId valid env;
          ct = confidential_token dep in
      rbind (need ''VITE_STELLAR_RPC_URL'') (\<lambda>rpc.
      rbind (need ''VITE_STELLAR_HORIZON_URL'') (\<lambda>horizon.
      rbind (resolveNetworkPassphrase env) (\<lambda>passphrase.
      rbind (need ''VITE_ISSUER_SERVICE_URL'') (\<lambda>issuer.
      rbind (cid ''VITE_ISSUER_REGISTRY_ID'' (issuer_registry dep)) (\<lambda>issuerReg.
      rbind (cid ''VITE_CREDENTIAL_REGISTRY_ID'' (credential_registry dep)) (\<lambda>credReg.
      rbind (cid ''VITE_POLICY_VERIFIER_ID'' (policy_verifier dep)) (\<lambda>verifier.
      rbind (cid ''VITE_RWA_TOKEN_ID'' (rwa_token dep)) (\<lambda>rwaToken.
      rbind (need ''VITE_MARKETPLACE_SETTLEMENT_ADDRESS'') (\<lambda>marketplace.
      rbind (cid ''VITE_RWA_ADAPTER_ID'' (rwa_adapter dep)) (\<lambda>adapter.
      rbind (optid ''VITE_COMPLIANCE_SAC_ADMIN_ID'' (compliance_sac_admin dep)) (\<lambda>sacAdmin.
      rbind (optid ''VITE_COMPLIANCE_POLICY_ID'' (compliance_policy dep)) (\<lambda>policy.
      rbind (optid ''VITE_SESSION_STORE_ID'' (session_store dep)) (\<lambda>sessionStore.
      rbind (optid ''VITE_WEBAUTHN_VERIFIER_ID'' (webauthn_verifier dep)) (\<lambda>webauthn.
      rbind (cid ''VITE_NATIVE_SAC_ID''
        (given (native_sac dep) ''CDLZFC3SYJYDZT7K67VZ75HPJVIEUVNIXF47ZG2FB2RMQQVU2HHGCYSC'')) (\<lambda>native.
      rbind (optid ''VITE_SESSION_KEY_POLICY_ID'' (session_key_policy dep)) (\<lambda>sessionKey.
      rbind (optid ''VITE_TIMELOCK_CONTRACT_ID'' (governance_timelock dep)) (\<lambda>timelock.
      rbind (optid ''VITE_CONFIDENTIAL_TOKEN_CONTRACT_ID'' (map_option d_token ct)) (\<lambda>ctToken.
      rbind (optid ''VITE_CONFIDENTIAL_VERIFIER_CONTRACT_ID'' (map_option d_verifier ct)) (\<lambda>ctVerifier.
      rbind (optid ''VITE_CONFIDENTIAL_AUDITOR_CONTRACT_ID'' (map_option d_auditor ct)) (\<lambda>ctAuditor.
      rbind (optid ''VITE_CONFIDENTIAL_POLICY_CONTRACT_ID'' (map_option d_policy ct)) (\<lambda>ctPolicy.
      rbind (optid ''VITE_CONFIDENTIAL_UNDERLYING_ASSET_CONTRACT_ID'' (map_option d_underlying ct)) (\<lambda>ctUnderlying.
      Inr (config_record valid dep env rpc horizon passphrase issuer issuerReg credReg verifier rwaToken
        marketplace adapter sacAdmin policy sessionStore webauthn native sessionKey timelock ctToken ctVerifier
        ctAuditor ctPolicy ctUnderlying))))))))))))))))))))))))"

section \<open>The issuer service\<close>

record apiRequest =
  ar_url :: string
  ar_method :: string
  ar_headers :: "(string \<times> string) list"
  ar_body :: "string option"

type_synonym 'w webFetch = "apiRequest \<Rightarrow> 'w \<Rightarrow> json httpResponse res \<times> 'w"

fun message :: "js_error \<Rightarrow> string" where
  "message (Refused m) = m"
| "message (Foreign m) = m"
| "message (SyntaxError m) = m"
| "message (TypeError m) = m"
| "message e = []"

datatype 'a tried = Again | Failed js_error | Answered "'a res"

definition tryOnce :: "string \<Rightarrow> bool \<Rightarrow> 'a httpResponse res \<Rightarrow> 'a tried" where
  "tryOnce path lastTry r = (case r of Inl e \<Rightarrow> Failed e
     | Inr res \<Rightarrow> if http_ok res then Answered (http_json res)
         else (case http_text res of Inl e \<Rightarrow> Failed e
           | Inr text \<Rightarrow> if 502 \<le> http_status res \<and> http_status res \<le> 504 \<and> \<not> lastTry then Again
               else Failed (Refused (path @ '' failed ('' @ toString10 (http_status res) @ ''): '' @ text))))"

definition cannotReach :: "string \<Rightarrow> js_error" where
  "cannotReach baseUrl = Refused (''Cannot reach issuer service at '' @ baseUrl @
     ''. Start it with: cd issuer-service && npm start'')"

text \<open>What the \<^verbatim>\<open>catch\<close> makes of a failure.\<close>

definition onFailure :: "string \<Rightarrow> bool \<Rightarrow> js_error \<Rightarrow> 'a tried" where
  "onFailure baseUrl lastTry e =
     (if \<not> lastTry \<and> contains (map lower (message e)) ''fetch'' then Again
      else if contains (message e) '' failed ('' then Failed e
      else Failed (cannotReach baseUrl))"

definition attemptOutcome :: "string \<Rightarrow> string \<Rightarrow> bool \<Rightarrow> 'a httpResponse res \<Rightarrow> 'a tried" where
  "attemptOutcome baseUrl path lastTry r = (case tryOnce path lastTry r of
       Failed e \<Rightarrow> onFailure baseUrl lastTry e | t \<Rightarrow> t)"

text \<open>The loop over the attempts, with how many are left after this one.\<close>

fun issuerTries :: "'w webFetch \<Rightarrow> string \<Rightarrow> string \<Rightarrow> apiRequest \<Rightarrow> nat \<Rightarrow> ('w, json) io" where
  "issuerTries fetch baseUrl path rq left = (\<lambda>w. case fetch rq w of (r, w1) \<Rightarrow>
     (case attemptOutcome baseUrl path (left = 0) r of
        Answered res \<Rightarrow> Some (res, w1)
      | Failed e \<Rightarrow> Some (Inl e, w1)
      | Again \<Rightarrow> (case left of 0 \<Rightarrow> Some (Inl (cannotReach baseUrl), w1)
          | Suc n \<Rightarrow> issuerTries fetch baseUrl path rq n w1)))"

definition issuerFetch ::
  "'w webFetch \<Rightarrow> string \<Rightarrow> string \<Rightarrow> string \<times> (string \<times> string) list \<times> string option \<Rightarrow> ('w, json) io" where
  "issuerFetch fetch baseUrl path init = (case init of (method1, headers, body) \<Rightarrow>
     issuerTries fetch baseUrl path
       \<lparr>ar_url = no_slash baseUrl @ path, ar_method = method1, ar_headers = headers, ar_body = body\<rparr> 2)"

text \<open>\<^verbatim>\<open>URLSearchParams.toString\<close>: the form encoding of the bytes of a text.\<close>

definition form_char :: "char \<Rightarrow> string" where
  "form_char c = (let n = of_char c :: nat in
     if (48 \<le> n \<and> n \<le> 57) \<or> (65 \<le> n \<and> n \<le> 90) \<or> (97 \<le> n \<and> n \<le> 122) \<or> c \<in> set ''*-._'' then [c]
     else if n = 32 then ''+''
     else CHR ''%'' # map (\<lambda>h. let k = of_char h :: nat in if 97 \<le> k then char_of (k - 32) else h)
       (padStart0 2 (digits_of 16 n)))"

definition form_encode :: "(string \<times> string) list \<Rightarrow> string" where
  "form_encode q = join ''&'' (map (\<lambda>(k, v). concat (map form_char k) @ ''='' @ concat (map form_char v)) q)"

definition GET :: "string \<times> (string \<times> string) list \<times> string option" where
  "GET = (''GET'', [], None)"

definition POST :: "json \<Rightarrow> string \<times> (string \<times> string) list \<times> string option" where
  "POST body = (''POST'', [(''Content-Type'', ''application/json'')], Some (stringify [] [] body))"

definition fetchIssuerHealth :: "'w webFetch \<Rightarrow> string \<Rightarrow> ('w, json) io" where
  "fetchIssuerHealth fetch baseUrl = issuerFetch fetch baseUrl ''/health'' GET"

definition fetchIssuerRoots ::
  "'w webFetch \<Rightarrow> string \<Rightarrow> string option \<Rightarrow> string option \<Rightarrow> bool \<Rightarrow> ('w, json) io" where
  "fetchIssuerRoots fetch baseUrl walletField policyKey sync1 =
     (let q = (if truthy walletField then [(''walletField'', the walletField)] else [])
            @ (if truthy policyKey then [(''policyKey'', the policyKey)] else [])
            @ (if sync1 then [(''sync'', ''1'')] else []);
          suffix = (if form_encode q = [] then [] else CHR ''?'' # form_encode q)
      in issuerFetch fetch baseUrl (''/roots'' @ suffix) GET)"

definition wallet_policy :: "string \<Rightarrow> string option \<Rightarrow> json" where
  "wallet_policy walletField policyKey = JObj [(''walletField'', JStr walletField),
     (''policyKey'', JStr (given policyKey ''general-eligibility''))]"

definition fetchRegistrySyncRoot :: "'w webFetch \<Rightarrow> string \<Rightarrow> string \<Rightarrow> string option \<Rightarrow> ('w, json) io" where
  "fetchRegistrySyncRoot fetch baseUrl walletField policyKey =
     issuerFetch fetch baseUrl ''/registry/sync-root'' (POST (wallet_policy walletField policyKey))"

definition fetchIssuerCredential :: "'w webFetch \<Rightarrow> string \<Rightarrow> string \<Rightarrow> string option \<Rightarrow> ('w, json) io" where
  "fetchIssuerCredential fetch baseUrl walletField policyKey =
     issuerFetch fetch baseUrl ''/credential'' (POST (wallet_policy walletField policyKey))"

definition fetchFaucetStatus :: "'w webFetch \<Rightarrow> string \<Rightarrow> string \<Rightarrow> ('w, json) io" where
  "fetchFaucetStatus fetch baseUrl smartAccount =
     issuerFetch fetch baseUrl (''/faucet/status?'' @ form_encode [(''smartAccountAddress'', smartAccount)]) GET"

definition claimTestnetFaucet :: "'w webFetch \<Rightarrow> string \<Rightarrow> string \<Rightarrow> string \<Rightarrow> ('w, json) io" where
  "claimTestnetFaucet fetch baseUrl smartAccount asset =
     issuerFetch fetch baseUrl ''/faucet/claim''
       (POST (JObj [(''smartAccountAddress'', JStr smartAccount), (''asset'', JStr asset)]))"

definition registerSmartAccountPasskey ::
  "'w webFetch \<Rightarrow> string \<Rightarrow> string \<Rightarrow> string \<Rightarrow> string \<Rightarrow> ('w, json) io" where
  "registerSmartAccountPasskey fetch baseUrl smartAccountId verifierId keyDataHex =
     issuerFetch fetch baseUrl ''/smart-account/passkeys''
       (POST (JObj [(''smartAccountId'', JStr smartAccountId), (''verifierId'', JStr verifierId),
          (''keyDataHex'', JStr keyDataHex)]))"

definition fetchIssuerMetadata :: "'w webFetch \<Rightarrow> string \<Rightarrow> ('w, json) io" where
  "fetchIssuerMetadata fetch baseUrl = issuerFetch fetch baseUrl ''/issuer'' GET"

definition normalizeHex :: "string \<Rightarrow> string" where
  "normalizeHex v = ''0x'' @ padStart0 64 (if has0x v then drop 2 v else v)"

record onChainRoots =
  or_root :: string
  or_revocationRoot :: string

definition parseRootsTuple :: "native \<Rightarrow> onChainRoots res" where
  "parseRootsTuple raw = (case raw of
       NArr (a # b # vs) \<Rightarrow> Inr \<lparr>or_root = normalizeHex (js_String a), or_revocationRoot = normalizeHex (js_String b)\<rparr>
     | _ \<Rightarrow> Inl (Refused ''Unexpected roots response shape''))"

section \<open>What a loaded configuration is\<close>

definition in_env :: "env \<Rightarrow> string \<Rightarrow> bool" where
  "in_env env name \<longleftrightarrow> truthy (env name) \<and> \<not> contains (the (env name)) ''PENDING''"

definition env_id :: "env \<Rightarrow> string \<Rightarrow> string" where
  "env_id env key = (if truthy (env key) then trim (the (env key)) else [])"

definition resolvable :: "(string \<Rightarrow> bool) \<Rightarrow> env \<Rightarrow> string \<times> string \<Rightarrow> bool" where
  "resolvable valid env kd \<longleftrightarrow> valid (snd kd) \<or> env_id env (fst kd) \<noteq> [] \<and> valid (env_id env (fst kd))"

definition contract_id :: "(string \<Rightarrow> bool) \<Rightarrow> env \<Rightarrow> string \<Rightarrow> string \<Rightarrow> string" where
  "contract_id valid env key canonical = (if valid canonical then canonical else env_id env key)"

definition optional_id :: "(string \<Rightarrow> bool) \<Rightarrow> env \<Rightarrow> string \<Rightarrow> string option \<Rightarrow> string option" where
  "optional_id valid env key canonical = (if truthy canonical \<and> valid (the canonical) then canonical
     else valid_or_none valid (optionalViteEnv env key))"

lemma requireViteEnv_Inr: "requireViteEnv env n = Inr s \<longleftrightarrow> in_env env n \<and> s = strip_cr (trim (the (env n)))"
  by (auto simp: requireViteEnv_def in_env_def)

lemma resolveContractId_Inr:
  "resolveContractId valid env k d = Inr s \<longleftrightarrow> resolvable valid env (k, d) \<and> s = contract_id valid env k d"
  by (auto simp: resolveContractId_def resolvable_def contract_id_def env_id_def Let_def split: if_splits)

lemma optionalViteEnv_ne: "optionalViteEnv env k \<noteq> Some []"
  by (simp add: optionalViteEnv_def Let_def)

lemma resolveOptional_eq [simp]: "resolveOptionalContractId valid env k d = Inr (optional_id valid env k d)"
  using optionalViteEnv_ne[of env k]
  by (auto simp: resolveOptionalContractId_def optional_id_def resolveContractId_def valid_or_none_def truthy_def
      split: option.split)

lemma rbind_ex: "(\<exists>c. rbind m f = Inr c) \<longleftrightarrow> (\<exists>a. m = Inr a \<and> (\<exists>c. f a = Inr c))"
  by (cases m) auto

definition required_env :: "string list" where
  "required_env = [''VITE_STELLAR_RPC_URL'', ''VITE_STELLAR_HORIZON_URL'', ''VITE_NETWORK_PASSPHRASE'',
     ''VITE_ISSUER_SERVICE_URL'', ''VITE_MARKETPLACE_SETTLEMENT_ADDRESS'']"

definition required_ids :: "deploymentsFile \<Rightarrow> (string \<times> string) list" where
  "required_ids dep = [(''VITE_ISSUER_REGISTRY_ID'', issuer_registry dep), (''VITE_CREDENTIAL_REGISTRY_ID'', credential_registry dep),
     (''VITE_POLICY_VERIFIER_ID'', policy_verifier dep), (''VITE_RWA_TOKEN_ID'', rwa_token dep),
     (''VITE_RWA_ADAPTER_ID'', rwa_adapter dep),
     (''VITE_NATIVE_SAC_ID'', given (native_sac dep) ''CDLZFC3SYJYDZT7K67VZ75HPJVIEUVNIXF47ZG2FB2RMQQVU2HHGCYSC'')]"

lemma passphrase_Inr:
  "resolveNetworkPassphrase env = Inr s \<Longrightarrow> in_env env ''VITE_NETWORK_PASSPHRASE'' \<and> s \<noteq> ''Test'' \<and> s \<noteq> ''Test SDF Network''"
  by (auto simp: resolveNetworkPassphrase_def rmap_Inr_iff requireViteEnv_Inr CANONICAL_TESTNET_PASSPHRASE_def split: if_splits)

lemma passphrase_ex: "(\<exists>s. resolveNetworkPassphrase env = Inr s) \<longleftrightarrow> in_env env ''VITE_NETWORK_PASSPHRASE''"
  by (auto simp: resolveNetworkPassphrase_def rmap_Inr_iff requireViteEnv_Inr)

lemma load_ex:
  "(\<exists>c. loadDeploymentConfig valid dep env = Inr c) \<longleftrightarrow>
     list_all (in_env env) required_env \<and> list_all (resolvable valid env) (required_ids dep)"
  unfolding loadDeploymentConfig_def Let_def rbind_ex requireViteEnv_Inr resolveContractId_Inr resolveOptional_eq sum.inject
    required_env_def required_ids_def
  by (simp add: passphrase_ex) blast

lemma env_id_valid: "resolvable valid env (k, d) \<Longrightarrow> valid (contract_id valid env k d)"
  by (auto simp: resolvable_def contract_id_def)

lemma optional_id_valid: "optional_id valid env k d = Some s \<Longrightarrow> valid s"
  by (auto simp: optional_id_def valid_or_none_def truthy_def split: if_splits)

lemma load_Inr:
  assumes "loadDeploymentConfig valid dep env = Inr c"
  shows "\<exists>rpc horizon passphrase issuer marketplace. resolveNetworkPassphrase env = Inr passphrase \<and>
    c = config_record valid dep env rpc horizon passphrase issuer
      (contract_id valid env ''VITE_ISSUER_REGISTRY_ID'' (issuer_registry dep))
      (contract_id valid env ''VITE_CREDENTIAL_REGISTRY_ID'' (credential_registry dep))
      (contract_id valid env ''VITE_POLICY_VERIFIER_ID'' (policy_verifier dep))
      (contract_id valid env ''VITE_RWA_TOKEN_ID'' (rwa_token dep)) marketplace
      (contract_id valid env ''VITE_RWA_ADAPTER_ID'' (rwa_adapter dep))
      (optional_id valid env ''VITE_COMPLIANCE_SAC_ADMIN_ID'' (compliance_sac_admin dep))
      (optional_id valid env ''VITE_COMPLIANCE_POLICY_ID'' (compliance_policy dep))
      (optional_id valid env ''VITE_SESSION_STORE_ID'' (session_store dep))
      (optional_id valid env ''VITE_WEBAUTHN_VERIFIER_ID'' (webauthn_verifier dep))
      (contract_id valid env ''VITE_NATIVE_SAC_ID''
        (given (native_sac dep) ''CDLZFC3SYJYDZT7K67VZ75HPJVIEUVNIXF47ZG2FB2RMQQVU2HHGCYSC''))
      (optional_id valid env ''VITE_SESSION_KEY_POLICY_ID'' (session_key_policy dep))
      (optional_id valid env ''VITE_TIMELOCK_CONTRACT_ID'' (governance_timelock dep))
      (optional_id valid env ''VITE_CONFIDENTIAL_TOKEN_CONTRACT_ID'' (map_option d_token (confidential_token dep)))
      (optional_id valid env ''VITE_CONFIDENTIAL_VERIFIER_CONTRACT_ID'' (map_option d_verifier (confidential_token dep)))
      (optional_id valid env ''VITE_CONFIDENTIAL_AUDITOR_CONTRACT_ID'' (map_option d_auditor (confidential_token dep)))
      (optional_id valid env ''VITE_CONFIDENTIAL_POLICY_CONTRACT_ID'' (map_option d_policy (confidential_token dep)))
      (optional_id valid env ''VITE_CONFIDENTIAL_UNDERLYING_ASSET_CONTRACT_ID'' (map_option d_underlying (confidential_token dep)))"
  using assms
  unfolding loadDeploymentConfig_def Let_def resolveOptional_eq rbind_simps rbind_Inr_iff requireViteEnv_Inr
    resolveContractId_Inr sum.inject
  by (elim exE conjE; hypsubst; blast)

lemma config_record_fields [simp]:
  "issuerRegistryId (config_record valid dep env a1 a2 a3 a4 a5 a6 a7 a8 a9 b1 b2 b3 b4 b5 b6 b7 b8 b9 d1 d2 d3 d4) = a5"
  "credentialRegistryId (config_record valid dep env a1 a2 a3 a4 a5 a6 a7 a8 a9 b1 b2 b3 b4 b5 b6 b7 b8 b9 d1 d2 d3 d4) = a6"
  "policyVerifierId (config_record valid dep env a1 a2 a3 a4 a5 a6 a7 a8 a9 b1 b2 b3 b4 b5 b6 b7 b8 b9 d1 d2 d3 d4) = a7"
  "rwaTokenId (config_record valid dep env a1 a2 a3 a4 a5 a6 a7 a8 a9 b1 b2 b3 b4 b5 b6 b7 b8 b9 d1 d2 d3 d4) = a8"
  "rwaAdapterId (config_record valid dep env a1 a2 a3 a4 a5 a6 a7 a8 a9 b1 b2 b3 b4 b5 b6 b7 b8 b9 d1 d2 d3 d4) = b1"
  "compliancePolicyId (config_record valid dep env a1 a2 a3 a4 a5 a6 a7 a8 a9 b1 b2 b3 b4 b5 b6 b7 b8 b9 d1 d2 d3 d4) = b3"
  "sessionStoreId (config_record valid dep env a1 a2 a3 a4 a5 a6 a7 a8 a9 b1 b2 b3 b4 b5 b6 b7 b8 b9 d1 d2 d3 d4) = b4"
  "webauthnVerifierId (config_record valid dep env a1 a2 a3 a4 a5 a6 a7 a8 a9 b1 b2 b3 b4 b5 b6 b7 b8 b9 d1 d2 d3 d4) = b5"
  "networkPassphrase (config_record valid dep env a1 a2 a3 a4 a5 a6 a7 a8 a9 b1 b2 b3 b4 b5 b6 b7 b8 b9 d1 d2 d3 d4) = a3"
  by (simp_all add: config_record_def Let_def)

section \<open>Which requests are repeated\<close>

definition settled :: "'a tried \<Rightarrow> 'a res" where
  "settled t = (case t of Answered res \<Rightarrow> res | Failed e \<Rightarrow> Inl e | Again \<Rightarrow> Inl (Refused ''again''))"

lemma last_not_again: "attemptOutcome baseUrl path True r \<noteq> Again"
  by (auto simp: attemptOutcome_def tryOnce_def onFailure_def split: sum.splits tried.splits if_splits)

lemma not_again_same:
  "attemptOutcome baseUrl path False r \<noteq> Again \<Longrightarrow> attemptOutcome baseUrl path False r = attemptOutcome baseUrl path True r"
  by (auto simp: attemptOutcome_def tryOnce_def onFailure_def split: sum.splits tried.splits if_splits)

text \<open>A server that gives one answer after the other.\<close>

fun script :: "json httpResponse res list webFetch" where
  "script rq [] = (Inl (Foreign ''closed''), [])"
| "script rq (r # rs) = (r, rs)"

lemma tries_script:
  assumes "list_all (\<lambda>r. attemptOutcome baseUrl path False r = Again) pre" and "length pre \<le> left"
    and "length pre = left \<or> attemptOutcome baseUrl path False r \<noteq> Again"
  shows "issuerTries script baseUrl path rq left (pre @ r # post) = Some (settled (attemptOutcome baseUrl path True r), post)"
  using assms
proof (induction pre arbitrary: left)
  case Nil
  then have "attemptOutcome baseUrl path (left = 0) r = attemptOutcome baseUrl path True r"
    using not_again_same[of baseUrl path r] by (cases left) auto
  with last_not_again[of baseUrl path r] show ?case by (simp add: settled_def split: tried.splits)
next
  case (Cons p pre)
  then obtain n where "left = Suc n" by (cases left) auto
  with Cons show ?case by simp
qed

section \<open>Properties\<close>

text \<open>
  Loading fails exactly when a variable that has no default is missing or pending, or when
  neither the deployments nor the environment has a valid id for one of the six contracts the
  application cannot do without.
\<close>

theorem load_succeeds_iff:
  "(\<exists>c. loadDeploymentConfig valid dep env = Inr c) \<longleftrightarrow>
     list_all (in_env env) required_env \<and> list_all (resolvable valid env) (required_ids dep)"
  by (rule load_ex)

text \<open>
  The contracts of a loaded configuration are valid, and a checked-in deployment always wins
  over the environment: each required id is the deployment's own when that is valid, the optional
  ones are valid or absent, and the passphrase is never one of the truncated forms.
\<close>

theorem loaded_ids:
  assumes "loadDeploymentConfig valid dep env = Inr c"
  shows "list_all valid [issuerRegistryId c, credentialRegistryId c, policyVerifierId c, rwaTokenId c, rwaAdapterId c]
    \<and> (valid (policy_verifier dep) \<longrightarrow> policyVerifierId c = policy_verifier dep)
    \<and> (valid (rwa_token dep) \<longrightarrow> rwaTokenId c = rwa_token dep)
    \<and> list_all (\<lambda>o1. o1 = None \<or> valid (the o1)) [compliancePolicyId c, sessionStoreId c, webauthnVerifierId c]
    \<and> networkPassphrase c \<notin> {''Test'', ''Test SDF Network''}"
proof -
  from assms load_ex[of valid dep env] have r: "list_all (resolvable valid env) (required_ids dep)" by blast
  from load_Inr[OF assms] obtain rpc horizon passphrase issuer marketplace where
    p: "resolveNetworkPassphrase env = Inr passphrase" and c: "c = config_record valid dep env rpc horizon passphrase issuer
      (contract_id valid env ''VITE_ISSUER_REGISTRY_ID'' (issuer_registry dep))
      (contract_id valid env ''VITE_CREDENTIAL_REGISTRY_ID'' (credential_registry dep))
      (contract_id valid env ''VITE_POLICY_VERIFIER_ID'' (policy_verifier dep))
      (contract_id valid env ''VITE_RWA_TOKEN_ID'' (rwa_token dep)) marketplace
      (contract_id valid env ''VITE_RWA_ADAPTER_ID'' (rwa_adapter dep))
      (optional_id valid env ''VITE_COMPLIANCE_SAC_ADMIN_ID'' (compliance_sac_admin dep))
      (optional_id valid env ''VITE_COMPLIANCE_POLICY_ID'' (compliance_policy dep))
      (optional_id valid env ''VITE_SESSION_STORE_ID'' (session_store dep))
      (optional_id valid env ''VITE_WEBAUTHN_VERIFIER_ID'' (webauthn_verifier dep))
      (contract_id valid env ''VITE_NATIVE_SAC_ID''
        (given (native_sac dep) ''CDLZFC3SYJYDZT7K67VZ75HPJVIEUVNIXF47ZG2FB2RMQQVU2HHGCYSC''))
      (optional_id valid env ''VITE_SESSION_KEY_POLICY_ID'' (session_key_policy dep))
      (optional_id valid env ''VITE_TIMELOCK_CONTRACT_ID'' (governance_timelock dep))
      (optional_id valid env ''VITE_CONFIDENTIAL_TOKEN_CONTRACT_ID'' (map_option d_token (confidential_token dep)))
      (optional_id valid env ''VITE_CONFIDENTIAL_VERIFIER_CONTRACT_ID'' (map_option d_verifier (confidential_token dep)))
      (optional_id valid env ''VITE_CONFIDENTIAL_AUDITOR_CONTRACT_ID'' (map_option d_auditor (confidential_token dep)))
      (optional_id valid env ''VITE_CONFIDENTIAL_POLICY_CONTRACT_ID'' (map_option d_policy (confidential_token dep)))
      (optional_id valid env ''VITE_CONFIDENTIAL_UNDERLYING_ASSET_CONTRACT_ID'' (map_option d_underlying (confidential_token dep)))"
    by blast
  have opt: "optional_id valid env k d = None \<or> valid (the (optional_id valid env k d))" for k d
    by (cases "optional_id valid env k d") (auto dest: optional_id_valid)
  from r have ids: "valid (contract_id valid env ''VITE_ISSUER_REGISTRY_ID'' (issuer_registry dep))"
    "valid (contract_id valid env ''VITE_CREDENTIAL_REGISTRY_ID'' (credential_registry dep))"
    "valid (contract_id valid env ''VITE_POLICY_VERIFIER_ID'' (policy_verifier dep))"
    "valid (contract_id valid env ''VITE_RWA_TOKEN_ID'' (rwa_token dep))"
    "valid (contract_id valid env ''VITE_RWA_ADAPTER_ID'' (rwa_adapter dep))"
    by (simp_all only: required_ids_def list.pred_inject env_id_valid)
  show ?thesis unfolding c config_record_fields list.pred_inject
    using ids opt passphrase_Inr[OF p] by (auto simp: contract_id_def)
qed

definition demo_deployments :: deploymentsFile where
  "demo_deployments = \<lparr>issuer_registry = ''CIR'', credential_registry = ''CCR'', policy_verifier = ''CPV'', rwa_token = ''CRT'',
     rwa_adapter = ''PENDING'', compliance_sac_admin = None, auditor_registry = None, compliant_dex = None,
     compliant_payroll = None, compliance_policy = Some ''CPOL'', session_store = None, smart_account_wasm_hash = None,
     webauthn_verifier = None, session_key_policy = None, governance_timelock = None, eurc_sac = None, native_sac = None,
     usdc_sac = None, confidential_token = None, confidential_tokens = None\<rparr>"

definition demo_env :: env where
  "demo_env = map_of ((''VITE_RWA_ADAPTER_ID'', '' CAD '') # (''VITE_SESSION_STORE_ID'', ''gone'')
     # (''VITE_NETWORK_PASSPHRASE'', ''Test'') # map (\<lambda>n. (n, ''https://x'')) required_env)"

definition demo_valid :: "string \<Rightarrow> bool" where
  "demo_valid s \<longleftrightarrow> startsWith ''C'' s"

theorem loaded_ids_witness:
  "\<exists>c. loadDeploymentConfig demo_valid demo_deployments demo_env = Inr c \<and> policyVerifierId c = ''CPV''
     \<and> demo_valid (rwaAdapterId c) \<and> networkPassphrase c \<noteq> ''Test''"
proof -
  have t: "trim '' CAD '' = ''CAD''" by code_simp
  have "list_all (in_env demo_env) required_env" "list_all (resolvable demo_valid demo_env) (required_ids demo_deployments)"
    by (simp_all add: required_env_def required_ids_def in_env_def demo_env_def truthy_def resolvable_def demo_valid_def
        demo_deployments_def startsWith_def env_id_def t)
  with load_ex[of demo_valid demo_deployments demo_env] obtain c where c: "loadDeploymentConfig demo_valid demo_deployments demo_env = Inr c"
    by blast
  from loaded_ids[OF c] have "policyVerifierId c = ''CPV''" "demo_valid (rwaAdapterId c)" "networkPassphrase c \<noteq> ''Test''"
    by (simp_all add: demo_deployments_def demo_valid_def startsWith_def)
  with c show ?thesis by blast
qed

text \<open>
  The issuer client sends at most three requests: it repeats after an attempt that may be
  repeated, at most twice, and the first attempt that may not be repeated, or the third, decides.
\<close>

theorem issuer_requests:
  assumes "list_all (\<lambda>r. attemptOutcome baseUrl path False r = Again) pre" and "length pre \<le> 2"
    and "length pre = 2 \<or> attemptOutcome baseUrl path False r \<noteq> Again"
  shows "issuerFetch script baseUrl path init (pre @ r # post) = Some (settled (attemptOutcome baseUrl path True r), post)"
  using tries_script[OF assms] by (simp add: issuerFetch_def split: prod.split)

definition bad_gateway :: "json httpResponse res" where
  "bad_gateway = Inr \<lparr>http_ok = False, http_status = 502, http_text = Inr ''bad gateway'', http_json = Inr JNull\<rparr>"

definition health_ok :: "json httpResponse res" where
  "health_ok = Inr \<lparr>http_ok = True, http_status = 200, http_text = Inr ''{}'', http_json = Inr (JObj [])\<rparr>"

theorem issuer_requests_witness:
  "issuerFetch script ''https://i'' ''/health'' GET ([bad_gateway] @ health_ok # [bad_gateway])
   = Some (Inr (JObj []), [bad_gateway])"
  by (subst issuer_requests) (simp_all add: attemptOutcome_def tryOnce_def bad_gateway_def health_ok_def settled_def)

text \<open>
  An attempt that is not the last is repeated when the request failed with a
  message that mentions \<^verbatim>\<open>fetch\<close>, when the status is 502 to 504, and also when the service
  answered with any other error status and the refusal, with the service's own text in it, mentions
  \<^verbatim>\<open>fetch\<close>: then a \<^verbatim>\<open>POST\<close> that was answered is sent again.
\<close>

theorem issuer_repeats_iff:
  "attemptOutcome baseUrl path False (Inr \<lparr>http_ok = ok1, http_status = st, http_text = Inr text, http_json = body\<rparr>) = Again
   \<longleftrightarrow> \<not> ok1 \<and> ((502 \<le> st \<and> st \<le> 504)
      \<or> contains (map lower (path @ '' failed ('' @ toString10 st @ ''): '' @ text)) ''fetch'')"
  by (auto simp: attemptOutcome_def tryOnce_def onFailure_def)

end
