(* ===== verification/SmartAccount.thy ===== *)
theory SmartAccount
  imports Config
begin

text \<open>
  \<^verbatim>\<open>lib/smartAccount.ts\<close>, its checks of an account against the chain: the configuration's
  readiness, the compliance policy of context rule 0, the passkey metadata, and the gate before a
  settlement. The reads are those of \<^verbatim>\<open>onChainContextRules\<close>; the waits between attempts
  change nothing. Shown: what the gate decides on an account that answers steadily, that
  hydration is idempotent, and that the wait after a deployment ends on the first unreadable rule.
\<close>

section \<open>Key data, state and configuration\<close>

record saLib =
  sl_b64 :: b64Lib
  sl_validContract :: "string \<Rightarrow> bool"
  sl_address :: "string \<Rightarrow> string res"
  sl_base64 :: "byte list \<Rightarrow> string"

definition buildPasskeyKeyData :: "b64Lib \<Rightarrow> byte list option \<Rightarrow> credentialRef \<Rightarrow> byte list res" where
  "buildPasskeyKeyData B publicKey credentialId = (case publicKey of
       None \<Rightarrow> Inl (Refused ''Passkey public key is missing.'')
     | Some pk \<Rightarrow> let credBuffer = credential_bytes B credentialId in
         if credBuffer = [] then Inl (Refused ''Passkey credential ID is missing.'') else Inr (pk @ credBuffer))"

definition LEGACY_COMPLIANCE_POLICY_IDS :: "string list" where
  "LEGACY_COMPLIANCE_POLICY_IDS = [''CDONRLSIDIT7D5DN2PRQY6SR64FRBZ7MBJP5HCODFAP5M4JZ2USM6HS4'',
     ''CBOBVPPXRKJ47LS7GGJASYL3H6CSPIOJGU3KN4HDPMJ2RSQR32UBINGZ'']"

record smartAccountState =
  sa_address :: string
  sa_credentialId :: string
  sa_passkeyPublicKey :: "string option"
  sa_passkeyKeyDataHex :: "string option"
  sa_createdAt :: int
  sa_deploymentHash :: "string option"
  sa_policyId :: "string option"
  sa_policyInstalled :: "bool option"
  sa_policyTxHash :: "string option"

definition kitCacheKey :: "smartAccountState \<Rightarrow> string" where
  "kitCacheKey st = sa_address st @ '':'' @ sa_credentialId st"

record smartAccountStatusT =
  ss_ready :: bool
  ss_missing :: "string list"

definition smartAccountStatus :: "deploymentConfig \<Rightarrow> smartAccountStatusT" where
  "smartAccountStatus config =
     (let missing = (if truthy (lumengateSmartAccountWasmHash config) then [] else [''VITE_LUMENGATE_SMART_ACCOUNT_WASM_HASH''])
          @ (if truthy (webauthnVerifierId config) then [] else [''VITE_WEBAUTHN_VERIFIER_ID''])
          @ (if truthy (compliancePolicyId config) then [] else [''VITE_COMPLIANCE_POLICY_ID''])
          @ (if truthy (sessionStoreId config) then [] else [''VITE_SESSION_STORE_ID''])
          @ (if rwaAdapterId config \<noteq> [] then [] else [''VITE_RWA_ADAPTER_ID''])
      in \<lparr>ss_ready = (missing = []), ss_missing = missing\<rparr>)"

text \<open>The parameter of the policy's installation; \<^verbatim>\<open>toXDR\<close> is the SDK's serialisation.\<close>

definition complianceInstallParamScVal ::
  "(scval \<Rightarrow> byte list) \<Rightarrow> (string \<Rightarrow> scval res) \<Rightarrow> deploymentConfig \<Rightarrow> scval res" where
  "complianceInstallParamScVal toXDR address config =
     (if rwaAdapterId config = [] then Inl (Refused ''RWA adapter is not configured.'')
      else if \<not> truthy (sessionStoreId config) then Inl (Refused ''Session store is not configured.'')
      else rbind (address (rwaAdapterId config)) (\<lambda>adapter.
        rbind (case policyId config of Some n \<Rightarrow> Inr (ScU32 n) | None \<Rightarrow> Inl (TypeError ''u32'')) (\<lambda>policy.
        rbind (address (the (sessionStoreId config))) (\<lambda>store1.
          Inr (ScMap (sort_key (\<lambda>e. bytesToHex (toXDR (fst e)))
            [(ScSymbol ''adapter'', adapter), (ScSymbol ''policy_id'', policy), (ScSymbol ''session_store'', store1)]))))))"

section \<open>The policy of rule 0\<close>

definition readContextRule0 :: "'w ruleNet \<Rightarrow> string \<Rightarrow> ('w, ctxRule option) io" where
  "readContextRule0 N account =
     io_bind (listOnChainContextRules N account \<lparr>po_maxRuleId = Some 1, po_maxConsecutiveMisses = Some 2\<rparr>) (\<lambda>rules.
     io_return (case find (\<lambda>r. r_id r = Some 0) rules of Some r \<Rightarrow> Some r
       | None \<Rightarrow> (case rules of r # rs \<Rightarrow> Some r | [] \<Rightarrow> None)))"

definition normalizeContractId :: "saLib \<Rightarrow> string option \<Rightarrow> string option res" where
  "normalizeContractId L contractId = (case contractId of None \<Rightarrow> Inr None
     | Some s \<Rightarrow> let trimmed = trim s in
         if trimmed = [] \<or> \<not> sl_validContract L trimmed then Inr None else rmap Some (sl_address L trimmed))"

datatype policyStatus = Legacy | Current | Unknown

definition getLegacySmartAccountPolicyStatus ::
  "saLib \<Rightarrow> 'w ruleNet \<Rightarrow> deploymentConfig \<Rightarrow> smartAccountState \<Rightarrow> ('w, policyStatus) io" where
  "getLegacySmartAccountPolicyStatus L N config st =
     (if \<not> truthy (compliancePolicyId config) then io_return Unknown
      else io_bind (io_res (normalizeContractId L (compliancePolicyId config))) (\<lambda>expectedPolicyId.
      if \<not> truthy expectedPolicyId then io_return Unknown
      else io_bind (readContextRule0 N (sa_address st)) (\<lambda>rule0.
        case rule0 of None \<Rightarrow> io_return Unknown
        | Some r \<Rightarrow> (case r_policies r of [] \<Rightarrow> io_return Unknown
            | p # ps \<Rightarrow> io_bind (io_res (normalizeContractId L (Some p))) (\<lambda>onChainPolicyId.
                if \<not> truthy onChainPolicyId then io_return Unknown
                else if onChainPolicyId = expectedPolicyId then io_return Current
                else io_return Legacy)))))"

definition isLegacySmartAccountPolicyOnChain ::
  "saLib \<Rightarrow> 'w ruleNet \<Rightarrow> deploymentConfig \<Rightarrow> smartAccountState \<Rightarrow> ('w, bool) io" where
  "isLegacySmartAccountPolicyOnChain L N config st =
     io_bind (getLegacySmartAccountPolicyStatus L N config st) (\<lambda>s. io_return (s = Legacy))"

definition LEGACY_POLICY_PROBE_ATTEMPTS :: nat where "LEGACY_POLICY_PROBE_ATTEMPTS = 8"

fun legacy_probes ::
  "saLib \<Rightarrow> 'w ruleNet \<Rightarrow> deploymentConfig \<Rightarrow> smartAccountState \<Rightarrow> nat \<Rightarrow> ('w, bool) io" where
  "legacy_probes L N config st 0 = io_return False"
| "legacy_probes L N config st (Suc left) =
     io_bind (getLegacySmartAccountPolicyStatus L N config st) (\<lambda>status.
       case status of Legacy \<Rightarrow> io_return True | Current \<Rightarrow> io_return False
       | Unknown \<Rightarrow> legacy_probes L N config st left)"

definition resolveLegacySmartAccountPolicyForUi ::
  "saLib \<Rightarrow> 'w ruleNet \<Rightarrow> deploymentConfig \<Rightarrow> smartAccountState \<Rightarrow> ('w, bool) io" where
  "resolveLegacySmartAccountPolicyForUi L N config st = legacy_probes L N config st LEGACY_POLICY_PROBE_ATTEMPTS"

text \<open>The key data of the signer that was found; a delegated signer has none.\<close>

fun signer_key :: "ctxSigner \<Rightarrow> byte list option" where
  "signer_key (External v key) = Some key"
| "signer_key (Delegated a) = None"

definition signer_stale :: "saLib \<Rightarrow> deploymentConfig \<Rightarrow> smartAccountState \<Rightarrow> ctxRule \<Rightarrow> bool" where
  "signer_stale L config st rule0 =
     (case findPasskeySignerInRules (sl_b64 L) [rule0] (the (webauthnVerifierId config)) (sa_credentialId st) of
        None \<Rightarrow> True
      | Some signer \<Rightarrow> (case signer_key signer of None \<Rightarrow> True
          | Some keyData \<Rightarrow> \<not> ends_with_credential keyData (b64_toBuffer (sl_b64 L) (sa_credentialId st))))"

definition isSmartAccountPolicyStaleOnChain ::
  "saLib \<Rightarrow> 'w ruleNet \<Rightarrow> deploymentConfig \<Rightarrow> smartAccountState \<Rightarrow> ('w, bool) io" where
  "isSmartAccountPolicyStaleOnChain L N config st =
     (if \<not> truthy (compliancePolicyId config) \<or> \<not> truthy (webauthnVerifierId config) then io_return False
      else io_bind (getLegacySmartAccountPolicyStatus L N config st) (\<lambda>legacy.
      case legacy of Legacy \<Rightarrow> io_return True | Unknown \<Rightarrow> io_return False
      | Current \<Rightarrow> io_bind (readContextRule0 N (sa_address st)) (\<lambda>rule0.
          io_return (case rule0 of None \<Rightarrow> False
            | Some r \<Rightarrow> r_policies r \<noteq> [] \<and> signer_stale L config st r))))"

definition supersededPolicy :: js_error where
  "supersededPolicy = Refused (''This smart account uses a superseded on-chain compliance policy. '' @
     ''Create a new passkey smart account on Verify, fund the new deposit address, then retry.'')"

definition signerMismatch :: js_error where
  "signerMismatch = Refused (''This smart account passkey signer does not match on-chain configuration. '' @
     ''Create a new passkey smart account on Verify, then retry.'')"

definition notVerified :: js_error where
  "notVerified = Refused ''Smart account policy could not be verified on-chain yet. Wait a moment and retry.''"

fun settlement_attempts ::
  "saLib \<Rightarrow> 'w ruleNet \<Rightarrow> deploymentConfig \<Rightarrow> smartAccountState \<Rightarrow> nat \<Rightarrow> ('w, unit) io" where
  "settlement_attempts L N config st 0 = io_throw notVerified"
| "settlement_attempts L N config st (Suc left) =
     io_bind (getLegacySmartAccountPolicyStatus L N config st) (\<lambda>legacy.
       case legacy of Legacy \<Rightarrow> io_throw supersededPolicy
       | Current \<Rightarrow> io_bind (isSmartAccountPolicyStaleOnChain L N config st) (\<lambda>stale.
           if stale then io_throw signerMismatch else io_return ())
       | Unknown \<Rightarrow> settlement_attempts L N config st left)"

definition assertSmartAccountReadyForSettlement ::
  "saLib \<Rightarrow> 'w ruleNet \<Rightarrow> deploymentConfig \<Rightarrow> smartAccountState \<Rightarrow> ('w, unit) io" where
  "assertSmartAccountReadyForSettlement L N config st = settlement_attempts L N config st 12"

definition isStaleSmartAccountPolicy :: "smartAccountState option \<Rightarrow> deploymentConfig \<Rightarrow> bool" where
  "isStaleSmartAccountPolicy st config = (case st of None \<Rightarrow> False
     | Some s \<Rightarrow> if \<not> truthy (compliancePolicyId config) then False
         else (case map_option trim (sa_policyId s) of None \<Rightarrow> True
           | Some installed \<Rightarrow> if installed = [] then True
               else if Some installed = compliancePolicyId config then False
               else installed \<in> set LEGACY_COMPLIANCE_POLICY_IDS \<or> Some installed \<noteq> compliancePolicyId config))"

section \<open>Passkey metadata\<close>

definition hydrated :: "saLib \<Rightarrow> deploymentConfig \<Rightarrow> smartAccountState \<Rightarrow> ctxRule \<Rightarrow> smartAccountState" where
  "hydrated L config st rule0 =
     (let onChainPolicy = (case r_policies rule0 of p # ps \<Rightarrow> Some p | [] \<Rightarrow> None);
          keyData = (case findPasskeySignerInRules (sl_b64 L) [rule0] (the (webauthnVerifierId config)) (sa_credentialId st) of
              None \<Rightarrow> None | Some signer \<Rightarrow> signer_key signer);
          next1 = st\<lparr>sa_policyId := (if onChainPolicy = None then sa_policyId st else onChainPolicy),
                     sa_policyInstalled := Some (truthy onChainPolicy)\<rparr> in
      case keyData of None \<Rightarrow> next1
      | Some k \<Rightarrow> next1\<lparr>sa_passkeyKeyDataHex := Some (bytesToHex k), sa_passkeyPublicKey := Some (sl_base64 L (take 65 k))\<rparr>)"

definition hydrateSmartAccountPasskeyMetadata ::
  "saLib \<Rightarrow> 'w ruleNet \<Rightarrow> deploymentConfig \<Rightarrow> smartAccountState \<Rightarrow> ('w, smartAccountState) io" where
  "hydrateSmartAccountPasskeyMetadata L N config st =
     (if \<not> truthy (webauthnVerifierId config) then io_return st
      else io_bind (readContextRule0 N (sa_address st)) (\<lambda>rule0.
        io_return (case rule0 of None \<Rightarrow> st | Some r \<Rightarrow> hydrated L config st r)))"

definition policyMismatch :: js_error where
  "policyMismatch = Refused ''Deployed smart account policy does not match deployment configuration.''"

fun ready_attempts ::
  "saLib \<Rightarrow> 'w ruleNet \<Rightarrow> deploymentConfig \<Rightarrow> smartAccountState \<Rightarrow> nat \<Rightarrow> ('w, smartAccountState) io" where
  "ready_attempts L N config st 0 = io_throw policyMismatch"
| "ready_attempts L N config st (Suc left) =
     io_bind (hydrateSmartAccountPasskeyMetadata L N config st) (\<lambda>hyd.
     io_bind (isSmartAccountPolicyStaleOnChain L N config hyd) (\<lambda>stale.
       if \<not> stale then io_return hyd else ready_attempts L N config st left))"

definition waitUntilSmartAccountPolicyReady ::
  "saLib \<Rightarrow> 'w ruleNet \<Rightarrow> deploymentConfig \<Rightarrow> smartAccountState \<Rightarrow> nat option \<Rightarrow> ('w, smartAccountState) io" where
  "waitUntilSmartAccountPolicyReady L N config st maxAttempts = ready_attempts L N config st (given maxAttempts 20)"

definition isContractAddress :: "saLib \<Rightarrow> string option \<Rightarrow> bool" where
  "isContractAddress L value = (if \<not> truthy value then False
     else case sl_address L (the value) of Inl e \<Rightarrow> False | Inr a \<Rightarrow> startsWith ''C'' (the value))"

section \<open>An account that answers steadily\<close>

definition rule0_is :: "'w ruleNet \<Rightarrow> string \<Rightarrow> ctxRule option \<Rightarrow> bool" where
  "rule0_is N account r0 \<longleftrightarrow> (\<forall>w. \<exists>w'. readContextRule0 N account w = Some (Inr r0, w'))"

lemma rule0_isE:
  assumes "rule0_is N account r0"
  obtains w' where "readContextRule0 N account w = Some (Inr r0, w')"
  using assms unfolding rule0_is_def by blast

text \<open>A valid contract address is its own canonical form.\<close>

definition address_law :: "saLib \<Rightarrow> bool" where
  "address_law L \<longleftrightarrow> (\<forall>s. sl_validContract L s \<longrightarrow> sl_address L s = Inr s)"

definition contract_of :: "saLib \<Rightarrow> string option \<Rightarrow> string option" where
  "contract_of L c = (case c of None \<Rightarrow> None
     | Some s \<Rightarrow> if trim s \<noteq> [] \<and> sl_validContract L (trim s) then Some (trim s) else None)"

lemma normalize_contract [simp]: "address_law L \<Longrightarrow> normalizeContractId L c = Inr (contract_of L c)"
  by (auto simp: normalizeContractId_def contract_of_def address_law_def Let_def split: option.split)

lemma contract_of_truthy [simp]: "truthy (contract_of L c) \<longleftrightarrow> contract_of L c \<noteq> None"
  by (auto simp: contract_of_def truthy_def split: option.split)

definition policy_status :: "saLib \<Rightarrow> deploymentConfig \<Rightarrow> ctxRule option \<Rightarrow> policyStatus" where
  "policy_status L config r0 =
     (let want = contract_of L (compliancePolicyId config);
          have = (case r0 of None \<Rightarrow> None | Some r \<Rightarrow> (case r_policies r of [] \<Rightarrow> None | p # ps \<Rightarrow> contract_of L (Some p)))
      in if want = None \<or> have = None then Unknown else if have = want then Current else Legacy)"

lemma status_steady:
  assumes "rule0_is N (sa_address st) r0" and "address_law L"
  obtains w' where "getLegacySmartAccountPolicyStatus L N config st w = Some (Inr (policy_status L config r0), w')"
proof -
  obtain w1 where r: "readContextRule0 N (sa_address st) w = Some (Inr r0, w1)"
    using rule0_isE[OF assms(1)] by blast
  have none: "\<not> truthy (compliancePolicyId config) \<Longrightarrow> contract_of L (compliancePolicyId config) = None"
    by (auto simp: truthy_def contract_of_def trim_def)
  have "\<exists>w'. getLegacySmartAccountPolicyStatus L N config st w = Some (Inr (policy_status L config r0), w')"
    using r none assms(2)
    by (auto simp: getLegacySmartAccountPolicyStatus_def policy_status_def io_simps Let_def split: option.splits list.splits)
  with that show ?thesis by blast
qed

lemma encoded_suffix:
  assumes "\<And>b. b64_toBuffer B (b64_encode B b) = b" and "getCredentialIdFromKeyData B key = Some cred"
  shows "ends_with_credential key (b64_toBuffer B cred)"
proof -
  have "b64_encode B (drop 65 key) = cred" and l: "65 < length key"
    using assms(2) by (auto simp: getCredentialIdFromKeyData_def SECP256R1_PUBLIC_KEY_SIZE_def split: if_splits)
  then have "b64_toBuffer B cred = drop 65 key" using assms(1) by auto
  with l show ?thesis by (simp add: ends_with_credential_def)
qed

lemma signer_stale_iff:
  assumes "\<And>b. b64_toBuffer (sl_b64 L) (b64_encode (sl_b64 L) b) = b"
  shows "\<not> signer_stale L config st r \<longleftrightarrow>
    (\<exists>key. External (the (webauthnVerifierId config)) key \<in> set (r_signers r)
       \<and> ends_with_credential key (b64_toBuffer (sl_b64 L) (sa_credentialId st)))"
proof -
  let ?P = "signer_matches (sl_b64 L) (the (webauthnVerifierId config)) (sa_credentialId st)"
  have m: "?P s \<longleftrightarrow> (\<exists>key. s = External (the (webauthnVerifierId config)) key
      \<and> ends_with_credential key (b64_toBuffer (sl_b64 L) (sa_credentialId st)))" for s
    using encoded_suffix[OF assms] by (cases s) auto
  show ?thesis
  proof (cases "find ?P (r_signers r)")
    case None
    then have "\<forall>s \<in> set (r_signers r). \<not> ?P s" by (auto simp: find_None_iff)
    with None m show ?thesis by (auto simp: signer_stale_def findPasskeySignerInRules_def)
  next
    case (Some s)
    then have "?P s" "s \<in> set (r_signers r)" by (auto simp: find_Some_iff)
    with Some m[of s] show ?thesis by (auto simp: signer_stale_def findPasskeySignerInRules_def)
  qed
qed

definition gate :: "saLib \<Rightarrow> deploymentConfig \<Rightarrow> smartAccountState \<Rightarrow> ctxRule option \<Rightarrow> unit res" where
  "gate L config st r0 = (case policy_status L config r0 of Legacy \<Rightarrow> Inl supersededPolicy
     | Unknown \<Rightarrow> Inl notVerified
     | Current \<Rightarrow> if signer_stale L config st (the r0) then Inl signerMismatch else Inr ())"

lemma current_rule: "policy_status L config r0 = Current \<Longrightarrow> \<exists>r. r0 = Some r \<and> r_policies r \<noteq> []"
  by (auto simp: policy_status_def Let_def split: option.splits list.splits if_splits)

lemma current_configured: "policy_status L config r0 = Current \<Longrightarrow> truthy (compliancePolicyId config)"
  by (auto simp: policy_status_def Let_def truthy_def contract_of_def trim_def split: option.splits if_splits)

lemma stale_steady:
  assumes "rule0_is N (sa_address st) r0" and "address_law L" and "truthy (webauthnVerifierId config)"
  obtains w' where "isSmartAccountPolicyStaleOnChain L N config st w
     = Some (Inr (policy_status L config r0 = Legacy \<or> policy_status L config r0 = Current \<and> signer_stale L config st (the r0)), w')"
proof -
  obtain w1 where s: "getLegacySmartAccountPolicyStatus L N config st w = Some (Inr (policy_status L config r0), w1)"
    using status_steady[OF assms(1,2)] by blast
  obtain w2 where r: "readContextRule0 N (sa_address st) w1 = Some (Inr r0, w2)"
    using rule0_isE[OF assms(1)] by blast
  have off: "\<not> truthy (compliancePolicyId config) \<Longrightarrow> policy_status L config r0 = Unknown"
    by (auto simp: policy_status_def contract_of_def truthy_def trim_def)
  have "\<exists>w'. isSmartAccountPolicyStaleOnChain L N config st w
     = Some (Inr (policy_status L config r0 = Legacy \<or> policy_status L config r0 = Current \<and> signer_stale L config st (the r0)), w')"
    using s r off assms(3) current_rule[of L config r0]
    by (cases "policy_status L config r0") (auto simp: isSmartAccountPolicyStaleOnChain_def io_simps)
  with that show ?thesis by blast
qed

lemma gate_steady:
  assumes "rule0_is N (sa_address st) r0" and "address_law L" and "truthy (webauthnVerifierId config)"
  shows "\<exists>w'. settlement_attempts L N config st n w = Some (if n = 0 then Inl notVerified else gate L config st r0, w')"
proof (induction n arbitrary: w)
  case (Suc n)
  obtain w1 where s: "getLegacySmartAccountPolicyStatus L N config st w = Some (Inr (policy_status L config r0), w1)"
    using status_steady[OF assms(1,2)] by blast
  obtain w2 where t: "isSmartAccountPolicyStaleOnChain L N config st w1
     = Some (Inr (policy_status L config r0 = Legacy \<or> policy_status L config r0 = Current \<and> signer_stale L config st (the r0)), w2)"
    using stale_steady[OF assms] by blast
  show ?case using s t Suc.IH[of w1]
    by (cases "policy_status L config r0") (auto simp: io_simps gate_def)
qed (simp add: io_simps)

section \<open>Properties\<close>

text \<open>
  C33: The settlement gate, on an account whose rule 0 answers steadily: a configured policy that is
  not the one installed is refused as superseded, an account whose rule cannot be read or names no
  contract is refused after the last attempt, and with the configured policy the gate opens exactly
  when a signer of the configured verifier carries key data that ends with the credential id.
\<close>

theorem settlement_gate:
  assumes "rule0_is N (sa_address st) r0" and "address_law L" and "truthy (webauthnVerifierId config)"
    and "\<And>b. b64_toBuffer (sl_b64 L) (b64_encode (sl_b64 L) b) = b"
  shows "\<exists>w'. assertSmartAccountReadyForSettlement L N config st w = Some (
     (case policy_status L config r0 of Legacy \<Rightarrow> Inl supersededPolicy | Unknown \<Rightarrow> Inl notVerified
      | Current \<Rightarrow> if \<exists>key. External (the (webauthnVerifierId config)) key \<in> set (r_signers (the r0))
            \<and> ends_with_credential key (b64_toBuffer (sl_b64 L) (sa_credentialId st))
          then Inr () else Inl signerMismatch), w')"
proof -
  obtain w' where "settlement_attempts L N config st 12 w = Some (gate L config st r0, w')"
    using gate_steady[OF assms(1-3), of 12 w] by auto
  then show ?thesis
    unfolding assertSmartAccountReadyForSettlement_def gate_def signer_stale_iff[OF assms(4), symmetric]
    by (auto split: policyStatus.splits)
qed

definition demo_sa_lib :: saLib where
  "demo_sa_lib = \<lparr>sl_b64 = demo_b64, sl_validContract = startsWith ''C'', sl_address = Inr, sl_base64 = as_chars\<rparr>"

text \<open>The configuration the account of \<^const>\<open>demo_rule\<close> was deployed with.\<close>

definition sa_config :: "string \<Rightarrow> deploymentConfig" where
  "sa_config policy = config_record demo_valid demo_deployments (\<lambda>_. None) ''rpc'' ''horizon'' ''Test SDF'' ''issuer''
     ''CIR'' ''CCR'' ''CPV'' ''CRT'' ''marketplace'' ''CAD'' None (Some policy) (Some ''CSS'') (Some ''CV'') ''CN'' None None
     None None None None None"

lemma sa_config_sel [simp]:
  "compliancePolicyId (sa_config p) = Some p" "webauthnVerifierId (sa_config p) = Some ''CV''"
  "sessionStoreId (sa_config p) = Some ''CSS''"
  by (simp_all add: sa_config_def)

definition sa_state :: smartAccountState where
  "sa_state = \<lparr>sa_address = ''CACC'', sa_credentialId = as_chars [1, 2], sa_passkeyPublicKey = None,
     sa_passkeyKeyDataHex = None, sa_createdAt = 0, sa_deploymentHash = None, sa_policyId = None,
     sa_policyInstalled = None, sa_policyTxHash = None\<rparr>"

lemma demo_address_law: "address_law demo_sa_lib"
  by (simp add: address_law_def demo_sa_lib_def)

lemma probe_range_01: "0 \<le> n \<Longrightarrow> probe_range n \<lparr>po_maxRuleId = Some 1, po_maxConsecutiveMisses = Some 2\<rparr> = 1"
  by (simp add: probe_range_def)

lemma demo_rule0: "rule0_is (rules_net [0]) a (Some (demo_rule 0))"
proof -
  let ?rd = "\<lambda>i. if i \<in> set [0 :: int] then Some (demo_rule i) else None"
  let ?o = "\<lparr>po_maxRuleId = Some 1, po_maxConsecutiveMisses = Some 2\<rparr>"
  have "filter (reached ?rd 2) [0..1] = [0]"
    by (simp add: upto.simps reached_def run_before_def)
  then have "map (\<lambda>k. the (?rd k)) (filter (reached ?rd 2) [0..probe_range 1 ?o]) = [demo_rule 0]"
    by (simp add: probe_range_01)
  moreover have "sort_rules [demo_rule 0] = [demo_rule 0]" by (simp add: sort_rules_def)
  moreover have "\<exists>w'. listOnChainContextRules (rules_net [0]) a ?o w
     = Some (Inr (sort_rules (map (\<lambda>k. the (?rd k)) (filter (reached ?rd 2) [0..probe_range 1 ?o]))), w')" for w
    by (rule list_reached[OF rules_net_reads]) (simp_all add: rules_net_count)
  ultimately have "\<exists>w'. listOnChainContextRules (rules_net [0]) a ?o w = Some (Inr [demo_rule 0], w')" for w by auto
  moreover have "r_id (demo_rule 0) = Some 0" by (simp add: demo_rule_def)
  ultimately show ?thesis
    unfolding rule0_is_def readContextRule0_def io_bind_def io_return_def by fastforce
qed

lemma demo_signer:
  "External ''CV'' (replicate 65 4 @ [1, 2]) \<in> set (r_signers (demo_rule 0))" "r_policies (demo_rule 0) = [''CP'']"
  by (simp_all add: demo_rule_def)

lemma trim_C: "trim ''CP'' = ''CP''" "trim ''CQ'' = ''CQ''"
  by code_simp+

theorem settlement_gate_witness:
  "(\<exists>w'. assertSmartAccountReadyForSettlement demo_sa_lib (rules_net [0]) (sa_config ''CP'') sa_state () = Some (Inr (), w'))
   \<and> (\<exists>w'. assertSmartAccountReadyForSettlement demo_sa_lib (rules_net [0]) (sa_config ''CQ'') sa_state ()
        = Some (Inl supersededPolicy, w'))"
proof -
  have law: "b64_toBuffer (sl_b64 demo_sa_lib) (b64_encode (sl_b64 demo_sa_lib) b) = b" for b
    by (simp add: demo_sa_lib_def demo_b64_def)
  have "policy_status demo_sa_lib (sa_config ''CP'') (Some (demo_rule 0)) = Current"
    "policy_status demo_sa_lib (sa_config ''CQ'') (Some (demo_rule 0)) = Legacy"
    by (simp_all add: policy_status_def contract_of_def demo_sa_lib_def demo_signer trim_C startsWith_def)
  moreover have "ends_with_credential (replicate 65 4 @ [1, 2]) (b64_toBuffer (sl_b64 demo_sa_lib) (sa_credentialId sa_state))"
    by (simp add: demo_sa_lib_def demo_b64_def sa_state_def ends_with_credential_def)
  moreover note settlement_gate[where st = sa_state and config = "sa_config ''CP''" and w = "()", OF demo_rule0 demo_address_law _ law]
    settlement_gate[where st = sa_state and config = "sa_config ''CQ''" and w = "()", OF demo_rule0 demo_address_law _ law]
  ultimately show ?thesis using demo_signer(1) by (auto simp: truthy_def split: if_splits)
qed

text \<open>
  Hydration settles: hydrating twice against the same rule changes nothing more; the hydrated
  state names the rule's first policy, and the key data it stores in hexadecimal is that of a signer
  of the rule, its public key the first 65 bytes.
\<close>

theorem hydration_idempotent:
  "hydrated L config (hydrated L config st r) r = hydrated L config st r
   \<and> (\<forall>p ps. r_policies r = p # ps \<longrightarrow> sa_policyId (hydrated L config st r) = Some p)
   \<and> (\<forall>v key. findPasskeySignerInRules (sl_b64 L) [r] (the (webauthnVerifierId config)) (sa_credentialId st) = Some (External v key)
       \<longrightarrow> map_option hexToBytes (sa_passkeyKeyDataHex (hydrated L config st r)) = Some (Inr key)
         \<and> sa_passkeyPublicKey (hydrated L config st r) = Some (sl_base64 L (take 65 key)))"
  by (auto simp: hydrated_def Let_def split: option.splits list.splits)

theorem hydration_idempotent_witness:
  "sa_policyId (hydrated demo_sa_lib (sa_config ''CP'') sa_state (demo_rule 0)) = Some ''CP''"
  using hydration_idempotent[of demo_sa_lib "sa_config ''CP''" sa_state "demo_rule 0"] demo_signer(2) by simp

text \<open>
  The wait after a deployment ends at its first attempt when the rule cannot be read: it
  returns the state it was given, unverified, although the policy's status is unknown; on a readable
  rule it returns exactly when the gate's conditions hold.
\<close>

theorem wait_ends_unread:
  assumes "rule0_is N (sa_address st) r0" and "address_law L" and "truthy (webauthnVerifierId config)"
  shows "\<exists>w'. waitUntilSmartAccountPolicyReady L N config st (Some (Suc n)) w = Some (
     if policy_status L config r0 = Unknown
       \<or> policy_status L config r0 = Current \<and> \<not> signer_stale L config (hydrated L config st (the r0)) (the r0)
     then Inr (case r0 of None \<Rightarrow> st | Some r \<Rightarrow> hydrated L config st r) else Inl policyMismatch, w')"
proof -
  let ?h = "case r0 of None \<Rightarrow> st | Some r \<Rightarrow> hydrated L config st r"
  have addr: "sa_address ?h = sa_address st"
    by (auto simp: hydrated_def Let_def split: option.split)
  have step: "\<exists>w2. ready_attempts L N config st (Suc m) w = (if policy_status L config r0 = Unknown
       \<or> policy_status L config r0 = Current \<and> \<not> signer_stale L config ?h (the r0)
     then Some (Inr ?h, w2) else ready_attempts L N config st m w2)" for m w
  proof -
    obtain w1 where r: "readContextRule0 N (sa_address st) w = Some (Inr r0, w1)" using rule0_isE[OF assms(1)] by blast
    obtain w2 where "isSmartAccountPolicyStaleOnChain L N config ?h w1 = Some (Inr (policy_status L config r0 = Legacy
        \<or> policy_status L config r0 = Current \<and> signer_stale L config ?h (the r0)), w2)"
      using stale_steady[of N ?h r0 L config w1] assms addr by auto
    with r assms(3) show ?thesis
      by (cases "policy_status L config r0") (auto simp: hydrateSmartAccountPasskeyMetadata_def io_simps)
  qed
  have same: "signer_stale L config ?h (the r0) = signer_stale L config (hydrated L config st (the r0)) (the r0)"
    if "policy_status L config r0 = Current"
    using current_rule[OF that] by auto
  have "\<exists>w'. ready_attempts L N config st (Suc m) w = Some (if policy_status L config r0 = Unknown
       \<or> policy_status L config r0 = Current \<and> \<not> signer_stale L config ?h (the r0) then Inr ?h else Inl policyMismatch, w')" for m w
  proof (induction m arbitrary: w)
    case 0
    from step[of 0 w] show ?case by (auto simp: io_simps simp del: ready_attempts.simps(2))
  next
    case (Suc m)
    obtain w2 where w2: "ready_attempts L N config st (Suc (Suc m)) w = (if policy_status L config r0 = Unknown
       \<or> policy_status L config r0 = Current \<and> \<not> signer_stale L config ?h (the r0)
       then Some (Inr ?h, w2) else ready_attempts L N config st (Suc m) w2)" using step[of "Suc m" w] by blast
    from Suc.IH[of w2] show ?case unfolding w2 by (auto simp del: ready_attempts.simps(2))
  qed
  from this[of n w] same show ?thesis
    by (cases "policy_status L config r0") (auto simp: waitUntilSmartAccountPolicyReady_def simp del: ready_attempts.simps(2))
qed

theorem wait_ends_unread_witness:
  "\<exists>w'. waitUntilSmartAccountPolicyReady demo_sa_lib (rules_net []) (sa_config ''CP'') sa_state (Some 20) () = Some (Inr sa_state, w')"
proof -
  have "rule0_is (rules_net []) a None" for a
  proof -
    let ?o = "\<lparr>po_maxRuleId = Some 1, po_maxConsecutiveMisses = Some 2\<rparr>"
    have "\<exists>w'. listOnChainContextRules (rules_net []) a ?o w = Some (Inr [], w')" for w
      using list_reached[OF rules_net_reads[of "[]" a], of 0 ?o 2 w] by (simp add: rules_net_count reached_def sort_rules_def)
    then show ?thesis unfolding rule0_is_def readContextRule0_def io_bind_def io_return_def by fastforce
  qed
  from wait_ends_unread[where st = sa_state and config = "sa_config ''CP''" and n = 19 and w = "()", OF this demo_address_law] show ?thesis
    by (simp add: truthy_def policy_status_def)
qed

end
