(* ===== verification/SmartSession.thy ===== *)
theory SmartSession
  imports SmartAccount State "HOL-Library.Product_Lexorder"
begin

text \<open>
  \<^verbatim>\<open>lib/smartAccount.ts\<close>, its trusted-device sessions: the session key kept in
  \<^verbatim>\<open>localStorage\<close>, the choice of a context rule for a call, the resolution of the rules for an
  authorization entry and the session's status. A stored session is read with the types it was
  written with; a text with a member missing or of
  another type is not loaded. Shown: which rule is chosen and
  that it is usable and the longest valid one, that a session counts as enabled exactly when every
  call of an entry resolves, and the life of a stored session.
\<close>

section \<open>The stored session\<close>

definition LUMENGATE_SESSION_DAYS :: int where "LUMENGATE_SESSION_DAYS = 7"

definition LUMENGATE_SESSION_LEDGERS :: int where
  "LUMENGATE_SESSION_LEDGERS = LUMENGATE_SESSION_DAYS * 24 * 60 * 60 div 5"

definition LUMENGATE_SESSION_STORAGE_PREFIX :: string where
  "LUMENGATE_SESSION_STORAGE_PREFIX = ''lumengate.smartAccount.session.v1''"

record sessionSigner =
  ses_account :: string
  ses_publicKey :: string
  ses_secretKey :: string
  ses_expiresAt :: int

definition sessionStorageKey :: "string \<Rightarrow> string" where
  "sessionStorageKey account = LUMENGATE_SESSION_STORAGE_PREFIX @ '':'' @ account"

type_synonym localStore = "(string \<times> string) list option"

definition sessionJson :: "sessionSigner \<Rightarrow> json" where
  "sessionJson s = JObj [(''smartAccountAddress'', JStr (ses_account s)), (''publicKey'', JStr (ses_publicKey s)),
     (''secretKey'', JStr (ses_secretKey s)), (''expiresAt'', JNum (ses_expiresAt s))]"

text \<open>\<^verbatim>\<open>validSecret\<close> says that \<^verbatim>\<open>Keypair.fromSecret\<close> accepts a text.\<close>

definition loadLumengateSession ::
  "(string \<Rightarrow> bool) \<Rightarrow> int \<Rightarrow> string \<Rightarrow> localStore \<Rightarrow> sessionSigner option" where
  "loadLumengateSession validSecret now account store = (case store of None \<Rightarrow> None
     | Some items \<Rightarrow> (case map_of items (sessionStorageKey account) of None \<Rightarrow> None
         | Some raw \<Rightarrow> if raw = [] then None
             else (case JSON_parse raw of None \<Rightarrow> None
               | Some j \<Rightarrow> (case (obj_get j ''smartAccountAddress'', obj_get j ''publicKey'', obj_get j ''secretKey'',
                        obj_get j ''expiresAt'') of
                   (Some (JStr a), Some (JStr pk), Some (JStr sk), Some (JNum t)) \<Rightarrow>
                     if a \<noteq> account \<or> pk = [] \<or> sk = [] \<or> t \<le> now then None
                     else if \<not> validSecret sk then None
                     else Some \<lparr>ses_account = a, ses_publicKey = pk, ses_secretKey = sk, ses_expiresAt = t\<rparr>
                 | _ \<Rightarrow> None))))"

definition saveLumengateSession :: "sessionSigner \<Rightarrow> localStore \<Rightarrow> localStore" where
  "saveLumengateSession s store = map_option (put (sessionStorageKey (ses_account s)) (stringify [] [] (sessionJson s))) store"

definition revokeLumengateSessionStorage :: "string \<Rightarrow> localStore \<Rightarrow> localStore" where
  "revokeLumengateSessionStorage account store = map_option (filter (\<lambda>kv. fst kv \<noteq> sessionStorageKey account)) store"

definition revokeLumengateSession :: "string \<Rightarrow> localStore \<Rightarrow> localStore" where
  "revokeLumengateSession account store = revokeLumengateSessionStorage account store"

text \<open>The random key pair is an argument: its public key and its secret.\<close>

definition getOrCreateLumengateSession ::
  "(string \<Rightarrow> bool) \<Rightarrow> string \<times> string \<Rightarrow> int \<Rightarrow> string \<Rightarrow> localStore \<Rightarrow> sessionSigner \<times> localStore" where
  "getOrCreateLumengateSession validSecret keypair now account store =
     (case loadLumengateSession validSecret now account store of Some existing \<Rightarrow> (existing, store)
      | None \<Rightarrow> let session = \<lparr>ses_account = account, ses_publicKey = fst keypair, ses_secretKey = snd keypair,
                   ses_expiresAt = now + LUMENGATE_SESSION_DAYS * 24 * 60 * 60 * 1000\<rparr>
          in (session, saveLumengateSession session store))"

section \<open>Funding the signer\<close>

record 'w funding =
  fn_getAccount :: "string \<Rightarrow> 'w \<Rightarrow> unit res \<times> 'w"
  fn_friendbot :: "string \<Rightarrow> 'w \<Rightarrow> unit httpResponse res \<times> 'w"

fun visible_attempts :: "'w funding \<Rightarrow> string \<Rightarrow> nat \<Rightarrow> ('w, unit) io" where
  "visible_attempts F publicKey 0 = io_throw (Refused
     ''Trusted device session signer was funded but is not visible on Soroban RPC yet. Retry in a moment.'')"
| "visible_attempts F publicKey (Suc left) =
     (\<lambda>w. case fn_getAccount F publicKey w of (Inr u, w1) \<Rightarrow> Some (Inr (), w1)
        | (Inl e, w1) \<Rightarrow> visible_attempts F publicKey left w1)"

definition friendbotFailed :: "unit httpResponse \<Rightarrow> js_error" where
  "friendbotFailed resp = (let text = catch (http_text resp) [] in
     Refused (''Friendbot funding failed ('' @ toString10 (http_status resp) @ '')''
       @ (if text = [] then [] else '': '' @ text)))"

definition ensureDelegatedSessionAccountExists :: "'w funding \<Rightarrow> deploymentConfig \<Rightarrow> string \<Rightarrow> ('w, unit) io" where
  "ensureDelegatedSessionAccountExists F config publicKey =
     (\<lambda>w. case fn_getAccount F publicKey w of (Inr u, w1) \<Rightarrow> Some (Inr (), w1)
      | (Inl e, w1) \<Rightarrow>
          (if \<not> contains (networkPassphrase config) ''Test'' then io_throw (Refused
             (''Trusted device session signer is not funded. Delegated G-address session signers must exist '' @
              ''on-chain before they can authorize smart-account calls.''))
           else io_bind (io_call (fn_friendbot F publicKey)) (\<lambda>resp.
             if \<not> http_ok resp \<and> http_status resp \<noteq> 400 then io_throw (friendbotFailed resp)
             else visible_attempts F publicKey 12)) w1)"

section \<open>Choosing a rule\<close>

definition ruleHasDelegatedSigner :: "ctxRule \<Rightarrow> string \<Rightarrow> bool" where
  "ruleHasDelegatedSigner rule publicKey = list_ex (\<lambda>s. s = Delegated publicKey) (r_signers rule)"

definition ruleHasCompliancePolicy :: "ctxRule \<Rightarrow> deploymentConfig \<Rightarrow> bool" where
  "ruleHasCompliancePolicy rule config \<longleftrightarrow>
     truthy (compliancePolicyId config) \<and> the (compliancePolicyId config) \<in> set (r_policies rule)"

definition ruleMatchesCallContract :: "ctxRule \<Rightarrow> string \<Rightarrow> bool" where
  "ruleMatchesCallContract rule contractId \<longleftrightarrow> ct_tag (r_type rule) = ''CallContract''
     \<and> js_String (or_else (type_value (r_type rule)) (NText [])) = contractId"

definition fallbackSessionContracts :: "deploymentConfig \<Rightarrow> string list" where
  "fallbackSessionContracts config = filter (\<lambda>s. s \<noteq> []) (List.map_filter id
     [sessionStoreId config, Some (rwaAdapterId config), Some (rwaTokenId config), complianceSacAdminId config,
      compliantDexId config, compliantPayrollId config, Some (usdcSacId config), eurcSacId config,
      confidentialTokenId config, confidentialUnderlyingId config])"

definition normalizeSessionContractIds :: "(string \<Rightarrow> string res) \<Rightarrow> string list \<Rightarrow> string list" where
  "normalizeSessionContractIds address ids = uniq (List.map_filter (\<lambda>i. case address i of Inl e \<Rightarrow> None
     | Inr a \<Rightarrow> if startsWith ''C'' a then Some a else None) ids)"

definition ruleMatchesDefault :: "ctxRule \<Rightarrow> bool" where
  "ruleMatchesDefault rule \<longleftrightarrow> ct_tag (r_type rule) = ''Default''"

text \<open>An expiry of \<^const>\<open>None\<close> is none; one that is not a number is in the past.\<close>

definition outlives :: "int option option \<Rightarrow> int \<Rightarrow> bool" where
  "outlives expires currentLedger = (case expires of None \<Rightarrow> True | Some None \<Rightarrow> False
     | Some (Some n) \<Rightarrow> currentLedger + 100 < n)"

definition defaultSessionRuleIsUsable :: "ctxRule \<Rightarrow> sessionSigner \<Rightarrow> deploymentConfig \<Rightarrow> int \<Rightarrow> bool" where
  "defaultSessionRuleIsUsable rule session config currentLedger \<longleftrightarrow>
     ruleMatchesDefault rule \<and> ruleHasDelegatedSigner rule (ses_publicKey session)
     \<and> ruleHasCompliancePolicy rule config \<and> outlives (r_validUntil rule) currentLedger"

definition sessionRuleIsUsable :: "ctxRule \<Rightarrow> string \<Rightarrow> sessionSigner \<Rightarrow> deploymentConfig \<Rightarrow> int \<Rightarrow> bool" where
  "sessionRuleIsUsable rule contractId session config currentLedger \<longleftrightarrow>
     ruleMatchesCallContract rule contractId \<and> ruleHasDelegatedSigner rule (ses_publicKey session)
     \<and> ruleHasCompliancePolicy rule config \<and> outlives (r_validUntil rule) currentLedger"

text \<open>
  The first of the candidates after sorting: the latest expiry, then the highest id. A rule without
  an expiry counts as expiring at 0.
\<close>

definition candidates :: "ctxRule list \<Rightarrow> (int \<times> int) list" where
  "candidates rules = List.map_filter (\<lambda>r. map_option (\<lambda>i. (i, given (given (r_validUntil r) (Some 0)) 0)) (r_id r)) rules"

definition first_best :: "ctxRule list \<Rightarrow> int option" where
  "first_best rules = (case sort_key (\<lambda>m. (- snd m, - fst m)) (candidates rules) of [] \<Rightarrow> None | m # ms \<Rightarrow> Some (fst m))"

definition bestDefaultSessionRuleId :: "ctxRule list \<Rightarrow> sessionSigner \<Rightarrow> deploymentConfig \<Rightarrow> int \<Rightarrow> int option" where
  "bestDefaultSessionRuleId rules session config currentLedger =
     first_best (filter (\<lambda>r. defaultSessionRuleIsUsable r session config currentLedger) rules)"

definition bestSessionRuleId ::
  "ctxRule list \<Rightarrow> string \<Rightarrow> sessionSigner \<Rightarrow> deploymentConfig \<Rightarrow> int \<Rightarrow> int option" where
  "bestSessionRuleId rules contractId session config currentLedger =
     first_best (filter (\<lambda>r. sessionRuleIsUsable r contractId session config currentLedger) rules)"

definition sessionIsEnabled ::
  "ctxRule list \<Rightarrow> sessionSigner \<Rightarrow> deploymentConfig \<Rightarrow> int \<Rightarrow> string list \<Rightarrow> bool" where
  "sessionIsEnabled rules session config currentLedger contractIds =
     (if bestDefaultSessionRuleId rules session config currentLedger \<noteq> None then True
      else list_all (\<lambda>c. bestSessionRuleId rules c session config currentLedger \<noteq> None) contractIds)"

section \<open>The rules for an authorization entry\<close>

text \<open>An invocation: the contract when it calls one, and the invocations below it.\<close>

datatype invocation = Invocation "string option" "invocation list"

fun callContractsFromInvocation :: "invocation \<Rightarrow> string list" where
  "callContractsFromInvocation (Invocation c subs) =
     (case c of None \<Rightarrow> [] | Some a \<Rightarrow> [a]) @ concat (map callContractsFromInvocation subs)"

definition callContractsFromAuthEntry :: "invocation \<Rightarrow> string list" where
  "callContractsFromAuthEntry entry = callContractsFromInvocation entry"

definition notEnabledFor :: "string \<Rightarrow> js_error" where
  "notEnabledFor contractId = Refused (''Lumengate session is not enabled for '' @ contractId
     @ ''. Enable Trusted device (7 days) first.'')"

definition resolveSessionContextRuleIdsForEntry ::
  "invocation \<Rightarrow> ctxRule list \<Rightarrow> sessionSigner \<Rightarrow> deploymentConfig \<Rightarrow> int \<Rightarrow> int list res" where
  "resolveSessionContextRuleIdsForEntry entry rules session config currentLedger =
     (let contracts = callContractsFromAuthEntry entry in
      if contracts = [] then Inl (Refused ''Lumengate session can only authorize contract-call contexts.'')
      else case bestDefaultSessionRuleId rules session config currentLedger of
          Some ruleId \<Rightarrow> Inr (map (\<lambda>c. ruleId) contracts)
        | None \<Rightarrow> traverse (\<lambda>c. case bestSessionRuleId rules c session config currentLedger of
            None \<Rightarrow> Inl (notEnabledFor c) | Some ruleId \<Rightarrow> Inr ruleId) contracts)"

section \<open>The session's status\<close>

record sessionStatus =
  st_enabled :: bool
  st_publicKey :: "string option"
  st_expiresAt :: "int option"
  st_validUntilLedger :: "int option"
  st_installedContracts :: "string list"
  st_missingContracts :: "string list"

definition valid_until_ledger :: "ctxRule list \<Rightarrow> int option \<Rightarrow> int option" where
  "valid_until_ledger rules ruleId = (case ruleId of None \<Rightarrow> None
     | Some i \<Rightarrow> (case find (\<lambda>r. r_id r = Some i) rules of None \<Rightarrow> None
         | Some r \<Rightarrow> let n = given (r_validUntil r) (Some 0) in if n = Some 0 then None else n))"

definition status_of ::
  "ctxRule list \<Rightarrow> sessionSigner \<Rightarrow> deploymentConfig \<Rightarrow> int \<Rightarrow> string list \<Rightarrow> sessionStatus" where
  "status_of rules session config currentLedger targetContracts =
     (let enabled = sessionIsEnabled rules session config currentLedger targetContracts;
          installed = (if enabled then targetContracts
            else filter (\<lambda>c. bestSessionRuleId rules c session config currentLedger \<noteq> None) targetContracts)
      in \<lparr>st_enabled = enabled, st_publicKey = Some (ses_publicKey session), st_expiresAt = Some (ses_expiresAt session),
          st_validUntilLedger = valid_until_ledger rules (bestDefaultSessionRuleId rules session config currentLedger),
          st_installedContracts = installed,
          st_missingContracts = (if enabled then [] else filter (\<lambda>c. c \<notin> set installed) targetContracts)\<rparr>)"

definition target_contracts :: "saLib \<Rightarrow> deploymentConfig \<Rightarrow> string list option \<Rightarrow> string list" where
  "target_contracts L config contractIds = normalizeSessionContractIds (sl_address L)
     (if given contractIds [] \<noteq> [] then the contractIds else fallbackSessionContracts config)"

definition listSessionContextRules :: "'w ruleNet \<Rightarrow> string \<Rightarrow> ('w, ctxRule list) io" where
  "listSessionContextRules N account =
     listOnChainContextRules N account \<lparr>po_maxRuleId = Some 24, po_maxConsecutiveMisses = Some 3\<rparr>"

definition getLumengateSessionStatus ::
  "saLib \<Rightarrow> (string \<Rightarrow> bool) \<Rightarrow> 'w ruleNet \<Rightarrow> int \<Rightarrow> deploymentConfig \<Rightarrow> localStore \<Rightarrow> smartAccountState
   \<Rightarrow> string list option \<Rightarrow> ('w, sessionStatus) io" where
  "getLumengateSessionStatus L validSecret N now config store st contractIds =
     (case loadLumengateSession validSecret now (sa_address st) store of
        None \<Rightarrow> io_return \<lparr>st_enabled = False, st_publicKey = None, st_expiresAt = None, st_validUntilLedger = None,
            st_installedContracts = [], st_missingContracts = target_contracts L config contractIds\<rparr>
      | Some session \<Rightarrow> io_bind (io_call (rn_latestLedger N)) (\<lambda>latest.
          io_bind (listSessionContextRules N (sa_address st)) (\<lambda>rules.
          io_return (status_of rules session config (given latest 0) (target_contracts L config contractIds)))))"

section \<open>The chosen rule\<close>

definition expiry :: "ctxRule \<Rightarrow> int" where
  "expiry r = given (given (r_validUntil r) (Some 0)) 0"

lemma in_candidates: "m \<in> set (candidates rules) \<longleftrightarrow> (\<exists>r \<in> set rules. r_id r = Some (fst m) \<and> snd m = expiry r)"
  by (cases m) (force simp: candidates_def expiry_def map_filter_def)

lemma hd_sort_key:
  assumes "xs \<noteq> []"
  shows "hd (sort_key f xs) \<in> set xs" and "\<And>x. x \<in> set xs \<Longrightarrow> f (hd (sort_key f xs)) \<le> f x"
proof -
  obtain y ys where s: "sort_key f xs = y # ys"
    using assms by (cases "sort_key f xs") (auto dest: arg_cong[of _ _ length])
  have same: "set (y # ys) = set xs" using set_sort[of f xs] unfolding s .
  then show "hd (sort_key f xs) \<in> set xs" unfolding s by auto
  have "sorted (map f (y # ys))" using sorted_sort_key[of f xs] s by simp
  then show "\<And>x. x \<in> set xs \<Longrightarrow> f (hd (sort_key f xs)) \<le> f x" unfolding s same[symmetric] by auto
qed

lemma first_best_Some:
  assumes "first_best rules = Some i"
  obtains r where "r \<in> set rules" "r_id r = Some i"
    "\<And>r' j. r' \<in> set rules \<Longrightarrow> r_id r' = Some j \<Longrightarrow> (expiry r', j) \<le> (expiry r, i)"
proof -
  let ?f = "\<lambda>m :: int \<times> int. (- snd m, - fst m)" and ?c = "candidates rules"
  obtain m ms where m: "sort_key ?f ?c = m # ms" and i: "i = fst m"
    using assms by (auto simp: first_best_def split: list.splits)
  then have ne: "?c \<noteq> []" by auto
  have hd: "hd (sort_key ?f ?c) = m" using m by simp
  from hd_sort_key(1)[OF ne, of ?f] hd obtain r where r: "r \<in> set rules" "r_id r = Some i" "snd m = expiry r"
    using i by (auto simp: in_candidates)
  moreover have "(expiry r', j) \<le> (expiry r, i)" if "r' \<in> set rules" "r_id r' = Some j" for r' j
  proof -
    from that have "(j, expiry r') \<in> set ?c" by (auto simp: in_candidates)
    from hd_sort_key(2)[OF ne this, of ?f] show ?thesis unfolding hd using i r(3) by (auto simp: less_eq_prod_def)
  qed
  ultimately show ?thesis using that by blast
qed

lemma first_best_None: "first_best rules = None \<longleftrightarrow> (\<forall>r \<in> set rules. r_id r = None)"
proof -
  have "first_best rules = None \<longleftrightarrow> candidates rules = []"
    by (cases "sort_key (\<lambda>m. (- snd m, - fst m)) (candidates rules)")
      (auto simp: first_best_def dest: arg_cong[of _ _ length])
  also have "\<dots> \<longleftrightarrow> (\<forall>r \<in> set rules. r_id r = None)"
    by (auto simp: candidates_def map_filter_def filter_empty_conv)
  finally show ?thesis .
qed

section \<open>Properties\<close>

text \<open>
  C35: The rule chosen for a call is one of the account's, usable for that call: it is
  scoped to the contract, signed by the session's key, carries the compliance policy and stays valid
  for more than a hundred ledgers; of the usable rules it has the latest expiry, and of those the
  highest id, a rule without an expiry counting as the earliest. None is chosen exactly when no
  usable rule has a numeric id.
\<close>

theorem chosen_rule:
  "(\<forall>i. bestSessionRuleId rules c session config l = Some i \<longrightarrow>
      (\<exists>r \<in> set rules. r_id r = Some i \<and> sessionRuleIsUsable r c session config l
         \<and> (\<forall>r' \<in> set rules. \<forall>j. sessionRuleIsUsable r' c session config l \<and> r_id r' = Some j
              \<longrightarrow> (expiry r', j) \<le> (expiry r, i))))
   \<and> (bestSessionRuleId rules c session config l = None \<longleftrightarrow>
        (\<forall>r \<in> set rules. sessionRuleIsUsable r c session config l \<longrightarrow> r_id r = None))"
proof (intro conjI allI impI)
  fix i assume "bestSessionRuleId rules c session config l = Some i"
  from first_best_Some[OF this[unfolded bestSessionRuleId_def]] obtain r where
    "r \<in> set (filter (\<lambda>r. sessionRuleIsUsable r c session config l) rules)" "r_id r = Some i"
    "\<And>r' j. r' \<in> set (filter (\<lambda>r. sessionRuleIsUsable r c session config l) rules) \<Longrightarrow> r_id r' = Some j
       \<Longrightarrow> (expiry r', j) \<le> (expiry r, i)" by blast
  then show "\<exists>r \<in> set rules. r_id r = Some i \<and> sessionRuleIsUsable r c session config l
      \<and> (\<forall>r' \<in> set rules. \<forall>j. sessionRuleIsUsable r' c session config l \<and> r_id r' = Some j
           \<longrightarrow> (expiry r', j) \<le> (expiry r, i))" by auto
qed (auto simp: bestSessionRuleId_def first_best_None)

definition session1 :: sessionSigner where
  "session1 = \<lparr>ses_account = ''CACC'', ses_publicKey = ''GS'', ses_secretKey = ''SS'', ses_expiresAt = 1000\<rparr>"

definition rule_until :: "int \<Rightarrow> int option option \<Rightarrow> ctxRule" where
  "rule_until i u = (demo_rule i)\<lparr>r_validUntil := u\<rparr>"

lemma rule_until_usable:
  "sessionRuleIsUsable (rule_until i u) ''CA'' session1 (sa_config ''CP'') l \<longleftrightarrow> outlives u l"
  by (simp add: sessionRuleIsUsable_def ruleMatchesCallContract_def rule_until_def demo_rule_def type_value_def
      or_else_def ruleHasDelegatedSigner_def session1_def ruleHasCompliancePolicy_def truthy_def)

theorem chosen_rule_witness:
  "bestSessionRuleId [rule_until 3 (Some (Some 700)), rule_until 4 (Some (Some 700)), rule_until 9 None] ''CA'' session1
     (sa_config ''CP'') 500 = Some 4"
proof -
  let ?rules = "[rule_until 3 (Some (Some 700)), rule_until 4 (Some (Some 700)), rule_until 9 None]"
  have ids: "r_id (rule_until i u) = Some i" "expiry (rule_until i u) = given (given u (Some 0)) 0" for i u
    by (simp_all add: rule_until_def demo_rule_def expiry_def)
  note t = chosen_rule[of ?rules "''CA''" session1 "sa_config ''CP''" 500]
  from t obtain i where i: "bestSessionRuleId ?rules ''CA'' session1 (sa_config ''CP'') 500 = Some i"
    by (cases "bestSessionRuleId ?rules ''CA'' session1 (sa_config ''CP'') 500")
      (auto simp: rule_until_usable ids outlives_def)
  with t have "i = 4" by (auto simp: rule_until_usable ids outlives_def)
  with i show ?thesis by simp
qed

lemma traverse_Inr_iff: "(\<exists>ys. traverse f xs = Inr ys) \<longleftrightarrow> (\<forall>x \<in> set xs. \<exists>y. f x = Inr y)"
  by (induction xs) (auto simp: rbind_Inr_iff rmap_Inr_iff)

lemma traverse_all2: "traverse f xs = Inr ys \<Longrightarrow> list_all2 (\<lambda>x y. f x = Inr y) xs ys"
  by (induction xs arbitrary: ys) (auto simp: rbind_Inr_iff rmap_Inr_iff)

definition covers :: "ctxRule list \<Rightarrow> sessionSigner \<Rightarrow> deploymentConfig \<Rightarrow> int \<Rightarrow> string \<Rightarrow> int \<Rightarrow> bool" where
  "covers rules session config l c i \<longleftrightarrow> (\<exists>r \<in> set rules. r_id r = Some i
     \<and> (sessionRuleIsUsable r c session config l \<or> defaultSessionRuleIsUsable r session config l))"

text \<open>
  C34: A session counts as enabled for the contracts an entry calls exactly when the entry's rules
  resolve, and then every call gets the id of a rule that is usable for it. Without any contract it
  counts as enabled although no rule exists.
\<close>

theorem enabled_iff_resolves:
  assumes "callContractsFromAuthEntry entry \<noteq> []"
  shows "(sessionIsEnabled rules session config l (callContractsFromAuthEntry entry) \<longleftrightarrow>
      (\<exists>ids. resolveSessionContextRuleIdsForEntry entry rules session config l = Inr ids))
    \<and> (\<forall>ids. resolveSessionContextRuleIdsForEntry entry rules session config l = Inr ids \<longrightarrow>
        list_all2 (covers rules session config l) (callContractsFromAuthEntry entry) ids)
    \<and> sessionIsEnabled [] session config l []"
proof -
  let ?cs = "callContractsFromAuthEntry entry"
  have "\<exists>r \<in> set rules. r_id r = Some i \<and> defaultSessionRuleIsUsable r session config l"
    if "bestDefaultSessionRuleId rules session config l = Some i" for i
    by (rule first_best_Some[OF that[unfolded bestDefaultSessionRuleId_def]]) auto
  then have d: "covers rules session config l c i" if "bestDefaultSessionRuleId rules session config l = Some i" for c i
    using that by (auto simp: covers_def)
  have b: "covers rules session config l c i" if "bestSessionRuleId rules c session config l = Some i" for c i
    by (rule first_best_Some[OF that[unfolded bestSessionRuleId_def]]) (auto simp: covers_def)
  have empty: "sessionIsEnabled [] session config l []" by (simp add: sessionIsEnabled_def)
  show ?thesis
  proof (cases "bestDefaultSessionRuleId rules session config l")
    case (Some i)
    with d[OF Some] assms empty show ?thesis
      by (auto simp: resolveSessionContextRuleIdsForEntry_def sessionIsEnabled_def list_all2_conv_all_nth)
  next
    case None
    let ?f = "\<lambda>c. case bestSessionRuleId rules c session config l of None \<Rightarrow> Inl (notEnabledFor c) | Some ruleId \<Rightarrow> Inr ruleId"
    have r: "resolveSessionContextRuleIdsForEntry entry rules session config l = traverse ?f ?cs"
      using None assms by (simp add: resolveSessionContextRuleIdsForEntry_def Let_def)
    have "list_all2 (covers rules session config l) ?cs ids" if "traverse ?f ?cs = Inr ids" for ids
      using traverse_all2[OF that] by (rule list.rel_mono_strong) (auto split: option.splits intro: b)
    moreover have "sessionIsEnabled rules session config l ?cs \<longleftrightarrow> (\<exists>ids. traverse ?f ?cs = Inr ids)"
      unfolding traverse_Inr_iff using None by (auto simp: sessionIsEnabled_def list_all_iff split: option.splits)
    ultimately show ?thesis unfolding r using empty by blast
  qed
qed

definition demo_entry :: invocation where
  "demo_entry = Invocation (Some ''CA'') [Invocation None [Invocation (Some ''CA'') []]]"

theorem enabled_iff_resolves_witness:
  "resolveSessionContextRuleIdsForEntry demo_entry [rule_until 3 None] session1 (sa_config ''CP'') 500 = Inr [3, 3]
   \<and> sessionIsEnabled [rule_until 3 None] session1 (sa_config ''CP'') 500 [''CA'', ''CA'']"
proof -
  have ne: "callContractsFromAuthEntry demo_entry = [''CA'', ''CA'']"
    by (simp add: demo_entry_def callContractsFromAuthEntry_def)
  have d: "\<not> defaultSessionRuleIsUsable (rule_until 3 None) session1 (sa_config ''CP'') 500"
    by (simp add: defaultSessionRuleIsUsable_def ruleMatchesDefault_def rule_until_def demo_rule_def)
  have c: "bestSessionRuleId [rule_until 3 None] ''CA'' session1 (sa_config ''CP'') 500 = Some 3"
    by (simp add: bestSessionRuleId_def rule_until_usable outlives_def first_best_def candidates_def map_filter_def)
      (simp add: rule_until_def demo_rule_def)
  with ne have "sessionIsEnabled [rule_until 3 None] session1 (sa_config ''CP'') 500 (callContractsFromAuthEntry demo_entry)"
    by (simp add: sessionIsEnabled_def)
  with enabled_iff_resolves[of demo_entry "[rule_until 3 None]" session1 "sa_config ''CP''" 500] ne obtain ids where
    i: "resolveSessionContextRuleIdsForEntry demo_entry [rule_until 3 None] session1 (sa_config ''CP'') 500 = Inr ids"
      "list_all2 (covers [rule_until 3 None] session1 (sa_config ''CP'') 500) [''CA'', ''CA''] ids"
      "sessionIsEnabled [rule_until 3 None] session1 (sa_config ''CP'') 500 [''CA'', ''CA'']" by auto
  have "r_id (rule_until 3 None) = Some 3" by (simp add: rule_until_def demo_rule_def)
  with i(2) have "ids = [3, 3]" by (auto simp: list_all2_Cons1 covers_def)
  with i(1,3) show ?thesis by simp
qed

text \<open>
  A status reports the session as enabled exactly when no contract is missing, and installed
  and missing contracts are a partition of the contracts it was asked about.
\<close>

theorem status_partition:
  "st_enabled (status_of rules session config l cs) = (st_missingContracts (status_of rules session config l cs) = [])
   \<and> set (st_installedContracts (status_of rules session config l cs)) \<union> set (st_missingContracts (status_of rules session config l cs)) = set cs
   \<and> set (st_installedContracts (status_of rules session config l cs)) \<inter> set (st_missingContracts (status_of rules session config l cs)) = {}"
  by (auto simp: status_of_def Let_def sessionIsEnabled_def filter_empty_conv list_all_iff)

lemma sessionJson_back: "JSON_parse (stringify [] [] (sessionJson s)) = Some (sessionJson s)"
  by (rule JSON_parse_stringify) (simp_all add: sessionJson_def)

lemma sessionJson_text: "stringify [] [] (sessionJson s) \<noteq> []"
  by (simp add: sessionJson_def)

lemma sessionStorageKey_inj [simp]: "sessionStorageKey a = sessionStorageKey b \<longleftrightarrow> a = b"
  by (simp add: sessionStorageKey_def)

lemma map_of_removed: "map_of (filter (\<lambda>kv. fst kv \<noteq> k) items) k' = (if k' = k then None else map_of items k')"
  by (induction items) auto

text \<open>
  The life of a stored session: what was saved is loaded, with its key and expiry, until
  the expiry and not from it on; saving or revoking one account's session changes no other
  account's; after revoking there is none.
\<close>

theorem session_life:
  assumes "ses_publicKey s \<noteq> []" and "ses_secretKey s \<noteq> []" and "valid (ses_secretKey s)"
  shows "loadLumengateSession valid now a (saveLumengateSession s (Some items)) =
      (if a \<noteq> ses_account s then loadLumengateSession valid now a (Some items)
       else if ses_expiresAt s \<le> now then None else Some s)
    \<and> loadLumengateSession valid now a (revokeLumengateSession b (Some items)) =
      (if a = b then None else loadLumengateSession valid now a (Some items))"
proof -
  have fields: "obj_get (sessionJson s) ''smartAccountAddress'' = Some (JStr (ses_account s))"
    "obj_get (sessionJson s) ''publicKey'' = Some (JStr (ses_publicKey s))"
    "obj_get (sessionJson s) ''secretKey'' = Some (JStr (ses_secretKey s))"
    "obj_get (sessionJson s) ''expiresAt'' = Some (JNum (ses_expiresAt s))"
    by (simp_all add: sessionJson_def)
  show ?thesis
    using assms sessionJson_text[of s]
    by (auto simp: loadLumengateSession_def saveLumengateSession_def revokeLumengateSession_def
        revokeLumengateSessionStorage_def map_of_put map_of_removed sessionJson_back fields)
qed

theorem session_life_witness:
  "loadLumengateSession (\<lambda>s. True) 999 ''CACC'' (saveLumengateSession session1 (Some [])) = Some session1
   \<and> loadLumengateSession (\<lambda>s. True) 1000 ''CACC'' (saveLumengateSession session1 (Some [])) = None"
  using session_life[of session1 "\<lambda>s. True" 999 "''CACC''" "[]" "''CX''"]
    session_life[of session1 "\<lambda>s. True" 1000 "''CACC''" "[]" "''CX''"]
  by (simp add: session1_def)

end
