(* ===== verification/Reconcile.thy ===== *)
theory Reconcile
  imports Engine Postconditions
begin

text \<open>
  What the engine of \<^verbatim>\<open>state/engine.ts\<close> guarantees of the states it hands out, whatever
  the network does: a state returned as verified is the stored one, and its numbers open the
  commitment the chain returned. The locale \<^verbatim>\<open>faithful_store\<close> is what this needs of the
  store; a save that cannot be read back makes the next load throw, and is allowed.
\<close>

section \<open>A store that does not lie\<close>

locale faithful_store =
  fixes store :: "'s stateStore"
    and good :: "'s \<Rightarrow> bool"
  assumes load_pure: "snd (ss_load store a s) = s"
    and load_own: "good s \<Longrightarrow> fst (ss_load store a s) = Inr (Some st) \<Longrightarrow> st_address st = a"
    and save_good: "good s \<Longrightarrow> good (snd (ss_save store st s))"
    and save_load: "good s \<Longrightarrow> fst (ss_save store st s) = Inr u \<Longrightarrow>
        fst (ss_load store (st_address st) (snd (ss_save store st s))) = Inr (Some st)
        \<or> (\<exists>e. fst (ss_load store (st_address st) (snd (ss_save store st s))) = Inl e)"

text \<open>The state the engine finds in the store is the given one, or it finds none it can read.\<close>

definition settled :: "('p, 's, 'n) engine \<Rightarrow> accountState \<Rightarrow> 's \<Rightarrow> bool" where
  "settled E st s \<longleftrightarrow> st_address st = en_address E \<and>
     (case fst (ss_load (en_store E) (en_address E) s) of Inl e \<Rightarrow> True
      | Inr prior \<Rightarrow> given prior (freshState (en_address E)) = st)"

text \<open>A commitment the chain returned for the account is opened by the numbers.\<close>

definition chain_opening ::
  "('p, 's, 'n) engine \<Rightarrow> ('p onChainAccount \<Rightarrow> 'p option) \<Rightarrow> Opening \<Rightarrow> bool" where
  "chain_opening E sel x \<longleftrightarrow> (\<exists>n n' acc P.
     confidentialBalance (en_K E) (en_client E) (en_address E) n = Some (Inr (Some acc), n')
     \<and> sel acc = Some P \<and> pequals (en_K E) (commit (en_K E) (op_v x) (op_r x)) P)"

lemma chain_openingI:
  assumes "confidentialBalance (en_K E) (en_client E) (en_address E) n = Some (Inr (Some acc), n')"
    and "sel acc = Some P" and "pequals (en_K E) (commit (en_K E) (op_v x) (op_r x)) P"
  shows "chain_opening E sel x"
  using assms unfolding chain_opening_def by blast

definition attested :: "('p, 's, 'n) engine \<Rightarrow> accountState \<Rightarrow> verified \<Rightarrow> bool" where
  "attested E st v \<longleftrightarrow> (vf_spendableOk v \<longrightarrow> chain_opening E oc_spendableBalance (st_spendable st))
     \<and> (vf_receivingOk v \<longrightarrow> chain_opening E oc_receivingBalance (st_receiving st))
     \<and> (vf_ok v \<longrightarrow> vf_spendableOk v \<and> vf_receivingOk v)"

text \<open>The openings of the given state are those in the store, whatever became of its markers.\<close>

definition openings_kept :: "('p, 's, 'n) engine \<Rightarrow> accountState \<Rightarrow> 's \<Rightarrow> bool" where
  "openings_kept E st s \<longleftrightarrow> (\<exists>st'. settled E st' s \<and> st_spendable st' = st_spendable st \<and> st_receiving st' = st_receiving st)"

lemma openings_keptI: "settled E st' s \<Longrightarrow> st_spendable st' = st_spendable st \<Longrightarrow> st_receiving st' = st_receiving st \<Longrightarrow> openings_kept E st s"
  by (auto simp: openings_kept_def)

text \<open>A state that was returned after a verification that met what the caller waits for.\<close>

definition waited :: "('p, 's, 'n) engine \<Rightarrow> waitOptions \<Rightarrow> accountState \<Rightarrow> bool" where
  "waited E opts st \<longleftrightarrow> (\<exists>v. meets opts v \<and> attested E st v)"

lemma waitedI: "meets opts v \<Longrightarrow> attested E st v \<Longrightarrow> waited E opts st"
  by (auto simp: waited_def)

lemma net_io_post [io_wp]: "io_post (net_io m) (s, n) Q \<longleftrightarrow> io_post m n (\<lambda>r n'. Q r (s, n'))"
  by (auto simp: io_post_def io_simps split: prod.splits option.splits)

lemma store_io_post [io_wp]: "io_post (store_io f) (s, n) Q \<longleftrightarrow> (case f s of (r, s') \<Rightarrow> Q r (s', n))"
  by (auto simp: io_post_def io_simps split: prod.splits)

lemma apply_event_address: "apply_event K keys st ev = Inr st' \<Longrightarrow> st_address st' = st_address st"
  by (cases "ev_body ev") (auto simp: apply_event_def at_ledger_def rmap_Inr_iff Let_def merged_def credited_def
      split: if_splits)

lemma apply_all_address: "apply_all K keys st evs = Inr st' \<Longrightarrow> st_address st' = st_address st"
  by (induction evs arbitrary: st) (auto simp: rbind_Inr_iff dest: apply_event_address)

section \<open>Handing out states\<close>

context faithful_store
begin

text \<open>Every engine operation on a good store, with a postcondition on the state it returns.\<close>

lemma current_post:
  assumes "en_store E = store" and "good s"
  shows "io_post (current E) (s, n) (\<lambda>r w'. w' = (s, n) \<and> (\<forall>st. r = Inr st \<longrightarrow> settled E st s))"
proof -
  obtain r where r: "ss_load store (en_address E) s = (r, s)"
    using load_pure[of "en_address E" s] by (cases "ss_load store (en_address E) s") auto
  show ?thesis
    using assms r load_own[OF assms(2), of "en_address E"]
    by (cases r) (auto simp: current_def load_state_def io_wp settled_def given_def freshState_def split: option.splits)
qed

lemma save_post:
  assumes "en_store E = store" and "good s" and "st_address st = en_address E"
  shows "io_post (save_state E st) (s, n) (\<lambda>r w'. good (fst w') \<and> (\<forall>u. r = Inr u \<longrightarrow> settled E st (fst w')))"
  using assms save_good[OF assms(2), of st] save_load[OF assms(2), of st]
  by (cases "ss_save store st s") (auto simp: save_state_def io_wp settled_def split: sum.split)

lemma replay_post:
  assumes "en_store E = store" and "good s" and "st_address st = en_address E"
  shows "io_post (replay_from E st c) (s, n) (\<lambda>r w'. good (fst w') \<and> (\<forall>st'. r = Inr st' \<longrightarrow> settled E st' (fst w')))"
proof -
  have save: "io_post (save_state E st') (s, m) (\<lambda>r w'. good (fst w') \<and> (\<forall>u. r = Inr u \<longrightarrow> settled E st' (fst w')))"
    if "st_address st' = st_address st" for st' m
    using that assms by (intro save_post) simp_all
  show ?thesis unfolding replay_from_def
    using assms(2)
    by (auto simp: io_wp Let_def io_post_def[of "hybridFetchEvents _ _ _ _ _ _"] at_ledger_def
        dest!: apply_all_address intro!: io_post_mono[OF save] split: option.split sum.split)
qed

lemma sync_post:
  assumes "en_store E = store" and "good s"
  shows "io_post (sync E) (s, n) (\<lambda>r w'. good (fst w') \<and> (\<forall>st. r = Inr st \<longrightarrow> settled E st (fst w')))"
proof -
  have "sync E = io_bind (current E) (\<lambda>st. replay_from E st (st_cursor st))"
    by (auto simp: sync_def current_def io_bind_def io_return_def fun_eq_iff Let_def split: option.split sum.split)
  then show ?thesis
    using assms by (auto simp: io_wp settled_def intro!: io_post_mono[OF current_post] io_post_mono[OF replay_post] split: sum.split)
qed

lemma rebuild_post:
  assumes "en_store E = store" and "good s"
  shows "io_post (rebuildFromEvents E) (s, n) (\<lambda>r w'. good (fst w') \<and> (\<forall>st. r = Inr st \<longrightarrow> settled E st (fst w')))"
  unfolding rebuildFromEvents_def using assms by (intro replay_post) (simp_all add: freshState_def)

lemma verify_post:
  assumes "en_store E = store" and "good s" and "settled E st s"
  shows "io_post (verifyAgainstChain E) (s, n) (\<lambda>r w'. fst w' = s \<and> (\<forall>v. r = Inr v \<longrightarrow> attested E st v))"
proof -
  have read: "io_post (confidentialBalance (en_K E) (en_client E) (en_address E)) n Q"
    if "\<And>acc n'. confidentialBalance (en_K E) (en_client E) (en_address E) n = Some (Inr acc, n') \<Longrightarrow> Q (Inr acc) n'" for n Q
    using that confidentialBalance_total[of "en_K E" "en_client E" "en_address E" n] by (auto simp: io_post_def)
  obtain r where r: "ss_load store (en_address E) s = (r, s)"
    using load_pure[of "en_address E" s] by (cases "ss_load store (en_address E) s") auto
  have cur: "io_post (current E) (s, n) (\<lambda>r w'. w' = (s, n) \<and> (r = Inr st \<or> (\<exists>e. r = Inl e)))"
    using assms r by (cases r) (auto simp: current_def load_state_def io_wp settled_def)
  show ?thesis unfolding verifyAgainstChain_def
    by (auto simp: io_wp equals_member_def attested_def
        intro!: io_post_mono[OF cur] read intro: chain_openingI split: option.split sum.split)
qed

text \<open>
  The reading of a balance and the wait after a transaction: a state handed out as verified is the
  one the chain was asked about.
\<close>

lemma clear_post:
  assumes "en_store E = store" and "good s" and "settled E st s"
  shows "io_post (clearOptimisticMarkersIfVerified E v) (s, n) (\<lambda>r w'. good (fst w') \<and> (\<forall>u. r = Inr u \<longrightarrow> openings_kept E st (fst w')))"
proof -
  have cur: "io_post (current E) (s, n) (\<lambda>r w'. w' = (s, n) \<and> (r = Inr st \<or> (\<exists>e. r = Inl e)))"
    using assms load_pure[of "en_address E" s]
    by (cases "ss_load store (en_address E) s") (auto simp: current_def load_state_def io_wp settled_def split: sum.splits)
  have save: "io_post (save_state E (st\<lparr>st_optimistic := None\<rparr>)) (s, m) (\<lambda>r w'. good (fst w') \<and> (\<forall>u. r = Inr u \<longrightarrow> openings_kept E st (fst w')))" for m
    using assms by (intro io_post_mono[OF save_post]) (auto simp: settled_def[of E st s] intro: openings_keptI)
  show ?thesis unfolding clearOptimisticMarkersIfVerified_def
    using assms(3) by (auto simp: io_wp assms(2) intro!: io_post_mono[OF cur] io_post_mono[OF save] intro: openings_keptI split: sum.split)
qed

lemma refresh_post:
  assumes "en_store E = store" and "good s"
  shows "io_post (refresh E opts) (s, n) (\<lambda>r w'. good (fst w') \<and> (\<forall>st. r = Inr st \<longrightarrow> settled E st (fst w')))"
  unfolding refresh_def using assms
  by (auto intro!: sync_post io_post_mono[OF current_post])

lemma verify_attempts_post:
  assumes "en_store E = store" and "good s" and "settled E st s"
  shows "io_post (verify_attempts E opts k st) (s, n) (\<lambda>r w'. good (fst w')
     \<and> (\<forall>st'. r = Inr (Some st') \<longrightarrow> settled E st' (fst w') \<and> waited E opts st'))"
  using assms(2,3)
proof (induction k arbitrary: st s n)
  case (Suc k)
  show ?case
    using Suc.prems by (auto simp: io_wp intro!: io_post_mono[OF verify_post[OF assms(1) Suc.prems]]
        io_post_mono[OF refresh_post[OF assms(1)]] Suc.IH intro: waitedI split: sum.split)
qed (simp add: io_wp)

lemma wait_post:
  assumes "en_store E = store" and "good s"
  shows "io_post (waitUntilVerified E opts) (s, n) (\<lambda>r w'. good (fst w')
     \<and> (\<forall>st. r = Inr st \<longrightarrow> settled E st (fst w') \<and> waited E opts st))"
proof -
  have save: "io_post (save_state E st) (q, m) (\<lambda>r w'. good (fst w') \<and> (\<forall>u. r = Inr u \<longrightarrow> settled E st (fst w')))"
    if "settled E st s'" "good q" for st s' q m
    using that assms by (intro save_post) (auto simp: settled_def)
  have verify: "io_post (verifyAgainstChain E) (q, m) (\<lambda>r w'. fst w' = q \<and> (\<forall>v. r = Inr v \<longrightarrow> attested E st v))"
    if "settled E st q" "good q" for st q m
    using that assms by (intro verify_post) simp_all
  have tail: "io_post (io_bind (rebuildFromEvents E) (\<lambda>rebuilt. io_bind (verifyAgainstChain E) (\<lambda>v.
         if meets opts v then io_return rebuilt
         else io_bind (save_state E prior) (\<lambda>u. io_throw SyncTimeout)))) w (\<lambda>r w'. good (fst w')
     \<and> (\<forall>st. r = Inr st \<longrightarrow> settled E st (fst w') \<and> waited E opts st))"
    if "settled E prior s'" "good (fst w)" for prior s' w
    using that by (cases w) (auto simp: io_post_if io_post_return io_post_throw
        intro!: io_post_bindI[OF rebuild_post[OF assms(1)]] io_post_bindI[OF verify] io_post_bindI[OF save] waitedI)
  have attempts: "io_post (verify_attempts E opts k st) w (\<lambda>r w'. good (fst w')
     \<and> (\<forall>st'. r = Inr (Some st') \<longrightarrow> settled E st' (fst w') \<and> waited E opts st'))"
    if "settled E st (fst w)" "good (fst w)" for st w k
    using that by (cases w) (auto intro!: verify_attempts_post[OF assms(1)])
  have refresh: "io_post (refresh E opts) w (\<lambda>r w'. good (fst w') \<and> (\<forall>st. r = Inr st \<longrightarrow> settled E st (fst w')))"
    if "good (fst w)" for w
    using that by (cases w) (auto intro!: refresh_post[OF assms(1)])
  have confirm: "io_post (net_io m) (q, k) (\<lambda>r w'. fst w' = q)" for m q k
    by (auto simp: io_post_def io_simps split: option.split prod.split)
  show ?thesis unfolding waitUntilVerified_def
    using assms(2)
    by (auto simp: io_post_return io_post_throw io_post_if io_bind_return split: option.split intro!: io_post_bindI[OF current_post[OF assms]]
        io_post_bindI[OF confirm] io_post_bindI[OF refresh] io_post_bindI[OF attempts] tail)
qed

lemma try_rebuild_post:
  assumes "en_store E = store" and "good s"
  shows "io_post (tryVerifiedRebuild E accepts) (s, n) (\<lambda>r w'. good (fst w')
     \<and> (\<forall>st v. r = Inr (Some (st, v)) \<longrightarrow> attested E st v \<and> openings_kept E st (fst w')))"
proof -
  have save: "io_post (save_state E st) (q, m) (\<lambda>r w'. good (fst w') \<and> (\<forall>u. r = Inr u \<longrightarrow> settled E st (fst w')))"
    if "settled E st s'" "good q" for st s' q m
    using that assms by (intro save_post) (auto simp: settled_def)
  have verify: "io_post (verifyAgainstChain E) (q, m) (\<lambda>r w'. fst w' = q \<and> (\<forall>v. r = Inr v \<longrightarrow> attested E st v))"
    if "settled E st q" "good q" for st q m
    using that assms by (intro verify_post) simp_all
  show ?thesis unfolding tryVerifiedRebuild_def
    using assms(2)
    by (auto simp: io_wp intro!: io_post_mono[OF current_post[OF assms]] io_post_mono[OF rebuild_post[OF assms]]
        io_post_mono[OF verify] io_post_mono[OF clear_post[OF assms(1)]] io_post_mono[OF save] split: option.split sum.split)
qed

lemma short_waits_post:
  assumes "en_store E = store" and "good s" and "\<not> vf_spendableOk v0"
  shows "io_post (short_waits E h k v0) (s, n) (\<lambda>r w'. good (fst w')
     \<and> (\<forall>v. r = Inr (None, v) \<longrightarrow> \<not> vf_spendableOk v) \<and> (\<forall>st v u. r = Inr (Some (st, v), u) \<longrightarrow> attested E st v \<and> openings_kept E st (fst w')))"
  using assms(2,3)
proof (induction k arbitrary: v0 s n)
  case (Suc k)
  obtain m where m: "m = (if h then current E else sync E)" by simp
  have state: "io_post m (s, n) (\<lambda>r w'. good (fst w') \<and> (\<forall>st. r = Inr st \<longrightarrow> settled E st (fst w')))"
    using Suc.prems(1) unfolding m by (auto intro!: sync_post[OF assms(1)] io_post_mono[OF current_post[OF assms(1)]])
  have verify: "io_post (verifyAgainstChain E) (q, m) (\<lambda>r w'. fst w' = q \<and> (\<forall>v. r = Inr v \<longrightarrow> attested E st v))"
    if "settled E st q" "good q" for st q m
    using that assms by (intro verify_post) simp_all
  have clear: "io_post (clearOptimisticMarkersIfVerified E v) (q, m) (\<lambda>r w'. good (fst w') \<and> (\<forall>u. r = Inr u \<longrightarrow> openings_kept E st (fst w')))"
    if "good q" "settled E st q" for v st q m
    using that by (rule clear_post[OF assms(1)])
  show ?case unfolding short_waits.simps m[symmetric]
    by (auto simp: io_wp intro!: io_post_mono[OF state] io_post_mono[OF verify]
        io_post_mono[OF clear] io_post_mono[OF Suc.IH] split: sum.split)
qed (simp add: io_wp)

lemma reconcile_post:
  assumes "en_store E = store" and "good s"
  shows "io_post (reconcileForRead E) (s, n) (\<lambda>r w'. good (fst w')
     \<and> (\<forall>st v. r = Inr (st, v) \<and> vf_spendableOk v \<longrightarrow> attested E st v \<and> openings_kept E st (fst w')))"
proof -
  have save: "io_post (save_state E st) (q, m) (\<lambda>r w'. good (fst w') \<and> (\<forall>u. r = Inr u \<longrightarrow> settled E st (fst w')))"
    if "settled E st s'" "good q" for st s' q m
    using that assms by (intro save_post) (auto simp: settled_def)
  have verify: "io_post (verifyAgainstChain E) (q, m) (\<lambda>r w'. fst w' = q \<and> (\<forall>v. r = Inr v \<longrightarrow> attested E st v))"
    if "settled E st q" "good q" for st q m
    using that assms by (intro verify_post) simp_all
  have clear: "io_post (clearOptimisticMarkersIfVerified E v) (q, m) (\<lambda>r w'. good (fst w') \<and> (\<forall>u. r = Inr u \<longrightarrow> openings_kept E st (fst w')))"
    if "good q" "settled E st q" for v st q m
    using that by (rule clear_post[OF assms(1)])
  show ?thesis unfolding reconcileForRead_def Let_def
    using assms(2)
    by (auto simp: io_wp case_prod_unfold intro!: io_post_mono[OF current_post[OF assms]]
        io_post_mono[OF sync_post[OF assms]] io_post_mono[OF rebuild_post[OF assms(1)]] io_post_mono[OF verify]
        io_post_mono[OF clear] io_post_mono[OF save] io_post_mono[OF short_waits_post[OF assms(1)]]
        io_post_mono[OF try_rebuild_post[OF assms(1)]] io_post_mono[OF current_post[OF assms(1)]] split: option.split sum.split)
qed

end

end
