(* ===== verification/Amounts.thy ===== *)
theory Amounts
  imports JsText
begin

text \<open>
  \<^verbatim>\<open>lib/assetAmount.ts\<close> and \<^verbatim>\<open>formatConfidentialAmount\<close> of
  \<^verbatim>\<open>lib/confidentialBalance.ts\<close>: decimal amounts as texts and as integers of the smallest
  unit. The number of decimals is a natural number. Shown: which texts are read and as what, and that
  a formatted amount reads back.
\<close>

section \<open>The regular expression\<close>

definition is_digit :: "char \<Rightarrow> bool" where
  "is_digit c \<longleftrightarrow> dec_val c \<noteq> None"

text \<open>A non-empty run of digits, and maybe a point and another one.\<close>

definition decimal_shape :: "string \<Rightarrow> bool" where
  "decimal_shape s \<longleftrightarrow> takeWhile is_digit s \<noteq> [] \<and>
     (case dropWhile is_digit s of [] \<Rightarrow> True
      | c # f \<Rightarrow> c = CHR ''.'' \<and> f \<noteq> [] \<and> list_all is_digit f)"

section \<open>Reading and writing\<close>

definition padEnd0 :: "nat \<Rightarrow> string \<Rightarrow> string" where
  "padEnd0 n s = s @ replicate (n - length s) (CHR ''0'')"

definition stripZeros :: "string \<Rightarrow> string" where
  "stripZeros s = rev (dropWhile (\<lambda>c. c = CHR ''0'') (rev s))"

definition parseStellarAmount :: "string \<Rightarrow> nat \<Rightarrow> int res" where
  "parseStellarAmount amount decimals =
     (let trimmed = trim amount in
      if trimmed = [] \<or> \<not> decimal_shape trimmed then Inl (Refused ''Enter a valid amount.'')
      else let parts = split_on (CHR ''.'') trimmed;
               whole = hd parts;
               frac = (case tl parts of [] \<Rightarrow> [] | f # _ \<Rightarrow> f) in
        if decimals < length frac
        then Inl (Refused (''Amount supports at most '' @ toString10 (int decimals) @ '' decimal places.''))
        else let padded = padEnd0 decimals frac in
          rbind (BigInt_of whole) (\<lambda>w.
          rmap (\<lambda>f. w * 10 ^ decimals + f) (BigInt_of (if padded = [] then ''0'' else padded))))"

definition formatStellarAmount :: "int \<Rightarrow> nat \<Rightarrow> string" where
  "formatStellarAmount raw decimals =
     (if raw < 0 then ''0''
      else let base = 10 ^ decimals; whole = raw div base;
               frac = stripZeros (padStart0 decimals (toString10 (raw mod base)))
        in if frac \<noteq> [] then toString10 whole @ ''.'' @ frac else toString10 whole)"

definition formatConfidentialAmount :: "int \<Rightarrow> nat \<Rightarrow> string" where
  "formatConfidentialAmount raw decimals =
     (let negative = raw < 0; abs1 = (if negative then - raw else raw);
          base = 10 ^ decimals; whole = abs1 div base; frac = abs1 mod base;
          fracStr = stripZeros (padStart0 decimals (toString10 frac));
          body = (if fracStr \<noteq> [] then toString10 whole @ ''.'' @ fracStr else toString10 whole)
      in if negative then ''-'' @ body else body)"

definition hasSufficientBalance :: "int \<Rightarrow> int \<Rightarrow> bool" where
  "hasSufficientBalance balanceRaw amountRaw \<longleftrightarrow> amountRaw \<le> balanceRaw \<and> 0 < amountRaw"

section \<open>Runs of digits\<close>

lemma is_digitE:
  assumes "is_digit c"
  obtains d where "d < 10" and "c = hex_digit d"
proof -
  from assms have "48 \<le> (of_char c :: nat)" "(of_char c :: nat) \<le> 57"
    by (auto simp: is_digit_def dec_val_def Let_def split: if_splits)
  then have "of_char c - 48 < (10 :: nat)" and "c = hex_digit (of_char c - 48)"
    by (auto simp: hex_digit_def)
  then show ?thesis by (rule that)
qed

lemma is_digit_hex_digit [simp]: "d < 10 \<Longrightarrow> is_digit (hex_digit d)"
  by (simp add: is_digit_def)

lemma is_digit_neq:
  assumes "is_digit c"
  shows "c \<noteq> CHR ''-''" "c \<noteq> CHR ''+''" "c \<noteq> CHR ''x''" "c \<noteq> CHR ''X''" "c \<noteq> CHR ''o''" "c \<noteq> CHR ''O''"
    "c \<noteq> CHR ''b''" "c \<noteq> CHR ''B''" "\<not> js_space c" "c \<noteq> CHR ''.''"
proof -
  from assms have "48 \<le> (of_char c :: nat)" "(of_char c :: nat) \<le> 57"
    by (auto simp: is_digit_def dec_val_def Let_def split: if_splits)
  then show "c \<noteq> CHR ''-''" "c \<noteq> CHR ''+''" "c \<noteq> CHR ''x''" "c \<noteq> CHR ''X''" "c \<noteq> CHR ''o''" "c \<noteq> CHR ''O''"
    "c \<noteq> CHR ''b''" "c \<noteq> CHR ''B''" "c \<noteq> CHR ''.''" by auto
  from assms show "\<not> js_space c" by (auto elim!: is_digitE)
qed

lemma digits_all [simp]: "list_all is_digit (digits_of 10 n)"
  using set_digits_of[of 10 n] by (auto simp: list_all_iff)

lemma digits_value_some: "list_all is_digit s \<Longrightarrow> \<exists>n. value_of dec_val 10 acc s = Some n"
  by (induction s arbitrary: acc) (auto simp: is_digit_def)

definition decimal :: "string \<Rightarrow> int" where
  "decimal s = int (the (value_of dec_val 10 0 s))"

lemma decimal_digits [simp]: "decimal (digits_of 10 n) = int n"
  by (simp add: decimal_def value_of_digits)

lemma digits_no_prefix:
  assumes "list_all is_digit s" and "c \<in> set p" and "\<not> is_digit c"
  shows "\<not> startsWith p s"
  using assms startsWith_mem[of p s c] by (auto simp: list_all_iff)

lemma BigInt_digits:
  assumes "list_all is_digit s" and "s \<noteq> []"
  shows "BigInt_of s = Inr (decimal s)"
proof -
  have ends: "is_digit (hd s)" "is_digit (last s)" using assms by (simp_all add: list_all_iff)
  then have "trim s = s" using assms(2) is_digit_neq(9) by (intro trim_id) blast+
  moreover obtain n where "value_of dec_val 10 0 s = Some n" using digits_value_some[OF assms(1)] by blast
  moreover have "\<not> is_digit (CHR ''x'')" "\<not> is_digit (CHR ''X'')" "\<not> is_digit (CHR ''o'')" "\<not> is_digit (CHR ''O'')"
      "\<not> is_digit (CHR ''b'')" "\<not> is_digit (CHR ''B'')" "\<not> is_digit (CHR ''-'')" "\<not> is_digit (CHR ''+'')"
    using is_digit_neq by blast+
  moreover have "\<not> startsWith [a, c] s" "\<not> startsWith [c] s" if "\<not> is_digit c" for a c
    using digits_no_prefix[OF assms(1) _ that, of "[a, c]"] digits_no_prefix[OF assms(1) _ that, of "[c]"] by simp_all
  ultimately show ?thesis using assms
    by (simp add: BigInt_of_def parse_bigint_def Let_def digits_value_def decimal_def)
qed

lemma value_of_zeros_end:
  "value_of dec_val 10 acc (replicate k (CHR ''0'')) = Some (acc * 10 ^ k)"
proof (induction k arbitrary: acc)
  case (Suc k)
  have "dec_val (CHR ''0'') = Some 0" by (simp add: dec_val_def)
  with Suc show ?case by (simp add: mult.assoc)
qed simp

lemma decimal_padEnd0:
  assumes "list_all is_digit f" and "length f \<le> k"
  shows "decimal (padEnd0 k f) = decimal f * 10 ^ (k - length f)"
proof -
  obtain n where "value_of dec_val 10 0 f = Some n" using digits_value_some[OF assms(1)] by blast
  then show ?thesis by (simp add: decimal_def padEnd0_def value_of_append value_of_zeros_end)
qed

lemma padEnd0_digits: "list_all is_digit f \<Longrightarrow> list_all is_digit (padEnd0 k f)"
  using is_digit_hex_digit[of 0] by (auto simp: padEnd0_def list_all_iff hex_digit_0)

section \<open>What is read\<close>

definition decimal_text :: "string \<Rightarrow> string \<Rightarrow> string" where
  "decimal_text w f = (if f = [] then w else w @ CHR ''.'' # f)"

lemma decimal_text_props:
  assumes "list_all is_digit w" and "w \<noteq> []" and "list_all is_digit f"
  shows "trim (decimal_text w f) = decimal_text w f" and "decimal_shape (decimal_text w f)"
    and "split_on (CHR ''.'') (decimal_text w f) = (if f = [] then [w] else [w, f])"
proof -
  have w: "is_digit (hd w)" "is_digit (last w)" using assms(1,2) by (simp_all add: list_all_iff)
  have f: "f \<noteq> [] \<Longrightarrow> is_digit (last f)" using assms(3) by (simp add: list_all_iff)
  show "trim (decimal_text w f) = decimal_text w f"
  proof (rule trim_id)
    show "decimal_text w f \<noteq> []" using assms(2) by (simp add: decimal_text_def)
    show "\<not> js_space (hd (decimal_text w f))" "\<not> js_space (last (decimal_text w f))"
      using w f assms(2) is_digit_neq(9) by (auto simp: decimal_text_def)
  qed
  have point: "CHR ''.'' \<notin> set s" if "list_all is_digit s" for s
    using that is_digit_neq(10) by (auto simp: list_all_iff)
  then show "split_on (CHR ''.'') (decimal_text w f) = (if f = [] then [w] else [w, f])"
    using assms(1,3) by (simp add: decimal_text_def split_on_sep split_on_none)
  have np: "\<not> is_digit (CHR ''.'')" using is_digit_neq(10) by blast
  have "takeWhile is_digit (decimal_text w f) = w"
    and "dropWhile is_digit (decimal_text w f) = (if f = [] then [] else CHR ''.'' # f)"
    using assms(1) np by (auto simp: decimal_text_def list_all_iff takeWhile_append2 dropWhile_append2
        takeWhile_eq_all_conv)
  then show "decimal_shape (decimal_text w f)"
    using assms(2,3) by (simp add: decimal_shape_def)
qed

lemma parse_decimal_text:
  assumes "list_all is_digit w" and "w \<noteq> []" and "list_all is_digit f" and "length f \<le> d"
  shows "parseStellarAmount (decimal_text w f) d = Inr (decimal w * 10 ^ d + decimal f * 10 ^ (d - length f))"
proof -
  note p = decimal_text_props[OF assms(1-3)]
  have ne: "decimal_text w f \<noteq> []" using assms(2) by (simp add: decimal_text_def)
  let ?padded = "padEnd0 d f"
  have "BigInt_of (if ?padded = [] then ''0'' else ?padded) = Inr (decimal f * 10 ^ (d - length f))"
  proof (cases "?padded = []")
    case True
    then have "f = []" by (simp add: padEnd0_def)
    with True show ?thesis using parse_bigint_dec[of 0]
      by (simp add: BigInt_of_def decimal_def digits_of.simps[of 10 0] hex_digit_0)
  next
    case False
    then show ?thesis by (simp add: BigInt_digits padEnd0_digits decimal_padEnd0 assms(3,4))
  qed
  moreover have "hd (split_on (CHR ''.'') (decimal_text w f)) = w"
    and "(case tl (split_on (CHR ''.'') (decimal_text w f)) of [] \<Rightarrow> [] | x # _ \<Rightarrow> x) = f"
    using p(3) by simp_all
  ultimately show ?thesis using p(1,2) ne assms
    by (simp only: parseStellarAmount_def Let_def BigInt_digits rbind_simps rmap_simps if_False simp_thms) simp
qed

section \<open>What is written\<close>

lemma stripZeros_padEnd0: "padEnd0 (length s) (stripZeros s) = s"
proof -
  let ?z = "takeWhile (\<lambda>c. c = CHR ''0'') (rev s)"
  have s: "s = stripZeros s @ rev ?z"
    unfolding stripZeros_def by (metis rev_append rev_rev_ident takeWhile_dropWhile_id)
  have "rev ?z = replicate (length ?z) (CHR ''0'')"
    by (rule replicate_eqI) (auto dest: set_takeWhileD)
  moreover have "length ?z = length s - length (stripZeros s)"
    using arg_cong[OF s, of length] by simp
  ultimately show ?thesis using s by (simp add: padEnd0_def)
qed

lemma length_stripZeros: "length (stripZeros s) \<le> length s"
  using length_dropWhile_le[of "\<lambda>c. c = CHR ''0''" "rev s"] by (simp add: stripZeros_def)

lemma stripZeros_digits: "list_all is_digit s \<Longrightarrow> list_all is_digit (stripZeros s)"
  by (auto simp: stripZeros_def list_all_iff dest: set_dropWhileD)

lemma frac_text:
  assumes "f < 10 ^ d" and "s = stripZeros (padStart0 d (digits_of 10 f))"
  shows "list_all is_digit s" and "length s \<le> d" and "decimal s * 10 ^ (d - length s) = int f"
proof -
  let ?p = "padStart0 d (digits_of 10 f)"
  have z: "is_digit (CHR ''0'')" using is_digit_hex_digit[of 0] by (simp add: hex_digit_0)
  have "list_all is_digit ?p" using digits_all[of f] z by (auto simp: padStart0_def list_all_iff)
  then show dg: "list_all is_digit s" unfolding assms(2) by (rule stripZeros_digits)
  have dec: "decimal ?p = int f"
    using value_of_padStart0[of dec_val 10 d "digits_of 10 f"] decimal_digits[of f]
    by (simp add: decimal_def dec_val_def)
  show len: "length s \<le> d"
  proof (cases "d = 0")
    case True
    with assms show ?thesis
      by (simp add: digits_of.simps[of 10 0] hex_digit_0 stripZeros_def)
  next
    case False
    then have "length ?p = d" using length_digits_of[of 10 f d] assms(1) by simp
    then show ?thesis using length_stripZeros[of ?p] assms(2) by simp
  qed
  show "decimal s * 10 ^ (d - length s) = int f"
  proof (cases "d = 0")
    case True
    with assms len show ?thesis by (simp add: decimal_def)
  next
    case False
    then have "length ?p = d" using length_digits_of[of 10 f d] assms(1) by simp
    then have "padEnd0 d s = ?p" using stripZeros_padEnd0[of ?p] assms(2) by simp
    with dec decimal_padEnd0[OF dg len] show ?thesis by simp
  qed
qed

lemma format_text:
  "formatStellarAmount (int n) d
   = decimal_text (digits_of 10 (n div 10 ^ d)) (stripZeros (padStart0 d (digits_of 10 (n mod 10 ^ d))))"
proof -
  have q: "int n div 10 ^ d = int (n div 10 ^ d)" and r: "int n mod 10 ^ d = int (n mod 10 ^ d)"
    by (simp_all add: zdiv_int zmod_int)
  show ?thesis by (simp add: formatStellarAmount_def Let_def q r toString10_def decimal_text_def)
qed

lemma format_confidential:
  "formatConfidentialAmount (int n) d = formatStellarAmount (int n) d"
  "0 < n \<Longrightarrow> formatConfidentialAmount (- int n) d = ''-'' @ formatStellarAmount (int n) d"
  by (simp_all add: formatConfidentialAmount_def formatStellarAmount_def Let_def)

section \<open>Property\<close>

text \<open>
  Reading an amount that was written, with the same number of decimals, gives the amount; so
  different amounts have different texts. The two writers agree on amounts that are not negative.
\<close>

theorem amount_roundtrip:
  "parseStellarAmount (formatStellarAmount (int n) d) d = Inr (int n)
   \<and> parseStellarAmount (formatConfidentialAmount (int n) d) d = Inr (int n)
   \<and> (formatStellarAmount (int n) d = formatStellarAmount (int m) d \<longleftrightarrow> n = m)"
proof -
  have round: "parseStellarAmount (formatStellarAmount (int n) d) d = Inr (int n)" for n
  proof -
    let ?f = "n mod 10 ^ d" and ?s = "stripZeros (padStart0 d (digits_of 10 (n mod 10 ^ d)))"
    have "?f < 10 ^ d" by simp
    note s = frac_text[OF this refl]
    have "parseStellarAmount (decimal_text (digits_of 10 (n div 10 ^ d)) ?s) d
        = Inr (int (n div 10 ^ d) * 10 ^ d + int ?f)"
      using parse_decimal_text[OF digits_all digits_of_ne s(1,2), of "n div 10 ^ d"] s(3) by simp
    moreover have "int (n div 10 ^ d) * 10 ^ d + int ?f = int n"
      using arg_cong[OF div_mult_mod_eq[of n "10 ^ d"], of int] by simp
    ultimately show ?thesis by (simp add: format_text)
  qed
  from round[of n] round[of m] have "formatStellarAmount (int n) d = formatStellarAmount (int m) d \<Longrightarrow> n = m"
    by (metis sum.inject(2) of_nat_eq_iff)
  then have "formatStellarAmount (int n) d = formatStellarAmount (int m) d \<longleftrightarrow> n = m" by blast
  with round[of n] show ?thesis unfolding format_confidential(1) by blast
qed

end
