(* ===== verification/CtAssets.thy ===== *)
theory CtAssets
  imports Config Amounts
begin

text \<open>
  \<^verbatim>\<open>lib/confidentialAssetConfig.ts\<close> and the scoping of a configuration to one asset, as
  \<^verbatim>\<open>lib/confidentialBalance.ts\<close> and \<^verbatim>\<open>lib/confidentialFlow.ts\<close> do it. A number that
  can be \<^verbatim>\<open>NaN\<close> is an optional integer; a member that can be missing is an option again.
  Shown: scoping twice is scoping once, and what the scoping of one asset does to the other.
\<close>

section \<open>Assets\<close>

datatype assetKey = Eurc | Usdc

datatype settlementAsset = RwaAsset | UsdcAsset | EurcAsset

fun key_text :: "assetKey \<Rightarrow> string" where
  "key_text Eurc = ''eurc''"
| "key_text Usdc = ''usdc''"

record assetContracts =
  ct_token :: string
  ct_verifier :: string
  ct_auditor :: string
  ct_policy :: string
  ct_underlying :: string
  ct_auditorIdNum :: "int option"
  ct_deployedAtLedger :: "int option"

record assetConfig =
  as_key :: assetKey
  as_label :: string
  as_assetCode :: string
  as_settlementAsset :: settlementAsset
  as_publicSacId :: "string option"
  as_contracts :: "assetContracts option"

section \<open>Resolving\<close>

definition readOptionalEnv :: "env \<Rightarrow> string \<Rightarrow> string option" where
  "readOptionalEnv env name = (if \<not> truthy (env name) then None
     else let trimmed = trim (the (env name)) in if trimmed = [] then None else Some trimmed)"

text \<open>\<^verbatim>\<open>a ?? b\<close> where both can be missing.\<close>

definition coalesce :: "'a option \<Rightarrow> 'a option \<Rightarrow> 'a option" where
  "coalesce a b = (case a of Some x \<Rightarrow> Some x | None \<Rightarrow> b)"

lemma coalesce_simps [simp]: "coalesce None b = b" "coalesce (Some x) b = Some x"
  by (simp_all add: coalesce_def)

lemma coalesce_assoc: "coalesce (coalesce a b) c = coalesce a (coalesce b c)"
  by (cases a) simp_all

definition contractsFromFields where
  "contractsFromFields token verifier auditor policy underlying auditorIdNum deployedAtLedger =
     (if truthy token \<and> truthy verifier \<and> truthy auditor \<and> truthy policy \<and> truthy underlying
      then Some \<lparr>ct_token = the token, ct_verifier = the verifier, ct_auditor = the auditor, ct_policy = the policy,
        ct_underlying = the underlying, ct_auditorIdNum = given auditorIdNum (Some 1),
        ct_deployedAtLedger = deployedAtLedger\<rparr>
      else None)"

definition stack_of :: "deploymentConfig \<Rightarrow> string \<Rightarrow> tokenStack option" where
  "stack_of config key = (case confidentialTokens config of None \<Rightarrow> None | Some m \<Rightarrow> map_of m key)"

definition resolveEurcAsset :: "deploymentConfig \<Rightarrow> assetConfig" where
  "resolveEurcAsset config =
     (let stack = stack_of config ''eurc''; of_stack = (\<lambda>sel. map_option sel stack) in
      \<lparr>as_key = Eurc, as_label = ''EURC'', as_assetCode = ''EURC'', as_settlementAsset = EurcAsset,
       as_publicSacId = eurcSacId config,
       as_contracts = contractsFromFields
         (coalesce (of_stack st_token) (confidentialTokenId config))
         (coalesce (of_stack st_verifier) (confidentialVerifierId config))
         (coalesce (of_stack st_auditor) (confidentialAuditorId config))
         (coalesce (of_stack st_policy) (confidentialPolicyId config))
         (coalesce (of_stack st_underlying) (coalesce (confidentialUnderlyingId config) (eurcSacId config)))
         (coalesce (map_option (\<lambda>s. Some (st_auditorIdNum s)) stack) (confidentialAuditorIdNum config))
         (coalesce (case stack of None \<Rightarrow> None | Some s \<Rightarrow> st_deployedAtLedger s) (confidentialDeployedAtLedger config))\<rparr>)"

definition resolveUsdcAsset :: "env \<Rightarrow> deploymentConfig \<Rightarrow> assetConfig" where
  "resolveUsdcAsset env config =
     (let stack = stack_of config ''usdc''; of_stack = (\<lambda>sel. map_option sel stack); opt = readOptionalEnv env;
          ledger = (case opt ''VITE_CONFIDENTIAL_USDC_DEPLOYED_AT_LEDGER'' of Some t \<Rightarrow> Number_of t
            | None \<Rightarrow> Some (given (case stack of None \<Rightarrow> None | Some s \<Rightarrow> st_deployedAtLedger s) 0)) in
      \<lparr>as_key = Usdc, as_label = ''USDC'', as_assetCode = ''USDC'', as_settlementAsset = UsdcAsset,
       as_publicSacId = Some (usdcSacId config),
       as_contracts = contractsFromFields
         (coalesce (opt ''VITE_CONFIDENTIAL_USDC_TOKEN_ID'') (of_stack st_token))
         (coalesce (opt ''VITE_CONFIDENTIAL_USDC_VERIFIER_ID'') (of_stack st_verifier))
         (coalesce (opt ''VITE_CONFIDENTIAL_USDC_AUDITOR_ID'') (of_stack st_auditor))
         (coalesce (opt ''VITE_CONFIDENTIAL_USDC_POLICY_ID'') (of_stack st_policy))
         (coalesce (of_stack st_underlying) (Some (usdcSacId config)))
         (Some (case opt ''VITE_CONFIDENTIAL_USDC_AUDITOR_ID_NUM'' of Some t \<Rightarrow> Number_of t
            | None \<Rightarrow> Some (given (map_option st_auditorIdNum stack) 1)))
         (if ledger = Some 0 then None else ledger)\<rparr>)"

fun resolveConfidentialAsset :: "env \<Rightarrow> deploymentConfig \<Rightarrow> assetKey \<Rightarrow> assetConfig" where
  "resolveConfidentialAsset env config Eurc = resolveEurcAsset config"
| "resolveConfidentialAsset env config Usdc = resolveUsdcAsset env config"

definition listConfidentialAssets :: "env \<Rightarrow> deploymentConfig \<Rightarrow> assetConfig list" where
  "listConfidentialAssets env config = map (resolveConfidentialAsset env config) [Eurc, Usdc]"

definition confidentialAssetReady :: "env \<Rightarrow> deploymentConfig \<Rightarrow> assetKey \<Rightarrow> bool" where
  "confidentialAssetReady env config key \<longleftrightarrow> as_contracts (resolveConfidentialAsset env config key) \<noteq> None"

fun key_of_asset :: "settlementAsset \<Rightarrow> assetKey option" where
  "key_of_asset EurcAsset = Some Eurc"
| "key_of_asset UsdcAsset = Some Usdc"
| "key_of_asset RwaAsset = None"

definition confidentialAssetForSettlement :: "env \<Rightarrow> deploymentConfig \<Rightarrow> settlementAsset \<Rightarrow> assetConfig option" where
  "confidentialAssetForSettlement env config asset = (case key_of_asset asset of None \<Rightarrow> None
     | Some key \<Rightarrow> let row = resolveConfidentialAsset env config key in
         if as_contracts row \<noteq> None then Some row else None)"

section \<open>Scoping\<close>

definition withConfidentialContracts :: "deploymentConfig \<Rightarrow> assetConfig \<Rightarrow> deploymentConfig" where
  "withConfidentialContracts config asset = (case as_contracts asset of None \<Rightarrow> config
     | Some c \<Rightarrow> config\<lparr>confidentialTokenId := Some (ct_token c), confidentialVerifierId := Some (ct_verifier c),
         confidentialAuditorId := Some (ct_auditor c), confidentialPolicyId := Some (ct_policy c),
         confidentialUnderlyingId := Some (ct_underlying c), confidentialAuditorIdNum := Some (ct_auditorIdNum c),
         confidentialDeployedAtLedger := ct_deployedAtLedger c\<rparr>)"

definition ctConfigForAsset :: "env \<Rightarrow> deploymentConfig \<Rightarrow> assetKey \<Rightarrow> deploymentConfig res" where
  "ctConfigForAsset env config key =
     (let asset = resolveConfidentialAsset env config key in
      if as_contracts asset = None then Inl (Refused (as_label asset @ '' confidential token is not configured.''))
      else Inr (withConfidentialContracts config asset))"

definition assetLabel :: "env \<Rightarrow> deploymentConfig \<Rightarrow> assetKey \<Rightarrow> string" where
  "assetLabel env config key = as_assetCode (resolveConfidentialAsset env config key)"

lemma contractsFromFields_Some:
  "contractsFromFields t v a p u n l = Some c \<longleftrightarrow>
   truthy t \<and> truthy v \<and> truthy a \<and> truthy p \<and> truthy u \<and> t = Some (ct_token c) \<and> v = Some (ct_verifier c)
   \<and> a = Some (ct_auditor c) \<and> p = Some (ct_policy c) \<and> u = Some (ct_underlying c)
   \<and> ct_auditorIdNum c = given n (Some 1) \<and> ct_deployedAtLedger c = l"
  by (cases c) (auto simp: contractsFromFields_def truthy_def split: option.splits)

lemma stack_of_scoped [simp]: "stack_of (withConfidentialContracts config asset) key = stack_of config key"
  by (simp add: stack_of_def withConfidentialContracts_def split: option.splits)

lemma scoped_sel:
  assumes "as_contracts asset = Some c"
  shows "confidentialTokenId (withConfidentialContracts config asset) = Some (ct_token c)"
    "confidentialVerifierId (withConfidentialContracts config asset) = Some (ct_verifier c)"
    "confidentialAuditorId (withConfidentialContracts config asset) = Some (ct_auditor c)"
    "confidentialPolicyId (withConfidentialContracts config asset) = Some (ct_policy c)"
    "confidentialUnderlyingId (withConfidentialContracts config asset) = Some (ct_underlying c)"
    "confidentialAuditorIdNum (withConfidentialContracts config asset) = Some (ct_auditorIdNum c)"
    "confidentialDeployedAtLedger (withConfidentialContracts config asset) = ct_deployedAtLedger c"
    "eurcSacId (withConfidentialContracts config asset) = eurcSacId config"
    "usdcSacId (withConfidentialContracts config asset) = usdcSacId config"
  using assms by (simp_all add: withConfidentialContracts_def)

lemma usdc_unscoped: "resolveUsdcAsset env (withConfidentialContracts config asset) = resolveUsdcAsset env config"
  by (simp add: resolveUsdcAsset_def) (simp add: withConfidentialContracts_def split: option.splits)

lemma eurc_scoped:
  assumes "as_contracts (resolveEurcAsset config) = Some c"
  shows "resolveEurcAsset (withConfidentialContracts config (resolveEurcAsset config)) = resolveEurcAsset config"
proof -
  note c = assms[unfolded resolveEurcAsset_def Let_def assetConfig.simps contractsFromFields_Some]
  obtain cfg where cfg: "cfg = withConfidentialContracts config (resolveEurcAsset config)" by simp
  note s = scoped_sel[OF assms, of config, folded cfg]
  have st: "stack_of cfg ''eurc'' = stack_of config ''eurc''" by (simp add: cfg)
  have "as_contracts (resolveEurcAsset cfg) = Some c"
    using c by (cases "stack_of config ''eurc''")
      (auto simp: resolveEurcAsset_def Let_def contractsFromFields_Some st s coalesce_def split: option.splits)
  with assms have "as_contracts (resolveEurcAsset cfg) = as_contracts (resolveEurcAsset config)" by simp
  then show ?thesis unfolding cfg[symmetric] by (simp add: resolveEurcAsset_def Let_def s(8))
qed

lemma scoped_again: "withConfidentialContracts (withConfidentialContracts config a) a = withConfidentialContracts config a"
  by (simp add: withConfidentialContracts_def split: option.splits)

section \<open>Property\<close>

lemma config_scoped_again:
  assumes "ctConfigForAsset env config key = Inr scoped"
  shows "ctConfigForAsset env scoped key = Inr scoped"
    and "resolveConfidentialAsset env scoped key = resolveConfidentialAsset env config key"
proof -
  let ?a = "resolveConfidentialAsset env config key"
  from assms obtain c where c: "as_contracts ?a = Some c" and scoped: "scoped = withConfidentialContracts config ?a"
    by (auto simp: ctConfigForAsset_def Let_def split: if_splits)
  show same: "resolveConfidentialAsset env scoped key = ?a"
    using c eurc_scoped[of config c] by (cases key) (simp_all add: scoped usdc_unscoped)
  then show "ctConfigForAsset env scoped key = Inr scoped"
    using c scoped_again[of config ?a] by (simp add: ctConfigForAsset_def Let_def scoped)
qed

text \<open>
  Scoping a configuration to an asset gives one with the three contracts set; scoping it again
  to the same asset changes nothing, and it still resolves the USDC asset as before. The EURC asset
  does not survive the other scoping: without a stack of its own it then resolves to the contracts
  of USDC.
\<close>

theorem scoping_idempotent:
  assumes "ctConfigForAsset env config key = Inr scoped"
  shows "ctConfigForAsset env scoped key = Inr scoped
    \<and> truthy (confidentialTokenId scoped) \<and> truthy (confidentialVerifierId scoped) \<and> truthy (confidentialAuditorId scoped)
    \<and> resolveConfidentialAsset env scoped key = resolveConfidentialAsset env config key
    \<and> resolveConfidentialAsset env scoped Usdc = resolveConfidentialAsset env config Usdc
    \<and> (key = Usdc \<and> stack_of config ''eurc'' = None
       \<longrightarrow> as_contracts (resolveConfidentialAsset env scoped Eurc) = as_contracts (resolveConfidentialAsset env config Usdc))"
proof -
  let ?a = "resolveConfidentialAsset env config key"
  from assms obtain c where c: "as_contracts ?a = Some c" and scoped: "scoped = withConfidentialContracts config ?a"
    by (auto simp: ctConfigForAsset_def Let_def split: if_splits)
  note s = scoped_sel[OF c, of config, folded scoped]
  have t: "truthy (Some (ct_token c))" "truthy (Some (ct_verifier c))" "truthy (Some (ct_auditor c))"
      "truthy (Some (ct_policy c))" "truthy (Some (ct_underlying c))"
    using c by (cases key; auto simp: resolveEurcAsset_def resolveUsdcAsset_def Let_def contractsFromFields_Some)+
  have same: "resolveConfidentialAsset env scoped key = ?a" and "ctConfigForAsset env scoped key = Inr scoped"
    using config_scoped_again[OF assms] by simp_all
  moreover have "resolveConfidentialAsset env scoped Usdc = resolveConfidentialAsset env config Usdc"
    by (simp add: scoped usdc_unscoped)
  moreover have "as_contracts (resolveConfidentialAsset env scoped Eurc) = Some c"
    if "key = Usdc" "stack_of config ''eurc'' = None"
    using that t by (simp add: resolveEurcAsset_def Let_def s scoped[symmetric] contractsFromFields_def)
      (simp add: scoped)
  ultimately show ?thesis using t same c by (auto simp: s)
qed

text \<open>A configuration with one stack of contracts, for EURC, and no issuer service.\<close>

definition ct_token_id :: string where
  "ct_token_id = replicate 56 (CHR ''C'')"

definition ct_stack :: tokenStack where
  "ct_stack = \<lparr>st_token = ct_token_id, st_verifier = ''CV'', st_auditor = ''CA'', st_policy = ''CP'',
     st_underlying = ''CU'', st_auditorIdNum = 1, st_deployedAtLedger = Some 100\<rparr>"

definition ct_config :: deploymentConfig where
  "ct_config = (config_record demo_valid demo_deployments (\<lambda>_. None) ''rpc'' ''horizon'' ''Test SDF'' []
     ''CIR'' ''CCR'' ''CPV'' ''CRT'' ''marketplace'' ''CAD'' None None None None ''CN'' None None
     None None None None None)\<lparr>confidentialTokens := Some [(''eurc'', ct_stack)]\<rparr>"

definition ct_scoped :: deploymentConfig where
  "ct_scoped = withConfidentialContracts ct_config (resolveEurcAsset ct_config)"

lemma ct_stack_sel [simp]:
  "st_token ct_stack = ct_token_id" "st_verifier ct_stack = ''CV''" "st_auditor ct_stack = ''CA''"
  "st_policy ct_stack = ''CP''" "st_underlying ct_stack = ''CU''" "st_auditorIdNum ct_stack = 1"
  "st_deployedAtLedger ct_stack = Some 100"
  by (simp_all add: ct_stack_def)

lemma ct_token_id_ne [simp]: "ct_token_id \<noteq> []" "length ct_token_id = 56"
  by (simp_all add: ct_token_id_def)

lemma ct_config_sel [simp]:
  "confidentialTokens ct_config = Some [(''eurc'', ct_stack)]" "rpcUrl ct_config = ''rpc''"
  "networkPassphrase ct_config = ''Test SDF''" "issuerServiceUrl ct_config = []" "confidentialIndexerUrl ct_config = None"
  by (simp_all add: ct_config_def config_record_def Let_def optionalViteEnv_def)

lemma ct_contracts:
  "as_contracts (resolveEurcAsset ct_config) = Some \<lparr>ct_token = ct_token_id, ct_verifier = ''CV'', ct_auditor = ''CA'',
     ct_policy = ''CP'', ct_underlying = ''CU'', ct_auditorIdNum = Some 1, ct_deployedAtLedger = Some 100\<rparr>"
  by (simp add: resolveEurcAsset_def stack_of_def contractsFromFields_def truthy_def)

lemmas ct_scoped_sel = scoped_sel[OF ct_contracts, of ct_config, folded ct_scoped_def, simplified]

lemma ct_scoped_Inr: "ctConfigForAsset env ct_config Eurc = Inr ct_scoped"
  using ct_contracts by (simp add: ctConfigForAsset_def Let_def ct_scoped_def)

lemma ct_scoped_again: "ctConfigForAsset env ct_scoped Eurc = Inr ct_scoped"
  using ct_contracts eurc_scoped[OF ct_contracts] scoped_again[of ct_config "resolveEurcAsset ct_config"]
  by (simp add: ctConfigForAsset_def Let_def ct_scoped_def)

theorem scoping_idempotent_witness:
  "ctConfigForAsset (\<lambda>_. None) ct_scoped Eurc = Inr ct_scoped
   \<and> resolveConfidentialAsset (\<lambda>_. None) ct_scoped Eurc = resolveConfidentialAsset (\<lambda>_. None) ct_config Eurc"
  using scoping_idempotent[OF ct_scoped_Inr[of "\<lambda>_. None"]] by blast

end
