(* ===== verification/CtAccounts.thy ===== *)
theory CtAccounts
  imports Reconcile CtAssets
begin

text \<open>
  \<^verbatim>\<open>lib/retry.ts\<close>, \<^verbatim>\<open>lib/ctRegistration.ts\<close> and the keys of
  \<^verbatim>\<open>lib/confidentialFlow.ts\<close>: whether an account of the confidential token is registered, on
  chain and on this device, and the key pair this device keeps for it. The world is the page (its
  \<^verbatim>\<open>localStorage\<close> and the provers it has loaded) and the network. A \<^verbatim>\<open>ctEnv\<close>
  holds what is not in the repository: the curve, the servers, the randomness, the clock and the
  proving library. Shown: the registration is read with one attempt, stored keys are never replaced,
  and the keys of an account are stable.
\<close>

section \<open>Retries\<close>

definition retryDelay :: "nat \<Rightarrow> int \<Rightarrow> int \<Rightarrow> int \<Rightarrow> int" where
  "retryDelay attempt baseDelayMs maxDelayMs jitter =
     min maxDelayMs (baseDelayMs * 2 ^ (attempt - 1)) + jitter"

text \<open>
  The loop, from attempt \<^verbatim>\<open>a\<close> on with the given number of attempts left; the waits between
  the attempts change nothing. Without any attempt the last error is \<^verbatim>\<open>undefined\<close>.
\<close>

fun retry_loop :: "('w, 'a) io \<Rightarrow> (js_error \<Rightarrow> nat \<Rightarrow> bool) \<Rightarrow> nat \<Rightarrow> nat \<Rightarrow> ('w, 'a) io" where
  "retry_loop f shouldRetry a 0 = io_throw (Refused ''undefined'')"
| "retry_loop f shouldRetry a (Suc n) =
     io_catch f (\<lambda>e. if \<not> shouldRetry e a \<or> n = 0 then io_throw e else retry_loop f shouldRetry (a + 1) n)"

definition withRetry :: "('w, 'a) io \<Rightarrow> (js_error \<Rightarrow> nat \<Rightarrow> bool) option \<Rightarrow> nat option \<Rightarrow> ('w, 'a) io" where
  "withRetry f shouldRetry attempts = retry_loop f (given shouldRetry (\<lambda>e a. True)) 1 (given attempts 5)"

text \<open>A call that does not throw is made once.\<close>

lemma retry_quiet:
  assumes "\<And>w. \<exists>x w'. f w = Some (Inr x, w')" and "given attempts 5 \<noteq> 0"
  shows "withRetry f shouldRetry attempts = f"
proof
  fix w
  obtain x w' where "f w = Some (Inr x, w')" using assms(1) by blast
  moreover obtain n where "given attempts 5 = Suc n" using assms(2) by (cases "given attempts 5") auto
  ultimately show "withRetry f shouldRetry attempts w = f w" by (simp add: withRetry_def io_catch_apply)
qed

section \<open>The page and its surroundings\<close>

type_synonym webStorage = "(string \<times> string) list option"

record page =
  pa_storage :: webStorage
  pa_provers :: "(string \<times> string res) list"

definition getItem :: "string \<Rightarrow> page \<Rightarrow> string option" where
  "getItem key page = (case pa_storage page of None \<Rightarrow> None | Some items \<Rightarrow> map_of items key)"

definition setItem :: "string \<Rightarrow> string \<Rightarrow> page \<Rightarrow> page" where
  "setItem key value page = page\<lparr>pa_storage := map_option (put key value) (pa_storage page)\<rparr>"

definition removeItem :: "string \<Rightarrow> page \<Rightarrow> page" where
  "removeItem key page = page\<lparr>pa_storage := map_option (filter (\<lambda>kv. fst kv \<noteq> key)) (pa_storage page)\<rparr>"

record ('p, 'n) ctEnv =
  ce_K :: "'p prims"
  ce_vite :: env
  ce_server :: "string \<Rightarrow> string \<Rightarrow> 'n chainServer"
  ce_indexerApi :: "'n indexerApi"
  ce_ctApi :: "'n ctApi"
  ce_txStatus :: "string \<Rightarrow> string \<Rightarrow> 'n \<Rightarrow> string option httpResponse res \<times> 'n"
  ce_random :: "'n \<Rightarrow> byte list list \<times> 'n"
  ce_now :: "'n \<Rightarrow> int \<times> 'n"
  ce_noirInit :: "'n \<Rightarrow> unit res \<times> 'n"
  ce_circuit :: "string \<Rightarrow> 'n \<Rightarrow> string httpResponse res \<times> 'n"
  ce_newProver :: "string \<Rightarrow> string res"
  ce_prove :: "string \<Rightarrow> noirInputs \<Rightarrow> 'n \<Rightarrow> byte list res \<times> 'n"
  ce_toXDR :: "scval \<Rightarrow> byte list"
  ce_deployer :: string

definition on_page :: "(page \<Rightarrow> 'a) \<Rightarrow> (page \<times> 'n, 'a) io" where
  "on_page f = (\<lambda>(p, n). Some (Inr (f p), (p, n)))"

definition to_page :: "(page \<Rightarrow> page) \<Rightarrow> (page \<times> 'n, unit) io" where
  "to_page f = (\<lambda>(p, n). Some (Inr (), (f p, n)))"

definition draw :: "('n \<Rightarrow> 'a \<times> 'n) \<Rightarrow> (page \<times> 'n, 'a) io" where
  "draw d = (\<lambda>(p, n). case d n of (x, n') \<Rightarrow> Some (Inr x, (p, n')))"

lemma page_io_apply [io_simps]:
  "on_page f (p, n) = Some (Inr (f p), (p, n))"
  "to_page g (p, n) = Some (Inr (), (g p, n))"
  "draw d (p, n) = (case d n of (x, n') \<Rightarrow> Some (Inr x, (p, n')))"
  by (simp_all add: on_page_def to_page_def draw_def)

lemma page_io_post [io_wp]:
  "io_post (on_page f) (p, n) Q \<longleftrightarrow> Q (Inr (f p)) (p, n)"
  "io_post (to_page g) (p, n) U \<longleftrightarrow> U (Inr ()) (g p, n)"
  "io_post (draw d) (p, n) D \<longleftrightarrow> (case d n of (x, n') \<Rightarrow> D (Inr x) (p, n'))"
  by (auto simp: io_post_def io_simps split: prod.splits option.splits)

text \<open>What the network and the clock do leaves the page alone.\<close>

abbreviation page_keeps :: "('s \<Rightarrow> bool) \<Rightarrow> ('s \<times> 'n, 'a) io \<Rightarrow> bool" where
  "page_keeps J m \<equiv> keeps (\<lambda>w. J (fst w)) m"

lemma page_keeps_net [keeps_intros]: "page_keeps J (net_io m)"
  by (rule keepsI) (auto simp: io_post_def net_io_def split: prod.splits option.splits)

lemma page_keeps_page [keeps_intros]: "page_keeps J (on_page f)" "page_keeps J (draw d)"
  by (auto intro!: keepsI simp: io_wp split: prod.splits)

lemma page_keeps_to_page [keeps_intros]: "(\<And>p. J p \<Longrightarrow> J (g p)) \<Longrightarrow> page_keeps J (to_page g)"
  by (auto intro!: keepsI simp: io_wp)

lemma getItem_setItem:
  "getItem k (setItem k' v p) = (if k = k' \<and> pa_storage p \<noteq> None then Some v else getItem k p)"
  by (cases "pa_storage p") (auto simp: getItem_def setItem_def map_of_put)

lemma pa_storage_setItem [simp]: "pa_storage (setItem k v p) = None \<longleftrightarrow> pa_storage p = None"
  by (simp add: setItem_def)

section \<open>The client of a configuration\<close>

definition ct_configured :: "deploymentConfig \<Rightarrow> bool" where
  "ct_configured config \<longleftrightarrow> truthy (confidentialTokenId config) \<and> truthy (confidentialVerifierId config)
     \<and> truthy (confidentialAuditorId config)"

definition ctContracts :: "deploymentConfig \<Rightarrow> contractIds" where
  "ctContracts config = \<lparr>c_token = the (confidentialTokenId config),
     c_verifier = the (confidentialVerifierId config), c_auditor = the (confidentialAuditorId config)\<rparr>"

definition requireCtConfig :: "deploymentConfig \<Rightarrow> contractIds res" where
  "requireCtConfig config = (if \<not> ct_configured config
     then Inl (Refused ''Confidential token contracts are not configured for this deployment.'')
     else Inr (ctContracts config))"

lemma ctContracts_token [simp]: "c_token (ctContracts config) = the (confidentialTokenId config)"
  by (simp add: ctContracts_def)

definition client_for :: "('p, 'n) ctEnv \<Rightarrow> deploymentConfig \<Rightarrow> contractIds \<Rightarrow> 'n chainClient" where
  "client_for E config contracts =
     \<lparr>cc_server = ce_server E (rpcUrl config) (networkPassphrase config), cc_contracts = contracts\<rparr>"

definition ctChainClient :: "('p, 'n) ctEnv \<Rightarrow> deploymentConfig \<Rightarrow> 'n chainClient res" where
  "ctChainClient E config = rmap (client_for E config) (requireCtConfig config)"

text \<open>The same of \<^verbatim>\<open>ctRegistration.ts\<close> and \<^verbatim>\<open>confidentialBalance.ts\<close>, with its own message.\<close>

definition registrationClient :: "('p, 'n) ctEnv \<Rightarrow> deploymentConfig \<Rightarrow> 'n chainClient res" where
  "registrationClient E config = (if \<not> ct_configured config
     then Inl (Refused ''Confidential token contracts are not configured.'')
     else Inr (client_for E config (ctContracts config)))"

section \<open>Registration\<close>

definition localRegistrationKey :: "string \<Rightarrow> string \<Rightarrow> string" where
  "localRegistrationKey smartAccount tokenId = ''lumengate:ct:registered:'' @ tokenId @ '':'' @ smartAccount"

definition markCtRegisteredLocally :: "('p, 'n) ctEnv \<Rightarrow> string \<Rightarrow> string \<Rightarrow> (page \<times> 'n, unit) io" where
  "markCtRegisteredLocally E smartAccount tokenId =
     io_bind (on_page pa_storage) (\<lambda>s. if s = None then io_return ()
       else io_bind (draw (ce_now E)) (\<lambda>now.
         to_page (setItem (localRegistrationKey smartAccount tokenId) (toString10 now))))"

definition clearCtRegisteredLocally :: "string \<Rightarrow> string \<Rightarrow> page \<Rightarrow> page" where
  "clearCtRegisteredLocally smartAccount tokenId = removeItem (localRegistrationKey smartAccount tokenId)"

definition isCtRegisteredLocally :: "string \<Rightarrow> string \<Rightarrow> page \<Rightarrow> bool" where
  "isCtRegisteredLocally smartAccount tokenId page \<longleftrightarrow> getItem (localRegistrationKey smartAccount tokenId) page \<noteq> None"

definition readCtRegisteredOnChain :: "('p, 'n) ctEnv \<Rightarrow> deploymentConfig \<Rightarrow> string \<Rightarrow> (page \<times> 'n, bool) io" where
  "readCtRegisteredOnChain E config smartAccount =
     (if \<not> truthy (confidentialTokenId config) then io_return False
      else io_catch
        (io_bind (io_res (registrationClient E config)) (\<lambda>client.
           withRetry (net_io (isRegistered (ce_K E) client smartAccount)) None (Some 4)))
        (\<lambda>e. io_return False))"

definition stateKey :: "string \<Rightarrow> string \<Rightarrow> string" where
  "stateKey tokenId smartAccount = ''lumengate:ct:state:'' @ tokenId @ '':'' @ smartAccount"

definition isCtRegisteredInStateStore :: "string \<Rightarrow> string \<Rightarrow> page \<Rightarrow> bool" where
  "isCtRegisteredInStateStore smartAccount tokenId page =
     (let raw = getItem (stateKey tokenId smartAccount) page in
      if \<not> truthy raw then False
      else case JSON_parse (the raw) of None \<Rightarrow> False | Some j \<Rightarrow> js_truthy (obj_get j ''registered''))"

record registrationStatus =
  rs_onChain :: bool
  rs_local :: bool
  rs_registered :: bool

definition readCtRegistrationStatus ::
  "('p, 'n) ctEnv \<Rightarrow> deploymentConfig \<Rightarrow> string \<Rightarrow> (page \<times> 'n, registrationStatus) io" where
  "readCtRegistrationStatus E config smartAccount =
     (if \<not> truthy (confidentialTokenId config)
      then io_return \<lparr>rs_onChain = False, rs_local = False, rs_registered = False\<rparr>
      else let tokenId = the (confidentialTokenId config) in
        io_bind (on_page (isCtRegisteredLocally smartAccount tokenId)) (\<lambda>local.
        io_bind (on_page (isCtRegisteredInStateStore smartAccount tokenId)) (\<lambda>stateRegistered.
        io_bind (readCtRegisteredOnChain E config smartAccount) (\<lambda>onChain.
        io_bind (if onChain \<or> stateRegistered then markCtRegisteredLocally E smartAccount tokenId else io_return ()) (\<lambda>u.
        io_return \<lparr>rs_onChain = onChain, rs_local = (local \<or> stateRegistered \<or> onChain),
          rs_registered = (onChain \<or> local \<or> stateRegistered)\<rparr>)))))"

section \<open>Keys\<close>

definition ctKeysStorageKey :: "string \<Rightarrow> string \<Rightarrow> string" where
  "ctKeysStorageKey smartAccount tokenId = ''lumengate:ct:keys:'' @ smartAccount @ '':'' @ tokenId"

definition keysJson :: "serializedKeyPair \<Rightarrow> json" where
  "keysJson d = JObj [(''sk'', JStr (s_sk d)), (''addrF'', JStr (s_addrF d))]"

definition loadCtKeys :: "'p prims \<Rightarrow> string \<Rightarrow> string \<Rightarrow> page \<Rightarrow> 'p keyPair option" where
  "loadCtKeys K smartAccount tokenId page =
     (let raw = getItem (ctKeysStorageKey smartAccount tokenId) page in
      if \<not> truthy raw then None
      else case JSON_parse (the raw) of None \<Rightarrow> None
        | Some j \<Rightarrow> catch (rmap Some (rbind (as_str (obj_get j ''sk'')) (\<lambda>sk.
            rbind (as_str (obj_get j ''addrF'')) (\<lambda>a. deserializeKeys K \<lparr>s_sk = sk, s_addrF = a\<rparr>)))) None)"

definition saveCtKeys :: "string \<Rightarrow> string \<Rightarrow> 'p keyPair \<Rightarrow> page \<Rightarrow> page" where
  "saveCtKeys smartAccount tokenId keys =
     setItem (ctKeysStorageKey smartAccount tokenId) (stringify [] [] (keysJson (serializeKeys keys)))"

text \<open>\<^verbatim>\<open>generateKeys\<close> with the samples the device draws; it does not return while all are rejected.\<close>

definition newCtKeys :: "('p, 'n) ctEnv \<Rightarrow> string \<Rightarrow> string \<Rightarrow> int \<Rightarrow> (page \<times> 'n, 'p keyPair) io" where
  "newCtKeys E smartAccount tokenId addrF =
     io_bind (draw (ce_random E)) (\<lambda>samples.
     io_bind (\<lambda>w. case generateKeys (ce_K E) samples addrF of None \<Rightarrow> None | Some (keys, rest) \<Rightarrow> Some (Inr keys, w)) (\<lambda>keys.
     io_bind (to_page (saveCtKeys smartAccount tokenId keys)) (\<lambda>u. io_return keys)))"

definition keysLocked :: js_error where
  "keysLocked = Refused (''Private keys on this device cannot be replaced after registration. '' @
     ''Clear Lumengate site data only if support asks you to reset this account.'')"

definition getOrCreateCtKeys :: "('p, 'n) ctEnv \<Rightarrow> deploymentConfig \<Rightarrow> string \<Rightarrow> (page \<times> 'n, 'p keyPair) io" where
  "getOrCreateCtKeys E config smartAccount =
     io_bind (io_res (requireCtConfig config)) (\<lambda>contracts.
     let tokenId = c_token contracts in
     io_bind (io_res (addressToField (permute (ce_K E)) tokenId)) (\<lambda>addrF.
     io_bind (on_page (loadCtKeys (ce_K E) smartAccount tokenId)) (\<lambda>existing.
     case existing of
       Some keys \<Rightarrow>
         if k_addrF keys \<noteq> addrF then
           io_bind (on_page (isCtRegisteredLocally smartAccount tokenId)) (\<lambda>registered.
             if registered then io_throw keysLocked else newCtKeys E smartAccount tokenId addrF)
         else io_return keys
     | None \<Rightarrow> newCtKeys E smartAccount tokenId addrF)))"

definition keysMismatch :: js_error where
  "keysMismatch = Refused (''Private keys on this device do not match your on-chain account. '' @
     ''Create a fresh smart account on this device to use confidential settlement.'')"

definition keysMissingLocal :: js_error where
  "keysMissingLocal = Refused (''Private registration was started on this device, but the local key material is missing. '' @
     ''Create a fresh smart account and register again.'')"

definition keysMissing :: js_error where
  "keysMissing = Refused (''This smart account is registered for confidential settlement, but this browser is missing '' @
     ''the local key material needed to open your balance.'')"

definition resolveCtKeys :: "('p, 'n) ctEnv \<Rightarrow> deploymentConfig \<Rightarrow> string \<Rightarrow> (page \<times> 'n, 'p keyPair) io" where
  "resolveCtKeys E config smartAccount =
     io_bind (io_res (requireCtConfig config)) (\<lambda>contracts.
     let tokenId = c_token contracts in
     io_bind (on_page (loadCtKeys (ce_K E) smartAccount tokenId)) (\<lambda>existing.
     io_bind (readCtRegistrationStatus E config smartAccount) (\<lambda>registration.
     if \<not> rs_registered registration then getOrCreateCtKeys E config smartAccount
     else
       io_bind (io_res (ctChainClient E config)) (\<lambda>client.
       io_bind (if rs_onChain registration then net_io (confidentialBalance (ce_K E) client smartAccount)
                else io_return None) (\<lambda>onchain.
       if rs_onChain registration \<and> onchain = None then getOrCreateCtKeys E config smartAccount
       else case existing of
         Some keys \<Rightarrow> (case onchain of
             Some acc \<Rightarrow> io_bind (io_res (equals_member (ce_K E) (k_PVK keys) (oc_viewingPublicKey acc))) (\<lambda>same.
               if \<not> same then io_throw keysMismatch else io_return keys)
           | None \<Rightarrow> io_return keys)
       | None \<Rightarrow> if rs_local registration then io_throw keysMissingLocal else io_throw keysMissing)))))"

section \<open>What the reading of the registration does\<close>

lemma isRegistered_quiet: "\<exists>b n'. isRegistered K client a n = Some (Inr b, n')"
  using confidentialBalance_total[of K client a n] by (auto simp: isRegistered_def io_simps)

lemma net_quiet:
  assumes "\<And>n. \<exists>b n'. m n = Some (Inr b, n')"
  shows "\<exists>b w'. net_io m w = Some (Inr b, w')"
proof (cases w)
  case (Pair s n)
  with assms[of n] show ?thesis by (auto simp: io_simps)
qed

lemma registration_eq:
  fixes E :: "('p, 'n) ctEnv"
  shows "readCtRegisteredOnChain E config a = (if ct_configured config
    then net_io (isRegistered (ce_K E) (client_for E config (ctContracts config)) a) else io_return False)"
proof -
  let ?m = "net_io (isRegistered (ce_K E) (client_for E config (ctContracts config)) a) :: (page \<times> 'n, bool) io"
  have quiet: "\<exists>b w'. ?m w = Some (Inr b, w')" for w by (rule net_quiet) (rule isRegistered_quiet)
  then have once: "withRetry ?m None (Some 4) = ?m" by (intro retry_quiet) simp_all
  have caught: "io_catch ?m (\<lambda>e. io_return False) = ?m"
  proof
    fix w show "io_catch ?m (\<lambda>e. io_return False) w = ?m w" using quiet[of w] by (auto simp: io_catch_apply)
  qed
  then show ?thesis
    by (auto simp: readCtRegisteredOnChain_def registrationClient_def once ct_configured_def         io_bind_def io_res_def io_catch_def io_throw_def io_return_def fun_eq_iff)
qed

lemma registration_quiet: "\<exists>b n'. readCtRegisteredOnChain E config a (p, n) = Some (Inr b, (p, n'))"
  using isRegistered_quiet[of "ce_K E" "client_for E config (ctContracts config)" a n]
  by (auto simp: registration_eq io_simps)

text \<open>
  Whether an account is registered on chain is read with a single attempt, whatever the retry
  options say, and the reading never throws: the client already turned every failure into "not
  registered". The page is not touched.
\<close>

theorem registration_read_once:
  "readCtRegisteredOnChain E config a (p, n)
   = (if ct_configured config
      then (case confidentialBalance (ce_K E) (client_for E config (ctContracts config)) a n of
          None \<Rightarrow> None | Some (acc, n') \<Rightarrow> Some (Inr (\<exists>x. acc = Inr (Some x)), (p, n')))
      else Some (Inr False, (p, n)))"
  using confidentialBalance_total[of "ce_K E" "client_for E config (ctContracts config)" a n]
  by (auto simp: registration_eq isRegistered_def io_simps)

lemma registration_key_other: "ctKeysStorageKey a t \<noteq> localRegistrationKey a' t'"
  by (simp add: ctKeysStorageKey_def localRegistrationKey_def)

lemma loadCtKeys_mark: "loadCtKeys K a t (setItem (localRegistrationKey a' t') v p) = loadCtKeys K a t p"
  by (simp add: loadCtKeys_def getItem_setItem registration_key_other)

text \<open>The status is always read; it leaves the keys alone, and a registered account counts as local.\<close>

lemma status_post:
  "io_post (readCtRegistrationStatus E config a) (p, n)
     (\<lambda>r w'. (\<exists>st. r = Inr st \<and> (rs_registered st \<longrightarrow> rs_local st))
        \<and> (pa_storage (fst w') = None \<longleftrightarrow> pa_storage p = None)
        \<and> (\<forall>a' t'. loadCtKeys (ce_K E) a' t' (fst w') = loadCtKeys (ce_K E) a' t' p))"
proof -
  have quiet: "io_post (readCtRegisteredOnChain E config a) (p, n) Q" if "\<And>b n'. Q (Inr b) (p, n')" for Q
    using registration_quiet[of E config a p n] that by (auto simp: io_post_def)
  have mark: "io_post (markCtRegisteredLocally E a t) (p, n') (\<lambda>r w'. r = Inr ()
      \<and> (pa_storage (fst w') = None \<longleftrightarrow> pa_storage p = None)
      \<and> (\<forall>a' t'. loadCtKeys (ce_K E) a' t' (fst w') = loadCtKeys (ce_K E) a' t' p))" for t n'
    by (auto simp: markCtRegisteredLocally_def io_wp loadCtKeys_mark split: prod.split)
  show ?thesis
    unfolding readCtRegistrationStatus_def
    by (auto simp: io_wp Let_def intro!: quiet io_post_mono[OF mark])
qed

section \<open>What happens to the keys\<close>

lemma loadCtKeys_saved:
  assumes "pa_storage p \<noteq> None" and "key_set K keys" and "isCanonicalFr (k_sk keys)" and "isCanonicalFr (k_addrF keys)"
  shows "loadCtKeys K a t (saveCtKeys a t keys p) = Some keys"
proof -
  have wf: "json_wf (keysJson d)" for d by (simp add: keysJson_def)
  have "stringify [] [] (keysJson (serializeKeys keys)) \<noteq> []"
    using stringify_starts[of "[]" "[]" "keysJson (serializeKeys keys)"] by auto
  moreover have "JSON_parse (stringify [] [] (keysJson (serializeKeys keys))) = Some (keysJson (serializeKeys keys))"
    by (rule JSON_parse_stringify[OF wf]) simp_all
  moreover have "deserializeKeys K (serializeKeys keys) = Inr keys"
    using assms(2-4) deserialize_serialize[of K "k_sk keys" "k_addrF keys"]
    by (simp add: key_set_def[symmetric] frMod_id) (simp add: key_set_def)
  ultimately show ?thesis using assms(1)
    by (simp add: loadCtKeys_def saveCtKeys_def getItem_setItem truthy_def keysJson_def serializeKeys_def)
qed

lemma newCtKeys_post:
  assumes "pa_storage p \<noteq> None" and "isCanonicalFr addrF"
  shows "io_post (newCtKeys E a t addrF) (p, n) (\<lambda>r w'. \<exists>keys. r = Inr keys \<and> key_set (ce_K E) keys
     \<and> k_addrF keys = addrF \<and> loadCtKeys (ce_K E) a t (fst w') = Some keys)"
proof (rule io_postI)
  fix r w' assume run: "newCtKeys E a t addrF (p, n) = Some (r, w')"
  obtain samples n' where d: "ce_random E n = (samples, n')" by (cases "ce_random E n")
  from run d obtain sk rest where sk: "randomScalar samples = Some (sk, rest)"
    and r: "r = Inr (deriveKeys (ce_K E) sk addrF)" and w': "w' = (saveCtKeys a t (deriveKeys (ce_K E) sk addrF) p, n')"
    by (auto simp: newCtKeys_def generateKeys_def io_simps split: option.splits prod.splits)
  have "loadCtKeys (ce_K E) a t (saveCtKeys a t (deriveKeys (ce_K E) sk addrF) p) = Some (deriveKeys (ce_K E) sk addrF)"
    using randomScalar_range[OF sk] by (intro loadCtKeys_saved assms) (simp_all add: isCanonicalFr_def assms(2)[unfolded isCanonicalFr_def])
  with r w' show "\<exists>keys. r = Inr keys \<and> key_set (ce_K E) keys
     \<and> k_addrF keys = addrF \<and> loadCtKeys (ce_K E) a t (fst w') = Some keys" by simp
qed

lemma getOrCreate_stored:
  assumes "loadCtKeys (ce_K E) a tok p = Some old" and "confidentialTokenId config = Some tok"
    and "addressToField (permute (ce_K E)) tok = Inr (k_addrF old)" and "ct_configured config"
  shows "getOrCreateCtKeys E config a (p, n) = Some (Inr old, (p, n))"
  using assms by (simp add: getOrCreateCtKeys_def requireCtConfig_def Let_def io_simps)

lemma getOrCreate_missing:
  assumes "loadCtKeys (ce_K E) a tok p = None" and "confidentialTokenId config = Some tok"
    and "addressToField (permute (ce_K E)) tok = Inr addrF" and "ct_configured config"
  shows "getOrCreateCtKeys E config a (p, n) = newCtKeys E a tok addrF (p, n)"
  using assms by (auto simp: getOrCreateCtKeys_def requireCtConfig_def Let_def io_simps split: option.split sum.split)

text \<open>
  C28: Keys stored for the account under the contract's address are never replaced, whatever the
  network answers: resolving returns them or refuses, because the account on chain has another
  viewing key or none, and they are still stored afterwards.
\<close>

theorem keys_kept:
  assumes "loadCtKeys (ce_K E) a tok p = Some old" and "confidentialTokenId config = Some tok"
    and "addressToField (permute (ce_K E)) tok = Inr (k_addrF old)" and "ct_configured config"
  shows "io_post (resolveCtKeys E config a) (p, n) (\<lambda>r w'. loadCtKeys (ce_K E) a tok (fst w') = Some old
     \<and> (r = Inr old \<or> r = Inl keysMismatch \<or> r = Inl (TypeError ''undefined'')))"
proof -
  have created: "io_post (getOrCreateCtKeys E config a) (q, m) Q"
    if "loadCtKeys (ce_K E) a tok q = loadCtKeys (ce_K E) a tok p" "Q (Inr old) (q, m)" for q m Q
    using that getOrCreate_stored[of E a tok q old config m] assms by (simp add: io_post_def)
  have net: "io_post (confidentialBalance K client a) m Q" if "\<And>acc m'. Q (Inr acc) m'" for K m Q and client :: "'b chainClient"
    using that confidentialBalance_total[of K client a m] by (auto simp: io_post_def)
  show ?thesis
    using assms
    by (auto simp: resolveCtKeys_def requireCtConfig_def ctChainClient_def Let_def io_wp equals_member_def
        intro!: io_post_mono[OF status_post] created net split: option.split)
qed

text \<open>
  C29: Without stored keys, resolving makes new ones, bound to the contract's address and stored so
  that they are loaded from then on, exactly when the account does not count as registered, or
  counts as registered on chain while the second reading of its record brings none, because that
  reading failed or the record is not there. In every other case it refuses with the message of a
  registration begun on this device and stores nothing; the other refusal, for an account
  registered elsewhere, is never given.
\<close>

theorem keys_created:
  assumes "loadCtKeys (ce_K E) a tok p = None" and "confidentialTokenId config = Some tok"
    and "addressToField (permute (ce_K E)) tok = Inr addrF" and "ct_configured config"
    and "pa_storage p \<noteq> None" and "isCanonicalFr addrF"
  shows "io_post (resolveCtKeys E config a) (p, n) (\<lambda>r w'. \<exists>s q m acc m'.
     readCtRegistrationStatus E config a (p, n) = Some (Inr s, (q, m))
     \<and> confidentialBalance (ce_K E) (client_for E config (ctContracts config)) a m = Some (Inr acc, m')
     \<and> (case r of
          Inr keys \<Rightarrow> (\<not> rs_registered s \<or> rs_onChain s \<and> acc = None)
            \<and> key_set (ce_K E) keys \<and> k_addrF keys = addrF \<and> loadCtKeys (ce_K E) a tok (fst w') = Some keys
        | Inl e \<Rightarrow> rs_registered s \<and> (rs_onChain s \<longrightarrow> acc \<noteq> None)
            \<and> e = keysMissingLocal \<and> fst w' = q \<and> loadCtKeys (ce_K E) a tok (fst w') = None))"
proof (rule io_postI)
  fix r w' assume run: "resolveCtKeys E config a (p, n) = Some (r, w')"
  let ?client = "client_for E config (ctContracts config)"
  have contracts: "requireCtConfig config = Inr (ctContracts config)" "c_token (ctContracts config) = tok"
    using assms(2,4) by (simp_all add: requireCtConfig_def ctContracts_def)
  have existing: "on_page (loadCtKeys (ce_K E) a tok) (p, n) = Some (Inr None, (p, n))"
    using assms(1) by (simp add: on_page_def)
  obtain rs q m where status: "readCtRegistrationStatus E config a (p, n) = Some (rs, (q, m))"
    using run contracts existing by (auto simp: resolveCtKeys_def Let_def io_simps split: option.splits)
  from io_postD[OF status_post status] obtain s where s: "rs = Inr s" "rs_registered s \<longrightarrow> rs_local s"
    and q: "pa_storage q \<noteq> None" "loadCtKeys (ce_K E) a tok q = None" using assms(1,5) by auto
  obtain acc m' where read: "confidentialBalance (ce_K E) ?client a m = Some (Inr acc, m')"
    using confidentialBalance_total[of "ce_K E" ?client a m] by auto
  have created: "io_post (getOrCreateCtKeys E config a) (q, k) (\<lambda>r w'. \<exists>keys. r = Inr keys \<and> key_set (ce_K E) keys
      \<and> k_addrF keys = addrF \<and> loadCtKeys (ce_K E) a tok (fst w') = Some keys)" for k
    using getOrCreate_missing[OF q(2) assms(2-4), of k] newCtKeys_post[OF q(1) assms(6), of E a tok k]
    by (simp add: io_post_def)
  from run have rest: "(if \<not> rs_registered s \<or> rs_onChain s \<and> acc = None
      then \<exists>k. getOrCreateCtKeys E config a (q, k) = Some (r, w') else r = Inl keysMissingLocal \<and> fst w' = q)"
    using status s read contracts existing
    by (auto simp: resolveCtKeys_def Let_def io_simps ctChainClient_def split: if_splits)
  show "\<exists>s q m acc m'. readCtRegistrationStatus E config a (p, n) = Some (Inr s, (q, m))
     \<and> confidentialBalance (ce_K E) ?client a m = Some (Inr acc, m')
     \<and> (case r of
          Inr keys \<Rightarrow> (\<not> rs_registered s \<or> rs_onChain s \<and> acc = None)
            \<and> key_set (ce_K E) keys \<and> k_addrF keys = addrF \<and> loadCtKeys (ce_K E) a tok (fst w') = Some keys
        | Inl e \<Rightarrow> rs_registered s \<and> (rs_onChain s \<longrightarrow> acc \<noteq> None)
            \<and> e = keysMissingLocal \<and> fst w' = q \<and> loadCtKeys (ce_K E) a tok (fst w') = None)"
  proof (intro exI conjI)
    show "readCtRegistrationStatus E config a (p, n) = Some (Inr s, (q, m))" using status s(1) by simp
    show "confidentialBalance (ce_K E) ?client a m = Some (Inr acc, m')" by (rule read)
    show "case r of
          Inr keys \<Rightarrow> (\<not> rs_registered s \<or> rs_onChain s \<and> acc = None)
            \<and> key_set (ce_K E) keys \<and> k_addrF keys = addrF \<and> loadCtKeys (ce_K E) a tok (fst w') = Some keys
        | Inl e \<Rightarrow> rs_registered s \<and> (rs_onChain s \<longrightarrow> acc \<noteq> None)
            \<and> e = keysMissingLocal \<and> fst w' = q \<and> loadCtKeys (ce_K E) a tok (fst w') = None"
      using rest q(2) by (auto dest!: io_postD[OF created] split: if_splits)
  qed
qed

section \<open>A small network with registered accounts\<close>

text \<open>
  Every account is registered with the same keys; its spendable commitment holds 100 and its
  receiving one 10. The world counts the simulations; \<^verbatim>\<open>up\<close> says which are answered.
\<close>

definition point_val :: "residue \<Rightarrow> scval" where
  "point_val P = ScBytes (catch (pointToBytes demo P) [])"

lemma val_point_val [simp]: "val_point demo (point_val P) = Inr P"
proof -
  obtain bs where "pointToBytes demo P = Inr bs" "pointFromBytes demo bs = Inr P"
    by (rule pointToBytes_ok[OF demo_laws, of P])
  then show ?thesis by (simp add: val_point_def point_val_def)
qed

definition ct_keys :: "residue keyPair" where
  "ct_keys = deriveKeys demo 5 7"

definition ct_answer :: "callTx \<Rightarrow> scval" where
  "ct_answer tx = (if tx_method tx = ''confidential_balance''
     then ScMap [(ScSymbol ''auditor_id'', ScU32 1), (ScSymbol ''receiving_balance'', point_val (commit demo 10 0)),
       (ScSymbol ''spendable_balance'', point_val (commit demo 100 4)), (ScSymbol ''spending_key'', point_val (k_Y ct_keys)),
       (ScSymbol ''viewing_public_key'', point_val (k_PVK ct_keys))]
     else if tx_method tx = ''get_key'' then point_val demo_auditor else ScVoid)"

definition ct_server :: "(nat \<Rightarrow> bool) \<Rightarrow> nat chainServer" where
  "ct_server up = \<lparr>
     cs_rpc = \<lparr>getHealth = (\<lambda>n. (Inr (Some 0), n)), getEvents = (\<lambda>rq n. (Inr \<lparr>resp_events = [],
        resp_cursor = None, resp_latestLedger = 210\<rparr>, n))\<rparr>,
     cs_getAccount = (\<lambda>a n. (Inr \<lparr>ac_address = a, ac_sequence = 0\<rparr>, n)),
     cs_simulate = (\<lambda>tx n. (if up n then Inr (SimSuccess (Some (ct_answer tx))) else Inl (Foreign ''down''), Suc n)),
     cs_assemble = (\<lambda>tx r. Inr (tx_method tx)),
     cs_send = (\<lambda>t n. (Inr \<lparr>snd_hash = t, snd_status = SendAccepted\<rparr>, n)),
     cs_getTransaction = (\<lambda>h n. (Inr (TxSuccess None), n)), cs_latestLedger = (\<lambda>n. (Inr 210, n)),
     cs_address = (\<lambda>a. Inr (ScAddress a))\<rparr>"

definition ct_env :: "(nat \<Rightarrow> bool) \<Rightarrow> (residue, nat) ctEnv" where
  "ct_env up = \<lparr>ce_K = demo, ce_vite = (\<lambda>_. None), ce_server = (\<lambda>url phrase. ct_server up),
     ce_indexerApi = \<lparr>api_health = (\<lambda>rq n. (Inl (Foreign ''down''), n)), api_events = (\<lambda>rq n. (Inl (Foreign ''down''), n))\<rparr>,
     ce_ctApi = (\<lambda>rq n. (Inl (Foreign ''down''), n)),
     ce_txStatus = (\<lambda>url h n. (Inr \<lparr>http_ok = True, http_status = 200, http_text = Inr [], http_json = Inr (Some ''SUCCESS'')\<rparr>, n)),
     ce_random = (\<lambda>n. ([replicate 31 0 @ [5]], n)), ce_now = (\<lambda>n. (0, n)), ce_noirInit = (\<lambda>n. (Inr (), n)),
     ce_circuit = (\<lambda>c n. (Inr \<lparr>http_ok = True, http_status = 200, http_text = Inr [], http_json = Inr c\<rparr>, n)),
     ce_newProver = Inr, ce_prove = (\<lambda>prover inputs n. (Inr [1], n)), ce_toXDR = (\<lambda>v. []), ce_deployer = ''GDEPLOYER''\<rparr>"

lemma ct_draw: "randomScalar [replicate 31 0 @ [5]] = Some (5, [])"
proof -
  have tl: "tl (replicate 31 0 @ [5 :: byte]) = replicate 30 0 @ [5]" by (simp add: eval_nat_numeral)
  have five: "fromBytesBE [5] = 5" by (simp add: fromBytesBE_def shift_in_def)
  have "last (replicate 30 0 @ [5 :: byte]) \<noteq> last (replicate 31 0)" by simp
  then have "replicate 30 0 @ [5 :: byte] \<noteq> replicate 31 0" by metis
  then show ?thesis
    using randomScalar_step[of "replicate 31 0 @ [5]" "[]"] fromBytesBE_zeros[of 30 "[5]"]
    by (simp add: tl five del: randomScalar.simps)
qed

definition empty_page :: page where
  "empty_page = \<lparr>pa_storage = Some [], pa_provers = []\<rparr>"

lemma ct_env_sel [simp]:
  "ce_K (ct_env up) = demo" "ce_vite (ct_env up) = (\<lambda>_. None)" "ce_server (ct_env up) url phrase = ct_server up"
  "ce_random (ct_env up) = (\<lambda>n. ([replicate 31 0 @ [5]], n))" "ce_now (ct_env up) = (\<lambda>n. (0, n))"
  by (simp_all add: ct_env_def)

lemma ct_keys_sel [simp]: "key_set demo ct_keys" "k_sk ct_keys = 5" "k_addrF ct_keys = 7" "k_PVK ct_keys = res_of 7"
  by (simp add: ct_keys_def) (simp_all add: ct_keys_def demo_eval)

definition ct_account :: "residue onChainAccount" where
  "ct_account = \<lparr>oc_spendingKey = Some (k_Y ct_keys), oc_viewingPublicKey = Some (k_PVK ct_keys),
     oc_spendableBalance = Some (commit demo 100 4), oc_receivingBalance = Some (commit demo 10 0), oc_auditorId = Some 1\<rparr>"

lemma ct_account_read:
  "confidentialBalance demo \<lparr>cc_server = ct_server up, cc_contracts = c\<rparr> a n
   = Some (Inr (if up n then Some ct_account else None), Suc n)"
  using parseAccount_struct[OF val_point_val val_point_val val_point_val val_point_val,
      of 1 "commit demo 10 0" "commit demo 100 4" "k_Y ct_keys" "k_PVK ct_keys"]
  by (simp add: confidentialBalance_def simulate_def io_simps ct_server_def ct_answer_def ct_account_def)

lemma ct_token_field: "addressToField (permute demo) ct_token_id = Inr 7"
  by (simp add: addressToField_def encode_ascii_def STRKEY_LEN_def Let_def poseidonWithDomain_def sponge_demo)

lemma ct_scoped_configured: "ct_configured ct_scoped" "confidentialTokenId ct_scoped = Some ct_token_id"
  by (simp_all add: ct_configured_def ct_scoped_sel truthy_def)

lemma ct_registered:
  "readCtRegisteredOnChain (ct_env up) ct_scoped a (p, n) = Some (Inr (up n), (p, Suc n))"
  by (simp add: registration_eq ct_scoped_configured io_simps isRegistered_def client_for_def ct_account_read)

lemma ct_status:
  assumes "pa_storage p \<noteq> None" and "up n"
  shows "readCtRegistrationStatus (ct_env up) ct_scoped a (p, n)
   = Some (Inr \<lparr>rs_onChain = True, rs_local = True, rs_registered = True\<rparr>,
       (setItem (localRegistrationKey a ct_token_id) ''0'' p, Suc n))"
  using assms by (auto simp: readCtRegistrationStatus_def ct_scoped_configured truthy_def Let_def io_simps ct_registered
      markCtRegisteredLocally_def toString10_def digits_of.simps[of 10 0] hex_digit_0)

lemma ct_keys_load: "loadCtKeys demo a ct_token_id (saveCtKeys a ct_token_id ct_keys empty_page) = Some ct_keys"
  by (rule loadCtKeys_saved) (simp_all add: empty_page_def isCanonicalFr_def FR_MODULUS_def)

theorem keys_kept_witness:
  "\<exists>w'. resolveCtKeys (ct_env (\<lambda>_. True)) ct_scoped ''GA'' (saveCtKeys ''GA'' ct_token_id ct_keys empty_page, 0)
      = Some (Inr ct_keys, w') \<and> loadCtKeys demo ''GA'' ct_token_id (fst w') = Some ct_keys"
proof -
  let ?E = "ct_env (\<lambda>_. True)" and ?p = "saveCtKeys ''GA'' ct_token_id ct_keys empty_page"
  have "pa_storage ?p \<noteq> None" by (simp add: saveCtKeys_def empty_page_def setItem_def)
  then obtain w' where "resolveCtKeys ?E ct_scoped ''GA'' (?p, 0) = Some (Inr ct_keys, w')"
    using ct_keys_load[of "''GA''"] ct_status[of ?p "\<lambda>_. True" 0 "''GA''"] ct_scoped_configured
    by (simp add: resolveCtKeys_def requireCtConfig_def ctChainClient_def Let_def io_simps client_for_def
        ct_account_read ct_account_def equals_member_def)
  moreover note io_postD[OF keys_kept[of ?E "''GA''" ct_token_id ?p ct_keys ct_scoped 0] this]
  ultimately show ?thesis using ct_keys_load ct_scoped_configured ct_token_field by simp
qed

text \<open>The second of the two reads of the account fails: new keys are made for a registered account.\<close>

theorem keys_created_witness:
  "\<exists>keys w'. resolveCtKeys (ct_env (\<lambda>n. n = 0)) ct_scoped ''GA'' (empty_page, 0) = Some (Inr keys, w')
      \<and> loadCtKeys demo ''GA'' ct_token_id (fst w') = Some keys
      \<and> (\<exists>n'. readCtRegisteredOnChain (ct_env (\<lambda>n. n = 0)) ct_scoped ''GA'' (empty_page, 0) = Some (Inr True, (empty_page, n')))"
proof -
  let ?E = "ct_env (\<lambda>n. n = 0)"
  have none: "loadCtKeys demo ''GA'' ct_token_id empty_page = None"
    by (simp add: loadCtKeys_def getItem_def empty_page_def truthy_def)
  then have none': "loadCtKeys demo ''GA'' ct_token_id (setItem (localRegistrationKey a t) v empty_page) = None" for a t v
    by (simp add: loadCtKeys_mark)
  have "pa_storage empty_page \<noteq> None" by (simp add: empty_page_def)
  moreover have "generateKeys demo [replicate 31 0 @ [5]] 7 = Some (ct_keys, [])"
    by (simp add: generateKeys_def ct_keys_def ct_draw del: randomScalar.simps)
  ultimately obtain keys w' where "resolveCtKeys ?E ct_scoped ''GA'' (empty_page, 0) = Some (Inr keys, w')"
    using none none' ct_status[of empty_page "\<lambda>n. n = 0" 0 "''GA''"] ct_scoped_configured ct_token_field
      getOrCreate_missing[of ?E "''GA''" ct_token_id _ ct_scoped 7]
    by (simp add: resolveCtKeys_def requireCtConfig_def ctChainClient_def Let_def io_simps client_for_def
        ct_account_read newCtKeys_def)
  moreover note io_postD[OF keys_created[of ?E "''GA''" ct_token_id empty_page ct_scoped 7 0] this]
  ultimately show ?thesis using none ct_scoped_configured ct_token_field ct_registered[of "\<lambda>n. n = 0"]
    by (auto simp: isCanonicalFr_def FR_MODULUS_def empty_page_def)
qed

end
