(* ===== verification/CtBalance.thy ===== *)
theory CtBalance
  imports CtAccounts
begin

text \<open>
  \<^verbatim>\<open>lib/confidentialBalance.ts\<close>: the engine of an asset's token, the choice of its history
  index, the balance read from it and the one shown from the cache. The engine's store is the page's
  \<^verbatim>\<open>localStorage\<close>. Shown: a balance reported as synchronised is that of the stored state,
  whose openings open the account's commitments on chain.
\<close>

section \<open>The store of a page\<close>

definition pageStore :: "string \<Rightarrow> page stateStore" where
  "pageStore prefix = \<lparr>
     ss_load = (\<lambda>a p. (fst (ss_load (LocalStorageStore prefix) a (pa_storage p)), p)),
     ss_save = (\<lambda>st p. case ss_save (LocalStorageStore prefix) st (pa_storage p) of (r, s) \<Rightarrow> (r, p\<lparr>pa_storage := s\<rparr>))\<rparr>"

text \<open>
  The storage exists, and every state under the prefix is that of the address in its key and holds
  no negative number.
\<close>

definition own_states :: "string \<Rightarrow> page \<Rightarrow> bool" where
  "own_states prefix p \<longleftrightarrow> pa_storage p \<noteq> None \<and>
     (\<forall>a st. fst (ss_load (pageStore prefix) a p) = Inr (Some st) \<longrightarrow> st_address st = a \<and> storable st)"

lemma reviveOpening_nonneg: "reviveOpening (Some (openingJson x)) = Inr y \<Longrightarrow> nonneg_opening x"
proof (rule ccontr)
  assume ok: "reviveOpening (Some (openingJson x)) = Inr y" and "\<not> nonneg_opening x"
  then have "op_r x < 0" using negative_not_revived[of x] by (auto simp: nonneg_opening_def)
  then have "BigInt_of (''0x'' @ toString16 (op_r x)) = Inl (SyntaxError (''0x'' @ toString16 (op_r x)))"
    using parse_bigint_negative_hex[of "nat (- op_r x)"] by (simp add: BigInt_of_def toString16_def)
  with ok show False by (auto simp: reviveOpening_def openingJson_def bigintReplacer_def rbind_Inr_iff rmap_Inr_iff)
qed

lemma saved_text:
  "JSON_parse (stringify [] [] (stateJson st)) = Some (stateJson st)" "stringify [] [] (stateJson st) \<noteq> []"
  using JSON_parse_stringify[OF stateJson_wf, of "[]" "[]" st] stringify_starts[of "[]" "[]" "stateJson st"] by auto

lemma revive_faithful: "reviveState (stateJson st) = Inr st \<and> storable st \<or> (\<exists>e. reviveState (stateJson st) = Inl e)"
proof (cases "storable st")
  case False
  then have "\<exists>e. reviveState (stateJson st) = Inl e"
    using reviveOpening_nonneg[of "st_spendable st"] reviveOpening_nonneg[of "st_receiving st"]
    by (cases "reviveState (stateJson st)")
       (auto simp: reviveState_def stateJson_def storable_def rbind_Inr_iff)
  then show ?thesis ..
qed (simp add: reviveState_stateJson)

lemma pageStore_sel:
  "ss_load (pageStore prefix) a p = (fst (ss_load (LocalStorageStore prefix) a (pa_storage p)), p)"
  "ss_save (pageStore prefix) st p = (Inr (), setItem (prefix @ st_address st) (stringify [] [] (stateJson st)) p)"
  by (simp_all add: pageStore_def LocalStorageStore_def setItem_def)

lemma page_load_item:
  "fst (ss_load (pageStore prefix) a p) = (case getItem (prefix @ a) p of None \<Rightarrow> Inr None
     | Some raw \<Rightarrow> if raw = [] then Inr None else (case JSON_parse raw of None \<Rightarrow> Inl (SyntaxError raw)
         | Some j \<Rightarrow> rmap Some (reviveState j)))"
  by (simp add: pageStore_sel LocalStorageStore_def getItem_def split: option.split)

lemma page_load_saved:
  "pa_storage p \<noteq> None \<Longrightarrow> fst (ss_load (pageStore prefix) a (snd (ss_save (pageStore prefix) st p)))
   = (if a = st_address st then rmap Some (reviveState (stateJson st)) else fst (ss_load (pageStore prefix) a p))"
  by (simp add: page_load_item pageStore_sel(2) getItem_setItem saved_text)

interpretation page_store: faithful_store "pageStore prefix" "own_states prefix" for prefix
proof unfold_locales
  fix a s st u
  show "snd (ss_load (pageStore prefix) a s) = s" by (simp add: pageStore_sel)
  assume good: "own_states prefix s"
  then show "fst (ss_load (pageStore prefix) a s) = Inr (Some st) \<Longrightarrow> st_address st = a" by (simp add: own_states_def)
  from good have some: "pa_storage s \<noteq> None" by (simp add: own_states_def)
  note load = page_load_saved[OF this, of prefix _ st]
  show "own_states prefix (snd (ss_save (pageStore prefix) st s))"
    unfolding own_states_def
  proof (intro conjI allI impI)
    show "pa_storage (snd (ss_save (pageStore prefix) st s)) \<noteq> None" using some by (simp add: pageStore_sel)
    fix a st'
    assume "fst (ss_load (pageStore prefix) a (snd (ss_save (pageStore prefix) st s))) = Inr (Some st')"
    with good revive_faithful[of st] show "st_address st' = a" and "storable st'"
      by (auto simp: load own_states_def rmap_Inr_iff split: if_splits)
  qed
  show "fst (ss_load (pageStore prefix) (st_address st) (snd (ss_save (pageStore prefix) st s))) = Inr (Some st)
    \<or> (\<exists>e. fst (ss_load (pageStore prefix) (st_address st) (snd (ss_save (pageStore prefix) st s))) = Inl e)"
    using revive_faithful[of st] by (auto simp: load)
qed

section \<open>The engine of an asset\<close>

definition endsWith :: "string \<Rightarrow> string \<Rightarrow> bool" where
  "endsWith suffix s \<longleftrightarrow> startsWith (rev suffix) (rev s)"

definition ctIndexer :: "('p, 'n) ctEnv \<Rightarrow> deploymentConfig \<Rightarrow> assetKey \<Rightarrow> 'n historyIndexer option" where
  "ctIndexer E config key =
     (let issuerBase = no_slash (issuerServiceUrl config);
          configured = map_option no_slash (confidentialIndexerUrl config);
          issuer = Some (IssuerCt (ce_ctApi E) issuerBase (Some (key_text key))) in
      if truthy configured \<and> issuerBase \<noteq> [] \<and> (the configured = issuerBase @ ''/ct'' \<or> endsWith ''/ct'' (the configured))
      then issuer
      else if truthy configured \<and> \<not> endsWith ''/ct'' (the configured) then Some (Goldsky (ce_indexerApi E) (the configured))
      else if issuerBase \<noteq> [] then issuer else None)"

definition statePrefix :: "string \<Rightarrow> string" where
  "statePrefix tokenId = ''lumengate:ct:state:'' @ tokenId @ '':''"

definition engine_for ::
  "('p, 'n) ctEnv \<Rightarrow> deploymentConfig \<Rightarrow> assetKey \<Rightarrow> string \<Rightarrow> 'p keyPair \<Rightarrow> 'n chainClient \<Rightarrow> int \<Rightarrow> ('p, page, 'n) engine" where
  "engine_for E scoped key smartAccount keys client fromLedger =
     \<lparr>en_K = ce_K E, en_client = client, en_store = pageStore (statePrefix (the (confidentialTokenId scoped))),
      en_keys = keys, en_address = smartAccount, en_fromLedger = fromLedger, en_indexer = ctIndexer E scoped key,
      en_txStatus = ce_txStatus E\<rparr>"

definition createConfidentialAssetStateEngine ::
  "('p, 'n) ctEnv \<Rightarrow> deploymentConfig \<Rightarrow> string \<Rightarrow> assetKey \<Rightarrow> (page \<times> 'n, ('p, page, 'n) engine) io" where
  "createConfidentialAssetStateEngine E config smartAccount key =
     io_bind (io_res (ctConfigForAsset (ce_vite E) config key)) (\<lambda>scoped.
     io_bind (resolveCtKeys E scoped smartAccount) (\<lambda>keys.
     io_bind (io_res (registrationClient E scoped)) (\<lambda>client.
     io_bind (case confidentialDeployedAtLedger scoped of Some l \<Rightarrow> io_return l
       | None \<Rightarrow> io_bind (net_io (latestLedger client)) (\<lambda>l. io_return (l - 50000))) (\<lambda>from1.
     io_return (engine_for E scoped key smartAccount keys client (max 0 from1))))))"

definition initializeCtStateFromEvents ::
  "('p, 'n) ctEnv \<Rightarrow> deploymentConfig \<Rightarrow> string \<Rightarrow> assetKey \<Rightarrow> (page \<times> 'n, unit) io" where
  "initializeCtStateFromEvents E config smartAccount key =
     io_bind (createConfidentialAssetStateEngine E config smartAccount key) (\<lambda>engine.
     io_bind (rebuildFromEvents engine) (\<lambda>st.
     io_bind (verifyAgainstChain engine) (\<lambda>v. io_return ())))"

section \<open>Balances\<close>

record assetBalance =
  ab_registered :: bool
  ab_spendable :: int
  ab_receiving :: int
  ab_total :: int
  ab_spendableSynced :: bool
  ab_receivingSynced :: bool
  ab_synced :: bool
  ab_syncError :: "string option"
  ab_provisional :: bool

definition readCachedConfidentialAssetBalance ::
  "('p, 'n) ctEnv \<Rightarrow> deploymentConfig \<Rightarrow> string \<Rightarrow> assetKey \<Rightarrow> page \<Rightarrow> assetBalance option" where
  "readCachedConfidentialAssetBalance E config smartAccount key page =
     (case as_contracts (resolveConfidentialAsset (ce_vite E) config key) of None \<Rightarrow> None
      | Some contracts \<Rightarrow> if pa_storage page = None then None else
          let tokenId = ct_token contracts;
              registeredLocal = isCtRegisteredLocally smartAccount tokenId page;
              raw = getItem (stateKey tokenId smartAccount) page;
              (spendable, receiving, stateRegistered) =
                (if \<not> truthy raw then (0, 0, False)
                 else case JSON_parse (the raw) of None \<Rightarrow> (0, 0, False)
                   | Some j \<Rightarrow> (case reviveState j of Inl e \<Rightarrow> (0, 0, False)
                       | Inr st \<Rightarrow> (op_v (st_spendable st), op_v (st_receiving st), st_registered st)))
          in if \<not> (registeredLocal \<or> stateRegistered) then None
             else Some \<lparr>ab_registered = True, ab_spendable = spendable, ab_receiving = receiving,
               ab_total = spendable + receiving, ab_spendableSynced = False, ab_receivingSynced = False,
               ab_synced = False, ab_syncError = None, ab_provisional = True\<rparr>)"

definition unregisteredBalance :: assetBalance where
  "unregisteredBalance = \<lparr>ab_registered = False, ab_spendable = 0, ab_receiving = 0, ab_total = 0,
     ab_spendableSynced = True, ab_receivingSynced = True, ab_synced = True, ab_syncError = None, ab_provisional = False\<rparr>"

definition unsyncedBalance :: "js_error \<Rightarrow> assetBalance" where
  "unsyncedBalance e = \<lparr>ab_registered = True, ab_spendable = 0, ab_receiving = 0, ab_total = 0,
     ab_spendableSynced = False, ab_receivingSynced = False, ab_synced = False, ab_syncError = Some (message e),
     ab_provisional = False\<rparr>"

definition readConfidentialAssetBalance ::
  "('p, 'n) ctEnv \<Rightarrow> deploymentConfig \<Rightarrow> string \<Rightarrow> assetKey \<Rightarrow> (page \<times> 'n, assetBalance) io" where
  "readConfidentialAssetBalance E config smartAccount key =
     io_bind (io_res (ctConfigForAsset (ce_vite E) config key)) (\<lambda>scoped.
     io_bind (readCtRegistrationStatus E scoped smartAccount) (\<lambda>registration.
     if \<not> rs_registered registration \<or> \<not> truthy (confidentialTokenId scoped) then io_return unregisteredBalance
     else io_catch
       (io_bind (createConfidentialAssetStateEngine E config smartAccount key) (\<lambda>engine.
        io_bind (reconcileForRead engine) (\<lambda>(st, v).
        io_bind (if rs_onChain registration
          then markCtRegisteredLocally E smartAccount (the (confidentialTokenId scoped)) else io_return ()) (\<lambda>u.
        io_return \<lparr>ab_registered = True, ab_spendable = op_v (st_spendable st), ab_receiving = op_v (st_receiving st),
          ab_total = op_v (st_spendable st) + op_v (st_receiving st), ab_spendableSynced = vf_spendableOk v,
          ab_receivingSynced = vf_receivingOk v, ab_synced = vf_ok v, ab_syncError = None, ab_provisional = False\<rparr>))))
       (\<lambda>e. io_return (unsyncedBalance e))))"

section \<open>The page between engines\<close>

lemma own_states_setItem [simp]:
  assumes "\<And>a. k \<noteq> prefix @ a"
  shows "own_states prefix (setItem k v p) \<longleftrightarrow> own_states prefix p"
proof -
  have "getItem (prefix @ a) (setItem k v p) = getItem (prefix @ a) p" for a
    using assms[of a] by (auto simp: getItem_setItem)
  then show ?thesis by (simp add: own_states_def page_load_item)
qed

lemma own_states_other [simp]:
  "own_states (statePrefix t) (setItem (localRegistrationKey a t') v p) \<longleftrightarrow> own_states (statePrefix t) p"
  "own_states (statePrefix t) (saveCtKeys a t' keys p) \<longleftrightarrow> own_states (statePrefix t) p"
  by (auto simp: statePrefix_def localRegistrationKey_def saveCtKeys_def ctKeysStorageKey_def intro!: own_states_setItem)

abbreviation own :: "string \<Rightarrow> page \<Rightarrow> bool" where
  "own t \<equiv> own_states (statePrefix t)"

lemma keeps_lambda [keeps_intros]:
  "keeps I (\<lambda>w. case opt of None \<Rightarrow> None | Some (x, y) \<Rightarrow> Some (Inr x, w))"
  by (auto simp: keeps_def io_post_def split: option.split)

lemma registration_own [keeps_intros]:
  "page_keeps (own t) (markCtRegisteredLocally E a t')"
  "page_keeps (own t) (readCtRegisteredOnChain E config a)"
  unfolding markCtRegisteredLocally_def registration_eq by (intro keeps_intros; simp)+

lemma status_own [keeps_intros]: "page_keeps (own t) (readCtRegistrationStatus E config a)"
  unfolding readCtRegistrationStatus_def by (intro keeps_intros)

lemma keys_own [keeps_intros]: "page_keeps (own t) (newCtKeys E a t' f)"
  unfolding newCtKeys_def by (intro keeps_intros) simp

lemma create_own [keeps_intros]: "page_keeps (own t) (getOrCreateCtKeys E config a)"
  unfolding getOrCreateCtKeys_def by (intro keeps_intros)

lemma resolve_own [keeps_intros]: "page_keeps (own t) (resolveCtKeys E config a)"
  unfolding resolveCtKeys_def by (intro keeps_intros)

lemma create_post:
  assumes "ctConfigForAsset (ce_vite E) config key = Inr scoped" and "own t p"
  shows "io_post (createConfidentialAssetStateEngine E config a key) (p, n) (\<lambda>r w'. own t (fst w')
     \<and> (\<forall>engine. r = Inr engine \<longrightarrow> (\<exists>keys l. engine = engine_for E scoped key a keys (client_for E scoped (ctContracts scoped)) l)))"
proof -
  have keys: "io_post (resolveCtKeys E scoped a) w (\<lambda>r w'. own t (fst w'))" if "own t (fst w)" for w
    using keeps_post[OF resolve_own[of t E scoped a]] that by simp
  have ledger: "io_post (case confidentialDeployedAtLedger scoped of Some l \<Rightarrow> io_return l
       | None \<Rightarrow> io_bind (net_io (latestLedger client)) (\<lambda>l. io_return (l - 50000))) w (\<lambda>r w'. own t (fst w'))"
    if "own t (fst w)" for w and client :: "'b chainClient"
    by (rule keeps_post[of "\<lambda>w. own t (fst w)", OF _ that]) (intro keeps_intros)
  show ?thesis
    unfolding createConfidentialAssetStateEngine_def registrationClient_def
    using assms by (auto simp: io_post_return io_post_throw io_bind_return io_bind_res io_bind_throw
        intro!: io_post_bindI[OF keys] io_post_bindI[OF ledger]) blast
qed

section \<open>Property\<close>

lemma io_post_run: "io_post m w Q \<Longrightarrow> io_post m w (\<lambda>r w'. Q r w' \<and> m w = Some (r, w'))"
  by (auto simp: io_post_def split: option.splits)

text \<open>
  What a balance read from the engine shows: the amounts of the state the reconciliation returned,
  with its verification. When the spendable part is verified, the openings of that state, blinding
  factors included, open the commitments of the account on chain and are the ones in the page's store.
\<close>

definition balance_of_state ::
  "('p, 'n) ctEnv \<Rightarrow> 'p onChainAccount \<Rightarrow> ('p, page, 'n) engine \<Rightarrow> accountState \<Rightarrow> verified \<Rightarrow> assetBalance \<Rightarrow> page \<Rightarrow> bool" where
  "balance_of_state E acc e st v b p \<longleftrightarrow> b = \<lparr>ab_registered = True, ab_spendable = op_v (st_spendable st),
       ab_receiving = op_v (st_receiving st), ab_total = op_v (st_spendable st) + op_v (st_receiving st),
       ab_spendableSynced = vf_spendableOk v, ab_receivingSynced = vf_receivingOk v, ab_synced = vf_ok v,
       ab_syncError = None, ab_provisional = False\<rparr>
     \<and> (vf_spendableOk v \<longrightarrow> openings_kept e st p
        \<and> (\<exists>P. oc_spendableBalance acc = Some P
            \<and> pequals (ce_K E) (commit (ce_K E) (op_v (st_spendable st)) (op_r (st_spendable st))) P)
        \<and> (vf_receivingOk v \<longrightarrow> (\<exists>P. oc_receivingBalance acc = Some P
            \<and> pequals (ce_K E) (commit (ce_K E) (op_v (st_receiving st)) (op_r (st_receiving st))) P)))"

lemma steady_opening:
  assumes "\<forall>n. \<exists>n'. confidentialBalance (ce_K E) client a n = Some (Inr (Some acc), n')"
    and "chain_opening (engine_for E scoped key a keys client l) sel x"
  shows "\<exists>P. sel acc = Some P \<and> pequals (ce_K E) (commit (ce_K E) (op_v x) (op_r x)) P"
proof -
  from assms(2) obtain n n' acc' P where r: "confidentialBalance (ce_K E) client a n = Some (Inr (Some acc'), n')"
    and P: "sel acc' = Some P" "pequals (ce_K E) (commit (ce_K E) (op_v x) (op_r x)) P"
    by (auto simp: chain_opening_def engine_for_def)
  from assms(1) r have "acc' = acc" by (metis Pair_inject option.inject sum.inject(2))
  with P show ?thesis by blast
qed

lemma openings_kept_marked:
  assumes "en_store e = pageStore (statePrefix t)" and "openings_kept e st p" and "\<And>b. k \<noteq> statePrefix t @ b"
  shows "openings_kept e st (setItem k v p)"
proof -
  have "fst (ss_load (pageStore (statePrefix t)) b (setItem k v p)) = fst (ss_load (pageStore (statePrefix t)) b p)" for b
    using assms(3)[of b] by (simp add: page_load_item getItem_setItem)
  with assms(1,2) show ?thesis by (simp add: openings_kept_def Reconcile.settled_def)
qed

text \<open>
  The balance of a registered account, read from the world in which the registration was found: the engine is
  created and reconciled next; the balance shows its state, or that there is none and why, the exception that
  creating or reconciling it ended with.
\<close>

definition balance_answer ::
  "('p, 'n) ctEnv \<Rightarrow> deploymentConfig \<Rightarrow> deploymentConfig \<Rightarrow> assetKey \<Rightarrow> string \<Rightarrow> 'p onChainAccount \<Rightarrow> page \<times> 'n
   \<Rightarrow> assetBalance \<Rightarrow> page \<Rightarrow> bool" where
  "balance_answer E config scoped key a acc w b p \<longleftrightarrow>
     (\<exists>x w1. createConfidentialAssetStateEngine E config a key w = Some (Inl x, w1) \<and> b = unsyncedBalance x)
   \<or> (\<exists>e w1 x w2. createConfidentialAssetStateEngine E config a key w = Some (Inr e, w1)
        \<and> reconcileForRead e w1 = Some (Inl x, w2) \<and> b = unsyncedBalance x)
   \<or> (\<exists>keys l e w1 st v w2. e = engine_for E scoped key a keys (client_for E scoped (ctContracts scoped)) l
        \<and> createConfidentialAssetStateEngine E config a key w = Some (Inr e, w1)
        \<and> reconcileForRead e w1 = Some (Inr (st, v), w2) \<and> balance_of_state E acc e st v b p)"


section \<open>An account with a balance\<close>

definition ct_state :: "int \<Rightarrow> accountState" where
  "ct_state l = (freshState ''GA'')\<lparr>st_spendable := \<lparr>op_v = 100, op_r = 4\<rparr>,
     st_receiving := \<lparr>op_v = 10, op_r = 0\<rparr>, st_registered := True, st_syncedLedger := l\<rparr>"

definition ct_save :: "accountState \<Rightarrow> page \<Rightarrow> page" where
  "ct_save st p = snd (ss_save (pageStore (statePrefix ct_token_id)) st p)"

definition ct_page :: page where
  "ct_page = ct_save (ct_state 0) (saveCtKeys ''GA'' ct_token_id ct_keys empty_page)"

definition ct_engine :: "(nat \<Rightarrow> bool) \<Rightarrow> (residue, page, nat) engine" where
  "ct_engine up = engine_for (ct_env up) ct_scoped Eurc ''GA'' ct_keys
     (client_for (ct_env up) ct_scoped (ctContracts ct_scoped)) 100"

lemma ct_state_sel [simp]:
  "st_address (ct_state l) = ''GA''" "st_spendable (ct_state l) = \<lparr>op_v = 100, op_r = 4\<rparr>"
  "st_receiving (ct_state l) = \<lparr>op_v = 10, op_r = 0\<rparr>" "st_registered (ct_state l)" "st_cursor (ct_state l) = None"
  "st_syncedLedger (ct_state l) = l" "st_optimistic (ct_state l) = None"
  by (simp_all add: ct_state_def freshState_def)

lemma ct_state_storable: "storable (ct_state l)"
  by (simp add: storable_def nonneg_opening_def)

lemma ct_save_sel [simp]: "pa_storage (ct_save st p) = None \<longleftrightarrow> pa_storage p = None"
  by (simp add: ct_save_def pageStore_sel(2))

lemma ct_save_eq: "ss_save (pageStore (statePrefix ct_token_id)) st p = (Inr (), ct_save st p)"
  by (simp add: ct_save_def pageStore_sel(2))

definition holds :: "int \<Rightarrow> page \<Rightarrow> bool" where
  "holds l p \<longleftrightarrow> pa_storage p \<noteq> None \<and> ss_load (pageStore (statePrefix ct_token_id)) ''GA'' p = (Inr (Some (ct_state l)), p)"

lemma holds_saved [simp]: "pa_storage p \<noteq> None \<Longrightarrow> holds l (ct_save (ct_state l) p)"
  unfolding holds_def
proof (intro conjI prod_eqI)
  assume p: "pa_storage p \<noteq> None"
  then show "pa_storage (ct_save (ct_state l) p) \<noteq> None" by simp
  show "fst (ss_load (pageStore (statePrefix ct_token_id)) ''GA'' (ct_save (ct_state l) p)) = fst (Inr (Some (ct_state l)), ct_save (ct_state l) p)"
    using page_load_saved[OF p, of "statePrefix ct_token_id" "''GA''" "ct_state l"]
    by (simp add: ct_save_def reviveState_stateJson[OF ct_state_storable])
qed (simp add: page_store.load_pure)

lemma holds_setItem [simp]:
  assumes "\<And>a. k \<noteq> statePrefix ct_token_id @ a"
  shows "holds l (setItem k v p) \<longleftrightarrow> holds l p"
proof -
  have "getItem (statePrefix ct_token_id @ ''GA'') (setItem k v p) = getItem (statePrefix ct_token_id @ ''GA'') p"
    using assms[of "''GA''"] by (auto simp: getItem_setItem)
  then have "fst (ss_load (pageStore (statePrefix ct_token_id)) ''GA'' (setItem k v p))
      = fst (ss_load (pageStore (statePrefix ct_token_id)) ''GA'' p)" by (simp add: page_load_item)
  then show ?thesis by (auto simp: holds_def prod_eq_iff pageStore_sel)
qed

lemma holds_other [simp]:
  "holds l (setItem (localRegistrationKey a t') v p) \<longleftrightarrow> holds l p"
  "holds l (saveCtKeys a t' keys p) \<longleftrightarrow> holds l p"
  by (auto simp: statePrefix_def localRegistrationKey_def saveCtKeys_def ctKeysStorageKey_def intro!: holds_setItem)

lemma holds_storage: "holds l p \<Longrightarrow> pa_storage p \<noteq> None"
  by (simp add: holds_def)

lemma ct_engine_sel [simp]:
  "en_store (ct_engine up) = pageStore (statePrefix ct_token_id)" "en_address (ct_engine up) = ''GA''" "en_K (ct_engine up) = demo"
  "en_keys (ct_engine up) = ct_keys" "en_client (ct_engine up) = \<lparr>cc_server = ct_server up, cc_contracts = ctContracts ct_scoped\<rparr>"
  "en_fromLedger (ct_engine up) = 100" "en_indexer (ct_engine up) = None"
  by (simp_all add: ct_engine_def engine_for_def client_for_def ct_scoped_configured ctIndexer_def no_slash_def truthy_def
      ct_scoped_def withConfidentialContracts_def ct_contracts)

lemma ct_current: "holds l p \<Longrightarrow> current (ct_engine up) (p, n) = Some (Inr (ct_state l), (p, n))"
  by (simp add: current_def load_state_def io_simps holds_def)

lemma ct_fetch:
  "hybridFetchEvents demo (cs_rpc (ct_server up)) None t 100 None n
   = Some (Inr \<lparr>fr_events = [], fr_cursor = None, fr_latestLedger = 210\<rparr>, n)"
proof -
  have "fetchEvents demo (cs_rpc (ct_server up)) t (Some 100) None None n
      = Some (Inr \<lparr>fr_events = [], fr_cursor = None, fr_latestLedger = 210\<rparr>, n)"
    by (subst fetchEvents_def, simp, subst fetchLoop.simps)
      (simp add: ct_server_def parsePage_def List.map_filter_simps truthy_def)
  then show ?thesis
    by (simp add: hybridFetchEvents_def io_simps rpcOldestLedger_def ct_server_def dedupeById_def truthy_def)
qed

lemma ct_sync:
  assumes "holds l p" and "l \<le> 210"
  shows "sync (ct_engine up) (p, n) = Some (Inr (ct_state 210), (ct_save (ct_state 210) p, n))"
proof -
  have l: "at_ledger 210 (ct_state l) = ct_state 210" using assms(2) by (simp add: at_ledger_def ct_state_def)
  show ?thesis using assms(1)
    by (simp add: sync_def replay_from_def load_state_def io_simps holds_def ct_fetch ctContracts_def Let_def
        truthy_def l save_state_def ct_save_eq)
qed

lemma ct_verify:
  assumes "holds l p" and "up n"
  shows "verifyAgainstChain (ct_engine up) (p, n)
    = Some (Inr \<lparr>vf_ok = True, vf_spendableOk = True, vf_receivingOk = True\<rparr>, (p, Suc n))"
  using assms(2) by (simp add: verifyAgainstChain_def io_simps ct_current[OF assms(1)] ct_account_read ct_account_def
      equals_member_def)

lemma ct_reconcile:
  assumes "holds l p" and "l \<le> 210" and "up n"
  shows "reconcileForRead (ct_engine up) (p, n)
    = Some (Inr (ct_state 210, \<lparr>vf_ok = True, vf_spendableOk = True, vf_receivingOk = True\<rparr>),
        (ct_save (ct_state 210) p, Suc n))"
  using assms holds_storage[OF assms(1)] ct_verify[of 210 "ct_save (ct_state 210) p" up n]
    ct_current[of 210 "ct_save (ct_state 210) p" up]
  by (simp add: reconcileForRead_def io_simps ct_current[OF assms(1)] ct_sync Let_def clearOptimisticMarkersIfVerified_def)

lemma own_ct_save: "own ct_token_id p \<Longrightarrow> own ct_token_id (ct_save st p)"
  using page_store.save_good[of "statePrefix ct_token_id" p st] by (simp add: ct_save_def)

lemma ct_page_own: "own ct_token_id ct_page"
proof -
  have "own ct_token_id empty_page" by (simp add: own_states_def page_load_item getItem_def empty_page_def)
  then show ?thesis unfolding ct_page_def by (intro own_ct_save) (simp only: own_states_other)
qed

lemma ct_page_sel: "pa_storage ct_page \<noteq> None"
  by (simp add: ct_page_def saveCtKeys_def empty_page_def setItem_def)

lemma ct_page_keys: "loadCtKeys demo ''GA'' ct_token_id ct_page = Some ct_keys"
proof -
  have "ctKeysStorageKey ''GA'' ct_token_id \<noteq> statePrefix ct_token_id @ ''GA''"
    by (simp add: ctKeysStorageKey_def statePrefix_def)
  then show ?thesis using ct_keys_load[of "''GA''"]
    by (simp add: ct_page_def ct_save_def pageStore_sel(2) loadCtKeys_def getItem_setItem)
qed

lemma ct_page_holds: "holds 0 ct_page"
  unfolding ct_page_def by (rule holds_saved) (simp add: saveCtKeys_def empty_page_def setItem_def)

text \<open>On the answering network the keys resolve and the registration is marked.\<close>

definition marked :: "page \<Rightarrow> page" where
  "marked p = setItem (localRegistrationKey ''GA'' ct_token_id) ''0'' p"

lemma marked_sel [simp]:
  "pa_storage (marked p) = None \<longleftrightarrow> pa_storage p = None" "holds l (marked p) \<longleftrightarrow> holds l p"
  "loadCtKeys K a t (marked p) = loadCtKeys K a t p"
  by (simp_all add: marked_def loadCtKeys_mark)

lemma ct_resolve:
  assumes "loadCtKeys demo ''GA'' ct_token_id p = Some ct_keys" and "pa_storage p \<noteq> None"
  shows "resolveCtKeys (ct_env (\<lambda>_. True)) ct_scoped ''GA'' (p, n) = Some (Inr ct_keys, (marked p, n + 2))"
  using assms ct_status[of p "\<lambda>_. True" n "''GA''"] ct_scoped_configured
  by (simp add: resolveCtKeys_def requireCtConfig_def ctChainClient_def Let_def io_simps client_for_def
      ct_account_read ct_account_def equals_member_def marked_def)

lemma ct_create:
  assumes "loadCtKeys demo ''GA'' ct_token_id p = Some ct_keys" and "pa_storage p \<noteq> None" and "config \<in> {ct_config, ct_scoped}"
  shows "createConfidentialAssetStateEngine (ct_env (\<lambda>_. True)) config ''GA'' Eurc (p, n)
    = Some (Inr (ct_engine (\<lambda>_. True)), (marked p, n + 2))"
  using assms(3) ct_scoped_Inr[of "\<lambda>_. None"] ct_scoped_again ct_scoped_configured
  by (auto simp: createConfidentialAssetStateEngine_def io_simps ct_resolve[OF assms(1,2)] registrationClient_def
      ct_scoped_sel ct_engine_def)


end
