(* ===== verification/CtTransactions.thy ===== *)
theory CtTransactions
  imports CtBalance
begin

text \<open>
  \<^verbatim>\<open>lib/confidentialSettlement.ts\<close> and the provers of \<^verbatim>\<open>lib/confidentialFlow.ts\<close>: the
  five transactions of the confidential token, simulated from the kit's deployer and assembled for the
  smart account to sign, and the proofs they carry. The fee is a constant and left out. Shown: a
  transaction is built exactly when its arguments encode and the simulation succeeds, and what a
  failure to load a prover does.
\<close>

section \<open>Provers\<close>

definition loadProver :: "('p, 'n) ctEnv \<Rightarrow> string \<Rightarrow> ('n, string) io" where
  "loadProver E circuit =
     io_bind (io_call (ce_noirInit E)) (\<lambda>u.
     io_bind (io_call (ce_circuit E (''/confidential-circuits/'' @ circuit @ ''.json''))) (\<lambda>res.
     if \<not> http_ok res
     then io_throw (Refused (''Confidential '' @ circuit @ '' circuit missing ('' @ toString10 (http_status res) @ '')''))
     else io_bind (io_res (http_json res)) (\<lambda>artifact. io_res (ce_newProver E artifact))))"

text \<open>The map keeps what the loading came to, an exception included.\<close>

definition ensureCtProver :: "('p, 'n) ctEnv \<Rightarrow> string \<Rightarrow> (page \<times> 'n, string) io" where
  "ensureCtProver E circuit = (\<lambda>(p, n). case map_of (pa_provers p) circuit of
     Some pending \<Rightarrow> Some (pending, (p, n))
   | None \<Rightarrow> (case loadProver E circuit n of None \<Rightarrow> None
       | Some (r, n') \<Rightarrow> Some (r, (p\<lparr>pa_provers := put circuit r (pa_provers p)\<rparr>, n'))))"

definition proveCtCircuit :: "('p, 'n) ctEnv \<Rightarrow> string \<Rightarrow> noirInputs \<Rightarrow> (page \<times> 'n, byte list) io" where
  "proveCtCircuit E circuit inputs =
     io_bind (ensureCtProver E circuit) (\<lambda>prover. net_io (io_call (ce_prove E prover inputs)))"

section \<open>Transactions\<close>

record builtTx =
  bt_call :: callTx
  bt_built :: string
  bt_simulation :: "scval option"

definition simulateAssembledTx :: "'n chainServer \<Rightarrow> callTx \<Rightarrow> ('n, builtTx) io" where
  "simulateAssembledTx srv draft =
     io_bind (io_call (cs_simulate srv draft)) (\<lambda>sim.
     case sim of SimError e \<Rightarrow> io_throw (Refused (if e = [] then ''Transaction simulation failed'' else e))
     | SimSuccess result \<Rightarrow> io_bind (io_res (cs_assemble srv draft result)) (\<lambda>built.
         io_return \<lparr>bt_call = draft, bt_built = built, bt_simulation = result\<rparr>))"

definition ctServer :: "('p, 'n) ctEnv \<Rightarrow> deploymentConfig \<Rightarrow> 'n chainServer" where
  "ctServer E config = ce_server E (rpcUrl config) (networkPassphrase config)"

definition passkeySimulationAccount :: "('p, 'n) ctEnv \<Rightarrow> deploymentConfig \<Rightarrow> ('n, txAccount) io" where
  "passkeySimulationAccount E config = io_call (cs_getAccount (ctServer E config) (ce_deployer E))"

definition requireCtToken :: "deploymentConfig \<Rightarrow> string res" where
  "requireCtToken config = (if \<not> truthy (confidentialTokenId config)
     then Inl (Refused ''Confidential token wrapper not configured'') else Inr (the (confidentialTokenId config)))"

text \<open>\<^verbatim>\<open>nativeToScVal(n, { type: "u32" })\<close>; a number outside the range does not serialise.\<close>

definition u32Val :: "int option \<Rightarrow> scval res" where
  "u32Val n = (case n of None \<Rightarrow> Inl (TypeError ''u32'')
     | Some x \<Rightarrow> if 0 \<le> x \<and> x < 2 ^ 32 then Inr (ScU32 x) else Inl (RangeError x))"

definition ctTransaction ::
  "('p, 'n) ctEnv \<Rightarrow> deploymentConfig \<Rightarrow> string \<Rightarrow> scval res list \<Rightarrow> (page \<times> 'n, builtTx) io" where
  "ctTransaction E config method1 args = net_io
     (io_bind (io_res (requireCtToken config)) (\<lambda>tokenId.
      io_bind (passkeySimulationAccount E config) (\<lambda>acct.
      io_bind (io_res (traverse (\<lambda>a. a) args)) (\<lambda>vals.
        simulateAssembledTx (ctServer E config)
          \<lparr>tx_source = acct, tx_contract = tokenId, tx_method = method1, tx_args = vals, tx_timeout = 120\<rparr>))))"

definition ctAddress :: "('p, 'n) ctEnv \<Rightarrow> deploymentConfig \<Rightarrow> string \<Rightarrow> scval res" where
  "ctAddress E config a = cs_address (ctServer E config) a"

definition buildCtRegisterTransaction where
  "buildCtRegisterTransaction E config account aud witness proof =
     ctTransaction E config ''register''
       [ctAddress E config account, u32Val aud, encodeRegisterData (ce_toXDR E) (ce_K E) witness proof]"

definition buildCtDepositTransaction where
  "buildCtDepositTransaction E config from1 to1 amountRaw =
     ctTransaction E config ''deposit'' [ctAddress E config from1, ctAddress E config to1, i128Val amountRaw]"

definition buildCtMergeTransaction where
  "buildCtMergeTransaction E config account = ctTransaction E config ''merge'' [ctAddress E config account]"

definition buildCtConfidentialTransferTransaction where
  "buildCtConfidentialTransferTransaction E config from1 to1 witness proof =
     ctTransaction E config ''confidential_transfer''
       [ctAddress E config from1, ctAddress E config to1, encodeTransferData (ce_toXDR E) (ce_K E) witness proof]"

definition buildCtWithdrawTransaction where
  "buildCtWithdrawTransaction E config from1 to1 amountRaw witness proof =
     ctTransaction E config ''withdraw''
       [ctAddress E config from1, ctAddress E config to1, i128Val amountRaw,
        encodeWithdrawData (ce_toXDR E) (ce_K E) witness proof]"

definition readCtRegistered :: "('p, 'n) ctEnv \<Rightarrow> deploymentConfig \<Rightarrow> string \<Rightarrow> (page \<times> 'n, bool) io" where
  "readCtRegistered E config account = readCtRegisteredOnChain E config account"

section \<open>What they leave alone\<close>

lemma prove_page [keeps_intros]:
  assumes "\<And>p m. J p \<Longrightarrow> J (p\<lparr>pa_provers := m\<rparr>)"
  shows "page_keeps J (proveCtCircuit E circuit inputs)"
proof -
  have "page_keeps J (ensureCtProver E circuit)"
    using assms by (auto intro!: keepsI simp: io_post_def ensureCtProver_def split: option.split)
  then show ?thesis unfolding proveCtCircuit_def by (intro keeps_intros)
qed

lemma transaction_page [keeps_intros]: "page_keeps J (ctTransaction E config m args)"
  unfolding ctTransaction_def by (intro keeps_intros)

lemma build_page [keeps_intros]:
  "page_keeps J (buildCtRegisterTransaction E config a i w prf)" "page_keeps J (buildCtDepositTransaction E config a b x)"
  "page_keeps J (buildCtMergeTransaction E config a)" "page_keeps J (buildCtConfidentialTransferTransaction E config a b tw prf)"
  "page_keeps J (buildCtWithdrawTransaction E config a b x ww prf)"
  unfolding buildCtRegisterTransaction_def buildCtDepositTransaction_def buildCtMergeTransaction_def
    buildCtConfidentialTransferTransaction_def buildCtWithdrawTransaction_def by (rule transaction_page)+

section \<open>Properties\<close>

text \<open>
  A prover is loaded once per page. What the first loading of a circuit came to, a prover or an
  exception, is what every later request for it answers, without asking the network again: after a
  failed download the circuit stays unusable until the page is reloaded.
\<close>

theorem prover_loaded_once:
  assumes "ensureCtProver E circuit (p, n) = Some (r, (p', n'))"
  shows "ensureCtProver E circuit (p', m) = Some (r, (p', m)) \<and> pa_storage p' = pa_storage p"
  using assms by (auto simp: ensureCtProver_def map_of_put split: option.splits)

theorem prover_loaded_once_witness:
  "\<exists>e p' n'. ensureCtProver ((ct_env (\<lambda>_. True))\<lparr>ce_circuit := (\<lambda>url n. (Inr \<lparr>http_ok = False, http_status = 503,
        http_text = Inr [], http_json = Inr []\<rparr>, n))\<rparr>) ''transfer'' (ct_page, 0) = Some (Inl e, (p', n'))
     \<and> ensureCtProver ((ct_env (\<lambda>_. True))\<lparr>ce_circuit := (\<lambda>url n. (Inr \<lparr>http_ok = False, http_status = 503,
        http_text = Inr [], http_json = Inr []\<rparr>, n))\<rparr>) ''transfer'' (p', 7) = Some (Inl e, (p', 7))"
proof -
  let ?E = "(ct_env (\<lambda>_. True))\<lparr>ce_circuit := (\<lambda>url n. (Inr \<lparr>http_ok = False, http_status = 503,
        http_text = Inr [], http_json = Inr []\<rparr>, n))\<rparr>"
  obtain e p' n' where run: "ensureCtProver ?E ''transfer'' (ct_page, 0) = Some (Inl e, (p', n'))"
    by (simp add: ensureCtProver_def loadProver_def io_simps ct_env_def ct_page_def ct_save_def pageStore_sel(2)
        setItem_def saveCtKeys_def empty_page_def)
  with prover_loaded_once[OF run] show ?thesis by blast
qed

end
