(* ===== verification/CtFlow.thy ===== *)
theory CtFlow
  imports CtTransactions Amounts
begin

text \<open>
  The flows of \<^verbatim>\<open>lib/confidentialFlow.ts\<close>: registering with the confidential token,
  shielding public tokens, merging what was received, sending privately and unshielding. Signing and
  sending a transaction is the caller's \<^verbatim>\<open>submitTx\<close>, a parameter. Progress messages
  and traces are left out. Shown: after a success the stored spendable balance is the one the proof
  was made for, and which opening of the chain's commitment it came from.
\<close>

section \<open>Registering\<close>

type_synonym 'n submitTx = "builtTx \<Rightarrow> string \<Rightarrow> (page \<times> 'n, string) io"

text \<open>The part the flows share: prove, build, submit.\<close>

definition submitRegistration ::
  "('p, 'n) ctEnv \<Rightarrow> deploymentConfig \<Rightarrow> string \<Rightarrow> 'n submitTx \<Rightarrow> 'p keyPair \<Rightarrow> (page \<times> 'n, string) io" where
  "submitRegistration E config smartAccount submit keys =
     (let witness = buildRegisterWitness (ce_K E) keys in
      io_bind (proveCtCircuit E ''register'' (rw_inputs witness)) (\<lambda>prf.
      io_bind (buildCtRegisterTransaction E config smartAccount
          (given (confidentialAuditorIdNum config) (Some 1)) witness prf) (\<lambda>registerTx.
        submit registerTx ''register'')))"

definition confirmRegistration ::
  "('p, 'n) ctEnv \<Rightarrow> deploymentConfig \<Rightarrow> string \<Rightarrow> assetKey \<Rightarrow> (page \<times> 'n, unit) io" where
  "confirmRegistration E config smartAccount key =
     (if truthy (confidentialTokenId config)
      then io_bind (markCtRegisteredLocally E smartAccount (the (confidentialTokenId config))) (\<lambda>u.
        initializeCtStateFromEvents E config smartAccount key)
      else io_return ())"

definition registerConfidentialAccount ::
  "('p, 'n) ctEnv \<Rightarrow> deploymentConfig \<Rightarrow> assetKey option \<Rightarrow> string \<Rightarrow> 'n submitTx \<Rightarrow> (page \<times> 'n, string) io" where
  "registerConfidentialAccount E input_config asset smartAccount submit =
     (let key = given asset Eurc in
      io_bind (io_res (ctConfigForAsset (ce_vite E) input_config key)) (\<lambda>config.
      io_bind (readCtRegistered E config smartAccount) (\<lambda>registered.
      if registered then io_return []
      else io_bind (getOrCreateCtKeys E config smartAccount) (\<lambda>keys.
        io_bind (submitRegistration E config smartAccount submit keys) (\<lambda>hash1.
        io_bind (if hash1 \<noteq> [] then confirmRegistration E config smartAccount key else io_return ()) (\<lambda>u.
        io_return hash1))))))"

text \<open>The first step of sending and shielding; the result lists the hashes of what was submitted.\<close>

definition registerFirst ::
  "('p, 'n) ctEnv \<Rightarrow> deploymentConfig \<Rightarrow> string \<Rightarrow> assetKey \<Rightarrow> 'n submitTx \<Rightarrow> 'p keyPair \<Rightarrow> (page \<times> 'n, string list) io" where
  "registerFirst E config smartAccount key submit keys =
     io_bind (readCtRegistered E config smartAccount) (\<lambda>registered.
     if registered then io_return []
     else io_bind (submitRegistration E config smartAccount submit keys) (\<lambda>hash1.
       io_bind (confirmRegistration E config smartAccount key) (\<lambda>u. io_return [hash1])))"

section \<open>Sending\<close>

definition positiveAmount :: "string \<Rightarrow> int res" where
  "positiveAmount amount = rbind (parseStellarAmount amount 7) (\<lambda>raw.
     if raw \<le> 0 then Inl (Refused ''Enter a positive amount.'') else Inr raw)"

text \<open>The options of a wait after a transaction.\<close>

definition after_tx :: "deploymentConfig \<Rightarrow> string \<Rightarrow> bool \<Rightarrow> bool \<Rightarrow> waitOptions" where
  "after_tx config hash1 receiving spendable = Engine.no_options\<lparr>wo_rpcUrl := Some (rpcUrl config), wo_afterTxHash := Some hash1,
     wo_requireReceiving := receiving, wo_requireSpendable := spendable, wo_allowRebuild := Some True\<rparr>"

definition freshScalar :: "('p, 'n) ctEnv \<Rightarrow> (page \<times> 'n, int) io" where
  "freshScalar E = io_bind (draw (ce_random E)) (\<lambda>samples w.
     case randomScalar samples of None \<Rightarrow> None | Some (x, rest) \<Rightarrow> Some (Inr x, w))"

definition recipientAccount ::
  "('p, 'n) ctEnv \<Rightarrow> deploymentConfig \<Rightarrow> 'n chainClient \<Rightarrow> string \<Rightarrow> string \<Rightarrow> (page \<times> 'n, 'p onChainAccount) io" where
  "recipientAccount E config client label recipient =
     io_bind (readCtRegistered E config recipient) (\<lambda>registered.
     if \<not> registered
     then io_throw (Refused (''Recipient '' @ recipient @ '' is not registered for confidential '' @ label @ ''. '' @
       ''The recipient must open Lumengate Private Mode once so their confidential account can be created before receiving.''))
     else io_bind (net_io (confidentialBalance (ce_K E) client recipient)) (\<lambda>acc.
     case acc of None \<Rightarrow> io_throw (Refused ''Recipient confidential account could not be read from Stellar.'')
     | Some x \<Rightarrow> io_return x))"

text \<open>Lines 330 to 337; \<^verbatim>\<open>registered\<close> is true by then.\<close>

definition reconcileSender ::
  "('p, page, 'n) engine \<Rightarrow> contractIds \<Rightarrow> (page \<times> 'n, accountState \<times> verified) io" where
  "reconcileSender engine contracts = io_bind (reconcileForRead engine) (\<lambda>(st, v).
     if \<not> vf_spendableOk v
     then io_throw (Refused ''Confidential spendable balance is syncing with Stellar. Wait a moment and try again.'')
     else if \<not> st_registered st then
       let st1 = st\<lparr>st_registered := True\<rparr> in
       io_bind (store_io (ss_save (pageStore (statePrefix (c_token contracts))) st1)) (\<lambda>u. io_return (st1, v))
     else io_return (st, v))"

definition depositMissing where
  "depositMissing E config label smartAccount submit engine amountRaw st v =
     (let usableReceiving = (if vf_receivingOk v then op_v (st_receiving st) else 0);
          totalConfidential = op_v (st_spendable st) + usableReceiving in
      if totalConfidential < amountRaw then
        if \<not> vf_receivingOk v \<and> op_v (st_receiving st) > 0
        then io_throw (Refused (''Received private '' @ label @ '' is still syncing with Stellar. Spendable balance can be sent now, '' @
          ''but wait before auto-shielding or merging additional received balance.''))
        else io_bind (buildCtDepositTransaction E config smartAccount smartAccount (amountRaw - totalConfidential)) (\<lambda>depositTx.
          io_bind (submit depositTx ''deposit'') (\<lambda>depositHash.
          io_bind (waitUntilVerified engine (after_tx config depositHash True False)) (\<lambda>st1.
          io_bind (verifyAgainstChain engine) (\<lambda>v1. io_return (st1, v1, [depositHash])))))
      else io_return (st, v, []))"

definition mergeMissing where
  "mergeMissing E config label smartAccount submit engine amountRaw st v =
     (if op_v (st_spendable st) < amountRaw \<and> (op_v (st_receiving st) > 0 \<or> op_r (st_receiving st) \<noteq> 0) then
        if \<not> vf_receivingOk v
        then io_throw (Refused (''Received private '' @ label @ '' is syncing with Stellar. Wait a moment before merging it into spendable balance.''))
        else io_bind (buildCtMergeTransaction E config smartAccount) (\<lambda>mergeTx.
          io_bind (submit mergeTx ''merge'') (\<lambda>mergeHash.
          io_bind (waitUntilVerified engine (after_tx config mergeHash False True)) (\<lambda>st1.
          io_bind (verifyAgainstChain engine) (\<lambda>v1. io_return (st1, [mergeHash])))))
      else io_return (st, []))"

text \<open>An identifier that is missing becomes the void value.\<close>

definition auditorKeyOf :: "('p, 'n) ctEnv \<Rightarrow> 'n chainClient \<Rightarrow> int option \<Rightarrow> (page \<times> 'n, 'p) io" where
  "auditorKeyOf E client aud = net_io (case aud of Some i \<Rightarrow> auditorKey (ce_K E) client i
     | None \<Rightarrow> io_bind (simulate (cc_server client) (c_auditor (cc_contracts client)) ''get_key'' [ScVoid])
         (\<lambda>retval. io_res (val_point (ce_K E) retval)))"

definition the_member :: "'a option \<Rightarrow> 'a res" where
  "the_member x = (case x of None \<Rightarrow> Inl (TypeError ''undefined'') | Some y \<Rightarrow> Inr y)"

definition nextOpening :: "'p nextSpendable \<Rightarrow> Opening" where
  "nextOpening nxt = \<lparr>op_v = n_v nxt, op_r = n_r nxt\<rparr>"

definition sendTransfer where
  "sendTransfer E config client label smartAccount recipient submit engine keys amountRaw recAcc st =
     (if op_v (st_spendable st) < amountRaw
      then io_throw (Refused (''Insufficient confidential '' @ label @ '' after shielding (have '' @
        toString10 (op_v (st_spendable st)) @ '', need '' @ toString10 amountRaw @ '').''))
      else io_bind (net_io (confidentialBalance (ce_K E) client smartAccount)) (\<lambda>acc.
        case acc of None \<Rightarrow> io_throw (Refused ''Sender confidential account missing on chain after registration.'')
        | Some sender \<Rightarrow>
          io_bind (auditorKeyOf E client (oc_auditorId recAcc)) (\<lambda>kAudR.
          io_bind (auditorKeyOf E client (oc_auditorId sender)) (\<lambda>kAudS.
          io_bind (freshScalar E) (\<lambda>fs.
          io_bind (io_res (the_member (oc_viewingPublicKey recAcc))) (\<lambda>pvkB.
          io_bind (io_res (buildTransferWitness (ce_K E)
            \<lparr>tp_keys = keys, tp_v = op_v (st_spendable st), tp_r = op_r (st_spendable st), tp_amount = amountRaw,
             tp_pvkB = pvkB, tp_kAudR = kAudR, tp_kAudS = kAudS, tp_sigma = None, tp_rE = None\<rparr> fs)) (\<lambda>witness.
          io_bind (proveCtCircuit E ''transfer'' (tw_inputs witness)) (\<lambda>prf.
          io_bind (buildCtConfidentialTransferTransaction E config smartAccount recipient witness prf) (\<lambda>transferTx.
          io_bind (submit transferTx ''transfer'') (\<lambda>txHash.
          io_bind (setSpendable engine (nextOpening (tw_next witness))) (\<lambda>u.
          io_return txHash)))))))))))"

record flowResult =
  fl_txHash :: string
  fl_steps :: "string list"

definition executeConfidentialSettlement where
  "executeConfidentialSettlement E input_config asset smartAccount recipient amount submit =
     (let key = given asset Eurc; label = assetLabel (ce_vite E) input_config key in
      io_bind (io_res (ctConfigForAsset (ce_vite E) input_config key)) (\<lambda>config.
      io_bind (io_res (requireCtConfig config)) (\<lambda>contracts.
      io_bind (io_res (positiveAmount amount)) (\<lambda>amountRaw.
      io_bind (io_res (ctChainClient E config)) (\<lambda>client.
      io_bind (resolveCtKeys E config smartAccount) (\<lambda>keys.
      io_bind (createConfidentialAssetStateEngine E config smartAccount key) (\<lambda>engine.
      io_bind (registerFirst E config smartAccount key submit keys) (\<lambda>hs0.
      io_bind (recipientAccount E config client label recipient) (\<lambda>recAcc.
      io_bind (reconcileSender engine contracts) (\<lambda>(st, v).
      io_bind (depositMissing E config label smartAccount submit engine amountRaw st v) (\<lambda>(st1, v1, hs1).
      io_bind (mergeMissing E config label smartAccount submit engine amountRaw st1 v1) (\<lambda>(st2, hs2).
      io_bind (sendTransfer E config client label smartAccount recipient submit engine keys amountRaw recAcc st2) (\<lambda>txHash.
      io_return \<lparr>fl_txHash = txHash, fl_steps = hs0 @ hs1 @ hs2 @ [txHash]\<rparr>)))))))))))))"

section \<open>Shielding and merging\<close>

definition mergeAndWait where
  "mergeAndWait E config smartAccount submit engine =
     io_bind (buildCtMergeTransaction E config smartAccount) (\<lambda>mergeTx.
     io_bind (submit mergeTx ''merge'') (\<lambda>mergeHash.
     io_bind (waitUntilVerified engine (after_tx config mergeHash False True)) (\<lambda>st.
     io_return (st, mergeHash))))"

definition shieldConfidentialAsset where
  "shieldConfidentialAsset E input_config asset smartAccount amount submit =
     (let key = given asset Eurc in
      io_bind (io_res (ctConfigForAsset (ce_vite E) input_config key)) (\<lambda>config.
      io_bind (io_res (positiveAmount amount)) (\<lambda>amountRaw.
      io_bind (resolveCtKeys E config smartAccount) (\<lambda>keys.
      io_bind (createConfidentialAssetStateEngine E config smartAccount key) (\<lambda>engine.
      io_bind (registerFirst E config smartAccount key submit keys) (\<lambda>hs0.
      io_bind (buildCtDepositTransaction E config smartAccount smartAccount amountRaw) (\<lambda>depositTx.
      io_bind (submit depositTx ''deposit'') (\<lambda>depositHash.
      io_bind (waitUntilVerified engine (after_tx config depositHash True False)) (\<lambda>st.
      if op_v (st_receiving st) \<le> 0 \<and> op_r (st_receiving st) = 0
      then io_throw (Refused ''Shield deposit succeeded, but no private receiving balance was found.'')
      else io_bind (mergeAndWait E config smartAccount submit engine) (\<lambda>(st1, mergeHash).
        if op_v (st_spendable st1) < amountRaw
        then io_throw (Refused ''Shield merge completed, but private spendable balance did not match the shielded amount.'')
        else io_return \<lparr>fl_txHash = mergeHash, fl_steps = hs0 @ [depositHash, mergeHash]\<rparr>))))))))))"

definition mergeConfidentialAsset where
  "mergeConfidentialAsset E input_config asset smartAccount submit =
     (let key = given asset Eurc; label = assetLabel (ce_vite E) input_config key in
      io_bind (io_res (ctConfigForAsset (ce_vite E) input_config key)) (\<lambda>config.
      io_bind (resolveCtKeys E config smartAccount) (\<lambda>keys.
      io_bind (createConfidentialAssetStateEngine E config smartAccount key) (\<lambda>engine.
      io_bind (reconcileForRead engine) (\<lambda>(st, v).
      if op_v (st_receiving st) \<le> 0 \<and> op_r (st_receiving st) = 0
      then io_throw (Refused (''No received private '' @ label @ '' is waiting to merge.''))
      else io_bind (if vf_receivingOk v then io_return v
        else io_bind (waitUntilVerified engine (Engine.no_options\<lparr>wo_rpcUrl := Some (rpcUrl config),
            wo_requireReceiving := True, wo_allowRebuild := Some True\<rparr>)) (\<lambda>st1. verifyAgainstChain engine)) (\<lambda>v1.
      if \<not> vf_receivingOk v1
      then io_throw (Refused (''Received private '' @ label @ '' is still syncing with Stellar. Wait a moment before merging.''))
      else io_bind (mergeAndWait E config smartAccount submit engine) (\<lambda>(st2, txHash).
        io_return \<lparr>fl_txHash = txHash, fl_steps = [txHash]\<rparr>)))))))"

section \<open>Unshielding\<close>

definition withdrawPublic where
  "withdrawPublic E config client label smartAccount submit engine keys amountRaw st =
     (if op_v (st_spendable st) < amountRaw
      then io_throw (Refused (''Insufficient private '' @ label @ '' to unshield (have '' @
        toString10 (op_v (st_spendable st)) @ '', need '' @ toString10 amountRaw @ '').''))
      else io_bind (net_io (confidentialBalance (ce_K E) client smartAccount)) (\<lambda>acc.
        case acc of None \<Rightarrow> io_throw (Refused (''Confidential '' @ label @ '' account is not registered on chain.''))
        | Some sender \<Rightarrow>
          io_bind (auditorKeyOf E client (oc_auditorId sender)) (\<lambda>kAudS.
          io_bind (freshScalar E) (\<lambda>fs.
          io_bind (freshScalar E) (\<lambda>fr.
          io_bind (io_res (buildWithdrawWitness (ce_K E)
            \<lparr>wp_keys = keys, wp_v = op_v (st_spendable st), wp_r = op_r (st_spendable st), wp_amount = amountRaw,
             wp_kAudS = kAudS, wp_sigma = None, wp_rE = None\<rparr> fs fr)) (\<lambda>witness.
          io_bind (proveCtCircuit E ''withdraw'' (ww_inputs witness)) (\<lambda>prf.
          io_bind (buildCtWithdrawTransaction E config smartAccount smartAccount amountRaw witness prf) (\<lambda>withdrawTx.
          io_bind (submit withdrawTx ''withdraw'') (\<lambda>txHash.
          io_bind (setSpendable engine (nextOpening (ww_next witness))) (\<lambda>u.
          io_return txHash))))))))))"

definition unshieldConfidentialAsset where
  "unshieldConfidentialAsset E input_config asset smartAccount amount submit =
     (let key = given asset Eurc; label = assetLabel (ce_vite E) input_config key in
      io_bind (io_res (ctConfigForAsset (ce_vite E) input_config key)) (\<lambda>config.
      io_bind (io_res (positiveAmount amount)) (\<lambda>amountRaw.
      io_bind (io_res (ctChainClient E config)) (\<lambda>client.
      io_bind (resolveCtKeys E config smartAccount) (\<lambda>keys.
      io_bind (createConfidentialAssetStateEngine E config smartAccount key) (\<lambda>engine.
      io_bind (waitUntilVerified engine (Engine.no_options\<lparr>wo_rpcUrl := Some (rpcUrl config)\<rparr>)) (\<lambda>st.
      io_bind (if op_v (st_spendable st) < amountRaw \<and> op_v (st_receiving st) > 0
        then io_bind (mergeAndWait E config smartAccount submit engine) (\<lambda>(st1, h). io_return (st1, [h]))
        else io_return (st, [])) (\<lambda>(st2, hs).
      io_bind (withdrawPublic E config client label smartAccount submit engine keys amountRaw st2) (\<lambda>txHash.
      io_return \<lparr>fl_txHash = txHash, fl_steps = hs @ [txHash]\<rparr>)))))))))"

definition readConfidentialRegistered ::
  "('p, 'n) ctEnv \<Rightarrow> deploymentConfig \<Rightarrow> string \<Rightarrow> assetKey \<Rightarrow> (page \<times> 'n, bool) io" where
  "readConfidentialRegistered E config account key =
     io_bind (io_res (ctConfigForAsset (ce_vite E) config key)) (\<lambda>scoped.
     io_bind (readCtRegistrationStatus E scoped account) (\<lambda>status. io_return (rs_registered status)))"

text \<open>The older names, for EURC only.\<close>

definition registerConfidentialEurcAccount where
  "registerConfidentialEurcAccount E config smartAccount submit =
     registerConfidentialAccount E config (Some Eurc) smartAccount submit"

definition executeConfidentialEurcSettlement where
  "executeConfidentialEurcSettlement E config smartAccount recipient amount submit =
     executeConfidentialSettlement E config (Some Eurc) smartAccount recipient amount submit"

definition shieldConfidentialEurc where
  "shieldConfidentialEurc E config smartAccount amount submit =
     shieldConfidentialAsset E config (Some Eurc) smartAccount amount submit"

definition mergeConfidentialEurc where
  "mergeConfidentialEurc E config smartAccount submit = mergeConfidentialAsset E config (Some Eurc) smartAccount submit"

definition unshieldConfidentialEurc where
  "unshieldConfidentialEurc E config smartAccount amount submit =
     unshieldConfidentialAsset E config (Some Eurc) smartAccount amount submit"

definition readConfidentialEurcRegistered where
  "readConfidentialEurcRegistered E config account = readConfidentialRegistered E config account Eurc"

section \<open>The page along a flow\<close>

text \<open>
  A submission that leaves the stored states alone; every step then does, and the next engine reads
  what the last one saved.
\<close>

definition safe_submit :: "string \<Rightarrow> 'n submitTx \<Rightarrow> bool" where
  "safe_submit t submit \<longleftrightarrow> (\<forall>tx label. page_keeps (own t) (submit tx label))"

lemma submit_own [keeps_intros]: "safe_submit t submit \<Longrightarrow> page_keeps (own t) (submit tx label)"
  by (simp add: safe_submit_def)

lemma provers_own [simp]: "own t (p\<lparr>pa_provers := m\<rparr>) \<longleftrightarrow> own t p"
  by (simp add: own_states_def page_load_item getItem_def)

lemma own_after:
  assumes "page_keeps (own t) m" and "own t (fst w)"
  shows "io_post m w (\<lambda>r w'. own t (fst w'))"
  using keeps_post[OF assms] .

lemma wait_own:
  assumes "en_store e = pageStore (statePrefix t)" and "own t (fst w)"
  shows "io_post (waitUntilVerified e opts) w (\<lambda>r w'. own t (fst w')
     \<and> (\<forall>st. r = Inr st \<longrightarrow> Reconcile.settled e st (fst w') \<and> waited e opts st))"
  using assms by (cases w) (auto intro!: page_store.wait_post)

lemma reconcile_own:
  assumes "en_store e = pageStore (statePrefix t)" and "own t (fst w)"
  shows "io_post (reconcileForRead e) w (\<lambda>r w'. own t (fst w')
     \<and> (\<forall>st v. r = Inr (st, v) \<and> vf_spendableOk v \<longrightarrow> attested e st v))"
  using assms by (cases w) (auto intro!: io_post_mono[OF page_store.reconcile_post])

lemma rebuild_own:
  assumes "en_store e = pageStore (statePrefix t)"
  shows "page_keeps (own t) (rebuildFromEvents e)"
  using assms by (auto intro!: keepsI io_post_mono[OF page_store.rebuild_post])

lemma verify_own:
  assumes "en_store e = pageStore (statePrefix t)"
  shows "page_keeps (own t) (verifyAgainstChain e)"
proof -
  have "page_keeps (own t) (current e)"
    using assms by (auto intro!: keepsI io_post_mono[OF page_store.current_post])
  then show ?thesis unfolding verifyAgainstChain_def by (intro keeps_intros)
qed

text \<open>What is stored as the spendable balance is read back.\<close>

definition stored_spendable :: "string \<Rightarrow> string \<Rightarrow> Opening \<Rightarrow> page \<Rightarrow> bool" where
  "stored_spendable t a x p \<longleftrightarrow> (\<exists>st. ss_load (pageStore (statePrefix t)) a p = (Inr (Some st), p) \<and> st_spendable st = x)"

lemma set_own:
  assumes "en_store e = pageStore (statePrefix t)" and "own t (fst w)"
  shows "io_post (setSpendable e x) w (\<lambda>r w'. own t (fst w')
     \<and> (\<forall>st. r = Inr st \<and> nonneg_opening x \<longrightarrow> stored_spendable t (en_address e) x (fst w')))"
proof (cases w)
  case (Pair p n)
  with assms(2) have p: "own t p" by simp
  then have some: "pa_storage p \<noteq> None" by (simp add: own_states_def)
  have saved: "io_post (io_bind (save_state e (st\<lparr>st_spendable := x\<rparr>)) (\<lambda>u. io_return (st\<lparr>st_spendable := x\<rparr>))) (p, n)
      (\<lambda>r w'. own t (fst w') \<and> (\<forall>st. r = Inr st \<and> nonneg_opening x \<longrightarrow> stored_spendable t (en_address e) x (fst w')))"
    if load: "given prior (freshState (en_address e)) = st" "ss_load (pageStore (statePrefix t)) (en_address e) p = (Inr prior, p)" for st prior
  proof -
    let ?q = "snd (ss_save (pageStore (statePrefix t)) (st\<lparr>st_spendable := x\<rparr>) p)"
    have st: "st_address st = en_address e" "storable st"
    proof -
      have "st_address st = en_address e \<and> storable st"
      proof (cases prior)
        case None
        with load(1) have "st = freshState (en_address e)" by (simp add: given_def)
        then show ?thesis by (simp add: freshState_def storable_def nonneg_opening_def zero_opening_def)
      next
        case (Some st')
        then have "st' = st" "fst (ss_load (pageStore (statePrefix t)) (en_address e) p) = Inr (Some st')"
          using load by (simp_all add: given_def)
        then show ?thesis using p by (simp add: own_states_def)
      qed
      then show "st_address st = en_address e" "storable st" by simp_all
    qed
    have "stored_spendable t (en_address e) x ?q" if "nonneg_opening x"
    proof -
      have "storable (st\<lparr>st_spendable := x\<rparr>)" using st that by (simp add: storable_def)
      then have "fst (ss_load (pageStore (statePrefix t)) (en_address e) ?q) = Inr (Some (st\<lparr>st_spendable := x\<rparr>))"
        using page_load_saved[OF some, of "statePrefix t" "en_address e"] st(1) by (simp add: reviveState_stateJson)
      then show ?thesis unfolding stored_spendable_def by (intro exI[of _ "st\<lparr>st_spendable := x\<rparr>"]) (auto simp: prod_eq_iff page_store.load_pure)
    qed
    then show ?thesis using page_store.save_good[OF p, of "st\<lparr>st_spendable := x\<rparr>"] assms(1)
      by (cases "ss_save (pageStore (statePrefix t)) (st\<lparr>st_spendable := x\<rparr>) p")
        (auto simp: save_state_def io_wp split: sum.split)
  qed
  obtain r where r: "ss_load (pageStore (statePrefix t)) (en_address e) p = (r, p)"
    using page_store.load_pure[of "statePrefix t" "en_address e" p] by (metis prod.collapse)
  show ?thesis
  proof (cases r)
    case (Inl err)
    then have "current e (p, n) = Some (Inl err, (p, n))" using r assms(1) by (simp add: current_def load_state_def io_simps)
    then show ?thesis using p by (simp add: setSpendable_def Pair io_post_def io_bind_def)
  next
    case (Inr prior)
    then have "current e (p, n) = Some (Inr (given prior (freshState (en_address e))), (p, n))"
      using r assms(1) by (simp add: current_def load_state_def io_simps)
    then have "setSpendable e x (p, n) = (let st = given prior (freshState (en_address e)) in
        io_bind (save_state e (st\<lparr>st_spendable := x\<rparr>)) (\<lambda>u. io_return (st\<lparr>st_spendable := x\<rparr>)) (p, n))"
      by (simp add: setSpendable_def io_bind_def Let_def)
    moreover have "ss_load (pageStore (statePrefix t)) (en_address e) p = (Inr prior, p)" using r Inr by simp
    ultimately show ?thesis using saved[OF refl] by (simp only: Pair io_post_def Let_def)
  qed
qed

section \<open>What the steps guarantee\<close>

definition spendable_opens :: "('p, 'n) ctEnv \<Rightarrow> deploymentConfig \<Rightarrow> string \<Rightarrow> Opening \<Rightarrow> bool" where
  "spendable_opens E config a x \<longleftrightarrow> (\<exists>n n' acc P.
     confidentialBalance (ce_K E) (client_for E config (ctContracts config)) a n = Some (Inr (Some acc), n')
     \<and> oc_spendableBalance acc = Some P \<and> pequals (ce_K E) (commit (ce_K E) (op_v x) (op_r x)) P)"

definition flow_engine :: "('p, 'n) ctEnv \<Rightarrow> deploymentConfig \<Rightarrow> string \<Rightarrow> ('p, page, 'n) engine \<Rightarrow> bool" where
  "flow_engine E config a e \<longleftrightarrow> (\<exists>key keys l. e = engine_for E config key a keys (client_for E config (ctContracts config)) l)"

abbreviation token_of :: "deploymentConfig \<Rightarrow> string" where
  "token_of config \<equiv> the (confidentialTokenId config)"

lemma flow_engine_sel:
  assumes "flow_engine E config a e"
  shows "en_store e = pageStore (statePrefix (token_of config))" and "en_address e = a"
    and "chain_opening e oc_spendableBalance x \<longleftrightarrow> spendable_opens E config a x"
proof -
  from assms obtain key keys l where e: "e = engine_for E config key a keys (client_for E config (ctContracts config)) l"
    by (auto simp: flow_engine_def)
  show "en_store e = pageStore (statePrefix (token_of config))" "en_address e = a"
    "chain_opening e oc_spendableBalance x \<longleftrightarrow> spendable_opens E config a x"
    by (simp_all add: e engine_for_def chain_opening_def spendable_opens_def)
qed

lemma create_flow:
  assumes "ctConfigForAsset (ce_vite E) config key = Inr config" and "own (token_of config) (fst w)"
  shows "io_post (createConfidentialAssetStateEngine E config a key) w
     (\<lambda>r w'. own (token_of config) (fst w') \<and> (\<forall>e. r = Inr e \<longrightarrow> flow_engine E config a e))"
  using assms create_post[OF assms(1), of "token_of config" "fst w" a "snd w"]
  by (auto simp: flow_engine_def elim!: io_post_mono)

lemma wait_flow:
  assumes "flow_engine E config a e" and "own (token_of config) (fst w)"
  shows "io_post (waitUntilVerified e opts) w (\<lambda>r w'. own (token_of config) (fst w') \<and> (\<forall>st. r = Inr st \<longrightarrow>
     (wo_requireSpendable opts \<or> \<not> wo_requireReceiving opts \<longrightarrow> spendable_opens E config a (st_spendable st))))"
proof (rule io_post_mono[OF wait_own[OF flow_engine_sel(1)[OF assms(1)] assms(2)]], intro conjI allI impI)
  fix r w' st
  assume "own (token_of config) (fst w') \<and> (\<forall>st. r = Inr st \<longrightarrow> Reconcile.settled e st (fst w') \<and> waited e opts st)"
    and "r = Inr st" and need: "wo_requireSpendable opts \<or> \<not> wo_requireReceiving opts"
  then have "waited e opts st" by blast
  then obtain v where "meets opts v" and att: "attested e st v" by (auto simp: waited_def)
  with need have "vf_spendableOk v" by (auto simp: meets_def attested_def split: if_splits)
  with att show "spendable_opens E config a (st_spendable st)"
    using flow_engine_sel(3)[OF assms(1)] by (simp add: attested_def)
qed simp

lemma verify_flow:
  assumes "flow_engine E config a e" and "own (token_of config) (fst w)"
  shows "io_post (verifyAgainstChain e) w (\<lambda>r w'. own (token_of config) (fst w'))"
  by (rule own_after[OF verify_own[OF flow_engine_sel(1)[OF assms(1)]] assms(2)])

lemma initialize_own:
  assumes "ctConfigForAsset (ce_vite E) config key = Inr config"
  shows "page_keeps (own (token_of config)) (initializeCtStateFromEvents E config a key)"
proof (rule keepsI)
  fix w :: "page \<times> 'b" assume w: "own (token_of config) (fst w)"
  have rebuild: "io_post (rebuildFromEvents e) w (\<lambda>r w'. own (token_of config) (fst w'))"
    if "flow_engine E config a e" "own (token_of config) (fst w)" for e w
    by (rule own_after[OF rebuild_own[OF flow_engine_sel(1)[OF that(1)]] that(2)])
  show "io_post (initializeCtStateFromEvents E config a key) w (\<lambda>r w'. own (token_of config) (fst w'))"
    unfolding initializeCtStateFromEvents_def
    by (rule io_post_bindI[OF create_flow[OF assms w]])
      (auto simp: io_post_return intro!: io_post_bindI[OF rebuild] io_post_bindI[OF verify_flow])
qed

lemma registration_steps_own [keeps_intros]:
  assumes "safe_submit t submit"
  shows "page_keeps (own t) (submitRegistration E config a submit keys)"
  unfolding submitRegistration_def Let_def using assms by (intro keeps_intros) simp_all

lemma confirm_own:
  assumes "ctConfigForAsset (ce_vite E) config key = Inr config"
  shows "page_keeps (own (token_of config)) (confirmRegistration E config a key)"
  unfolding confirmRegistration_def by (intro keeps_intros initialize_own assms)

lemma readCtRegistered_own [keeps_intros]: "page_keeps (own t) (readCtRegistered E config a)"
  unfolding readCtRegistered_def by (rule keeps_intros)

text \<open>
  A transaction built from one world on and submitted from the next under a label, with its hash; the
  registration as \<^const>\<open>submitRegistration\<close> does it.
\<close>

definition submitted ::
  "(page \<times> 'n, builtTx) io \<Rightarrow> 'n submitTx \<Rightarrow> string \<Rightarrow> string \<Rightarrow> page \<times> 'n \<Rightarrow> page \<times> 'n \<Rightarrow> bool" where
  "submitted build submit label h w w' \<longleftrightarrow> (\<exists>tx q. build w = Some (Inr tx, q) \<and> submit tx label q = Some (Inr h, w'))"

definition registered_by ::
  "('p, 'n) ctEnv \<Rightarrow> deploymentConfig \<Rightarrow> string \<Rightarrow> 'n submitTx \<Rightarrow> 'p keyPair \<Rightarrow> string list \<Rightarrow> bool" where
  "registered_by E config a submit keys hs \<longleftrightarrow>
     hs = [] \<or> (\<exists>h w w'. hs = [h] \<and> submitRegistration E config a submit keys w = Some (Inr h, w'))"

lemma own_next: "page_keeps (own t) m \<Longrightarrow> own t (fst w) \<Longrightarrow> m w = Some (r, w') \<Longrightarrow> own t (fst w')"
  by (rule keepsD)

lemma register_first:
  assumes "registerFirst E config a key submit keys w = Some (Inr hs, w')"
    and "ctConfigForAsset (ce_vite E) config key = Inr config" and "safe_submit (token_of config) submit"
    and "own (token_of config) (fst w)"
  shows "own (token_of config) (fst w')" and "registered_by E config a submit keys hs"
proof -
  have "page_keeps (own (token_of config)) (registerFirst E config a key submit keys)"
    unfolding registerFirst_def by (intro keeps_intros assms(3) confirm_own assms(2))
  then show "own (token_of config) (fst w')" using assms(1,4) own_next by blast
  show "registered_by E config a submit keys hs"
    using assms(1) unfolding registerFirst_def registered_by_def run_iff by (auto simp: run_iff split: if_splits)
qed

lemma recipient_own: "page_keeps (own t) (recipientAccount E config client label recipient)"
  unfolding recipientAccount_def by (intro keeps_intros)

text \<open>An account as the chain answered.\<close>

definition account_read :: "('p, 'n) ctEnv \<Rightarrow> 'n chainClient \<Rightarrow> string \<Rightarrow> 'p onChainAccount \<Rightarrow> bool" where
  "account_read E client a acc \<longleftrightarrow> (\<exists>n n'. confidentialBalance (ce_K E) client a n = Some (Inr (Some acc), n'))"

lemma net_run [run_iff]: "net_io m w = Some (Inr a, w') \<longleftrightarrow> (\<exists>n'. m (snd w) = Some (Inr a, n') \<and> w' = (fst w, n'))"
  by (cases w) (auto simp: net_io_def split: option.splits)

lemma recipient_read:
  "recipientAccount E config client label b w = Some (Inr rec, w') \<Longrightarrow> account_read E client b rec"
  unfolding recipientAccount_def account_read_def run_iff by (auto simp: run_iff split: if_splits)

lemma wait_flow_run:
  assumes "waitUntilVerified e opts w = Some (Inr st, w')" and "flow_engine E config a e" and "own (token_of config) (fst w)"
  shows "own (token_of config) (fst w')" and "Reconcile.settled e st (fst w')"
    and "wo_requireSpendable opts \<or> \<not> wo_requireReceiving opts \<Longrightarrow> spendable_opens E config a (st_spendable st)"
  using io_postD[OF wait_own[OF flow_engine_sel(1)[OF assms(2)] assms(3)] assms(1)] io_postD[OF wait_flow[OF assms(2,3)] assms(1)]
  by blast+

text \<open>A merge and the state the wait for it returned.\<close>

definition merged_by ::
  "('p, 'n) ctEnv \<Rightarrow> deploymentConfig \<Rightarrow> string \<Rightarrow> 'n submitTx \<Rightarrow> ('p, page, 'n) engine \<Rightarrow> string \<Rightarrow> accountState \<Rightarrow> page \<times> 'n \<Rightarrow> page \<times> 'n \<Rightarrow> bool" where
  "merged_by E config a submit e h st w w' \<longleftrightarrow> (\<exists>q. submitted (buildCtMergeTransaction E config a) submit ''merge'' h w q
     \<and> waitUntilVerified e (after_tx config h False True) q = Some (Inr st, w'))"

lemma merge_own:
  assumes "merged_by E config a submit e h st w w'" and "flow_engine E config a e" and "safe_submit (token_of config) submit"
    and "own (token_of config) (fst w)"
  shows "own (token_of config) (fst w')" and "Reconcile.settled e st (fst w')" and "spendable_opens E config a (st_spendable st)"
proof -
  from assms(1) obtain q tx m where run: "buildCtMergeTransaction E config a w = Some (Inr tx, m)"
      "submit tx ''merge'' m = Some (Inr h, q)" "waitUntilVerified e (after_tx config h False True) q = Some (Inr st, w')"
    by (auto simp: merged_by_def submitted_def)
  have "own (token_of config) (fst q)"
    using own_next[OF build_page(3) assms(4) run(1)] own_next[OF submit_own[OF assms(3)] _ run(2)] by blast
  from wait_flow_run[OF run(3) assms(2) this]
  show "own (token_of config) (fst w')" "Reconcile.settled e st (fst w')" "spendable_opens E config a (st_spendable st)"
    by (simp_all add: after_tx_def)
qed

lemma merge_run:
  "mergeAndWait E config a submit e w = Some (Inr (st, h), w') \<longleftrightarrow> merged_by E config a submit e h st w w'"
  unfolding mergeAndWait_def merged_by_def submitted_def run_iff by (cases w') (auto simp: run_iff)

text \<open>A deposit of the amount to the own account, and the state the wait for it returned.\<close>

definition deposited_by ::
  "('p, 'n) ctEnv \<Rightarrow> deploymentConfig \<Rightarrow> string \<Rightarrow> 'n submitTx \<Rightarrow> ('p, page, 'n) engine \<Rightarrow> int \<Rightarrow> string \<Rightarrow> accountState \<Rightarrow> page \<times> 'n \<Rightarrow> page \<times> 'n \<Rightarrow> bool" where
  "deposited_by E config a submit e amt h st w w' \<longleftrightarrow> (\<exists>q. submitted (buildCtDepositTransaction E config a a amt) submit ''deposit'' h w q
     \<and> waitUntilVerified e (after_tx config h True False) q = Some (Inr st, w'))"

lemma deposit_own:
  assumes "deposited_by E config a submit e amt h st w w'" and "flow_engine E config a e" and "safe_submit (token_of config) submit"
    and "own (token_of config) (fst w)"
  shows "own (token_of config) (fst w')"
proof -
  from assms(1) obtain q tx m where run: "buildCtDepositTransaction E config a a amt w = Some (Inr tx, m)"
      "submit tx ''deposit'' m = Some (Inr h, q)" "waitUntilVerified e (after_tx config h True False) q = Some (Inr st, w')"
    by (auto simp: deposited_by_def submitted_def)
  have "own (token_of config) (fst q)"
    using own_next[OF build_page(2) assms(4) run(1)] own_next[OF submit_own[OF assms(3)] _ run(2)] by blast
  from wait_flow_run(1)[OF run(3) assms(2) this] show ?thesis .
qed

text \<open>
  What the deposit and the merge before a payment come to. The confidential money at hand is the
  spendable and, where it was verified, the receiving balance.
\<close>

definition available :: "accountState \<Rightarrow> verified \<Rightarrow> int" where
  "available st v = op_v (st_spendable st) + (if vf_receivingOk v then op_v (st_receiving st) else 0)"

definition topped_up ::
  "('p, 'n) ctEnv \<Rightarrow> deploymentConfig \<Rightarrow> string \<Rightarrow> 'n submitTx \<Rightarrow> ('p, page, 'n) engine \<Rightarrow> int \<Rightarrow> accountState \<Rightarrow> verified
   \<Rightarrow> string list \<Rightarrow> string list \<Rightarrow> accountState \<Rightarrow> bool" where
  "topped_up E config a submit e raw st v hs1 hs2 st2 \<longleftrightarrow> (\<exists>st1.
     (if available st v < raw
      then \<exists>h w w'. hs1 = [h] \<and> deposited_by E config a submit e (raw - available st v) h st1 w w'
      else hs1 = [] \<and> st1 = st)
     \<and> (if hs2 = [] then st2 = st1
        else op_v (st_spendable st1) < raw \<and> (\<exists>h w w'. hs2 = [h] \<and> merged_by E config a submit e h st2 w w')))"

lemma deposit_missing:
  assumes "depositMissing E config label a submit e raw st v w = Some (Inr (st1, v1, hs), w')"
    and "flow_engine E config a e" and "safe_submit (token_of config) submit" and "own (token_of config) (fst w)"
  shows "own (token_of config) (fst w')"
    and "if available st v < raw
      then \<exists>h w w'. hs = [h] \<and> deposited_by E config a submit e (raw - available st v) h st1 w w'
      else hs = [] \<and> st1 = st"
proof -
  have "own (token_of config) (fst w') \<and> (if available st v < raw
      then \<exists>h w w'. hs = [h] \<and> deposited_by E config a submit e (raw - available st v) h st1 w w'
      else hs = [] \<and> st1 = st)"
  proof (cases "available st v < raw")
    case True
    with assms(1) obtain h w1 where run: "hs = [h]" "deposited_by E config a submit e (raw - available st v) h st1 w w1"
        "verifyAgainstChain e w1 = Some (Inr v1, w')"
      unfolding depositMissing_def Let_def available_def deposited_by_def submitted_def
      by (auto simp: run_iff split: if_splits)
    from io_postD[OF verify_flow[OF assms(2) deposit_own[OF run(2) assms(2-4)]] run(3)] True run(1,2)
    show ?thesis by (auto simp del: split_paired_Ex)
  next
    case False
    with assms(1,4) show ?thesis by (auto simp: depositMissing_def Let_def available_def run_iff)
  qed
  then show "own (token_of config) (fst w')" and "if available st v < raw
      then \<exists>h w w'. hs = [h] \<and> deposited_by E config a submit e (raw - available st v) h st1 w w'
      else hs = [] \<and> st1 = st"
    by blast+
qed

lemma merge_missing:
  assumes "mergeMissing E config label a submit e raw st1 v1 w = Some (Inr (st2, hs), w')"
    and "flow_engine E config a e" and "safe_submit (token_of config) submit" and "own (token_of config) (fst w)"
  shows "own (token_of config) (fst w')"
    and "if hs = [] then st2 = st1
      else op_v (st_spendable st1) < raw \<and> (\<exists>h w w'. hs = [h] \<and> merged_by E config a submit e h st2 w w')"
    and "hs \<noteq> [] \<Longrightarrow> spendable_opens E config a (st_spendable st2)"
proof -
  consider "hs = []" "st2 = st1" "w' = w"
    | h w1 v2 where "hs = [h]" "op_v (st_spendable st1) < raw" "merged_by E config a submit e h st2 w w1"
        "verifyAgainstChain e w1 = Some (Inr v2, w')"
    using assms(1) unfolding mergeMissing_def merged_by_def submitted_def
    by (auto simp: run_iff split: if_splits)
  then have "own (token_of config) (fst w') \<and> (if hs = [] then st2 = st1
      else op_v (st_spendable st1) < raw \<and> (\<exists>h w w'. hs = [h] \<and> merged_by E config a submit e h st2 w w'))
      \<and> (hs \<noteq> [] \<longrightarrow> spendable_opens E config a (st_spendable st2))"
  proof cases
    case 2
    from io_postD[OF verify_flow[OF assms(2) merge_own(1)[OF 2(3) assms(2-4)]] 2(4)] merge_own(3)[OF 2(3) assms(2-4)] 2(1-3)
    show ?thesis by (auto simp del: split_paired_Ex)
  qed (use assms(4) in simp)
  then show "own (token_of config) (fst w')"
    and "if hs = [] then st2 = st1
      else op_v (st_spendable st1) < raw \<and> (\<exists>h w w'. hs = [h] \<and> merged_by E config a submit e h st2 w w')"
    and "hs \<noteq> [] \<Longrightarrow> spendable_opens E config a (st_spendable st2)"
    by blast+
qed

text \<open>The sender's state as it was reconciled; only the mark of the registration may be new.\<close>

definition reconciled_as ::
  "('p, page, 'n) engine \<Rightarrow> accountState \<Rightarrow> verified \<Rightarrow> bool" where
  "reconciled_as e st v \<longleftrightarrow> (\<exists>st0 w w'. reconcileForRead e w = Some (Inr (st0, v), w')
     \<and> st_spendable st = st_spendable st0 \<and> st_receiving st = st_receiving st0)"

lemma reconcile_sender:
  assumes "reconcileSender e contracts w = Some (Inr (st, v), w')"
    and "flow_engine E config a e" and "own (token_of config) (fst w)" and "c_token contracts = token_of config"
  shows "own (token_of config) (fst w')" and "reconciled_as e st v" and "spendable_opens E config a (st_spendable st)"
proof -
  obtain st0 w1 where run: "reconcileForRead e w = Some (Inr (st0, v), w1)" "vf_spendableOk v"
      "st = st0 \<and> w' = w1 \<or> st = st0\<lparr>st_registered := True\<rparr>
        \<and> (\<exists>u. store_io (ss_save (pageStore (statePrefix (token_of config))) st) w1 = Some (Inr u, w'))"
    using assms(1,4) unfolding reconcileSender_def Let_def by (auto simp: run_iff split: if_splits)
  from io_postD[OF reconcile_own[OF flow_engine_sel(1)[OF assms(2)] assms(3)] run(1)] run(2)
  have rec: "own (token_of config) (fst w1)" "attested e st0 v" by simp_all
  have "own (token_of config) (fst w')" if "store_io (ss_save (pageStore (statePrefix (token_of config))) st) w1 = Some (Inr u, w')" for u
    using page_store.save_good[OF rec(1), of st] that
    by (cases w1; cases "ss_save (pageStore (statePrefix (token_of config))) st (fst w1)") (auto simp: store_io_def)
  with run(3) rec(1) show "own (token_of config) (fst w')" by auto
  from rec(2) run(2,3) show "spendable_opens E config a (st_spendable st)"
    by (auto simp: attested_def flow_engine_sel(3)[OF assms(2), symmetric])
  from run(1,3) show "reconciled_as e st v" unfolding reconciled_as_def by (intro exI[of _ st0] exI[of _ w] exI[of _ w1]) auto
qed

definition rest_stored :: "deploymentConfig \<Rightarrow> string \<Rightarrow> 'p nextSpendable \<Rightarrow> page \<Rightarrow> bool" where
  "rest_stored config a nxt p \<longleftrightarrow>
     (nonneg_opening (nextOpening nxt) \<longrightarrow> stored_spendable (token_of config) a (nextOpening nxt) p)"

text \<open>
  The transfer of the amount out of the opening: its witness is built with the account's keys for
  the recipient's viewing key and the auditors' keys the chain answered with, the circuit's proof of
  that witness goes into the transaction, and the submission ends in the world \<^verbatim>\<open>w'\<close>.
\<close>

definition transfer_sent ::
  "('p, 'n) ctEnv \<Rightarrow> deploymentConfig \<Rightarrow> 'n chainClient \<Rightarrow> string \<Rightarrow> string \<Rightarrow> 'p keyPair \<Rightarrow> 'p onChainAccount
   \<Rightarrow> 'n submitTx \<Rightarrow> int \<Rightarrow> Opening \<Rightarrow> 'p transferWitness \<Rightarrow> string \<Rightarrow> page \<times> 'n \<Rightarrow> bool" where
  "transfer_sent E config client a b keys rec submit raw x tw h w' \<longleftrightarrow>
     (\<exists>snd1 pvkB kR kS fs k1 k2 k3 k4. account_read E client a snd1
        \<and> oc_viewingPublicKey rec = Some pvkB
        \<and> auditorKeyOf E client (oc_auditorId rec) k1 = Some (Inr kR, k2)
        \<and> auditorKeyOf E client (oc_auditorId snd1) k3 = Some (Inr kS, k4)
        \<and> buildTransferWitness (ce_K E)
            \<lparr>tp_keys = keys, tp_v = op_v x, tp_r = op_r x, tp_amount = raw, tp_pvkB = pvkB, tp_kAudR = kR, tp_kAudS = kS,
             tp_sigma = None, tp_rE = None\<rparr> fs = Inr tw)
     \<and> (\<exists>prf w1 w2. proveCtCircuit E ''transfer'' (tw_inputs tw) w1 = Some (Inr prf, w2)
        \<and> submitted (buildCtConfidentialTransferTransaction E config a b tw prf) submit ''transfer'' h w2 w')"

definition withdraw_sent ::
  "('p, 'n) ctEnv \<Rightarrow> deploymentConfig \<Rightarrow> 'n chainClient \<Rightarrow> string \<Rightarrow> 'p keyPair
   \<Rightarrow> 'n submitTx \<Rightarrow> int \<Rightarrow> Opening \<Rightarrow> 'p withdrawWitness \<Rightarrow> string \<Rightarrow> page \<times> 'n \<Rightarrow> bool" where
  "withdraw_sent E config client a keys submit raw x ww h w' \<longleftrightarrow>
     (\<exists>snd1 kS fs fr k1 k2. account_read E client a snd1
        \<and> auditorKeyOf E client (oc_auditorId snd1) k1 = Some (Inr kS, k2)
        \<and> buildWithdrawWitness (ce_K E)
            \<lparr>wp_keys = keys, wp_v = op_v x, wp_r = op_r x, wp_amount = raw, wp_kAudS = kS, wp_sigma = None, wp_rE = None\<rparr> fs fr = Inr ww)
     \<and> (\<exists>prf w1 w2. proveCtCircuit E ''withdraw'' (ww_inputs ww) w1 = Some (Inr prf, w2)
        \<and> submitted (buildCtWithdrawTransaction E config a a raw ww prf) submit ''withdraw'' h w2 w')"

lemma draws_own [keeps_intros]:
  "page_keeps (own t) (freshScalar E)" "page_keeps (own t) (auditorKeyOf E client aud)"
  unfolding freshScalar_def auditorKeyOf_def by (intro keeps_intros)+

lemma set_flow:
  assumes "setSpendable e (nextOpening nxt) w = Some (Inr st, w')" and "flow_engine E config a e" and "own (token_of config) (fst w)"
  shows "rest_stored config a nxt (fst w')"
  using io_postD[OF set_own[OF flow_engine_sel(1)[OF assms(2)] assms(3)] assms(1)]
  by (simp add: flow_engine_sel(2)[OF assms(2)] rest_stored_def)

lemma the_member_Inr: "the_member x = Inr y \<longleftrightarrow> x = Some y"
  by (simp add: the_member_def split: option.split)

lemma send_transfer:
  assumes "sendTransfer E config client label a b submit e keys raw rec st w = Some (Inr h, w')"
    and "flow_engine E config a e" and "safe_submit (token_of config) submit" and "own (token_of config) (fst w)"
  shows "raw \<le> op_v (st_spendable st)"
    and "\<exists>tw q st'. transfer_sent E config client a b keys rec submit raw (st_spendable st) tw h q
       \<and> setSpendable e (nextOpening (tw_next tw)) q = Some (Inr st', w') \<and> rest_stored config a (tw_next tw) (fst w')"
proof -
  from assms(1) show "raw \<le> op_v (st_spendable st)" by (auto simp: sendTransfer_def run_iff split: if_splits)
  from assms(1) obtain snd1 kR kS fs pvkB tw pf tx st' n1 w2 w3 w4 w5 w6 w7 where
    run: "confidentialBalance (ce_K E) client a (snd w) = Some (Inr (Some snd1), n1)"
      "auditorKeyOf E client (oc_auditorId rec) (fst w, n1) = Some (Inr kR, w2)"
      "auditorKeyOf E client (oc_auditorId snd1) w2 = Some (Inr kS, w3)"
      "freshScalar E w3 = Some (Inr fs, w4)" "oc_viewingPublicKey rec = Some pvkB"
      "buildTransferWitness (ce_K E) \<lparr>tp_keys = keys, tp_v = op_v (st_spendable st), tp_r = op_r (st_spendable st), tp_amount = raw,
          tp_pvkB = pvkB, tp_kAudR = kR, tp_kAudS = kS, tp_sigma = None, tp_rE = None\<rparr> fs = Inr tw"
      "proveCtCircuit E ''transfer'' (tw_inputs tw) w4 = Some (Inr pf, w5)"
      "buildCtConfidentialTransferTransaction E config a b tw pf w5 = Some (Inr tx, w6)"
      "submit tx ''transfer'' w6 = Some (Inr h, w7)" "setSpendable e (nextOpening (tw_next tw)) w7 = Some (Inr st', w')"
    unfolding sendTransfer_def
    by (simp only: run_iff split: if_splits) (auto simp only: run_iff the_member_Inr)
  have here: "own (token_of config) (fst (fst w, n1))" using assms(4) by simp
  have "own (token_of config) (fst w7)"
    using own_next[OF submit_own[OF assms(3)] own_next[OF build_page(4) own_next[OF prove_page own_next[OF draws_own(1)
      own_next[OF draws_own(2) own_next[OF draws_own(2) here run(2)] run(3)] run(4)] run(7)] run(8)] run(9)]
    by simp
  note rest = set_flow[OF run(10) assms(2) this]
  have read: "account_read E client a snd1" using run(1) by (auto simp: account_read_def)
  have "submitted (buildCtConfidentialTransferTransaction E config a b tw pf) submit ''transfer'' h w5 w7"
    unfolding submitted_def using run(8,9) by blast
  then have "transfer_sent E config client a b keys rec submit raw (st_spendable st) tw h w7"
    unfolding transfer_sent_def using read run(2,3,5-7) by blast
  with run(10) rest show "\<exists>tw q st'. transfer_sent E config client a b keys rec submit raw (st_spendable st) tw h q
       \<and> setSpendable e (nextOpening (tw_next tw)) q = Some (Inr st', w') \<and> rest_stored config a (tw_next tw) (fst w')"
    by blast
qed

lemma withdraw_public:
  assumes "withdrawPublic E config client label a submit e keys raw st w = Some (Inr h, w')"
    and "flow_engine E config a e" and "safe_submit (token_of config) submit" and "own (token_of config) (fst w)"
  shows "raw \<le> op_v (st_spendable st)"
    and "\<exists>ww q st'. withdraw_sent E config client a keys submit raw (st_spendable st) ww h q
       \<and> setSpendable e (nextOpening (ww_next ww)) q = Some (Inr st', w') \<and> rest_stored config a (ww_next ww) (fst w')"
proof -
  from assms(1) show "raw \<le> op_v (st_spendable st)" by (auto simp: withdrawPublic_def run_iff split: if_splits)
  from assms(1) obtain snd1 kS fs fr ww pf tx st' n1 w2 w3 w4 w5 w6 w7 where
    run: "confidentialBalance (ce_K E) client a (snd w) = Some (Inr (Some snd1), n1)"
      "auditorKeyOf E client (oc_auditorId snd1) (fst w, n1) = Some (Inr kS, w2)"
      "freshScalar E w2 = Some (Inr fs, w3)" "freshScalar E w3 = Some (Inr fr, w4)"
      "buildWithdrawWitness (ce_K E) \<lparr>wp_keys = keys, wp_v = op_v (st_spendable st), wp_r = op_r (st_spendable st), wp_amount = raw,
          wp_kAudS = kS, wp_sigma = None, wp_rE = None\<rparr> fs fr = Inr ww"
      "proveCtCircuit E ''withdraw'' (ww_inputs ww) w4 = Some (Inr pf, w5)"
      "buildCtWithdrawTransaction E config a a raw ww pf w5 = Some (Inr tx, w6)"
      "submit tx ''withdraw'' w6 = Some (Inr h, w7)" "setSpendable e (nextOpening (ww_next ww)) w7 = Some (Inr st', w')"
    unfolding withdrawPublic_def
    by (simp only: run_iff split: if_splits) (auto simp only: run_iff)
  have here: "own (token_of config) (fst (fst w, n1))" using assms(4) by simp
  have "own (token_of config) (fst w7)"
    using own_next[OF submit_own[OF assms(3)] own_next[OF build_page(5) own_next[OF prove_page own_next[OF draws_own(1)
      own_next[OF draws_own(1) own_next[OF draws_own(2) here run(2)] run(3)] run(4)] run(6)] run(7)] run(8)]
    by simp
  note rest = set_flow[OF run(9) assms(2) this]
  have read: "account_read E client a snd1" using run(1) by (auto simp: account_read_def)
  have "submitted (buildCtWithdrawTransaction E config a a raw ww pf) submit ''withdraw'' h w5 w7"
    unfolding submitted_def using run(7,8) by blast
  then have "withdraw_sent E config client a keys submit raw (st_spendable st) ww h w7"
    unfolding withdraw_sent_def using read run(2,5,6) by blast
  with run(9) rest show "\<exists>ww q st'. withdraw_sent E config client a keys submit raw (st_spendable st) ww h q
       \<and> setSpendable e (nextOpening (ww_next ww)) q = Some (Inr st', w') \<and> rest_stored config a (ww_next ww) (fst w')"
    by blast
qed

section \<open>Properties\<close>

text \<open>
  C4: A private payment that succeeds sent a transfer of the whole positive amount, made with the
  account's keys, out of an opening that covers it, and left the rest of that opening, as the proof
  has it, in the store. Its steps are a registration of the account, if one was needed; a deposit to
  the own account of exactly what the reconciled confidential money was short of the amount, if it
  was short; a merge, if the spendable balance was still below the amount; and the transfer. The
  reconciled spendable balance is an opening of the account's commitment on chain, and so is the one
  spent, unless a deposit was made and no merge after it: then it is the spendable part of the state
  the wait for the deposit returned, which was only checked in its receiving part.
\<close>

theorem settlement_sends:
  assumes "ctConfigForAsset (ce_vite E) cfg (given asset Eurc) = Inr config"
    and "own (token_of config) p" and "safe_submit (token_of config) submit"
  shows "io_post (executeConfidentialSettlement E cfg asset a b amount submit) (p, n) (\<lambda>r w'. \<forall>res. r = Inr res \<longrightarrow>
     (\<exists>raw client keys k e hs0 rec st v hs1 hs2 st2 tw q s. positiveAmount amount = Inr raw
        \<and> ctChainClient E config = Inr client \<and> resolveCtKeys E config a (p, n) = Some (Inr keys, k) \<and> flow_engine E config a e
        \<and> registered_by E config a submit keys hs0 \<and> account_read E client b rec
        \<and> reconciled_as e st v \<and> spendable_opens E config a (st_spendable st)
        \<and> topped_up E config a submit e raw st v hs1 hs2 st2 \<and> raw \<le> op_v (st_spendable st2)
        \<and> transfer_sent E config client a b keys rec submit raw (st_spendable st2) tw (fl_txHash res) q
        \<and> setSpendable e (nextOpening (tw_next tw)) q = Some (Inr s, w') \<and> rest_stored config a (tw_next tw) (fst w')
        \<and> fl_steps res = hs0 @ hs1 @ hs2 @ [fl_txHash res]
        \<and> (hs1 = [] \<or> hs2 \<noteq> [] \<longrightarrow> spendable_opens E config a (st_spendable st2))))"
  unfolding io_post_success
proof (intro allI impI)
  fix res w'
  let ?own = "\<lambda>w. own (token_of config) (fst w)"
  assume "executeConfidentialSettlement E cfg asset a b amount submit (p, n) = Some (Inr res, w')"
  then obtain contracts raw client keys e hs0 rec st v st1 v1 hs1 st2 hs2 h w1 w2 w3 w4 w5 w6 w7 where
    pure: "requireCtConfig config = Inr contracts" "positiveAmount amount = Inr raw" "ctChainClient E config = Inr client" and
    run: "resolveCtKeys E config a (p, n) = Some (Inr keys, w1)"
      "createConfidentialAssetStateEngine E config a (given asset Eurc) w1 = Some (Inr e, w2)"
      "registerFirst E config a (given asset Eurc) submit keys w2 = Some (Inr hs0, w3)"
      "recipientAccount E config client (assetLabel (ce_vite E) cfg (given asset Eurc)) b w3 = Some (Inr rec, w4)"
      "reconcileSender e contracts w4 = Some (Inr (st, v), w5)"
      "depositMissing E config (assetLabel (ce_vite E) cfg (given asset Eurc)) a submit e raw st v w5 = Some (Inr (st1, v1, hs1), w6)"
      "mergeMissing E config (assetLabel (ce_vite E) cfg (given asset Eurc)) a submit e raw st1 v1 w6 = Some (Inr (st2, hs2), w7)"
      "sendTransfer E config client (assetLabel (ce_vite E) cfg (given asset Eurc)) a b submit e keys raw rec st2 w7 = Some (Inr h, w')"
    and res: "res = \<lparr>fl_txHash = h, fl_steps = hs0 @ hs1 @ hs2 @ [h]\<rparr>"
    unfolding executeConfidentialSettlement_def Let_def assms(1) io_bind_res
    by (auto simp: run_iff)
  note again = config_scoped_again(1)[OF assms(1)]
  have c: "c_token contracts = token_of config" using pure(1) by (auto simp: requireCtConfig_def split: if_splits)
  have "?own w1" by (rule own_next[OF resolve_own _ run(1)]) (simp add: assms(2))
  from io_postD[OF create_flow[OF again this] run(2)] have e: "flow_engine E config a e" and "?own w2" by simp_all
  note reg = register_first[OF run(3) again assms(3) this(2)]
  note rec = reconcile_sender[OF run(5) e own_next[OF recipient_own reg(1) run(4)] c]
  note dep = deposit_missing[OF run(6) e assms(3) rec(1)]
  note mrg = merge_missing[OF run(7) e assms(3) dep(1)]
  note sent = send_transfer[OF run(8) e assms(3) mrg(1)]
  obtain tw q s where tw: "transfer_sent E config client a b keys rec submit raw (st_spendable st2) tw h q"
      "setSpendable e (nextOpening (tw_next tw)) q = Some (Inr s, w')" "rest_stored config a (tw_next tw) (fst w')"
    using sent(2) by blast
  have top: "topped_up E config a submit e raw st v hs1 hs2 st2"
    unfolding topped_up_def using dep(2) mrg(2) by blast
  have opens: "spendable_opens E config a (st_spendable st2)" if "hs1 = [] \<or> hs2 \<noteq> []"
    using that mrg(2,3) dep(2) rec(3) by (auto split: if_splits)
  show "\<exists>raw client keys k e hs0 rec st v hs1 hs2 st2 tw q s. positiveAmount amount = Inr raw
        \<and> ctChainClient E config = Inr client \<and> resolveCtKeys E config a (p, n) = Some (Inr keys, k) \<and> flow_engine E config a e
        \<and> registered_by E config a submit keys hs0 \<and> account_read E client b rec
        \<and> reconciled_as e st v \<and> spendable_opens E config a (st_spendable st)
        \<and> topped_up E config a submit e raw st v hs1 hs2 st2 \<and> raw \<le> op_v (st_spendable st2)
        \<and> transfer_sent E config client a b keys rec submit raw (st_spendable st2) tw (fl_txHash res) q
        \<and> setSpendable e (nextOpening (tw_next tw)) q = Some (Inr s, w') \<and> rest_stored config a (tw_next tw) (fst w')
        \<and> fl_steps res = hs0 @ hs1 @ hs2 @ [fl_txHash res]
        \<and> (hs1 = [] \<or> hs2 \<noteq> [] \<longrightarrow> spendable_opens E config a (st_spendable st2))"
    unfolding res flowResult.simps
    by (rule exI conjI pure(2,3) run(1) e reg(2) recipient_read[OF run(4)] rec(2,3) top sent(1) tw refl impI opens | assumption)+
qed

text \<open>
  C6: Shielding that succeeds deposited the whole positive amount to the own account, waited for the
  deposit, merged and waited for the merge, each from where the one before left off. The state the
  last wait returned is the one in the store, where that can be read; its spendable balance covers
  the amount and opens the account's spendable commitment on chain. The steps are a registration, if
  one was needed, the deposit and the merge, whose hash is returned.
\<close>

theorem shield_covers:
  assumes "ctConfigForAsset (ce_vite E) cfg (given asset Eurc) = Inr config"
    and "own (token_of config) p" and "safe_submit (token_of config) submit"
  shows "io_post (shieldConfidentialAsset E cfg asset a amount submit) (p, n) (\<lambda>r w'. \<forall>res. r = Inr res \<longrightarrow>
     (\<exists>raw keys k e hs0 hd st w w1 st1. positiveAmount amount = Inr raw
        \<and> resolveCtKeys E config a (p, n) = Some (Inr keys, k) \<and> flow_engine E config a e
        \<and> registered_by E config a submit keys hs0
        \<and> deposited_by E config a submit e raw hd st w w1
        \<and> merged_by E config a submit e (fl_txHash res) st1 w1 w'
        \<and> Reconcile.settled e st1 (fst w') \<and> raw \<le> op_v (st_spendable st1) \<and> spendable_opens E config a (st_spendable st1)
        \<and> fl_steps res = hs0 @ [hd, fl_txHash res]))"
  unfolding io_post_success
proof (intro allI impI)
  fix res w'
  let ?own = "\<lambda>w. own (token_of config) (fst w)"
  assume "shieldConfidentialAsset E cfg asset a amount submit (p, n) = Some (Inr res, w')"
  then obtain raw keys e hs0 tx hd st st1 h w1 w2 w3 w4 w5 w6 where
    raw: "positiveAmount amount = Inr raw" and
    run: "resolveCtKeys E config a (p, n) = Some (Inr keys, w1)"
      "createConfidentialAssetStateEngine E config a (given asset Eurc) w1 = Some (Inr e, w2)"
      "registerFirst E config a (given asset Eurc) submit keys w2 = Some (Inr hs0, w3)"
      "buildCtDepositTransaction E config a a raw w3 = Some (Inr tx, w4)"
      "submit tx ''deposit'' w4 = Some (Inr hd, w5)"
      "waitUntilVerified e (after_tx config hd True False) w5 = Some (Inr st, w6)"
      "mergeAndWait E config a submit e w6 = Some (Inr (st1, h), w')"
    and covers: "raw \<le> op_v (st_spendable st1)"
    and res: "res = \<lparr>fl_txHash = h, fl_steps = hs0 @ [hd, h]\<rparr>"
    unfolding shieldConfidentialAsset_def Let_def assms(1) io_bind_res
    by (auto simp: run_iff split: if_splits)
  note again = config_scoped_again(1)[OF assms(1)]
  have "?own w1" by (rule own_next[OF resolve_own _ run(1)]) (simp add: assms(2))
  from io_postD[OF create_flow[OF again this] run(2)] have e: "flow_engine E config a e" and "?own w2" by simp_all
  note reg = register_first[OF run(3) again assms(3) this(2)]
  have dep: "deposited_by E config a submit e raw hd st w3 w6"
    unfolding deposited_by_def submitted_def using run(4-6) by blast
  have mrg: "merged_by E config a submit e h st1 w6 w'" using run(7) by (simp add: merge_run)
  note left = merge_own[OF mrg e assms(3) deposit_own[OF dep e assms(3) reg(1)]]
  show "\<exists>raw keys k e hs0 hd st w w1 st1. positiveAmount amount = Inr raw
        \<and> resolveCtKeys E config a (p, n) = Some (Inr keys, k) \<and> flow_engine E config a e
        \<and> registered_by E config a submit keys hs0
        \<and> deposited_by E config a submit e raw hd st w w1
        \<and> merged_by E config a submit e (fl_txHash res) st1 w1 w'
        \<and> Reconcile.settled e st1 (fst w') \<and> raw \<le> op_v (st_spendable st1) \<and> spendable_opens E config a (st_spendable st1)
        \<and> fl_steps res = hs0 @ [hd, fl_txHash res]"
    unfolding res flowResult.simps
    by (rule exI conjI raw run(1) e reg(2) dep mrg left(2,3) covers refl)+
qed

text \<open>
  C5: Unshielding that succeeds withdrew the whole positive amount, with a proof made with the
  account's keys, out of an opening of the account's spendable commitment on chain, and left the
  rest, as the proof has it, in the store; at most one merge came before.
\<close>

theorem unshield_withdraws:
  assumes "ctConfigForAsset (ce_vite E) cfg (given asset Eurc) = Inr config"
    and "own (token_of config) p" and "safe_submit (token_of config) submit"
  shows "io_post (unshieldConfidentialAsset E cfg asset a amount submit) (p, n) (\<lambda>r w'. \<forall>res. r = Inr res \<longrightarrow>
     (\<exists>raw client keys k e x ww hs q s. positiveAmount amount = Inr raw \<and> ctChainClient E config = Inr client
        \<and> resolveCtKeys E config a (p, n) = Some (Inr keys, k) \<and> flow_engine E config a e
        \<and> raw \<le> op_v x \<and> spendable_opens E config a x
        \<and> withdraw_sent E config client a keys submit raw x ww (fl_txHash res) q
        \<and> setSpendable e (nextOpening (ww_next ww)) q = Some (Inr s, w') \<and> rest_stored config a (ww_next ww) (fst w')
        \<and> fl_steps res = hs @ [fl_txHash res] \<and> (hs = [] \<or> (\<exists>h st w w1. hs = [h] \<and> merged_by E config a submit e h st w w1))))"
  unfolding io_post_success
proof (intro allI impI)
  fix res w'
  let ?own = "\<lambda>w. own (token_of config) (fst w)"
  define mg where "mg = (\<lambda>(e :: ('a, page, 'b) engine) st raw. if op_v (st_spendable st) < raw \<and> op_v (st_receiving st) > 0
        then io_bind (mergeAndWait E config a submit e) (\<lambda>(st1, h). io_return (st1, [h])) else io_return (st, []))"
  have fold: "(if op_v (st_spendable st) < raw \<and> op_v (st_receiving st) > 0
        then io_bind (mergeAndWait E config a submit e) (\<lambda>(st1, h). io_return (st1, [h])) else io_return (st, [])) = mg e st raw" for e st raw
    by (simp add: mg_def)
  assume "unshieldConfidentialAsset E cfg asset a amount submit (p, n) = Some (Inr res, w')"
  then obtain raw client keys e st st2 hs h w1 w2 w3 w4 where
    pure: "positiveAmount amount = Inr raw" "ctChainClient E config = Inr client" and
    run: "resolveCtKeys E config a (p, n) = Some (Inr keys, w1)"
      "createConfidentialAssetStateEngine E config a (given asset Eurc) w1 = Some (Inr e, w2)"
      "waitUntilVerified e (Engine.no_options\<lparr>wo_rpcUrl := Some (rpcUrl config)\<rparr>) w2 = Some (Inr st, w3)"
      "mg e st raw w3 = Some (Inr (st2, hs), w4)"
      "withdrawPublic E config client (assetLabel (ce_vite E) cfg (given asset Eurc)) a submit e keys raw st2 w4 = Some (Inr h, w')"
    and res: "res = \<lparr>fl_txHash = h, fl_steps = hs @ [h]\<rparr>"
    unfolding unshieldConfidentialAsset_def Let_def assms(1) io_bind_res fold
    by (auto simp: run_iff)
  have mrg: "hs = [] \<and> st2 = st \<and> w4 = w3 \<or> (\<exists>h. hs = [h] \<and> merged_by E config a submit e h st2 w3 w4)"
    using run(4) by (auto simp: mg_def run_iff merge_run split: if_splits)
  note again = config_scoped_again(1)[OF assms(1)]
  have "?own w1" by (rule own_next[OF resolve_own _ run(1)]) (simp add: assms(2))
  from io_postD[OF create_flow[OF again this] run(2)] have e: "flow_engine E config a e" and "?own w2" by simp_all
  note wait = wait_flow_run[OF run(3) e this(2)]
  have "?own w4 \<and> spendable_opens E config a (st_spendable st2)"
    using mrg
  proof (elim disjE exE conjE)
    fix h assume "merged_by E config a submit e h st2 w3 w4"
    from merge_own(1,3)[OF this e assms(3) wait(1)] show ?thesis by blast
  qed (use wait in \<open>simp add: Engine.no_options_def\<close>)
  then have opens: "spendable_opens E config a (st_spendable st2)" and "?own w4" by simp_all
  note sent = withdraw_public[OF run(5) e assms(3) this(2)]
  obtain ww q s where ww: "withdraw_sent E config client a keys submit raw (st_spendable st2) ww h q"
      "setSpendable e (nextOpening (ww_next ww)) q = Some (Inr s, w')" "rest_stored config a (ww_next ww) (fst w')"
    using sent(2) by blast
  have hs: "hs = [] \<or> (\<exists>h st w w1. hs = [h] \<and> merged_by E config a submit e h st w w1)" using mrg by blast
  show "\<exists>raw client keys k e x ww hs q s. positiveAmount amount = Inr raw \<and> ctChainClient E config = Inr client
        \<and> resolveCtKeys E config a (p, n) = Some (Inr keys, k) \<and> flow_engine E config a e
        \<and> raw \<le> op_v x \<and> spendable_opens E config a x
        \<and> withdraw_sent E config client a keys submit raw x ww (fl_txHash res) q
        \<and> setSpendable e (nextOpening (ww_next ww)) q = Some (Inr s, w') \<and> rest_stored config a (ww_next ww) (fst w')
        \<and> fl_steps res = hs @ [fl_txHash res] \<and> (hs = [] \<or> (\<exists>h st w w1. hs = [h] \<and> merged_by E config a submit e h st w w1))"
    unfolding res flowResult.simps
    by (rule exI conjI pure run(1) e sent(1) opens ww hs refl)+
qed

section \<open>Runs on the small network\<close>

definition ct_submit :: "nat submitTx" where
  "ct_submit tx label = io_return label"

lemma ct_submit_safe: "safe_submit t ct_submit"
  by (simp add: safe_submit_def ct_submit_def keeps_intros)

abbreviation ct_up :: "(residue, nat) ctEnv" where
  "ct_up \<equiv> ct_env (\<lambda>_. True)"

lemma ct_amount: "positiveAmount ''0.000001'' = Inr 10"
  by code_simp

lemma ct_wait:
  assumes "holds l p" and "l \<le> 210"
  shows "waitUntilVerified (ct_engine (\<lambda>_. True)) (after_tx ct_scoped h rcv spd) (p, n)
     = Some (Inr (ct_state 210), (ct_save (ct_state 210) p, Suc n))"
    and "waitUntilVerified (ct_engine (\<lambda>_. True)) (Engine.no_options\<lparr>wo_rpcUrl := Some url\<rparr>) (p, n)
     = Some (Inr (ct_state 210), (ct_save (ct_state 210) p, Suc n))"
proof -
  have status: "waitForTransactionStatus (en_txStatus (ct_engine (\<lambda>_. True))) url hash1 45 n = Some (Inr (), n)" for url hash1 n
    by (simp add: ct_engine_def engine_for_def ct_env_def fetchTransactionStatus_def io_simps given_def numeral_eq_Suc)
  have verified: "verifyAgainstChain (ct_engine (\<lambda>_. True)) (ct_save (ct_state 210) p, n)
      = Some (Inr \<lparr>vf_ok = True, vf_spendableOk = True, vf_receivingOk = True\<rparr>, (ct_save (ct_state 210) p, Suc n))" for n
    using holds_storage[OF assms(1)] by (intro ct_verify[of 210]) simp_all
  have attempts: "verify_attempts (ct_engine (\<lambda>_. True)) opts (nat 40) (ct_state 210) (ct_save (ct_state 210) p, n)
      = Some (Inr (Some (ct_state 210)), (ct_save (ct_state 210) p, Suc n))" for opts n
    using verified by (simp add: numeral_eq_Suc io_simps meets_def)
  show "waitUntilVerified (ct_engine (\<lambda>_. True)) (after_tx ct_scoped h rcv spd) (p, n)
     = Some (Inr (ct_state 210), (ct_save (ct_state 210) p, Suc n))"
    using status attempts ct_sync[OF assms] ct_current[OF assms(1)]
    by (simp add: waitUntilVerified_def after_tx_def Engine.no_options_def io_simps refresh_def given_def)
  show "waitUntilVerified (ct_engine (\<lambda>_. True)) (Engine.no_options\<lparr>wo_rpcUrl := Some url\<rparr>) (p, n)
     = Some (Inr (ct_state 210), (ct_save (ct_state 210) p, Suc n))"
    using attempts ct_sync[OF assms] ct_current[OF assms(1)]
    by (simp add: waitUntilVerified_def Engine.no_options_def io_simps refresh_def given_def truthy_def)
qed

lemma ct_tx: "\<exists>bt. ctTransaction ct_up ct_scoped m (map Inr vals) (p, n) = Some (Inr bt, (p, Suc n))"
proof -
  have "traverse (\<lambda>a. a) (map Inr vals) = (Inr vals :: scval list res)" by (induction vals) simp_all
  then show ?thesis
    by (simp add: ctTransaction_def requireCtToken_def ct_scoped_configured truthy_def passkeySimulationAccount_def
        ctServer_def simulateAssembledTx_def io_simps ct_server_def)
qed

lemma ct_address: "ctAddress ct_up ct_scoped a = Inr (ScAddress a)"
  by (simp add: ctAddress_def ctServer_def ct_server_def)

lemma ct_deposit_built: "\<exists>bt. buildCtDepositTransaction ct_up ct_scoped a b 10 (p, n) = Some (Inr bt, (p, Suc n))"
  using ct_tx[of "''deposit''" "[ScAddress a, ScAddress b, ScI128 10]"]
  by (simp add: buildCtDepositTransaction_def ct_address i128Val_def)

lemma ct_merge_built: "\<exists>bt. buildCtMergeTransaction ct_up ct_scoped a (p, n) = Some (Inr bt, (p, Suc n))"
  using ct_tx[of "''merge''" "[ScAddress a]"] by (simp add: buildCtMergeTransaction_def ct_address)

lemma ct_ready:
  obtains p where "resolveCtKeys ct_up ct_scoped ''GA'' (ct_page, 0) = Some (Inr ct_keys, (marked ct_page, 2))"
    and "createConfidentialAssetStateEngine ct_up ct_scoped ''GA'' Eurc (marked ct_page, 2) = Some (Inr (ct_engine (\<lambda>_. True)), (p, 4))"
    and "holds 0 p" and "pa_provers p = []"
proof (rule that[of "marked (marked ct_page)"])
  show "resolveCtKeys ct_up ct_scoped ''GA'' (ct_page, 0) = Some (Inr ct_keys, (marked ct_page, 2))"
    using ct_resolve[OF ct_page_keys ct_page_sel, of 0] by (simp add: numeral_2_eq_2)
  show "createConfidentialAssetStateEngine ct_up ct_scoped ''GA'' Eurc (marked ct_page, 2)
      = Some (Inr (ct_engine (\<lambda>_. True)), (marked (marked ct_page), 4))"
    using ct_create[of "marked ct_page" ct_scoped 2] by (simp add: ct_page_keys ct_page_sel)
  show "holds 0 (marked (marked ct_page))" using ct_page_holds by simp
  show "pa_provers (marked (marked ct_page)) = []"
    by (simp add: marked_def setItem_def ct_page_def ct_save_def pageStore_sel(2) saveCtKeys_def empty_page_def)
qed

lemma ct_page_assms:
  "ctConfigForAsset (ce_vite ct_up) ct_config (given None Eurc) = Inr ct_scoped" "own (token_of ct_scoped) ct_page"
  using ct_scoped_Inr ct_page_own ct_scoped_configured by (simp_all add: given_def)

theorem shield_covers_witness:
  "\<exists>w' e hd st w w1 st1. shieldConfidentialAsset ct_up ct_config None ''GA'' ''0.000001'' ct_submit (ct_page, 0)
      = Some (Inr \<lparr>fl_txHash = ''merge'', fl_steps = [''deposit'', ''merge'']\<rparr>, w')
     \<and> deposited_by ct_up ct_scoped ''GA'' ct_submit e 10 hd st w w1
     \<and> merged_by ct_up ct_scoped ''GA'' ct_submit e ''merge'' st1 w1 w'
     \<and> 10 \<le> op_v (st_spendable st1) \<and> spendable_opens ct_up ct_scoped ''GA'' (st_spendable st1)"
proof -
  obtain p where p: "resolveCtKeys ct_up ct_scoped ''GA'' (ct_page, 0) = Some (Inr ct_keys, (marked ct_page, 2))"
    "createConfidentialAssetStateEngine ct_up ct_scoped ''GA'' Eurc (marked ct_page, 2) = Some (Inr (ct_engine (\<lambda>_. True)), (p, 4))"
    "holds 0 p" by (rule ct_ready)
  have q: "holds 210 (ct_save (ct_state 210) p)" using holds_storage[OF p(3)] by simp
  obtain bt where bt: "buildCtDepositTransaction ct_up ct_scoped ''GA'' ''GA'' 10 (p, 5) = Some (Inr bt, (p, Suc 5))"
    using ct_deposit_built by blast
  obtain mt where mt: "buildCtMergeTransaction ct_up ct_scoped ''GA'' (ct_save (ct_state 210) p, 7)
      = Some (Inr mt, (ct_save (ct_state 210) p, Suc 7))"
    using ct_merge_built by blast
  obtain w' where run: "shieldConfidentialAsset ct_up ct_config None ''GA'' ''0.000001'' ct_submit (ct_page, 0)
      = Some (Inr \<lparr>fl_txHash = ''merge'', fl_steps = [''deposit'', ''merge'']\<rparr>, w')"
    using p bt mt ct_wait(1)[OF p(3)] ct_wait(1)[OF q] ct_registered[of "\<lambda>_. True"] ct_scoped_Inr ct_amount
    by (simp add: shieldConfidentialAsset_def io_simps given_def registerFirst_def readCtRegistered_def ct_submit_def
        mergeAndWait_def)
  from io_postD[OF shield_covers[OF ct_page_assms ct_submit_safe] run, rule_format, OF refl]
  obtain raw e hd st w w1 st1 where raw: "positiveAmount ''0.000001'' = Inr raw"
    and "deposited_by ct_up ct_scoped ''GA'' ct_submit e raw hd st w w1"
    "merged_by ct_up ct_scoped ''GA'' ct_submit e ''merge'' st1 w1 w'" "raw \<le> op_v (st_spendable st1)"
    "spendable_opens ct_up ct_scoped ''GA'' (st_spendable st1)"
    unfolding flowResult.simps by (elim exE conjE) blast
  moreover from raw ct_amount have "raw = 10" by simp
  ultimately show ?thesis using run by blast
qed

lemma ct_auditor_key: "auditorKeyOf ct_up (client_for ct_up ct_scoped c) (Some 1) (p, n) = Some (Inr demo_auditor, (p, Suc n))"
  by (simp add: auditorKeyOf_def auditorKey_def simulate_def client_for_def io_simps ct_server_def ct_answer_def)

lemma ct_set:
  assumes "holds l p"
  shows "\<exists>st w'. setSpendable (ct_engine (\<lambda>_. True)) x (p, n) = Some (Inr st, w')"
  by (simp add: setSpendable_def io_simps ct_current[OF assms] save_state_def pageStore_sel(2) Let_def)

lemma ct_scalar: "freshScalar ct_up (p, n) = Some (Inr 5, (p, n))"
  by (simp add: freshScalar_def io_simps ct_draw del: randomScalar.simps)

lemma ct_prove: "pa_provers p = [] \<Longrightarrow> \<exists>m. proveCtCircuit ct_up circuit inputs (p, n) = Some (Inr [1], (p\<lparr>pa_provers := m\<rparr>, n))"
  by (simp add: proveCtCircuit_def ensureCtProver_def loadProver_def io_simps ct_env_def) (rule exI, rule refl)

lemma fieldValue_small: "fieldValue (frAdd a b) = Inr (xdrField demo (FField (frAdd a b)))"
    "fieldValue 5 = Inr (xdrField demo (FField 5))"
proof -
  have "frAdd a b < 2 ^ 256" using frMod_less[of "a + b"] by (simp add: frAdd_def FR_MODULUS_def)
  then show "fieldValue (frAdd a b) = Inr (xdrField demo (FField (frAdd a b)))" by (intro fieldValue_ok) simp_all
qed (rule fieldValue_ok, simp_all)

definition ct_transfer :: "residue transferParams" where
  "ct_transfer = \<lparr>tp_keys = ct_keys, tp_v = 100, tp_r = 4, tp_amount = 10, tp_pvkB = res_of 7,
     tp_kAudR = demo_auditor, tp_kAudS = demo_auditor, tp_sigma = None, tp_rE = None\<rparr>"

lemma ct_transfer_built: "\<exists>tw v. buildTransferWitness demo ct_transfer 5 = Inr tw \<and> encodeTransferData f demo tw [1] = Inr v
   \<and> nextOpening (tw_next tw) = \<lparr>op_v = 90, op_r = 7\<rparr>"
proof -
  have "deriveEphemeralRE (permute demo) 7 5 = Inr 7"
    by (simp add: deriveEphemeralRE_def poseidonWithDomain_def sponge_demo)
  moreover have "ecdh demo 7 (res_of 7) = Inr 49" "ecdh demo 7 (res_of 13) = Inr 91" by (simp_all add: demo_eval)
  moreover have "k_vk ct_keys = 7" by (simp add: ct_keys_def demo_eval)
  ultimately obtain tw where tw: "buildTransferWitness demo ct_transfer 5 = Inr tw" "nextOpening (tw_next tw) = \<lparr>op_v = 90, op_r = 7\<rparr>"
    by (simp add: buildTransferWitness_def ct_transfer_def Let_def demo_auditor_eq nextOpening_def given_def
        deriveSpendR_def poseidonWithDomain_def sponge_demo)
  obtain v where "transferPayloadVal demo (tw_payload tw) = Inr v"
    by (rule transfer_built[OF tw(1)])
      (simp add: transferPayloadVal_def fields_res_def pointVal_ok[OF demo_laws] encryptAmount_def encryptBalance_def
        fieldValue_small ct_transfer_def given_def del: xdrField.simps)
  with tw show ?thesis by (simp add: encodeTransferData_def)
qed

definition ct_withdraw :: "residue withdrawParams" where
  "ct_withdraw = \<lparr>wp_keys = ct_keys, wp_v = 100, wp_r = 4, wp_amount = 10, wp_kAudS = demo_auditor,
     wp_sigma = None, wp_rE = None\<rparr>"

lemma ct_withdraw_built: "\<exists>ww v. buildWithdrawWitness demo ct_withdraw 5 5 = Inr ww \<and> encodeWithdrawData f demo ww [1] = Inr v"
proof -
  have "ecdh demo 5 (res_of 13) = Inr 65" by (simp add: demo_eval)
  then obtain ww where ww: "buildWithdrawWitness demo ct_withdraw 5 5 = Inr ww"
    by (simp add: buildWithdrawWitness_def ct_withdraw_def Let_def demo_auditor_eq given_def)
  obtain v where "withdrawPayloadVal demo (ww_payload ww) = Inr v"
    by (rule withdraw_built[OF ww])
      (simp add: withdrawPayloadVal_def fields_res_def pointVal_ok[OF demo_laws] encryptAuditorSenderBalance_def encryptBalance_def
        fieldValue_small ct_withdraw_def given_def del: xdrField.simps)
  with ww show ?thesis by (simp add: encodeWithdrawData_def)
qed

theorem settlement_sends_witness:
  "\<exists>w' client rec tw x q. executeConfidentialSettlement ct_up ct_config None ''GA'' ''GB'' ''0.000001'' ct_submit (ct_page, 0)
      = Some (Inr \<lparr>fl_txHash = ''transfer'', fl_steps = [''transfer'']\<rparr>, w')
     \<and> transfer_sent ct_up ct_scoped client ''GA'' ''GB'' ct_keys rec ct_submit 10 x tw ''transfer'' q \<and> rest_stored ct_scoped ''GA'' (tw_next tw) (fst w')
     \<and> spendable_opens ct_up ct_scoped ''GA'' x"
proof -
  obtain p where p: "resolveCtKeys ct_up ct_scoped ''GA'' (ct_page, 0) = Some (Inr ct_keys, (marked ct_page, 2))"
    "createConfidentialAssetStateEngine ct_up ct_scoped ''GA'' Eurc (marked ct_page, 2) = Some (Inr (ct_engine (\<lambda>_. True)), (p, 4))"
    "holds 0 p" "pa_provers p = []" by (rule ct_ready)
  let ?q = "ct_save (ct_state 210) p"
  have q: "holds 210 ?q" "pa_provers ?q = []"
    using holds_storage[OF p(3)] p(4) by (simp, simp add: ct_save_def pageStore_sel(2) setItem_def)
  obtain tw v where tw: "buildTransferWitness demo ct_transfer 5 = Inr tw" "encodeTransferData (ce_toXDR ct_up) demo tw [1] = Inr v"
    using ct_transfer_built by blast
  obtain m where m: "proveCtCircuit ct_up ''transfer'' (tw_inputs tw) (?q, 11) = Some (Inr [1], (?q\<lparr>pa_provers := m\<rparr>, 11))"
    using ct_prove[OF q(2)] by blast
  obtain bt where bt: "buildCtConfidentialTransferTransaction ct_up ct_scoped ''GA'' ''GB'' tw [1] (?q\<lparr>pa_provers := m\<rparr>, 11)
      = Some (Inr bt, (?q\<lparr>pa_provers := m\<rparr>, 12))"
    using ct_tx[of "''confidential_transfer''" "[ScAddress ''GA'', ScAddress ''GB'', v]" "?q\<lparr>pa_provers := m\<rparr>" 11] tw(2)
    by (auto simp: buildCtConfidentialTransferTransaction_def ct_address)
  have h: "holds 210 (?q\<lparr>pa_provers := m\<rparr>)"
    using q(1) by (simp add: holds_def pageStore_sel(1))
  obtain st w' where set: "setSpendable (ct_engine (\<lambda>_. True)) (nextOpening (tw_next tw)) (?q\<lparr>pa_provers := m\<rparr>, 12) = Some (Inr st, w')"
    using ct_set[OF h] by blast
  have run: "executeConfidentialSettlement ct_up ct_config None ''GA'' ''GB'' ''0.000001'' ct_submit (ct_page, 0)
      = Some (Inr \<lparr>fl_txHash = ''transfer'', fl_steps = [''transfer'']\<rparr>, w')"
    using p(1,2) ct_reconcile[OF p(3), of "\<lambda>_. True"] ct_registered[of "\<lambda>_. True"] ct_scoped_Inr ct_amount ct_scoped_configured
      m bt set tw(1) ct_account_read[of "\<lambda>_. True"] ct_auditor_key ct_scalar
    by (simp add: executeConfidentialSettlement_def io_simps given_def registerFirst_def readCtRegistered_def ct_submit_def
        requireCtConfig_def ctChainClient_def recipientAccount_def reconcileSender_def depositMissing_def mergeMissing_def
        sendTransfer_def client_for_def ct_account_def the_member_def ct_transfer_def Let_def)
  from io_postD[OF settlement_sends[OF ct_page_assms ct_submit_safe] run, rule_format, OF refl]
  obtain raw keys k client rec tw st2 q hs0 hs1 hs2 where raw: "positiveAmount ''0.000001'' = Inr raw"
      "resolveCtKeys ct_up ct_scoped ''GA'' (ct_page, 0) = Some (Inr keys, k)"
    and "transfer_sent ct_up ct_scoped client ''GA'' ''GB'' keys rec ct_submit raw (st_spendable (st2 :: accountState)) tw ''transfer'' q"
    "rest_stored ct_scoped ''GA'' (tw_next tw) (fst w')" and steps: "[''transfer''] = hs0 @ hs1 @ hs2 @ [''transfer'']"
    "hs1 = [] \<or> hs2 \<noteq> [] \<longrightarrow> spendable_opens ct_up ct_scoped ''GA'' (st_spendable st2)"
    unfolding flowResult.simps by (elim exE conjE) blast
  moreover from raw ct_amount p(1) have "raw = 10" "keys = ct_keys" by simp_all
  moreover have "spendable_opens ct_up ct_scoped ''GA'' (st_spendable st2)" using steps by simp
  ultimately show ?thesis using run by blast
qed

theorem unshield_withdraws_witness:
  "\<exists>w' client ww x q. unshieldConfidentialAsset ct_up ct_config None ''GA'' ''0.000001'' ct_submit (ct_page, 0)
      = Some (Inr \<lparr>fl_txHash = ''withdraw'', fl_steps = [''withdraw'']\<rparr>, w')
     \<and> withdraw_sent ct_up ct_scoped client ''GA'' ct_keys ct_submit 10 x ww ''withdraw'' q \<and> rest_stored ct_scoped ''GA'' (ww_next ww) (fst w')
     \<and> spendable_opens ct_up ct_scoped ''GA'' x"
proof -
  obtain p where p: "resolveCtKeys ct_up ct_scoped ''GA'' (ct_page, 0) = Some (Inr ct_keys, (marked ct_page, 2))"
    "createConfidentialAssetStateEngine ct_up ct_scoped ''GA'' Eurc (marked ct_page, 2) = Some (Inr (ct_engine (\<lambda>_. True)), (p, 4))"
    "holds 0 p" "pa_provers p = []" by (rule ct_ready)
  let ?q = "ct_save (ct_state 210) p"
  have q: "holds 210 ?q" "pa_provers ?q = []"
    using holds_storage[OF p(3)] p(4) by (simp, simp add: ct_save_def pageStore_sel(2) setItem_def)
  obtain ww v where ww: "buildWithdrawWitness demo ct_withdraw 5 5 = Inr ww" "encodeWithdrawData (ce_toXDR ct_up) demo ww [1] = Inr v"
    using ct_withdraw_built by blast
  obtain m where m: "proveCtCircuit ct_up ''withdraw'' (ww_inputs ww) (?q, 7) = Some (Inr [1], (?q\<lparr>pa_provers := m\<rparr>, 7))"
    using ct_prove[OF q(2)] by blast
  obtain bt where bt: "buildCtWithdrawTransaction ct_up ct_scoped ''GA'' ''GA'' 10 ww [1] (?q\<lparr>pa_provers := m\<rparr>, 7)
      = Some (Inr bt, (?q\<lparr>pa_provers := m\<rparr>, 8))"
    using ct_tx[of "''withdraw''" "[ScAddress ''GA'', ScAddress ''GA'', ScI128 10, v]" "?q\<lparr>pa_provers := m\<rparr>" 7] ww(2)
    by (auto simp: buildCtWithdrawTransaction_def ct_address i128Val_def)
  have h: "holds 210 (?q\<lparr>pa_provers := m\<rparr>)"
    using q(1) by (simp add: holds_def pageStore_sel(1))
  obtain st w' where set: "setSpendable (ct_engine (\<lambda>_. True)) (nextOpening (ww_next ww)) (?q\<lparr>pa_provers := m\<rparr>, 8) = Some (Inr st, w')"
    using ct_set[OF h] by blast
  have run: "unshieldConfidentialAsset ct_up ct_config None ''GA'' ''0.000001'' ct_submit (ct_page, 0)
      = Some (Inr \<lparr>fl_txHash = ''withdraw'', fl_steps = [''withdraw'']\<rparr>, w')"
    using p(1,2) ct_wait(2)[OF p(3)] ct_scoped_Inr ct_amount ct_scoped_configured
      m bt set ww(1) ct_account_read[of "\<lambda>_. True"] ct_auditor_key ct_scalar
    by (simp add: unshieldConfidentialAsset_def io_simps given_def ct_submit_def requireCtConfig_def ctChainClient_def
        withdrawPublic_def client_for_def ct_account_def ct_withdraw_def Let_def)
  from io_postD[OF unshield_withdraws[OF ct_page_assms ct_submit_safe] run, rule_format, OF refl]
  obtain raw keys k client ww x q where raw: "positiveAmount ''0.000001'' = Inr raw"
      "resolveCtKeys ct_up ct_scoped ''GA'' (ct_page, 0) = Some (Inr keys, k)"
    and "withdraw_sent ct_up ct_scoped client ''GA'' keys ct_submit raw x ww ''withdraw'' q"
    "rest_stored ct_scoped ''GA'' (ww_next ww) (fst w')" "spendable_opens ct_up ct_scoped ''GA'' x"
    unfolding flowResult.simps by (elim exE conjE) blast
  moreover from raw ct_amount p(1) have "raw = 10" "keys = ct_keys" by simp_all
  ultimately show ?thesis using run by blast
qed

end
