(* ===== verification/ProofBundles.thy ===== *)
theory ProofBundles
  imports Config Amounts
begin

text \<open>
  The eligibility proofs of \<^verbatim>\<open>lib/contracts.ts\<close> and \<^verbatim>\<open>lib/prover.ts\<close> as data: the bundle the
  prover's output becomes, its public inputs as decimal texts and as bytes in hexadecimal, the checks
  before a transaction and the texts shown for failures. \<^verbatim>\<open>Buffer.from(s, 'hex')\<close> of the
  \<^verbatim>\<open>buffer\<close> package is the parameter \<^verbatim>\<open>unhex\<close>. Shown: both layouts of the public inputs
  give the same bundle, and reading back what was laid out.
\<close>

section \<open>Hexadecimal texts\<close>

text \<open>\<^verbatim>\<open>hex.replace(/^0x/, '')\<close> and \<^verbatim>\<open>hex.replace(/^0x/i, '')\<close>.\<close>

definition strip0x :: "string \<Rightarrow> string" where
  "strip0x s = (if startsWith ''0x'' s then drop 2 s else s)"

definition strip0xi :: "string \<Rightarrow> string" where
  "strip0xi s = (if startsWith ''0x'' s \<or> startsWith ''0X'' s then drop 2 s else s)"

definition normalizeProofHex :: "string \<Rightarrow> string" where
  "normalizeProofHex hex = map lower (strip0xi hex)"

definition fieldToBytes32Hex :: "string \<Rightarrow> string res" where
  "fieldToBytes32Hex fieldDecimal = rmap (\<lambda>x. padStart0 64 (toString16 x)) (BigInt_of fieldDecimal)"

definition hexFieldToDecimal :: "string \<Rightarrow> string res" where
  "hexFieldToDecimal hexField =
     rmap toString10 (BigInt_of (if startsWith ''0x'' hexField then hexField else ''0x'' @ hexField))"

section \<open>Bundles\<close>

record bundleInputs =
  pi_root :: string
  pi_revocationRoot :: string
  pi_policyId :: string
  pi_assetId :: string
  pi_actionId :: string
  pi_nullifier :: string

record proofBundle =
  pb_proofHex :: string
  pb_publicInputsHex :: string
  pb_publicInputs :: bundleInputs

definition ULTRA_HONK_PROOF_BYTES :: int where "ULTRA_HONK_PROOF_BYTES = 14592"

definition PUBLIC_INPUTS_BYTES :: int where "PUBLIC_INPUTS_BYTES = 192"

definition input_texts :: "bundleInputs \<Rightarrow> string list" where
  "input_texts f = [pi_root f, pi_revocationRoot f, pi_policyId f, pi_assetId f, pi_actionId f, pi_nullifier f]"

definition inputs_of :: "string list \<Rightarrow> bundleInputs" where
  "inputs_of ts = \<lparr>pi_root = ts ! 0, pi_revocationRoot = ts ! 1, pi_policyId = ts ! 2, pi_assetId = ts ! 3,
     pi_actionId = ts ! 4, pi_nullifier = ts ! 5\<rparr>"

definition buildPublicInputsHex :: "bundleInputs \<Rightarrow> string res" where
  "buildPublicInputsHex f = rmap concat (traverse fieldToBytes32Hex (input_texts f))"

text \<open>\<^verbatim>\<open>slice(i)\<close>; past the check of the length its chunk is never empty.\<close>

definition input_slice :: "string \<Rightarrow> nat \<Rightarrow> string res" where
  "input_slice h i = (let chunk = take 64 (drop (64 * i) h) in
     if chunk = [] then Inl (Refused (''Missing public input field at index '' @ toString10 (int i)))
     else rmap toString10 (BigInt_of (''0x'' @ chunk)))"

definition extractPublicInputFields :: "string \<Rightarrow> bundleInputs res" where
  "extractPublicInputFields publicInputsHex =
     (let h = strip0x publicInputsHex in
      if length h < 384
      then Inl (Refused (''Invalid public inputs length: expected 384 hex chars, got '' @ toString10 (int (length h))))
      else rmap inputs_of (traverse (input_slice h) [0, 1, 2, 3, 4, 5]))"

datatype honkInputs = HexInputs "string list" | RawInputs "byte list"

definition bundleFromHonkProof :: "byte list \<Rightarrow> honkInputs \<Rightarrow> proofBundle res" where
  "bundleFromHonkProof prf publicInputs = (case publicInputs of
     HexInputs ps \<Rightarrow>
       if length ps < 6
       then Inl (Refused (''Expected 6 public inputs from prover, got '' @ toString10 (int (length ps))))
       else rbind (rmap inputs_of (traverse hexFieldToDecimal (take 6 ps))) (\<lambda>flds.
            rmap (\<lambda>hex. \<lparr>pb_proofHex = bytesToHex prf, pb_publicInputsHex = hex, pb_publicInputs = flds\<rparr>)
              (buildPublicInputsHex flds))
   | RawInputs bs \<Rightarrow>
       rmap (\<lambda>flds. \<lparr>pb_proofHex = bytesToHex prf, pb_publicInputsHex = bytesToHex bs, pb_publicInputs = flds\<rparr>)
         (extractPublicInputFields (bytesToHex bs)))"

definition nullifierHexFromBundle :: "proofBundle \<Rightarrow> string res" where
  "nullifierHexFromBundle prf =
     rmap (\<lambda>x. ''0x'' @ padStart0 64 (toString16 x)) (BigInt_of (pi_nullifier (pb_publicInputs prf)))"

section \<open>Checks\<close>

definition assertProofBundleForChain :: "(string \<Rightarrow> byte list) \<Rightarrow> proofBundle \<Rightarrow> unit res" where
  "assertProofBundleForChain unhex prf =
     (let proofLen = int (length (unhex (strip0x (pb_proofHex prf))));
          piLen = int (length (unhex (strip0x (pb_publicInputsHex prf)))) in
      if proofLen \<noteq> ULTRA_HONK_PROOF_BYTES
      then Inl (Refused (''Invalid proof size: expected '' @ toString10 ULTRA_HONK_PROOF_BYTES @ '' bytes, got '' @
        toString10 proofLen @ ''. Regenerate proof.''))
      else if piLen \<noteq> PUBLIC_INPUTS_BYTES
      then Inl (Refused (''Invalid public inputs size: expected '' @ toString10 PUBLIC_INPUTS_BYTES @ '' bytes, got '' @
        toString10 piLen @ ''. Regenerate proof.''))
      else Inr ())"

record boundSessionProof =
  bs_proofHex :: string
  bs_publicInputsHex :: string

definition sessionProofMatchesBound :: "boundSessionProof \<Rightarrow> proofBundle \<Rightarrow> bool" where
  "sessionProofMatchesBound bound prf \<longleftrightarrow>
     normalizeProofHex (bs_proofHex bound) = normalizeProofHex (pb_proofHex prf)
     \<and> normalizeProofHex (bs_publicInputsHex bound) = normalizeProofHex (pb_publicInputsHex prf)"

text \<open>\<^verbatim>\<open>BigInt(roots.root.replace(/^0x/i, '0x')).toString(10)\<close>.\<close>

definition root_decimal :: "string \<Rightarrow> string res" where
  "root_decimal r = rmap toString10
     (BigInt_of (if startsWith ''0x'' r \<or> startsWith ''0X'' r then ''0x'' @ drop 2 r else r))"

definition verifyPublicInputsMatchRoots :: "proofBundle \<Rightarrow> string \<Rightarrow> string \<Rightarrow> bool res" where
  "verifyPublicInputsMatchRoots b root revocationRoot =
     rbind (root_decimal root) (\<lambda>expectedRoot.
     rmap (\<lambda>expectedRev. pi_root (pb_publicInputs b) = expectedRoot \<and> pi_revocationRoot (pb_publicInputs b) = expectedRev)
       (root_decimal revocationRoot))"

definition publicInputsPanel :: "proofBundle \<Rightarrow> (string \<times> string) list" where
  "publicInputsPanel b = (let p = pb_publicInputs b in
     [(''Eligibility record'', pi_root p), (''Restriction record'', pi_revocationRoot p),
      (''Eligibility plan'', pi_policyId p), (''Settlement reference'', pi_nullifier p)])"

section \<open>The last bundle bound on this device\<close>

definition digest :: "proofBundle \<Rightarrow> string" where
  "digest prf = map lower (strip0xi (pb_proofHex prf)) @ '':'' @ map lower (strip0xi (pb_publicInputsHex prf))"

definition markProofBoundLocally :: "proofBundle \<Rightarrow> string option \<Rightarrow> string option" where
  "markProofBoundLocally prf lastBound = Some (digest prf)"

definition isProofBoundLocally :: "proofBundle \<Rightarrow> string option \<Rightarrow> bool" where
  "isProofBoundLocally prf lastBound \<longleftrightarrow> lastBound = Some (digest prf)"

definition clearLocalProofBindCache :: "string option \<Rightarrow> string option" where
  "clearLocalProofBindCache lastBound = None"

section \<open>Layouts\<close>

abbreviation hex32 :: "int \<Rightarrow> string" where
  "hex32 x \<equiv> padStart0 64 (digits_of 16 (nat x))"

lemma concat_slice:
  assumes "\<forall>h\<in>set hs. length h = n" and "i < length hs"
  shows "take n (drop (n * i) (concat hs)) = hs ! i"
  using assms
proof (induction hs arbitrary: i)
  case (Cons h hs)
  then show ?case by (cases i) simp_all
qed simp

lemma no_0x:
  assumes "\<not> startsWith ''0x'' s" and "2 \<le> length s"
  shows "\<not> startsWith ''0x'' (s @ t)"
  using assms by (simp add: startsWith_def)

lemma hex32_no_0x: "\<not> startsWith ''0x'' (hex32 x)"
proof
  assume "startsWith ''0x'' (hex32 x)"
  then have "CHR ''x'' \<in> set (hex32 x)" by (rule startsWith_mem) simp
  then have "CHR ''x'' \<in> set (digits_of 16 (nat x))" by (simp add: padStart0_def)
  then obtain d where "d < 16" "CHR ''x'' = hex_digit d" by (rule digits_charE) simp_all
  with hex_digit_neq(3)[of d] show False by simp
qed

lemma length_hex32: "x < 2 ^ 256 \<Longrightarrow> length (hex32 x) = 64"
proof -
  assume "x < 2 ^ 256"
  then have "nat x < 16 ^ 64" by (simp add: nat_less_iff)
  then show ?thesis using length_digits_of[of 16 "nat x" 64] by simp
qed

lemma fieldToBytes32Hex_dec: "0 \<le> x \<Longrightarrow> fieldToBytes32Hex (toString10 x) = Inr (hex32 x)"
  by (simp add: fieldToBytes32Hex_def BigInt_of_def toString16_def)

lemma BigInt_hex32: "0 \<le> x \<Longrightarrow> BigInt_of (''0x'' @ hex32 x) = Inr x"
  using parse_bigint_hex[of 64 "nat x"] by (simp add: BigInt_of_def)

lemma pad_snoc:
  assumes "d < 16" and "0 < k"
  shows "padStart0 (Suc k) (digits_of 16 (16 * v + d)) = padStart0 k (digits_of 16 v) @ [hex_digit d]"
proof (cases "v = 0")
  case True
  moreover have "replicate k (CHR ''0'') = replicate (k - 1) (CHR ''0'') @ [CHR ''0'']"
    using assms(2) by (cases k) (simp_all flip: replicate_append_same)
  ultimately show ?thesis using assms
    by (simp add: digits_of.simps[of 16 d] digits_of.simps[of 16 0] padStart0_def hex_digit_0)
next
  case False
  with assms show ?thesis by (simp add: digits_of.simps[of 16 "16 * v + d"] padStart0_def)
qed

lemma nibbles: "256 * n + u = 16 * (16 * n + u div 16) + u mod (16 :: nat)"
  by presburger

lemma bytesToHex_value: "bs \<noteq> [] \<Longrightarrow> bytesToHex bs = padStart0 (2 * length bs) (digits_of 16 (nat (fromBytesBE bs)))"
proof (induction bs rule: rev_nonempty_induct)
  case (single x)
  then show ?case by (simp add: bytesToHex_def fromBytesBE_def shift_in_def toString16_def)
next
  case (snoc x xs)
  have val: "nat (fromBytesBE (xs @ [x])) = 16 * (16 * nat (fromBytesBE xs) + unat x div 16) + unat x mod 16"
  proof -
    have "nat (fromBytesBE (xs @ [x])) = 256 * nat (fromBytesBE xs) + unat x"
      using fromBytesBE_nonneg[of xs] by (simp add: fromBytesBE_append fromBytesBE_Cons nat_add_distrib nat_mult_distrib)
    then show ?thesis by (simp only: nibbles)
  qed
  have pad: "padStart0 (Suc (Suc (2 * length xs))) (digits_of 16 (16 * (16 * nat (fromBytesBE xs) + unat x div 16) + unat x mod 16))
      = (padStart0 (2 * length xs) (digits_of 16 (nat (fromBytesBE xs))) @ [hex_digit (unat x div 16)]) @ [hex_digit (unat x mod 16)]"
    using snoc(1) by (subst pad_snoc, simp, simp, subst pad_snoc) (simp_all add: unat_byte_nibbles)
  have hex: "bytesToHex (xs @ [x]) = bytesToHex xs @ [hex_digit (unat x div 16), hex_digit (unat x mod 16)]"
    by (simp add: bytesToHex_def hex_byte)
  have len: "2 * length (xs @ [x]) = Suc (Suc (2 * length xs))" by simp
  show ?case by (simp only: len val pad hex snoc(2) append_assoc append_Cons append_Nil)
qed

lemma hex32_bytes: "length bs = 32 \<Longrightarrow> bytesToHex bs = hex32 (fromBytesBE bs)"
  using bytesToHex_value[of bs] by (cases bs) auto

lemma dec_of_slice:
  assumes "\<forall>x\<in>set xs. 0 \<le> x \<and> x < 2 ^ 256" and "i < length xs"
  shows "input_slice (concat (map hex32 xs)) i = Inr (toString10 (xs ! i))"
proof -
  have "take 64 (drop (64 * i) (concat (map hex32 xs))) = hex32 (xs ! i)"
    using assms concat_slice[of "map hex32 xs" 64 i] length_hex32 by simp
  moreover have "hex32 (xs ! i) \<noteq> []" using assms length_hex32[of "xs ! i"] by (auto simp del: length_padStart0)
  ultimately show ?thesis using assms BigInt_hex32[of "xs ! i"] by (simp add: input_slice_def Let_def)
qed

definition decimal_inputs :: "int list \<Rightarrow> bundleInputs" where
  "decimal_inputs xs = inputs_of (map toString10 xs)"

lemma six: "length xs = 6 \<longleftrightarrow> (\<exists>a b c d e f. xs = [a, b, c, d, e, f])"
  by (auto simp: eval_nat_numeral length_Suc_conv)

lemma length_concat_hex32: "\<forall>x\<in>set xs. x < 2 ^ 256 \<Longrightarrow> length (concat (map hex32 xs)) = 64 * length xs"
  by (induction xs) (simp_all add: length_hex32 del: length_padStart0)

lemma build_decimal:
  assumes "length xs = 6" and "\<forall>x\<in>set xs. 0 \<le> x \<and> x < 2 ^ 256"
  shows "buildPublicInputsHex (decimal_inputs xs) = Inr (concat (map hex32 xs))"
  using assms by (auto simp: six buildPublicInputsHex_def decimal_inputs_def inputs_of_def input_texts_def fieldToBytes32Hex_dec)

lemma extract_hex32:
  assumes "length xs = 6" and "\<forall>x\<in>set xs. 0 \<le> x \<and> x < 2 ^ 256"
  shows "extractPublicInputFields (concat (map hex32 xs)) = Inr (decimal_inputs xs)"
proof -
  have l: "length (concat (map hex32 xs)) = 384" using assms length_concat_hex32[of xs] by simp
  obtain y ys where "xs = y # ys" using assms(1) by (cases xs) auto
  then have "\<not> startsWith ''0x'' (concat (map hex32 xs))"
    using no_0x[OF hex32_no_0x[of y]] by (simp add: padStart0_def)
  then have "strip0x (concat (map hex32 xs)) = concat (map hex32 xs)" by (simp add: strip0x_def)
  then show ?thesis using l assms dec_of_slice[OF assms(2)]
    by (auto simp: extractPublicInputFields_def six decimal_inputs_def inputs_of_def simp del: length_padStart0)
qed

section \<open>Properties\<close>

text \<open>
  Six public inputs below \<^verbatim>\<open>2^256\<close> are laid out as 384 hexadecimal digits, and the
  fields read back from them, with and without the prefix, are the decimal texts of the inputs.
\<close>

theorem public_inputs_roundtrip:
  assumes "length xs = 6" and "\<forall>x\<in>set xs. 0 \<le> x \<and> x < 2 ^ 256"
  shows "\<exists>hex. buildPublicInputsHex (decimal_inputs xs) = Inr hex \<and> length hex = 384
    \<and> extractPublicInputFields hex = Inr (decimal_inputs xs)
    \<and> extractPublicInputFields (''0x'' @ hex) = Inr (decimal_inputs xs)"
proof -
  have "length (concat (map hex32 xs)) = 384" using assms length_concat_hex32[of xs] by simp
  moreover have "strip0x (''0x'' @ concat (map hex32 xs)) = concat (map hex32 xs)" by (simp add: strip0x_def startsWith_def)
  moreover have "strip0x (concat (map hex32 xs)) = concat (map hex32 xs)"
  proof -
    obtain y ys where "xs = y # ys" using assms(1) by (cases xs) auto
    then show ?thesis using no_0x[OF hex32_no_0x[of y]] by (simp add: padStart0_def strip0x_def)
  qed
  ultimately show ?thesis using build_decimal[OF assms] extract_hex32[OF assms]
    by (simp add: extractPublicInputFields_def)
qed

theorem public_inputs_roundtrip_witness:
  "\<exists>hex. buildPublicInputsHex (decimal_inputs [7, 0, 1, 2, 1, 2 ^ 255]) = Inr hex \<and> length hex = 384
    \<and> extractPublicInputFields hex = Inr (decimal_inputs [7, 0, 1, 2, 1, 2 ^ 255])"
  using public_inputs_roundtrip[of "[7, 0, 1, 2, 1, 2 ^ 255]"] by auto

text \<open>
  The prover's six public inputs give the same bundle whether they come as prefixed hexadecimal
  texts or as one byte array, with the decimal values of the 32-byte numbers; and the bundle passes
  the check of sizes exactly when the proof has 14592 bytes.
\<close>

theorem honk_encodings_agree:
  assumes "length bss = 6" and "\<forall>b\<in>set bss. length b = 32" and "\<forall>b. unhex (bytesToHex b) = b"
  shows "\<exists>bundle. bundleFromHonkProof prf (HexInputs (map (\<lambda>b. ''0x'' @ bytesToHex b) bss)) = Inr bundle
    \<and> bundleFromHonkProof prf (RawInputs (concat bss)) = Inr bundle
    \<and> pb_publicInputs bundle = decimal_inputs (map fromBytesBE bss)
    \<and> (assertProofBundleForChain unhex bundle = Inr () \<longleftrightarrow> length prf = 14592)"
proof -
  let ?xs = "map fromBytesBE bss"
  have bound: "0 \<le> fromBytesBE b \<and> fromBytesBE b < 2 ^ 256" if "length b = 32" for b
    using fromBytesBE_less[of b] that by simp
  then have xs: "length ?xs = 6" "\<forall>x\<in>set ?xs. 0 \<le> x \<and> x < 2 ^ 256" using assms(1,2) by auto
  have cat: "concat (map hex32 ?xs) = bytesToHex (concat bss)"
    using assms(2) by (induction bss) (simp_all add: bytesToHex_def[of "_ @ _"] hex32_bytes[symmetric] bytesToHex_def[symmetric])
  have dec: "hexFieldToDecimal (''0x'' @ bytesToHex b) = Inr (toString10 (fromBytesBE b))" if "length b = 32" for b
    using BigInt_hex32[of "fromBytesBE b"] hex32_bytes[OF that] by (simp add: hexFieldToDecimal_def startsWith_def)
  let ?made = "\<lparr>pb_proofHex = bytesToHex prf, pb_publicInputsHex = bytesToHex (concat bss),
     pb_publicInputs = decimal_inputs ?xs\<rparr>"
  have hex: "bundleFromHonkProof prf (HexInputs (map (\<lambda>b. ''0x'' @ bytesToHex b) bss)) = Inr ?made"
    using build_decimal[OF xs] assms(1,2) cat dec
    by (auto simp: bundleFromHonkProof_def six decimal_inputs_def inputs_of_def)
  have raw: "bundleFromHonkProof prf (RawInputs (concat bss)) = Inr ?made"
    using extract_hex32[OF xs] cat by (simp add: bundleFromHonkProof_def)
  have "length (concat bss) = 192" using assms(1,2) by (auto simp: six)
  moreover have "strip0x (bytesToHex b) = bytesToHex b" for b
    using has0x_bytesToHex[of b] by (simp add: strip0x_def has0x_def)
  ultimately have "assertProofBundleForChain unhex ?made = Inr () \<longleftrightarrow> length prf = 14592"
    using assms(3) by (simp add: assertProofBundleForChain_def Let_def ULTRA_HONK_PROOF_BYTES_def PUBLIC_INPUTS_BYTES_def)
  with hex raw show ?thesis by simp
qed

theorem honk_encodings_agree_witness:
  "\<exists>bundle. bundleFromHonkProof [1, 2] (RawInputs (replicate 192 0)) = Inr bundle
     \<and> pb_publicInputs bundle = decimal_inputs [0, 0, 0, 0, 0, 0]
     \<and> assertProofBundleForChain (\<lambda>s. catch (hexToBytes s) []) bundle \<noteq> Inr ()"
proof -
  let ?bss = "replicate 6 (replicate 32 (0 :: byte))"
  have "concat ?bss = replicate 192 0" by (simp add: eval_nat_numeral)
  moreover have "map fromBytesBE ?bss = [0, 0, 0, 0, 0, 0]"
    using fromBytesBE_zeros[of 32 "[]"] by (simp add: eval_nat_numeral)
  ultimately show ?thesis
    using honk_encodings_agree[of ?bss "\<lambda>s. catch (hexToBytes s) []" "[1, 2]"] by auto
qed

end
