(* ===== verification/Eligibility.thy ===== *)
theory Eligibility
  imports ProofBundles CtAssets
begin

text \<open>
  The passport and its proofs: \<^verbatim>\<open>lib/assetScope.ts\<close>, \<^verbatim>\<open>lib/credentialProof.ts\<close>,
  \<^verbatim>\<open>lib/policies.ts\<close>, \<^verbatim>\<open>lib/passportLifecycle.ts\<close>,
  \<^verbatim>\<open>lib/productState.ts\<close>, \<^verbatim>\<open>lib/journey.ts\<close>, \<^verbatim>\<open>lib/proofRecovery.ts\<close> and the
  pure parts of \<^verbatim>\<open>lib/proofLifecycle.ts\<close>, \<^verbatim>\<open>lib/passport.ts\<close> and
  \<^verbatim>\<open>lib/scopeNullifier.ts\<close>. A credential's nullifier is the hash of its secret, its policy, the
  asset and the action; the Poseidon2 hash of the package is the parameter \<^verbatim>\<open>hash\<close>. Shown:
  which proofs a credential accepts, that both guards against replay ask about the same nullifier,
  and when the product lets a user settle.
\<close>

section \<open>Credentials and scopes\<close>

datatype inputVal = InText string | InBool bool | InTexts "string list" | InNums "int list"

fun input_String :: "inputVal \<Rightarrow> string" where
  "input_String (InText s) = s"
| "input_String (InBool b) = (if b then ''true'' else ''false'')"
| "input_String (InTexts ss) = join '','' ss"
| "input_String (InNums ns) = join '','' (map toString10 ns)"

fun input_truth :: "inputVal \<Rightarrow> bool" where
  "input_truth (InText s) \<longleftrightarrow> s \<noteq> []"
| "input_truth (InBool b) \<longleftrightarrow> b"
| "input_truth v \<longleftrightarrow> True"

record credentialCore =
  cr_commitment :: string
  cr_nullifier :: string
  cr_root :: string
  cr_revocationRoot :: string
  cr_policyId :: "int option"
  cr_issuerId :: int
  cr_pubkeyBytes64 :: string
  cr_stellarPublicKey :: "string option"

record issuerCredential =
  ic_label :: string
  ic_issuedAt :: "int option"
  ic_issuerStellarPublicKey :: "string option"
  ic_issuerEthAddress :: "string option"
  ic_issuerId :: int
  ic_walletField :: "string option"
  ic_credential :: credentialCore
  ic_proverInputs :: "(string \<times> inputVal) list option"

definition prover_input :: "issuerCredential \<Rightarrow> string \<Rightarrow> inputVal option" where
  "prover_input c k = (case ic_proverInputs c of None \<Rightarrow> None | Some m \<Rightarrow> map_of m k)"

record assetScope =
  as_asset :: settlementAsset
  as_action :: string
  as_assetId :: string
  as_actionId :: string

definition ASSET_SCOPES :: "settlementAsset \<Rightarrow> assetScope" where
  "ASSET_SCOPES asset = \<lparr>as_asset = asset, as_action = ''settlement'',
     as_assetId = (case asset of RwaAsset \<Rightarrow> ''1'' | UsdcAsset \<Rightarrow> ''2'' | EurcAsset \<Rightarrow> ''3''), as_actionId = ''1''\<rparr>"

definition all_scopes :: "assetScope list" where
  "all_scopes = map ASSET_SCOPES [RwaAsset, UsdcAsset, EurcAsset]"

fun asset_text :: "settlementAsset \<Rightarrow> string" where
  "asset_text RwaAsset = ''rwa''" | "asset_text UsdcAsset = ''usdc''" | "asset_text EurcAsset = ''eurc''"

definition scopeKey :: "assetScope \<Rightarrow> string" where
  "scopeKey scope = asset_text (as_asset scope) @ '':'' @ as_action scope"

definition proofScopeMatches :: "proofBundle option \<Rightarrow> assetScope \<Rightarrow> bool" where
  "proofScopeMatches prf scope \<longleftrightarrow> (case prf of None \<Rightarrow> False
     | Some p \<Rightarrow> pi_assetId (pb_publicInputs p) = as_assetId scope \<and> pi_actionId (pb_publicInputs p) = as_actionId scope)"

text \<open>\<^verbatim>\<open>toBigInt\<close> of a text.\<close>

definition toBigInt :: "string \<Rightarrow> int res" where
  "toBigInt value = (let t = trim value in if t = [] then Inr 0 else BigInt_of t)"

definition fieldToHex :: "string \<Rightarrow> string res" where
  "fieldToHex value = rmap (\<lambda>x. ''0x'' @ padStart0 64 (toString16 x)) (BigInt_of value)"

definition scopedNullifierDecimal :: "(int list \<Rightarrow> int) \<Rightarrow> string \<Rightarrow> string \<Rightarrow> string \<Rightarrow> string \<Rightarrow> string res" where
  "scopedNullifierDecimal hash noteSecret pol assetId actionId =
     rmap (\<lambda>xs. toString10 (hash xs)) (traverse toBigInt [noteSecret, pol, assetId, actionId])"

definition policy_text :: "issuerCredential \<Rightarrow> string" where
  "policy_text c = (case prover_input c ''policy_id'' of Some v \<Rightarrow> input_String v
     | None \<Rightarrow> (case cr_policyId (ic_credential c) of Some n \<Rightarrow> toString10 n | None \<Rightarrow> ''1''))"

definition has_secret :: "issuerCredential \<Rightarrow> bool" where
  "has_secret c \<longleftrightarrow> (case prover_input c ''note_secret'' of None \<Rightarrow> False | Some v \<Rightarrow> input_truth v)"

definition secret_text :: "issuerCredential \<Rightarrow> string" where
  "secret_text c = input_String (the (prover_input c ''note_secret''))"

definition scoped_nullifier :: "(int list \<Rightarrow> int) \<Rightarrow> issuerCredential \<Rightarrow> assetScope \<Rightarrow> string res" where
  "scoped_nullifier hash c scope =
     scopedNullifierDecimal hash (secret_text c) (policy_text c) (as_assetId scope) (as_actionId scope)"

definition credentialForScope :: "(int list \<Rightarrow> int) \<Rightarrow> issuerCredential \<Rightarrow> assetScope \<Rightarrow> issuerCredential res" where
  "credentialForScope hash c scope =
     (if \<not> has_secret c then Inl (Refused ''Passport is missing note secret; request a new passport.'')
      else rbind (scoped_nullifier hash c scope) (\<lambda>nullifier.
           rmap (\<lambda>hex. c\<lparr>ic_credential := (ic_credential c)\<lparr>cr_nullifier := hex\<rparr>,
               ic_proverInputs := Some (put ''nullifier'' (InText nullifier) (put ''action_id'' (InText (as_actionId scope))
                 (put ''asset_id'' (InText (as_assetId scope)) (put ''policy_id'' (InText (policy_text c))
                   (the (ic_proverInputs c))))))\<rparr>) (fieldToHex nullifier)))"

section \<open>Proofs of a credential\<close>

definition scopeForProof :: "proofBundle \<Rightarrow> assetScope option" where
  "scopeForProof prf = find (proofScopeMatches (Some prf)) all_scopes"

definition expectedNullifierForCredential :: "(int list \<Rightarrow> int) \<Rightarrow> issuerCredential \<Rightarrow> proofBundle \<Rightarrow> string option res" where
  "expectedNullifierForCredential hash c prf =
     (if ic_proverInputs c = None then Inr None
      else case (if has_secret c then scopeForProof prf else None) of
        Some scope \<Rightarrow> rmap Some (scoped_nullifier hash c scope)
      | None \<Rightarrow> Inr (map_option input_String (prover_input c ''nullifier'')))"

definition proofMatchesCredential :: "(int list \<Rightarrow> int) \<Rightarrow> proofBundle option \<Rightarrow> issuerCredential option \<Rightarrow> bool res" where
  "proofMatchesCredential hash prf credential = (case (prf, credential) of
     (Some p, Some c) \<Rightarrow> rmap (\<lambda>expected. expected = Some (pi_nullifier (pb_publicInputs p)))
         (expectedNullifierForCredential hash c p)
   | _ \<Rightarrow> Inr False)"

definition credentialNullifierPreview :: "issuerCredential \<Rightarrow> string" where
  "credentialNullifierPreview c = cr_nullifier (ic_credential c)"

definition nullifierHexFromCredential :: "issuerCredential \<Rightarrow> string res" where
  "nullifierHexFromCredential c =
     (let t = (case prover_input c ''nullifier'' of Some v \<Rightarrow> input_String v | None \<Rightarrow> cr_nullifier (ic_credential c)) in
      if startsWith ''0x'' t then Inr t else fieldToHex t)"

definition scopeNullifierHex :: "(int list \<Rightarrow> int) \<Rightarrow> issuerCredential \<Rightarrow> assetScope \<Rightarrow> string res" where
  "scopeNullifierHex hash c scope = rbind (credentialForScope hash c scope) (\<lambda>scoped.
     let nullifier = (case prover_input scoped ''nullifier'' of Some v \<Rightarrow> input_String v
           | None \<Rightarrow> cr_nullifier (ic_credential scoped)) in
     if nullifier = [] then Inl (Refused ''Passport is missing nullifier; request a new passport.'')
     else fieldToHex nullifier)"

definition friendlyAssetName :: "settlementAsset \<Rightarrow> string" where
  "friendlyAssetName asset = (case asset of UsdcAsset \<Rightarrow> ''USDC'' | EurcAsset \<Rightarrow> ''EURC'' | RwaAsset \<Rightarrow> ''Treasury units'')"

definition scopeNullifierSpentMessage :: "settlementAsset \<Rightarrow> string" where
  "scopeNullifierSpentMessage asset = ''Your '' @ friendlyAssetName asset @ '' eligibility was already used on-chain. '' @
     ''Renew your passport on Verify (Request passport), confirm eligibility, authorize with passkey, then send again.''"

section \<open>Policies\<close>

datatype policyKey = GeneralEligibility | AccreditedInvestor | UsJurisdiction | SanctionsClear | AgeVerified | ProofOfFunds

fun policy_key_text :: "policyKey \<Rightarrow> string" where
  "policy_key_text GeneralEligibility = ''general-eligibility''"
| "policy_key_text AccreditedInvestor = ''accredited-investor''"
| "policy_key_text UsJurisdiction = ''us-jurisdiction''"
| "policy_key_text SanctionsClear = ''sanctions-clear''"
| "policy_key_text AgeVerified = ''age-verified''"
| "policy_key_text ProofOfFunds = ''proof-of-funds''"

record policyDefinition =
  pd_key :: policyKey
  pd_policyId :: int
  pd_title :: string
  pd_description :: string
  pd_claims :: "string list"
  pd_jurisdictions :: "(int \<times> int) option"
  pd_fundsThreshold :: "int option"

fun policyByKey :: "policyKey \<Rightarrow> policyDefinition" where
  "policyByKey GeneralEligibility = \<lparr>pd_key = GeneralEligibility, pd_policyId = 1, pd_title = ''General RWA eligibility'',
     pd_description = ''Accredited, sanctions-clear, jurisdiction allowed, 18+'',
     pd_claims = [''Accredited investor'', ''Sanctions clear'', ''Jurisdiction allowed'', ''Age 18+''],
     pd_jurisdictions = Some (1, 999), pd_fundsThreshold = None\<rparr>"
| "policyByKey AccreditedInvestor = \<lparr>pd_key = AccreditedInvestor, pd_policyId = 1, pd_title = ''Accredited investor'',
     pd_description = ''Proves accredited status without revealing identity'', pd_claims = [''Accredited investor''],
     pd_jurisdictions = Some (1, 999), pd_fundsThreshold = None\<rparr>"
| "policyByKey UsJurisdiction = \<lparr>pd_key = UsJurisdiction, pd_policyId = 1, pd_title = ''US jurisdiction'',
     pd_description = ''Proves jurisdiction code is US (840) without revealing other attributes'',
     pd_claims = [''US jurisdiction allowed''], pd_jurisdictions = Some (840, 840), pd_fundsThreshold = None\<rparr>"
| "policyByKey SanctionsClear = \<lparr>pd_key = SanctionsClear, pd_policyId = 1, pd_title = ''Sanctions clear'',
     pd_description = ''Proves sanctions screening passed'', pd_claims = [''Sanctions clear''],
     pd_jurisdictions = Some (1, 999), pd_fundsThreshold = None\<rparr>"
| "policyByKey AgeVerified = \<lparr>pd_key = AgeVerified, pd_policyId = 1, pd_title = ''Age verified (18+)'',
     pd_description = ''Proves age threshold without revealing date of birth'', pd_claims = [''Age 18 or older''],
     pd_jurisdictions = Some (1, 999), pd_fundsThreshold = None\<rparr>"
| "policyByKey ProofOfFunds = \<lparr>pd_key = ProofOfFunds, pd_policyId = 2, pd_title = ''Proof of funds'',
     pd_description = ''Proves RWA balance meets threshold without revealing exact balance'',
     pd_claims = [''Balance meets minimum threshold''], pd_jurisdictions = None, pd_fundsThreshold = Some 50\<rparr>"

definition policyList :: "policyDefinition list" where
  "policyList = map policyByKey
     [GeneralEligibility, AccreditedInvestor, UsJurisdiction, SanctionsClear, AgeVerified, ProofOfFunds]"

section \<open>The passport's age and roots\<close>

definition DEFAULT_TTL_MS :: int where "DEFAULT_TTL_MS = 365 * 24 * 60 * 60 * 1000"

definition credentialExpiryMs :: "issuerCredential \<Rightarrow> int \<Rightarrow> int" where
  "credentialExpiryMs c now = given (ic_issuedAt c) now + DEFAULT_TTL_MS"

definition isCredentialExpired :: "issuerCredential \<Rightarrow> int \<Rightarrow> int \<Rightarrow> bool" where
  "isCredentialExpired c now later \<longleftrightarrow> now > credentialExpiryMs c later"

definition norm_root :: "string \<Rightarrow> string" where
  "norm_root v = padStart0 64 (map lower (strip0xi v))"

definition rootsMatchCredential :: "onChainRoots \<Rightarrow> issuerCredential \<Rightarrow> bool" where
  "rootsMatchCredential onChain c \<longleftrightarrow>
     norm_root (or_root onChain) = norm_root (cr_root (ic_credential c))
     \<and> norm_root (or_revocationRoot onChain) = norm_root (cr_revocationRoot (ic_credential c))"

definition issuerStellarAddress :: "issuerCredential option \<Rightarrow> string option" where
  "issuerStellarAddress credential = (case credential of None \<Rightarrow> None
     | Some c \<Rightarrow> coalesce (ic_issuerStellarPublicKey c) (coalesce (cr_stellarPublicKey (ic_credential c)) (ic_issuerEthAddress c)))"

section \<open>Life cycle\<close>

datatype proofLifecycle = LcNone | LcReady | LcConsumed | LcInvalid

record lifecycleState =
  ls_lifecycle :: proofLifecycle
  ls_consumedTxHash :: "string option"
  ls_reason :: "string option"

text \<open>The dash of the messages, in UTF-8.\<close>

definition dash :: string where "dash = [CHR 0xE2, CHR 0x80, CHR 0x94]"

definition invalidLifecycle :: lifecycleState where
  "invalidLifecycle = \<lparr>ls_lifecycle = LcInvalid, ls_consumedTxHash = None,
     ls_reason = Some (''Eligibility confirmation does not match current passport '' @ dash @ '' confirm again.'')\<rparr>"

definition readyLifecycle :: lifecycleState where
  "readyLifecycle = \<lparr>ls_lifecycle = LcReady, ls_consumedTxHash = None, ls_reason = None\<rparr>"

definition noLifecycle :: lifecycleState where
  "noLifecycle = \<lparr>ls_lifecycle = LcNone, ls_consumedTxHash = None, ls_reason = None\<rparr>"

definition deriveProofLifecycle ::
  "(int list \<Rightarrow> int) \<Rightarrow> issuerCredential option \<Rightarrow> proofBundle option \<Rightarrow> lifecycleState res" where
  "deriveProofLifecycle hash credential prf =
     (if credential = None \<or> prf = None then Inr noLifecycle
      else rmap (\<lambda>ok. if \<not> ok then invalidLifecycle else readyLifecycle) (proofMatchesCredential hash prf credential))"

definition isProofUsable :: "lifecycleState \<Rightarrow> bool" where
  "isProofUsable st \<longleftrightarrow> ls_lifecycle st = LcReady"

datatype passportPhase = PhNone | PassportIssued | ProofGenerated | ProofSpent | PhExpired

definition derivePassportPhase ::
  "(int list \<Rightarrow> int) \<Rightarrow> string option \<Rightarrow> issuerCredential option \<Rightarrow> proofBundle option \<Rightarrow> lifecycleState \<Rightarrow> passportPhase res" where
  "derivePassportPhase hash address credential prf lc =
     (if \<not> truthy address then Inr PhNone
      else if ls_lifecycle lc = LcConsumed then Inr ProofSpent
      else if ls_lifecycle lc = LcInvalid then Inr PhExpired
      else rmap (\<lambda>ok. if ok \<and> ls_lifecycle lc = LcReady then ProofGenerated
                 else if credential \<noteq> None then PassportIssued else PhNone)
             (proofMatchesCredential hash prf credential))"

definition canSettle :: "passportPhase \<Rightarrow> bool" where
  "canSettle phase \<longleftrightarrow> phase = ProofGenerated"

fun phaseLabel :: "passportPhase \<Rightarrow> string" where
  "phaseLabel PhNone = ''Get started''"
| "phaseLabel PassportIssued = ''Confirm eligibility''"
| "phaseLabel ProofGenerated = ''Ready to invest or send''"
| "phaseLabel ProofSpent = ''Renew passport''"
| "phaseLabel PhExpired = ''Renew passport''"

section \<open>Recovery\<close>

datatype recoveryStep = RecoverCredential | RecoverProof | RecoverReady

record recoveryPlan =
  rp_step :: recoveryStep
  rp_message :: string

definition ellipsis :: string where "ellipsis = [CHR 0xE2, CHR 0x80, CHR 0xA6]"

definition recoveryPlanAfterNullifierSpent :: "string option \<Rightarrow> recoveryPlan" where
  "recoveryPlanAfterNullifierSpent consumedTxHash = \<lparr>rp_step = RecoverCredential, rp_message =
     (if truthy consumedTxHash then ''Settlement '' @ take 12 (the consumedTxHash) @ ellipsis @ '' used this passport slot. ''
        @ ''Request a new passport below, then confirm eligibility and authorize with passkey.''
      else ''This passport slot was already used on-chain. Request a new passport below, '' @
        ''then confirm eligibility and authorize with passkey.'')\<rparr>"

definition isStaleCredentialState :: "lifecycleState \<Rightarrow> bool \<Rightarrow> bool" where
  "isStaleCredentialState lc hasCredential \<longleftrightarrow> ls_lifecycle lc = LcConsumed \<and> hasCredential"

record verifySteps =
  vs_wallet :: bool
  vs_credential :: bool
  vs_proof :: bool
  vs_ready :: bool

definition verifyStepFlags :: "bool \<Rightarrow> bool \<Rightarrow> bool \<Rightarrow> proofLifecycle \<Rightarrow> verifySteps" where
  "verifyStepFlags address credential activeProof lc =
     \<lparr>vs_wallet = address, vs_credential = (credential \<and> lc \<noteq> LcConsumed), vs_proof = activeProof, vs_ready = activeProof\<rparr>"

section \<open>Product steps\<close>

datatype stepProgress = Complete | CurrentStep | Upcoming

record productStep =
  ps_id :: string
  ps_label :: string
  ps_description :: string
  ps_state :: stepProgress

text \<open>\<^verbatim>\<open>flags.findIndex((flag) => !flag)\<close>, or the last index when all are set.\<close>

definition currentIndex :: "bool list \<Rightarrow> nat" where
  "currentIndex flags = (let k = length (takeWhile (\<lambda>f. f) flags) in if k = length flags then length flags - 1 else k)"

definition stepState :: "bool list \<Rightarrow> nat \<Rightarrow> stepProgress" where
  "stepState flags i = (if flags ! i then Complete else if i = currentIndex flags then CurrentStep else Upcoming)"

definition productFlags ::
  "string option \<Rightarrow> string option \<Rightarrow> issuerCredential option \<Rightarrow> proofBundle option \<Rightarrow> proofLifecycle \<Rightarrow> bool \<Rightarrow> bool \<Rightarrow> bool list" where
  "productFlags address settlementAddress credential prf lc hasSettlement passkeyFirst =
     [if passkeyFirst then truthy (coalesce settlementAddress address) else truthy address,
      credential \<noteq> None \<and> lc \<noteq> LcConsumed, prf \<noteq> None \<and> lc = LcReady, prf \<noteq> None \<and> lc = LcReady, hasSettlement]"

definition productTexts :: "bool \<Rightarrow> (string \<times> string \<times> string) list" where
  "productTexts passkeyFirst =
     [if passkeyFirst then (''connect'', ''Passkey'', ''Create your smart account.'')
        else (''connect'', ''Connect'', ''Link your Stellar wallet.''),
      (''verify'', ''Verify'', ''Confirm you meet the policy.''),
      (''passport'', ''Passport'', ''Receive your private passport.''),
      (''invest'', ''Invest'', ''Choose a regulated offering.''),
      (''receipt'', ''Receipt'', ''Keep your settlement record.'')]"

definition steps_of :: "(string \<times> string \<times> string) list \<Rightarrow> bool list \<Rightarrow> productStep list" where
  "steps_of texts flags = map (\<lambda>(i, n, l, d). \<lparr>ps_id = n, ps_label = l, ps_description = d, ps_state = stepState flags i\<rparr>)
     (enumerate 0 texts)"

definition buildProductSteps where
  "buildProductSteps address settlementAddress credential prf lc hasSettlement passkeyFirst =
     steps_of (productTexts passkeyFirst)
       (productFlags address settlementAddress credential prf lc hasSettlement passkeyFirst)"

datatype tone = ToneDefault | ToneReady | ToneWarning

record productReadiness =
  pr_title :: string
  pr_description :: string
  pr_cta :: string
  pr_href :: string
  pr_tone :: tone

definition getProductReadiness ::
  "string option \<Rightarrow> string option \<Rightarrow> issuerCredential option \<Rightarrow> proofBundle option \<Rightarrow> proofLifecycle \<Rightarrow> bool \<Rightarrow> productReadiness" where
  "getProductReadiness address settlementAddress credential prf lc passkeyFirst =
     (if passkeyFirst \<and> \<not> truthy settlementAddress \<and> \<not> truthy address
      then \<lparr>pr_title = ''Start with your passkey'', pr_description = ''Create a smart account with WebAuthn '' @ dash @
          '' connect a wallet only when you need to add funds.'', pr_cta = ''Create passkey account'',
          pr_href = ''/app/verify'', pr_tone = ToneDefault\<rparr>
      else if \<not> passkeyFirst \<and> \<not> truthy address
      then \<lparr>pr_title = ''Private investing on Stellar'', pr_description = ''Connect once, verify eligibility privately, '' @
          ''then access regulated investments.'', pr_cta = ''Connect wallet'', pr_href = ''/app/verify'', pr_tone = ToneDefault\<rparr>
      else if lc = LcConsumed
      then \<lparr>pr_title = ''One asset scope was used'', pr_description = ''Renew only the scope you need on Passport. '' @
          ''Other assets may still be ready to use.'', pr_cta = ''Renew passport'',
          pr_href = ''/app/verify#recovery-credential'', pr_tone = ToneWarning\<rparr>
      else if credential = None
      then \<lparr>pr_title = ''Verify your eligibility'', pr_description = ''Get a private passport that proves you are allowed '' @
          ''without revealing who you are.'', pr_cta = ''Start verification'', pr_href = ''/app/verify'', pr_tone = ToneDefault\<rparr>
      else if prf = None \<or> lc \<noteq> LcReady
      then \<lparr>pr_title = ''Finish your private passport'', pr_description = ''Confirm eligibility in your browser '' @ dash @
          '' takes a few seconds and stays on your device.'', pr_cta = ''Confirm eligibility'', pr_href = ''/app/verify'',
          pr_tone = ToneDefault\<rparr>
      else \<lparr>pr_title = ''You are ready to invest'', pr_description = ''Your passport is active for one compliant settlement. '' @
          ''Choose an offering or send privately.'', pr_cta = ''Browse investments'', pr_href = ''/app/marketplace'', pr_tone = ToneReady\<rparr>)"

section \<open>What the readings agree on\<close>

lemma fieldToHex_dec: "fieldToHex (toString10 n) = Inr (''0x'' @ padStart0 64 (toString16 n))"
  by (simp add: fieldToHex_def BigInt_of_def)

lemma toString10_ne [simp]: "toString10 n \<noteq> []"
  by (simp add: toString10_def)

lemma scopeForProof_known:
  assumes "proofScopeMatches (Some b) (ASSET_SCOPES asset)"
  shows "scopeForProof b = Some (ASSET_SCOPES asset)"
  using assms by (cases asset) (auto simp: scopeForProof_def all_scopes_def proofScopeMatches_def ASSET_SCOPES_def)

lemma scoped_nullifier_text:
  assumes "scoped_nullifier hash c s = Inr t"
  obtains xs where "t = toString10 (hash xs)"
  using assms by (auto simp: scoped_nullifier_def scopedNullifierDecimal_def rmap_Inr_iff)

text \<open>What scoping writes, and that the secret and the policy are kept.\<close>

lemma scoped_credential:
  assumes "credentialForScope hash c s = Inr c'"
  obtains n where "scoped_nullifier hash c s = Inr (toString10 n)" "n \<in> range hash"
    and "prover_input c' ''nullifier'' = Some (InText (toString10 n))"
    and "cr_nullifier (ic_credential c') = ''0x'' @ padStart0 64 (toString16 n)"
    and "has_secret c" "has_secret c'" "scoped_nullifier hash c' s = scoped_nullifier hash c s"
    and "ic_proverInputs c \<noteq> None" "ic_proverInputs c' \<noteq> None"
proof -
  from assms have secret: "has_secret c" by (simp add: credentialForScope_def split: if_splits)
  then obtain m where m: "ic_proverInputs c = Some m" by (auto simp: has_secret_def prover_input_def split: option.splits)
  from assms secret obtain t where t: "scoped_nullifier hash c s = Inr t"
    by (auto simp: credentialForScope_def rbind_Inr_iff)
  then obtain xs where xs: "t = toString10 (hash xs)" by (rule scoped_nullifier_text)
  have c': "c' = c\<lparr>ic_credential := (ic_credential c)\<lparr>cr_nullifier := ''0x'' @ padStart0 64 (toString16 (hash xs))\<rparr>,
       ic_proverInputs := Some (put ''nullifier'' (InText t) (put ''action_id'' (InText (as_actionId s))
         (put ''asset_id'' (InText (as_assetId s)) (put ''policy_id'' (InText (policy_text c)) m))))\<rparr>"
    using assms secret m t by (simp add: credentialForScope_def xs fieldToHex_dec)
  have "prover_input c' ''note_secret'' = prover_input c ''note_secret''" "policy_text c' = policy_text c"
    by (simp_all add: c' prover_input_def policy_text_def m map_of_put)
  then have "has_secret c'" "scoped_nullifier hash c' s = scoped_nullifier hash c s"
    using secret by (simp_all add: has_secret_def scoped_nullifier_def secret_text_def)
  moreover have "prover_input c' ''nullifier'' = Some (InText (toString10 (hash xs)))"
    by (simp add: c' prover_input_def map_of_put xs)
  ultimately show ?thesis using that[of "hash xs"] t xs secret m by (simp add: c')
qed

text \<open>
  A credential scoped to an asset accepts, as does the credential it was made from, exactly the
  proofs of that asset that carry the nullifier the scoping wrote. For such a proof the guard that
  asks about the credential and the one that asks about the proof ask the contract about the same
  nullifier, the one shown to the user.
\<close>

theorem nullifier_readings_agree:
  assumes "credentialForScope hash c (ASSET_SCOPES asset) = Inr c'"
    and "proofScopeMatches (Some b) (ASSET_SCOPES asset)" and "\<forall>xs. 0 \<le> hash xs"
  shows "\<exists>ok. proofMatchesCredential hash (Some b) (Some c) = Inr ok \<and> proofMatchesCredential hash (Some b) (Some c') = Inr ok
    \<and> (ok \<longleftrightarrow> prover_input c' ''nullifier'' = Some (InText (pi_nullifier (pb_publicInputs b))))
    \<and> (ok \<longrightarrow> nullifierHexFromBundle b = Inr (credentialNullifierPreview c')
         \<and> scopeNullifierHex hash c (ASSET_SCOPES asset) = Inr (credentialNullifierPreview c')
         \<and> nullifierHexFromCredential c' = Inr (credentialNullifierPreview c'))"
proof -
  let ?s = "ASSET_SCOPES asset"
  obtain n where n: "scoped_nullifier hash c ?s = Inr (toString10 n)" "n \<in> range hash"
    "prover_input c' ''nullifier'' = Some (InText (toString10 n))"
    "cr_nullifier (ic_credential c') = ''0x'' @ padStart0 64 (toString16 n)"
    "has_secret c" "has_secret c'" "scoped_nullifier hash c' ?s = scoped_nullifier hash c ?s"
    "ic_proverInputs c \<noteq> None" "ic_proverInputs c' \<noteq> None"
    by (rule scoped_credential[OF assms(1)])
  note scope = scopeForProof_known[OF assms(2)]
  have "0 \<le> n" using n(2) assms(3) by auto
  then have "\<not> startsWith ''0x'' (toString10 n)" "BigInt_of (toString10 n) = Inr n"
    using no_prefix_dec[of "CHR ''x''" "''0x''"] by (simp_all add: toString10_def BigInt_of_def)
  moreover have "nullifierHexFromBundle b = Inr (''0x'' @ padStart0 64 (toString16 n))"
    if "pi_nullifier (pb_publicInputs b) = toString10 n"
    using that by (simp add: nullifierHexFromBundle_def)
  moreover have "proofMatchesCredential hash (Some b) (Some c) = Inr (toString10 n = pi_nullifier (pb_publicInputs b))"
    "proofMatchesCredential hash (Some b) (Some c') = Inr (toString10 n = pi_nullifier (pb_publicInputs b))"
    using n scope by (auto simp: proofMatchesCredential_def expectedNullifierForCredential_def)
  moreover have "scopeNullifierHex hash c ?s = Inr (credentialNullifierPreview c')"
    "nullifierHexFromCredential c' = Inr (credentialNullifierPreview c')"
    using n assms(1) calculation(1)
    by (simp_all add: scopeNullifierHex_def nullifierHexFromCredential_def fieldToHex_dec credentialNullifierPreview_def)
  ultimately show ?thesis using n
    by (intro exI[of _ "toString10 n = pi_nullifier (pb_publicInputs b)"])
      (simp add: credentialNullifierPreview_def)
qed

definition demo_hash :: "int list \<Rightarrow> int" where "demo_hash xs = \<bar>sum_list xs\<bar>"

definition demo_credential :: issuerCredential where
  "demo_credential = \<lparr>ic_label = ''Passport'', ic_issuedAt = Some 5, ic_issuerStellarPublicKey = None, ic_issuerEthAddress = None,
     ic_issuerId = 1, ic_walletField = None,
     ic_credential = \<lparr>cr_commitment = [], cr_nullifier = [], cr_root = ''0x1'', cr_revocationRoot = ''0x2'',
       cr_policyId = Some 1, cr_issuerId = 1, cr_pubkeyBytes64 = [], cr_stellarPublicKey = None\<rparr>,
     ic_proverInputs = Some [(''note_secret'', InText ''38'')]\<rparr>"

definition demo_proof :: proofBundle where
  "demo_proof = \<lparr>pb_proofHex = ''aa'', pb_publicInputsHex = ''bb'',
     pb_publicInputs = \<lparr>pi_root = ''1'', pi_revocationRoot = ''2'', pi_policyId = ''1'', pi_assetId = ''2'',
       pi_actionId = ''1'', pi_nullifier = ''42''\<rparr>\<rparr>"

lemma demo_scope: "proofScopeMatches (Some demo_proof) (ASSET_SCOPES UsdcAsset)"
  by (simp add: proofScopeMatches_def demo_proof_def ASSET_SCOPES_def)

lemma demo_nullifier: "scoped_nullifier demo_hash demo_credential (ASSET_SCOPES UsdcAsset) = Inr ''42''"
  by (simp add: scoped_nullifier_def demo_credential_def scopedNullifierDecimal_def secret_text_def policy_text_def
      prover_input_def toBigInt_def demo_hash_def ASSET_SCOPES_def Let_def; code_simp)

lemma demo_matches: "proofMatchesCredential demo_hash (Some demo_proof) (Some demo_credential) = Inr True"
  and demo_scoping: "\<exists>c'. credentialForScope demo_hash demo_credential (ASSET_SCOPES UsdcAsset) = Inr c'
    \<and> prover_input c' ''nullifier'' = Some (InText ''42'')"
proof -
  have "has_secret demo_credential" "ic_proverInputs demo_credential \<noteq> None"
    by (simp_all add: has_secret_def prover_input_def demo_credential_def)
  moreover have "fieldToHex ''42'' = Inr (''0x'' @ padStart0 64 (toString16 42))"
  proof -
    have "toString10 42 = ''42''" by code_simp
    then show ?thesis using fieldToHex_dec[of 42] by simp
  qed
  moreover have "pi_nullifier (pb_publicInputs demo_proof) = ''42''" by (simp add: demo_proof_def)
  ultimately show "proofMatchesCredential demo_hash (Some demo_proof) (Some demo_credential) = Inr True"
    "\<exists>c'. credentialForScope demo_hash demo_credential (ASSET_SCOPES UsdcAsset) = Inr c'
      \<and> prover_input c' ''nullifier'' = Some (InText ''42'')"
    using scopeForProof_known[OF demo_scope] demo_nullifier
    by (auto simp: proofMatchesCredential_def expectedNullifierForCredential_def credentialForScope_def
        prover_input_def map_of_put)
qed

theorem nullifier_readings_agree_witness:
  "\<exists>c'. credentialForScope demo_hash demo_credential (ASSET_SCOPES UsdcAsset) = Inr c'
     \<and> proofMatchesCredential demo_hash (Some demo_proof) (Some c') = Inr True
     \<and> nullifierHexFromBundle demo_proof = Inr (credentialNullifierPreview c')"
proof -
  obtain c' where c': "credentialForScope demo_hash demo_credential (ASSET_SCOPES UsdcAsset) = Inr c'"
    "prover_input c' ''nullifier'' = Some (InText ''42'')" using demo_scoping by blast
  have "\<forall>xs. 0 \<le> demo_hash xs" by (simp add: demo_hash_def)
  from nullifier_readings_agree[OF c'(1) demo_scope this] c' show ?thesis
    by (auto simp: demo_proof_def)
qed

text \<open>
  The product offers to invest exactly when the stored proof belongs to the stored credential and
  an account is there, and then, with a wallet connected, the phase that lets a user settle is
  reached; nothing else reaches it.
\<close>

theorem settle_iff_ready:
  assumes "deriveProofLifecycle hash credential prf = Inr lc"
  shows "\<exists>phase ok. derivePassportPhase hash address credential prf lc = Inr phase
    \<and> proofMatchesCredential hash prf credential = Inr ok
    \<and> (pr_tone (getProductReadiness address settlement credential prf (ls_lifecycle lc) passkeyFirst) = ToneReady
        \<longleftrightarrow> ok \<and> (truthy address \<or> passkeyFirst \<and> truthy settlement))
    \<and> (canSettle phase \<longleftrightarrow> ok \<and> truthy address)"
proof (cases "credential = None \<or> prf = None")
  case True
  then show ?thesis using assms
    by (auto simp: deriveProofLifecycle_def noLifecycle_def derivePassportPhase_def proofMatchesCredential_def
        getProductReadiness_def canSettle_def split: option.splits)
next
  case False
  with assms obtain ok where "proofMatchesCredential hash prf credential = Inr ok"
    and "lc = (if \<not> ok then invalidLifecycle else readyLifecycle)"
    by (auto simp: deriveProofLifecycle_def rmap_Inr_iff)
  with False show ?thesis
    by (auto simp: derivePassportPhase_def getProductReadiness_def canSettle_def invalidLifecycle_def readyLifecycle_def)
qed

theorem settle_iff_ready_witness:
  "\<exists>lc phase. deriveProofLifecycle demo_hash (Some demo_credential) (Some demo_proof) = Inr lc
     \<and> derivePassportPhase demo_hash (Some ''G'') (Some demo_credential) (Some demo_proof) lc = Inr phase \<and> canSettle phase"
proof -
  have "deriveProofLifecycle demo_hash (Some demo_credential) (Some demo_proof) = Inr readyLifecycle"
    by (simp add: deriveProofLifecycle_def demo_matches)
  from settle_iff_ready[OF this, of "Some ''G''" None False] this show ?thesis
    by (auto simp: demo_matches truthy_def)
qed

section \<open>Steps\<close>

lemma stepState_current: "stepState flags i = CurrentStep \<longleftrightarrow> \<not> flags ! i \<and> i = currentIndex flags"
  by (simp add: stepState_def)

lemma currentIndex_first:
  assumes "\<exists>f\<in>set flags. \<not> f"
  shows "currentIndex flags < length flags \<and> \<not> flags ! currentIndex flags \<and> (\<forall>j<currentIndex flags. flags ! j)"
proof -
  let ?k = "length (takeWhile (\<lambda>f. f) flags)"
  have "?k < length flags"
  proof (rule ccontr)
    assume "\<not> ?k < length flags"
    then have "takeWhile (\<lambda>f. f) flags = flags"
      by (metis length_takeWhile_le linorder_not_le order_antisym takeWhile_eq_take take_all_iff)
    with assms show False by (auto simp: takeWhile_eq_all_conv)
  qed
  moreover have "flags ! j" if "j < ?k" for j
    using that nth_mem[of j "takeWhile (\<lambda>f. f) flags"] takeWhile_nth[of j "\<lambda>f. f" flags] set_takeWhileD by metis
  ultimately show ?thesis using nth_length_takeWhile[of "\<lambda>f. f" flags] by (simp add: currentIndex_def)
qed

lemma steps_of_length: "length (steps_of texts flags) = length texts"
  by (simp add: steps_of_def)

lemma steps_of_nth: "i < length texts \<Longrightarrow> ps_state (steps_of texts flags ! i) = stepState flags i"
  by (simp add: steps_of_def nth_enumerate_eq case_prod_unfold)

lemma buildProductSteps_nth:
  assumes "i < 5"
  shows "ps_state (buildProductSteps a s c p l h k ! i) = stepState (productFlags a s c p l h k) i"
  unfolding buildProductSteps_def using assms by (intro steps_of_nth) (simp add: productTexts_def)

lemma buildProductSteps_length: "length (buildProductSteps a s c p l h k) = 5"
  and productFlags_length: "length (productFlags a s c p l h k) = 5"
  by (simp_all add: productFlags_def buildProductSteps_def steps_of_def productTexts_def)

text \<open>
  Of the five steps shown, those whose condition holds are complete, and unless all are, there is
  exactly one step that is current; all steps before it are complete.
\<close>

theorem steps_progress:
  "length (buildProductSteps a s c p l h k) = 5
   \<and> (\<lambda>st. st = Complete) ` ps_state ` set (buildProductSteps a s c p l h k) = set (productFlags a s c p l h k)
   \<and> (set (productFlags a s c p l h k) = {True}
      \<or> (\<exists>!i. i < 5 \<and> ps_state (buildProductSteps a s c p l h k ! i) = CurrentStep
           \<and> set (take i (map ps_state (buildProductSteps a s c p l h k))) \<subseteq> {Complete}))"
proof -
  let ?steps = "buildProductSteps a s c p l h k" and ?flags = "productFlags a s c p l h k"
  have eq: "map ps_state ?steps = map (stepState ?flags) [0..<5]"
    by (rule nth_equalityI) (simp_all add: buildProductSteps_length buildProductSteps_nth)
  have comp: "(\<lambda>st. st = Complete) (stepState ?flags i) = ?flags ! i" for i
    by (simp add: stepState_def)
  have "(\<lambda>st. st = Complete) ` ps_state ` set ?steps = set (map ((\<lambda>st. st = Complete) \<circ> stepState ?flags) [0..<5])"
    by (metis eq list.set_map map_map)
  also have "\<dots> = set ?flags"
    using map_nth[of ?flags] by (simp add: comp comp_def productFlags_length)
  finally have c1: "(\<lambda>st. st = Complete) ` ps_state ` set ?steps = set ?flags" .
  have "set ?flags = {True} \<or> (\<exists>f\<in>set ?flags. \<not> f)"
    using productFlags_length[of a s c p l h k] by (cases ?flags) auto
  moreover have "\<exists>!i. i < 5 \<and> ps_state (?steps ! i) = CurrentStep \<and> set (take i (map ps_state ?steps)) \<subseteq> {Complete}"
    if "\<exists>f\<in>set ?flags. \<not> f"
  proof -
    from currentIndex_first[OF that] have f: "currentIndex ?flags < 5" "\<not> ?flags ! currentIndex ?flags"
      "\<forall>j<currentIndex ?flags. ?flags ! j" by (simp_all add: productFlags_length)
    have "set (take (currentIndex ?flags) (map ps_state ?steps)) \<subseteq> {Complete}"
      using f(1,3) by (auto simp: eq take_map stepState_def)
    with f(1,2) show ?thesis
      by (intro ex1I[of _ "currentIndex ?flags"]) (auto simp: buildProductSteps_nth stepState_current)
  qed
  ultimately show ?thesis using c1 buildProductSteps_length[of a s c p l h k] by blast
qed

end
