(* ===== verification/ContractReads.thy ===== *)
theory ContractReads
  imports Eligibility CtTransactions
begin

text \<open>
  The reads of \<^verbatim>\<open>lib/contracts.ts\<close>: calls that are simulated from an account that does not
  exist, and what is made of their values. \<^verbatim>\<open>new Contract\<close>, \<^verbatim>\<open>scValToNative\<close>, the
  decoding of hexadecimal text and the checks of addresses are members of the surroundings
  \<^verbatim>\<open>chainEnv\<close>, as is the RPC server. Shown: which of them can fail, what stands for a value
  that is missing, and how often the registry is asked.
\<close>

record 'w chainEnv =
  ch_server :: "string \<Rightarrow> string \<Rightarrow> 'w chainServer"
  ch_contract :: "string \<Rightarrow> unit res"
  ch_native :: "scval \<Rightarrow> native res"
  ch_unhex :: "string \<Rightarrow> byte list"
  ch_isAccount :: "string \<Rightarrow> bool"
  ch_isContract :: "string \<Rightarrow> bool"
  ch_deployer :: string

definition server :: "'w chainEnv \<Rightarrow> deploymentConfig \<Rightarrow> 'w chainServer" where
  "server E config = ch_server E (rpcUrl config) (networkPassphrase config)"

definition readOnlyLedgerAccount :: txAccount where
  "readOnlyLedgerAccount = \<lparr>ac_address = NULL_ACCOUNT, ac_sequence = 0\<rparr>"

section \<open>Values\<close>

text \<open>
  \<^verbatim>\<open>Uint8Array.from(v)\<close>: of an iterable its numbers, of an object the indices below its
  length; a text is read one character, not one byte, at a time.
\<close>

fun uint8_from :: "native \<Rightarrow> byte list res" where
  "uint8_from NUndef = Inl (TypeError ''Uint8Array.from'')"
| "uint8_from NNull = Inl (TypeError ''Uint8Array.from'')"
| "uint8_from (NBuf b) = Inr b"
| "uint8_from (NArr vs) = Inr (map (\<lambda>v. to_uint8 (js_Number v)) vs)"
| "uint8_from (NText s) = Inr (map (\<lambda>c. to_uint8 (Number_of [c])) (filter (\<lambda>c. of_char c div (64 :: nat) \<noteq> 2) s))"
| "uint8_from (NObj m) = Inr (case js_Number (member (NObj m) ''length'') of None \<Rightarrow> []
     | Some n \<Rightarrow> map (\<lambda>i. to_uint8 (js_Number (index (NObj m) i))) [0..<nat n])"
| "uint8_from v = Inr []"

definition hex_of :: "native \<Rightarrow> string res" where
  "hex_of v = rmap bytesToHex (uint8_from v)"

definition scBytesFromHex :: "'w chainEnv \<Rightarrow> string \<Rightarrow> scval" where
  "scBytesFromHex E hex = ScBytes (ch_unhex E (strip0x hex))"

definition validateStellarAddress :: "'w chainEnv \<Rightarrow> string \<Rightarrow> bool" where
  "validateStellarAddress E addr = (let trimmed = trim addr in ch_isAccount E trimmed \<or> ch_isContract E trimmed)"

definition isSmartAccountAddress :: "'w chainEnv \<Rightarrow> string \<Rightarrow> bool" where
  "isSmartAccountAddress E address \<longleftrightarrow> startsWith ''C'' address \<and> ch_isContract E address"

definition isMissingStorageValue :: "string \<Rightarrow> bool" where
  "isMissingStorageValue error \<longleftrightarrow> contains error ''MissingValue'' \<or> contains error ''NotConfigured''"

section \<open>Simulated reads\<close>

definition readCall :: "'w chainEnv \<Rightarrow> deploymentConfig \<Rightarrow> string \<Rightarrow> string \<Rightarrow> scval res list \<Rightarrow> ('w, simResponse) io" where
  "readCall E config contract method1 args =
     io_bind (io_res (ch_contract E contract)) (\<lambda>u.
     io_bind (io_res (traverse (\<lambda>a. a) args)) (\<lambda>vals.
       io_call (cs_simulate (server E config) \<lparr>tx_source = readOnlyLedgerAccount, tx_contract = contract,
         tx_method = method1, tx_args = vals, tx_timeout = 30\<rparr>)))"

text \<open>What follows a simulation that did not fail: a value, or the default for none.\<close>

definition retval_or :: "'w chainEnv \<Rightarrow> 'a res \<Rightarrow> (native \<Rightarrow> 'a res) \<Rightarrow> simResponse \<Rightarrow> 'a res" where
  "retval_or E none use sim = (case sim of SimError e \<Rightarrow> Inl (Refused e) | SimSuccess None \<Rightarrow> none
     | SimSuccess (Some val) \<Rightarrow> rbind (ch_native E val) use)"

definition resolveComplianceUsdcSacId :: "'w chainEnv \<Rightarrow> deploymentConfig \<Rightarrow> ('w, string) io" where
  "resolveComplianceUsdcSacId E config =
     (if \<not> truthy (complianceSacAdminId config) then io_return (usdcSacId config)
      else io_bind (readCall E config (the (complianceSacAdminId config)) ''sac_address'' []) (\<lambda>sim.
        case sim of SimError e \<Rightarrow> io_return (usdcSacId config)
        | _ \<Rightarrow> io_res (retval_or E (Inr (usdcSacId config)) (\<lambda>v. Inr (js_String v)) sim)))"

record chainRoots = onChainRoots +
  or_noteRoot :: string

definition roots_of :: "native \<Rightarrow> chainRoots res" where
  "roots_of tuple = rbind (hex_of (index tuple 0)) (\<lambda>root. rbind (hex_of (index tuple 1)) (\<lambda>revocation.
     rmap (\<lambda>note. \<lparr>or_root = ''0x'' @ root, or_revocationRoot = ''0x'' @ revocation, or_noteRoot = ''0x'' @ note\<rparr>)
       (hex_of (or_else (index tuple 2) (NBuf (replicate 32 0))))))"

definition readOnChainRoots :: "'w chainEnv \<Rightarrow> deploymentConfig \<Rightarrow> ('w, chainRoots) io" where
  "readOnChainRoots E config =
     io_bind (readCall E config (credentialRegistryId config) ''get_roots'' []) (\<lambda>sim.
       io_res (retval_or E (Inl (Refused ''No return value from get_roots'')) roots_of sim))"

definition parseSessionProofValue :: "'w chainEnv \<Rightarrow> scval option \<Rightarrow> boundSessionProof option res" where
  "parseSessionProofValue E val = (case val of None \<Rightarrow> Inr None | Some v \<Rightarrow>
     rbind (ch_native E v) (\<lambda>native.
     let (proofBytes, piBytes) = (case native of
           NArr vs \<Rightarrow> (index native 0, index native 1)
         | NObj m \<Rightarrow> (or_else (member native ''proof'') (index native 0),
             or_else (or_else (member native ''public_inputs'') (member native ''publicInputs'')) (index native 1))
         | NBuf b \<Rightarrow> (index native 0, index native 1)
         | _ \<Rightarrow> (NUndef, NUndef)) in
     if \<not> js_truth proofBytes \<or> \<not> js_truth piBytes then Inr None
     else rbind (hex_of proofBytes) (\<lambda>proofHex. rmap (\<lambda>publicInputsHex.
            if length proofHex < 64 \<or> length publicInputsHex < 64 then None
            else Some \<lparr>bs_proofHex = proofHex, bs_publicInputsHex = publicInputsHex\<rparr>) (hex_of piBytes))))"

definition readSessionProofBound :: "'w chainEnv \<Rightarrow> deploymentConfig \<Rightarrow> string \<Rightarrow> ('w, boundSessionProof option) io" where
  "readSessionProofBound E config smartAccountAddress =
     (if \<not> truthy (sessionStoreId config) then io_return None
      else io_catch
        (io_bind (readCall E config (the (sessionStoreId config)) ''get_proof''
            [cs_address (server E config) smartAccountAddress]) (\<lambda>sim.
          case sim of SimError e \<Rightarrow> io_return None
          | SimSuccess val \<Rightarrow> io_res (parseSessionProofValue E val)))
        (\<lambda>e. io_return None))"

definition isSessionProofBoundOnChain :: "'w chainEnv \<Rightarrow> deploymentConfig \<Rightarrow> string \<Rightarrow> proofBundle \<Rightarrow> ('w, bool) io" where
  "isSessionProofBoundOnChain E config smartAccountAddress prf =
     io_bind (readSessionProofBound E config smartAccountAddress) (\<lambda>bound.
       io_return (case bound of None \<Rightarrow> False | Some b \<Rightarrow> sessionProofMatchesBound b prf))"

text \<open>The waits between the attempts change nothing.\<close>

fun credentialRootMatchesChain :: "'w chainEnv \<Rightarrow> deploymentConfig \<Rightarrow> string \<Rightarrow> nat \<Rightarrow> ('w, bool) io" where
  "credentialRootMatchesChain E config credentialRoot 0 = io_return False"
| "credentialRootMatchesChain E config credentialRoot (Suc n) =
     io_bind (readOnChainRoots E config) (\<lambda>onChain.
       if normalizeProofHex (or_root onChain) = normalizeProofHex credentialRoot then io_return True
       else credentialRootMatchesChain E config credentialRoot n)"

definition readBalance :: "'w chainEnv \<Rightarrow> deploymentConfig \<Rightarrow> string \<Rightarrow> ('w, string) io" where
  "readBalance E config holder =
     io_bind (readCall E config (rwaTokenId config) ''balance'' [cs_address (server E config) holder]) (\<lambda>sim.
       io_res (retval_or E (Inl (Refused ''No balance returned'')) (\<lambda>v. Inr (js_String v)) sim))"

definition readIsFrozen :: "'w chainEnv \<Rightarrow> deploymentConfig \<Rightarrow> string \<Rightarrow> ('w, bool) io" where
  "readIsFrozen E config holder =
     io_bind (readCall E config (rwaTokenId config) ''is_frozen'' [cs_address (server E config) holder]) (\<lambda>sim.
       io_res (retval_or E (Inr False) (\<lambda>v. Inr (js_truth v)) sim))"

text \<open>A scope is the texts of its asset and its action.\<close>

definition readNullifierSpent ::
  "'w chainEnv \<Rightarrow> deploymentConfig \<Rightarrow> string \<Rightarrow> int option option \<Rightarrow> (string \<times> string) option \<Rightarrow> ('w, bool) io" where
  "readNullifierSpent E config nullifierHex pol scope =
     io_bind (readCall E config (policyVerifierId config)
         (if scope = None then ''is_nullifier_spent'' else ''is_scoped_nullifier_spent'')
         (u32Val (given pol (policyId config))
          # (case scope of None \<Rightarrow> [] | Some (asset, action) \<Rightarrow> [u32Val (Number_of asset), u32Val (Number_of action)])
          @ [Inr (scBytesFromHex E nullifierHex)])) (\<lambda>sim.
       io_res (retval_or E (Inr False) (\<lambda>v. Inr (js_truth v)) sim))"

definition readSacBalanceRaw :: "'w chainEnv \<Rightarrow> deploymentConfig \<Rightarrow> string \<Rightarrow> string \<Rightarrow> ('w, int) io" where
  "readSacBalanceRaw E config sacId holder =
     io_bind (readCall E config sacId ''balance'' [cs_address (server E config) holder]) (\<lambda>sim.
       case sim of SimError e \<Rightarrow> if isMissingStorageValue e then io_return 0 else io_throw (Refused e)
       | _ \<Rightarrow> io_res (retval_or E (Inr 0) (\<lambda>v. BigInt_of (js_String v)) sim))"

definition readSacBalance :: "'w chainEnv \<Rightarrow> deploymentConfig \<Rightarrow> string \<Rightarrow> string \<Rightarrow> ('w, string) io" where
  "readSacBalance E config sacId holder =
     io_bind (readSacBalanceRaw E config sacId holder) (\<lambda>raw. io_return (formatStellarAmount raw 7))"

definition readUsdcSacBalance :: "'w chainEnv \<Rightarrow> deploymentConfig \<Rightarrow> string \<Rightarrow> ('w, string) io" where
  "readUsdcSacBalance E config holder = readSacBalance E config (usdcSacId config) holder"

definition readEurcSacBalance :: "'w chainEnv \<Rightarrow> deploymentConfig \<Rightarrow> string \<Rightarrow> ('w, string) io" where
  "readEurcSacBalance E config holder =
     (if \<not> truthy (eurcSacId config) then io_throw (Refused ''EURC SAC not configured'')
      else readSacBalance E config (the (eurcSacId config)) holder)"

definition readContractXlmBalance :: "'w chainEnv \<Rightarrow> deploymentConfig \<Rightarrow> string \<Rightarrow> ('w, string) io" where
  "readContractXlmBalance E config contractId =
     (if nativeSacId config = [] then io_return ''0''
      else io_catch (readSacBalance E config (nativeSacId config) contractId) (\<lambda>e. io_return ''0''))"

record adminBalance =
  ab_formatted :: string
  ab_raw :: int
  ab_sacId :: string

definition readComplianceAdminUsdcBalance :: "'w chainEnv \<Rightarrow> deploymentConfig \<Rightarrow> string \<Rightarrow> ('w, adminBalance) io" where
  "readComplianceAdminUsdcBalance E config holder =
     (if \<not> truthy (complianceSacAdminId config) then io_throw (Refused ''ComplianceSacAdmin not configured'')
      else io_bind (readCall E config (the (complianceSacAdminId config)) ''sac_address'' []) (\<lambda>sim.
        io_bind (io_res (retval_or E (Inl (Refused ''ComplianceSacAdmin sac_address unavailable''))
            (\<lambda>v. Inr (js_String v)) sim)) (\<lambda>sacId.
        io_bind (readSacBalanceRaw E config sacId holder) (\<lambda>raw.
          io_return \<lparr>ab_formatted = formatStellarAmount raw 7, ab_raw = raw, ab_sacId = sacId\<rparr>))))"

definition simulateAdapterEligible :: "'w chainEnv \<Rightarrow> deploymentConfig \<Rightarrow> int option \<Rightarrow> proofBundle \<Rightarrow> ('w, bool) io" where
  "simulateAdapterEligible E config pol prf =
     io_bind (readCall E config (rwaAdapterId config) ''is_eligible''
         [u32Val pol, Inr (scBytesFromHex E (pb_proofHex prf)), Inr (scBytesFromHex E (pb_publicInputsHex prf))]) (\<lambda>sim.
       case sim of SimError e \<Rightarrow> io_return False
       | _ \<Rightarrow> io_res (retval_or E (Inr False) (\<lambda>v. Inr (js_truth v)) sim))"

end
