(* ===== verification/ContractCalls.thy ===== *)
theory ContractCalls
  imports ContractReads
begin

text \<open>
  The transactions of \<^verbatim>\<open>lib/contracts.ts\<close>: the guards before them, the builders, the
  submission of a signed transaction and the hints added to the errors of the contracts. Shown: what
  has been read of the chain when a settlement is built and which bytes it carries, that a proof
  that does not fit is refused before the network is asked, and what a failed submission says.
\<close>

section \<open>Guards\<close>

definition nullifier_scope :: "proofBundle \<Rightarrow> (string \<times> string) option" where
  "nullifier_scope prf = Some (pi_assetId (pb_publicInputs prf), pi_actionId (pb_publicInputs prf))"

definition proof_policy :: "proofBundle \<Rightarrow> int option \<Rightarrow> int option" where
  "proof_policy prf pol = (if pi_policyId (pb_publicInputs prf) \<noteq> [] then Number_of (pi_policyId (pb_publicInputs prf)) else pol)"

definition assertPassportNullifierAvailable :: "'w chainEnv \<Rightarrow> deploymentConfig \<Rightarrow> proofBundle \<Rightarrow> ('w, unit) io" where
  "assertPassportNullifierAvailable E config prf =
     io_bind (io_res (nullifierHexFromBundle prf)) (\<lambda>nullifier.
     io_bind (readNullifierSpent E config nullifier (Some (proof_policy prf (policyId config))) (nullifier_scope prf)) (\<lambda>spent.
       if spent then io_throw (Refused ''Error(Contract, #6) NullifierSpent'') else io_return ()))"

definition assertProofScope :: "proofBundle \<Rightarrow> assetScope \<Rightarrow> unit res" where
  "assertProofScope prf scope = (let p = pb_publicInputs prf in
     if pi_assetId p \<noteq> as_assetId scope \<or> pi_actionId p \<noteq> as_actionId scope
     then Inl (Refused (''Eligibility proof is scoped to asset '' @ pi_assetId p @ ''/action '' @ pi_actionId p @ ''; '' @
       ''expected asset '' @ as_assetId scope @ ''/action '' @ as_actionId scope @ ''. Regenerate proof for this settlement.''))
     else Inr ())"

definition assertSufficientSacBalance ::
  "'w chainEnv \<Rightarrow> deploymentConfig \<Rightarrow> string \<Rightarrow> string \<Rightarrow> string \<Rightarrow> string option \<Rightarrow> ('w, unit) io" where
  "assertSufficientSacBalance E config holder amount label sacId =
     io_bind (io_res (parseStellarAmount amount 7)) (\<lambda>amountRaw.
     io_bind (if truthy sacId then readSacBalanceRaw E config (the sacId) holder
              else io_bind (readComplianceAdminUsdcBalance E config holder) (\<lambda>snap. io_return (ab_raw snap))) (\<lambda>balanceRaw.
       if hasSufficientBalance balanceRaw amountRaw then io_return ()
       else io_throw (Refused (''Insufficient '' @ label @ '' for this transfer. Available: '' @
         formatStellarAmount balanceRaw 7 @ '' '' @ label @ ''. '' @
         ''Compliant settlement uses your Soroban token balance '' @ dash @
         '' try a smaller amount or use Treasury units instead.''))))"

definition checkedRecipient :: "'w chainEnv \<Rightarrow> string \<Rightarrow> string \<Rightarrow> string res" where
  "checkedRecipient E who to1 = (let recipient = trim to1 in
     if validateStellarAddress E recipient then Inr recipient
     else Inl (Refused (who @ '' must be a valid Stellar address'')))"

section \<open>Builders\<close>

definition passkeySimulationAccount :: "'w chainEnv \<Rightarrow> deploymentConfig \<Rightarrow> string \<Rightarrow> ('w, txAccount) io" where
  "passkeySimulationAccount E config source = io_call (cs_getAccount (server E config) (ch_deployer E))"

text \<open>The draft of a call with two minutes to live, its simulation and assembly.\<close>

definition buildCall ::
  "'w chainEnv \<Rightarrow> deploymentConfig \<Rightarrow> txAccount \<Rightarrow> string \<Rightarrow> string \<Rightarrow> scval res list \<Rightarrow> ('w, builtTx) io" where
  "buildCall E config acct contract method1 args =
     io_bind (io_res (ch_contract E contract)) (\<lambda>u.
     io_bind (io_res (traverse (\<lambda>a. a) args)) (\<lambda>vals.
       simulateAssembledTx (server E config) \<lparr>tx_source = acct, tx_contract = contract, tx_method = method1,
         tx_args = vals, tx_timeout = 120\<rparr>))"

definition proof_args :: "'w chainEnv \<Rightarrow> proofBundle \<Rightarrow> scval res list" where
  "proof_args E prf = [Inr (scBytesFromHex E (pb_proofHex prf)), Inr (scBytesFromHex E (pb_publicInputsHex prf))]"

definition buildBindSessionProofTransaction ::
  "'w chainEnv \<Rightarrow> deploymentConfig \<Rightarrow> string \<Rightarrow> string \<Rightarrow> proofBundle \<Rightarrow> ('w, builtTx) io" where
  "buildBindSessionProofTransaction E config source smartAccount prf =
     (if \<not> truthy (sessionStoreId config) then io_throw (Refused ''Session store not configured'')
      else if \<not> isSmartAccountAddress E smartAccount
      then io_throw (Refused ''Session proof bind requires a smart account address'')
      else io_bind (io_res (assertProofBundleForChain (ch_unhex E) prf)) (\<lambda>u.
        io_bind (passkeySimulationAccount E config source) (\<lambda>acct.
        buildCall E config acct (the (sessionStoreId config)) ''set_proof''
          (cs_address (server E config) smartAccount # proof_args E prf))))"

definition transfer_args where
  "transfer_args E config from1 recipient amount prf =
     [cs_address (server E config) from1, cs_address (server E config) recipient, amount] @ proof_args E prf"

definition buildUsdcTransferTransaction ::
  "'w chainEnv \<Rightarrow> deploymentConfig \<Rightarrow> string \<Rightarrow> string \<Rightarrow> string \<Rightarrow> string \<Rightarrow> proofBundle \<Rightarrow> assetScope \<Rightarrow> ('w, builtTx) io" where
  "buildUsdcTransferTransaction E config source from1 to1 amount prf scope =
     (if \<not> truthy (complianceSacAdminId config)
      then io_throw (Refused (''USDC compliance admin not deployed. Set VITE_COMPLIANCE_SAC_ADMIN_ID after deploying '' @
        ''compliance_sac_admin.''))
      else io_bind (io_res (checkedRecipient E ''Recipient'' to1)) (\<lambda>recipient.
        io_bind (io_res (assertProofBundleForChain (ch_unhex E) prf)) (\<lambda>u.
        io_bind (io_res (assertProofScope prf scope)) (\<lambda>u.
        io_bind (assertPassportNullifierAvailable E config prf) (\<lambda>u.
        io_bind (io_res (parseStellarAmount amount 7)) (\<lambda>amountRaw.
        io_bind (assertSufficientSacBalance E config from1 amount ''USDC'' None) (\<lambda>u.
        io_bind (passkeySimulationAccount E config source) (\<lambda>acct.
        buildCall E config acct (the (complianceSacAdminId config)) ''transfer_compliant''
          (transfer_args E config from1 recipient (i128Val amountRaw) prf)))))))))"

definition buildEurcTransferTransaction ::
  "'w chainEnv \<Rightarrow> deploymentConfig \<Rightarrow> string \<Rightarrow> string \<Rightarrow> string \<Rightarrow> string \<Rightarrow> proofBundle \<Rightarrow> assetScope \<Rightarrow> ('w, builtTx) io" where
  "buildEurcTransferTransaction E config source from1 to1 amount prf scope =
     (if \<not> truthy (complianceSacAdminId config) then io_throw (Refused ''ComplianceSacAdmin not deployed'')
      else if \<not> truthy (eurcSacId config) then io_throw (Refused ''EURC SAC not configured. Set VITE_EURC_SAC_ID.'')
      else io_bind (io_res (checkedRecipient E ''Recipient'' to1)) (\<lambda>recipient.
        io_bind (io_res (assertProofBundleForChain (ch_unhex E) prf)) (\<lambda>u.
        io_bind (io_res (assertProofScope prf scope)) (\<lambda>u.
        io_bind (assertPassportNullifierAvailable E config prf) (\<lambda>u.
        io_bind (io_res (parseStellarAmount amount 7)) (\<lambda>amountRaw.
        io_bind (assertSufficientSacBalance E config from1 amount ''EURC'' (eurcSacId config)) (\<lambda>u.
        io_bind (passkeySimulationAccount E config source) (\<lambda>acct.
        buildCall E config acct (the (complianceSacAdminId config)) ''transfer_compliant_eurc''
          (transfer_args E config from1 recipient (i128Val amountRaw) prf)))))))))"

definition buildSwapCompliantTransaction ::
  "'w chainEnv \<Rightarrow> deploymentConfig \<Rightarrow> string \<Rightarrow> string \<Rightarrow> string \<Rightarrow> string \<Rightarrow> proofBundle \<Rightarrow> ('w, builtTx) io" where
  "buildSwapCompliantTransaction E config source trader recipient amount prf =
     (if \<not> truthy (compliantDexId config)
      then io_throw (Refused ''CompliantDEX not deployed. Set VITE_COMPLIANT_DEX_ID.'')
      else io_bind (io_res (checkedRecipient E ''Recipient'' recipient)) (\<lambda>to1.
        io_bind (io_res (assertProofBundleForChain (ch_unhex E) prf)) (\<lambda>u.
        io_bind (assertPassportNullifierAvailable E config prf) (\<lambda>u.
        io_bind (io_res (parseStellarAmount amount 7)) (\<lambda>amountRaw.
        io_bind (passkeySimulationAccount E config source) (\<lambda>acct.
        buildCall E config acct (the (compliantDexId config)) ''swap_compliant''
          (transfer_args E config trader to1 (i128Val amountRaw) prf)))))))"

definition buildPayCompliantTransaction ::
  "'w chainEnv \<Rightarrow> deploymentConfig \<Rightarrow> string \<Rightarrow> string \<Rightarrow> string \<Rightarrow> string \<Rightarrow> proofBundle \<Rightarrow> ('w, builtTx) io" where
  "buildPayCompliantTransaction E config source payer employee amount prf =
     (if \<not> truthy (compliantPayrollId config)
      then io_throw (Refused ''CompliantPayroll not deployed. Set VITE_COMPLIANT_PAYROLL_ID.'')
      else io_bind (io_res (checkedRecipient E ''Employee'' employee)) (\<lambda>to1.
        io_bind (io_res (assertProofBundleForChain (ch_unhex E) prf)) (\<lambda>u.
        io_bind (assertPassportNullifierAvailable E config prf) (\<lambda>u.
        io_bind (io_res (parseStellarAmount amount 7)) (\<lambda>amountRaw.
        io_bind (passkeySimulationAccount E config source) (\<lambda>acct.
        buildCall E config acct (the (compliantPayrollId config)) ''pay_compliant''
          (transfer_args E config payer to1 (i128Val amountRaw) prf)))))))"

text \<open>Treasury units are an integer without decimals, and not compared with a balance.\<close>

definition buildTransferTransaction ::
  "'w chainEnv \<Rightarrow> deploymentConfig \<Rightarrow> string \<Rightarrow> string \<Rightarrow> string \<Rightarrow> string \<Rightarrow> proofBundle \<Rightarrow> assetScope \<Rightarrow> ('w, builtTx) io" where
  "buildTransferTransaction E config source from1 to1 amount prf scope =
     io_bind (io_res (checkedRecipient E ''Recipient'' to1)) (\<lambda>recipient.
     io_bind (io_res (assertProofBundleForChain (ch_unhex E) prf)) (\<lambda>u.
     io_bind (io_res (assertProofScope prf scope)) (\<lambda>u.
     io_bind (assertPassportNullifierAvailable E config prf) (\<lambda>u.
     io_bind (passkeySimulationAccount E config source) (\<lambda>acct.
     buildCall E config acct (rwaTokenId config) ''transfer''
       (transfer_args E config from1 recipient (rbind (BigInt_of amount) i128Val) prf))))))"

text \<open>The two transactions a wallet signs itself, as envelopes; their simulation fails with a text of its own.\<close>

definition buildWalletCall ::
  "'w chainEnv \<Rightarrow> deploymentConfig \<Rightarrow> string \<Rightarrow> string \<Rightarrow> string \<Rightarrow> string \<Rightarrow> int option \<Rightarrow> proofBundle \<Rightarrow> ('w, string) io" where
  "buildWalletCall E config source contract method1 failed pol prf =
     io_bind (io_res (assertProofBundleForChain (ch_unhex E) prf)) (\<lambda>u.
     io_bind (io_call (cs_getAccount (server E config) source)) (\<lambda>acct.
     io_bind (io_res (ch_contract E contract)) (\<lambda>u.
     io_bind (io_res (traverse (\<lambda>a. a) (u32Val pol # proof_args E prf))) (\<lambda>vals.
     let draft = \<lparr>tx_source = acct, tx_contract = contract, tx_method = method1, tx_args = vals, tx_timeout = 120\<rparr> in
     io_bind (io_call (cs_simulate (server E config) draft)) (\<lambda>sim. case sim of
       SimError e \<Rightarrow> io_throw (Refused (if e = [] then failed else e))
     | SimSuccess result \<Rightarrow> io_res (cs_assemble (server E config) draft result))))))"

definition buildVerifyTransaction where
  "buildVerifyTransaction E config source pol prf =
     buildWalletCall E config source (policyVerifierId config) ''verify'' ''Verify simulation failed'' pol prf"

definition buildAdapterVerifyTransaction where
  "buildAdapterVerifyTransaction E config source pol prf =
     buildWalletCall E config source (rwaAdapterId config) ''verify_passport'' ''Adapter verify simulation failed'' pol prf"

section \<open>Errors of the contracts\<close>

definition error_hints :: "string \<Rightarrow> (bool \<times> string) list" where
  "error_hints msg = (let has = contains msg; lowered = contains (map lower msg) in
     [(has ''Error(Contract, #3112)'', ''WebAuthn clientDataJSON could not be parsed (JsonParseError).''),
      (has ''Error(Contract, #3114)'', ''WebAuthn challenge does not match auth_digest (ChallengeInvalid).''),
      (has ''Error(Contract, #3117)'',
         ''Passkey user verification (UV) bit was not set (VerifiedBitNotSet). '' @
         ''Complete the biometric or device PIN prompt when signing '' @ dash @ '' do not dismiss it.''),
      (has ''Error(Contract, #3116)'', ''Passkey user presence (UP) bit was not set (PresentBitNotSet).''),
      (has ''Error(Contract, #3002)'' \<or> has ''UnvalidatedContext'',
         ''Passkey context rule does not match this transaction (UnvalidatedContext).''),
      (has ''Error(Contract, #3014)'' \<or> has ''ContextRuleIdsLengthMismatch'',
         ''context_rule_ids length does not match auth contexts (ContextRuleIdsLengthMismatch).''),
      (has ''Error(Contract, #3016)'' \<or> has ''UnauthorizedSigner'',
         ''Signer is not authorized for the selected context rules (UnauthorizedSigner).''),
      (has ''Error(Contract, #3003)'' \<or> has ''ExternalSignatureVerificationFailed'',
         ''External WebAuthn signature verification failed.''),
      (has ''Error(Auth, InvalidAction)'' \<or> has ''__check_auth'',
         ''Smart account __check_auth rejected the authorization entry.''),
      ((has ''Error(Auth, InvalidAction)'' \<or> has ''__check_auth'') \<and> (has ''get_proof'' \<or> has ''add_context_rule''),
         ''Enable the 7-day session only after your passport eligibility is bound on-chain. '' @
         ''On Verify, complete passport confirmation first '' @ dash @
         '' Lumengate binds eligibility, then installs the session rule.''),
      (has ''contract re-entry is not allowed'',
         ''Soroban blocked re-entering the compliance policy during passkey bind. '' @
         ''Create a new passkey smart account after the latest smart-account WASM is deployed.''),
      (has ''Error(Context, InvalidAction)'',
         ''Authorization context was rejected during smart account __check_auth re-simulation.''),
      (has ''non-existent contract function'' \<and> has ''validate'',
         ''Confidential token policy is wired to an outdated PolicyVerifier. Run '' @
         ''scripts/upgrade_usdc_ct_policy.sh on testnet, then redeploy.''),
      (has ''Error(WasmVm, MissingValue)'',
         ''A contract call returned an empty value '' @ dash @
         '' often a missing session proof bind for this asset scope.''),
      (has ''Error(Contract, #6)'' \<or> has ''NullifierSpent'',
         ''This passport slot was already used on-chain. Renew your passport on Verify, confirm '' @
         ''eligibility, authorize with passkey, then retry.''),
      (has ''Error(Contract, #7)'', ''Eligibility scope does not match the selected offering.''),
      (has ''Error(Contract, #5)'' \<and> lowered ''verify'',
         ''On-chain eligibility verification failed during verify_passport.''),
      (has ''Error(Contract, #2)'' \<and> lowered ''verification'', ''On-chain eligibility verification failed.''),
      (has ''Error(Contract, #13)'' \<and> lowered ''trustline'',
         ''Recipient has no trustline for the settlement asset.''),
      (has ''Error(Object, InvalidInput)'', ''AuthPayload map ordering is invalid (Object InvalidInput).''),
      (has ''Error(Contract, #1)'' \<and> lowered ''notconfigured'',
         ''Session proof is not bound on the compliance policy used by this smart account.''),
      (has ''Error(Contract, #2)'' \<and> lowered ''verificationfailed'',
         ''Eligibility verification failed during authorization or settlement.''),
      (has ''No signer found for credential ID'',
         ''Passkey signer metadata is missing for this credential on-chain.''),
      (has ''Invalid contract ID'' \<or> has ''Unsupported address type'',
         ''A configured contract ID is invalid for this network.''),
      (has ''txMalformed'' \<or> lowered ''malformed'', ''Transaction envelope was rejected as malformed.''),
      (has ''Error(Contract, #10)'' \<or> lowered ''balance is not within the allowed range'',
         ''Insufficient Soroban token balance for this transfer amount.'')])"

definition newline :: string where "newline = [CHR 0x0A]"

definition interruptedMessage :: string where
  "interruptedMessage = ''Passkey prompt was interrupted '' @ dash @ '' usually because two prompts overlapped. '' @
     ''Close any open passkey dialogs, wait a moment, then try again.''"

definition formatSorobanUserError :: "string \<Rightarrow> string" where
  "formatSorobanUserError msg =
     (if contains (map lower msg) ''abort signal'' then interruptedMessage
      else let hints = map snd (filter fst (error_hints msg)) in
        if hints = [] then msg else msg @ newline @ newline @ join newline hints)"

section \<open>Submission of a signed transaction\<close>

text \<open>
  An answer of \<^verbatim>\<open>sendTransaction\<close>: the status, the hash, whether the error's result is
  \<^verbatim>\<open>txMalformed\<close>, and what \<^verbatim>\<open>JSON.stringify\<close> makes of the answer.
\<close>

record submitAnswer =
  sr_status :: string
  sr_hash :: string
  sr_malformed :: bool
  sr_json :: "string res"

record 'w submitEnv =
  su_parse :: "string \<Rightarrow> string \<Rightarrow> string res"
  su_send :: "string \<Rightarrow> string \<Rightarrow> 'w \<Rightarrow> submitAnswer res \<times> 'w"
  su_txStatus :: "string \<Rightarrow> string \<Rightarrow> 'w \<Rightarrow> string option httpResponse res \<times> 'w"

definition formatSubmitError :: "submitAnswer \<Rightarrow> string" where
  "formatSubmitError result =
     (if sr_status result = ''ERROR'' \<and> sr_malformed result
      then ''Transaction was rejected as malformed. Refresh the page and retry.''
      else catch (rmap formatSorobanUserError (sr_json result)) ''Transaction submission failed'')"

definition submitSignedTransaction :: "'w submitEnv \<Rightarrow> deploymentConfig \<Rightarrow> string \<Rightarrow> ('w, string) io" where
  "submitSignedTransaction S config signedXdr =
     io_bind (io_res (su_parse S signedXdr (networkPassphrase config))) (\<lambda>tx.
     io_bind (io_call (su_send S (rpcUrl config) tx)) (\<lambda>result.
     if sr_status result = ''ERROR''
     then io_throw (Refused (if sr_malformed result
       then ''Transaction was rejected as malformed. Ensure Soroban simulation ran before signing (refresh and retry).''
       else formatSubmitError result))
     else if sr_status result \<in> {''PENDING'', ''DUPLICATE'', ''TRY_AGAIN_LATER''}
     then io_bind (waitForTransactionStatus (su_txStatus S) (rpcUrl config) (sr_hash result) 45) (\<lambda>u.
       io_return (sr_hash result))
     else io_return (sr_hash result)))"

section \<open>Runs that succeed\<close>

lemma simulateAssembledTx_run [run_iff]:
  "simulateAssembledTx srv draft w = Some (Inr tx, w') \<longleftrightarrow> (\<exists>result built. cs_simulate srv draft w = (Inr (SimSuccess result), w')
     \<and> cs_assemble srv draft result = Inr built \<and> tx = \<lparr>bt_call = draft, bt_built = built, bt_simulation = result\<rparr>)"
proof
  assume "simulateAssembledTx srv draft w = Some (Inr tx, w')"
  then obtain sim w1 where "cs_simulate srv draft w = (Inr sim, w1)"
    and "(case sim of SimError e \<Rightarrow> io_throw (Refused (if e = [] then ''Transaction simulation failed'' else e))
     | SimSuccess result \<Rightarrow> io_bind (io_res (cs_assemble srv draft result)) (\<lambda>built.
         io_return \<lparr>bt_call = draft, bt_built = built, bt_simulation = result\<rparr>)) w1 = Some (Inr tx, w')"
    unfolding simulateAssembledTx_def by (auto simp only: run_iff)
  then show "\<exists>result built. cs_simulate srv draft w = (Inr (SimSuccess result), w')
     \<and> cs_assemble srv draft result = Inr built \<and> tx = \<lparr>bt_call = draft, bt_built = built, bt_simulation = result\<rparr>"
    by (cases sim) (auto simp: run_iff)
qed (auto simp: simulateAssembledTx_def run_iff)

text \<open>What every built settlement has been checked for, and its arguments.\<close>

definition unspent_at where
  "unspent_at E config prf w w1 \<longleftrightarrow> (\<exists>h. nullifierHexFromBundle prf = Inr h
     \<and> readNullifierSpent E config h (Some (proof_policy prf (policyId config))) (nullifier_scope prf) w = Some (Inr False, w1))"

definition settlement_call where
  "settlement_call E config from1 to1 raw prf tx \<longleftrightarrow> validateStellarAddress E to1
     \<and> length (ch_unhex E (strip0x (pb_proofHex prf))) = 14592 \<and> length (ch_unhex E (strip0x (pb_publicInputsHex prf))) = 192
     \<and> (\<exists>a b. cs_address (server E config) from1 = Inr a \<and> cs_address (server E config) (trim to1) = Inr b
          \<and> tx_args (bt_call tx) = [a, b, ScI128 raw, scBytesFromHex E (pb_proofHex prf), scBytesFromHex E (pb_publicInputsHex prf)])"

lemma assertPassportNullifierAvailable_run [run_iff]:
  "assertPassportNullifierAvailable E config prf w = Some (Inr u, w1) \<longleftrightarrow> unspent_at E config prf w w1"
  by (auto simp: assertPassportNullifierAvailable_def unspent_at_def run_iff)

lemma bundle_checked:
  "assertProofBundleForChain unhex prf = Inr u \<longleftrightarrow>
   length (unhex (strip0x (pb_proofHex prf))) = 14592 \<and> length (unhex (strip0x (pb_publicInputsHex prf))) = 192"
  by (auto simp: assertProofBundleForChain_def Let_def ULTRA_HONK_PROOF_BYTES_def PUBLIC_INPUTS_BYTES_def)

lemma recipient_checked:
  "checkedRecipient E who to1 = Inr r \<longleftrightarrow> validateStellarAddress E to1 \<and> r = trim to1"
  by (auto simp: checkedRecipient_def validateStellarAddress_def Let_def)

lemma scope_checked:
  "assertProofScope prf scope = Inr u \<longleftrightarrow> proofScopeMatches (Some prf) scope"
  by (auto simp: assertProofScope_def proofScopeMatches_def Let_def)

lemma i128Val_run: "i128Val x = Inr v \<longleftrightarrow> v = ScI128 x \<and> - (2 ^ 127) \<le> x \<and> x < 2 ^ 127"
  by (auto simp: i128Val_def)

lemma buildCall_run:
  "buildCall E config acct c m args w = Some (Inr tx, w') \<Longrightarrow> traverse (\<lambda>a. a) args = Inr (tx_args (bt_call tx))
     \<and> tx_contract (bt_call tx) = c \<and> tx_method (bt_call tx) = m"
  by (auto simp: buildCall_def run_iff)

lemma settlement_callI:
  assumes "buildCall E config acct c m (transfer_args E config from1 (trim to1) amt prf) w = Some (Inr tx, w')"
    and "assertProofBundleForChain (ch_unhex E) prf = Inr u" and "validateStellarAddress E to1"
    and "\<And>v. amt = Inr v \<Longrightarrow> v = ScI128 raw"
  shows "settlement_call E config from1 to1 raw prf tx"
  using buildCall_run[OF assms(1)] assms(2-)
  by (auto simp: settlement_call_def bundle_checked transfer_args_def proof_args_def rbind_Inr_iff rmap_Inr_iff)

lemma settlement_built:
  assumes "buildCall E config acct c m (transfer_args E config from1 (trim to1) (i128Val raw) prf) w = Some (Inr tx, w')"
    and "assertProofBundleForChain (ch_unhex E) prf = Inr u" and "validateStellarAddress E to1"
  shows "settlement_call E config from1 to1 raw prf tx \<and> raw < 2 ^ 127 \<and> tx_contract (bt_call tx) = c \<and> tx_method (bt_call tx) = m"
proof -
  from buildCall_run[OF assms(1)] obtain v where "i128Val raw = Inr v"
    by (auto simp: transfer_args_def rbind_Inr_iff rmap_Inr_iff)
  then have "raw < 2 ^ 127" by (simp add: i128Val_run)
  with settlement_callI[OF assms, of raw] buildCall_run[OF assms(1)] show ?thesis by (auto simp: i128Val_run)
qed

section \<open>Properties\<close>

text \<open>
  C8: A USDC or EURC settlement is built only for a valid recipient and a proof of the right size and
  scope, after the contract has answered that the proof's nullifier is unspent and that the sender
  has at least the amount, which is positive; the transaction calls the compliance administrator
  with that amount, the recipient and the bytes of the proof.
\<close>

theorem settlement_checked:
  assumes "(if eurc then buildEurcTransferTransaction E config source from1 to1 amount prf scope w
     else buildUsdcTransferTransaction E config source from1 to1 amount prf scope w) = Some (Inr tx, w')"
  shows "\<exists>raw held w1 w2. settlement_call E config from1 to1 raw prf tx \<and> proofScopeMatches (Some prf) scope
    \<and> unspent_at E config prf w w1
    \<and> (if eurc then readSacBalanceRaw E config (the (eurcSacId config)) from1 w1 = Some (Inr held, w2)
       else \<exists>b. readComplianceAdminUsdcBalance E config from1 w1 = Some (Inr b, w2) \<and> held = ab_raw b)
    \<and> parseStellarAmount amount 7 = Inr raw \<and> 0 < raw \<and> raw \<le> held \<and> raw < 2 ^ 127
    \<and> tx_contract (bt_call tx) = the (complianceSacAdminId config)
    \<and> tx_method (bt_call tx) = (if eurc then ''transfer_compliant_eurc'' else ''transfer_compliant'')"
proof (cases eurc)
  case True
  with assms obtain raw acct held w1 w2 w3 where run: "validateStellarAddress E to1" "proofScopeMatches (Some prf) scope"
    "assertProofBundleForChain (ch_unhex E) prf = Inr ()" "unspent_at E config prf w w1"
    "parseStellarAmount amount 7 = Inr raw" "0 < raw" "raw \<le> held"
    "readSacBalanceRaw E config (the (eurcSacId config)) from1 w1 = Some (Inr held, w2)"
    "buildCall E config acct (the (complianceSacAdminId config)) ''transfer_compliant_eurc''
       (transfer_args E config from1 (trim to1) (i128Val raw) prf) w3 = Some (Inr tx, w')"
    by (auto simp: buildEurcTransferTransaction_def assertSufficientSacBalance_def run_iff
        recipient_checked scope_checked hasSufficientBalance_def split: if_splits)
  from settlement_built[OF run(9,3,1)] run True show ?thesis
    by (intro exI[of _ raw] exI[of _ held] exI[of _ w1] exI[of _ w2]) simp
next
  case False
  with assms obtain raw acct b w1 w2 w3 where run: "validateStellarAddress E to1" "proofScopeMatches (Some prf) scope"
    "assertProofBundleForChain (ch_unhex E) prf = Inr ()" "unspent_at E config prf w w1"
    "parseStellarAmount amount 7 = Inr raw" "0 < raw" "raw \<le> ab_raw b"
    "readComplianceAdminUsdcBalance E config from1 w1 = Some (Inr b, w2)"
    "buildCall E config acct (the (complianceSacAdminId config)) ''transfer_compliant''
       (transfer_args E config from1 (trim to1) (i128Val raw) prf) w3 = Some (Inr tx, w')"
    by (auto simp: buildUsdcTransferTransaction_def assertSufficientSacBalance_def run_iff truthy_def
        recipient_checked scope_checked hasSufficientBalance_def split: if_splits)
  from settlement_built[OF run(9,3,1)] run False show ?thesis
    by (intro exI[of _ raw] exI[of _ "ab_raw b"] exI[of _ w1] exI[of _ w2]) auto
qed

definition demo_simulate :: "callTx \<Rightarrow> simResponse" where
  "demo_simulate tx =
     (if tx_method tx = ''sac_address'' then SimSuccess (Some (ScString ''S''))
      else if tx_method tx = ''balance'' then SimSuccess (Some (ScI128 50000000))
      else if tx_method tx = ''is_scoped_nullifier_spent'' then SimSuccess (Some (ScBool False))
      else if tx_method tx = ''get_roots'' then SimSuccess (Some (ScVec [ScBytes [1], ScBytes [2]]))
      else SimSuccess None)"

definition demo_chainServer :: "unit chainServer" where
  "demo_chainServer = \<lparr>cs_rpc = undefined, cs_getAccount = (\<lambda>a w. (Inr \<lparr>ac_address = a, ac_sequence = 7\<rparr>, w)),
     cs_simulate = (\<lambda>tx w. (Inr (demo_simulate tx), w)), cs_assemble = (\<lambda>tx v. Inr (tx_method tx)),
     cs_send = (\<lambda>s w. (Inl (Foreign s), w)), cs_getTransaction = (\<lambda>h w. (Inr TxNotFound, w)),
     cs_latestLedger = (\<lambda>w. (Inr 1, w)), cs_address = (\<lambda>a. Inr (ScAddress a))\<rparr>"

fun demo_native :: "scval \<Rightarrow> native res" where
  "demo_native (ScString s) = Inr (NText s)"
| "demo_native (ScI128 n) = Inr (NNum n)"
| "demo_native (ScBool b) = Inr (NBool b)"
| "demo_native (ScVec [ScBytes a, ScBytes b]) = Inr (NArr [NBuf a, NBuf b])"
| "demo_native v = Inr NNull"

definition demo_chain :: "unit chainEnv" where
  "demo_chain = \<lparr>ch_server = (\<lambda>u p. demo_chainServer), ch_contract = (\<lambda>c. Inr ()), ch_native = demo_native,
     ch_unhex = (\<lambda>h. if h = ''aa'' then replicate 14592 1 else if h = ''bb'' then replicate 192 2 else []),
     ch_isAccount = (\<lambda>a. a = ''G''), ch_isContract = (\<lambda>a. a = ''C''), ch_deployer = ''D''\<rparr>"

lemma demo_chain_sel [simp]:
  "server demo_chain config = demo_chainServer" "ch_contract demo_chain c = Inr ()" "ch_native demo_chain = demo_native"
  "ch_isAccount demo_chain a \<longleftrightarrow> a = ''G''" "ch_deployer demo_chain = ''D''"
  "cs_getAccount demo_chainServer a w = (Inr \<lparr>ac_address = a, ac_sequence = 7\<rparr>, w)"
  "cs_simulate demo_chainServer tx w = (Inr (demo_simulate tx), w)" "cs_assemble demo_chainServer tx v = Inr (tx_method tx)"
  "cs_address demo_chainServer a = Inr (ScAddress a)"
  by (simp_all add: server_def demo_chain_def demo_chainServer_def)

definition demo_deployment :: deploymentConfig where
  "demo_deployment = ct_config\<lparr>complianceSacAdminId := Some ''A''\<rparr>"

lemma demo_runs:
  "unspent_at demo_chain demo_deployment demo_proof () ()"
  "readComplianceAdminUsdcBalance demo_chain demo_deployment holder () = Some (Inr \<lparr>ab_formatted = ''5'', ab_raw = 50000000, ab_sacId = ''S''\<rparr>, ())"
proof -
  have "Number_of ''1'' = Some 1" "Number_of ''2'' = Some 2" "BigInt_of ''42'' = Inr 42" by code_simp+
  then show "unspent_at demo_chain demo_deployment demo_proof () ()"
    by (simp add: unspent_at_def readNullifierSpent_def nullifier_scope_def demo_proof_def readCall_def io_simps
        proof_policy_def demo_simulate_def retval_or_def u32Val_def nullifierHexFromBundle_def)
  have "formatStellarAmount 50000000 7 = ''5''" by code_simp
  then show "readComplianceAdminUsdcBalance demo_chain demo_deployment holder () = Some (Inr \<lparr>ab_formatted = ''5'', ab_raw = 50000000, ab_sacId = ''S''\<rparr>, ())"
    by (simp add: readComplianceAdminUsdcBalance_def demo_deployment_def readCall_def io_simps truthy_def
        demo_simulate_def retval_or_def readSacBalanceRaw_def BigInt_of_def)
qed

theorem settlement_checked_witness:
  "\<exists>tx. buildUsdcTransferTransaction demo_chain demo_deployment [] ''C'' '' G '' ''2.5'' demo_proof (ASSET_SCOPES UsdcAsset) ()
       = Some (Inr tx, ())
     \<and> settlement_call demo_chain demo_deployment ''C'' '' G '' 25000000 demo_proof tx"
proof -
  have "decimal ''2'' = 2" "decimal ''5'' = 5" "list_all is_digit ''2''" "list_all is_digit ''5''" by code_simp+
  with parse_decimal_text[of "''2''" "''5''" 7] have amount: "parseStellarAmount ''2.5'' 7 = Inr 25000000"
    by (simp add: decimal_text_def)
  have recipient: "trim '' G '' = ''G''" by code_simp
  have admin: "complianceSacAdminId demo_deployment = Some ''A''" by (simp add: demo_deployment_def)
  have sized: "assertProofBundleForChain (ch_unhex demo_chain) demo_proof = Inr ()"
    by (simp add: bundle_checked demo_chain_def demo_proof_def strip0x_def startsWith_def)
  have valid: "checkedRecipient demo_chain ''Recipient'' '' G '' = Inr ''G''"
    by (simp add: recipient_checked validateStellarAddress_def recipient)
  have null: "assertPassportNullifierAvailable demo_chain demo_deployment demo_proof () = Some (Inr (), ())"
    using demo_runs(1) by (simp add: run_iff)
  have bal: "assertSufficientSacBalance demo_chain demo_deployment ''C'' ''2.5'' ''USDC'' None () = Some (Inr (), ())"
    by (simp add: assertSufficientSacBalance_def io_simps amount demo_runs truthy_def hasSufficientBalance_def)
  have scoped: "assertProofScope demo_proof (ASSET_SCOPES UsdcAsset) = Inr ()"
    by (simp add: scope_checked demo_scope)
  let ?call = "buildCall demo_chain demo_deployment \<lparr>ac_address = ''D'', ac_sequence = 7\<rparr> ''A'' ''transfer_compliant''
    (transfer_args demo_chain demo_deployment ''C'' ''G'' (i128Val 25000000) demo_proof)"
  have "buildUsdcTransferTransaction demo_chain demo_deployment [] ''C'' '' G '' ''2.5'' demo_proof
      (ASSET_SCOPES UsdcAsset) () = ?call ()"
    by (simp add: buildUsdcTransferTransaction_def io_bind_apply io_res_apply io_call_apply admin truthy_def sized valid
        null bal amount scoped ContractCalls.passkeySimulationAccount_def)
  moreover have "\<exists>tx. ?call () = Some (Inr tx, ())"
    by (simp add: buildCall_def transfer_args_def proof_args_def i128Val_def io_simps simulateAssembledTx_def demo_simulate_def)
  ultimately have "\<exists>tx. buildUsdcTransferTransaction demo_chain demo_deployment [] ''C'' '' G '' ''2.5'' demo_proof
      (ASSET_SCOPES UsdcAsset) () = Some (Inr tx, ())" by simp
  then obtain tx where run: "buildUsdcTransferTransaction demo_chain demo_deployment [] ''C'' '' G '' ''2.5'' demo_proof
      (ASSET_SCOPES UsdcAsset) () = Some (Inr tx, ())" by blast
  from settlement_checked[of False, unfolded if_False, OF run] run amount show ?thesis by auto
qed

text \<open>An exception that leaves the world as it was.\<close>

definition refused_offline :: "('w, 'a) io \<Rightarrow> bool" where
  "refused_offline m \<longleftrightarrow> (\<forall>w. \<exists>e. m w = Some (Inl e, w))"

lemma refused_throw [simp]: "refused_offline (io_throw e)"
  by (simp add: refused_offline_def io_simps)

lemma refused_res: "refused_offline (io_bind (io_res r) f) \<longleftrightarrow> (\<forall>a. r = Inr a \<longrightarrow> refused_offline (f a))"
  by (cases r) (auto simp: refused_offline_def io_simps)

lemma refused_if [simp]: "refused_offline (if b then m else k) \<longleftrightarrow> (if b then refused_offline m else refused_offline k)"
  by simp

text \<open>
  A recipient that is not an address, a proof of another size and, where a scope is asked for, one
  of another scope are refused by the builders before the network is asked anything: each throws
  and leaves the world as it was.
\<close>

theorem unfit_refused_offline:
  assumes "\<not> validateStellarAddress E to1 \<or> assertProofBundleForChain (ch_unhex E) prf \<noteq> Inr ()
     \<or> \<not> proofScopeMatches (Some prf) scope"
  shows "refused_offline (buildUsdcTransferTransaction E config source from1 to1 amount prf scope)
    \<and> refused_offline (buildEurcTransferTransaction E config source from1 to1 amount prf scope)
    \<and> refused_offline (buildTransferTransaction E config source from1 to1 amount prf scope)
    \<and> (proofScopeMatches (Some prf) scope \<longrightarrow>
         refused_offline (buildSwapCompliantTransaction E config source from1 to1 amount prf)
         \<and> refused_offline (buildPayCompliantTransaction E config source from1 to1 amount prf))"
  using assms by (auto simp: buildUsdcTransferTransaction_def buildEurcTransferTransaction_def buildTransferTransaction_def
      buildSwapCompliantTransaction_def buildPayCompliantTransaction_def refused_res recipient_checked scope_checked
      simp del: One_nat_def)

theorem unfit_refused_offline_witness:
  "refused_offline (buildTransferTransaction demo_chain demo_deployment [] ''C'' ''G'' ''1'' demo_proof (ASSET_SCOPES RwaAsset))"
  using unfit_refused_offline[of demo_chain "''G''" demo_proof "ASSET_SCOPES RwaAsset" demo_deployment "[]" "''C''" "''1''"]
  by (simp add: proofScopeMatches_def demo_proof_def ASSET_SCOPES_def)

text \<open>
  The text shown for an error of a contract begins with the error's own text, and is that text
  alone when none of the hints applies; only a text that mentions an abort signal is replaced, by one
  that does not mention it.
\<close>

theorem error_text_kept:
  "if contains (map lower msg) ''abort signal'' then \<not> contains (map lower (formatSorobanUserError msg)) ''abort signal''
   else take (length msg) (formatSorobanUserError msg) = msg
     \<and> (formatSorobanUserError msg = msg \<longleftrightarrow> filter fst (error_hints msg) = [])"
proof (cases "contains (map lower msg) ''abort signal''")
  case True
  have "\<not> contains (map lower interruptedMessage) ''abort signal''" by code_simp
  with True show ?thesis by (simp add: formatSorobanUserError_def)
next
  case False
  then show ?thesis by (simp add: formatSorobanUserError_def Let_def newline_def)
qed

end
