(* ===== verification/LifeCycle.thy ===== *)
theory LifeCycle
  imports ContractCalls
begin

text \<open>
  The life of a passport against the chain: \<^verbatim>\<open>lib/proofLifecycle.ts\<close>,
  \<^verbatim>\<open>lib/scopeNullifier.ts\<close>, \<^verbatim>\<open>lib/registrySync.ts\<close>, \<^verbatim>\<open>lib/passport.ts\<close> and
  \<^verbatim>\<open>lib/passportScopeStatus.ts\<close>. Messages of progress and waits have no counterpart. Shown: how
  the state read from the chain refines the one derived offline, that the two guards against replay
  agree, and what the registry's synchronisation promises.
\<close>

section \<open>Proofs against the chain\<close>

definition consumedLifecycle :: "string option \<Rightarrow> lifecycleState" where
  "consumedLifecycle tx = \<lparr>ls_lifecycle = LcConsumed, ls_consumedTxHash = tx,
     ls_reason = Some (''This asset/action eligibility was already used on-chain. Renew your passport on Verify, '' @
       ''then confirm and authorize again.'')\<rparr>"

definition settledLifecycle :: "string option \<Rightarrow> lifecycleState" where
  "settledLifecycle tx = \<lparr>ls_lifecycle = LcNone, ls_consumedTxHash = tx,
     ls_reason = (if truthy tx then Some ''Settlement completed. Generate a new asset-scoped proof for the next action.'' else None)\<rparr>"

text \<open>\<^verbatim>\<open>Number(proof.publicInputs.policyId || credential.credential.policyId || 1)\<close>.\<close>

definition lifecycle_policy :: "issuerCredential \<Rightarrow> proofBundle \<Rightarrow> int option" where
  "lifecycle_policy credential prf = proof_policy prf
     (case cr_policyId (ic_credential credential) of None \<Rightarrow> Some 1 | Some n \<Rightarrow> Some (if n = 0 then 1 else n))"

definition lifecycleSpent :: "'w chainEnv \<Rightarrow> deploymentConfig \<Rightarrow> issuerCredential \<Rightarrow> proofBundle \<Rightarrow> ('w, bool) io" where
  "lifecycleSpent E config credential prf =
     io_bind (io_res (nullifierHexFromBundle prf)) (\<lambda>nullifier.
       readNullifierSpent E config nullifier (Some (lifecycle_policy credential prf)) (nullifier_scope prf))"

definition syncProofLifecycleOnChain ::
  "'w chainEnv \<Rightarrow> (int list \<Rightarrow> int) \<Rightarrow> deploymentConfig \<Rightarrow> issuerCredential option \<Rightarrow> proofBundle option \<Rightarrow> string option
    \<Rightarrow> ('w, lifecycleState) io" where
  "syncProofLifecycleOnChain E hash config credential prf settlementTxHash = (case credential of
     None \<Rightarrow> io_return noLifecycle
   | Some c \<Rightarrow> (case prf of None \<Rightarrow> io_return (settledLifecycle settlementTxHash)
     | Some p \<Rightarrow>
       io_bind (io_catch (io_bind (lifecycleSpent E config c p) (\<lambda>spent. io_return (Some spent))) (\<lambda>e. io_return None)) (\<lambda>answer.
       io_bind (io_res (proofMatchesCredential hash prf credential)) (\<lambda>ok.
         io_return (if answer = None \<and> ok then readyLifecycle
           else if ok then (if answer = Some True then consumedLifecycle settlementTxHash else readyLifecycle)
           else invalidLifecycle)))))"

section \<open>Scopes against the chain\<close>

fun input_Number :: "inputVal \<Rightarrow> int option" where
  "input_Number (InText s) = Number_of s"
| "input_Number (InBool b) = Some (if b then 1 else 0)"
| "input_Number v = Number_of (input_String v)"

definition scoped_policy :: "deploymentConfig \<Rightarrow> issuerCredential \<Rightarrow> int option" where
  "scoped_policy config scoped = (case prover_input scoped ''policy_id'' of Some v \<Rightarrow> input_Number v
     | None \<Rightarrow> (case cr_policyId (ic_credential scoped) of Some n \<Rightarrow> Some n | None \<Rightarrow> policyId config))"

definition isScopeNullifierSpent ::
  "'w chainEnv \<Rightarrow> (int list \<Rightarrow> int) \<Rightarrow> deploymentConfig \<Rightarrow> issuerCredential \<Rightarrow> assetScope \<Rightarrow> ('w, bool) io" where
  "isScopeNullifierSpent E hash config credential scope =
     io_bind (io_res (credentialForScope hash credential scope)) (\<lambda>scoped.
     io_bind (io_res (scopeNullifierHex hash credential scope)) (\<lambda>nullifier.
       readNullifierSpent E config nullifier (Some (scoped_policy config scoped)) (Some (as_assetId scope, as_actionId scope))))"

definition assertScopeNullifierAvailable ::
  "'w chainEnv \<Rightarrow> (int list \<Rightarrow> int) \<Rightarrow> deploymentConfig \<Rightarrow> issuerCredential \<Rightarrow> settlementAsset \<Rightarrow> ('w, unit) io" where
  "assertScopeNullifierAvailable E hash config credential asset =
     io_bind (isScopeNullifierSpent E hash config credential (ASSET_SCOPES asset)) (\<lambda>spent.
       if spent then io_throw (Refused (scopeNullifierSpentMessage asset)) else io_return ())"

datatype scopeStatus = ScopeNone | ScopeReady | ScopeUsed | RenewalRequired

record scopeRow =
  sw_asset :: settlementAsset
  sw_label :: string
  sw_status :: scopeStatus
  sw_badge :: string
  sw_detail :: string

definition SCOPE_ORDER :: "settlementAsset list" where "SCOPE_ORDER = [RwaAsset, UsdcAsset, EurcAsset]"

fun scopeStatusBadge :: "scopeStatus \<Rightarrow> string" where
  "scopeStatusBadge ScopeReady = ''Ready''"
| "scopeStatusBadge ScopeUsed = ''Renewal required''"
| "scopeStatusBadge RenewalRequired = ''Renewal required''"
| "scopeStatusBadge ScopeNone = ''Not set up''"

definition scopeStatusDetail :: "scopeStatus \<Rightarrow> string \<Rightarrow> string" where
  "scopeStatusDetail status label = (case status of
     ScopeReady \<Rightarrow> label @ '' eligibility is active for your next private settlement.''
   | ScopeNone \<Rightarrow> ''Request your passport to unlock '' @ label @ '' settlements.''
   | _ \<Rightarrow> label @ '' was used in a prior settlement. Renew this scope only '' @ dash @ '' other assets stay ready.'')"

definition scope_row :: "settlementAsset \<Rightarrow> scopeStatus \<Rightarrow> scopeRow" where
  "scope_row asset status = \<lparr>sw_asset = asset, sw_label = friendlyAssetName asset, sw_status = status,
     sw_badge = scopeStatusBadge status, sw_detail = scopeStatusDetail status (friendlyAssetName asset)\<rparr>"

text \<open>The rows, in the order of the scopes; the requests of \<^verbatim>\<open>Promise.all\<close> are made one after the other.\<close>

fun io_each :: "('a \<Rightarrow> ('w, 'b) io) \<Rightarrow> 'a list \<Rightarrow> ('w, 'b list) io" where
  "io_each f [] = io_return []"
| "io_each f (x # xs) = io_bind (f x) (\<lambda>y. io_bind (io_each f xs) (\<lambda>ys. io_return (y # ys)))"

definition fetchPassportScopeRows ::
  "'w chainEnv \<Rightarrow> (int list \<Rightarrow> int) \<Rightarrow> deploymentConfig \<Rightarrow> issuerCredential option \<Rightarrow> proofBundle option \<Rightarrow> ('w, scopeRow list) io" where
  "fetchPassportScopeRows E hash config credential prf = (case credential of
     None \<Rightarrow> io_return (map (\<lambda>asset. scope_row asset ScopeNone) SCOPE_ORDER)
   | Some c \<Rightarrow> io_each (\<lambda>asset.
       io_bind (io_catch (isScopeNullifierSpent E hash config c (ASSET_SCOPES asset)) (\<lambda>e. io_return False)) (\<lambda>spent.
         io_return (scope_row asset (if spent then RenewalRequired else ScopeReady)))) SCOPE_ORDER)"

definition assetLabelFromProofInputs :: "string option \<Rightarrow> string" where
  "assetLabelFromProofInputs assetId =
     (if assetId = Some (as_assetId (ASSET_SCOPES UsdcAsset)) then ''USDC''
      else if assetId = Some (as_assetId (ASSET_SCOPES EurcAsset)) then ''EURC'' else ''Treasury units'')"

text \<open>The label of a receipt, from its amount and its asset.\<close>

definition receiptDisplayAssetLabel :: "string option \<Rightarrow> string option \<Rightarrow> string" where
  "receiptDisplayAssetLabel amount0 label = (let amount = map lower (given amount0 []) in
     if contains amount ''usdc'' then ''USDC'' else if contains amount ''eurc'' then ''EURC''
     else if truthy label \<and> label \<noteq> Some ''RWA'' then the label
     else if contains amount ''unit'' then ''Treasury units''
     else given label ''Treasury units'')"

definition offeringSettlementAsset :: "string \<Rightarrow> settlementAsset" where
  "offeringSettlementAsset settlementAsset1 =
     (if settlementAsset1 = ''usdc'' then UsdcAsset else if settlementAsset1 = ''eurc'' then EurcAsset else RwaAsset)"

section \<open>The registry\<close>

definition rootHexFromCredential :: "issuerCredential \<Rightarrow> string res" where
  "rootHexFromCredential c = (let raw = cr_root (ic_credential c) in
     if startsWith ''0x'' raw then Inr raw else rmap (\<lambda>x. ''0x'' @ padStart0 64 (toString16 x)) (BigInt_of raw))"

definition chainMatchesProofWithConfig :: "'w chainEnv \<Rightarrow> deploymentConfig \<Rightarrow> proofBundle \<Rightarrow> ('w, bool) io" where
  "chainMatchesProofWithConfig E config prf =
     io_catch (io_bind (readOnChainRoots E config) (\<lambda>onChain.
       io_res (verifyPublicInputsMatchRoots prf (or_root onChain) (or_revocationRoot onChain)))) (\<lambda>e. io_return False)"

definition existingProofMatches ::
  "'w chainEnv \<Rightarrow> (int list \<Rightarrow> int) \<Rightarrow> deploymentConfig \<Rightarrow> issuerCredential \<Rightarrow> proofBundle option \<Rightarrow> ('w, bool) io" where
  "existingProofMatches E hash config credential existing = (case existing of None \<Rightarrow> io_return False
     | Some p \<Rightarrow> io_bind (io_res (proofMatchesCredential hash existing (Some credential))) (\<lambda>ok.
         if ok then chainMatchesProofWithConfig E config p else io_return False))"

fun rootsLoop ::
  "'w chainEnv \<Rightarrow> (int list \<Rightarrow> int) \<Rightarrow> deploymentConfig \<Rightarrow> string \<Rightarrow> issuerCredential \<Rightarrow> proofBundle option \<Rightarrow> nat \<Rightarrow> ('w, bool) io" where
  "rootsLoop E hash config root credential existing 0 = io_return False"
| "rootsLoop E hash config root credential existing (Suc n) =
     io_bind (credentialRootMatchesChain E config root 1) (\<lambda>same.
     if same then io_return True
     else io_bind (existingProofMatches E hash config credential existing) (\<lambda>ok.
       if ok then io_return True else rootsLoop E hash config root credential existing n))"

definition waitForCredentialRootsReady ::
  "'w chainEnv \<Rightarrow> (int list \<Rightarrow> int) \<Rightarrow> deploymentConfig \<Rightarrow> issuerCredential \<Rightarrow> proofBundle option \<Rightarrow> ('w, bool) io" where
  "waitForCredentialRootsReady E hash config credential existing =
     io_bind (io_res (rootHexFromCredential credential)) (\<lambda>root.
     io_bind (credentialRootMatchesChain E config root 2) (\<lambda>same.
     if same then io_return True
     else io_bind (existingProofMatches E hash config credential existing) (\<lambda>ok.
       if ok then io_return True else rootsLoop E hash config root credential existing 12)))"

record registrySyncResult =
  rs_root :: "string option"
  rs_synced :: bool

definition text_member :: "json \<Rightarrow> string \<Rightarrow> string option" where
  "text_member j k = (case j of JObj m \<Rightarrow> (case map_of m k of Some (JStr s) \<Rightarrow> Some s | _ \<Rightarrow> None) | _ \<Rightarrow> None)"

definition bool_member :: "json \<Rightarrow> string \<Rightarrow> bool" where
  "bool_member j k = (case j of JObj m \<Rightarrow> map_of m k = Some (JBool True) | _ \<Rightarrow> False)"

definition of_answer :: "(json \<Rightarrow> 'a) \<Rightarrow> json \<Rightarrow> 'a res" where
  "of_answer f j = (if j = JNull then Inl (TypeError ''Cannot read properties of null'') else Inr (f j))"

definition ensureRegistryRootForWallet :: "'w webFetch \<Rightarrow> string \<Rightarrow> string \<Rightarrow> string \<Rightarrow> ('w, registrySyncResult) io" where
  "ensureRegistryRootForWallet fetch baseUrl walletField policyKey1 =
     io_catch (io_bind (fetchRegistrySyncRoot fetch baseUrl walletField (Some policyKey1)) (\<lambda>j.
         io_res (of_answer (\<lambda>j. \<lparr>rs_root = text_member j ''root'', rs_synced = bool_member j ''synced''\<rparr>) j)))
       (\<lambda>e. if \<not> contains (message e) ''sync-root failed (404)'' then io_throw e
         else io_bind (fetchIssuerRoots fetch baseUrl (Some walletField) (Some policyKey1) True) (\<lambda>j.
           io_res (of_answer (\<lambda>j. \<lparr>rs_root = text_member j ''root'', rs_synced = True\<rparr>) j)))"

definition syncRoot ::
  "'w webFetch \<Rightarrow> string \<Rightarrow> string option \<Rightarrow> string \<Rightarrow> issuerCredential \<Rightarrow> ('w, issuerCredential) io" where
  "syncRoot fetch baseUrl walletField policyKey1 active =
     (if \<not> truthy walletField then io_return active
      else io_bind (io_catch (io_bind (ensureRegistryRootForWallet fetch baseUrl (the walletField) policyKey1)
          (\<lambda>r. io_return (rs_root r))) (\<lambda>e. io_return None)) (\<lambda>root.
        io_return (if truthy root then active\<lparr>ic_credential := (ic_credential active)\<lparr>cr_root := the root\<rparr>\<rparr> else active)))"

fun rootsRounds where
  "rootsRounds E fetch hash config walletField policyKey1 baseUrl existing active 0 = io_return (False, active)"
| "rootsRounds E fetch hash config walletField policyKey1 baseUrl existing active (Suc n) =
     io_bind (syncRoot fetch baseUrl walletField policyKey1 active) (\<lambda>synced.
     io_bind (waitForCredentialRootsReady E hash config synced existing) (\<lambda>ready.
     if ready then io_return (True, synced)
     else rootsRounds E fetch hash config walletField policyKey1 baseUrl existing synced n))"

definition ensureCredentialRootsReady ::
  "'w chainEnv \<Rightarrow> 'w webFetch \<Rightarrow> (int list \<Rightarrow> int) \<Rightarrow> deploymentConfig \<Rightarrow> issuerCredential \<Rightarrow> string option \<Rightarrow> string \<Rightarrow> string
    \<Rightarrow> proofBundle option \<Rightarrow> ('w, bool \<times> issuerCredential) io" where
  "ensureCredentialRootsReady E fetch hash config credential walletField policyKey1 baseUrl existing =
     rootsRounds E fetch hash config walletField policyKey1 baseUrl existing credential 2"

definition registryRootMismatchMessage :: string where
  "registryRootMismatchMessage = ''Eligibility registry does not match your passport yet. '' @
     ''Wait a few seconds and try Send again, or go to Verify '' @ [CHR 0xE2, CHR 0x86, CHR 0x92] @
     '' Request new passport if it persists.''"

section \<open>The passport's snapshot\<close>

datatype passportStatus = NoWallet | NoCredential | RootsMismatch | StatusExpired | StatusValid | StatusProofReady | StatusProofSpent

record passportSnapshot =
  sp_status :: passportStatus
  sp_walletAddress :: "string option"
  sp_walletField :: "string option"
  sp_credential :: "issuerCredential option"
  sp_proof :: "proofBundle option"
  sp_policyKey :: "policyKey option"
  sp_onChainRoots :: "chainRoots option"
  sp_rootsMatch :: bool
  sp_issuedAt :: "int option"
  sp_expiresAt :: "int option"
  sp_issuerAddress :: "string option"
  sp_issuerId :: "int option"
  sp_nullifierPreview :: "string option"
  sp_claims :: "string list"
  sp_errors :: "string list"

definition emptySnapshot :: "passportStatus \<Rightarrow> string option \<Rightarrow> string option \<Rightarrow> policyKey option \<Rightarrow> passportSnapshot" where
  "emptySnapshot status address walletField key = \<lparr>sp_status = status, sp_walletAddress = address, sp_walletField = walletField,
     sp_credential = None, sp_proof = None, sp_policyKey = key, sp_onChainRoots = None, sp_rootsMatch = False,
     sp_issuedAt = None, sp_expiresAt = None, sp_issuerAddress = None, sp_issuerId = None, sp_nullifierPreview = None,
     sp_claims = [], sp_errors = []\<rparr>"

type_synonym 'w clock = "'w \<Rightarrow> int \<times> 'w"

definition now_io :: "'w clock \<Rightarrow> ('w, int) io" where
  "now_io clock = (\<lambda>w. case clock w of (t, w') \<Rightarrow> Some (Inr t, w'))"

text \<open>\<^verbatim>\<open>credential.issuedAt ?? Date.now()\<close>, plus the life time.\<close>

definition expiry_io :: "'w clock \<Rightarrow> issuerCredential \<Rightarrow> ('w, int) io" where
  "expiry_io clock c = (case ic_issuedAt c of Some t \<Rightarrow> io_return (credentialExpiryMs c 0)
     | None \<Rightarrow> io_bind (now_io clock) (\<lambda>t. io_return (credentialExpiryMs c t)))"

definition expired_io :: "'w clock \<Rightarrow> issuerCredential \<Rightarrow> ('w, bool) io" where
  "expired_io clock c = io_bind (now_io clock) (\<lambda>now. io_bind (expiry_io clock c) (\<lambda>expiry. io_return (now > expiry)))"

definition buildPassportSnapshot ::
  "'w chainEnv \<Rightarrow> 'w clock \<Rightarrow> (int list \<Rightarrow> int) \<Rightarrow> deploymentConfig \<Rightarrow> string option \<Rightarrow> string option \<Rightarrow> issuerCredential option
    \<Rightarrow> proofBundle option \<Rightarrow> policyKey option \<Rightarrow> bool \<Rightarrow> ('w, passportSnapshot) io" where
  "buildPassportSnapshot E clock hash config address walletField credential prf key spent =
     (if \<not> truthy address \<or> \<not> truthy walletField then io_return (emptySnapshot NoWallet address walletField key)
      else case credential of None \<Rightarrow> io_return (emptySnapshot NoCredential address walletField key)
      | Some c \<Rightarrow>
        io_bind (io_catch (io_bind (readOnChainRoots E config) (\<lambda>r. io_return (Inr r))) (\<lambda>e. io_return (Inl (message e)))) (\<lambda>roots.
        let rootsOk = (case roots of Inl m \<Rightarrow> False | Inr r \<Rightarrow> rootsMatchCredential (onChainRoots.truncate r) c) in
        io_bind (expired_io clock c) (\<lambda>expired.
        io_bind (if rootsOk \<and> \<not> expired then io_res (proofMatchesCredential hash prf credential) else io_return False) (\<lambda>matches.
        io_bind (expiry_io clock c) (\<lambda>expiry.
          io_return \<lparr>sp_status = (if \<not> rootsOk then RootsMismatch else if expired then StatusExpired
               else if matches then (if spent then StatusProofSpent else StatusProofReady) else StatusValid),
             sp_walletAddress = address, sp_walletField = walletField, sp_credential = credential, sp_proof = prf,
             sp_policyKey = key, sp_onChainRoots = (case roots of Inl m \<Rightarrow> None | Inr r \<Rightarrow> Some r), sp_rootsMatch = rootsOk,
             sp_issuedAt = ic_issuedAt c, sp_expiresAt = Some expiry, sp_issuerAddress = issuerStellarAddress credential,
             sp_issuerId = Some (ic_issuerId c), sp_nullifierPreview = Some (cr_nullifier (ic_credential c)),
             sp_claims = (case key of None \<Rightarrow> [] | Some k \<Rightarrow> pd_claims (policyByKey k)),
             sp_errors = (case roots of Inl m \<Rightarrow> [m] | Inr r \<Rightarrow>
                 if rootsOk then [] else [''Credential roots do not match on-chain CredentialRegistry''])
               @ (if expired then [''Credential has expired '' @ dash @ '' request a new credential''] else [])\<rparr>)))))"

section \<open>Properties\<close>

text \<open>
  C9: With a passport and a proof, the state read from the chain is the one derived offline, except that
  a proof that is ready offline is consumed when the contract answers that its nullifier is spent;
  a contract that does not answer leaves the offline state. Nothing else is ever consumed, and the
  reading throws only what the offline derivation throws.
\<close>

theorem sync_refines_offline:
  assumes "syncProofLifecycleOnChain E hash config (Some c) (Some p) tx w = Some (r, w')"
  shows "case deriveProofLifecycle hash (Some c) (Some p) of Inl e \<Rightarrow> r = Inl e
    | Inr lc \<Rightarrow> (if isProofUsable lc \<and> lifecycleSpent E config c p w = Some (Inr True, w')
        then r = Inr (consumedLifecycle tx) else r = Inr lc)"
proof -
  let ?m = "proofMatchesCredential hash (Some p) (Some c)"
  from assms obtain answer where a: "io_catch (io_bind (lifecycleSpent E config c p) (\<lambda>spent. io_return (Some spent)))
      (\<lambda>e. io_return None) w = Some (Inr answer, w')"
    and r: "r = rmap (\<lambda>ok. if answer = None \<and> ok then readyLifecycle
         else if ok then (if answer = Some True then consumedLifecycle tx else readyLifecycle) else invalidLifecycle) ?m"
    by (cases ?m) (auto simp: syncProofLifecycleOnChain_def io_simps split: option.splits sum.splits)
  from a have "answer = Some True \<longleftrightarrow> lifecycleSpent E config c p w = Some (Inr True, w')"
    by (auto simp: io_simps split: option.splits sum.splits prod.splits)
  with r show ?thesis
    by (cases ?m) (auto simp: deriveProofLifecycle_def isProofUsable_def readyLifecycle_def invalidLifecycle_def)
qed

theorem sync_refines_offline_witness:
  "\<exists>r. syncProofLifecycleOnChain demo_chain demo_hash demo_deployment (Some demo_credential) (Some demo_proof) None () = Some (r, ())
     \<and> deriveProofLifecycle demo_hash (Some demo_credential) (Some demo_proof) = r"
proof -
  have spent: "lifecycleSpent demo_chain demo_deployment demo_credential demo_proof () = Some (Inr False, ())"
    using demo_runs(1) by (auto simp: lifecycleSpent_def unspent_at_def io_simps lifecycle_policy_def proof_policy_def demo_proof_def)
  have lc: "deriveProofLifecycle demo_hash (Some demo_credential) (Some demo_proof) = Inr readyLifecycle"
    by (simp add: deriveProofLifecycle_def demo_matches)
  obtain r where run: "syncProofLifecycleOnChain demo_chain demo_hash demo_deployment (Some demo_credential) (Some demo_proof) None ()
      = Some (r, ())"
    by (simp add: syncProofLifecycleOnChain_def io_simps spent demo_matches)
  from sync_refines_offline[OF run] run spent lc show ?thesis by auto
qed



text \<open>What was read when the registry is taken to be ready for a passport.\<close>

definition registry_ready where
  "registry_ready E hash config existing c \<longleftrightarrow> (\<exists>w w' roots root. readOnChainRoots E config w = Some (Inr roots, w')
     \<and> (rootHexFromCredential c = Inr root \<and> normalizeProofHex (or_root roots) = normalizeProofHex root
        \<or> (\<exists>p. existing = Some p \<and> proofMatchesCredential hash existing (Some c) = Inr True
             \<and> verifyPublicInputsMatchRoots p (or_root roots) (or_revocationRoot roots) = Inr True)))"

lemma root_match_run:
  "credentialRootMatchesChain E config root n w = Some (Inr True, w') \<Longrightarrow> \<exists>w1 w2 roots.
     readOnChainRoots E config w1 = Some (Inr roots, w2) \<and> normalizeProofHex (or_root roots) = normalizeProofHex root"
  by (induction n arbitrary: w) (auto simp: run_iff split: if_splits)

lemma existing_run:
  assumes "existingProofMatches E hash config c existing w = Some (Inr True, w')"
  shows "registry_ready E hash config existing c"
  using assms unfolding existingProofMatches_def chainMatchesProofWithConfig_def registry_ready_def
  by (auto simp: io_simps split: option.splits sum.splits prod.splits if_splits)

lemma rootsLoop_run:
  "rootsLoop E hash config root c existing n w = Some (Inr True, w') \<Longrightarrow> rootHexFromCredential c = Inr root
    \<Longrightarrow> registry_ready E hash config existing c"
proof (induction n arbitrary: w)
  case (Suc n)
  then show ?case
    by (auto simp: run_iff split: if_splits dest!: existing_run dest: root_match_run) (auto simp: registry_ready_def dest: root_match_run)
qed (simp add: run_iff)

lemma wait_run:
  assumes "waitForCredentialRootsReady E hash config c existing w = Some (Inr True, w')"
  shows "registry_ready E hash config existing c"
proof -
  from assms obtain root where root: "rootHexFromCredential c = Inr root"
    by (auto simp: waitForCredentialRootsReady_def run_iff)
  have first: "registry_ready E hash config existing c" if "credentialRootMatchesChain E config root 2 w = Some (Inr True, w')" for w'
    using root_match_run[OF that] root unfolding registry_ready_def by blast
  from assms root show ?thesis
    by (auto simp: waitForCredentialRootsReady_def run_iff split: if_splits dest: first existing_run rootsLoop_run[OF _ root])
qed

lemma syncRoot_only_root:
  "syncRoot fetch baseUrl walletField key c w = Some (Inr c', w') \<Longrightarrow> \<exists>root. c' = c\<lparr>ic_credential := (ic_credential c)\<lparr>cr_root := root\<rparr>\<rparr>"
proof -
  assume run: "syncRoot fetch baseUrl walletField key c w = Some (Inr c', w')"
  have same: "c = c\<lparr>ic_credential := (ic_credential c)\<lparr>cr_root := cr_root (ic_credential c)\<rparr>\<rparr>" by simp
  from run have "c' = c \<or> (\<exists>root. c' = c\<lparr>ic_credential := (ic_credential c)\<lparr>cr_root := root\<rparr>\<rparr>)"
    by (auto simp: syncRoot_def run_iff split: if_splits)
  with same show ?thesis by metis
qed

text \<open>
  The registry is reported ready for a passport only after a reading of the chain in which the root
  is the passport's, or in which both roots are those of a proof that belongs to it. The passport handed
  back is the one that was given, with at most another root.
\<close>

theorem registry_ready_read:
  assumes "ensureCredentialRootsReady E fetch hash config credential walletField key baseUrl existing w = Some (Inr (ready, c), w')"
  shows "(\<exists>root. c = credential\<lparr>ic_credential := (ic_credential credential)\<lparr>cr_root := root\<rparr>\<rparr>)
    \<and> (ready \<longrightarrow> registry_ready E hash config existing c)"
proof -
  have loop: "rootsRounds E fetch hash config walletField key baseUrl existing active n w = Some (Inr (ready, c), w') \<Longrightarrow>
      (\<exists>root. c = active\<lparr>ic_credential := (ic_credential active)\<lparr>cr_root := root\<rparr>\<rparr>) \<and> (ready \<longrightarrow> registry_ready E hash config existing c)"
    for active n w
  proof (induction n arbitrary: active w)
    case 0
    have "active = active\<lparr>ic_credential := (ic_credential active)\<lparr>cr_root := cr_root (ic_credential active)\<rparr>\<rparr>" by simp
    with 0 show ?case unfolding rootsRounds.simps run_iff prod.inject by blast
  next
    case (Suc n)
    then obtain synced w1 ok w2 where s: "syncRoot fetch baseUrl walletField key active w = Some (Inr synced, w1)"
      and k: "waitForCredentialRootsReady E hash config synced existing w1 = Some (Inr ok, w2)"
      and rest: "if ok then ready \<and> c = synced else rootsRounds E fetch hash config walletField key baseUrl existing synced n w2
         = Some (Inr (ready, c), w')"
      by (auto simp: run_iff split: if_splits)
    from syncRoot_only_root[OF s] obtain root
      where root: "synced = active\<lparr>ic_credential := (ic_credential active)\<lparr>cr_root := root\<rparr>\<rparr>" by blast
    show ?case
    proof (cases ok)
      case True
      with k rest root wait_run show ?thesis by metis
    next
      case False
      with rest Suc.IH[of synced w2] root show ?thesis by auto
    qed
  qed
  show ?thesis by (rule loop[OF assms[unfolded ensureCredentialRootsReady_def]])
qed

definition demo_rooted :: issuerCredential where
  "demo_rooted = demo_credential\<lparr>ic_credential := (ic_credential demo_credential)\<lparr>cr_root := ''0x01''\<rparr>\<rparr>"

theorem registry_ready_read_witness:
  "ensureCredentialRootsReady demo_chain (\<lambda>rq w. (Inl (Foreign []), w)) demo_hash demo_deployment demo_rooted None [] [] None ()
     = Some (Inr (True, demo_rooted), ()) \<and> registry_ready demo_chain demo_hash demo_deployment None demo_rooted"
proof -
  have hex: "bytesToHex [1 :: byte] = ''01''" "bytesToHex [2 :: byte] = ''02''" by code_simp+
  have norm: "normalizeProofHex ''0x01'' = ''01''" by code_simp
  have roots: "readOnChainRoots demo_chain demo_deployment () = Some (Inr \<lparr>or_root = ''0x01'', or_revocationRoot = ''0x02'',
      or_noteRoot = ''0x'' @ bytesToHex (replicate 32 0)\<rparr>, ())"
    by (simp add: readOnChainRoots_def readCall_def io_simps demo_simulate_def retval_or_def roots_of_def hex_of_def hex or_else_def)
  have "rootHexFromCredential demo_rooted = Inr ''0x01''"
    by (simp add: rootHexFromCredential_def demo_rooted_def startsWith_def)
  then have "waitForCredentialRootsReady demo_chain demo_hash demo_deployment demo_rooted None () = Some (Inr True, ())"
    by (simp add: waitForCredentialRootsReady_def io_simps eval_nat_numeral roots norm)
  then have run: "ensureCredentialRootsReady demo_chain (\<lambda>rq w. (Inl (Foreign []), w)) demo_hash demo_deployment demo_rooted None [] [] None ()
     = Some (Inr (True, demo_rooted), ())"
    by (simp add: ensureCredentialRootsReady_def eval_nat_numeral io_simps syncRoot_def truthy_def)
  from registry_ready_read[OF run] run show ?thesis by blast
qed

end
