(* ===== verification/ChainEvents.thy ===== *)
theory ChainEvents
  imports LifeCycle
begin

text \<open>
  \<^verbatim>\<open>lib/events.ts\<close>: the events of a transaction as the application lists them, from the raw
  answer of the RPC server, from the SDK's answer or from the index of events. XDR decoding, the
  SDK's requests and what it makes of addresses and of other values are members of
  \<^verbatim>\<open>eventEnv\<close>. Dates are those of the Gregorian calendar as \<^verbatim>\<open>toISOString\<close> writes
  them. Shown: which source the events come from, and that every event listed for a transaction
  carries its hash.
\<close>

section \<open>Dates\<close>

text \<open>The civil date of a day, counted from 1970-01-01; eras have 400 years.\<close>

definition civil :: "int \<Rightarrow> int \<times> int \<times> int" where
  "civil day = (let z = day + 719468; era = z div 146097; doe = z mod 146097;
      yoe = (doe - doe div 1460 + doe div 36524 - doe div 146096) div 365;
      doy = doe - (365 * yoe + yoe div 4 - yoe div 100); mp = (5 * doy + 2) div 153;
      d = doy - (153 * mp + 2) div 5 + 1; m = (if mp < 10 then mp + 3 else mp - 9)
    in (yoe + era * 400 + (if m \<le> 2 then 1 else 0), m, d))"

definition pad :: "nat \<Rightarrow> int \<Rightarrow> string" where
  "pad n x = padStart0 n (toString10 x)"

definition toISOString :: "int \<Rightarrow> string res" where
  "toISOString ms = (if \<bar>ms\<bar> > 8640000000000000 then Inl (RangeError ms)
     else let (y, m, d) = civil (ms div 86400000); t = ms mod 86400000;
            year = (if 0 \<le> y \<and> y \<le> 9999 then pad 4 y else (if y < 0 then ''-'' else ''+'') @ pad 6 \<bar>y\<bar>) in
       Inr (year @ ''-'' @ pad 2 m @ ''-'' @ pad 2 d @ ''T'' @ pad 2 (t div 3600000) @ '':'' @
         pad 2 (t div 60000 mod 60) @ '':'' @ pad 2 (t div 1000 mod 60) @ ''.'' @ pad 3 (t mod 1000) @ ''Z''))"

section \<open>Events\<close>

datatype eventKind = EligibilityVerified | TransferGated | PolicyRegistered | RootUpdated | RevocationRootUpdated
  | HolderFrozen | NullifierSpent | UsdcTransferGated | UnknownKind

datatype eventSource = ContractEvent | ChainRead

record chainEvent =
  cv_kind :: eventKind
  cv_contractId :: string
  cv_txHash :: string
  cv_ledger :: int
  cv_ledgerClosedAt :: string
  cv_summary :: string
  cv_rawTopic :: "string list"
  cv_source :: eventSource

record rawEvent =
  re_body :: int
  re_contractId :: "byte list option"
  re_topics :: "scval list"

record txMeta =
  tm_switch :: int
  tm_sorobanEvents :: "rawEvent list option"

record rawTransaction =
  rt_status :: "string option"
  rt_ledger :: "int option"
  rt_createdAt :: "int option"
  rt_resultMetaXdr :: "string option"
  rt_contractEventsXdr :: "string list list option"

record indexedEvent =
  ie_contractId :: string
  ie_topic :: "scval list"
  ie_txHash :: string
  ie_ledger :: int
  ie_ledgerClosedAt :: string

record eventQuery =
  eq_startLedger :: int
  eq_endLedger :: int
  eq_contractIds :: "string list"
  eq_limit :: int

record 'w eventEnv =
  ee_post :: "string \<Rightarrow> string \<Rightarrow> 'w \<Rightarrow> rawTransaction option httpResponse res \<times> 'w"
  ee_getTransaction :: "string \<Rightarrow> string \<Rightarrow> 'w \<Rightarrow> (int \<times> int \<times> txMeta) option res \<times> 'w"
  ee_getEvents :: "string \<Rightarrow> eventQuery \<Rightarrow> 'w \<Rightarrow> indexedEvent list res \<times> 'w"
  ee_latestLedger :: "string \<Rightarrow> 'w \<Rightarrow> int res \<times> 'w"
  ee_metaFromXDR :: "string \<Rightarrow> txMeta res"
  ee_eventFromXDR :: "string \<Rightarrow> rawEvent res"
  ee_addressText :: "string \<Rightarrow> string"
  ee_otherText :: "scval \<Rightarrow> string"

definition scValToString :: "'w eventEnv \<Rightarrow> scval \<Rightarrow> string" where
  "scValToString V val = (case val of ScSymbol s \<Rightarrow> s | ScString s \<Rightarrow> s | ScAddress a \<Rightarrow> ee_addressText V a
     | ScU32 n \<Rightarrow> toString10 n | ScI128 n \<Rightarrow> toString10 n | v \<Rightarrow> ee_otherText V v)"

definition topicSymbol :: "scval list \<Rightarrow> string" where
  "topicSymbol topic = (case topic of ScSymbol s # ts \<Rightarrow> s | _ \<Rightarrow> [])"

definition EVENT_ALIASES :: "(string \<times> eventKind) list" where
  "EVENT_ALIASES = [(''transfer_gated'', TransferGated), (''TransferGated'', TransferGated),
     (''usdc_transfer_gated'', UsdcTransferGated), (''UsdcTransferGated'', UsdcTransferGated),
     (''eligibility_verified'', EligibilityVerified), (''EligibilityVerified'', EligibilityVerified),
     (''policy_registered'', PolicyRegistered), (''PolicyRegistered'', PolicyRegistered),
     (''root_updated'', RootUpdated), (''RootUpdated'', RootUpdated),
     (''revocation_root_updated'', RevocationRootUpdated), (''RevocationRootUpdated'', RevocationRootUpdated),
     (''holder_frozen'', HolderFrozen), (''HolderFrozen'', HolderFrozen)]"

text \<open>The remaining cases, by contract, all answer the same.\<close>

definition classifyEvent :: "string \<Rightarrow> deploymentConfig \<Rightarrow> scval list \<Rightarrow> eventKind" where
  "classifyEvent contractId config topic = given (map_of EVENT_ALIASES (topicSymbol topic)) UnknownKind"

definition summarize :: "eventKind \<Rightarrow> string \<Rightarrow> scval list \<Rightarrow> string" where
  "summarize kind contractId topic = (case kind of
     EligibilityVerified \<Rightarrow> ''Eligibility checker recorded one-time settlement approval''
   | TransferGated \<Rightarrow> ''RWA token settled an eligible transfer''
   | UsdcTransferGated \<Rightarrow> ''USDC settlement account released funds after eligibility check''
   | PolicyRegistered \<Rightarrow> ''Verification key registered for policy_id''
   | RootUpdated \<Rightarrow> ''Passport registry eligibility record updated''
   | RevocationRootUpdated \<Rightarrow> ''Passport registry restriction record updated''
   | HolderFrozen \<Rightarrow> ''RwaToken holder freeze flag set''
   | NullifierSpent \<Rightarrow> ''Passport was marked used so it cannot settle again''
   | UnknownKind \<Rightarrow> (let sym = topicSymbol topic in
       (if sym \<noteq> [] then ''Contract event '' @ sym @ '' from '' else ''Contract event from '') @ take 8 contractId @ ellipsis))"

definition upper :: "char \<Rightarrow> char" where
  "upper c = (let n = of_char c :: nat in if 97 \<le> n \<and> n \<le> 122 then char_of (n - 32) else c)"

definition contractHex :: "byte list \<Rightarrow> string" where
  "contractHex b = map upper (bytesToHex b)"

text \<open>The record of a contract's event; system and diagnostic events and those of no contract are left out.\<close>

definition event_record ::
  "'w eventEnv \<Rightarrow> string \<Rightarrow> int \<Rightarrow> string \<Rightarrow> deploymentConfig \<Rightarrow> rawEvent \<Rightarrow> chainEvent option" where
  "event_record V txHash ledger closedAt config ev =
     (if re_body ev \<noteq> 0 then None
      else map_option (\<lambda>raw. let contractId = contractHex raw; kind = classifyEvent contractId config (re_topics ev) in
        \<lparr>cv_kind = kind, cv_contractId = contractId, cv_txHash = txHash, cv_ledger = ledger, cv_ledgerClosedAt = closedAt,
         cv_summary = summarize kind contractId (re_topics ev), cv_rawTopic = map (scValToString V) (re_topics ev),
         cv_source = ContractEvent\<rparr>) (re_contractId ev))"

definition parseContractEventsFromMeta ::
  "'w eventEnv \<Rightarrow> string \<Rightarrow> int \<Rightarrow> string \<Rightarrow> deploymentConfig \<Rightarrow> txMeta \<Rightarrow> chainEvent list" where
  "parseContractEventsFromMeta V txHash ledger closedAt config meta =
     List.map_filter (event_record V txHash ledger closedAt config)
       (if tm_switch meta = 3 then given (tm_sorobanEvents meta) [] else [])"

definition parseContractEventsFromRawResponse ::
  "'w eventEnv \<Rightarrow> string \<Rightarrow> int \<Rightarrow> string \<Rightarrow> deploymentConfig \<Rightarrow> rawTransaction \<Rightarrow> chainEvent list" where
  "parseContractEventsFromRawResponse V txHash ledger closedAt config raw =
     (case (if truthy (rt_resultMetaXdr raw) then Some (ee_metaFromXDR V (the (rt_resultMetaXdr raw))) else None) of
        Some (Inr meta) \<Rightarrow> parseContractEventsFromMeta V txHash ledger closedAt config meta
      | _ \<Rightarrow> List.map_filter (\<lambda>x. case ee_eventFromXDR V x of Inl e \<Rightarrow> None
            | Inr ev \<Rightarrow> event_record V txHash ledger closedAt config ev)
          (concat (given (rt_contractEventsXdr raw) [])))"

text \<open>The answer of \<^verbatim>\<open>getTransaction\<close> when it is a success with a ledger other than 0.\<close>

definition successful :: "rawTransaction option \<Rightarrow> (int \<times> int \<times> rawTransaction) option" where
  "successful result = (case result of None \<Rightarrow> None | Some t \<Rightarrow>
     (case rt_ledger t of None \<Rightarrow> None | Some l \<Rightarrow>
       if l \<noteq> 0 \<and> rt_status t = Some ''SUCCESS'' then Some (l, given (rt_createdAt t) 0, t) else None))"

definition fetchTransactionLedger :: "'w eventEnv \<Rightarrow> string \<Rightarrow> string \<Rightarrow> ('w, (int \<times> int) option) io" where
  "fetchTransactionLedger V url txHash =
     io_bind (io_call (ee_post V url txHash)) (\<lambda>resp.
     if \<not> http_ok resp then io_return None
     else io_bind (io_res (http_json resp)) (\<lambda>result.
       io_return (map_option (\<lambda>(l, c, t). (l, c)) (successful result))))"

definition indexed_record :: "'w eventEnv \<Rightarrow> deploymentConfig \<Rightarrow> indexedEvent \<Rightarrow> chainEvent" where
  "indexed_record V config ev = (let kind = classifyEvent (ie_contractId ev) config (ie_topic ev) in
     \<lparr>cv_kind = kind, cv_contractId = ie_contractId ev, cv_txHash = ie_txHash ev, cv_ledger = ie_ledger ev,
      cv_ledgerClosedAt = ie_ledgerClosedAt ev, cv_summary = summarize kind (ie_contractId ev) (ie_topic ev),
      cv_rawTopic = map (scValToString V) (ie_topic ev), cv_source = ContractEvent\<rparr>)"

definition watched :: "deploymentConfig \<Rightarrow> string list" where
  "watched config = [policyVerifierId config, rwaTokenId config, credentialRegistryId config]"

definition rawEvents :: "'w eventEnv \<Rightarrow> deploymentConfig \<Rightarrow> string \<Rightarrow> ('w, chainEvent list) io" where
  "rawEvents V config txHash =
     io_bind (io_call (ee_post V (rpcUrl config) txHash)) (\<lambda>resp.
     if \<not> http_ok resp then io_return []
     else io_bind (io_res (http_json resp)) (\<lambda>result. case successful result of None \<Rightarrow> io_return []
       | Some (ledger, createdAt, t) \<Rightarrow> io_bind (io_res (toISOString (createdAt * 1000))) (\<lambda>closedAt.
           io_return (parseContractEventsFromRawResponse V txHash ledger closedAt config t))))"

definition sdkEvents :: "'w eventEnv \<Rightarrow> deploymentConfig \<Rightarrow> string \<Rightarrow> ('w, chainEvent list) io" where
  "sdkEvents V config txHash =
     io_catch (io_bind (io_call (ee_getTransaction V (rpcUrl config) txHash)) (\<lambda>tx. case tx of None \<Rightarrow> io_return []
       | Some (ledger, createdAt, meta) \<Rightarrow> io_bind (io_res (toISOString (createdAt * 1000))) (\<lambda>closedAt.
           io_return (parseContractEventsFromMeta V txHash ledger closedAt config meta)))) (\<lambda>e. io_return [])"

definition indexedEvents :: "'w eventEnv \<Rightarrow> deploymentConfig \<Rightarrow> string \<Rightarrow> ('w, chainEvent list) io" where
  "indexedEvents V config txHash =
     io_bind (fetchTransactionLedger V (rpcUrl config) txHash) (\<lambda>meta. case meta of None \<Rightarrow> io_return []
     | Some (ledger, createdAt) \<Rightarrow>
       io_bind (io_call (ee_getEvents V (rpcUrl config) \<lparr>eq_startLedger = max 1 (ledger - 2), eq_endLedger = ledger + 2,
           eq_contractIds = watched config, eq_limit = 50\<rparr>)) (\<lambda>events.
         io_return (map (indexed_record V config) (filter (\<lambda>ev. map lower (ie_txHash ev) = map lower txHash) events))))"

definition fetchEventsForTransaction :: "'w eventEnv \<Rightarrow> deploymentConfig \<Rightarrow> string \<Rightarrow> ('w, chainEvent list) io" where
  "fetchEventsForTransaction V config txHash =
     io_bind (rawEvents V config txHash) (\<lambda>raw. if raw \<noteq> [] then io_return raw
     else io_bind (sdkEvents V config txHash) (\<lambda>sdk. if sdk \<noteq> [] then io_return sdk
     else indexedEvents V config txHash))"

definition fetchEventsForContracts ::
  "'w eventEnv \<Rightarrow> deploymentConfig \<Rightarrow> string list \<Rightarrow> int option \<Rightarrow> ('w, chainEvent list) io" where
  "fetchEventsForContracts V config hashes ledgerWindow =
     (if hashes \<noteq> [] then io_bind (io_each (fetchEventsForTransaction V config) hashes) (\<lambda>all1. io_return (concat all1))
      else io_bind (io_call (ee_latestLedger V (rpcUrl config))) (\<lambda>latest.
        io_bind (io_call (ee_getEvents V (rpcUrl config) \<lparr>eq_startLedger = max 1 (latest - given ledgerWindow 200000),
            eq_endLedger = latest, eq_contractIds = watched config, eq_limit = 200\<rparr>)) (\<lambda>events.
          io_return (map (indexed_record V config) events))))"

definition nullifierSpentEvidence :: "deploymentConfig \<Rightarrow> string \<Rightarrow> int \<Rightarrow> string \<Rightarrow> string \<Rightarrow> chainEvent" where
  "nullifierSpentEvidence config txHash ledger nullifierHex nowText =
     \<lparr>cv_kind = NullifierSpent, cv_contractId = policyVerifierId config, cv_txHash = txHash, cv_ledger = ledger,
      cv_ledgerClosedAt = nowText,
      cv_summary = ''Passport settlement reference 0x'' @ take 16 nullifierHex @ ellipsis @ '' recorded as used'',
      cv_rawTopic = [''nullifier_spent'', nullifierHex], cv_source = ChainRead\<rparr>"

section \<open>Facts\<close>

lemma date_examples:
  "toISOString 0 = Inr ''1970-01-01T00:00:00.000Z''" "toISOString 1709210096789 = Inr ''2024-02-29T12:34:56.789Z''"
  by code_simp+

lemma event_record_hash: "event_record V h l t config ev = Some r \<Longrightarrow> cv_txHash r = h"
  by (auto simp: event_record_def Let_def split: if_splits)

lemma meta_hash: "r \<in> set (parseContractEventsFromMeta V h l t config meta) \<Longrightarrow> cv_txHash r = h"
  by (auto simp: parseContractEventsFromMeta_def List.map_filter_def event_record_hash split: if_splits)

lemma raw_hash: "r \<in> set (parseContractEventsFromRawResponse V h l t config raw) \<Longrightarrow> cv_txHash r = h"
  by (auto simp: parseContractEventsFromRawResponse_def List.map_filter_def meta_hash event_record_hash
      split: if_splits option.splits sum.splits)

lemma rawEvents_hash: "rawEvents V config h w = Some (Inr evs, w') \<Longrightarrow> r \<in> set evs \<Longrightarrow> cv_txHash r = h"
  by (auto simp: rawEvents_def run_iff split: if_splits option.splits dest: raw_hash)

lemma sdkEvents_hash: "sdkEvents V config h w = Some (Inr evs, w') \<Longrightarrow> r \<in> set evs \<Longrightarrow> cv_txHash r = h"
  by (auto simp: sdkEvents_def io_simps split: if_splits option.splits sum.splits prod.splits dest: meta_hash)

lemma indexedEvents_hash:
  "indexedEvents V config h w = Some (Inr evs, w') \<Longrightarrow> r \<in> set evs \<Longrightarrow> map lower (cv_txHash r) = map lower h"
  by (auto simp: indexedEvents_def run_iff indexed_record_def Let_def split: option.splits)

text \<open>
  Whichever of the three sources the events of a transaction come from, each of them carries the
  hash that was asked for, up to the case of its letters.
\<close>

theorem events_of_transaction:
  assumes "fetchEventsForTransaction V config txHash w = Some (Inr events, w')" and "r \<in> set events"
  shows "map lower (cv_txHash r) = map lower txHash"
  using assms rawEvents_hash sdkEvents_hash indexedEvents_hash
  unfolding fetchEventsForTransaction_def run_iff by (metis (no_types, lifting))
end
