(* ===== verification/Activity.thy ===== *)
theory Activity
  imports ChainEvents
begin

text \<open>
  The activity feed of \<^verbatim>\<open>lib/activity.ts\<close>, kept as JSON under one key of the browser's storage,
  and the readers of it: \<^verbatim>\<open>lib/chainSnapshot.ts\<close> and \<^verbatim>\<open>lib/portfolio.ts\<close>. An entry is a
  JSON value: nothing checks that what was stored is an entry. Shown: what is kept of the feed, that
  references are listed once, and that an allocation neither loses nor invents an amount.
\<close>

section \<open>The feed\<close>

definition ACTIVITY_KEY :: string where "ACTIVITY_KEY = ''lumengate.activity.v1''"

text \<open>
  A browser always has storage, so the failure of \<^verbatim>\<open>localStorage\<close> itself is a page without it; a
  full storage is not modelled.
\<close>

definition loadActivity :: "page \<Rightarrow> json" where
  "loadActivity page = (case getItem ACTIVITY_KEY page of None \<Rightarrow> JArr []
     | Some raw \<Rightarrow> if raw = [] then JArr [] else (case JSON_parse raw of None \<Rightarrow> JArr [] | Some j \<Rightarrow> j))"

definition saveActivity :: "json list \<Rightarrow> page \<Rightarrow> page res" where
  "saveActivity entries page = (if pa_storage page = None then Inl (TypeError ''localStorage'')
     else Inr (setItem ACTIVITY_KEY (stringify [] [] (JArr (take 100 entries))) page))"

text \<open>\<^verbatim>\<open>[...v]\<close> and \<^verbatim>\<open>for (const e of v)\<close>.\<close>

definition iterate :: "json \<Rightarrow> json list res" where
  "iterate j = (case j of JArr xs \<Rightarrow> Inr xs | JStr s \<Rightarrow> Inr (map (\<lambda>c. JStr [c]) s) | _ \<Rightarrow> Inl (TypeError ''not iterable''))"

definition appendActivity :: "(string \<times> json) list \<Rightarrow> string \<Rightarrow> int \<Rightarrow> page \<Rightarrow> (json list \<times> page) res" where
  "appendActivity entry uuid now page =
     (let full = JObj (put ''timestamp'' (JNum now) (put ''id'' (JStr uuid) entry)) in
      rbind (iterate (loadActivity page)) (\<lambda>old. rmap (\<lambda>page'. (full # old, page')) (saveActivity (full # old) page)))"

definition clearActivity :: "page \<Rightarrow> page" where
  "clearActivity page = removeItem ACTIVITY_KEY page"

text \<open>\<^verbatim>\<open>entry.k\<close>, which throws on \<^verbatim>\<open>null\<close>, and the truth of a member.\<close>

definition entry_get :: "json \<Rightarrow> string \<Rightarrow> json option res" where
  "entry_get e k = (if e = JNull then Inl (TypeError ''Cannot read properties of null'') else Inr (obj_get e k))"

fun json_truth :: "json option \<Rightarrow> bool" where
  "json_truth None = False"
| "json_truth (Some JNull) = False"
| "json_truth (Some (JBool b)) = b"
| "json_truth (Some (JNum n)) = (n \<noteq> 0)"
| "json_truth (Some (JStr s)) = (s \<noteq> [])"
| "json_truth (Some v) = True"

text \<open>\<^verbatim>\<open>String(v)\<close> of a JSON value.\<close>

fun json_String :: "json \<Rightarrow> string" where
  "json_String JNull = ''null''"
| "json_String (JBool b) = (if b then ''true'' else ''false'')"
| "json_String (JNum n) = toString10 n"
| "json_String (JStr s) = s"
| "json_String (JArr xs) = join '','' (map (\<lambda>x. if x = JNull then [] else json_String x) xs)"
| "json_String (JObj kvs) = ''[object Object]''"

definition member_String :: "json option \<Rightarrow> string" where
  "member_String v = (case v of None \<Rightarrow> undefinedText | Some j \<Rightarrow> json_String j)"

text \<open>Setting a member: of an array it is not written to the file, of a text or a number it is ignored.\<close>

definition set_member :: "json \<Rightarrow> string \<Rightarrow> json \<Rightarrow> json res" where
  "set_member j k v = (case j of JNull \<Rightarrow> Inl (TypeError ''Cannot set properties of null'')
     | JObj kvs \<Rightarrow> Inr (JObj (put k v kvs)) | _ \<Rightarrow> Inr j)"

section \<open>References\<close>

record referenceTx =
  rf_label :: json
  rf_hash :: json

definition kindLabels :: "(string \<times> string) list" where
  "kindLabels = [(''verify'', ''Eligibility confirmed''), (''transfer'', ''Eligible transfer''),
     (''freeze_check'', ''Freeze enforcement''), (''credential'', ''Credential issued''), (''proof'', ''Proof generated'')]"

text \<open>The label of the entry's kind, or its title (\<^verbatim>\<open>undefined\<close> is shown as \<^verbatim>\<open>null\<close>).\<close>

definition entry_label :: "json \<Rightarrow> json" where
  "entry_label e = (case obj_get e ''kind'' of
     Some (JStr k) \<Rightarrow> (case map_of kindLabels k of Some l \<Rightarrow> JStr l | None \<Rightarrow> given (obj_get e ''title'') JNull)
   | _ \<Rightarrow> given (obj_get e ''title'') JNull)"

fun references :: "json list \<Rightarrow> json list \<Rightarrow> referenceTx list res" where
  "references seen [] = Inr []"
| "references seen (e # es) = rbind (entry_get e ''txHash'') (\<lambda>h.
     if \<not> json_truth h \<or> the h \<in> set seen then references seen es
     else rmap (\<lambda>rows. \<lparr>rf_label = entry_label e, rf_hash = the h\<rparr> # rows) (references (the h # seen) es))"

definition referenceTxsFromActivity :: "page \<Rightarrow> referenceTx list res" where
  "referenceTxsFromActivity page = rbind (iterate (loadActivity page)) (references [])"

definition referenceTxsFromDeployment :: "env \<Rightarrow> referenceTx list" where
  "referenceTxsFromDeployment vite =
     (let row = (\<lambda>label name. if truthy (vite name) then [\<lparr>rf_label = JStr label, rf_hash = JStr (the (vite name))\<rparr>] else []) in
      row ''Eligibility confirmed'' ''VITE_REFERENCE_VERIFY_TX'' @ row ''Settlement completed'' ''VITE_REFERENCE_TRANSFER_TX''
      @ row ''Restriction enforced'' ''VITE_REFERENCE_FREEZE_TX'')"

fun merge_rows :: "referenceTx list \<Rightarrow> referenceTx list \<Rightarrow> referenceTx list" where
  "merge_rows rows [] = rows"
| "merge_rows rows (r # rs) =
     (if rf_hash r \<in> rf_hash ` set rows then merge_rows rows rs else merge_rows (rows @ [r]) rs)"

definition mergeReferenceTxs :: "referenceTx list \<Rightarrow> referenceTx list \<Rightarrow> referenceTx list" where
  "mergeReferenceTxs primary fallback = merge_rows primary fallback"

record chainSnapshot =
  sn_issuerOk :: bool
  sn_issuerLabel :: string
  sn_issuerHint :: "string option"
  sn_roots :: "chainRoots option"
  sn_balance :: "string option"
  sn_frozen :: "bool option"
  sn_policyId :: "int option"
  sn_sessionEvents :: nat
  sn_referenceTxs :: "referenceTx list"
  sn_network :: string

definition truncateAddr :: "string \<Rightarrow> string" where
  "truncateAddr addr = (if length addr \<le> 14 then addr else take 8 addr @ ellipsis @ drop (length addr - 6) addr)"

definition attempted :: "('w, 'a) io \<Rightarrow> ('w, js_error + 'a) io" where
  "attempted m = io_catch (io_bind m (\<lambda>a. io_return (Inr a))) (\<lambda>e. io_return (Inl e))"

definition kept :: "js_error + 'a \<Rightarrow> 'a option" where
  "kept r = (case r of Inl e \<Rightarrow> None | Inr x \<Rightarrow> Some x)"

text \<open>The issuer's health, what is read of the registry and, with a wallet, its balance and its freeze.\<close>

definition fetchChainSnapshot ::
  "'w chainEnv \<Rightarrow> 'w webFetch \<Rightarrow> env \<Rightarrow> deploymentConfig \<Rightarrow> string option \<Rightarrow> (page \<times> 'w, chainSnapshot) io" where
  "fetchChainSnapshot E fetch vite config walletAddress =
     io_bind (on_page (\<lambda>p. (referenceTxsFromActivity p, loadActivity p))) (\<lambda>(refs, feed).
     io_bind (io_res refs) (\<lambda>primary.
     io_bind (net_io (attempted (io_bind (fetchIssuerHealth fetch (issuerServiceUrl config)) (\<lambda>j. io_res (of_answer (\<lambda>j. j) j))))) (\<lambda>health.
     io_bind (net_io (attempted (readOnChainRoots E config))) (\<lambda>roots.
     io_bind (if truthy walletAddress then net_io (attempted (readBalance E config (the walletAddress)))
              else io_return (Inl (Refused []))) (\<lambda>balance.
     io_bind (case balance of Inl e \<Rightarrow> io_return (Inl e) | Inr b \<Rightarrow> net_io (attempted (readIsFrozen E config (the walletAddress)))) (\<lambda>frozen.
     let of_health = (\<lambda>k. case health of Inl e \<Rightarrow> None | Inr h \<Rightarrow> obj_get h k);
         issuer = (case of_health ''issuer'' of Some (JStr a) \<Rightarrow> a | _ \<Rightarrow> []) in
       io_return \<lparr>sn_issuerOk = json_truth (of_health ''ok''),
         sn_issuerLabel = (case health of Inl e \<Rightarrow> ''Offline'' | Inr h \<Rightarrow> if issuer \<noteq> [] then truncateAddr issuer else ''Issuer online''),
         sn_issuerHint = (case health of Inl e \<Rightarrow> Some (message e) | Inr h \<Rightarrow> None),
         sn_roots = kept roots, sn_balance = kept balance, sn_frozen = kept frozen, sn_policyId = policyId config,
         sn_sessionEvents = (case feed of JArr xs \<Rightarrow> length xs | JStr s \<Rightarrow> length s | _ \<Rightarrow> 0),
         sn_referenceTxs = mergeReferenceTxs primary (referenceTxsFromDeployment vite), sn_network = network config\<rparr>))))))"

section \<open>Allocations\<close>

definition COLORS :: "string list" where
  "COLORS = [''#0d9488'', ''#4f46e5'', ''#d97706'', ''#007dfc'', ''#dc2626'']"

record allocationSlice =
  al_label :: string
  al_value :: int
  al_color :: string

text \<open>An entry of the feed as the portfolio reads it.\<close>

record activityEntry =
  ac_kind :: string
  ac_title :: string
  ac_detail :: string
  ac_status :: string

text \<open>\<^verbatim>\<open>/^Settlement: (.+)$/\<close> on a title of one line, and \<^verbatim>\<open>/^(\\d+)/\<close>.\<close>

definition settlement_label :: "string \<Rightarrow> string option" where
  "settlement_label title = (let rest = drop 12 title in
     if startsWith ''Settlement: '' title \<and> rest \<noteq> [] \<and> CHR 0x0A \<notin> set rest \<and> CHR 0x0D \<notin> set rest then Some rest else None)"

definition leading_amount :: "string \<Rightarrow> int" where
  "leading_amount detail = (let ds = takeWhile is_digit detail in if ds = [] then 0 else decimal ds)"

definition settled_amount :: "activityEntry \<Rightarrow> (string \<times> int) option" where
  "settled_amount e = (if ac_kind e \<noteq> ''transfer'' \<or> ac_status e \<noteq> ''success'' then None
     else case settlement_label (ac_title e) of None \<Rightarrow> None
       | Some label \<Rightarrow> if leading_amount (ac_detail e) \<le> 0 then None else Some (label, leading_amount (ac_detail e)))"

fun by_offering :: "(string \<times> int) list \<Rightarrow> activityEntry list \<Rightarrow> (string \<times> int) list" where
  "by_offering m [] = m"
| "by_offering m (e # es) = (case settled_amount e of None \<Rightarrow> by_offering m es
     | Some (label, amount) \<Rightarrow> by_offering (put label (given (map_of m label) 0 + amount) m) es)"

definition allocationFromActivity :: "activityEntry list \<Rightarrow> int \<Rightarrow> allocationSlice list" where
  "allocationFromActivity activity totalBalance = (let m = by_offering [] activity in
     if m = [] then (if totalBalance > 0
       then [\<lparr>al_label = ''RwaToken (on-chain)'', al_value = totalBalance, al_color = COLORS ! 0\<rparr>] else [])
     else map (\<lambda>(i, label, amount). \<lparr>al_label = label, al_value = amount, al_color = COLORS ! (i mod length COLORS)\<rparr>)
       (enumerate 0 m))"

section \<open>Facts\<close>

lemma references_seen:
  "references seen es = Inr rows \<Longrightarrow> distinct (map rf_hash rows) \<and> set (map rf_hash rows) \<inter> set seen = {}"
proof (induction seen es arbitrary: rows rule: references.induct)
  case (2 seen e es)
  from 2(3) obtain h where h: "entry_get e ''txHash'' = Inr h" by (auto simp: rbind_Inr_iff)
  show ?case
  proof (cases "\<not> json_truth h \<or> the h \<in> set seen")
    case True
    with 2(1)[OF h True] 2(3) h show ?thesis by simp
  next
    case False
    with 2(3) h obtain rs where rs: "references (the h # seen) es = Inr rs" "rows = \<lparr>rf_label = entry_label e, rf_hash = the h\<rparr> # rs"
      by (auto simp: rmap_Inr_iff)
    from 2(2)[OF h False rs(1)] rs(2) False show ?thesis by auto
  qed
qed simp

lemma merge_rows_facts:
  "distinct (map rf_hash rows) \<Longrightarrow> distinct (map rf_hash (merge_rows rows rs)) \<and> take (length rows) (merge_rows rows rs) = rows
    \<and> rf_hash ` set (merge_rows rows rs) = rf_hash ` (set rows \<union> set rs)"
proof (induction rs arbitrary: rows)
  case (Cons r rs)
  show ?case
  proof (cases "rf_hash r \<in> rf_hash ` set rows")
    case True
    with Cons.IH[OF Cons.prems] show ?thesis by auto
  next
    case False
    with Cons.prems have "distinct (map rf_hash (rows @ [r]))" by simp
    from Cons.IH[OF this] have ih: "distinct (map rf_hash (merge_rows (rows @ [r]) rs))"
      "take (length (rows @ [r])) (merge_rows (rows @ [r]) rs) = rows @ [r]"
      "rf_hash ` set (merge_rows (rows @ [r]) rs) = rf_hash ` (set (rows @ [r]) \<union> set rs)" by auto
    have "take (length rows) (take (length (rows @ [r])) (merge_rows (rows @ [r]) rs)) = rows" unfolding ih(2) by simp
    then have "take (length rows) (merge_rows (rows @ [r]) rs) = rows" by (simp add: min_def)
    with ih(1,3) False show ?thesis by auto
  qed
qed simp

lemma sum_put:
  assumes "distinct (map fst m)"
  shows "sum_list (map snd (put k (given (map_of m k) 0 + a) m)) = sum_list (map snd m) + (a :: int)"
  using assms
proof (induction m)
  case (Cons kv m)
  then show ?case by (cases kv) (auto simp: dom_map_of_conv_image_fst map_of_eq_None_iff)
qed simp

lemma put_not_Nil [simp]: "put k v m \<noteq> []"
  by (induction k v m rule: put.induct) simp_all

lemma by_offering_facts:
  "distinct (map fst m) \<Longrightarrow> \<forall>v\<in>set (map snd m). 0 < v \<Longrightarrow> distinct (map fst (by_offering m es))
    \<and> (\<forall>v\<in>set (map snd (by_offering m es)). 0 < v)
    \<and> sum_list (map snd (by_offering m es)) = sum_list (map snd m) + sum_list (map snd (List.map_filter settled_amount es))
    \<and> (by_offering m es = [] \<longleftrightarrow> m = [] \<and> List.map_filter settled_amount es = [])"
proof (induction m es rule: by_offering.induct)
  case (2 m e es)
  show ?case
  proof (cases "settled_amount e")
    case None
    with 2(1)[OF None 2(3,4)] show ?thesis by (simp add: List.map_filter_def)
  next
    case (Some la)
    obtain label amount where la: "la = (label, amount)" by (cases la)
    let ?m = "put label (given (map_of m label) 0 + amount) m"
    have pos: "0 < amount" using Some la by (auto simp: settled_amount_def split: if_splits option.splits)
    have "0 \<le> given (map_of m label) 0"
      using 2(4) by (cases "map_of m label") (force dest: map_of_SomeD)+
    with pos have "\<forall>v\<in>set (map snd ?m). 0 < v" using 2(4) by (auto dest!: set_put)
    note ih = 2(2)[OF Some la[symmetric] distinct_put[OF 2(3)] this]
    have cons: "List.map_filter settled_amount (e # es) = (label, amount) # List.map_filter settled_amount es"
      by (simp add: List.map_filter_def Some la)
    have step: "by_offering m (e # es) = by_offering ?m es" by (simp add: Some la)
    show ?thesis unfolding step cons using ih sum_put[OF 2(3), of label amount] by simp
  qed
qed (simp add: List.map_filter_def)

section \<open>Properties\<close>

text \<open>
  An entry that is appended to a feed is the first of what is returned and of what is stored; of
  the older entries the newest 99 stay stored, in their order, whatever values they are.
\<close>

theorem activity_kept:
  assumes "appendActivity entry uuid now page = Inr (entries, page')" and "loadActivity page = JArr old"
    and "json_wf (JObj entry)" and "list_all json_wf old"
  shows "entries = JObj (put ''timestamp'' (JNum now) (put ''id'' (JStr uuid) entry)) # old
    \<and> loadActivity page' = JArr (take 100 entries) \<and> (\<forall>k. k \<noteq> ACTIVITY_KEY \<longrightarrow> getItem k page' = getItem k page)"
proof -
  let ?full = "JObj (put ''timestamp'' (JNum now) (put ''id'' (JStr uuid) entry))"
  from assms(1,2) have e: "entries = ?full # old" and p: "saveActivity entries page = Inr page'"
    by (auto simp: appendActivity_def iterate_def rmap_Inr_iff Let_def)
  have "json_wf ?full" using assms(3) by (auto simp: list_all_iff intro!: distinct_put dest!: set_put)
  with assms(4) have "json_wf (JArr (take 100 entries))" by (auto simp: e list_all_iff dest: in_set_takeD)
  then have "JSON_parse (stringify [] [] (JArr (take 100 entries))) = Some (JArr (take 100 entries))"
    by (intro JSON_parse_stringify) simp_all
  with p e show ?thesis
    by (auto simp: saveActivity_def loadActivity_def getItem_setItem split: if_splits)
qed

text \<open>
  The reference transactions shown are each shown once: those of the feed first, then those of the
  deployment that the feed does not have.
\<close>

theorem references_distinct:
  assumes "referenceTxsFromActivity page = Inr rows"
  shows "distinct (map rf_hash (rows)) \<and> distinct (map rf_hash (mergeReferenceTxs rows fallback))
    \<and> take (length rows) (mergeReferenceTxs rows fallback) = rows
    \<and> rf_hash ` set (mergeReferenceTxs rows fallback) = rf_hash ` (set rows \<union> set fallback)"
proof -
  from assms obtain xs where "references [] xs = Inr rows" by (auto simp: referenceTxsFromActivity_def rbind_Inr_iff)
  then have "distinct (map rf_hash rows)" by (blast dest: references_seen)
  with merge_rows_facts[OF this, of fallback] show ?thesis by (simp add: mergeReferenceTxs_def)
qed

lemma slices_facts:
  assumes "map al_label slices = map fst m" and "map al_value slices = map snd m" and "distinct (map fst m)"
    and "\<forall>v\<in>set (map snd m). 0 < v"
  shows "distinct (map al_label slices) \<and> (\<forall>s\<in>set slices. 0 < al_value s) \<and> sum_list (map al_value slices) = sum_list (map snd m)"
proof -
  have "\<forall>v\<in>set (map al_value slices). 0 < v" unfolding assms(2) by (rule assms(4))
  then have "\<forall>s\<in>set slices. 0 < al_value s" by simp
  with assms(1-3) show ?thesis by simp
qed

text \<open>
  The slices of an allocation have distinct labels and positive values, and together exactly the
  amounts of the successful settlements of the feed; without any, the balance is the one slice.
\<close>

theorem allocation_sums:
  "distinct (map al_label (allocationFromActivity activity held)) \<and> list_all (\<lambda>s. 0 < al_value s) (allocationFromActivity activity held)
   \<and> sum_list (map al_value (allocationFromActivity activity held)) =
       (if List.map_filter settled_amount activity = [] then max 0 held else sum_list (map snd (List.map_filter settled_amount activity)))"
proof -
  let ?m = "by_offering [] activity"
  have m: "distinct (map fst ?m)" "\<forall>v\<in>set (map snd ?m). 0 < v"
    "sum_list (map snd ?m) = sum_list (map snd (List.map_filter settled_amount activity))"
    "?m = [] \<longleftrightarrow> List.map_filter settled_amount activity = []"
    using by_offering_facts[of "[]" activity] by auto
  let ?f = "\<lambda>(i, label, amount). \<lparr>al_label = label, al_value = amount, al_color = COLORS ! (i mod length COLORS)\<rparr>"
  have sel: "map al_label (map ?f (enumerate k xs)) = map fst xs" "map al_value (map ?f (enumerate k xs)) = map snd xs" for k xs
    by (induction xs arbitrary: k) auto
  show ?thesis
  proof (cases "?m = []")
    case True
    with m(4) show ?thesis by (simp add: allocationFromActivity_def)
  next
    case False
    then have a: "allocationFromActivity activity held = map ?f (enumerate 0 ?m)" by (simp add: allocationFromActivity_def)
    show ?thesis using slices_facts[OF sel[of 0 ?m] m(1,2)] m(3,4) False unfolding a list_all_iff by presburger
  qed
qed


theorem activity_kept_witness:
  "\<exists>entries page'. appendActivity [(''kind'', JStr ''proof'')] ''u'' 5 \<lparr>pa_storage = Some [], pa_provers = []\<rparr> = Inr (entries, page')
     \<and> loadActivity page' = JArr entries"
proof -
  have none: "loadActivity \<lparr>pa_storage = Some [], pa_provers = []\<rparr> = JArr []" by (simp add: loadActivity_def getItem_def)
  then obtain entries page' where run: "appendActivity [(''kind'', JStr ''proof'')] ''u'' 5 \<lparr>pa_storage = Some [], pa_provers = []\<rparr>
      = Inr (entries, page')"
    by (simp add: appendActivity_def iterate_def saveActivity_def)
  from activity_kept[OF run none] run show ?thesis by auto
qed

theorem references_distinct_witness:
  "mergeReferenceTxs [] [\<lparr>rf_label = JStr ''a'', rf_hash = JStr ''h''\<rparr>, \<lparr>rf_label = JStr ''b'', rf_hash = JStr ''h''\<rparr>]
     = [\<lparr>rf_label = JStr ''a'', rf_hash = JStr ''h''\<rparr>]
   \<and> distinct (map rf_hash (mergeReferenceTxs [] [\<lparr>rf_label = JStr ''a'', rf_hash = JStr ''h''\<rparr>, \<lparr>rf_label = JStr ''b'', rf_hash = JStr ''h''\<rparr>]))"
proof -
  have "referenceTxsFromActivity \<lparr>pa_storage = None, pa_provers = []\<rparr> = Inr []"
    by (simp add: referenceTxsFromActivity_def loadActivity_def getItem_def iterate_def)
  from references_distinct[OF this] show ?thesis by (simp add: mergeReferenceTxs_def)
qed

end
