(* ===== verification/Receipts.thy ===== *)
theory Receipts
  imports Activity
begin

text \<open>
  The settlement receipt of \<^verbatim>\<open>lib/proofReceipt.ts\<close> and the journey of \<^verbatim>\<open>lib/journey.ts\<close> that
  is shown with it. Shown: when a receipt says that a settlement is verified, in terms of what was
  read of the chain, and what a confidential transfer needs for it.
\<close>

section \<open>Receipts\<close>

datatype settlementStatus = SettlementPending | SettlementVerified | SettlementFailed

datatype verificationResult = ResultPassed | ResultFailed | ResultPending

record receiptTxs =
  rx_verify :: "string option"
  rx_transfer :: "string option"
  rx_pofVerify :: "string option"
  rx_sessionBind :: "string option"

record transferResult =
  tr_from :: string
  tr_to :: string
  tr_amount :: string
  tr_success :: bool
  tr_confidential :: "bool option"

record complianceTargets =
  tg_usdcCode :: string
  tg_usdcIssuer :: string
  tg_usdcSac :: string
  tg_eurcNote :: string

record receiptAsset =
  ra_label :: string
  ra_contractId :: string
  ra_complianceTarget :: string
  ra_complianceSac :: string

record proofReceipt =
  rc_createdAt :: int
  rc_walletAddress :: string
  rc_walletField :: string
  rc_walletModuleId :: "string option"
  rc_walletModuleName :: "string option"
  rc_policyKey :: policyKey
  rc_policyId :: int
  rc_claims :: "string list"
  rc_verificationResult :: verificationResult
  rc_settlementStatus :: settlementStatus
  rc_nullifier :: string
  rc_nullifierSpent :: bool
  rc_replayBlocked :: bool
  rc_replayMessage :: "string option"
  rc_merkleRoot :: string
  rc_revocationRoot :: string
  rc_rootsMatchOnChain :: bool
  rc_proofPublicInputsHex :: string
  rc_network :: string
  rc_contractIds :: "string list"
  rc_transactions :: receiptTxs
  rc_transferResult :: "transferResult option"
  rc_events :: "chainEvent list"
  rc_complianceTargets :: complianceTargets
  rc_explorerLinks :: "(string \<times> string) list"
  rc_ledgerCloseTime :: "string option"
  rc_verificationTimestamp :: "string option"
  rc_asset :: receiptAsset

record receiptInput =
  ri_config :: deploymentConfig
  ri_address :: string
  ri_walletField :: string
  ri_walletModuleId :: "string option"
  ri_walletModuleName :: "string option"
  ri_policyKey :: policyKey
  ri_credential :: "issuerCredential option"
  ri_proof :: "proofBundle option"
  ri_transactions :: "receiptTxs option"
  ri_transferResult :: "transferResult option"
  ri_replayBlocked :: bool
  ri_replayMessage :: "string option"
  ri_events :: "chainEvent list option"

definition loadComplianceAssetTargets :: "env \<Rightarrow> complianceTargets" where
  "loadComplianceAssetTargets vite = (let get = (\<lambda>name d. if truthy (vite name) then the (vite name) else d) in
     \<lparr>tg_usdcCode = get ''VITE_USDC_ASSET_CODE'' ''USDC'',
      tg_usdcIssuer = get ''VITE_USDC_ISSUER'' ''GBBD47IF6LWK7P7MDEVSCWR7DPUWV3NY3DTQEVFL4NAT4AQH3ZLLFLA5'',
      tg_usdcSac = get ''VITE_USDC_SAC_ID'' ''CBIELTK6YBZJU5UP2WWQEUCYKLPU6AUNZ2BQ4WWFEIE3USCIHMXQDAMA'',
      tg_eurcNote = get ''VITE_EURC_NOTE'' (''Testnet EURC is a Lumengate-issued SAC token for compliant settlement demos '' @
        dash @ '' not Circle mainnet EURC.'')\<rparr>)"

definition explorerTxUrl :: "string \<Rightarrow> string \<Rightarrow> string" where
  "explorerTxUrl base hash1 = no_slash base @ ''/tx/'' @ hash1"

definition no_txs :: receiptTxs where
  "no_txs = \<lparr>rx_verify = None, rx_transfer = None, rx_pofVerify = None, rx_sessionBind = None\<rparr>"

text \<open>The first entry that is a successful transfer with a hash.\<close>

fun find_transfer :: "json list \<Rightarrow> json option res" where
  "find_transfer [] = Inr None"
| "find_transfer (e # es) = rbind (entry_get e ''kind'') (\<lambda>kind.
     if kind = Some (JStr ''transfer'') \<and> json_truth (obj_get e ''txHash'') \<and> obj_get e ''status'' = Some (JStr ''success'')
     then Inr (obj_get e ''txHash'') else find_transfer es)"

definition resolveReceiptTransactions :: "json \<Rightarrow> receiptTxs \<Rightarrow> receiptTxs res" where
  "resolveReceiptTransactions feed sessionTxs =
     (if truthy (rx_transfer sessionTxs) then Inr sessionTxs
      else case feed of JArr entries \<Rightarrow>
          rmap (\<lambda>h. case h of Some (JStr s) \<Rightarrow> sessionTxs\<lparr>rx_transfer := Some s\<rparr> | _ \<Rightarrow> sessionTxs) (find_transfer entries)
        | _ \<Rightarrow> Inl (TypeError ''find is not a function''))"

text \<open>The roots and the nullifier; what has been read when a read fails is kept.\<close>

definition receiptReads :: "'w chainEnv \<Rightarrow> deploymentConfig \<Rightarrow> issuerCredential \<Rightarrow> proofBundle \<Rightarrow> string \<Rightarrow> ('w, bool \<times> bool) io" where
  "receiptReads E config credential prf nullifier =
     io_bind (attempted (readOnChainRoots E config)) (\<lambda>roots. case roots of Inl e \<Rightarrow> io_return (False, False)
     | Inr r \<Rightarrow> let same = rootsMatchCredential (onChainRoots.truncate r) credential in
         io_bind (attempted (readNullifierSpent E config nullifier (Some (Number_of (pi_policyId (pb_publicInputs prf))))
             (nullifier_scope prf))) (\<lambda>spent.
           io_return (same, spent = Inr True)))"

definition the_hashes :: "receiptTxs \<Rightarrow> string list" where
  "the_hashes txs = map the (filter truthy [rx_transfer txs, rx_sessionBind txs, rx_verify txs, rx_pofVerify txs])"

definition ledgerOf :: "'w eventEnv \<Rightarrow> deploymentConfig \<Rightarrow> string \<Rightarrow> ('w, (int \<times> int) option) io" where
  "ledgerOf V config hash1 = io_catch (fetchTransactionLedger V (rpcUrl config) hash1) (\<lambda>e. io_return None)"

definition iso_now :: "'w clock \<Rightarrow> ('w, string) io" where
  "iso_now clock = io_bind (now_io clock) (\<lambda>t. io_res (toISOString t))"

definition receiptEvents ::
  "'w eventEnv \<Rightarrow> 'w clock \<Rightarrow> deploymentConfig \<Rightarrow> receiptTxs \<Rightarrow> chainEvent list option \<Rightarrow> bool \<Rightarrow> string \<Rightarrow> ('w, chainEvent list) io" where
  "receiptEvents V clock config txs given1 spent nullifier =
     io_bind (if given given1 [] = []
         then io_bind (io_each (fetchEventsForTransaction V config) (the_hashes txs)) (\<lambda>evs. io_return (concat evs))
         else io_return (given given1 [])) (\<lambda>events.
     if spent \<and> truthy (rx_transfer txs)
     then io_bind (ledgerOf V config (the (rx_transfer txs))) (\<lambda>meta.
          io_bind (iso_now clock) (\<lambda>now.
          io_return (events @ [nullifierSpentEvidence config (the (rx_transfer txs)) (case meta of None \<Rightarrow> 0 | Some (l, c) \<Rightarrow> l)
            (strip0xi nullifier) now])))
     else io_return events)"

definition receiptTimestamp :: "'w eventEnv \<Rightarrow> deploymentConfig \<Rightarrow> receiptTxs \<Rightarrow> ('w, string option) io" where
  "receiptTimestamp V config txs =
     (if truthy (rx_transfer txs)
      then io_bind (ledgerOf V config (the (rx_transfer txs))) (\<lambda>meta. case meta of None \<Rightarrow> io_return None
        | Some (l, createdAt) \<Rightarrow> if createdAt = 0 then io_return None
            else io_bind (io_res (toISOString (createdAt * 1000))) (\<lambda>t. io_return (Some t)))
      else io_return None)"

definition txConfirmed :: "receiptTxs \<Rightarrow> chainEvent list \<Rightarrow> string option \<Rightarrow> bool" where
  "txConfirmed txs events timestamp \<longleftrightarrow> truthy timestamp \<or> (\<exists>ev\<in>set events. Some (cv_txHash ev) = rx_transfer txs)
     \<or> (events \<noteq> [] \<and> cv_ledgerClosedAt (hd events) \<noteq> [])"

definition settlementVerified ::
  "receiptTxs \<Rightarrow> transferResult option \<Rightarrow> bool \<Rightarrow> bool \<Rightarrow> chainEvent list \<Rightarrow> string option \<Rightarrow> bool" where
  "settlementVerified txs result spent rootsMatch events timestamp =
     (let hasTransferTx = truthy (rx_transfer txs);
          transferSucceeded = (case result of None \<Rightarrow> True | Some r \<Rightarrow> tr_success r);
          isConfidentialTransfer = (case result of None \<Rightarrow> False | Some r \<Rightarrow> tr_confidential r = Some True) in
      if isConfidentialTransfer then hasTransferTx \<and> transferSucceeded \<and> txConfirmed txs events timestamp
      else hasTransferTx \<and> transferSucceeded \<and> spent \<and> rootsMatch)"

definition settlementStatusOf :: "bool \<Rightarrow> receiptTxs \<Rightarrow> transferResult option \<Rightarrow> settlementStatus" where
  "settlementStatusOf verified txs result =
     (if verified then SettlementVerified
      else if truthy (rx_transfer txs) \<and> (case result of None \<Rightarrow> False | Some r \<Rightarrow> \<not> tr_success r) then SettlementFailed
      else SettlementPending)"

definition explorerLinks :: "deploymentConfig \<Rightarrow> receiptTxs \<Rightarrow> (string \<times> string) list" where
  "explorerLinks config txs =
     (let link = (\<lambda>name h. if truthy h then [(name, explorerTxUrl (explorerBaseUrl config) (the h))] else []) in
      link ''verify'' (rx_verify txs) @ link ''transfer'' (rx_transfer txs) @ link ''pofVerify'' (rx_pofVerify txs)
      @ link ''sessionBind'' (rx_sessionBind txs))"

definition or_text :: "string option \<Rightarrow> string \<Rightarrow> string" where
  "or_text a b = (if truthy a then the a else b)"

definition receiptAssetOf :: "deploymentConfig \<Rightarrow> complianceTargets \<Rightarrow> string \<Rightarrow> receiptAsset" where
  "receiptAssetOf config targets assetId =
     \<lparr>ra_label = assetLabelFromProofInputs (Some assetId),
      ra_contractId = (if assetId = as_assetId (ASSET_SCOPES UsdcAsset) then or_text (complianceSacAdminId config) (rwaTokenId config)
        else if assetId = as_assetId (ASSET_SCOPES EurcAsset) then or_text (eurcSacId config) (rwaTokenId config)
        else rwaTokenId config),
      ra_complianceTarget = tg_usdcCode targets, ra_complianceSac = tg_usdcSac targets\<rparr>"

definition receipt_of ::
  "env \<Rightarrow> receiptInput \<Rightarrow> proofBundle \<Rightarrow> string \<Rightarrow> bool \<Rightarrow> bool \<Rightarrow> receiptTxs \<Rightarrow> chainEvent list \<Rightarrow> string option \<Rightarrow> int \<Rightarrow> proofReceipt" where
  "receipt_of vite input prf nullifier rootsMatch spent txs events timestamp now =
     (let config = ri_config input; policy = policyByKey (ri_policyKey input); targets = loadComplianceAssetTargets vite;
          verified = settlementVerified txs (ri_transferResult input) spent rootsMatch events timestamp in
      \<lparr>rc_createdAt = now, rc_walletAddress = ri_address input, rc_walletField = ri_walletField input,
       rc_walletModuleId = ri_walletModuleId input, rc_walletModuleName = ri_walletModuleName input,
       rc_policyKey = ri_policyKey input, rc_policyId = pd_policyId policy, rc_claims = pd_claims policy,
       rc_verificationResult = (if verified \<or> ri_replayBlocked input then ResultPassed else ResultPending),
       rc_settlementStatus = settlementStatusOf verified txs (ri_transferResult input),
       rc_nullifier = nullifier, rc_nullifierSpent = spent, rc_replayBlocked = ri_replayBlocked input,
       rc_replayMessage = ri_replayMessage input, rc_merkleRoot = pi_root (pb_publicInputs prf),
       rc_revocationRoot = pi_revocationRoot (pb_publicInputs prf), rc_rootsMatchOnChain = rootsMatch,
       rc_proofPublicInputsHex = pb_publicInputsHex prf, rc_network = network config,
       rc_contractIds = [policyVerifierId config, credentialRegistryId config, issuerRegistryId config, rwaTokenId config,
         rwaAdapterId config], rc_transactions = txs, rc_transferResult = ri_transferResult input, rc_events = events,
       rc_complianceTargets = targets, rc_explorerLinks = explorerLinks config txs,
       rc_ledgerCloseTime = (if events = [] then None else Some (cv_ledgerClosedAt (hd events))),
       rc_verificationTimestamp = timestamp,
       rc_asset = receiptAssetOf config targets (pi_assetId (pb_publicInputs prf))\<rparr>)"

definition buildProofReceipt ::
  "'w chainEnv \<Rightarrow> 'w eventEnv \<Rightarrow> 'w clock \<Rightarrow> env \<Rightarrow> receiptInput \<Rightarrow> (page \<times> 'w, proofReceipt option) io" where
  "buildProofReceipt E V clock vite input = (case (ri_proof input, ri_credential input) of
     (Some prf, Some credential) \<Rightarrow>
       io_bind (io_res (nullifierHexFromBundle prf)) (\<lambda>nullifier.
       io_bind (net_io (receiptReads E (ri_config input) credential prf nullifier)) (\<lambda>(rootsMatch, spent).
       io_bind (on_page loadActivity) (\<lambda>feed.
       io_bind (io_res (resolveReceiptTransactions feed (given (ri_transactions input) no_txs))) (\<lambda>txs.
       io_bind (net_io (receiptEvents V clock (ri_config input) txs (ri_events input) spent nullifier)) (\<lambda>events.
       io_bind (net_io (receiptTimestamp V (ri_config input) txs)) (\<lambda>timestamp.
       io_bind (net_io (now_io clock)) (\<lambda>now.
         io_return (Some (receipt_of vite input prf nullifier rootsMatch spent txs events timestamp now)))))))))
   | _ \<Rightarrow> io_return None)"

definition proofReceiptFilename :: "string \<Rightarrow> string" where
  "proofReceiptFilename address = ''lumengate-proof-receipt-'' @ take 8 address @ ''.json''"

section \<open>The journey\<close>

record journeyInput =
  ji_address :: "string option"
  ji_settlementAddress :: "string option"
  ji_credential :: bool
  ji_proof :: bool
  ji_proofMatches :: bool
  ji_receipt :: "proofReceipt option"
  ji_replayBlocked :: bool

definition journeyFlags :: "journeyInput \<Rightarrow> bool list" where
  "journeyFlags input =
     (let transfer = (case ji_receipt input of None \<Rightarrow> False | Some r \<Rightarrow> truthy (rx_transfer (rc_transactions r)));
          verified = (case ji_receipt input of None \<Rightarrow> False | Some r \<Rightarrow> rc_settlementStatus r = SettlementVerified) in
      [truthy (coalesce (ji_settlementAddress input) (ji_address input)), ji_credential input,
       ji_proof input \<and> ji_proofMatches input, transfer \<or> verified, verified \<or> transfer,
       ji_replayBlocked input \<or> (case ji_receipt input of None \<Rightarrow> False | Some r \<Rightarrow> rc_replayBlocked r)])"

definition journeyTexts :: "(string \<times> string \<times> string) list" where
  "journeyTexts =
     [(''connect'', ''Connect wallet'', ''Link your Stellar account to begin.''),
      (''credential'', ''Get passport'', ''Receive your private eligibility passport.''),
      (''prove'', ''Confirm eligibility'', ''Private confirmation that you are allowed to invest.''),
      (''invest'', ''Invest or send'', ''Complete a compliant settlement on Stellar.''),
      (''receipt'', ''Settlement receipt'', ''Your audit-ready record is saved here.''),
      (''replay'', ''One-time use'', ''Each passport authorizes one settlement '' @ dash @ '' renew for the next one.'')]"

definition buildUserJourney :: "journeyInput \<Rightarrow> productStep list" where
  "buildUserJourney input = steps_of journeyTexts (journeyFlags input)"

section \<open>Properties\<close>

lemma attempted_run [run_iff]:
  "attempted m w = Some (Inr r, w') \<longleftrightarrow> (case r of Inr a \<Rightarrow> m w = Some (Inr a, w') | Inl e \<Rightarrow> m w = Some (Inl e, w'))"
  by (auto simp: attempted_def io_simps split: option.splits sum.splits)

lemma net_io_run [run_iff]: "net_io m (s, n) = Some (Inr a, (s', n')) \<longleftrightarrow> s' = s \<and> m n = Some (Inr a, n')"
  by (auto simp: net_io_def split: option.splits)

lemma on_page_run [run_iff]: "on_page f (p, n) = Some (Inr a, (p', n')) \<longleftrightarrow> a = f p \<and> p' = p \<and> n' = n"
  by (auto simp: on_page_def)

text \<open>
  What the reading of the chain told: with the registry's roots the match with the passport and the
  verifier's answer about the nullifier, asked next; without them neither.
\<close>

definition chain_told ::
  "'w chainEnv \<Rightarrow> deploymentConfig \<Rightarrow> issuerCredential \<Rightarrow> proofBundle \<Rightarrow> string \<Rightarrow> 'w \<Rightarrow> bool \<Rightarrow> bool \<Rightarrow> bool" where
  "chain_told E config c prf nullifier w rootsMatch spent \<longleftrightarrow> (case readOnChainRoots E config w of
     None \<Rightarrow> False
   | Some (Inl e, w1) \<Rightarrow> \<not> rootsMatch \<and> \<not> spent
   | Some (Inr roots, w1) \<Rightarrow> (rootsMatch \<longleftrightarrow> rootsMatchCredential (onChainRoots.truncate roots) c)
       \<and> (case readNullifierSpent E config nullifier (Some (Number_of (pi_policyId (pb_publicInputs prf)))) (nullifier_scope prf) w1 of
            None \<Rightarrow> False | Some (answer, w2) \<Rightarrow> (spent \<longleftrightarrow> answer = Inr True)))"

lemma receiptReads_told:
  assumes "receiptReads E config credential prf nullifier n = Some (Inr (rootsMatch, spent), n')"
  shows "chain_told E config credential prf nullifier n rootsMatch spent"
  using assms by (auto simp: receiptReads_def chain_told_def attempted_def io_simps Let_def split: option.splits sum.splits prod.splits)


definition demo_spent :: "unit chainEnv" where
  "demo_spent = demo_chain\<lparr>ch_server := (\<lambda>u p. demo_chainServer\<lparr>cs_simulate := (\<lambda>tx w.
     (Inr (if tx_method tx = ''is_scoped_nullifier_spent'' then SimSuccess (Some (ScBool True)) else demo_simulate tx), w))\<rparr>)\<rparr>"

definition demo_quiet :: "unit eventEnv" where
  "demo_quiet = \<lparr>ee_post = (\<lambda>u h w. (Inl (Foreign []), w)), ee_getTransaction = (\<lambda>u h w. (Inl (Foreign []), w)),
     ee_getEvents = (\<lambda>u q w. (Inr [], w)), ee_latestLedger = (\<lambda>u w. (Inr 1, w)), ee_metaFromXDR = (\<lambda>x. Inl (Foreign x)),
     ee_eventFromXDR = (\<lambda>x. Inl (Foreign x)), ee_addressText = (\<lambda>a. a), ee_otherText = (\<lambda>v. [])\<rparr>"

definition demo_receiptInput :: receiptInput where
  "demo_receiptInput = \<lparr>ri_config = demo_deployment, ri_address = ''G'', ri_walletField = ''5'', ri_walletModuleId = None,
     ri_walletModuleName = None, ri_policyKey = GeneralEligibility, ri_credential = Some demo_credential, ri_proof = Some demo_proof,
     ri_transactions = Some (no_txs\<lparr>rx_transfer := Some ''h''\<rparr>), ri_transferResult = None, ri_replayBlocked = False,
     ri_replayMessage = None, ri_events = Some [nullifierSpentEvidence demo_deployment ''h'' 5 [] []]\<rparr>"

lemma demo_spent_sel [simp]:
  "server demo_spent config = demo_chainServer\<lparr>cs_simulate := (\<lambda>tx w.
     (Inr (if tx_method tx = ''is_scoped_nullifier_spent'' then SimSuccess (Some (ScBool True)) else demo_simulate tx), w))\<rparr>"
  "ch_contract demo_spent c = Inr ()" "ch_native demo_spent = demo_native" "ch_unhex demo_spent = ch_unhex demo_chain"
  by (simp_all add: server_def demo_spent_def demo_chain_def)

lemma demo_receiptReads:
  assumes "nullifierHexFromBundle demo_proof = Inr nullifier"
  shows "receiptReads demo_spent demo_deployment demo_credential demo_proof nullifier () = Some (Inr (True, True), ())"
proof -
  have hex: "bytesToHex [1 :: byte] = ''01''" "bytesToHex [2 :: byte] = ''02''" by code_simp+
  have num: "Number_of ''1'' = Some 1" "Number_of ''2'' = Some 2" by code_simp+
  have "norm_root ''0x01'' = norm_root ''0x1''" "norm_root ''0x02'' = norm_root ''0x2''" by code_simp+
  then have "rootsMatchCredential \<lparr>or_root = ''0x01'', or_revocationRoot = ''0x02''\<rparr> demo_credential"
    by (simp add: rootsMatchCredential_def demo_credential_def)
  then show ?thesis
    by (simp add: receiptReads_def attempted_def readOnChainRoots_def readCall_def io_simps demo_simulate_def retval_or_def
        roots_of_def hex_of_def hex or_else_def onChainRoots.truncate_def Let_def readNullifierSpent_def nullifier_scope_def
        demo_proof_def num u32Val_def)
qed


text \<open>
  What confirms a confidential transfer is not tied to it: the close time of the first event
  listed is enough, whichever transaction that event belongs to.
\<close>

theorem confidential_confirmed_by_any_event:
  assumes "truthy (rx_transfer txs)" and "tr_success t" and "tr_confidential t = Some True" and "cv_ledgerClosedAt ev \<noteq> []"
  shows "settlementStatusOf (settlementVerified txs (Some t) spent rootsMatch (ev # events) None) txs (Some t) = SettlementVerified"
  using assms by (simp add: settlementStatusOf_def settlementVerified_def txConfirmed_def)

theorem confidential_confirmed_by_any_event_witness:
  "\<exists>txs t ev. rx_transfer txs = Some ''sent'' \<and> cv_txHash ev = ''bound'' \<and>
     settlementStatusOf (settlementVerified txs (Some t) False False [ev] None) txs (Some t) = SettlementVerified"
  using confidential_confirmed_by_any_event[of "no_txs\<lparr>rx_transfer := Some ''sent''\<rparr>"
      "\<lparr>tr_from = [], tr_to = [], tr_amount = [], tr_success = True, tr_confidential = Some True\<rparr>"
      "\<lparr>cv_kind = UnknownKind, cv_contractId = [], cv_txHash = ''bound'', cv_ledger = 5, cv_ledgerClosedAt = ''2026'',
        cv_summary = [], cv_rawTopic = [], cv_source = ContractEvent\<rparr>" False False "[]"]
  by (intro exI conjI) (auto simp: truthy_def)

end
