(* ===== verification/Sessions.thy ===== *)
theory Sessions
  imports Activity Eligibility
begin

text \<open>
  What the application remembers between visits (\<^verbatim>\<open>lib/session.ts\<close>,
  \<^verbatim>\<open>lib/passkeySession.ts\<close>): one session per funding wallet, the passkey session, and the
  passage from one to the other when a funding wallet is connected or disconnected. Sessions are objects
  stored as JSON, and what is read back may come from an older release, so a session is a list of members.
  Shown: the sessions that are handed out have the members their types promise whatever the stored ones
  lacked, sessions are read back as they were saved, and connecting and disconnecting a wallet keeps the
  passkey session.
\<close>

section \<open>The stores\<close>

type_synonym session = "(string \<times> json) list"

definition STORAGE_KEY :: string where "STORAGE_KEY = ''lumengate.session.v2''"

definition LAST_WALLET_KEY :: string where "LAST_WALLET_KEY = ''lumengate.wallet.last''"

definition LEGACY_KEY :: string where "LEGACY_KEY = ''lumengate.session.v1''"

definition PASSKEY_SESSION_KEY :: string where "PASSKEY_SESSION_KEY = ''lumengate.passkey.session.v1''"

text \<open>The parsed item of a key, if there is one that parses.\<close>

definition stored_json :: "string \<Rightarrow> page \<Rightarrow> json option" where
  "stored_json key page = (case getItem key page of None \<Rightarrow> None
     | Some raw \<Rightarrow> if raw = [] then None else JSON_parse raw)"

definition store_json :: "string \<Rightarrow> json \<Rightarrow> page \<Rightarrow> page res" where
  "store_json key j page = (if pa_storage page = None then Inl (TypeError ''localStorage'')
     else Inr (setItem key (stringify [] [] j) page))"

definition readStore :: "page \<Rightarrow> json" where
  "readStore page = (case stored_json STORAGE_KEY page of None \<Rightarrow> JObj [] | Some j \<Rightarrow> j)"

definition writeStore :: "json \<Rightarrow> page \<Rightarrow> page res" where
  "writeStore store page = store_json STORAGE_KEY store page"

text \<open>\<^verbatim>\<open>a ?? b\<close>\<close>

fun nullish :: "json option \<Rightarrow> json option \<Rightarrow> json option" where
  "nullish None b = b"
| "nullish (Some JNull) b = b"
| "nullish a b = a"

definition loadWalletSession :: "string \<Rightarrow> page \<Rightarrow> json option res" where
  "loadWalletSession address1 page = rmap (\<lambda>s. if s = Some JNull then None else s) (entry_get (readStore page) address1)"

definition saveWalletSession :: "session \<Rightarrow> int \<Rightarrow> page \<Rightarrow> page res" where
  "saveWalletSession session now page =
     rbind (set_member (readStore page) (member_String (map_of session ''address'')) (JObj (put ''updatedAt'' (JNum now) session)))
       (\<lambda>store. writeStore store page)"

definition clearWalletSession :: "string \<Rightarrow> page \<Rightarrow> page res" where
  "clearWalletSession address1 page = (case readStore page of
       JNull \<Rightarrow> Inl (TypeError ''Cannot convert undefined or null to object'')
     | JObj kvs \<Rightarrow> writeStore (JObj (filter (\<lambda>kv. fst kv \<noteq> address1) kvs)) page
     | j \<Rightarrow> writeStore j page)"

definition saveLastWalletConnection :: "session \<Rightarrow> int \<Rightarrow> page \<Rightarrow> page res" where
  "saveLastWalletConnection conn now page = store_json LAST_WALLET_KEY (JObj (put ''savedAt'' (JNum now) conn)) page"

text \<open>A stored object with members that must be truthy; reading a member of \<^verbatim>\<open>null\<close> is caught.\<close>

definition load_with :: "string list \<Rightarrow> string \<Rightarrow> page \<Rightarrow> json option" where
  "load_with needed key page = (case stored_json key page of None \<Rightarrow> None
     | Some j \<Rightarrow> if list_all (\<lambda>k. json_truth (obj_get j k)) needed then Some j else None)"

definition loadLastWalletConnection :: "page \<Rightarrow> json option" where
  "loadLastWalletConnection page = load_with [''address'', ''walletField''] LAST_WALLET_KEY page"

definition clearLastWalletConnection :: "page \<Rightarrow> page" where
  "clearLastWalletConnection page = removeItem LAST_WALLET_KEY page"

text \<open>\<^verbatim>\<open>{...v}\<close>\<close>

definition indexed :: "json list \<Rightarrow> session" where
  "indexed xs = map2 (\<lambda>i x. (toString10 (int i), x)) [0..<length xs] xs"

definition spread_members :: "json \<Rightarrow> session" where
  "spread_members j = (case j of JObj kvs \<Rightarrow> kvs | JArr xs \<Rightarrow> indexed xs | JStr s \<Rightarrow> indexed (map (\<lambda>c. JStr [c]) s) | _ \<Rightarrow> [])"

text \<open>Members that \<^verbatim>\<open>migrateLegacySession\<close> sets when they are missing.\<close>

definition legacy_defaults :: "(string \<times> json) list" where
  "legacy_defaults = [(''receiptTransactions'', JObj []), (''transferResult'', JNull), (''replayBlocked'', JBool False),
     (''replayMessage'', JNull)]"

definition set_default :: "string \<times> json \<Rightarrow> session \<Rightarrow> session" where
  "set_default = (\<lambda>(k, d) s. put k (the (nullish (map_of s k) (Some d))) s)"

definition migrated_legacy :: "session \<Rightarrow> session" where
  "migrated_legacy entry = fold set_default legacy_defaults entry"

definition migrateLegacySession :: "string \<Rightarrow> int \<Rightarrow> page \<Rightarrow> session option \<times> page" where
  "migrateLegacySession address1 now page = (case stored_json LEGACY_KEY page of None \<Rightarrow> (None, page)
     | Some legacy \<Rightarrow> (let entry = obj_get legacy address1 in
         if \<not> json_truth entry then (None, page)
         else let migrated = migrated_legacy (spread_members (the entry)) in
           (case saveWalletSession migrated now page of Inl e \<Rightarrow> (None, page) | Inr page' \<Rightarrow> (Some migrated, page'))))"

section \<open>The passkey session\<close>

definition loadPasskeySession :: "page \<Rightarrow> json option" where
  "loadPasskeySession page = load_with [''smartAccountAddress'', ''walletField'', ''smartAccount''] PASSKEY_SESSION_KEY page"

definition savePasskeySession :: "session \<Rightarrow> int \<Rightarrow> page \<Rightarrow> page res" where
  "savePasskeySession session now page = store_json PASSKEY_SESSION_KEY (JObj (put ''updatedAt'' (JNum now) session)) page"

definition clearPasskeySession :: "page \<Rightarrow> page" where
  "clearPasskeySession page = removeItem PASSKEY_SESSION_KEY page"

text \<open>The members both kinds of session have, with what they are when neither session has them.\<close>

definition shared_members :: "(string \<times> json option) list" where
  "shared_members = [(''credential'', Some JNull), (''proof'', Some JNull), (''pofProof'', Some JNull),
     (''proofDurationSec'', Some JNull), (''policyKey'', Some (JStr ''general-eligibility'')), (''selectedOfferingId'', Some JNull),
     (''receiptTransactions'', Some (JObj [])), (''transferResult'', Some JNull), (''replayBlocked'', Some (JBool False)),
     (''replayMessage'', Some JNull), (''proofReceipt'', Some JNull), (''settlementProofArchive'', Some JNull),
     (''passportActivated'', Some (JBool False)), (''proofLifecycle'', None), (''consumedTxHash'', Some JNull)]"

definition merged_member :: "json option \<Rightarrow> json option \<Rightarrow> json option \<Rightarrow> json option" where
  "merged_member mine other d = (case d of None \<Rightarrow> nullish mine other | Some v \<Rightarrow> nullish (nullish mine other) (Some v))"

definition merged_members :: "(string \<Rightarrow> json option) \<Rightarrow> (string \<Rightarrow> json option) \<Rightarrow> session" where
  "merged_members mine other = concat (map (\<lambda>(k, d). opt_member k (merged_member (mine k) (other k) d)) shared_members)"

text \<open>\<^verbatim>\<open>existing?.k\<close>\<close>

definition existing_member :: "json option \<Rightarrow> string \<Rightarrow> json option" where
  "existing_member e k = (case e of None \<Rightarrow> None | Some j \<Rightarrow> obj_get j k)"

definition linked_session :: "string \<Rightarrow> json \<Rightarrow> json option \<Rightarrow> int \<Rightarrow> session" where
  "linked_session fundingAddress passkey existing now =
     [(''address'', JStr fundingAddress)] @ opt_member ''walletField'' (obj_get passkey ''walletField'')
       @ opt_member ''smartAccount'' (obj_get passkey ''smartAccount'')
       @ merged_members (obj_get passkey) (existing_member existing) @ [(''updatedAt'', JNum now)]"

text \<open>The clock is read three times.\<close>

definition linkPasskeySessionToWallet :: "string \<Rightarrow> int \<times> int \<times> int \<Rightarrow> page \<Rightarrow> (session option \<times> page) res" where
  "linkPasskeySessionToWallet fundingAddress = (\<lambda>(now, now1, now2) page. case loadPasskeySession page of
       None \<Rightarrow> Inr (None, page)
     | Some passkey \<Rightarrow> rbind (loadWalletSession fundingAddress page) (\<lambda>existing.
         let linked = linked_session fundingAddress passkey existing now in
         rbind (saveWalletSession linked now1 page) (\<lambda>page1.
         rmap (\<lambda>page2. (Some linked, page2))
           (savePasskeySession (put ''fundingWalletAddress'' (JStr fundingAddress) (spread_members passkey)) now2 page1))))"

definition passkeySessionToWalletSession :: "session \<Rightarrow> string option \<Rightarrow> session" where
  "passkeySessionToWalletSession passkey fundingAddress =
     opt_member ''address'' (case fundingAddress of Some a \<Rightarrow> Some (JStr a) | None \<Rightarrow> map_of passkey ''smartAccountAddress'')
       @ concat (map (\<lambda>k. opt_member k (map_of passkey k)) ([''walletField'', ''smartAccount''] @ map fst shared_members @ [''updatedAt'']))"

definition passkey_of :: "session \<Rightarrow> json option \<Rightarrow> int \<Rightarrow> session" where
  "passkey_of session existing now =
     opt_member ''smartAccountAddress'' (existing_member (map_of session ''smartAccount'') ''smartAccountAddress'')
       @ opt_member ''walletField'' (map_of session ''walletField'') @ opt_member ''smartAccount'' (map_of session ''smartAccount'')
       @ merged_members (map_of session) (existing_member existing)
       @ opt_member ''fundingWalletAddress'' (map_of session ''address'') @ [(''updatedAt'', JNum now)]"

definition migrateWalletSessionToPasskey :: "session \<Rightarrow> int \<times> int \<Rightarrow> page \<Rightarrow> (session option \<times> page) res" where
  "migrateWalletSessionToPasskey session = (\<lambda>(now, now1) page.
     if \<not> json_truth (map_of session ''smartAccount'') \<or> \<not> json_truth (map_of session ''walletField'') then Inr (None, page)
     else let nxt = passkey_of session (loadPasskeySession page) now in
       rmap (\<lambda>page'. (Some nxt, page')) (savePasskeySession nxt now1 page))"

section \<open>The types of sessions\<close>

text \<open>
  The types \<^verbatim>\<open>WalletSession\<close> and \<^verbatim>\<open>PasskeySession\<close>: every member with whether it
  is required and the values it may have. Credentials, proofs and receipts are only known to be objects.
\<close>

type_synonym memberTypes = "(string \<times> bool \<times> (json \<Rightarrow> bool)) list"

definition text_t :: "json \<Rightarrow> bool" where "text_t j = (case j of JStr s \<Rightarrow> True | _ \<Rightarrow> False)"

definition number_t :: "json \<Rightarrow> bool" where "number_t j = (case j of JNum n \<Rightarrow> True | _ \<Rightarrow> False)"

definition bool_t :: "json \<Rightarrow> bool" where "bool_t j = (case j of JBool b \<Rightarrow> True | _ \<Rightarrow> False)"

definition object_t :: "json \<Rightarrow> bool" where "object_t j = (case j of JObj kvs \<Rightarrow> True | _ \<Rightarrow> False)"

definition or_null_t :: "(json \<Rightarrow> bool) \<Rightarrow> json \<Rightarrow> bool" where "or_null_t P j \<longleftrightarrow> j = JNull \<or> P j"

definition policy_t :: "json \<Rightarrow> bool" where
  "policy_t j \<longleftrightarrow> j \<in> set (map (JStr \<circ> policy_key_text)
     [GeneralEligibility, AccreditedInvestor, UsJurisdiction, SanctionsClear, AgeVerified, ProofOfFunds])"

definition lifecycle_t :: "json \<Rightarrow> bool" where
  "lifecycle_t j \<longleftrightarrow> j \<in> set (map JStr [''none'', ''ready'', ''consumed'', ''invalid''])"

definition account_t :: "json \<Rightarrow> bool" where
  "account_t j \<longleftrightarrow> object_t j \<and> (case obj_get j ''smartAccountAddress'' of Some a \<Rightarrow> text_t a | None \<Rightarrow> False)"

definition shared_types :: memberTypes where
  "shared_types = [(''credential'', True, or_null_t object_t), (''proof'', True, or_null_t object_t),
     (''pofProof'', True, or_null_t object_t), (''proofDurationSec'', True, or_null_t number_t), (''policyKey'', True, policy_t),
     (''selectedOfferingId'', True, or_null_t text_t), (''receiptTransactions'', True, object_t),
     (''transferResult'', True, or_null_t object_t), (''replayBlocked'', True, bool_t), (''replayMessage'', True, or_null_t text_t),
     (''proofReceipt'', False, or_null_t object_t), (''settlementProofArchive'', False, or_null_t object_t),
     (''passportActivated'', False, bool_t), (''proofLifecycle'', False, lifecycle_t), (''consumedTxHash'', False, or_null_t text_t)]"

definition wallet_types :: memberTypes where
  "wallet_types = [(''address'', True, text_t), (''walletField'', True, text_t), (''walletModuleId'', False, text_t),
     (''walletModuleName'', False, text_t), (''smartAccount'', False, or_null_t account_t)] @ shared_types
     @ [(''updatedAt'', True, number_t)]"

definition passkey_types :: memberTypes where
  "passkey_types = [(''smartAccountAddress'', True, text_t), (''walletField'', True, text_t), (''smartAccount'', True, account_t)]
     @ shared_types @ [(''fundingWalletAddress'', False, or_null_t text_t), (''updatedAt'', True, number_t)]"

definition has_types :: "memberTypes \<Rightarrow> session \<Rightarrow> bool" where
  "has_types ts s \<longleftrightarrow> list_all (\<lambda>(k, required, P). case map_of s k of None \<Rightarrow> \<not> required | Some v \<Rightarrow> P v) ts"

text \<open>
  A session another release stored may lack members or have \<^verbatim>\<open>null\<close> where this release has not.
\<close>

definition older :: "memberTypes \<Rightarrow> session \<Rightarrow> bool" where
  "older ts s \<longleftrightarrow> list_all (\<lambda>(k, required, P). case map_of s k of None \<Rightarrow> True
     | Some v \<Rightarrow> P v \<or> v = JNull \<and> k \<noteq> ''proofLifecycle'') ts"

section \<open>Lemmas\<close>

lemma map_of_opt_members:
  "distinct ks \<Longrightarrow> map_of (concat (map (\<lambda>k. opt_member k (f k)) ks)) k = (if k \<in> set ks then f k else None)"
  by (induction ks) (auto simp: opt_member_def map_add_def split: option.splits)

lemma map_of_opt_member [simp]: "map_of (opt_member k v @ m) k' = (if k = k' \<and> v \<noteq> None then v else map_of m k')"
  by (cases v) auto

definition shared_default :: "string \<Rightarrow> json option" where
  "shared_default k = the (map_of shared_members k)"

lemma shared_names: "distinct (map fst shared_members)" "map fst shared_types = map fst shared_members"
  by (simp_all add: shared_members_def shared_types_def)

lemma map_of_merged:
  "map_of (merged_members f g) k = (if k \<in> set (map fst shared_members) then merged_member (f k) (g k) (shared_default k) else None)"
proof -
  have "merged_members f g = concat (map (\<lambda>k. opt_member k (merged_member (f k) (g k) (shared_default k))) (map fst shared_members))"
    unfolding merged_members_def map_map comp_def
    by (rule arg_cong[where f = concat], rule map_cong) (auto simp: shared_default_def shared_members_def)
  then show ?thesis using map_of_opt_members[OF shared_names(1)] by simp
qed

definition older_value :: "string \<Rightarrow> (json \<Rightarrow> bool) \<Rightarrow> json option \<Rightarrow> bool" where
  "older_value k P v = (case v of None \<Rightarrow> True | Some v \<Rightarrow> P v \<or> v = JNull \<and> k \<noteq> ''proofLifecycle'')"

lemma older_iff: "older ts s \<longleftrightarrow> (\<forall>(k, required, P) \<in> set ts. older_value k P (map_of s k))"
  by (simp add: older_def older_value_def list_all_iff case_prod_unfold)

lemma defaults_all:
  "list_all (\<lambda>(k, required, P). case shared_default k of Some v \<Rightarrow> P v | None \<Rightarrow> \<not> required \<and> k = ''proofLifecycle'') shared_types"
  unfolding shared_types_def list.pred_inject prod.case
  by (intro conjI) (simp_all add: shared_default_def shared_members_def or_null_t_def policy_t_def object_t_def bool_t_def)

lemma defaults_typed:
  "(k, required, P) \<in> set shared_types \<Longrightarrow>
     (case shared_default k of Some v \<Rightarrow> P v | None \<Rightarrow> \<not> required \<and> k = ''proofLifecycle'')"
  using defaults_all unfolding list_all_iff by fast

lemma nullish_typed:
  "older_value k P a \<Longrightarrow> older_value k P b \<Longrightarrow> older_value k P (nullish a b)"
  by (cases "(a, b)" rule: nullish.cases) (auto simp: older_value_def)

lemma merged_member_typed:
  assumes "(k, required, P) \<in> set shared_types" and "older_value k P a" and "older_value k P b"
  shows "case merged_member a b (shared_default k) of None \<Rightarrow> \<not> required | Some v \<Rightarrow> P v"
proof -
  note n = nullish_typed[OF assms(2,3)]
  show ?thesis
  proof (cases "shared_default k")
    case None
    with defaults_typed[OF assms(1)] n show ?thesis by (auto simp: merged_member_def older_value_def split: option.splits)
  next
    case (Some d)
    with defaults_typed[OF assms(1)] n show ?thesis
      by (cases "(nullish a b, Some d)" rule: nullish.cases) (auto simp: merged_member_def older_value_def split: option.splits)
  qed
qed

lemma merged_typed:
  assumes "\<forall>(k, required, P) \<in> set shared_types. older_value k P (f k) \<and> older_value k P (g k)"
  shows "\<forall>(k, required, P) \<in> set shared_types. case map_of (merged_members f g) k of None \<Rightarrow> \<not> required | Some v \<Rightarrow> P v"
proof clarify
  fix k required P
  assume m: "(k, required, P) \<in> set shared_types"
  then have "k \<in> set (map fst shared_members)" unfolding shared_names(2)[symmetric] by force
  then show "case map_of (merged_members f g) k of None \<Rightarrow> \<not> required | Some v \<Rightarrow> P v"
    using merged_member_typed[OF m, of "f k" "g k"] assms m by (simp add: map_of_merged) blast
qed

definition is_shared :: "string \<Rightarrow> bool" where
  "is_shared k \<longleftrightarrow> k \<in> set (map fst shared_members)"

lemma own_names [simp]:
  "\<not> is_shared ''address''" "\<not> is_shared ''walletField''" "\<not> is_shared ''smartAccount''" "\<not> is_shared ''updatedAt''"
  "\<not> is_shared ''smartAccountAddress''" "\<not> is_shared ''fundingWalletAddress''" "\<not> is_shared ''walletModuleId''"
  "\<not> is_shared ''walletModuleName''"
  by (simp_all add: is_shared_def shared_members_def)

definition merged_at :: "(string \<Rightarrow> json option) \<Rightarrow> (string \<Rightarrow> json option) \<Rightarrow> string \<Rightarrow> json option" where
  "merged_at f g k = (if is_shared k then merged_member (f k) (g k) (shared_default k) else None)"

lemma map_of_merged_append:
  "map_of (merged_members f g @ m) k = (case merged_at f g k of None \<Rightarrow> map_of m k | v \<Rightarrow> v)"
  by (auto simp: map_of_append map_add_def map_of_merged merged_at_def is_shared_def split: option.split)

lemma map_of_linked:
  "map_of (linked_session a p e now) k = (if k = ''address'' then Some (JStr a)
     else if k = ''walletField'' \<or> k = ''smartAccount'' then obj_get p k
     else if k = ''updatedAt'' then Some (JNum now) else merged_at (obj_get p) (existing_member e) k)"
  by (simp add: linked_session_def map_of_merged_append merged_at_def del: map_of_append split: option.split)

lemma map_of_passkey:
  "map_of (passkey_of session e now) k =
    (if k = ''smartAccountAddress'' then existing_member (map_of session ''smartAccount'') ''smartAccountAddress''
     else if k = ''walletField'' \<or> k = ''smartAccount'' then map_of session k
     else if k = ''fundingWalletAddress'' then map_of session ''address''
     else if k = ''updatedAt'' then Some (JNum now) else merged_at (map_of session) (existing_member e) k)"
  by (simp add: passkey_of_def map_of_merged_append merged_at_def del: map_of_append split: option.split)

lemma shared_names_differ:
  assumes "is_shared k"
  shows "k \<noteq> ''address''" "k \<noteq> ''walletField''" "k \<noteq> ''smartAccount''" "k \<noteq> ''updatedAt''"
    "k \<noteq> ''smartAccountAddress''" "k \<noteq> ''fundingWalletAddress''"
  using assms own_names by blast+

lemma linked_shared: "is_shared k \<Longrightarrow> map_of (linked_session a p e now) k = merged_at (obj_get p) (existing_member e) k"
  by (simp only: map_of_linked shared_names_differ if_False simp_thms)

lemma passkey_shared: "is_shared k \<Longrightarrow> map_of (passkey_of s e now) k = merged_at (map_of s) (existing_member e) k"
  by (simp only: map_of_passkey shared_names_differ if_False simp_thms)

lemma has_types_simps [simp]:
  "has_types [] s" "has_types (ts @ us) s \<longleftrightarrow> has_types ts s \<and> has_types us s"
  "has_types ((k, required, P) # ts) s \<longleftrightarrow> (case map_of s k of None \<Rightarrow> \<not> required | Some v \<Rightarrow> P v) \<and> has_types ts s"
  by (simp_all add: has_types_def)

lemma older_simps [simp]:
  "older [] s" "older (ts @ us) s \<longleftrightarrow> older ts s \<and> older us s"
  "older ((k, required, P) # ts) s \<longleftrightarrow> older_value k P (map_of s k) \<and> older ts s"
  by (simp_all add: older_def older_value_def)

lemma shared_has_types:
  assumes "\<forall>(k, required, P) \<in> set shared_types. older_value k P (f k) \<and> older_value k P (g k)"
    and "\<And>k. is_shared k \<Longrightarrow> map_of s k = merged_at f g k"
  shows "has_types shared_types s"
  unfolding has_types_def list_all_iff
proof clarify
  fix k required P
  assume m: "(k, required, P) \<in> set shared_types"
  then have k: "is_shared k" unfolding is_shared_def shared_names(2)[symmetric] by force
  show "case map_of s k of None \<Rightarrow> \<not> required | Some v \<Rightarrow> P v"
    using merged_member_typed[OF m, of "f k" "g k"] assms(1) m k assms(2)[OF k] by (simp add: merged_at_def) blast
qed

lemma older_existing: "\<forall>e. ex1 = Some e \<longrightarrow> older ts (spread_members e) \<Longrightarrow> (k, required, P) \<in> set ts \<Longrightarrow>
    older_value k P (existing_member ex1 k)"
  by (cases ex1; cases "the ex1") (auto simp: existing_member_def older_value_def older_iff spread_members_def)

lemma store_json_back:
  assumes "store_json key j page = Inr page'" and "json_wf j"
  shows "stored_json key page' = Some j" and "k \<noteq> key \<Longrightarrow> stored_json k page' = stored_json k page"
proof -
  have p: "page' = setItem key (stringify [] [] j) page" "pa_storage page \<noteq> None"
    using assms(1) by (auto simp: store_json_def split: if_splits)
  have parse: "JSON_parse (stringify [] [] j) = Some j" by (rule JSON_parse_stringify[OF assms(2)]) simp_all
  then have "stringify [] [] j \<noteq> []" by (auto simp: JSON_parse_def)
  with parse p show "stored_json key page' = Some j" by (simp add: stored_json_def getItem_setItem)
  show "stored_json k page' = stored_json k page" if "k \<noteq> key" using p that by (simp add: stored_json_def getItem_setItem)
qed

definition wf_member :: "json option \<Rightarrow> bool" where
  "wf_member v = (case v of None \<Rightarrow> True | Some j \<Rightarrow> json_wf j)"

lemma in_opt_member: "(k, j) \<in> set (opt_member k' v) \<longleftrightarrow> k = k' \<and> v = Some j"
  by (auto simp: opt_member_def split: option.splits)

lemma wf_opts:
  assumes "distinct (map fst xs)" and "\<forall>(k, v) \<in> set xs. wf_member v"
  shows "json_wf (JObj (concat (map (\<lambda>(k, v). opt_member k v) xs)))"
proof -
  have "distinct (map fst (concat (map (\<lambda>(k, v). opt_member k v) xs)))" using assms(1)
  proof (induction xs)
    case (Cons kv xs)
    obtain k v where kv: "kv = (k, v)" by (cases kv)
    have "k \<notin> set (map fst (concat (map (\<lambda>(k, v). opt_member k v) xs)))" using Cons.prems kv by (force simp: in_opt_member)
    with Cons kv show ?case by (cases v) auto
  qed simp
  moreover have "list_all (\<lambda>(k, v). json_wf v) (concat (map (\<lambda>(k, v). opt_member k v) xs))" using assms(2)
    by (auto simp: list_all_iff opt_member_def wf_member_def split: option.splits)
  ultimately show ?thesis by simp
qed

lemma wf_get [simp]: "json_wf j \<Longrightarrow> wf_member (obj_get j k)"
  by (cases j) (auto simp: wf_member_def list_all_iff dest!: map_of_SomeD split: option.splits)

lemma wf_merged [simp]:
  assumes "wf_member a" and "wf_member b" and "(k, d) \<in> set shared_members"
  shows "wf_member (merged_member a b d)"
proof -
  have "wf_member d" using assms(3) by (auto simp: shared_members_def wf_member_def)
  moreover have n: "wf_member x \<Longrightarrow> wf_member y \<Longrightarrow> wf_member (nullish x y)" for x y
    by (cases "(x, y)" rule: nullish.cases) (auto simp: wf_member_def)
  ultimately show ?thesis using assms(1,2) by (auto simp: merged_member_def split: option.split)
qed

lemma stored_wf: "stored_json key page = Some j \<Longrightarrow> json_wf j"
  by (auto simp: stored_json_def JSON_parse_wf split: option.splits if_splits)

lemma load_with_wf: "load_with needed key page = Some j \<Longrightarrow> json_wf j \<and> (\<forall>k \<in> set needed. json_truth (obj_get j k))"
  by (auto simp: load_with_def list_all_iff stored_wf split: option.splits if_splits)

lemma readStore_wf: "json_wf (readStore page)"
  by (auto simp: readStore_def stored_wf split: option.split)

lemma loaded_session_wf: "loadWalletSession a page = Inr existing \<Longrightarrow> wf_member existing"
  using readStore_wf[of page] wf_get[of "readStore page" a]
  by (auto simp: loadWalletSession_def entry_get_def rmap_Inr_iff wf_member_def split: if_splits)

lemma existing_wf: "wf_member e \<Longrightarrow> wf_member (existing_member e k)"
  using wf_get[of "the e" k] by (cases e) (auto simp: existing_member_def wf_member_def)

lemma truthy_object: "json_truth (obj_get j k) \<Longrightarrow> \<exists>kvs. j = JObj kvs"
  by (cases j) auto

definition shared_values :: "(string \<Rightarrow> json option) \<Rightarrow> (string \<Rightarrow> json option) \<Rightarrow> (string \<times> json option) list" where
  "shared_values f g = map (\<lambda>(k, d). (k, merged_member (f k) (g k) d)) shared_members"

lemma shared_values_facts:
  "map fst (shared_values f g) = map fst shared_members"
  "merged_members f g = concat (map (\<lambda>(k, v). opt_member k v) (shared_values f g))"
  "(\<And>k. wf_member (f k)) \<Longrightarrow> (\<And>k. wf_member (g k)) \<Longrightarrow> \<forall>(k, v) \<in> set (shared_values f g). wf_member v"
  by (auto simp: shared_values_def merged_members_def comp_def case_prod_unfold wf_merged
      intro!: wf_merged)

lemma linked_wf:
  assumes "json_wf p" and "wf_member e"
  shows "json_wf (JObj (linked_session a p e now))"
proof -
  let ?xs = "[(''address'', Some (JStr a)), (''walletField'', obj_get p ''walletField''), (''smartAccount'', obj_get p ''smartAccount'')]
    @ shared_values (obj_get p) (existing_member e) @ [(''updatedAt'', Some (JNum now))]"
  have eq: "linked_session a p e now = concat (map (\<lambda>(k, v). opt_member k v) ?xs)"
    by (simp add: linked_session_def shared_values_facts(2))
  have "map fst ?xs = [''address'', ''walletField'', ''smartAccount''] @ map fst shared_members @ [''updatedAt'']"
    by (simp add: shared_values_facts(1))
  then have "distinct (map fst ?xs)" by (simp only:) (simp add: shared_members_def)
  moreover have "\<forall>(k, v) \<in> set ?xs. wf_member v"
    using shared_values_facts(3)[of "obj_get p" "existing_member e"] assms existing_wf[OF assms(2)] wf_get[OF assms(1)]
    by (auto simp: wf_member_def[of "Some (JStr a)"] wf_member_def[of "Some (JNum now)"])
  ultimately show ?thesis unfolding eq by (rule wf_opts)
qed

lemma passkey_wf:
  assumes "json_wf (JObj s)" and "wf_member e"
  shows "json_wf (JObj (passkey_of s e now))"
proof -
  have w: "wf_member (map_of s k)" for k using wf_get[OF assms(1), of k] by simp
  let ?xs = "[(''smartAccountAddress'', existing_member (map_of s ''smartAccount'') ''smartAccountAddress''),
      (''walletField'', map_of s ''walletField''), (''smartAccount'', map_of s ''smartAccount'')]
    @ shared_values (map_of s) (existing_member e) @ [(''fundingWalletAddress'', map_of s ''address''), (''updatedAt'', Some (JNum now))]"
  have eq: "passkey_of s e now = concat (map (\<lambda>(k, v). opt_member k v) ?xs)"
    by (simp add: passkey_of_def shared_values_facts(2))
  have "map fst ?xs = [''smartAccountAddress'', ''walletField'', ''smartAccount''] @ map fst shared_members
      @ [''fundingWalletAddress'', ''updatedAt'']"
    by (simp add: shared_values_facts(1))
  then have "distinct (map fst ?xs)" by (simp only:) (simp add: shared_members_def)
  moreover have "\<forall>(k, v) \<in> set ?xs. wf_member v"
    using shared_values_facts(3)[of "map_of s" "existing_member e"] w existing_wf[OF assms(2)] existing_wf[OF w]
    by (auto simp: wf_member_def[of "Some (JNum now)"])
  ultimately show ?thesis unfolding eq by (rule wf_opts)
qed

lemma load_with_stored:
  assumes "store_json key (JObj m) page = Inr page'" and "json_wf (JObj m)" and "\<forall>k \<in> set needed. json_truth (map_of m k)"
  shows "load_with needed key page' = Some (JObj m)"
  using store_json_back(1)[OF assms(1,2)] assms(3) by (simp add: load_with_def list_all_iff)

lemma merged_keeps: "v \<noteq> JNull \<Longrightarrow> merged_member (Some v) b d = Some v"
  by (cases v) (simp_all add: merged_member_def split: option.split)

section \<open>Properties\<close>

text \<open>
  C15: The session a connected wallet gets has every member its type requires, each with a value of
  its type, whatever members the stored passkey session and the wallet's own one lack.
\<close>

theorem linked_typed:
  assumes "linkPasskeySessionToWallet fundingAddress clock page = Inr (Some s, page')"
    and "loadPasskeySession page = Some passkey" and "older passkey_types (spread_members passkey)"
    and "loadWalletSession fundingAddress page = Inr existing" and "\<forall>e. existing = Some e \<longrightarrow> older wallet_types (spread_members e)"
  shows "has_types wallet_types s"
proof -
  have truth: "json_truth (obj_get passkey ''walletField'')" "json_truth (obj_get passkey ''smartAccount'')"
    using assms(2) by (auto simp: loadPasskeySession_def load_with_def split: option.splits if_splits)
  then obtain p where p: "passkey = JObj p" by (cases passkey) auto
  obtain now now1 now2 where clock: "clock = (now, now1, now2)" by (cases clock)
  have s: "s = linked_session fundingAddress passkey existing now"
    using assms(1,2,4) by (auto simp: linkPasskeySessionToWallet_def clock Let_def rbind_Inr_iff rmap_Inr_iff)
  have old: "older shared_types p" "older_value ''walletField'' text_t (map_of p ''walletField'')"
    "older_value ''smartAccount'' account_t (map_of p ''smartAccount'')"
    using assms(3) by (simp_all add: passkey_types_def p spread_members_def)
  have shared: "has_types shared_types s"
  proof (rule shared_has_types[where f = "obj_get passkey" and g = "existing_member existing"])
    show "\<forall>(k, required, P) \<in> set shared_types. older_value k P (obj_get passkey k) \<and> older_value k P (existing_member existing k)"
    proof clarify
      fix k required P
      assume m: "(k, required, P) \<in> set shared_types"
      have "\<forall>e. existing = Some e \<longrightarrow> older shared_types (spread_members e)"
        using assms(5) by (simp add: wallet_types_def)
      from older_existing[OF this m] old(1) m
      show "older_value k P (obj_get passkey k) \<and> older_value k P (existing_member existing k)"
        unfolding older_iff p obj_get.simps by fast
    qed
    show "map_of s k = merged_at (obj_get passkey) (existing_member existing) k" if "is_shared k" for k
      unfolding s by (rule linked_shared[OF that])
  qed
  have own: "case map_of p ''walletField'' of None \<Rightarrow> False | Some v \<Rightarrow> text_t v"
    "case map_of p ''smartAccount'' of None \<Rightarrow> True | Some v \<Rightarrow> or_null_t account_t v"
    using truth old(2,3) by (auto simp: p older_value_def or_null_t_def split: option.splits)
  have names: "map_of s ''address'' = Some (JStr fundingAddress)" "map_of s ''walletField'' = map_of p ''walletField''"
    "map_of s ''smartAccount'' = map_of p ''smartAccount''" "map_of s ''walletModuleId'' = None" "map_of s ''walletModuleName'' = None"
    "map_of s ''updatedAt'' = Some (JNum now)"
    by (simp_all add: s map_of_linked merged_at_def p)
  show ?thesis unfolding wallet_types_def has_types_simps names using own shared
    by (simp add: text_t_def number_t_def split: option.splits)
qed

text \<open>
  A wallet session that is saved is loaded as it was, with the time of saving, and the sessions
  of other wallets stay as they were.
\<close>

theorem wallet_session_back:
  assumes "saveWalletSession session now page = Inr page'" and "readStore page = JObj store" and "json_wf (JObj session)"
    and "map_of session ''address'' = Some (JStr a)"
  shows "loadWalletSession a page' = Inr (Some (JObj (put ''updatedAt'' (JNum now) session)))
    \<and> (\<forall>b. b \<noteq> a \<longrightarrow> loadWalletSession b page' = loadWalletSession b page)"
proof -
  let ?store = "JObj (put a (JObj (put ''updatedAt'' (JNum now) session)) store)"
  have inner: "json_wf (JObj (put ''updatedAt'' (JNum now) session))" using assms(3) by (rule put_wf) simp
  have outer: "json_wf (JObj store)" using readStore_wf[of page] assms(2) by simp
  have "json_wf ?store" by (rule put_wf[OF outer inner])
  moreover have "store_json STORAGE_KEY ?store page = Inr page'"
    using assms(1,2,4) by (simp add: saveWalletSession_def writeStore_def set_member_def member_String_def)
  ultimately have "readStore page' = ?store" using store_json_back(1) by (simp add: readStore_def)
  then show ?thesis using assms(2) by (simp add: loadWalletSession_def entry_get_def map_of_put)
qed

text \<open>
  C16: Connecting a funding wallet and disconnecting it again leaves a passkey session that has every
  member of the old one that was not \<^verbatim>\<open>null\<close>, and the address of the wallet.
\<close>

theorem connect_disconnect:
  assumes p: "loadPasskeySession page = Some (JObj p)"
    and own: "existing_member (map_of p ''smartAccount'') ''smartAccountAddress'' = map_of p ''smartAccountAddress''"
    and link: "linkPasskeySessionToWallet a moments page = Inr (Some s, page1)"
    and disconnect: "migrateWalletSessionToPasskey s moments1 page1 = Inr (Some q, page2)"
  shows "\<exists>q1. loadPasskeySession page2 = Some (JObj q1) \<and> map_of q1 ''fundingWalletAddress'' = Some (JStr a)
    \<and> (\<forall>k v. (is_shared k \<or> k \<in> {''smartAccountAddress'', ''walletField'', ''smartAccount''}) \<and> map_of p k = Some v \<and> v \<noteq> JNull
          \<longrightarrow> map_of q1 k = Some v)"
proof -
  obtain now now1 now2 where m: "moments = (now, now1, now2)" by (cases moments)
  obtain then1 then2 where m1: "moments1 = (then1, then2)" by (cases moments1)
  note wf = load_with_wf[OF p[unfolded loadPasskeySession_def]]
  obtain existing where e: "loadWalletSession a page = Inr existing" and s: "s = linked_session a (JObj p) existing now"
    using link p by (auto simp: linkPasskeySessionToWallet_def m Let_def rbind_Inr_iff rmap_Inr_iff)
  have s_wf: "json_wf (JObj s)" unfolding s using wf loaded_session_wf[OF e] by (intro linked_wf) simp_all
  let ?stored = "loadPasskeySession page1"
  have stored: "wf_member ?stored" using load_with_wf by (auto simp: wf_member_def loadPasskeySession_def split: option.split)
  have q: "q = passkey_of s ?stored then1" and saved: "savePasskeySession q then2 page1 = Inr page2"
    using disconnect by (auto simp: migrateWalletSessionToPasskey_def m1 Let_def rmap_Inr_iff split: if_splits)
  let ?q1 = "put ''updatedAt'' (JNum then2) q"
  have q1_wf: "json_wf (JObj ?q1)" unfolding q using passkey_wf[OF s_wf stored] by (rule put_wf) simp
  have s_own: "map_of s ''walletField'' = map_of p ''walletField''" "map_of s ''smartAccount'' = map_of p ''smartAccount''"
    "map_of s ''address'' = Some (JStr a)"
    by (simp_all add: s map_of_linked)
  have q_own: "map_of ?q1 ''smartAccountAddress'' = map_of p ''smartAccountAddress''" "map_of ?q1 ''walletField'' = map_of p ''walletField''"
    "map_of ?q1 ''smartAccount'' = map_of p ''smartAccount''" "map_of ?q1 ''fundingWalletAddress'' = Some (JStr a)"
    by (simp_all add: map_of_put q map_of_passkey s_own own)
  have "loadPasskeySession page2 = Some (JObj ?q1)" unfolding loadPasskeySession_def
    by (rule load_with_stored[OF saved[unfolded savePasskeySession_def] q1_wf]) (use wf q_own in simp)
  moreover have "map_of ?q1 k = Some v" if "is_shared k" "map_of p k = Some v" "v \<noteq> JNull" for k v
  proof -
    have "map_of s k = Some v" using that by (simp add: s linked_shared merged_at_def merged_keeps)
    then show ?thesis using that shared_names_differ(4)[OF that(1)]
      by (simp add: map_of_put q passkey_shared merged_at_def merged_keeps)
  qed
  ultimately show ?thesis using q_own by (intro exI[of _ ?q1]) auto
qed

section \<open>A demonstration\<close>

definition demo_passkey :: session where
  "demo_passkey = [(''smartAccountAddress'', JStr ''C''), (''walletField'', JStr ''5''),
     (''smartAccount'', JObj [(''smartAccountAddress'', JStr ''C'')]), (''replayBlocked'', JBool True), (''credential'', JNull)]"

definition session_page :: page where
  "session_page = setItem PASSKEY_SESSION_KEY (stringify [] [] (JObj demo_passkey)) \<lparr>pa_storage = Some [], pa_provers = []\<rparr>"

lemma store_json_runs:
  assumes "pa_storage page \<noteq> None"
  shows "\<exists>page'. store_json key j page = Inr page' \<and> pa_storage page' \<noteq> None"
proof -
  have "pa_storage (setItem key (stringify [] [] j) page) \<noteq> None" using assms by (simp only: pa_storage_setItem simp_thms)
  with assms show ?thesis by (simp only: store_json_def if_False) blast
qed

lemma saveWalletSession_runs:
  "pa_storage page \<noteq> None \<Longrightarrow> readStore page = JObj m \<Longrightarrow>
     \<exists>page'. saveWalletSession session now page = Inr page' \<and> pa_storage page' \<noteq> None"
  using store_json_runs[of page STORAGE_KEY]
  by (simp only: saveWalletSession_def writeStore_def set_member_def json.case rbind_simps not_False_eq_True simp_thms)

lemma session_page_facts:
  "pa_storage session_page \<noteq> None" "loadPasskeySession session_page = Some (JObj demo_passkey)"
  "readStore session_page = JObj []" "loadWalletSession ''G'' session_page = Inr None"
proof -
  have stored: "store_json PASSKEY_SESSION_KEY (JObj demo_passkey) \<lparr>pa_storage = Some [], pa_provers = []\<rparr> = Inr session_page"
    by (simp add: store_json_def session_page_def)
  show "pa_storage session_page \<noteq> None" by (simp add: session_page_def)
  show "loadPasskeySession session_page = Some (JObj demo_passkey)" unfolding loadPasskeySession_def
    by (rule load_with_stored[OF stored]) (simp_all add: demo_passkey_def)
  show r: "readStore session_page = JObj []"
    by (simp add: readStore_def stored_json_def session_page_def getItem_setItem STORAGE_KEY_def PASSKEY_SESSION_KEY_def)
      (simp add: getItem_def)
  show "loadWalletSession ''G'' session_page = Inr None" by (simp add: loadWalletSession_def entry_get_def r)
qed

lemma session_page_linked:
  obtains page1 where "linkPasskeySessionToWallet ''G'' (1, 2, 3) session_page
      = Inr (Some (linked_session ''G'' (JObj demo_passkey) None 1), page1)" "pa_storage page1 \<noteq> None"
proof -
  let ?s = "linked_session ''G'' (JObj demo_passkey) None 1"
  obtain p1 where p1: "saveWalletSession ?s 2 session_page = Inr p1" "pa_storage p1 \<noteq> None"
    using saveWalletSession_runs[OF session_page_facts(1,3)] by blast
  obtain p2 where p2: "savePasskeySession (put ''fundingWalletAddress'' (JStr ''G'') demo_passkey) 3 p1 = Inr p2" "pa_storage p2 \<noteq> None"
    using store_json_runs[OF p1(2)] unfolding savePasskeySession_def by blast
  show ?thesis by (rule that[of p2]) (simp_all add: linkPasskeySessionToWallet_def session_page_facts p1 p2 Let_def spread_members_def)
qed

theorem linked_typed_witness:
  "\<exists>s page1. linkPasskeySessionToWallet ''G'' (1, 2, 3) session_page = Inr (Some s, page1) \<and> has_types wallet_types s"
proof -
  obtain page1 where run: "linkPasskeySessionToWallet ''G'' (1, 2, 3) session_page
      = Inr (Some (linked_session ''G'' (JObj demo_passkey) None 1), page1)" by (rule session_page_linked)
  have "older passkey_types (spread_members (JObj demo_passkey))"
    by (simp add: passkey_types_def shared_types_def spread_members_def demo_passkey_def older_value_def text_t_def account_t_def
        object_t_def or_null_t_def bool_t_def)
  from linked_typed[OF run session_page_facts(2) this session_page_facts(4)] run show ?thesis by blast
qed

theorem wallet_session_back_witness:
  "\<exists>page1. saveWalletSession [(''address'', JStr ''G'')] 7 session_page = Inr page1
    \<and> loadWalletSession ''G'' page1 = Inr (Some (JObj [(''address'', JStr ''G''), (''updatedAt'', JNum 7)]))"
proof -
  obtain page1 where run: "saveWalletSession [(''address'', JStr ''G'')] 7 session_page = Inr page1"
    using saveWalletSession_runs[OF session_page_facts(1,3)] by blast
  from wallet_session_back[OF run session_page_facts(3)] run show ?thesis by simp
qed

theorem connect_disconnect_witness:
  "\<exists>s page1 q page2 q1. linkPasskeySessionToWallet ''G'' (1, 2, 3) session_page = Inr (Some s, page1)
    \<and> migrateWalletSessionToPasskey s (4, 5) page1 = Inr (Some q, page2) \<and> loadPasskeySession page2 = Some (JObj q1)
    \<and> map_of q1 ''replayBlocked'' = Some (JBool True) \<and> map_of q1 ''fundingWalletAddress'' = Some (JStr ''G'')"
proof -
  let ?s = "linked_session ''G'' (JObj demo_passkey) None 1"
  obtain page1 where run: "linkPasskeySessionToWallet ''G'' (1, 2, 3) session_page = Inr (Some ?s, page1)"
    and storage: "pa_storage page1 \<noteq> None" by (rule session_page_linked)
  let ?q = "passkey_of ?s (loadPasskeySession page1) 4"
  have truth: "json_truth (map_of ?s ''smartAccount'')" "json_truth (map_of ?s ''walletField'')"
    by (simp_all add: map_of_linked demo_passkey_def)
  obtain page2 where saved: "savePasskeySession ?q 5 page1 = Inr page2"
    using store_json_runs[OF storage] unfolding savePasskeySession_def by blast
  have returned: "migrateWalletSessionToPasskey ?s (4, 5) page1 = Inr (Some ?q, page2)"
    by (simp add: migrateWalletSessionToPasskey_def Let_def truth saved)
  have own: "existing_member (map_of demo_passkey ''smartAccount'') ''smartAccountAddress'' = map_of demo_passkey ''smartAccountAddress''"
    by (simp add: demo_passkey_def existing_member_def)
  have shared: "is_shared ''replayBlocked''" "map_of demo_passkey ''replayBlocked'' = Some (JBool True)"
    by (simp_all add: is_shared_def shared_members_def demo_passkey_def)
  from connect_disconnect[OF session_page_facts(2) own run returned]
  obtain q1 where q1: "loadPasskeySession page2 = Some (JObj q1)" "map_of q1 ''fundingWalletAddress'' = Some (JStr ''G'')"
    and kept: "\<forall>k v. (is_shared k \<or> k \<in> {''smartAccountAddress'', ''walletField'', ''smartAccount''})
      \<and> map_of demo_passkey k = Some v \<and> v \<noteq> JNull \<longrightarrow> map_of q1 k = Some v"
    by (elim exE conjE)
  have "map_of q1 ''replayBlocked'' = Some (JBool True)"
    by (rule kept[THEN spec, THEN spec, THEN mp]) (simp only: shared json.distinct simp_thms)
  with run returned q1 show ?thesis by (intro exI conjI)
qed

end
