(* ===== verification/Ceremony.thy ===== *)
theory Ceremony
  imports JsText
begin

text \<open>
  Passkey prompts (\<^verbatim>\<open>lib/passkeyCeremony.ts\<close>, \<^verbatim>\<open>lib/passkeyUserHandle.ts\<close>).
  Prompts are serialised by a chain of promises. The state holds the promise of every ceremony with the
  promise it waits for; a step is one uninterrupted piece of code: a request, the beginning of a ceremony
  when its promise has settled, its end, and subscribing. Shown: one prompt at a time, in the order of the
  requests, what the listeners are told, and that every ceremony gets its turn, however the earlier ones
  end. A listener and the ceremony itself may throw.
\<close>

section \<open>The chain\<close>

datatype 'a run = Waiting | Running | Fulfilled 'a | Rejected js_error

fun settled_run :: "'a run \<Rightarrow> bool" where
  "settled_run (Fulfilled v) = True"
| "settled_run (Rejected e) = True"
| "settled_run _ = False"

record ('a, 'l) ceremonies =
  ce_runs :: "'a run list"
  ce_after :: "nat option list"
  ce_chain :: "nat option"
  ce_busyCount :: nat
  ce_listeners :: "'l list"
  ce_told :: "('l \<times> bool) list"

text \<open>
  The module's first state. A promise of the chain is \<^term>\<open>None\<close> for
  \<^verbatim>\<open>Promise.resolve()\<close> and \<^term>\<open>Some i\<close> for the run \<^term>\<open>i\<close> with its
  rejection caught. \<^term>\<open>ce_told\<close> records the calls of listeners.
\<close>

definition no_ceremony :: "('a, 'l) ceremonies" where
  "no_ceremony = \<lparr>ce_runs = [], ce_after = [], ce_chain = None, ce_busyCount = 0, ce_listeners = [], ce_told = []\<rparr>"

fun tell :: "('l \<Rightarrow> bool \<Rightarrow> js_error option) \<Rightarrow> bool \<Rightarrow> 'l list \<Rightarrow> ('l \<times> bool) list \<times> js_error option" where
  "tell L busy [] = ([], None)"
| "tell L busy (l # ls) = (case L l busy of Some e \<Rightarrow> ([(l, busy)], Some e)
     | None \<Rightarrow> (case tell L busy ls of (told, e) \<Rightarrow> ((l, busy) # told, e)))"

definition setBusy :: "('l \<Rightarrow> bool \<Rightarrow> js_error option) \<Rightarrow> bool \<Rightarrow> ('a, 'l) ceremonies \<Rightarrow> ('a, 'l) ceremonies \<times> js_error option" where
  "setBusy L nxt s = (let count = (if nxt then ce_busyCount s + 1 else ce_busyCount s - 1) in
     case tell L (0 < count) (ce_listeners s) of (told, e) \<Rightarrow>
       (s\<lparr>ce_busyCount := count, ce_told := ce_told s @ told\<rparr>, e))"

definition isPasskeyCeremonyBusy :: "('a, 'l) ceremonies \<Rightarrow> bool" where
  "isPasskeyCeremonyBusy s \<longleftrightarrow> 0 < ce_busyCount s"

definition subscribePasskeyBusy :: "'l \<Rightarrow> ('a, 'l) ceremonies \<Rightarrow> ('a, 'l) ceremonies" where
  "subscribePasskeyBusy l s = s\<lparr>ce_listeners := (if l \<in> set (ce_listeners s) then ce_listeners s else ce_listeners s @ [l]),
     ce_told := ce_told s @ [(l, 0 < ce_busyCount s)]\<rparr>"

definition unsubscribe :: "'l \<Rightarrow> ('a, 'l) ceremonies \<Rightarrow> ('a, 'l) ceremonies" where
  "unsubscribe l s = s\<lparr>ce_listeners := filter (\<lambda>k. k \<noteq> l) (ce_listeners s)\<rparr>"

definition runPasskeyCeremony :: "('a, 'l) ceremonies \<Rightarrow> ('a, 'l) ceremonies" where
  "runPasskeyCeremony s = s\<lparr>ce_runs := ce_runs s @ [Waiting], ce_after := ce_after s @ [ce_chain s],
     ce_chain := Some (length (ce_runs s))\<rparr>"

definition chain_resolved :: "('a, 'l) ceremonies \<Rightarrow> nat option \<Rightarrow> bool" where
  "chain_resolved s p = (case p of None \<Rightarrow> True | Some i \<Rightarrow> settled_run (ce_runs s ! i))"

definition ready :: "('a, 'l) ceremonies \<Rightarrow> nat \<Rightarrow> bool" where
  "ready s i \<longleftrightarrow> i < length (ce_runs s) \<and> ce_runs s ! i = Waiting \<and> chain_resolved s (ce_after s ! i)"

definition prompting :: "('a, 'l) ceremonies \<Rightarrow> nat \<Rightarrow> bool" where
  "prompting s i \<longleftrightarrow> i < length (ce_runs s) \<and> ce_runs s ! i = Running"

definition set_run :: "nat \<Rightarrow> 'a run \<Rightarrow> ('a, 'l) ceremonies \<Rightarrow> ('a, 'l) ceremonies" where
  "set_run i r s = s\<lparr>ce_runs := (ce_runs s)[i := r]\<rparr>"

text \<open>What throws before the ceremony or in its \<^verbatim>\<open>finally\<close> is the result of the run.\<close>

definition begin_run :: "('l \<Rightarrow> bool \<Rightarrow> js_error option) \<Rightarrow> nat \<Rightarrow> ('a, 'l) ceremonies \<Rightarrow> ('a, 'l) ceremonies" where
  "begin_run L i s = (case setBusy L True s of
     (s', Some e) \<Rightarrow> set_run i (Rejected e) s' | (s', None) \<Rightarrow> set_run i Running s')"

definition end_run :: "('l \<Rightarrow> bool \<Rightarrow> js_error option) \<Rightarrow> nat \<Rightarrow> 'a run \<Rightarrow> ('a, 'l) ceremonies \<Rightarrow> ('a, 'l) ceremonies" where
  "end_run L i r s = (case setBusy L False s of
     (s', Some e) \<Rightarrow> set_run i (Rejected e) s' | (s', None) \<Rightarrow> set_run i r s')"

inductive ceremony_step :: "('l \<Rightarrow> bool \<Rightarrow> js_error option) \<Rightarrow> ('a, 'l) ceremonies \<Rightarrow> ('a, 'l) ceremonies \<Rightarrow> bool"
  for L where
  requested: "ceremony_step L s (runPasskeyCeremony s)"
| begun: "ready s i \<Longrightarrow> ceremony_step L s (begin_run L i s)"
| ended: "prompting s i \<Longrightarrow> settled_run r \<Longrightarrow> ceremony_step L s (end_run L i r s)"
| subscribed: "ceremony_step L s (subscribePasskeyBusy l s)"
| unsubscribed: "ceremony_step L s (unsubscribe l s)"

inductive ceremony_reached :: "('l \<Rightarrow> bool \<Rightarrow> js_error option) \<Rightarrow> ('a, 'l) ceremonies \<Rightarrow> bool" for L where
  none_yet: "ceremony_reached L no_ceremony"
| one_more: "ceremony_reached L s \<Longrightarrow> ceremony_step L s s' \<Longrightarrow> ceremony_reached L s'"

section \<open>Invariants\<close>

lemma setBusy_frame:
  assumes "setBusy L b s = (s', e)"
  shows "ce_runs s' = ce_runs s" "ce_after s' = ce_after s" "ce_chain s' = ce_chain s" "ce_listeners s' = ce_listeners s"
    "ce_busyCount s' = (if b then ce_busyCount s + 1 else ce_busyCount s - 1)"
  using assms by (auto simp: setBusy_def Let_def split: prod.splits if_splits)

lemma set_run_sel [simp]:
  "ce_runs (set_run i r s) = (ce_runs s)[i := r]" "ce_after (set_run i r s) = ce_after s" "ce_chain (set_run i r s) = ce_chain s"
  "ce_busyCount (set_run i r s) = ce_busyCount s" "ce_listeners (set_run i r s) = ce_listeners s" "ce_told (set_run i r s) = ce_told s"
  by (simp_all add: set_run_def)

lemma begin_run_cases:
  obtains r where "ce_runs (begin_run L i s) = (ce_runs s)[i := r]" "r = Running \<or> settled_run r"
    "ce_after (begin_run L i s) = ce_after s" "ce_chain (begin_run L i s) = ce_chain s"
proof -
  obtain s' e where b: "setBusy L True s = (s', e)" by fastforce
  note f = setBusy_frame[OF b]
  show ?thesis
  proof (cases e)
    case None
    with b f show ?thesis by (intro that[of Running]) (simp_all add: begin_run_def)
  next
    case (Some x)
    with b f show ?thesis by (intro that[of "Rejected x"]) (simp_all add: begin_run_def)
  qed
qed

lemma end_run_cases:
  assumes "settled_run r0"
  obtains r where "ce_runs (end_run L i r0 s) = (ce_runs s)[i := r]" "settled_run r"
    "ce_after (end_run L i r0 s) = ce_after s" "ce_chain (end_run L i r0 s) = ce_chain s"
proof -
  obtain s' e where b: "setBusy L False s = (s', e)" by fastforce
  note f = setBusy_frame[OF b]
  show ?thesis
  proof (cases e)
    case None
    with b f assms show ?thesis by (intro that[of r0]) (simp_all add: end_run_def)
  next
    case (Some x)
    with b f show ?thesis by (intro that[of "Rejected x"]) (simp_all add: end_run_def)
  qed
qed

text \<open>Every run waits for the one before it, and none has begun before the earlier ones have settled.\<close>

definition in_order :: "('a, 'l) ceremonies \<Rightarrow> bool" where
  "in_order s \<longleftrightarrow> length (ce_after s) = length (ce_runs s)
     \<and> ce_chain s = (if ce_runs s = [] then None else Some (length (ce_runs s) - 1))
     \<and> (\<forall>i < length (ce_runs s). ce_after s ! i = (if i = 0 then None else Some (i - 1)))
     \<and> (\<forall>j < length (ce_runs s). \<forall>i < j. ce_runs s ! j \<noteq> Waiting \<longrightarrow> settled_run (ce_runs s ! i))"

lemma in_orderD:
  "in_order s \<Longrightarrow> i < length (ce_runs s) \<Longrightarrow> ce_after s ! i = (if i = 0 then None else Some (i - 1))"
  "in_order s \<Longrightarrow> j < length (ce_runs s) \<Longrightarrow> i < j \<Longrightarrow> ce_runs s ! j \<noteq> Waiting \<Longrightarrow> settled_run (ce_runs s ! i)"
  by (simp_all add: in_order_def)

text \<open>A run that is not the one set keeps its state; the one set was not settled.\<close>

lemma in_order_set:
  assumes "in_order s" and "i < length (ce_runs s)" and "\<not> settled_run (ce_runs s ! i)" and "r \<noteq> Waiting"
    and "0 < i \<Longrightarrow> settled_run (ce_runs s ! (i - 1))"
    and s': "ce_runs s' = (ce_runs s)[i := r]" "ce_after s' = ce_after s" "ce_chain s' = ce_chain s"
  shows "in_order s'"
proof -
  have before: "settled_run (ce_runs s ! k)" if "k < i" for k
  proof (cases "k = i - 1")
    case False
    then have "k < i - 1" using that by simp
    moreover have "ce_runs s ! (i - 1) \<noteq> Waiting" using assms(5) that by (cases "ce_runs s ! (i - 1)") auto
    ultimately show ?thesis using in_orderD(2)[OF assms(1), of "i - 1" k] assms(2) by simp
  qed (use assms(5) that in simp)
  have "ce_runs s ! j = Waiting" if "i < j" "j < length (ce_runs s)" for j
    using in_orderD(2)[OF assms(1) that(2,1)] assms(3) by blast
  then have "settled_run (ce_runs s' ! k)" if "j < length (ce_runs s)" "k < j" "ce_runs s' ! j \<noteq> Waiting" for j k
    using that before in_orderD(2)[OF assms(1), of j k] assms(2,4) s'
    by (cases "j = i"; cases "k = i"; cases "i < j") (auto simp: nth_list_update)
  then show ?thesis using assms(1) s' by (simp add: in_order_def)
qed

lemma in_order_step:
  assumes "ceremony_step L s s'" and "in_order s"
  shows "in_order s'"
  using assms
proof (induction rule: ceremony_step.induct)
  case (requested s)
  then show ?case by (auto simp: in_order_def runPasskeyCeremony_def nth_append less_Suc_eq)
next
  case (begun s i)
  obtain r where r: "ce_runs (begin_run L i s) = (ce_runs s)[i := r]" "r = Running \<or> settled_run r"
    "ce_after (begin_run L i s) = ce_after s" "ce_chain (begin_run L i s) = ce_chain s"
    by (rule begin_run_cases)
  have "r \<noteq> Waiting" using r(2) by auto
  moreover have "settled_run (ce_runs s ! (i - 1))" if "0 < i"
    using begun in_orderD(1)[of s i] that by (auto simp: ready_def chain_resolved_def)
  ultimately show ?case using in_order_set[of s i r] begun r by (auto simp: ready_def)
next
  case (ended s i r0)
  obtain r where r: "ce_runs (end_run L i r0 s) = (ce_runs s)[i := r]" "settled_run r"
    "ce_after (end_run L i r0 s) = ce_after s" "ce_chain (end_run L i r0 s) = ce_chain s"
    by (rule end_run_cases[OF ended(2)])
  have "settled_run (ce_runs s ! (i - 1))" if "0 < i"
    using ended in_orderD(2)[of s i "i - 1"] that by (auto simp: prompting_def)
  moreover have "r \<noteq> Waiting" using r(2) by auto
  ultimately show ?case using in_order_set[of s i r] ended r by (auto simp: prompting_def)
qed (simp_all add: in_order_def subscribePasskeyBusy_def unsubscribe_def)

lemma in_order_reached: "ceremony_reached L s \<Longrightarrow> in_order s"
  by (induction rule: ceremony_reached.induct) (auto simp: in_order_def no_ceremony_def dest: in_order_step[unfolded in_order_def])

lemma settled_step:
  assumes "ceremony_step L s s'" and "i < length (ce_runs s)"
  shows "i < length (ce_runs s') \<and> (settled_run (ce_runs s ! i) \<longrightarrow> settled_run (ce_runs s' ! i))"
  using assms
proof (induction rule: ceremony_step.induct)
  case (begun s j)
  obtain r where "ce_runs (begin_run L j s) = (ce_runs s)[j := r]" by (rule begin_run_cases)
  with begun show ?case by (auto simp: ready_def nth_list_update)
next
  case (ended s j r0)
  obtain r where "ce_runs (end_run L j r0 s) = (ce_runs s)[j := r]" "settled_run r" by (rule end_run_cases[OF ended(2)])
  with ended show ?case by (cases "i = j") (auto simp: nth_list_update)
qed (auto simp: runPasskeyCeremony_def subscribePasskeyBusy_def unsubscribe_def nth_append)

text \<open>The count of a module whose listeners never throw, and what each listener was told last.\<close>

definition last_told :: "('a, 'l) ceremonies \<Rightarrow> 'l \<Rightarrow> bool option" where
  "last_told s l = (let ts = filter (\<lambda>t. fst t = l) (ce_told s) in if ts = [] then None else Some (snd (last ts)))"

definition counted :: "('a, 'l) ceremonies \<Rightarrow> bool" where
  "counted s \<longleftrightarrow> ce_busyCount s = length (filter (\<lambda>r. r = Running) (ce_runs s))
     \<and> (\<forall>l \<in> set (ce_listeners s). last_told s l = Some (0 < ce_busyCount s))"

lemma tell_all: "(\<And>l b. L l b = None) \<Longrightarrow> tell L busy ls = (map (\<lambda>l. (l, busy)) ls, None)"
  by (induction ls) simp_all

lemma last_told_all:
  assumes "ce_told s' = ce_told s @ map (\<lambda>l. (l, busy)) ls" and "l \<in> set ls"
  shows "last_told s' l = Some busy"
proof -
  let ?new = "filter (\<lambda>t. fst t = l) (map (\<lambda>l. (l, busy)) ls)"
  have ne: "?new \<noteq> []" using assms(2) by (auto simp: filter_empty_conv)
  then have "last ?new \<in> set ?new" by (rule last_in_set)
  then have "snd (last ?new) = busy" by auto
  with ne assms(1) show ?thesis by (simp add: last_told_def Let_def last_append)
qed

lemma count_set:
  assumes "i < length rs"
  shows "length (filter (\<lambda>r. r = Running) (rs[i := r'])) + (if rs ! i = Running then 1 else 0)
    = length (filter (\<lambda>r. r = Running) rs) + (if r' = Running then 1 else 0)"
  using assms
proof (induction rs arbitrary: i)
  case (Cons q rs)
  show ?case
  proof (cases i)
    case (Suc k)
    with Cons.IH[of k] Cons.prems show ?thesis by auto
  qed simp
qed simp

lemma counted_step:
  assumes "ceremony_step L s s'" and "counted s" and quiet: "\<And>l b. L l b = None"
  shows "counted s'"
  using assms(1,2)
proof (induction rule: ceremony_step.induct)
  case (begun s i)
  have "length (filter (\<lambda>r. r = Running) ((ce_runs s)[i := Running])) = ce_busyCount s + 1"
    using begun count_set[of i "ce_runs s" Running] by (simp add: ready_def counted_def)
  then show ?case using last_told_all[of "begin_run L i s" s True "ce_listeners s"]
    by (simp add: begin_run_def setBusy_def tell_all[OF quiet] counted_def)
next
  case (ended s i r)
  have "r \<noteq> Running" using ended(2) by auto
  then have "length (filter (\<lambda>r. r = Running) ((ce_runs s)[i := r])) = ce_busyCount s - 1"
    using ended count_set[of i "ce_runs s" r] by (simp add: prompting_def counted_def)
  then show ?case using last_told_all[of "end_run L i r s" s "0 < ce_busyCount s - 1" "ce_listeners s"]
    by (simp add: end_run_def setBusy_def tell_all[OF quiet] counted_def)
next
  case (subscribed s l)
  then show ?case by (auto simp: counted_def subscribePasskeyBusy_def last_told_def Let_def)
qed (auto simp: counted_def runPasskeyCeremony_def unsubscribe_def last_told_def)

lemma counted_reached: "ceremony_reached L s \<Longrightarrow> (\<And>l b. L l b = None) \<Longrightarrow> counted s"
  by (induction rule: ceremony_reached.induct) (auto simp: counted_def no_ceremony_def dest: counted_step[unfolded counted_def])

section \<open>The user handle\<close>

definition PASSKEY_USER_HANDLE_SUFFIX_RESERVE :: nat where "PASSKEY_USER_HANDLE_SUFFIX_RESERVE = 39"

text \<open>The random number comes as its text; the hash as the hexadecimal text of its digest.\<close>

definition buildPasskeyRegistrationUserHandle :: "string \<Rightarrow> int \<Rightarrow> string \<Rightarrow> string" where
  "buildPasskeyRegistrationUserHandle userName nowMs random = userName @ '':'' @ toString10 nowMs @ '':'' @ random"

definition passkeyUserName :: "(string \<Rightarrow> string) \<Rightarrow> string \<Rightarrow> string" where
  "passkeyUserName hash walletAddress = take (64 - PASSKEY_USER_HANDLE_SUFFIX_RESERVE) (hash walletAddress)"

definition assertPasskeyUserNameBudget :: "string \<Rightarrow> unit res" where
  "assertPasskeyUserNameBudget userName =
     (let worst = buildPasskeyRegistrationUserHandle userName 9999999999999 ''0.12345678901234568'' in
      if 64 < length worst then Inl (Refused (''Passkey user handle exceeds 64 bytes ('' @ toString10 (int (length worst)) @ '')''))
      else Inr ())"

lemma time_digits: "0 \<le> t \<Longrightarrow> t < 10 ^ 13 \<Longrightarrow> length (toString10 t) \<le> 13"
  using length_digits_of[of 10 "nat t" 13] by (simp add: toString10_def nat_less_iff)

lemma worst_time: "length (toString10 9999999999999) = 13"
  by (simp add: toString10_def digits_of.simps[of 10 "numeral k" for k])

lemma budget_iff: "assertPasskeyUserNameBudget userName = Inr () \<longleftrightarrow> length userName \<le> 30"
  by (simp add: assertPasskeyUserNameBudget_def Let_def buildPasskeyRegistrationUserHandle_def worst_time)

section \<open>Properties\<close>

text \<open>
  C13: Whatever the ceremonies and the listeners throw, at most one prompt is open at a time, and it
  is the first of the requested ones that has not settled. While no listener throws, the module says
  it is busy exactly while a prompt is open, and the last thing every subscriber was told is whether
  one is.
\<close>

theorem one_prompt:
  assumes "ceremony_reached L s"
  shows "(\<forall>i j. prompting s i \<and> prompting s j \<longrightarrow> i = j)
    \<and> (\<forall>i j. prompting s i \<and> j < length (ce_runs s) \<longrightarrow> (settled_run (ce_runs s ! j) \<longleftrightarrow> j < i))
    \<and> ((\<forall>l b. L l b = None) \<longrightarrow> (isPasskeyCeremonyBusy s \<longleftrightarrow> (\<exists>i. prompting s i))
        \<and> (\<forall>l \<in> set (ce_listeners s). last_told s l = Some (\<exists>i. prompting s i)))"
proof (intro conjI allI impI)
  note o = in_orderD(2)[OF in_order_reached[OF assms]]
  show "i = j" if "prompting s i \<and> prompting s j" for i j
    using that o[of i j] o[of j i] by (auto simp: prompting_def intro: linorder_cases[of i j])
  show "settled_run (ce_runs s ! j) \<longleftrightarrow> j < i" if "prompting s i \<and> j < length (ce_runs s)" for i j
    using that o[of i j] o[of j i]
    by (cases j i rule: linorder_cases; cases "ce_runs s ! j") (auto simp: prompting_def)
  assume "\<forall>l b. L l b = None"
  then have c: "counted s" using counted_reached[OF assms] by blast
  have "(\<exists>i. prompting s i) \<longleftrightarrow> Running \<in> set (ce_runs s)"
    by (auto simp: prompting_def in_set_conv_nth)
  also have "\<dots> \<longleftrightarrow> 0 < length (filter (\<lambda>r. r = Running) (ce_runs s))"
    by (auto simp: filter_empty_conv)
  finally have busy: "(\<exists>i. prompting s i) \<longleftrightarrow> 0 < ce_busyCount s" using c by (simp add: counted_def)
  with c show "isPasskeyCeremonyBusy s \<longleftrightarrow> (\<exists>i. prompting s i)"
    and "\<forall>l \<in> set (ce_listeners s). last_told s l = Some (\<exists>i. prompting s i)"
    by (simp_all add: counted_def isPasskeyCeremonyBusy_def)
qed

text \<open>A history of the module: from its first state, one step or none at every moment.\<close>

definition ceremony_history :: "('l \<Rightarrow> bool \<Rightarrow> js_error option) \<Rightarrow> (nat \<Rightarrow> ('a, 'l) ceremonies) \<Rightarrow> bool" where
  "ceremony_history L h \<longleftrightarrow> h 0 = no_ceremony \<and> (\<forall>t. h (Suc t) = h t \<or> ceremony_step L (h t) (h (Suc t)))"

lemma history_reached: "ceremony_history L h \<Longrightarrow> ceremony_reached L (h t)"
proof (induction t)
  case 0
  then show ?case by (simp add: ceremony_history_def none_yet)
next
  case (Suc t)
  then show ?case by (metis ceremony_history_def one_more)
qed

lemma history_settled:
  assumes "ceremony_history L h" and "t \<le> t'" and "i < length (ce_runs (h t))"
  shows "i < length (ce_runs (h t')) \<and> (settled_run (ce_runs (h t) ! i) \<longrightarrow> settled_run (ce_runs (h t') ! i))"
  using assms(2)
proof (induction t' rule: dec_induct)
  case (step n)
  then show ?case using assms(1) settled_step[of L "h n" "h (Suc n)" i] unfolding ceremony_history_def by metis
qed (use assms(3) in simp)

text \<open>
  C14: Every ceremony that is asked for settles, whether the ones before it are confirmed, cancelled or
  throw, as long as the prompts that are open end and the runtime runs what is ready.
\<close>

theorem every_ceremony_settles:
  assumes "ceremony_history L h"
    and prompts_end: "\<And>t i. prompting (h t) i \<Longrightarrow> \<exists>t' \<ge> t. settled_run (ce_runs (h t') ! i)"
    and runtime: "\<And>t i. ready (h t) i \<Longrightarrow> \<exists>t' \<ge> t. ce_runs (h t') ! i \<noteq> Waiting"
    and "i < length (ce_runs (h t))"
  shows "\<exists>t' \<ge> t. settled_run (ce_runs (h t') ! i)"
  using assms(4)
proof (induction i arbitrary: t rule: less_induct)
  case (less i)
  obtain t1 where t1: "t \<le> t1" "chain_resolved (h t1) (ce_after (h t1) ! i)"
  proof (cases i)
    case 0
    then show ?thesis using that[of t] in_orderD(1)[OF in_order_reached[OF history_reached[OF assms(1), of t]] less.prems]
      by (simp add: chain_resolved_def)
  next
    case (Suc k)
    then obtain t1 where "t \<le> t1" "settled_run (ce_runs (h t1) ! k)" using less.IH[of k t] less.prems by auto
    then show ?thesis using that[of t1] Suc history_settled[OF assms(1), of t t1 i] less.prems
        in_orderD(1)[OF in_order_reached[OF history_reached[OF assms(1), of t1]], of i] by (simp add: chain_resolved_def)
  qed
  have i1: "i < length (ce_runs (h t1))" using history_settled[OF assms(1) t1(1) less.prems] by simp
  obtain t2 where t2: "t1 \<le> t2" "ce_runs (h t2) ! i \<noteq> Waiting"
    using runtime[of t1 i] t1(2) i1 by (cases "ce_runs (h t1) ! i = Waiting") (auto simp: ready_def)
  have i2: "i < length (ce_runs (h t2))" using history_settled[OF assms(1) t2(1) i1] by simp
  have "\<exists>t' \<ge> t2. settled_run (ce_runs (h t') ! i)"
  proof (cases "ce_runs (h t2) ! i = Running")
    case True
    then show ?thesis using prompts_end[of t2 i] i2 by (simp add: prompting_def)
  next
    case False
    then show ?thesis using t2(2) by (cases "ce_runs (h t2) ! i") auto
  qed
  then show ?case using t1(1) t2(1) by (meson order_trans)
qed

text \<open>
  The handle the kit registers for a user stays within the 64 bytes of WebAuthn, for every time
  until the year 2286 and every random number of at most 24 characters, and the name passes the check.
\<close>

theorem user_handle_fits:
  assumes "0 \<le> nowMs" "nowMs < 10 ^ 13" and "length random \<le> 24"
  shows "length (buildPasskeyRegistrationUserHandle (passkeyUserName hash walletAddress) nowMs random) \<le> 64
    \<and> assertPasskeyUserNameBudget (passkeyUserName hash walletAddress) = Inr ()"
proof -
  have "length (passkeyUserName hash walletAddress) \<le> 25"
    by (simp add: passkeyUserName_def PASSKEY_USER_HANDLE_SUFFIX_RESERVE_def)
  then show ?thesis using time_digits[OF assms(1,2)] assms(3)
    by (simp add: buildPasskeyRegistrationUserHandle_def budget_iff)
qed

section \<open>A demonstration\<close>

text \<open>Two prompts, the first of which is cancelled, with one subscriber.\<close>

abbreviation quiet :: "nat \<Rightarrow> bool \<Rightarrow> js_error option" where
  "quiet \<equiv> \<lambda>l b. None"

definition demo_moments :: "(int, nat) ceremonies list" where
  "demo_moments = (let s1 = subscribePasskeyBusy 0 no_ceremony; s2 = runPasskeyCeremony s1; s3 = runPasskeyCeremony s2;
     s4 = begin_run quiet 0 s3; s5 = end_run quiet 0 (Rejected (Refused ''cancelled'')) s4; s6 = begin_run quiet 1 s5;
     s7 = end_run quiet 1 (Fulfilled 7) s6 in [no_ceremony, s1, s2, s3, s4, s5, s6, s7])"

definition demo_history :: "nat \<Rightarrow> (int, nat) ceremonies" where
  "demo_history t = demo_moments ! min t 7"

lemmas demo_parts = demo_history_def demo_moments_def Let_def no_ceremony_def subscribePasskeyBusy_def runPasskeyCeremony_def
  begin_run_def end_run_def setBusy_def set_run_def

lemma demo_moment_runs:
  "ce_runs (demo_history 0) = []" "ce_runs (demo_history 1) = []" "ce_runs (demo_history (Suc 0)) = []" "ce_runs (demo_history 2) = [Waiting]"
  "ce_runs (demo_history 3) = [Waiting, Waiting]" "ce_runs (demo_history 4) = [Running, Waiting]"
  "ce_runs (demo_history 5) = [Rejected (Refused ''cancelled''), Waiting]"
  "ce_runs (demo_history 6) = [Rejected (Refused ''cancelled''), Running]"
  "7 \<le> t \<Longrightarrow> ce_runs (demo_history t) = [Rejected (Refused ''cancelled''), Fulfilled 7]"
  by (simp_all add: demo_parts)

lemma demo_after: "ce_after (demo_history 3) = [None, Some 0]" "ce_after (demo_history 5) = [None, Some 0]"
  by (simp_all add: demo_parts)

lemma demo_times: "t = 0 \<or> t = 1 \<or> t = 2 \<or> t = 3 \<or> t = 4 \<or> t = 5 \<or> t = 6 \<or> 7 \<le> (t :: nat)"
  by linarith

lemma demo_is_history: "ceremony_history quiet demo_history"
proof -
  have "demo_history (Suc t) = demo_history t \<or> ceremony_step quiet (demo_history t) (demo_history (Suc t))" for t
  proof -
    let ?h = demo_history
    have eqs: "?h 1 = subscribePasskeyBusy 0 (?h 0)" "?h 2 = runPasskeyCeremony (?h 1)" "?h 3 = runPasskeyCeremony (?h 2)"
      "?h 4 = begin_run quiet 0 (?h 3)" "?h 5 = end_run quiet 0 (Rejected (Refused ''cancelled'')) (?h 4)"
      "?h 6 = begin_run quiet 1 (?h 5)" "?h 7 = end_run quiet 1 (Fulfilled 7) (?h 6)"
      by (simp_all add: demo_history_def demo_moments_def Let_def)
    have may: "ready (?h 3) 0" "prompting (?h 4) 0" "ready (?h 5) 1" "prompting (?h 6) 1"
      by (simp_all add: ready_def prompting_def demo_moment_runs demo_after chain_resolved_def)
    have "ceremony_step quiet (?h 0) (?h 1)" unfolding eqs(1) by (rule subscribed)
    moreover have "ceremony_step quiet (?h 1) (?h 2)" unfolding eqs(2) by (rule requested)
    moreover have "ceremony_step quiet (?h 2) (?h 3)" unfolding eqs(3) by (rule requested)
    moreover have "ceremony_step quiet (?h 3) (?h 4)" unfolding eqs(4) by (rule begun[OF may(1)])
    moreover have "ceremony_step quiet (?h 4) (?h 5)" unfolding eqs(5) by (rule ended[OF may(2)]) simp
    moreover have "ceremony_step quiet (?h 5) (?h 6)" unfolding eqs(6) by (rule begun[OF may(3)])
    moreover have "ceremony_step quiet (?h 6) (?h 7)" unfolding eqs(7) by (rule ended[OF may(4)]) simp
    moreover have "?h (Suc t) = ?h t" if "7 \<le> t" using that by (simp add: demo_history_def)
    ultimately show ?thesis using demo_times[of t] by (elim disjE) (simp_all add: numeral_2_eq_2[symmetric])
  qed
  then show ?thesis by (simp add: ceremony_history_def demo_history_def demo_moments_def Let_def)
qed

theorem one_prompt_witness:
  "isPasskeyCeremonyBusy (demo_history 6) \<and> last_told (demo_history 6) 0 = Some True
    \<and> settled_run (ce_runs (demo_history 6) ! 0) \<and> \<not> isPasskeyCeremonyBusy (demo_history 7)
    \<and> last_told (demo_history 7) 0 = Some False"
proof -
  have p: "prompting (demo_history 6) 1" "\<not> prompting (demo_history 7) i" for i
    by (cases i; simp add: prompting_def demo_moment_runs nth_Cons split: nat.split)+
  have l: "0 \<in> set (ce_listeners (demo_history 6))" "0 \<in> set (ce_listeners (demo_history 7))"
    "0 < length (ce_runs (demo_history 6))"
    by (simp_all add: demo_parts)
  note reached = history_reached[OF demo_is_history]
  have six: "(\<exists>i. prompting (demo_history 6) i) = True" and seven: "(\<exists>i. prompting (demo_history 7) i) = False"
    using p by blast+
  note open6 = one_prompt[OF reached[of 6], unfolded six] and open7 = one_prompt[OF reached[of 7], unfolded seven]
  have "settled_run (ce_runs (demo_history 6) ! 0)"
    using open6[THEN conjunct2, THEN conjunct1, rule_format, of 1 0] p(1) l(3) by simp
  moreover have "isPasskeyCeremonyBusy (demo_history 6)" "last_told (demo_history 6) 0 = Some True"
    using open6[THEN conjunct2, THEN conjunct2] l(1) by simp_all
  moreover have "\<not> isPasskeyCeremonyBusy (demo_history 7)" "last_told (demo_history 7) 0 = Some False"
    using open7[THEN conjunct2, THEN conjunct2] l(2) by simp_all
  ultimately show ?thesis by blast
qed

theorem every_ceremony_settles_witness: "\<exists>t \<ge> 3. settled_run (ce_runs (demo_history t) ! 1)"
proof (rule every_ceremony_settles[OF demo_is_history])
  show "\<exists>t' \<ge> t. settled_run (ce_runs (demo_history t') ! i)" if "prompting (demo_history t) i" for t i
    using demo_times[of t] that by (intro exI[of _ "t + 7"]) (auto simp: prompting_def demo_moment_runs nth_Cons less_Suc_eq split: nat.splits)
  show "\<exists>t' \<ge> t. ce_runs (demo_history t') ! i \<noteq> Waiting" if "ready (demo_history t) i" for t i
    using demo_times[of t] that by (intro exI[of _ "t + 7"]) (auto simp: ready_def demo_moment_runs nth_Cons less_Suc_eq split: nat.splits)
qed (simp add: demo_moment_runs)

theorem user_handle_fits_witness:
  "length (buildPasskeyRegistrationUserHandle (passkeyUserName (\<lambda>w. replicate 64 (CHR ''0'')) ''G'') 1700000000000 ''0.5'') \<le> 64"
  using user_handle_fits[of 1700000000000 "''0.5''"] by simp

end
