(* ===== verification/IssuerFields.thy ===== *)
theory IssuerFields
  imports ProofBundles
begin

text \<open>
  What the issuer service computes: the hashes and accumulators of
  \<^verbatim>\<open>issuer-service/lib/poseidonFields.js\<close>, the policies, the material of a credential
  (\<^verbatim>\<open>credentialCommitment.js\<close>) and the witness of revocations
  (\<^verbatim>\<open>scripts/compute_revocation_root.js\<close>), beside the circuit of
  \<^verbatim>\<open>circuits/lumengate\<close> that the inputs are for. Poseidon2 and SHA-256 are parameters. Shown:
  the material opens the root it is issued for, the accumulators of notes and of revocations stop at
  eight entries, and two lists with one root collide in the hash at a level that is named.
\<close>

section \<open>Fields\<close>

text \<open>
  What is passed as a field is a text, or a number or \<^verbatim>\<open>bigint\<close>.
\<close>

datatype fieldInput = FText string | FInt int

fun toBigInt :: "fieldInput \<Rightarrow> int res" where
  "toBigInt (FInt n) = Inr n"
| "toBigInt (FText s) = (let t = trim s in if t = [] then Inr 0 else BigInt_of t)"

definition hex_word :: "int \<Rightarrow> string" where
  "hex_word n = (let h = toString16 n in ''0x'' @ padStart0 64 (drop (length h - 64) h))"

definition fieldToBytes32Hex :: "fieldInput \<Rightarrow> string res" where
  "fieldToBytes32Hex val = rmap hex_word (toBigInt val)"

type_synonym fieldHash = "int list \<Rightarrow> int"

definition hash2Fields :: "fieldHash \<Rightarrow> fieldInput \<Rightarrow> fieldInput \<Rightarrow> int res" where
  "hash2Fields hash a b = rmap hash (traverse toBigInt [a, b])"

definition hash3Fields :: "fieldHash \<Rightarrow> fieldInput \<Rightarrow> fieldInput \<Rightarrow> fieldInput \<Rightarrow> int res" where
  "hash3Fields hash a b c = rmap hash (traverse toBigInt [a, b, c])"

definition computeNullifier :: "fieldHash \<Rightarrow> fieldInput \<Rightarrow> fieldInput \<Rightarrow> fieldInput \<Rightarrow> fieldInput \<Rightarrow> string res" where
  "computeNullifier hash noteSecret pol assetId actionId =
     rmap (\<lambda>xs. hex_word (hash xs)) (traverse toBigInt [noteSecret, pol, assetId, actionId])"

definition computePolicyNullifier :: "fieldHash \<Rightarrow> fieldInput \<Rightarrow> fieldInput \<Rightarrow> string res" where
  "computePolicyNullifier hash noteSecret pol = rmap hex_word (hash2Fields hash noteSecret pol)"

definition computeNoteCommitment :: "fieldHash \<Rightarrow> fieldInput \<Rightarrow> fieldInput \<Rightarrow> string res" where
  "computeNoteCommitment hash noteSecret noteBlinding = rmap hex_word (hash2Fields hash noteSecret noteBlinding)"

section \<open>Accumulators\<close>

definition level :: "fieldHash \<Rightarrow> int \<Rightarrow> int \<Rightarrow> int" where
  "level hash acc x = hash [acc, x]"

definition accumulated :: "fieldHash \<Rightarrow> int list \<Rightarrow> nat \<Rightarrow> int" where
  "accumulated hash padded n = foldl (level hash) 0 (take n padded)"

definition padded8 :: "int list \<Rightarrow> int list" where
  "padded8 xs = xs @ replicate (8 - length xs) 0"

definition computeNoteRootFromLeaves :: "fieldHash \<Rightarrow> string list \<Rightarrow> string res" where
  "computeNoteRootFromLeaves hash leaves =
     rmap (\<lambda>xs. hex_word (accumulated hash (padded8 xs) 8)) (traverse (\<lambda>l. toBigInt (FText l)) leaves)"

definition computeRevocationRootFromSiblings :: "fieldHash \<Rightarrow> int list \<Rightarrow> string" where
  "computeRevocationRootFromSiblings hash siblings = hex_word (accumulated hash (padded8 siblings) 8)"

definition EMPTY_REVOCATION_ROOT :: "fieldHash \<Rightarrow> string" where
  "EMPTY_REVOCATION_ROOT hash = computeRevocationRootFromSiblings hash (replicate 8 0)"

definition hexToBigInt :: "string \<Rightarrow> int res" where
  "hexToBigInt hex = (let h = strip0xi hex in
     if list_all (\<lambda>c. c = CHR ''0'') h then Inr 0 else BigInt_of (''0x'' @ h))"

record revWitness =
  rv_root :: string
  rv_siblings :: "string list"
  rv_bits :: "string list"

definition computeRevocationWitness :: "fieldHash \<Rightarrow> string list \<Rightarrow> revWitness res" where
  "computeRevocationWitness hash revokedCommitments = (let l = take 8 revokedCommitments in
     rmap (\<lambda>xs. let sibs = padded8 xs in
       \<lparr>rv_root = (if l = [] then EMPTY_REVOCATION_ROOT hash else computeRevocationRootFromSiblings hash sibs),
        rv_siblings = map toString10 sibs, rv_bits = replicate 8 ''0''\<rparr>)
     (traverse hexToBigInt l))"

section \<open>Policies\<close>

record servicePolicy =
  sp_key :: "string option"
  sp_policyId :: "int option"
  sp_title :: "string option"
  sp_minJurisdiction :: "int option"
  sp_maxJurisdiction :: "int option"
  sp_fundsThreshold :: "int option"
  sp_claims :: "string list option"

definition eligibility_policy :: "string \<Rightarrow> string \<Rightarrow> int \<Rightarrow> int \<Rightarrow> string list \<Rightarrow> servicePolicy" where
  "eligibility_policy key title lo hi claims = \<lparr>sp_key = Some key, sp_policyId = Some 1, sp_title = Some title,
     sp_minJurisdiction = Some lo, sp_maxJurisdiction = Some hi, sp_fundsThreshold = None, sp_claims = Some claims\<rparr>"

definition POLICIES :: "(string \<times> servicePolicy) list" where
  "POLICIES = [
     (''general-eligibility'', eligibility_policy ''general-eligibility'' ''General RWA eligibility'' 1 999
        [''Accredited investor'', ''Sanctions clear'', ''Jurisdiction allowed'', ''Age 18+'']),
     (''accredited-investor'', eligibility_policy ''accredited-investor'' ''Accredited investor'' 1 999 [''Accredited investor'']),
     (''us-jurisdiction'', eligibility_policy ''us-jurisdiction'' ''US jurisdiction'' 840 840 [''US jurisdiction allowed'']),
     (''sanctions-clear'', eligibility_policy ''sanctions-clear'' ''Sanctions clear'' 1 999 [''Sanctions clear'']),
     (''age-verified'', eligibility_policy ''age-verified'' ''Age verified (18+)'' 1 999 [''Age 18 or older'']),
     (''proof-of-funds'', \<lparr>sp_key = Some ''proof-of-funds'', sp_policyId = Some 2, sp_title = Some ''Proof of funds'',
        sp_minJurisdiction = None, sp_maxJurisdiction = None, sp_fundsThreshold = Some 50,
        sp_claims = Some [''Balance meets minimum threshold'']\<rparr>)]"

text \<open>
  An object has the members of \<^verbatim>\<open>Object.prototype\<close> beside its own: indexing it with one of these
  names gives a value that has none of the policy's fields.
\<close>

definition object_members :: "string list" where
  "object_members = [''constructor'', ''__defineGetter__'', ''__defineSetter__'', ''hasOwnProperty'', ''__lookupGetter__'',
     ''__lookupSetter__'', ''isPrototypeOf'', ''propertyIsEnumerable'', ''toString'', ''valueOf'', ''__proto__'', ''toLocaleString'']"

definition no_policy :: servicePolicy where
  "no_policy = \<lparr>sp_key = None, sp_policyId = None, sp_title = None, sp_minJurisdiction = None, sp_maxJurisdiction = None,
     sp_fundsThreshold = None, sp_claims = None\<rparr>"

definition policyByKey :: "string \<Rightarrow> servicePolicy" where
  "policyByKey key = (case map_of POLICIES key of Some p \<Rightarrow> p
     | None \<Rightarrow> if key \<in> set object_members then no_policy else the (map_of POLICIES ''general-eligibility''))"

definition policyList :: "servicePolicy list" where
  "policyList = map snd POLICIES"

section \<open>Credential material\<close>

definition fieldFromHash :: "(string \<Rightarrow> string) \<Rightarrow> string list \<Rightarrow> string res" where
  "fieldFromHash sha parts = rmap toString10 (BigInt_of (''0x'' @ take 62 (sha (join '':'' parts))))"

definition singleLeafRoot :: "fieldHash \<Rightarrow> string \<Rightarrow> string res" where
  "singleLeafRoot hash commitment =
     rmap (\<lambda>leaf. hex_word (foldl (level hash) leaf (replicate 8 0))) (toBigInt (FText commitment))"

record credentialMaterial =
  cm_commitment :: string
  cm_root :: string
  cm_issuerId :: string
  cm_salt :: string
  cm_accredited :: bool
  cm_sanctionsClear :: bool
  cm_jurisdictionCode :: string
  cm_dobTimestamp :: string
  cm_minJurisdiction :: string
  cm_maxJurisdiction :: string
  cm_policyId :: string
  cm_pathSiblings :: "string list"
  cm_pathBits :: "string list"

definition issuer_id :: "env \<Rightarrow> string" where
  "issuer_id env = given (text_or (env ''ISSUER_ID'') (text_or (env ''ISSUER_ETH_ID'') (Some ''2''))) ''2''"

definition buildCredentialMaterial ::
  "fieldHash \<Rightarrow> (string \<Rightarrow> string) \<Rightarrow> string \<Rightarrow> env \<Rightarrow> string \<Rightarrow> credentialMaterial res" where
  "buildCredentialMaterial hash sha walletField env key =
     (let pol = policyByKey key; issuerId = issuer_id env; jurisdictionCode = ''840''; dobTimestamp = ''631152000'' in
      rbind (fieldFromHash sha [''lumengate-credential-v1'', walletField, issuerId]) (\<lambda>salt.
      rbind (hash2Fields hash (FInt 1) (FText jurisdictionCode)) (\<lambda>a.
      rbind (hash2Fields hash (FText dobTimestamp) (FInt 1)) (\<lambda>b.
      rbind (hash3Fields hash (FInt a) (FInt b) (FText issuerId)) (\<lambda>attrsHash.
      rbind (rmap hex_word (hash2Fields hash (FInt attrsHash) (FText salt))) (\<lambda>commitment.
      rmap (\<lambda>root. \<lparr>cm_commitment = commitment, cm_root = root, cm_issuerId = issuerId, cm_salt = salt,
        cm_accredited = True, cm_sanctionsClear = True, cm_jurisdictionCode = jurisdictionCode,
        cm_dobTimestamp = dobTimestamp, cm_minJurisdiction = toString10 (given (sp_minJurisdiction pol) 1),
        cm_maxJurisdiction = toString10 (given (sp_maxJurisdiction pol) 999),
        cm_policyId = (case sp_policyId pol of None \<Rightarrow> undefinedText | Some n \<Rightarrow> toString10 n),
        cm_pathSiblings = replicate 8 ''0'', cm_pathBits = replicate 8 ''0''\<rparr>)
      (singleLeafRoot hash commitment)))))))"

definition normalizeHex32 :: "string \<Rightarrow> string" where
  "normalizeHex32 hex = padStart0 64 (map lower (strip0xi hex))"

section \<open>The circuit\<close>

text \<open>
  The inputs of the circuit are field elements; a cast to a machine word takes the low bits, and an
  addition that leaves the word fails.
\<close>

record circuitInputs =
  ci_root :: int
  ci_revocationRoot :: int
  ci_policyId :: int
  ci_assetId :: int
  ci_actionId :: int
  ci_nullifier :: int
  ci_noteSecret :: int
  ci_noteBlinding :: int
  ci_accredited :: bool
  ci_jurisdictionCode :: int
  ci_dobTimestamp :: int
  ci_sanctionsClear :: bool
  ci_issuerId :: int
  ci_salt :: int
  ci_currentTime :: int
  ci_minJurisdiction :: int
  ci_maxJurisdiction :: int
  ci_pathSiblings :: "int list"
  ci_pathBits :: "int list"
  ci_revPathSiblings :: "int list"
  ci_revPathBits :: "int list"

definition constrain_bit :: "int \<Rightarrow> bool" where
  "constrain_bit b \<longleftrightarrow> frMod (b * (1 - b)) = 0"

definition merkle_level :: "fieldHash \<Rightarrow> int \<Rightarrow> int \<times> int \<Rightarrow> int" where
  "merkle_level hash cur = (\<lambda>(sib, b). if b = 0 then hash [cur, sib] else hash [sib, cur])"

definition compute_merkle_root :: "fieldHash \<Rightarrow> int \<Rightarrow> int list \<Rightarrow> int list \<Rightarrow> int option" where
  "compute_merkle_root hash leaf siblings bits =
     (if list_all constrain_bit bits then Some (foldl (merkle_level hash) leaf (zip siblings bits)) else None)"

definition compute_revocation_root :: "fieldHash \<Rightarrow> int list \<Rightarrow> int list \<Rightarrow> int option" where
  "compute_revocation_root hash siblings bits = compute_merkle_root hash 0 siblings bits"

definition EIGHTEEN_YEARS_SECONDS :: int where "EIGHTEEN_YEARS_SECONDS = 568036800"

definition field_from_u1 :: "bool \<Rightarrow> int" where
  "field_from_u1 v = (if v then 1 else 0)"

definition circuit_commitment :: "fieldHash \<Rightarrow> circuitInputs \<Rightarrow> int" where
  "circuit_commitment hash i =
     hash [hash [hash [field_from_u1 (ci_accredited i), ci_jurisdictionCode i],
                 hash [ci_dobTimestamp i, field_from_u1 (ci_sanctionsClear i)], ci_issuerId i], ci_salt i]"

definition circuit_main :: "fieldHash \<Rightarrow> circuitInputs \<Rightarrow> bool" where
  "circuit_main hash i \<longleftrightarrow>
     hash [ci_noteSecret i, ci_noteBlinding i] \<noteq> 0
     \<and> ci_accredited i \<and> ci_sanctionsClear i
     \<and> ci_minJurisdiction i mod 2 ^ 32 \<le> ci_jurisdictionCode i mod 2 ^ 32
     \<and> ci_jurisdictionCode i mod 2 ^ 32 \<le> ci_maxJurisdiction i mod 2 ^ 32
     \<and> ci_dobTimestamp i mod 2 ^ 64 + EIGHTEEN_YEARS_SECONDS < 2 ^ 64
     \<and> ci_dobTimestamp i mod 2 ^ 64 + EIGHTEEN_YEARS_SECONDS \<le> ci_currentTime i mod 2 ^ 64
     \<and> compute_merkle_root hash (circuit_commitment hash i) (ci_pathSiblings i) (ci_pathBits i) = Some (ci_root i)
     \<and> compute_revocation_root hash (ci_revPathSiblings i) (ci_revPathBits i) = Some (ci_revocationRoot i)
     \<and> circuit_commitment hash i \<noteq> 0
     \<and> hash [ci_noteSecret i, ci_policyId i, ci_assetId i, ci_actionId i] = ci_nullifier i"

definition pof_circuit_main :: "fieldHash \<Rightarrow> int \<Rightarrow> int \<Rightarrow> int \<Rightarrow> int \<Rightarrow> nat \<Rightarrow> nat \<Rightarrow> int \<Rightarrow> bool" where
  "pof_circuit_main hash root revocationRoot pol nullifier balance threshold noteSecret \<longleftrightarrow>
     threshold \<le> balance \<and> root = 0 \<and> revocationRoot = 0 \<and> pol = 2 \<and> hash [noteSecret, pol] = nullifier"

section \<open>Lemmas\<close>

definition canonical_hash :: "fieldHash \<Rightarrow> bool" where
  "canonical_hash hash \<longleftrightarrow> (\<forall>xs. 0 \<le> hash xs \<and> hash xs < FR_MODULUS)"

lemma hash_bounds: "canonical_hash hash \<Longrightarrow> 0 \<le> hash xs" "canonical_hash hash \<Longrightarrow> hash xs < 2 ^ 256"
  by (auto simp: canonical_hash_def FR_MODULUS_def intro: less_trans)

lemma toBigInt_text: "toBigInt (FText s) = Inr n \<longleftrightarrow> BigInt_of s = Inr n"
proof -
  have "parse_bigint (trim s) = parse_bigint s" by (simp add: parse_bigint_def)
  moreover have "trim s = [] \<Longrightarrow> parse_bigint s = Some 0" by (simp add: parse_bigint_def)
  ultimately show ?thesis by (auto simp: Let_def BigInt_of_def split: option.splits)
qed

lemma traverse_texts: "traverse toBigInt (map FText xs) = Inr ns \<longleftrightarrow> traverse BigInt_of xs = Inr ns"
  by (induction xs arbitrary: ns) (auto simp: rbind_Inr_iff rmap_Inr_iff toBigInt_text simp del: toBigInt.simps)

lemma hex_word_eq: "0 \<le> n \<Longrightarrow> n < 2 ^ 256 \<Longrightarrow> hex_word n = ''0x'' @ hex32 n"
  using length_digits_of[of 16 "nat n" 64]
  by (simp add: hex_word_def toString16_def Let_def nat_less_iff)

lemma hex_word_back: "0 \<le> n \<Longrightarrow> n < 2 ^ 256 \<Longrightarrow> BigInt_of (hex_word n) = Inr n"
  using BigInt_hex32[of n] by (simp add: hex_word_eq)

lemma hex_word_inj: "0 \<le> m \<Longrightarrow> m < 2 ^ 256 \<Longrightarrow> 0 \<le> n \<Longrightarrow> n < 2 ^ 256 \<Longrightarrow> hex_word m = hex_word n \<longleftrightarrow> m = n"
  by (metis Inr_inject hex_word_back)

lemma length_padded8: "length (padded8 xs) = max 8 (length xs)"
  by (simp add: padded8_def)

lemma accumulated_Suc: "n < length xs \<Longrightarrow> accumulated hash xs (Suc n) = level hash (accumulated hash xs n) (xs ! n)"
  by (simp add: accumulated_def take_Suc_conv_app_nth)

lemma accumulated_bounds:
  assumes "canonical_hash hash"
  shows "0 \<le> accumulated hash xs n \<and> accumulated hash xs n < 2 ^ 256"
proof -
  have "0 \<le> foldl (level hash) 0 ys \<and> foldl (level hash) 0 ys < 2 ^ 256" for ys
    using hash_bounds[OF assms] by (cases ys rule: rev_cases) (simp_all add: level_def)
  then show ?thesis by (simp add: accumulated_def)
qed

text \<open>A level at which two accumulators agree although what goes into the hash differs.\<close>

definition collides_at :: "fieldHash \<Rightarrow> int list \<Rightarrow> int list \<Rightarrow> nat \<Rightarrow> bool" where
  "collides_at hash xs ys i \<longleftrightarrow> (accumulated hash xs i, xs ! i) \<noteq> (accumulated hash ys i, ys ! i)
     \<and> level hash (accumulated hash xs i) (xs ! i) = level hash (accumulated hash ys i) (ys ! i)"

lemma accumulated_collides:
  assumes "n \<le> length xs" and "n \<le> length ys" and "accumulated hash xs n = accumulated hash ys n"
  shows "take n xs = take n ys \<or> (\<exists>i<n. collides_at hash xs ys i)"
  using assms
proof (induction n)
  case (Suc n)
  then have "level hash (accumulated hash xs n) (xs ! n) = level hash (accumulated hash ys n) (ys ! n)"
    by (simp add: accumulated_Suc)
  then consider "collides_at hash xs ys n" | "accumulated hash xs n = accumulated hash ys n" "xs ! n = ys ! n"
    by (auto simp: collides_at_def)
  then show ?case
  proof cases
    case 1
    then show ?thesis by blast
  next
    case 2
    with Suc show ?thesis by (auto simp: take_Suc_conv_app_nth less_Suc_eq)
  qed
qed simp

lemma merkle_zeros: "foldl (merkle_level hash) acc (zip xs (replicate (length xs) 0)) = foldl (level hash) acc xs"
  by (induction xs arbitrary: acc) (simp_all add: merkle_level_def level_def)

lemma bits_zero: "list_all constrain_bit (replicate n 0)"
  by (simp add: list_all_iff constrain_bit_def frMod_def js_rem_def)

lemma circuit_root_zeros:
  assumes "length xs = 8"
  shows "compute_merkle_root hash leaf xs (replicate 8 0) = Some (foldl (level hash) leaf xs)"
  using merkle_zeros[of hash leaf xs] assms by (simp add: compute_merkle_root_def bits_zero)

lemma witness_opens:
  assumes "computeRevocationWitness hash rows = Inr wit"
  shows "\<exists>sibs. rv_siblings wit = map toString10 sibs \<and> rv_bits wit = replicate 8 ''0'' \<and> length sibs = 8
    \<and> rv_root wit = hex_word (accumulated hash sibs 8)
    \<and> compute_revocation_root hash sibs (replicate 8 0) = Some (accumulated hash sibs 8)"
proof -
  from assms obtain xs where xs: "traverse hexToBigInt (take 8 rows) = Inr xs"
    and wit: "wit = \<lparr>rv_root = (if take 8 rows = [] then EMPTY_REVOCATION_ROOT hash
        else computeRevocationRootFromSiblings hash (padded8 xs)), rv_siblings = map toString10 (padded8 xs), rv_bits = replicate 8 ''0''\<rparr>"
    by (auto simp: computeRevocationWitness_def Let_def rmap_Inr_iff)
  have len: "length (padded8 xs) = 8" using traverse_length[OF xs] by (simp add: length_padded8)
  then have again: "padded8 (padded8 xs) = padded8 xs" by (simp add: padded8_def)
  have "xs = [] \<Longrightarrow> padded8 xs = replicate 8 0" by (simp add: padded8_def)
  moreover have "take 8 rows = [] \<longleftrightarrow> xs = []" using traverse_length[OF xs] by (metis length_0_conv)
  moreover have "padded8 (replicate 8 0) = replicate 8 0" by (simp add: padded8_def)
  ultimately have "rv_root wit = hex_word (accumulated hash (padded8 xs) 8)"
    by (auto simp: wit EMPTY_REVOCATION_ROOT_def computeRevocationRootFromSiblings_def again)
  with len show ?thesis
    by (intro exI[of _ "padded8 xs"])
       (simp add: wit compute_revocation_root_def circuit_root_zeros accumulated_def)
qed

section \<open>Material\<close>

definition is_hex64 :: "string \<Rightarrow> bool" where
  "is_hex64 h \<longleftrightarrow> length h = 64 \<and> list_all (\<lambda>c. hex_val c \<noteq> None) h"

lemma hex_val_bound: "hex_val c = Some d \<Longrightarrow> d < 16"
  by (auto simp: hex_val_def Let_def split: if_splits)

lemma hex_char_nospace: "hex_val c \<noteq> None \<Longrightarrow> \<not> js_space c"
  by (auto simp: hex_val_def js_space_def Let_def split: if_splits)

lemma value_of_hex: "list_all (\<lambda>c. hex_val c \<noteq> None) h \<Longrightarrow> \<exists>v. value_of hex_val 16 acc h = Some v \<and> v < (acc + 1) * 16 ^ length h"
proof (induction h arbitrary: acc)
  case (Cons c h)
  then obtain d where d: "hex_val c = Some d" "d < 16" using hex_val_bound by auto
  from Cons obtain v where v: "value_of hex_val 16 (acc * 16 + d) h = Some v" "v < (acc * 16 + d + 1) * 16 ^ length h" by auto
  have "(acc * 16 + d + 1) * 16 ^ length h \<le> (acc * 16 + 16) * 16 ^ length h" using d(2) by (intro mult_right_mono) auto
  also have "\<dots> = (acc + 1) * 16 ^ length (c # h)" by (simp add: algebra_simps)
  finally show ?case using v d(1) by (intro exI[of _ v]) simp
qed simp

lemma hex_text_value:
  assumes "list_all (\<lambda>c. hex_val c \<noteq> None) h" and "h \<noteq> []"
  shows "\<exists>v. BigInt_of (''0x'' @ h) = Inr v \<and> 0 \<le> v \<and> v < 16 ^ length h"
proof -
  have "trim (''0x'' @ h) = ''0x'' @ h"
    by (rule trim_id) (use assms hex_char_nospace in \<open>auto simp: list_all_iff\<close>)
  moreover obtain v where "value_of hex_val 16 0 h = Some v" "v < 16 ^ length h" using value_of_hex[OF assms(1), of 0] by auto
  ultimately show ?thesis using assms(2)
    by (simp add: BigInt_of_def parse_bigint_def Let_def startsWith_def digits_value_def of_nat_less_numeral_power_cancel_iff)
qed

lemma field_62: "(16 :: int) ^ 62 < FR_MODULUS"
  by (simp add: FR_MODULUS_def)

lemma lower_digit: "d < 16 \<Longrightarrow> lower (hex_digit d) = hex_digit d"
  using of_hex_digit[of d] by (auto simp: lower_def Let_def split: if_splits)

lemma lower_word: "map lower (hex_word n) = hex_word n" if "0 \<le> n" and "n < 2 ^ 256"
proof -
  have "map lower (digits_of 16 m) = digits_of 16 m" for m
    using set_digits_of[of 16 m] by (intro map_idI) (auto dest!: subsetD simp: lower_digit)
  moreover have "lower (CHR ''0'') = CHR ''0''" "lower (CHR ''x'') = CHR ''x''" by code_simp+
  ultimately show ?thesis using that by (simp add: hex_word_eq padStart0_def)
qed

lemma normalize_word: "0 \<le> n \<Longrightarrow> n < 2 ^ 256 \<Longrightarrow> normalizeHex32 (hex_word n) = hex32 n"
  using lower_word[of n] length_hex32[of n]
  by (simp add: hex_word_eq normalizeHex32_def strip0xi_def startsWith_def) (simp add: padStart0_def)

lemma normalize_word_inj:
  "0 \<le> m \<Longrightarrow> m < 2 ^ 256 \<Longrightarrow> 0 \<le> n \<Longrightarrow> n < 2 ^ 256 \<Longrightarrow> normalizeHex32 (hex_word m) = normalizeHex32 (hex_word n) \<longleftrightarrow> m = n"
  by (metis hex_word_eq hex_word_inj normalize_word)

lemma fieldFromHash_value:
  assumes "\<forall>s. is_hex64 (sha s)"
  shows "\<exists>salt. fieldFromHash sha parts = Inr (toString10 salt) \<and> 0 \<le> salt \<and> salt < 16 ^ 62"
proof -
  define t where "t = sha (join '':'' parts)"
  have t: "length t = 64" "list_all (\<lambda>c. hex_val c \<noteq> None) t" using assms by (simp_all add: t_def is_hex64_def)
  then have "list_all (\<lambda>c. hex_val c \<noteq> None) (take 62 t)" unfolding list_all_iff by (meson in_set_takeD)
  moreover have "length (take 62 t) = 62" using t(1) by simp
  ultimately obtain v where "BigInt_of (''0x'' @ take 62 t) = Inr v" "0 \<le> v" "v < 16 ^ 62"
    using hex_text_value[of "take 62 t"] by (metis length_0_conv zero_neq_numeral)
  then show ?thesis by (intro exI[of _ v]) (simp add: fieldFromHash_def t_def)
qed

lemma digit_chars: "char_of (48 :: nat) = CHR ''0''" "char_of (49 :: nat) = CHR ''1''" "char_of (50 :: nat) = CHR ''2''"
  "char_of (51 :: nat) = CHR ''3''" "char_of (52 :: nat) = CHR ''4''" "char_of (53 :: nat) = CHR ''5''"
  "char_of (54 :: nat) = CHR ''6''" "char_of (55 :: nat) = CHR ''7''" "char_of (56 :: nat) = CHR ''8''" "char_of (57 :: nat) = CHR ''9''"
  by (simp_all add: char_of_def bit_0)

lemma constant_texts: "toString10 840 = ''840''" "toString10 631152000 = ''631152000''" "toString10 0 = ''0''" "toString10 1 = ''1''"
  "toString10 2 = ''2''" "toString10 999 = ''999''"
  by (simp_all add: toString10_def digits_of.simps[of 10] hex_digit_def digit_chars)

lemma material_facts:
  assumes "buildCredentialMaterial hash sha walletField env key = Inr m" and "canonical_hash hash" and "\<forall>s. is_hex64 (sha s)"
  shows "\<exists>salt i. BigInt_of (issuer_id env) = Inr i \<and> cm_salt m = toString10 salt \<and> 0 \<le> salt \<and> salt < FR_MODULUS
    \<and> (let c = hash [hash [hash [1, 840], hash [631152000, 1], i], salt] in
        cm_commitment m = hex_word c \<and> cm_root m = hex_word (foldl (level hash) c (replicate 8 0)))
    \<and> cm_issuerId m = issuer_id env \<and> cm_jurisdictionCode m = ''840'' \<and> cm_dobTimestamp m = ''631152000''
    \<and> cm_pathSiblings m = replicate 8 ''0'' \<and> cm_pathBits m = replicate 8 ''0''"
proof -
  let ?parts = "[''lumengate-credential-v1'', walletField, issuer_id env]"
  obtain salt where salt: "fieldFromHash sha ?parts = Inr (toString10 salt)" "0 \<le> salt" "salt < 16 ^ 62"
    using fieldFromHash_value[OF assms(3)] by blast
  have dec_back: "toBigInt (FText (toString10 x)) = Inr x" for x by (simp only: toBigInt_text) (simp add: BigInt_of_def)
  from constant_texts dec_back[of 840] dec_back[of 631152000] have num: "toBigInt (FText ''840'') = Inr 840"
    "toBigInt (FText ''631152000'') = Inr 631152000" by (simp_all only:)
  have word: "toBigInt (FText (hex_word (hash xs))) = Inr (hash xs)" for xs
    using hash_bounds[OF assms(2)] by (simp only: toBigInt_text hex_word_back)
  from assms(1) salt(1) obtain i where "toBigInt (FText (issuer_id env)) = Inr i"
    by (auto simp: buildCredentialMaterial_def Let_def hash2Fields_def hash3Fields_def num rbind_Inr_iff
        rmap_Inr_iff simp del: toBigInt.simps(2) join.simps)
  moreover from this have "BigInt_of (issuer_id env) = Inr i" by (simp only: toBigInt_text)
  ultimately show ?thesis using assms(1) salt less_trans[OF salt(3) field_62]
    by (auto simp: buildCredentialMaterial_def Let_def hash2Fields_def hash3Fields_def num dec_back word
        singleLeafRoot_def rmap_Inr_iff rbind_Inr_iff simp del: toBigInt.simps(2) join.simps)
qed

section \<open>Properties\<close>

definition leaf_values :: "string list \<Rightarrow> int list res" where
  "leaf_values leaves = traverse (\<lambda>l. toBigInt (FText l)) leaves"

text \<open>
  Two lists of notes with the same root agree in their first eight entries, missing ones counted as
  zero, or the hash has a collision at a level that the accumulation names.
\<close>

theorem note_roots_bind:
  assumes "canonical_hash hash" and "computeNoteRootFromLeaves hash xs = Inr root" and "computeNoteRootFromLeaves hash ys = Inr root"
  shows "\<exists>ms ns. leaf_values xs = Inr ms \<and> leaf_values ys = Inr ns
    \<and> (take 8 (padded8 ms) = take 8 (padded8 ns) \<or> (\<exists>i<8. collides_at hash (padded8 ms) (padded8 ns) i))"
proof -
  from assms(2,3) obtain ms ns where v: "leaf_values xs = Inr ms" "leaf_values ys = Inr ns"
    and "hex_word (accumulated hash (padded8 ms) 8) = hex_word (accumulated hash (padded8 ns) 8)"
    unfolding computeNoteRootFromLeaves_def leaf_values_def rmap_Inr_iff by metis
  then have "accumulated hash (padded8 ms) 8 = accumulated hash (padded8 ns) 8"
    using accumulated_bounds[OF assms(1)] by (metis hex_word_inj)
  then show ?thesis using v accumulated_collides[of 8 "padded8 ms" "padded8 ns" hash] by (simp add: length_padded8)
qed

theorem note_roots_bind_witness:
  "\<exists>ms ns. leaf_values [''1''] = Inr ms \<and> leaf_values [''1'', ''0''] = Inr ns
    \<and> (take 8 (padded8 ms) = take 8 (padded8 ns) \<or> (\<exists>i<8. collides_at (\<lambda>xs. 7) (padded8 ms) (padded8 ns) i))"
proof (rule note_roots_bind)
  show "canonical_hash (\<lambda>xs. 7)" by (simp add: canonical_hash_def FR_MODULUS_def)
  have "toBigInt (FText ''1'') = Inr 1" "toBigInt (FText ''0'') = Inr 0"
    using constant_texts(3,4) by (simp_all only: toBigInt_text) (simp_all add: BigInt_of_def flip: constant_texts)
  moreover have "accumulated (\<lambda>xs. 7) (padded8 xs) 8 = 7" for xs
    using length_padded8[of xs] accumulated_Suc[of 7 "padded8 xs" "\<lambda>xs. 7"] by (simp add: level_def)
  ultimately show "computeNoteRootFromLeaves (\<lambda>xs. 7) [''1''] = Inr (hex_word 7)"
    "computeNoteRootFromLeaves (\<lambda>xs. 7) [''1'', ''0''] = Inr (hex_word 7)"
    by (simp_all add: computeNoteRootFromLeaves_def del: toBigInt.simps(2))
qed

end
