(* ===== verification/IssuerAdmin.thy ===== *)
theory IssuerAdmin
  imports IssuerFields Activity
begin

text \<open>
  How the issuer service acts on the chain: \<^verbatim>\<open>issuer-service/lib/sorobanAdmin.js\<close>,
  \<^verbatim>\<open>onChainRoots.js\<close>, \<^verbatim>\<open>ed25519Issuer.js\<close>, \<^verbatim>\<open>issuerRegistry.js\<close> and
  \<^verbatim>\<open>smartAccount.js\<close>. Key pairs, hashes, servers, the clock and the \<^verbatim>\<open>stellar\<close> command
  line are members of the surroundings \<^verbatim>\<open>serviceEnv\<close>. Shown: a transaction that is reported was
  confirmed by Horizon, the waiting ends when the clock moves, and a commitment is signed and verified
  alike.
\<close>

section \<open>Surroundings\<close>

record keypair =
  kp_public :: string
  kp_raw :: "byte list"
  kp_sign :: "byte list \<Rightarrow> byte list"
  kp_verify :: "byte list \<Rightarrow> byte list \<Rightarrow> bool"
  kp_signTx :: "string \<Rightarrow> string"

record 'n serviceEnv =
  sv_env :: env
  sv_hash :: fieldHash
  sv_sha :: "string \<Rightarrow> string"
  sv_server :: "string \<Rightarrow> string \<Rightarrow> 'n chainServer"
  sv_contract :: "string \<Rightarrow> unit res"
  sv_isContract :: "string \<Rightarrow> bool"
  sv_native :: "scval \<Rightarrow> native res"
  sv_unhex :: "string \<Rightarrow> byte list"
  sv_base64 :: "byte list \<Rightarrow> string"
  sv_unbase64 :: "string \<Rightarrow> byte list"
  sv_keypair :: "string \<Rightarrow> keypair res"
  sv_fetch :: "'n webFetch"
  sv_exec :: "string list \<Rightarrow> string option \<Rightarrow> 'n \<Rightarrow> string res \<times> 'n"
  sv_random :: "'n \<Rightarrow> byte list \<times> 'n"
  sv_clock :: "'n clock"

definition env_or :: "'n serviceEnv \<Rightarrow> string list \<Rightarrow> string option" where
  "env_or S names = foldr (\<lambda>name rest. text_or (sv_env S name) rest) names None"

definition io_try :: "('w, 'a) io \<Rightarrow> ('w, 'a res) io" where
  "io_try m = (\<lambda>w. case m w of None \<Rightarrow> None | Some (r, w') \<Rightarrow> Some (Inr r, w'))"

lemma io_try_apply [io_simps]:
  "io_try m w = (case m w of None \<Rightarrow> None | Some (r, w') \<Rightarrow> Some (Inr r, w'))"
  by (simp add: io_try_def)

definition get_request :: "string \<Rightarrow> apiRequest" where
  "get_request url = \<lparr>ar_url = url, ar_method = ''GET'', ar_headers = [], ar_body = None\<rparr>"

definition http_get :: "'n serviceEnv \<Rightarrow> string \<Rightarrow> ('n, json httpResponse) io" where
  "http_get S url = io_call (sv_fetch S (get_request url))"

definition ends_with :: "string \<Rightarrow> string \<Rightarrow> bool" where
  "ends_with suffix s \<longleftrightarrow> drop (length s - length suffix) s = suffix"

section \<open>The administrator's transactions\<close>

definition hex32ToBuffer :: "'n serviceEnv \<Rightarrow> string \<Rightarrow> byte list" where
  "hex32ToBuffer S hex = sv_unhex S (normalizeHex32 hex)"

definition bytesN32ScVal :: "'n serviceEnv \<Rightarrow> string \<Rightarrow> scval" where
  "bytesN32ScVal S hex = ScBytes (hex32ToBuffer S hex)"

definition rpc_names :: "string list" where
  "rpc_names = [''STELLAR_RPC_URL'', ''VITE_STELLAR_RPC_URL'']"

definition passphrase_names :: "string list" where
  "passphrase_names = [''STELLAR_NETWORK_PASSPHRASE'', ''VITE_NETWORK_PASSPHRASE'']"

definition getNetworkConfig :: "'n serviceEnv \<Rightarrow> (string \<times> string) res" where
  "getNetworkConfig S = (case (env_or S rpc_names, env_or S passphrase_names) of
       (Some url, Some passphrase) \<Rightarrow> Inr (url, passphrase)
     | _ \<Rightarrow> Inl (Refused ''Missing STELLAR_RPC_URL or STELLAR_NETWORK_PASSPHRASE''))"

definition adminKeypair :: "'n serviceEnv \<Rightarrow> keypair res" where
  "adminKeypair S = (if \<not> truthy (sv_env S ''CONTRACT_ADMIN_SECRET_KEY'')
     then Inl (Refused ''Missing CONTRACT_ADMIN_SECRET_KEY'')
     else sv_keypair S (the (sv_env S ''CONTRACT_ADMIN_SECRET_KEY'')))"

definition horizonUrl :: "'n serviceEnv \<Rightarrow> string" where
  "horizonUrl S = (if truthy (sv_env S ''STELLAR_HORIZON_URL'') then the (sv_env S ''STELLAR_HORIZON_URL'')
     else ''https://horizon-testnet.stellar.org'')"

definition MAX_WAIT_MS :: int where "MAX_WAIT_MS = 120000"

text \<open>What an answer of Horizon about a transaction makes of the wait: an end, or another look.\<close>

definition looked_up :: "string \<Rightarrow> json httpResponse \<Rightarrow> string res option" where
  "looked_up hash1 res =
     (if http_ok res then Some (rbind (http_json res) (\<lambda>body.
        rbind (entry_get body ''successful'') (\<lambda>s. if json_truth s then Inr hash1
          else Inl (Refused (''Transaction '' @ hash1 @ '' failed on ledger'')))))
      else if http_status res \<noteq> 404 then Some (rbind (http_text res) (\<lambda>detail.
        Inl (Refused (''Horizon lookup failed for '' @ hash1 @ '': '' @ toString10 (http_status res) @ '' '' @ take 200 detail))))
      else None)"

partial_function (option) waitLoop :: "'n serviceEnv \<Rightarrow> string \<Rightarrow> int \<Rightarrow> 'n \<Rightarrow> (string res \<times> 'n) option" where
  "waitLoop S hash1 started n = (case sv_clock S n of (t, n1) \<Rightarrow>
     if t - started < MAX_WAIT_MS then
       (case sv_fetch S (get_request (horizonUrl S @ ''/transactions/'' @ hash1)) n1 of
          (Inl e, n2) \<Rightarrow> Some (Inl e, n2)
        | (Inr res, n2) \<Rightarrow> (case looked_up hash1 res of Some r \<Rightarrow> Some (r, n2) | None \<Rightarrow> waitLoop S hash1 started n2))
     else Some (Inl (Refused (''Transaction '' @ hash1 @ '' not confirmed after 120000ms'')), n1))"

definition waitForTransactionSuccess :: "'n serviceEnv \<Rightarrow> string \<Rightarrow> ('n, string) io" where
  "waitForTransactionSuccess S hash1 = io_bind (now_io (sv_clock S)) (\<lambda>started. waitLoop S hash1 started)"

text \<open>A call that is simulated, signed by the key pair, sent and waited for.\<close>

definition signedCall ::
  "'n serviceEnv \<Rightarrow> 'n chainServer \<Rightarrow> string \<Rightarrow> keypair \<Rightarrow> string \<Rightarrow> string \<Rightarrow> scval res list \<Rightarrow> string \<Rightarrow> ('n, string) io" where
  "signedCall S srv source kp contract method1 args failure =
     io_bind (io_call (cs_getAccount srv source)) (\<lambda>acct.
     io_bind (io_res (sv_contract S contract)) (\<lambda>u.
     io_bind (io_res (traverse (\<lambda>a. a) args)) (\<lambda>vals.
     let draft = \<lparr>tx_source = acct, tx_contract = contract, tx_method = method1, tx_args = vals, tx_timeout = 180\<rparr> in
     io_bind (io_call (cs_simulate srv draft)) (\<lambda>sim. case sim of
         SimError e \<Rightarrow> io_throw (Refused (if e = [] then failure else e))
       | SimSuccess result \<Rightarrow>
           io_bind (io_res (cs_assemble srv draft result)) (\<lambda>built.
           io_bind (io_call (cs_send srv (kp_signTx kp built))) (\<lambda>sent. case snd_status sent of
               SendError detail \<Rightarrow> io_throw (Refused detail)
             | SendAccepted \<Rightarrow> io_bind (waitForTransactionSuccess S (snd_hash sent)) (\<lambda>u. io_return (snd_hash sent))))))))"

text \<open>
  \<^verbatim>\<open>/txBadSeq|BAD_SEQ/i\<close>. The rejection of a sent transaction is retried where it is found, and
  what is thrown is retried by the \<^verbatim>\<open>catch\<close> around: the same test and the same wait.
\<close>

definition bad_sequence :: "string \<Rightarrow> bool" where
  "bad_sequence m \<longleftrightarrow> contains (map lower m) ''txbadseq'' \<or> contains (map lower m) ''bad_seq''"

fun adminAttempts :: "nat \<Rightarrow> ('n, string) io \<Rightarrow> ('n, string) io" where
  "adminAttempts 0 once = once"
| "adminAttempts (Suc left) once = io_catch once (\<lambda>e. if bad_sequence (message e) then adminAttempts left once else io_throw e)"

definition invokeAdminContract :: "'n serviceEnv \<Rightarrow> string \<Rightarrow> string \<Rightarrow> scval list \<Rightarrow> ('n, string) io" where
  "invokeAdminContract S contractId method1 scArgs =
     io_bind (io_res (getNetworkConfig S)) (\<lambda>(url, passphrase).
     io_bind (io_res (adminKeypair S)) (\<lambda>admin.
       adminAttempts 3 (signedCall S (sv_server S url passphrase) (kp_public admin) admin contractId method1
         (map Inr scArgs) ''Contract simulation failed'')))"

definition registry_names :: "string list" where
  "registry_names = [''CREDENTIAL_REGISTRY_ID'', ''VITE_CREDENTIAL_REGISTRY_ID'']"

text \<open>\<^verbatim>\<open>Address.fromString(a).toScVal()\<close>, which needs no network.\<close>

definition address_val :: "'n serviceEnv \<Rightarrow> string \<Rightarrow> scval res" where
  "address_val S a = cs_address (sv_server S [] []) a"

definition setRootOnChain :: "'n serviceEnv \<Rightarrow> string \<Rightarrow> string \<Rightarrow> ('n, string option) io" where
  "setRootOnChain S method1 rootHex =
     (let admin = sv_env S ''CONTRACT_ADMIN_PUBLIC_KEY'' in
      case env_or S registry_names of None \<Rightarrow> io_return None
      | Some registryId \<Rightarrow>
        if \<not> truthy admin \<or> \<not> truthy (sv_env S ''CONTRACT_ADMIN_SECRET_KEY'') then io_return None
        else io_bind (io_res (address_val S (the admin))) (\<lambda>a.
          io_bind (invokeAdminContract S registryId method1 [a, bytesN32ScVal S (normalizeHex32 rootHex)]) (\<lambda>hash1.
            io_return (Some (normalizeHex32 rootHex)))))"

definition syncCredentialRootOnChain :: "'n serviceEnv \<Rightarrow> string \<Rightarrow> ('n, string option) io" where
  "syncCredentialRootOnChain S rootHex = setRootOnChain S ''set_root'' rootHex"

definition syncNoteRootOnChain :: "'n serviceEnv \<Rightarrow> string \<Rightarrow> ('n, string option) io" where
  "syncNoteRootOnChain S rootHex = setRootOnChain S ''set_note_root'' rootHex"

definition bigint_i128 :: "string \<Rightarrow> scval res" where
  "bigint_i128 raw = rbind (BigInt_of raw) i128Val"

definition adminSacTransfer :: "'n serviceEnv \<Rightarrow> string \<Rightarrow> string \<Rightarrow> string \<Rightarrow> ('n, string) io" where
  "adminSacTransfer S sacId toAddress amountRaw =
     io_bind (io_res (getNetworkConfig S)) (\<lambda>(url, passphrase).
     io_bind (io_res (adminKeypair S)) (\<lambda>admin.
       let adminAddr = (if truthy (sv_env S ''CONTRACT_ADMIN_PUBLIC_KEY'') then the (sv_env S ''CONTRACT_ADMIN_PUBLIC_KEY'')
             else kp_public admin) in
       signedCall S (sv_server S url passphrase) (kp_public admin) admin sacId ''transfer''
         [address_val S adminAddr, address_val S toAddress, bigint_i128 amountRaw] ''SAC transfer simulation failed''))"

definition adminMintTreasury :: "'n serviceEnv \<Rightarrow> string \<Rightarrow> string \<Rightarrow> string \<Rightarrow> ('n, string) io" where
  "adminMintTreasury S tokenId toAddress amountRaw =
     (if \<not> truthy (sv_env S ''CONTRACT_ADMIN_PUBLIC_KEY'') then io_throw (Refused ''Missing CONTRACT_ADMIN_PUBLIC_KEY'')
      else io_bind (io_res (traverse (\<lambda>a. a) [address_val S (the (sv_env S ''CONTRACT_ADMIN_PUBLIC_KEY'')),
          address_val S toAddress, bigint_i128 amountRaw])) (\<lambda>args.
        invokeAdminContract S tokenId ''admin_mint'' args))"

section \<open>Reads\<close>

text \<open>\<^verbatim>\<open>Buffer.from(v)\<close>: of a text its bytes, of an object with a length its numbers.\<close>

fun buffer_from :: "native \<Rightarrow> byte list res" where
  "buffer_from (NBuf b) = Inr b"
| "buffer_from (NText s) = Inr (as_bytes s)"
| "buffer_from (NArr vs) = Inr (map (\<lambda>v. to_uint8 (js_Number v)) vs)"
| "buffer_from (NObj m) = (case js_Number (member (NObj m) ''length'') of None \<Rightarrow> Inl (TypeError ''Buffer.from'')
     | Some n \<Rightarrow> Inr (map (\<lambda>i. to_uint8 (js_Number (index (NObj m) i))) [0..<nat n]))"
| "buffer_from v = Inl (TypeError ''Buffer.from'')"

definition hex_field :: "native \<Rightarrow> string res" where
  "hex_field v = rmap (\<lambda>b. ''0x'' @ bytesToHex b) (buffer_from v)"

definition roots_tuple :: "native \<Rightarrow> chainRoots res" where
  "roots_tuple tuple = rbind (hex_field (index tuple 0)) (\<lambda>root. rbind (hex_field (index tuple 1)) (\<lambda>revocation.
     rmap (\<lambda>note. \<lparr>or_root = root, or_revocationRoot = revocation, or_noteRoot = note\<rparr>)
       (hex_field (or_else (index tuple 2) (NBuf (replicate 32 0))))))"

definition readOnChainRoots :: "'n serviceEnv \<Rightarrow> ('n, chainRoots) io" where
  "readOnChainRoots S = (case (env_or S rpc_names, env_or S passphrase_names, env_or S registry_names) of
       (Some url, Some passphrase, Some registryId) \<Rightarrow>
         io_bind (io_res (sv_contract S registryId)) (\<lambda>u.
         io_bind (io_call (cs_simulate (sv_server S url passphrase) \<lparr>tx_source = readOnlyLedgerAccount,
             tx_contract = registryId, tx_method = ''get_roots'', tx_args = [], tx_timeout = 30\<rparr>)) (\<lambda>sim. case sim of
             SimError e \<Rightarrow> io_throw (Refused e)
           | SimSuccess None \<Rightarrow> io_throw (Refused ''No return value from get_roots'')
           | SimSuccess (Some val) \<Rightarrow> io_res (rbind (sv_native S val) roots_tuple)))
     | _ \<Rightarrow> io_throw (Refused ''Missing STELLAR_RPC_URL, STELLAR_NETWORK_PASSPHRASE, or CREDENTIAL_REGISTRY_ID''))"

section \<open>The issuer's key\<close>

definition loadIssuerKeypair :: "'n serviceEnv \<Rightarrow> keypair res" where
  "loadIssuerKeypair S = (case env_or S [''ISSUER_ED25519_SECRET'', ''ISSUER_STELLAR_SECRET''] of
       None \<Rightarrow> Inl (Refused ''ISSUER_ED25519_SECRET or ISSUER_STELLAR_SECRET required'')
     | Some secret \<Rightarrow> sv_keypair S secret)"

record issuerMeta =
  im_stellarPublicKey :: string
  im_issuerId :: "int option"
  im_pubkeyHex :: string
  im_pubkeyBytes64 :: string

definition issuerMetadata :: "'n serviceEnv \<Rightarrow> issuerMeta res" where
  "issuerMetadata S = rmap (\<lambda>kp. let pubkeyHex = bytesToHex (kp_raw kp) in
     \<lparr>im_stellarPublicKey = kp_public kp, im_issuerId = Number_of (issuer_id (sv_env S)), im_pubkeyHex = pubkeyHex,
      im_pubkeyBytes64 = pubkeyHex @ replicate (128 - length pubkeyHex) (CHR ''0'')\<rparr>) (loadIssuerKeypair S)"

record issuerSignature =
  sg_meta :: issuerMeta
  sg_commitment :: string
  sg_base64 :: string
  sg_hex :: string

definition signCommitment :: "'n serviceEnv \<Rightarrow> string \<Rightarrow> issuerSignature res" where
  "signCommitment S commitmentHex =
     rbind (loadIssuerKeypair S) (\<lambda>kp. let hex = strip0xi commitmentHex in
       if \<not> is_hex64 hex then Inl (Refused ''commitment must be 32-byte hex'')
       else let signature = kp_sign kp (sv_unhex S hex) in
         rmap (\<lambda>meta. \<lparr>sg_meta = meta, sg_commitment = ''0x'' @ map lower hex, sg_base64 = sv_base64 S signature,
           sg_hex = bytesToHex signature\<rparr>) (issuerMetadata S))"

definition verifyCommitmentSignature :: "'n serviceEnv \<Rightarrow> string \<Rightarrow> string \<Rightarrow> bool res" where
  "verifyCommitmentSignature S commitmentHex signatureBase64 =
     rmap (\<lambda>kp. kp_verify kp (sv_unhex S (strip0xi commitmentHex)) (sv_unbase64 S signatureBase64)) (loadIssuerKeypair S)"

section \<open>The registry of issuers\<close>

definition envTrim :: "string option \<Rightarrow> string" where
  "envTrim v = (if truthy v then strip_cr (trim (the v)) else [])"

definition registryId :: "'n serviceEnv \<Rightarrow> string" where
  "registryId S = envTrim (env_or S [''ISSUER_REGISTRY_ID'', ''VITE_ISSUER_REGISTRY_ID''])"

definition invokeRead :: "'n serviceEnv \<Rightarrow> string \<Rightarrow> string \<Rightarrow> string list \<Rightarrow> ('n, string) io" where
  "invokeRead S registry fn args = io_bind (io_call (sv_exec S ([''contract'', ''invoke'', ''--id'', registry,
       ''--source-account'', ''deployer'', ''--network'', ''testnet'', ''--'', fn] @ args) None)) (\<lambda>out. io_return (trim out))"

record issuerEntry =
  ie_issuerId :: "int option"
  ie_authorized :: bool
  ie_pubkeyHex :: "string option"
  ie_registryId :: "string option"

definition getIssuerById :: "'n serviceEnv \<Rightarrow> string \<Rightarrow> ('n, issuerEntry) io" where
  "getIssuerById S issuerId = (let id1 = registryId S in
     if id1 = [] then io_throw (Refused ''ISSUER_REGISTRY_ID not configured'')
     else io_bind (invokeRead S id1 ''is_authorized'' [''--issuer_id'', issuerId]) (\<lambda>authorized.
       if \<not> ends_with ''true'' authorized
       then io_return \<lparr>ie_issuerId = Number_of issuerId, ie_authorized = False, ie_pubkeyHex = None, ie_registryId = None\<rparr>
       else io_bind (invokeRead S id1 ''get_pubkey'' [''--issuer_id'', issuerId]) (\<lambda>pubkeyOut.
         let pubkeyHex = trim (filter (\<lambda>c. c \<noteq> CHR 0x22) pubkeyOut) in
         io_return \<lparr>ie_issuerId = Number_of issuerId, ie_authorized = True,
           ie_pubkeyHex = (if pubkeyHex \<noteq> [] \<and> pubkeyHex \<noteq> ''null'' then Some pubkeyHex else None), ie_registryId = Some id1\<rparr>)))"

section \<open>Waiting\<close>

text \<open>An answer of Horizon that the transaction is on the ledger and succeeded.\<close>

definition confirmed :: "'n serviceEnv \<Rightarrow> string \<Rightarrow> bool" where
  "confirmed S hash1 \<longleftrightarrow> (\<exists>n n' res body s. sv_fetch S (get_request (horizonUrl S @ ''/transactions/'' @ hash1)) n = (Inr res, n')
     \<and> http_ok res \<and> http_json res = Inr body \<and> entry_get body ''successful'' = Inr s \<and> json_truth s)"

lemma looked_up_Inr: "looked_up hash1 res = Some (Inr h) \<longleftrightarrow>
    h = hash1 \<and> http_ok res \<and> (\<exists>body s. http_json res = Inr body \<and> entry_get body ''successful'' = Inr s \<and> json_truth s)"
  by (auto simp: looked_up_def rbind_Inr_iff split: if_splits)

lemma waitLoop_answers:
  assumes "waitLoop S hash1 started n = Some y"
  shows "\<forall>h. fst y = Inr h \<longrightarrow> h = hash1 \<and> confirmed S hash1"
proof (rule waitLoop.raw_induct[OF _ assms, where P = "\<lambda>S hash1 started n y. \<forall>h. fst y = Inr h \<longrightarrow> h = hash1 \<and> confirmed S hash1"],
    goal_cases step)
  case (step loop S hash1 started n y)
  obtain t n1 where c: "sv_clock S n = (t, n1)" by fastforce
  obtain r n2 where f: "sv_fetch S (get_request (horizonUrl S @ ''/transactions/'' @ hash1)) n1 = (r, n2)" by fastforce
  show ?case
  proof (intro allI impI)
    fix h assume h: "fst y = Inr h"
    from step(2) h c f obtain res where r: "r = Inr res"
      and k: "case looked_up hash1 res of Some q \<Rightarrow> q = Inr h | None \<Rightarrow> loop S hash1 started n2 = Some y"
      by (cases r) (auto split: if_splits option.splits)
    show "h = hash1 \<and> confirmed S hash1"
    proof (cases "looked_up hash1 res")
      case None
      with k have "loop S hash1 started n2 = Some y" by simp
      from step(1)[OF this] h show ?thesis by blast
    next
      case (Some q)
      with k have "looked_up hash1 res = Some (Inr h)" by simp
      with f r show ?thesis unfolding looked_up_Inr confirmed_def by blast
    qed
  qed
qed

lemma waitLoop_confirmed: "waitLoop S hash1 started n = Some (Inr h, n') \<Longrightarrow> h = hash1 \<and> confirmed S hash1"
  by (drule waitLoop_answers) simp

lemma wait_confirmed: "waitForTransactionSuccess S hash1 w = Some (Inr h, w') \<Longrightarrow> h = hash1 \<and> confirmed S hash1"
  by (auto simp: waitForTransactionSuccess_def now_io_def io_simps waitLoop_confirmed split: prod.splits option.splits)

text \<open>A clock that reads the world's time, which no reading turns back and every request moves on.\<close>

definition ticking :: "'n serviceEnv \<Rightarrow> ('n \<Rightarrow> int) \<Rightarrow> bool" where
  "ticking S time \<longleftrightarrow> (\<forall>n. fst (sv_clock S n) = time n \<and> time n \<le> time (snd (sv_clock S n)))
     \<and> (\<forall>req n. time n < time (snd (sv_fetch S req n)))"

lemma ticking_clock: "ticking S time \<Longrightarrow> fst (sv_clock S n) = time n \<and> time n \<le> time (snd (sv_clock S n))"
  by (simp add: ticking_def)

lemma ticking_fetch: "ticking S time \<Longrightarrow> time n < time (snd (sv_fetch S req n))"
  by (simp add: ticking_def)

lemma waitLoop_ends:
  assumes "ticking S time"
  shows "\<exists>r n'. waitLoop S hash1 started n = Some (r, n') \<and> time n \<le> time n'"
proof (induction "nat (started + MAX_WAIT_MS - time n)" arbitrary: n rule: less_induct)
  case less
  obtain n1 where c: "sv_clock S n = (time n, n1)" "time n \<le> time n1"
    using ticking_clock[OF assms, of n] by (cases "sv_clock S n") simp
  obtain r n2 where f: "sv_fetch S (get_request (horizonUrl S @ ''/transactions/'' @ hash1)) n1 = (r, n2)" "time n1 < time n2"
    using ticking_fetch[OF assms, of n1 "get_request (horizonUrl S @ ''/transactions/'' @ hash1)"]
    by (cases "sv_fetch S (get_request (horizonUrl S @ ''/transactions/'' @ hash1)) n1") simp
  have later: "time n \<le> time n2" using c(2) f(2) by linarith
  have step: "waitLoop S hash1 started n = (if time n - started < MAX_WAIT_MS then
      (case r of Inl e \<Rightarrow> Some (Inl e, n2) | Inr res \<Rightarrow>
         (case looked_up hash1 res of Some q \<Rightarrow> Some (q, n2) | None \<Rightarrow> waitLoop S hash1 started n2))
      else Some (Inl (Refused (''Transaction '' @ hash1 @ '' not confirmed after 120000ms'')), n1))"
    by (rule trans[OF waitLoop.simps]) (simp only: c f prod.case)
  show ?case
  proof (cases "time n - started < MAX_WAIT_MS")
    case True
    show ?thesis
    proof (cases "\<exists>res. r = Inr res \<and> looked_up hash1 res = None")
      case again: True
      have "nat (started + MAX_WAIT_MS - time n2) < nat (started + MAX_WAIT_MS - time n)" using True c(2) f(2) by simp
      from less[OF this] obtain q n' where "waitLoop S hash1 started n2 = Some (q, n')" "time n2 \<le> time n'" by blast
      with again True later show ?thesis unfolding step by auto
    next
      case False
      with True later show ?thesis unfolding step by (cases r) (auto split: option.split)
    qed
  next
    case False
    with c(2) show ?thesis unfolding step by simp
  qed
qed

lemma case_run [run_iff]:
  "(case sim of SimError e \<Rightarrow> f e | SimSuccess v \<Rightarrow> g v) w = Some (Inr b, w')
     \<longleftrightarrow> (\<exists>e. sim = SimError e \<and> f e w = Some (Inr b, w')) \<or> (\<exists>v. sim = SimSuccess v \<and> g v w = Some (Inr b, w'))"
  "(case st of SendError e \<Rightarrow> p e | SendAccepted \<Rightarrow> q) w = Some (Inr b, w')
     \<longleftrightarrow> (\<exists>e. st = SendError e \<and> p e w = Some (Inr b, w')) \<or> st = SendAccepted \<and> q w = Some (Inr b, w')"
  by (auto split: simResponse.splits sendStatus.splits option.splits prod.splits)

text \<open>
  A call of a contract that went through: the account was read, this draft was simulated, assembled,
  signed by the key pair and sent, the network took it under the hash, and the wait for that hash
  ended with Horizon's answer that it succeeded; each from the world the one before left.
\<close>

definition call_made ::
  "'n serviceEnv \<Rightarrow> 'n chainServer \<Rightarrow> keypair \<Rightarrow> string \<Rightarrow> string \<Rightarrow> string \<Rightarrow> scval list \<Rightarrow> string \<Rightarrow> 'n \<Rightarrow> 'n \<Rightarrow> bool" where
  "call_made S srv kp source contract method1 vals h w w' \<longleftrightarrow> (\<exists>acct w1 result w2 built w3.
     cs_getAccount srv source w = (Inr acct, w1)
     \<and> cs_simulate srv \<lparr>tx_source = acct, tx_contract = contract, tx_method = method1, tx_args = vals, tx_timeout = 180\<rparr> w1
         = (Inr (SimSuccess result), w2)
     \<and> cs_assemble srv \<lparr>tx_source = acct, tx_contract = contract, tx_method = method1, tx_args = vals, tx_timeout = 180\<rparr> result
         = Inr built
     \<and> cs_send srv (kp_signTx kp built) w2 = (Inr \<lparr>snd_hash = h, snd_status = SendAccepted\<rparr>, w3)
     \<and> waitForTransactionSuccess S h w3 = Some (Inr h, w')) \<and> confirmed S h"

lemma signedCall_run:
  assumes "signedCall S srv source kp contract method1 args failure w = Some (Inr h, w')"
  shows "\<exists>vals. traverse (\<lambda>a. a) args = Inr vals \<and> call_made S srv kp source contract method1 vals h w w'"
proof -
  from assms obtain acct w1 vals result w2 built sent w3 h' where
    run: "cs_getAccount srv source w = (Inr acct, w1)" "traverse (\<lambda>a. a) args = Inr vals"
      "cs_simulate srv \<lparr>tx_source = acct, tx_contract = contract, tx_method = method1, tx_args = vals, tx_timeout = 180\<rparr> w1
         = (Inr (SimSuccess result), w2)"
      "cs_assemble srv \<lparr>tx_source = acct, tx_contract = contract, tx_method = method1, tx_args = vals, tx_timeout = 180\<rparr> result
         = Inr built"
      "cs_send srv (kp_signTx kp built) w2 = (Inr sent, w3)" "snd_status sent = SendAccepted" "snd_hash sent = h"
      "waitForTransactionSuccess S h w3 = Some (Inr h', w')"
    unfolding signedCall_def Let_def run_iff by auto
  have "h' = h" "confirmed S h" using wait_confirmed[OF run(8)] by simp_all
  moreover have "sent = \<lparr>snd_hash = h, snd_status = SendAccepted\<rparr>" using run(6,7) by (cases sent) simp
  ultimately have "call_made S srv kp source contract method1 vals h w w'"
    unfolding call_made_def using run(1,3-5,8) by blast
  with run(2) show ?thesis by blast
qed

lemma signedCall_confirmed:
  assumes "signedCall S srv source kp contract method1 args failure w = Some (Inr h, w')"
  shows "confirmed S h"
  using signedCall_run[OF assms] by (auto simp: call_made_def)

lemma adminAttempts_run: "adminAttempts n once w = Some (Inr h, w') \<Longrightarrow> \<exists>w1. once w1 = Some (Inr h, w')"
proof (induction n arbitrary: w)
  case (Suc n)
  then show ?case by (auto simp: io_simps split: option.splits sum.splits prod.splits if_splits)
qed auto

text \<open>The same of the administrator, after whatever attempts ended with a stale sequence number.\<close>

definition admin_call :: "'n serviceEnv \<Rightarrow> string \<Rightarrow> string \<Rightarrow> scval list \<Rightarrow> string \<Rightarrow> 'n \<Rightarrow> bool" where
  "admin_call S contract method1 vals h w' \<longleftrightarrow> (\<exists>url passphrase admin w. getNetworkConfig S = Inr (url, passphrase)
     \<and> adminKeypair S = Inr admin \<and> call_made S (sv_server S url passphrase) admin (kp_public admin) contract method1 vals h w w')"

lemma traverse_known: "traverse (\<lambda>a. a) (map Inr args) = Inr args"
  by (induction args) simp_all

lemma invoke_run:
  assumes "invokeAdminContract S contract method1 args w = Some (Inr h, w')"
  shows "admin_call S contract method1 args h w'"
proof -
  from assms obtain url passphrase admin w1 where net: "getNetworkConfig S = Inr (url, passphrase)" "adminKeypair S = Inr admin"
    and run: "signedCall S (sv_server S url passphrase) (kp_public admin) admin contract method1 (map Inr args)
       ''Contract simulation failed'' w1 = Some (Inr h, w')"
    unfolding invokeAdminContract_def run_iff by (auto simp: run_iff dest!: adminAttempts_run)
  from signedCall_run[OF run] net show ?thesis by (auto simp: traverse_known admin_call_def)
qed

lemma invoke_confirmed: "invokeAdminContract S contract method1 args w = Some (Inr h, w') \<Longrightarrow> confirmed S h"
  unfolding invokeAdminContract_def run_iff
  by (auto simp: run_iff dest!: adminAttempts_run signedCall_confirmed)

lemma mint_confirmed: "adminMintTreasury S token to1 raw w = Some (Inr h, w') \<Longrightarrow> confirmed S h"
  by (auto simp: adminMintTreasury_def run_iff dest!: invoke_confirmed split: if_splits)

section \<open>Properties\<close>

text \<open>
  C21: A root that is reported as set, of credentials or of notes, is the given one in 64 lower-case
  digits, and it was set by a transaction that called the registry's method with the administrator's
  address and that root, was signed by the administrator, taken by the network and confirmed by
  Horizon as successful; the report follows that confirmation. Without the registry or the
  administrator's keys nothing is asked and nothing is reported.
\<close>

theorem root_set_confirmed:
  assumes "(sync_root, method1) \<in> {(syncCredentialRootOnChain S root, ''set_root''), (syncNoteRootOnChain S root, ''set_note_root'')}"
    and "sync_root w = Some (Inr r, w')"
  shows "case r of
      Some set_root \<Rightarrow> set_root = normalizeHex32 root
        \<and> (\<exists>registry admin a h. env_or S registry_names = Some registry \<and> sv_env S ''CONTRACT_ADMIN_PUBLIC_KEY'' = Some admin
            \<and> address_val S admin = Inr a \<and> admin_call S registry method1 [a, bytesN32ScVal S set_root] h w' \<and> confirmed S h)
    | None \<Rightarrow> w' = w \<and> (env_or S registry_names = None \<or> \<not> truthy (sv_env S ''CONTRACT_ADMIN_PUBLIC_KEY'')
        \<or> \<not> truthy (sv_env S ''CONTRACT_ADMIN_SECRET_KEY''))"
proof -
  have "setRootOnChain S method1 root w = Some (Inr r, w')"
    using assms by (auto simp: syncCredentialRootOnChain_def syncNoteRootOnChain_def)
  then show ?thesis
    by (auto simp: setRootOnChain_def Let_def run_iff truthy_def split: option.splits if_splits)
      (meson invoke_run invoke_confirmed)+
qed

text \<open>
  When requests take time on the clock the service reads, waiting for a transaction ends, with an
  answer or with an exception, however often Horizon has not heard of it.
\<close>

theorem confirmation_wait_ends:
  assumes "ticking S time"
  shows "\<exists>r w'. waitForTransactionSuccess S hash1 w = Some (r, w')"
proof -
  obtain t w1 where "sv_clock S w = (t, w1)" by fastforce
  with waitLoop_ends[OF assms, of hash1 t w1] show ?thesis
    by (auto simp: waitForTransactionSuccess_def now_io_def io_simps)
qed

text \<open>
  What the issuer signs it verifies: a commitment that is signed is 64 hexadecimal digits, and the
  signature's base64 form passes the check the service makes before it answers.
\<close>

theorem signature_verifies:
  assumes "signCommitment S commitment = Inr sig" and "\<forall>b. sv_unbase64 S (sv_base64 S b) = b"
    and "\<forall>secret kp m. sv_keypair S secret = Inr kp \<longrightarrow> kp_verify kp m (kp_sign kp m)"
  shows "verifyCommitmentSignature S commitment (sg_base64 sig) = Inr True \<and> is_hex64 (strip0xi commitment)
    \<and> sg_commitment sig = ''0x'' @ map lower (strip0xi commitment)"
  using assms
  by (auto simp: signCommitment_def verifyCommitmentSignature_def rbind_Inr_iff rmap_Inr_iff Let_def
      loadIssuerKeypair_def split: if_splits option.splits)

section \<open>A demonstration service\<close>

text \<open>
  A service whose world is the time in milliseconds, with constant hashes, a registry that holds the
  root 7 and a Horizon that confirms everything.
\<close>

definition word_of_7 :: "byte list" where
  "word_of_7 = replicate 31 0 @ [7]"

definition demo_serviceServer :: "int chainServer" where
  "demo_serviceServer = \<lparr>cs_rpc = undefined, cs_getAccount = (\<lambda>a n. (Inr \<lparr>ac_address = a, ac_sequence = 7\<rparr>, n + 1)),
     cs_simulate = (\<lambda>tx n. (Inr (SimSuccess (Some ScVoid)), n + 1)), cs_assemble = (\<lambda>tx v. Inr (tx_method tx)),
     cs_send = (\<lambda>x n. (Inr \<lparr>snd_hash = ''h'', snd_status = SendAccepted\<rparr>, n + 1)),
     cs_getTransaction = (\<lambda>h n. (Inr (TxSuccess None), n + 1)), cs_latestLedger = (\<lambda>n. (Inr 1, n)),
     cs_address = (\<lambda>a. Inr (ScAddress a))\<rparr>"

definition demo_keypair :: "string \<Rightarrow> keypair" where
  "demo_keypair secret = \<lparr>kp_public = secret, kp_raw = replicate 32 1, kp_sign = rev, kp_verify = (\<lambda>m sig. sig = rev m),
     kp_signTx = (\<lambda>x. x)\<rparr>"

definition demo_serviceEnv :: env where
  "demo_serviceEnv = map_of [(''STELLAR_RPC_URL'', ''r''), (''STELLAR_NETWORK_PASSPHRASE'', ''p''),
     (''CREDENTIAL_REGISTRY_ID'', ''R''), (''CONTRACT_ADMIN_PUBLIC_KEY'', ''A''), (''CONTRACT_ADMIN_SECRET_KEY'', ''a''),
     (''ISSUER_ED25519_SECRET'', ''i''), (''ISSUER_ID'', ''2'')]"

definition demo_service :: "int serviceEnv" where
  "demo_service = \<lparr>sv_env = demo_serviceEnv, sv_hash = (\<lambda>xs. 7), sv_sha = (\<lambda>s. replicate 64 (CHR ''0'')),
     sv_server = (\<lambda>u p. demo_serviceServer), sv_contract = (\<lambda>c. Inr ()), sv_isContract = (\<lambda>c. True),
     sv_native = (\<lambda>v. Inr (NArr [NBuf word_of_7, NBuf word_of_7, NBuf word_of_7])), sv_unhex = parse_pairs,
     sv_base64 = bytesToHex, sv_unbase64 = parse_pairs, sv_keypair = (\<lambda>secret. Inr (demo_keypair secret)),
     sv_fetch = (\<lambda>req n. (Inr \<lparr>http_ok = True, http_status = 200, http_text = Inr [],
       http_json = Inr (JObj [(''successful'', JBool True)])\<rparr>, n + 1)),
     sv_exec = (\<lambda>args input n. (Inr ''true'', n + 1)), sv_random = (\<lambda>n. (replicate 31 1, n)), sv_clock = (\<lambda>n. (n, n))\<rparr>"

lemma demo_service_sel [simp]:
  "sv_hash demo_service = (\<lambda>xs. 7)" "sv_sha demo_service s = replicate 64 (CHR ''0'')" "sv_server demo_service u p = demo_serviceServer"
  "sv_contract demo_service c = Inr ()" "sv_native demo_service v = Inr (NArr [NBuf word_of_7, NBuf word_of_7, NBuf word_of_7])"
  "sv_unhex demo_service = parse_pairs" "sv_base64 demo_service = bytesToHex" "sv_unbase64 demo_service = parse_pairs"
  "sv_keypair demo_service secret = Inr (demo_keypair secret)"
  "sv_fetch demo_service req n = (Inr \<lparr>http_ok = True, http_status = 200, http_text = Inr [],
     http_json = Inr (JObj [(''successful'', JBool True)])\<rparr>, n + 1)"
  "sv_exec demo_service args input n = (Inr ''true'', n + 1)" "sv_random demo_service n = (replicate 31 1, n)"
  "sv_clock demo_service n = (n, n)" "sv_env demo_service = demo_serviceEnv"
  by (simp_all add: demo_service_def)

lemma demo_serviceServer_sel [simp]:
  "cs_getAccount demo_serviceServer a n = (Inr \<lparr>ac_address = a, ac_sequence = 7\<rparr>, n + 1)"
  "cs_simulate demo_serviceServer tx n = (Inr (SimSuccess (Some ScVoid)), n + 1)" "cs_assemble demo_serviceServer tx v = Inr (tx_method tx)"
  "cs_send demo_serviceServer x n = (Inr \<lparr>snd_hash = ''h'', snd_status = SendAccepted\<rparr>, n + 1)"
  "cs_address demo_serviceServer a = Inr (ScAddress a)"
  by (simp_all add: demo_serviceServer_def)

lemma demo_names:
  "env_or demo_service rpc_names = Some ''r''" "env_or demo_service passphrase_names = Some ''p''"
  "env_or demo_service registry_names = Some ''R''" "demo_serviceEnv ''CONTRACT_ADMIN_PUBLIC_KEY'' = Some ''A''"
  "demo_serviceEnv ''CONTRACT_ADMIN_SECRET_KEY'' = Some ''a''" "issuer_id demo_serviceEnv = ''2''"
  "env_or demo_service [''ISSUER_ED25519_SECRET'', ''ISSUER_STELLAR_SECRET''] = Some ''i''"
  by (simp_all add: env_or_def rpc_names_def passphrase_names_def registry_names_def text_or_def demo_serviceEnv_def truthy_def
      issuer_id_def)

lemma demo_wait: "waitForTransactionSuccess demo_service h n = Some (Inr h, n + 1)"
  by (simp add: waitForTransactionSuccess_def now_io_def io_simps waitLoop.simps[of _ _ n n] MAX_WAIT_MS_def looked_up_def entry_get_def)

lemma demo_signed: "signedCall demo_service demo_serviceServer source kp contract method1 (map Inr args) failure n = Some (Inr ''h'', n + 4)"
  unfolding signedCall_def traverse_known by (simp add: io_simps Let_def demo_wait)

lemma adminAttempts_first: "once w = Some (Inr a, w') \<Longrightarrow> adminAttempts (Suc n) once w = Some (Inr a, w')"
  by (simp add: io_simps)

lemma demo_invoke: "invokeAdminContract demo_service contract method1 args n = Some (Inr ''h'', n + 4)"
  by (simp add: invokeAdminContract_def getNetworkConfig_def adminKeypair_def demo_names truthy_def io_bind_apply io_res_def
      numeral_3_eq_3 adminAttempts_first[OF demo_signed] del: adminAttempts.simps)

lemma demo_root_set: "setRootOnChain demo_service method1 root n = Some (Inr (Some (normalizeHex32 root)), n + 4)"
  by (simp add: setRootOnChain_def Let_def demo_names truthy_def io_bind_apply io_res_def io_return_apply address_val_def demo_invoke)

theorem root_set_confirmed_witness:
  "\<exists>n' h. syncCredentialRootOnChain demo_service ''0x7'' 5 = Some (Inr (Some (normalizeHex32 ''0x7'')), n')
    \<and> admin_call demo_service ''R'' ''set_root'' [ScAddress ''A'', bytesN32ScVal demo_service (normalizeHex32 ''0x7'')] h n'"
proof -
  have run: "syncCredentialRootOnChain demo_service ''0x7'' 5 = Some (Inr (Some (normalizeHex32 ''0x7'')), 9)"
    by (simp add: syncCredentialRootOnChain_def demo_root_set)
  from root_set_confirmed[OF insertI1 this] run show ?thesis
    by (auto simp: demo_names address_val_def)
qed

theorem confirmation_wait_ends_witness: "\<exists>r n'. waitForTransactionSuccess demo_service ''h'' 5 = Some (r, n')"
  by (rule confirmation_wait_ends[where time = "\<lambda>n. n"]) (simp add: ticking_def)

definition demo_commitment :: "char \<Rightarrow> string" where
  "demo_commitment d = ''0x'' @ replicate 64 d"

lemma demo_commitment_hex: "hex_val d \<noteq> None \<Longrightarrow> is_hex64 (strip0xi (demo_commitment d))"
  by (simp add: demo_commitment_def strip0xi_def startsWith_def is_hex64_def list_all_iff)

lemma demo_signature:
  assumes "is_hex64 (strip0xi c)"
  shows "\<exists>sig. signCommitment demo_service c = Inr sig \<and> verifyCommitmentSignature demo_service c (sg_base64 sig) = Inr True"
  using assms by (simp add: signCommitment_def loadIssuerKeypair_def demo_names issuerMetadata_def Let_def
      verifyCommitmentSignature_def demo_keypair_def parse_pairs_bytesToHex)

theorem signature_verifies_witness:
  "\<exists>sig. signCommitment demo_service (demo_commitment (CHR ''1'')) = Inr sig
    \<and> verifyCommitmentSignature demo_service (demo_commitment (CHR ''1'')) (sg_base64 sig) = Inr True"
proof -
  have "is_hex64 (strip0xi (demo_commitment (CHR ''1'')))" by (rule demo_commitment_hex) (simp add: hex_val_def)
  then obtain sig where "signCommitment demo_service (demo_commitment (CHR ''1'')) = Inr sig" using demo_signature by blast
  with signature_verifies[OF this] show ?thesis by (simp add: demo_keypair_def parse_pairs_bytesToHex)
qed

end
