(* ===== verification/IssuerStore.thy ===== *)
theory IssuerStore
  imports IssuerAdmin
begin

text \<open>
  What the issuer service keeps in files: revoked commitments (\<^verbatim>\<open>issuer-service/lib/revoke.js\<close>),
  note commitments (\<^verbatim>\<open>noteMerkle.js\<close>) and disclosures (\<^verbatim>\<open>disclose.js\<close>). Files are
  texts under their names; the directory of the data always exists after a write. Shown: what a revocation
  leaves behind on every path, that the ninth revocation and the ninth note change no root, and whom a
  disclosure is shown to.
\<close>

section \<open>Files\<close>

type_synonym files = "(string \<times> string) list"

type_synonym ('n, 'a) service = "(files \<times> 'n, 'a) io"

definition on_files :: "(files \<Rightarrow> 'a res \<times> files) \<Rightarrow> ('n, 'a) service" where
  "on_files f = (\<lambda>(fs, n). case f fs of (r, fs') \<Rightarrow> Some (r, (fs', n)))"

definition read_file :: "string \<Rightarrow> ('n, string option) service" where
  "read_file path = on_files (\<lambda>fs. (Inr (map_of fs path), fs))"

definition write_file :: "string \<Rightarrow> string \<Rightarrow> ('n, unit) service" where
  "write_file path text1 = on_files (\<lambda>fs. (Inr (), put path text1 fs))"

definition outside :: "('n, 'a) io \<Rightarrow> ('n, 'a) service" where
  "outside m = net_io m"

definition pretty :: "json \<Rightarrow> string" where
  "pretty j = stringify ''  '' [] j"

text \<open>A JSON file, with the default for a file that is missing or does not parse.\<close>

definition load_json :: "string \<Rightarrow> json \<Rightarrow> ('n, json) service" where
  "load_json path d = io_bind (read_file path) (\<lambda>raw. io_return (case raw of None \<Rightarrow> d
     | Some s \<Rightarrow> (case JSON_parse s of None \<Rightarrow> d | Some j \<Rightarrow> j)))"

definition save_json :: "string \<Rightarrow> json \<Rightarrow> ('n, unit) service" where
  "save_json path j = write_file path (pretty j)"

text \<open>The methods of arrays are missing from every other value.\<close>

definition as_array :: "json \<Rightarrow> json list res" where
  "as_array j = (case j of JArr xs \<Rightarrow> Inr xs | _ \<Rightarrow> Inl (TypeError ''not an array''))"

text \<open>\<^verbatim>\<open>Number(v)\<close>: \<^term>\<open>None\<close> is \<^verbatim>\<open>NaN\<close>.\<close>

definition member_Number :: "json option \<Rightarrow> int option" where
  "member_Number v = (case v of None \<Rightarrow> None | Some JNull \<Rightarrow> Some 0 | Some (JBool b) \<Rightarrow> Some (if b then 1 else 0)
     | Some (JNum n) \<Rightarrow> Some n | Some (JObj kvs) \<Rightarrow> None | Some j \<Rightarrow> Number_of (json_String j))"

text \<open>\<^verbatim>\<open>a !== b\<close> of numbers, where \<^verbatim>\<open>NaN\<close> differs from itself.\<close>

definition same_number :: "int option \<Rightarrow> int option \<Rightarrow> bool" where
  "same_number a b \<longleftrightarrow> a \<noteq> None \<and> a = b"

section \<open>Revocations\<close>

definition REVOKED_PATH :: string where "REVOKED_PATH = ''data/revoked_commitments.json''"

definition REVOKED_FIXTURE_PATH :: string where "REVOKED_FIXTURE_PATH = ''fixtures/revoked_commitments.json''"

definition loadRevokedFixture :: "('n, json) service" where
  "loadRevokedFixture = load_json REVOKED_FIXTURE_PATH (JArr [])"

definition normalizeCommitment :: "string \<Rightarrow> string res" where
  "normalizeCommitment hex = (let h = map lower (strip0xi hex) in
     if \<not> is_hex64 h then Inl (Refused ''commitment must be 32-byte hex'') else Inr (''0x'' @ h))"

definition has_commitment :: "string \<Rightarrow> json \<Rightarrow> bool res" where
  "has_commitment commitment row = rmap (\<lambda>c. c = Some (JStr commitment)) (entry_get row ''commitment'')"

text \<open>\<^verbatim>\<open>rows.some(p)\<close> asks until the first that holds; \<^verbatim>\<open>find\<close> and \<^verbatim>\<open>findIndex\<close> give that row.\<close>

fun find_row :: "string \<Rightarrow> json list \<Rightarrow> json option res" where
  "find_row commitment [] = Inr None"
| "find_row commitment (row # rows) = rbind (has_commitment commitment row) (\<lambda>here.
     if here then Inr (Some row) else find_row commitment rows)"

fun merge_revoked :: "json list \<Rightarrow> json list \<Rightarrow> json list res" where
  "merge_revoked rows0 [] = Inr rows0"
| "merge_revoked rows0 (row # rows) = rbind (entry_get row ''commitment'') (\<lambda>c.
     rbind (normalizeCommitment (member_String c)) (\<lambda>commitment.
     rbind (find_row commitment rows0) (\<lambda>found. case found of
         Some r \<Rightarrow> merge_revoked rows0 rows
       | None \<Rightarrow> (case row of JObj kvs \<Rightarrow> merge_revoked (rows0 @ [JObj (put ''commitment'' (JStr commitment) kvs)]) rows
           | _ \<Rightarrow> merge_revoked (rows0 @ [JObj [(''commitment'', JStr commitment)]]) rows))))"

definition mergeRevokedRows :: "json \<Rightarrow> json \<Rightarrow> json list res" where
  "mergeRevokedRows primary fallback = rbind (iterate primary) (\<lambda>rows0. rbind (iterate fallback) (merge_revoked rows0))"

text \<open>\<^verbatim>\<open>rows.length === 0\<close>, which throws on \<^verbatim>\<open>null\<close>.\<close>

definition has_no_rows :: "json \<Rightarrow> bool res" where
  "has_no_rows j = (case j of JNull \<Rightarrow> Inl (TypeError ''Cannot read properties of null'') | JArr xs \<Rightarrow> Inr (xs = [])
     | JStr s \<Rightarrow> Inr (s = []) | JObj kvs \<Rightarrow> Inr (map_of kvs ''length'' = Some (JNum 0)) | _ \<Rightarrow> Inr False)"

definition loadRevoked :: "('n, json) service" where
  "loadRevoked =
     io_bind (load_json REVOKED_PATH (JArr [])) (\<lambda>rows.
     io_bind (io_res (has_no_rows rows)) (\<lambda>none.
       if none then loadRevokedFixture
       else io_bind loadRevokedFixture (\<lambda>fallback. io_bind (io_res (mergeRevokedRows rows fallback)) (\<lambda>xs. io_return (JArr xs)))))"

definition saveRevoked :: "json list \<Rightarrow> ('n, unit) service" where
  "saveRevoked rows = save_json REVOKED_PATH (JArr rows)"

definition stellar_cli :: "'n serviceEnv \<Rightarrow> string list \<Rightarrow> string option \<Rightarrow> ('n, string) service" where
  "stellar_cli S args input = outside (io_call (sv_exec S args input))"

definition ensureAdminKey :: "'n serviceEnv \<Rightarrow> ('n, unit) service" where
  "ensureAdminKey S = (if \<not> truthy (sv_env S ''CONTRACT_ADMIN_SECRET_KEY'')
     then io_throw (Refused ''CONTRACT_ADMIN_SECRET_KEY not configured'')
     else io_bind (stellar_cli S [''network'', ''use'', ''testnet''] None) (\<lambda>u.
       io_bind (stellar_cli S [''keys'', ''add'', ''admin'', ''--secret-key'', ''--overwrite'']
         (sv_env S ''CONTRACT_ADMIN_SECRET_KEY'')) (\<lambda>u. io_return ())))"

text \<open>\<^verbatim>\<open>out.match(/[a-f0-9]{64}/)\<close>.\<close>

fun first_hex64 :: "string \<Rightarrow> string option" where
  "first_hex64 [] = None"
| "first_hex64 (c # cs) = (let h = take 64 (c # cs) in
     if length h = 64 \<and> list_all (\<lambda>d. hex_val d \<noteq> None \<and> lower d = d) h then Some h else first_hex64 cs)"

fun mark_on_chain :: "string \<Rightarrow> json \<Rightarrow> json list \<Rightarrow> json list" where
  "mark_on_chain commitment tx [] = []"
| "mark_on_chain commitment tx (row # rows) = (if has_commitment commitment row = Inr True
     then (case row of JObj kvs \<Rightarrow> JObj (put ''txHash'' tx (put ''onChain'' (JBool True) kvs)) | _ \<Rightarrow> row) # rows
     else row # mark_on_chain commitment tx rows)"

record revocation =
  re_alreadyRevoked :: bool
  re_commitment :: string
  re_root :: "string option"
  re_count :: nat
  re_txHash :: "string option"

definition row_commitments :: "json list \<Rightarrow> string list res" where
  "row_commitments rows = traverse (\<lambda>row. rmap member_String (entry_get row ''commitment'')) rows"

text \<open>The rows with the commitment among them, stored when it was not.\<close>

definition recordRevocation :: "'n serviceEnv \<Rightarrow> string \<Rightarrow> string option \<Rightarrow> json list \<Rightarrow> ('n, json list \<times> bool) service" where
  "recordRevocation S normalized reason rows =
     io_bind (io_res (find_row normalized rows)) (\<lambda>existing. case existing of
         Some row \<Rightarrow> io_return (rows, json_truth (obj_get row ''onChain''))
       | None \<Rightarrow> io_bind (outside (now_io (sv_clock S))) (\<lambda>now.
           let rows' = rows @ [JObj [(''commitment'', JStr normalized),
                 (''reason'', JStr (if truthy reason then the reason else ''issuer-revoked'')),
                 (''revokedAt'', JNum now), (''onChain'', JBool False)]] in
           io_bind (saveRevoked rows') (\<lambda>u. io_return (rows', False))))"

definition setRevocationRoot :: "'n serviceEnv \<Rightarrow> string \<Rightarrow> string \<Rightarrow> string \<Rightarrow> ('n, string) service" where
  "setRevocationRoot S registry admin newRoot =
     io_bind (ensureAdminKey S) (\<lambda>u.
       stellar_cli S [''contract'', ''invoke'', ''--id'', registry, ''--source-account'', ''admin'', ''--network'', ''testnet'',
         ''--send'', ''yes'', ''--'', ''set_revocation_root'', ''--caller'', admin, ''--revocation_root'', strip0xi newRoot] None)"

text \<open>The second half of a revocation: the new root is computed, set on chain and noted in the row.\<close>

definition revokeOnChain :: "'n serviceEnv \<Rightarrow> string \<Rightarrow> json list \<Rightarrow> ('n, revocation) service" where
  "revokeOnChain S normalized rows = (case (env_or S registry_names, text_or (sv_env S ''CONTRACT_ADMIN_PUBLIC_KEY'') None) of
       (Some registry, Some admin) \<Rightarrow>
         io_bind (io_res (row_commitments rows)) (\<lambda>commitments.
         io_bind (io_res (computeRevocationWitness (sv_hash S) commitments)) (\<lambda>wit.
         io_bind (setRevocationRoot S registry admin (rv_root wit)) (\<lambda>out.
         let tx = first_hex64 out in
         io_bind (saveRevoked (mark_on_chain normalized (case tx of None \<Rightarrow> JNull | Some h \<Rightarrow> JStr h) rows)) (\<lambda>u.
           io_return \<lparr>re_alreadyRevoked = False, re_commitment = normalized, re_root = Some (rv_root wit),
             re_count = length rows, re_txHash = tx\<rparr>))))
     | _ \<Rightarrow> io_throw (Refused ''CREDENTIAL_REGISTRY_ID and CONTRACT_ADMIN_PUBLIC_KEY required''))"

definition revokeCredential :: "'n serviceEnv \<Rightarrow> string \<Rightarrow> string option \<Rightarrow> ('n, revocation) service" where
  "revokeCredential S commitment reason =
     io_bind (io_res (normalizeCommitment commitment)) (\<lambda>normalized.
     io_bind loadRevoked (\<lambda>loaded.
     io_bind (io_res (as_array loaded)) (\<lambda>rows0.
     io_bind (recordRevocation S normalized reason rows0) (\<lambda>(rows, done1).
       if done1 then io_return \<lparr>re_alreadyRevoked = True, re_commitment = normalized, re_root = None,
         re_count = length rows, re_txHash = None\<rparr>
       else revokeOnChain S normalized rows))))"

section \<open>Notes\<close>

definition NOTES_PATH :: string where "NOTES_PATH = ''data/note_commitments.json''"

definition loadNotes :: "('n, json) service" where
  "loadNotes = load_json NOTES_PATH (JArr [])"

definition saveNotes :: "json list \<Rightarrow> ('n, unit) service" where
  "saveNotes rows = save_json NOTES_PATH (JArr rows)"

record noteState =
  no_commitment :: string
  no_noteRoot :: string
  no_count :: nat

definition computeNoteRoot :: "'n serviceEnv \<Rightarrow> json list \<Rightarrow> string res" where
  "computeNoteRoot S commitments = computeNoteRootFromLeaves (sv_hash S) (map json_String commitments)"

definition appendNoteCommitment :: "'n serviceEnv \<Rightarrow> string \<Rightarrow> string \<Rightarrow> ('n, noteState) service" where
  "appendNoteCommitment S noteSecret noteBlinding =
     io_bind (io_res (computeNoteCommitment (sv_hash S) (FText noteSecret) (FText noteBlinding))) (\<lambda>commitment.
     io_bind loadNotes (\<lambda>loaded.
     io_bind (io_res (as_array loaded)) (\<lambda>rows0.
     let rows = (if JStr commitment \<in> set rows0 then rows0 else rows0 @ [JStr commitment]) in
     io_bind (saveNotes rows) (\<lambda>u.
     io_bind (io_res (computeNoteRoot S rows)) (\<lambda>noteRoot.
       io_return \<lparr>no_commitment = commitment, no_noteRoot = noteRoot, no_count = length rows\<rparr>)))))"

definition getNoteRootState :: "'n serviceEnv \<Rightarrow> ('n, json list \<times> string) service" where
  "getNoteRootState S = io_bind loadNotes (\<lambda>loaded. io_bind (io_res (as_array loaded)) (\<lambda>rows.
     io_bind (io_res (computeNoteRoot S rows)) (\<lambda>root. io_return (rows, root))))"

section \<open>Disclosures\<close>

definition STORE_PATH :: string where "STORE_PATH = ''data/disclosures.json''"

definition viewingKeyHash :: "'n serviceEnv \<Rightarrow> string \<Rightarrow> string" where
  "viewingKeyHash S viewingKey = sv_sha S viewingKey"

definition auditor_registry_names :: "string list" where
  "auditor_registry_names = [''AUDITOR_REGISTRY_ID'', ''VITE_AUDITOR_REGISTRY_ID'']"

definition verifyViewingKeyOnChain :: "'n serviceEnv \<Rightarrow> int option \<Rightarrow> string \<Rightarrow> ('n, bool) service" where
  "verifyViewingKeyOnChain S auditor hashHex = (case env_or S auditor_registry_names of
       None \<Rightarrow> io_throw (Refused ''AUDITOR_REGISTRY_ID not configured'')
     | Some registry \<Rightarrow> io_bind (stellar_cli S [''contract'', ''invoke'', ''--id'', registry, ''--source-account'', ''deployer'',
         ''--network'', ''testnet'', ''--'', ''verify_viewing_key'', ''--auditor_id'',
         (case auditor of None \<Rightarrow> ''NaN'' | Some n \<Rightarrow> toString10 n), ''--viewing_key_hash'', hashHex] None) (\<lambda>out.
         io_return (ends_with ''true'' (trim out))))"

definition hexToBytes32Arg :: "string \<Rightarrow> string res" where
  "hexToBytes32Arg hex = (let p = padStart0 64 (strip0xi hex); h = drop (length p - 64) p in
     if \<not> is_hex64 h then Inl (Refused ''expected 32-byte hex value'') else Inr h)"

definition all_hex :: "string \<Rightarrow> bool" where
  "all_hex h \<longleftrightarrow> list_all (\<lambda>c. hex_val c \<noteq> None) h"

definition disclosure_field :: "json option \<Rightarrow> string res" where
  "disclosure_field value = (if value \<in> {None, Some JNull, Some (JStr [])} then Inl (Refused ''missing 32-byte field'')
     else let s = member_String value in
       if strip0xi s \<noteq> s \<and> strip0xi s \<noteq> [] \<and> all_hex (strip0xi s) \<or> is_hex64 s then hexToBytes32Arg s
       else rmap (\<lambda>n. padStart0 64 (toString16 n)) (BigInt_of s))"

definition or_member :: "json option \<Rightarrow> json option \<Rightarrow> json option" where
  "or_member a b = (if json_truth a then a else b)"

text \<open>\<^verbatim>\<open>v?.k\<close>.\<close>

definition maybe_member :: "json option \<Rightarrow> string \<Rightarrow> json option" where
  "maybe_member v k = (case v of Some (JObj kvs) \<Rightarrow> map_of kvs k | _ \<Rightarrow> None)"

definition recordDisclosureOnChain :: "'n serviceEnv \<Rightarrow> (string \<times> json) list \<Rightarrow> ('n, (string \<times> string) option) service" where
  "recordDisclosureOnChain S pack = (case env_or S auditor_registry_names of None \<Rightarrow> io_return None
     | Some registry \<Rightarrow>
       io_bind (ensureAdminKey S) (\<lambda>u.
       io_bind (io_res (disclosure_field (or_member (map_of pack ''nullifier'')
         (or_member (maybe_member (map_of pack ''proofPublicInputs'') ''nullifier'') (map_of pack ''credentialCommitment''))))) (\<lambda>nullifierHex.
       io_bind (io_res (disclosure_field (or_member (map_of pack ''txHash'') (Some (JStr (sv_sha S (stringify [] [] (JObj pack)))))))) (\<lambda>txHex.
       io_bind (io_res (disclosure_field (map_of pack ''viewingKeyHash''))) (\<lambda>vkHash.
       io_bind (stellar_cli S [''contract'', ''invoke'', ''--id'', registry, ''--source-account'', ''admin'', ''--network'', ''testnet'',
           ''--send'', ''yes'', ''--'', ''record_disclosure'', ''--auditor_id'',
           (if json_truth (map_of pack ''auditorId'') then member_String (map_of pack ''auditorId'') else ''1''),
           ''--viewing_key_hash'', vkHash, ''--tx_hash'', txHex, ''--nullifier'', nullifierHex] None) (\<lambda>out.
         io_return (Some (txHex, nullifierHex))))))))"

definition appendDisclosure :: "'n serviceEnv \<Rightarrow> (string \<times> json) list \<Rightarrow> ('n, json) service" where
  "appendDisclosure S pack =
     io_bind (load_json STORE_PATH (JArr [])) (\<lambda>loaded.
     io_bind (outside (now_io (sv_clock S))) (\<lambda>now.
     let stored = put ''storedAt'' (JNum now) pack in
     io_bind (io_catch (io_bind (recordDisclosureOnChain S stored) (\<lambda>r. io_return (put ''onChain'' (JBool True) stored)))
       (\<lambda>e. io_return (put ''onChainError'' (JStr (message e)) (put ''onChain'' (JBool False) stored)))) (\<lambda>full.
     io_bind (io_res (as_array loaded)) (\<lambda>rows.
     io_bind (save_json STORE_PATH (JArr (rows @ [JObj full]))) (\<lambda>u.
       io_return (JObj full))))))"

definition disclosure_matches :: "string \<Rightarrow> int option \<Rightarrow> json \<Rightarrow> bool res" where
  "disclosure_matches h auditor row = rmap (\<lambda>a. same_number (member_Number a) auditor
     \<and> obj_get row ''viewingKeyHash'' = Some (JStr h)) (entry_get row ''auditorId'')"

fun filter_res :: "('a \<Rightarrow> bool res) \<Rightarrow> 'a list \<Rightarrow> 'a list res" where
  "filter_res p [] = Inr []"
| "filter_res p (x # xs) = rbind (p x) (\<lambda>b. rmap (\<lambda>ys. if b then x # ys else ys) (filter_res p xs))"

definition disclosures_of :: "'n serviceEnv \<Rightarrow> string \<Rightarrow> int option \<Rightarrow> ('n, json list) service" where
  "disclosures_of S viewingKey auditor =
     io_bind (load_json STORE_PATH (JArr [])) (\<lambda>loaded. io_bind (io_res (as_array loaded)) (\<lambda>rows.
       io_res (filter_res (disclosure_matches (viewingKeyHash S viewingKey) auditor) rows)))"

text \<open>What is shown of a row: everything but when it was stored and the hash of the viewing key.\<close>

definition shown_row :: "json \<Rightarrow> json" where
  "shown_row row = (case row of JObj kvs \<Rightarrow> JObj (filter (\<lambda>(k, v). k \<noteq> ''storedAt'' \<and> k \<noteq> ''viewingKeyHash'') kvs) | j \<Rightarrow> j)"

definition queryDisclosures :: "'n serviceEnv \<Rightarrow> string \<Rightarrow> int option \<Rightarrow> string option \<Rightarrow> ('n, json list) service" where
  "queryDisclosures S viewingKey auditor txHash =
     io_bind (disclosures_of S viewingKey auditor) (\<lambda>rows.
       io_return (map shown_row (filter (\<lambda>row. truthy txHash \<longrightarrow> obj_get row ''txHash'' = Some (JStr (the txHash))) rows)))"

datatype authMethod = CapabilityToken | AuditorRegistry | NoMethod

record disclosureAuth =
  da_authorized :: bool
  da_method :: authMethod
  da_error :: "string option"

definition authorizeDisclosureQuery :: "'n serviceEnv \<Rightarrow> string \<Rightarrow> int option \<Rightarrow> ('n, disclosureAuth) service" where
  "authorizeDisclosureQuery S viewingKey auditor =
     io_bind (disclosures_of S viewingKey auditor) (\<lambda>stored.
       if stored \<noteq> [] then io_return \<lparr>da_authorized = True, da_method = CapabilityToken, da_error = None\<rparr>
       else io_catch (io_bind (verifyViewingKeyOnChain S auditor (viewingKeyHash S viewingKey)) (\<lambda>onChain.
           io_return \<lparr>da_authorized = onChain, da_method = (if onChain then AuditorRegistry else NoMethod), da_error = None\<rparr>))
         (\<lambda>e. io_return \<lparr>da_authorized = False, da_method = NoMethod, da_error = Some (message e)\<rparr>))"

section \<open>Files that are read back\<close>

lemma as_array_Inr: "as_array j = Inr xs \<longleftrightarrow> j = JArr xs"
  by (cases j) (auto simp: as_array_def)

definition file_json :: "files \<Rightarrow> string \<Rightarrow> json \<Rightarrow> json" where
  "file_json fs path d = (case map_of fs path of None \<Rightarrow> d | Some s \<Rightarrow> (case JSON_parse s of None \<Rightarrow> d | Some j \<Rightarrow> j))"

lemma load_json_apply [io_simps]: "load_json path d (fs, n) = Some (Inr (file_json fs path d), (fs, n))"
  by (simp add: load_json_def read_file_def on_files_def file_json_def io_simps)

lemma save_json_apply [io_simps]: "save_json path j (fs, n) = Some (Inr (), (put path (pretty j) fs, n))"
  by (simp add: save_json_def write_file_def on_files_def)

lemma file_json_saved: "json_wf j \<Longrightarrow> file_json (put path (pretty j) fs) path' d = (if path' = path then j else file_json fs path' d)"
  by (simp add: file_json_def map_of_put pretty_def JSON_parse_stringify)

text \<open>When an effect ends, with whatever outcome.\<close>

named_theorems any_iff \<open>when an effect ends\<close>

lemma io_bind_any [any_iff]: "io_bind m f w = Some (r, w'') \<longleftrightarrow>
    (\<exists>e. m w = Some (Inl e, w'') \<and> r = Inl e) \<or> (\<exists>a w'. m w = Some (Inr a, w') \<and> f a w' = Some (r, w''))"
  by (auto simp: io_bind_def split: option.splits sum.splits)

lemma io_any [any_iff]:
  "io_return a w = Some (r, w') \<longleftrightarrow> r = Inr a \<and> w' = w" "io_throw e w = Some (r, w') \<longleftrightarrow> r = Inl e \<and> w' = w"
  "io_res q w = Some (r, w') \<longleftrightarrow> q = r \<and> w' = w"
  "(if p then m else k) w = Some (r, w') \<longleftrightarrow> (if p then m w = Some (r, w') else k w = Some (r, w'))"
  by (auto simp: io_simps)

lemma stellar_cli_any [any_iff]: "stellar_cli S args input (fs, n) = Some (r, w')
    \<longleftrightarrow> (\<exists>n'. sv_exec S args input n = (r, n') \<and> w' = (fs, n'))"
  by (auto simp: stellar_cli_def outside_def io_simps split: prod.splits option.splits)

lemma ensureAdminKey_files: "ensureAdminKey S (fs, n) = Some (r, (fs', n')) \<Longrightarrow> fs' = fs"
  by (auto simp: ensureAdminKey_def any_iff split: if_splits)

lemma setRevocationRoot_files: "setRevocationRoot S registry admin root (fs, n) = Some (r, (fs', n')) \<Longrightarrow> fs' = fs"
  by (auto simp: setRevocationRoot_def any_iff dest: ensureAdminKey_files)

section \<open>Rows that are kept\<close>

definition revoked_rows :: "files \<Rightarrow> json res" where
  "revoked_rows fs = (let rows = file_json fs REVOKED_PATH (JArr []); fallback = file_json fs REVOKED_FIXTURE_PATH (JArr []) in
     rbind (has_no_rows rows) (\<lambda>none. if none then Inr fallback else rmap JArr (mergeRevokedRows rows fallback)))"

lemma loadRevoked_apply [io_simps]: "loadRevoked (fs, n) = Some (revoked_rows fs, (fs, n))"
  by (auto simp: loadRevoked_def loadRevokedFixture_def revoked_rows_def io_simps Let_def rmap_def split: sum.splits)

definition good_row :: "json \<Rightarrow> bool" where
  "good_row row \<longleftrightarrow> (\<exists>kvs. row = JObj kvs) \<and> json_wf row"

definition fixture_row :: "json \<Rightarrow> bool" where
  "fixture_row row \<longleftrightarrow> good_row row \<and> (\<exists>c h. obj_get row ''commitment'' = Some (JStr c) \<and> normalizeCommitment c = Inr h)"

definition fixture_ok :: "files \<Rightarrow> bool" where
  "fixture_ok fs \<longleftrightarrow> (\<exists>fix1. file_json fs REVOKED_FIXTURE_PATH (JArr []) = JArr fix1 \<and> list_all fixture_row fix1)"

lemma good_row_get: "good_row row \<Longrightarrow> entry_get row k = Inr (obj_get row k)"
  by (auto simp: good_row_def entry_get_def)

lemma good_row_put: "good_row (JObj kvs) \<Longrightarrow> json_wf v \<Longrightarrow> good_row (JObj (put k v kvs))"
  by (auto simp: good_row_def list_all_iff intro: distinct_put dest!: set_put)

lemma find_row_good: "list_all good_row rows \<Longrightarrow> \<exists>r. find_row c rows = Inr r"
  by (induction rows) (auto simp: has_commitment_def good_row_get)

lemma find_row_append: "find_row c xs = Inr (Some row) \<Longrightarrow> find_row c (xs @ ys) = Inr (Some row)"
proof (induction xs)
  case (Cons x xs)
  then show ?case by (cases "has_commitment c x") (simp_all split: if_split_asm)
qed simp

lemma find_row_end: "find_row c xs = Inr None \<Longrightarrow> has_commitment c row = Inr True \<Longrightarrow> find_row c (xs @ [row]) = Inr (Some row)"
proof (induction xs)
  case (Cons x xs)
  then show ?case by (cases "has_commitment c x") (simp_all split: if_split_asm)
qed simp

lemma merge_prefix: "list_all good_row rows \<Longrightarrow> list_all fixture_row fix1 \<Longrightarrow>
    \<exists>more. merge_revoked rows fix1 = Inr (rows @ more) \<and> list_all good_row more"
proof (induction fix1 arbitrary: rows)
  case (Cons row fix1)
  then obtain kvs c h where row: "row = JObj kvs" "good_row (JObj kvs)" and c: "map_of kvs ''commitment'' = Some (JStr c)"
    and h: "normalizeCommitment c = Inr h" by (auto simp: fixture_row_def good_row_def)
  obtain r where r: "find_row h rows = Inr r" using find_row_good Cons.prems(1) by blast
  show ?case
  proof (cases r)
    case None
    let ?new = "JObj (put ''commitment'' (JStr h) kvs)"
    have "list_all good_row (rows @ [?new])" using Cons.prems(1) good_row_put[OF row(2), of "JStr h"] by simp
    from Cons.IH[OF this] Cons.prems(2) obtain more where "merge_revoked (rows @ [?new]) fix1 = Inr ((rows @ [?new]) @ more)"
      "list_all good_row more" by auto
    with row c h r None good_row_put[OF row(2), of "JStr h" "''commitment''"] show ?thesis
      by (intro exI[of _ "?new # more"]) (simp add: entry_get_def member_String_def)
  next
    case (Some x)
    with Cons row c h r show ?thesis by (simp add: entry_get_def member_String_def)
  qed
qed simp

lemma rows_saved:
  assumes "list_all good_row rows" and "rows \<noteq> []" and "fixture_ok fs"
  shows "\<exists>more. revoked_rows (put REVOKED_PATH (pretty (JArr rows)) fs) = Inr (JArr (rows @ more))"
proof -
  from assms(3) obtain fix1 where f: "file_json fs REVOKED_FIXTURE_PATH (JArr []) = JArr fix1" "list_all fixture_row fix1"
    by (auto simp: fixture_ok_def)
  have "json_wf (JArr rows)" using assms(1) by (simp add: list_all_iff good_row_def)
  with f merge_prefix[OF assms(1) f(2)] assms(2) show ?thesis
    by (auto simp: revoked_rows_def file_json_saved Let_def has_no_rows_def mergeRevokedRows_def iterate_def
        REVOKED_PATH_def REVOKED_FIXTURE_PATH_def)
qed

lemma mark_good: "list_all good_row rows \<Longrightarrow> json_wf tx \<Longrightarrow> list_all good_row (mark_on_chain c tx rows)"
proof (induction rows)
  case (Cons row rows)
  then obtain kvs where "row = JObj kvs" by (auto simp: good_row_def)
  with Cons show ?case using good_row_put[of kvs "JBool True" "''onChain''"] by (auto intro: good_row_put)
qed simp

lemma mark_found:
  assumes "list_all good_row rows" and "find_row c rows = Inr (Some row)"
  shows "\<exists>row'. find_row c (mark_on_chain c tx rows) = Inr (Some row') \<and> obj_get row' ''onChain'' = Some (JBool True)"
  using assms
proof (induction rows)
  case (Cons r rows)
  then obtain kvs where r: "r = JObj kvs" by (auto simp: good_row_def)
  from Cons show ?case
    by (auto simp: r has_commitment_def entry_get_def map_of_put split: if_splits)
qed simp

lemma saveRevoked_any [any_iff]: "saveRevoked rows (fs, n) = Some (r, w')
    \<longleftrightarrow> r = Inr () \<and> w' = (put REVOKED_PATH (pretty (JArr rows)) fs, n)"
  by (auto simp: saveRevoked_def save_json_apply)

lemma setRevocationRoot_any:
  assumes "setRevocationRoot S registry admin root (fs, n) = Some (r, w')"
  obtains n' where "w' = (fs, n')"
  using assms setRevocationRoot_files by (cases w') fastforce

lemma revokeOnChain_any:
  assumes "revokeOnChain S c rows (fs, n) = Some (r, (fs', n'))"
  shows "(\<exists>e. r = Inl e) \<and> fs' = fs \<or> (\<exists>x tx wit commitments. r = Inr x \<and> \<not> re_alreadyRevoked x \<and> re_commitment x = c
    \<and> re_root x = Some (rv_root wit) \<and> row_commitments rows = Inr commitments
    \<and> computeRevocationWitness (sv_hash S) commitments = Inr wit \<and> json_wf tx
    \<and> fs' = put REVOKED_PATH (pretty (JArr (mark_on_chain c tx rows))) fs)"
proof (cases "env_or S registry_names = None \<or> text_or (sv_env S ''CONTRACT_ADMIN_PUBLIC_KEY'') None = None")
  case True
  then have "revokeOnChain S c rows = io_throw (Refused ''CREDENTIAL_REGISTRY_ID and CONTRACT_ADMIN_PUBLIC_KEY required'')"
    unfolding revokeOnChain_def by (cases "env_or S registry_names") auto
  with assms show ?thesis by (simp add: any_iff)
next
  case False
  then obtain registry admin where env: "env_or S registry_names = Some registry"
    "text_or (sv_env S ''CONTRACT_ADMIN_PUBLIC_KEY'') None = Some admin" by auto
  show ?thesis
  proof (cases "rbind (row_commitments rows) (computeRevocationWitness (sv_hash S))")
    case (Inl e)
    with assms env show ?thesis by (cases "row_commitments rows") (auto simp: revokeOnChain_def any_iff)
  next
    case (Inr wit)
    then obtain commitments where c: "row_commitments rows = Inr commitments"
      "computeRevocationWitness (sv_hash S) commitments = Inr wit" by (auto simp: rbind_Inr_iff)
    let ?mark = "\<lambda>out. mark_on_chain c (case first_hex64 out of None \<Rightarrow> JNull | Some h \<Rightarrow> JStr h) rows"
    from assms env c consider e where "r = Inl e" "setRevocationRoot S registry admin (rv_root wit) (fs, n) = Some (Inl e, (fs', n'))"
      | out fs1 where "setRevocationRoot S registry admin (rv_root wit) (fs, n) = Some (Inr out, (fs1, n'))"
        "fs' = put REVOKED_PATH (pretty (JArr (?mark out))) fs1"
        "r = Inr \<lparr>re_alreadyRevoked = False, re_commitment = c, re_root = Some (rv_root wit),
           re_count = length rows, re_txHash = first_hex64 out\<rparr>"
      by (simp add: revokeOnChain_def any_iff Let_def) blast
    then show ?thesis
    proof cases
      case 1
      then show ?thesis by (auto dest: setRevocationRoot_files)
    next
      case 2
      have "json_wf (case first_hex64 out of None \<Rightarrow> JNull | Some h \<Rightarrow> JStr h)" by (simp split: option.split)
      with 2 setRevocationRoot_files[OF 2(1)] c show ?thesis by (intro disjI2 exI conjI) (rule 2(3), simp_all)
    qed
  qed
qed

definition new_row :: "string \<Rightarrow> string option \<Rightarrow> int \<Rightarrow> json" where
  "new_row c reason now = JObj [(''commitment'', JStr c),
     (''reason'', JStr (if truthy reason then the reason else ''issuer-revoked'')), (''revokedAt'', JNum now), (''onChain'', JBool False)]"

lemma new_row_good: "good_row (new_row c reason now)" "has_commitment c (new_row c reason now) = Inr True"
  by (simp_all add: new_row_def good_row_def has_commitment_def entry_get_def)

lemma recordRevocation_run:
  assumes "find_row c rows = Inr found"
  shows "\<exists>now n'. recordRevocation S c reason rows (fs, n) = Some (Inr (case found of
      Some row \<Rightarrow> (rows, json_truth (obj_get row ''onChain'')) | None \<Rightarrow> (rows @ [new_row c reason now], False)),
    (case found of Some row \<Rightarrow> fs | None \<Rightarrow> put REVOKED_PATH (pretty (JArr (rows @ [new_row c reason now]))) fs, n'))"
proof -
  obtain now n' where "sv_clock S n = (now, n')" by fastforce
  then show ?thesis using assms
    by (cases found) (auto simp: recordRevocation_def io_simps outside_def now_io_def new_row_def saveRevoked_def Let_def)
qed

section \<open>Properties\<close>

text \<open>
  C18: Once a revocation was asked for with a well-formed commitment, the commitment is among the
  revoked ones that are loaded, whatever becomes of the transaction: when it fails, the row stays, so that
  the next request tries the chain again. A revocation that is reported as made has its row marked as on
  chain.
\<close>

theorem revocation_stays:
  assumes "revokeCredential S commitment reason (fs, n) = Some (r, (fs', n'))" and "normalizeCommitment commitment = Inr c"
    and "revoked_rows fs = Inr (JArr rows)" and "list_all good_row rows" and "fixture_ok fs"
  shows "\<exists>rows' row. revoked_rows fs' = Inr (JArr rows') \<and> find_row c rows' = Inr (Some row)
    \<and> (case r of Inr x \<Rightarrow> json_truth (obj_get row ''onChain'') \<and> re_commitment x = c | Inl e \<Rightarrow> True)"
proof -
  obtain found where f: "find_row c rows = Inr found" using find_row_good[OF assms(4)] by blast
  obtain now n1 where rec: "recordRevocation S c reason rows (fs, n) = Some (Inr (case found of
      Some row \<Rightarrow> (rows, json_truth (obj_get row ''onChain'')) | None \<Rightarrow> (rows @ [new_row c reason now], False)),
    (case found of Some row \<Rightarrow> fs | None \<Rightarrow> put REVOKED_PATH (pretty (JArr (rows @ [new_row c reason now]))) fs, n1))"
    using recordRevocation_run[OF f, of S reason fs n] by (elim exE)
  define rows1 where "rows1 = (case found of Some row \<Rightarrow> rows | None \<Rightarrow> rows @ [new_row c reason now])"
  define fs1 where "fs1 = (case found of Some row \<Rightarrow> fs | None \<Rightarrow> put REVOKED_PATH (pretty (JArr rows1)) fs)"
  have good: "list_all good_row rows1" using assms(4) by (simp add: rows1_def new_row_good split: option.split)
  obtain row1 where row1: "find_row c rows1 = Inr (Some row1)"
    using f find_row_end[OF _ new_row_good(2)] by (cases found) (auto simp: rows1_def)
  then have ne: "rows1 \<noteq> []" by auto
  have fix1: "fixture_ok fs1" using assms(5) good
    by (cases found) (simp_all add: fs1_def fixture_ok_def file_json_saved list_all_iff good_row_def
        REVOKED_PATH_def REVOKED_FIXTURE_PATH_def)
  obtain more where loaded1: "revoked_rows fs1 = Inr (JArr (rows1 @ more))"
    using assms(3) rows_saved[OF good ne assms(5)] by (cases found) (auto simp: fs1_def rows1_def)
  have step: "(if found \<noteq> None \<and> json_truth (obj_get (the found) ''onChain'')
      then r = Inr \<lparr>re_alreadyRevoked = True, re_commitment = c, re_root = None, re_count = length rows, re_txHash = None\<rparr>
        \<and> fs' = fs else revokeOnChain S c rows1 (fs1, n1) = Some (r, (fs', n')))"
    using assms(1-3) rec
    by (cases found) (auto simp: revokeCredential_def any_iff loadRevoked_apply as_array_def rows1_def fs1_def split: if_splits)
  show ?thesis
  proof (cases "found \<noteq> None \<and> json_truth (obj_get (the found) ''onChain'')")
    case True
    with step assms(3) f show ?thesis by auto
  next
    case False
    then have "revokeOnChain S c rows1 (fs1, n1) = Some (r, (fs', n'))" using step by (simp only: if_False)
    from revokeOnChain_any[OF this] consider "\<exists>e. r = Inl e" "fs' = fs1"
      | x tx where "r = Inr x" "re_commitment x = c" "json_wf tx" "fs' = put REVOKED_PATH (pretty (JArr (mark_on_chain c tx rows1))) fs1"
      by (elim disjE exE conjE) simp_all
    then show ?thesis
    proof cases
      case 1
      with loaded1 find_row_append[OF row1, of more] show ?thesis by auto
    next
      case 2
      obtain row' where row': "find_row c (mark_on_chain c tx rows1) = Inr (Some row')" "obj_get row' ''onChain'' = Some (JBool True)"
        using mark_found[OF good row1] by blast
      then have "mark_on_chain c tx rows1 \<noteq> []" by auto
      from rows_saved[OF mark_good[OF good 2(3)] this fix1] obtain more' where
        "revoked_rows fs' = Inr (JArr (mark_on_chain c tx rows1 @ more'))" using 2(4) by blast
      with find_row_append[OF row'(1), of more'] row'(2) 2(1,2) show ?thesis by auto
    qed
  qed
qed

text \<open>The call of the registry with a new revocation root, and its answer.\<close>

definition root_sent :: "'n serviceEnv \<Rightarrow> string \<Rightarrow> string \<Rightarrow> 'n \<Rightarrow> bool" where
  "root_sent S root out n' \<longleftrightarrow> (\<exists>registry admin n. env_or S registry_names = Some registry
     \<and> text_or (sv_env S ''CONTRACT_ADMIN_PUBLIC_KEY'') None = Some admin
     \<and> sv_exec S [''contract'', ''invoke'', ''--id'', registry, ''--source-account'', ''admin'', ''--network'', ''testnet'',
         ''--send'', ''yes'', ''--'', ''set_revocation_root'', ''--caller'', admin, ''--revocation_root'', strip0xi root] None n = (Inr out, n'))"

lemma revokeOnChain_call:
  assumes "revokeOnChain S c rows (fs, n) = Some (Inr x, (fs', n'))"
  shows "\<exists>commitments wit out. row_commitments rows = Inr commitments \<and> computeRevocationWitness (sv_hash S) commitments = Inr wit
    \<and> root_sent S (rv_root wit) out n' \<and> x = \<lparr>re_alreadyRevoked = False, re_commitment = c, re_root = Some (rv_root wit),
        re_count = length rows, re_txHash = first_hex64 out\<rparr>"
proof -
  obtain registry admin where env: "env_or S registry_names = Some registry"
    "text_or (sv_env S ''CONTRACT_ADMIN_PUBLIC_KEY'') None = Some admin"
    using assms unfolding revokeOnChain_def by (auto simp: io_any split: option.splits)
  with assms obtain commitments wit out fs1 n1 where c: "row_commitments rows = Inr commitments"
    "computeRevocationWitness (sv_hash S) commitments = Inr wit"
    and run: "setRevocationRoot S registry admin (rv_root wit) (fs, n) = Some (Inr out, (fs1, n1))"
    and x: "x = \<lparr>re_alreadyRevoked = False, re_commitment = c, re_root = Some (rv_root wit),
        re_count = length rows, re_txHash = first_hex64 out\<rparr>" "n1 = n'"
    by (auto simp: revokeOnChain_def any_iff Let_def)
  from run have "root_sent S (rv_root wit) out n1"
    using env ensureAdminKey_files unfolding root_sent_def by (fastforce simp: setRevocationRoot_def any_iff)
  with c x show ?thesis by blast
qed

text \<open>
  C19: Eight revocations fill the root. A further one that is reported as made has called the
  registry to set a root, last of all that it did outside its files; this root is the one of the
  commitments that were stored before, without the new one, and of the first eight of them alone. The
  reply nevertheless reports it as the new root, with the new count, for a commitment that was not
  revoked before.
\<close>

theorem revocation_root_full:
  assumes "revokeCredential S commitment reason (fs, n) = Some (Inr x, (fs', n'))" and "normalizeCommitment commitment = Inr c"
    and "revoked_rows fs = Inr (JArr rows)" and "find_row c rows = Inr None" and "8 \<le> length rows"
  shows "\<exists>wit commitments out. row_commitments rows = Inr commitments \<and> root_sent S (rv_root wit) out n'
    \<and> computeRevocationWitness (sv_hash S) (commitments @ [c]) = Inr wit
    \<and> computeRevocationWitness (sv_hash S) commitments = Inr wit
    \<and> computeRevocationWitness (sv_hash S) (take 8 commitments) = Inr wit
    \<and> x = \<lparr>re_alreadyRevoked = False, re_commitment = c, re_root = Some (rv_root wit), re_count = length rows + 1,
        re_txHash = first_hex64 out\<rparr>"
proof -
  obtain now n1 where rec: "recordRevocation S c reason rows (fs, n) = Some (Inr (rows @ [new_row c reason now], False),
    (put REVOKED_PATH (pretty (JArr (rows @ [new_row c reason now]))) fs, n1))"
    using recordRevocation_run[OF assms(4), of S reason fs n] by auto
  with assms(1-3) have "revokeOnChain S c (rows @ [new_row c reason now])
      (put REVOKED_PATH (pretty (JArr (rows @ [new_row c reason now]))) fs, n1) = Some (Inr x, (fs', n'))"
    by (auto simp: revokeCredential_def any_iff loadRevoked_apply as_array_def)
  from revokeOnChain_call[OF this] obtain wit all1 out where w: "root_sent S (rv_root wit) out n'"
    "row_commitments (rows @ [new_row c reason now]) = Inr all1" "computeRevocationWitness (sv_hash S) all1 = Inr wit"
    "x = \<lparr>re_alreadyRevoked = False, re_commitment = c, re_root = Some (rv_root wit), re_count = length rows + 1,
        re_txHash = first_hex64 out\<rparr>" by auto
  obtain cs where cs: "row_commitments rows = Inr cs" and all1: "all1 = cs @ [c]"
    using w(2) by (auto simp: row_commitments_def traverse_append_Inr rbind_Inr_iff rmap_Inr_iff new_row_def entry_get_def member_String_def)
  have "length cs = length rows" using cs traverse_length unfolding row_commitments_def by blast
  with assms(5) have "take 8 (cs @ [c]) = take 8 cs" by simp
  then have "computeRevocationWitness (sv_hash S) (cs @ [c]) = computeRevocationWitness (sv_hash S) cs"
    "computeRevocationWitness (sv_hash S) (take 8 cs) = computeRevocationWitness (sv_hash S) cs"
    by (simp_all only: computeRevocationWitness_def Let_def take_take min.idem)
  with w cs all1 show ?thesis by (intro exI conjI) auto
qed

lemma note_root_take8:
  assumes "computeNoteRootFromLeaves hash (xs @ ys) = Inr root" and "8 \<le> length xs"
  shows "computeNoteRootFromLeaves hash xs = Inr root"
proof -
  from assms(1) obtain ns where ns: "traverse (\<lambda>l. IssuerFields.toBigInt (FText l)) (xs @ ys) = Inr ns"
    and root: "root = hex_word (accumulated hash (padded8 ns) 8)" unfolding computeNoteRootFromLeaves_def rmap_Inr_iff by blast
  from ns obtain ms ks where m: "traverse (\<lambda>l. IssuerFields.toBigInt (FText l)) xs = Inr ms" and "ns = ms @ ks"
    unfolding traverse_append_Inr by blast
  moreover have "8 \<le> length ms" using traverse_length[OF m] assms(2) by simp
  ultimately have "take 8 (padded8 ns) = take 8 (padded8 ms)" by (simp add: padded8_def)
  then have "accumulated hash (padded8 ns) 8 = accumulated hash (padded8 ms) 8" by (simp only: accumulated_def)
  with m root show ?thesis unfolding computeNoteRootFromLeaves_def rmap_Inr_iff by simp
qed

text \<open>
  Eight notes fill the root as well: appending a further note answers with the root of the notes
  that were there, and counts it.
\<close>

theorem note_root_full:
  assumes "appendNoteCommitment S noteSecret noteBlinding (fs, n) = Some (Inr st, w')"
    and "file_json fs NOTES_PATH (JArr []) = JArr rows" and "8 \<le> length rows"
  shows "computeNoteRoot S rows = Inr (no_noteRoot st)
    \<and> no_count st = (if JStr (no_commitment st) \<in> set rows then length rows else Suc (length rows))"
proof -
  from assms(1,2) have c: "no_count st = length (if JStr (no_commitment st) \<in> set rows then rows else rows @ [JStr (no_commitment st)])"
    and r: "computeNoteRoot S (if JStr (no_commitment st) \<in> set rows then rows else rows @ [JStr (no_commitment st)]) = Inr (no_noteRoot st)"
    by (auto simp: appendNoteCommitment_def loadNotes_def load_json_apply as_array_def saveNotes_def save_json_apply run_iff Let_def)
  have "computeNoteRoot S (rows @ [JStr (no_commitment st)]) = Inr (no_noteRoot st) \<Longrightarrow> computeNoteRoot S rows = Inr (no_noteRoot st)"
    using note_root_take8[of "sv_hash S" "map json_String rows" "[no_commitment st]"] assms(3)
    by (simp add: computeNoteRoot_def)
  with c r show ?thesis by (auto split: if_splits)
qed

definition for_key :: "'n serviceEnv \<Rightarrow> string \<Rightarrow> int \<Rightarrow> json \<Rightarrow> bool" where
  "for_key S key auditor row \<longleftrightarrow> member_Number (obj_get row ''auditorId'') = Some auditor
     \<and> obj_get row ''viewingKeyHash'' = Some (JStr (viewingKeyHash S key))"

lemma filter_res_total: "(\<And>x. x \<in> set xs \<Longrightarrow> p x = Inr (q x)) \<Longrightarrow> filter_res p xs = Inr (filter q xs)"
  by (induction xs) auto

lemma disclosures_of_good:
  assumes "file_json fs STORE_PATH (JArr []) = JArr rows" and "list_all good_row rows"
  shows "disclosures_of S key (Some auditor) (fs, n) = Some (Inr (filter (for_key S key auditor) rows), (fs, n))"
proof -
  have "filter_res (disclosure_matches (viewingKeyHash S key) (Some auditor)) rows = Inr (filter (for_key S key auditor) rows)"
    using assms(2) by (intro filter_res_total)
      (auto simp: disclosure_matches_def for_key_def good_row_get list_all_iff same_number_def)
  with assms(1) show ?thesis by (simp add: disclosures_of_def io_simps as_array_def)
qed

lemma recordDisclosure_files: "recordDisclosureOnChain S pack (fs, n) = Some (r, (fs', n')) \<Longrightarrow> fs' = fs"
  by (auto simp: recordDisclosureOnChain_def any_iff split: option.splits dest: ensureAdminKey_files)

lemma io_catch_any [any_iff]: "io_catch m h w = Some (r, w'') \<longleftrightarrow>
    (\<exists>e w'. m w = Some (Inl e, w') \<and> h e w' = Some (r, w'')) \<or> (\<exists>a. m w = Some (Inr a, w'') \<and> r = Inr a)"
  by (auto simp: io_catch_def split: option.splits sum.splits)

lemma outside_now [any_iff]: "outside (now_io clock) (fs, n) = Some (r, w') \<longleftrightarrow> r = Inr (fst (clock n)) \<and> w' = (fs, snd (clock n))"
  by (auto simp: outside_def io_simps now_io_def split: prod.splits)

lemma stored_row_good:
  assumes "json_wf (JObj pack)"
  shows "good_row (JObj (put ''onChain'' (JBool b) (put ''storedAt'' (JNum t) pack)))"
    "good_row (JObj (put ''onChainError'' (JStr e) (put ''onChain'' (JBool b) (put ''storedAt'' (JNum t) pack))))"
proof -
  have "good_row (JObj pack)" using assms by (simp add: good_row_def)
  then have g: "good_row (JObj (put ''onChain'' (JBool b) (put ''storedAt'' (JNum t) pack)))" for b
    by (intro good_row_put) simp_all
  then show "good_row (JObj (put ''onChain'' (JBool b) (put ''storedAt'' (JNum t) pack)))" .
  show "good_row (JObj (put ''onChainError'' (JStr e) (put ''onChain'' (JBool b) (put ''storedAt'' (JNum t) pack))))"
    by (rule good_row_put[OF g]) simp
qed

lemma record_unconfigured: "env_or S auditor_registry_names = None \<Longrightarrow> recordDisclosureOnChain S pack w \<noteq> Some (Inl e, w')"
  by (simp add: recordDisclosureOnChain_def io_simps)

lemma appendDisclosure_run:
  assumes "appendDisclosure S pack (fs, n) = Some (Inr stored, (fs', n'))" and "json_wf (JObj pack)"
    and "file_json fs STORE_PATH (JArr []) = JArr rows" and "list_all good_row rows"
  shows "good_row stored \<and> file_json fs' STORE_PATH (JArr []) = JArr (rows @ [stored])
    \<and> (\<forall>k. k \<notin> {''storedAt'', ''onChain'', ''onChainError''} \<longrightarrow> obj_get stored k = map_of pack k)
    \<and> (env_or S auditor_registry_names = None \<longrightarrow> obj_get stored ''onChain'' = Some (JBool True))"
proof -
  let ?st = "put ''storedAt'' (JNum (fst (sv_clock S n))) pack"
  from assms(1,3) obtain full fs1 where s: "stored = JObj full" and fs': "fs' = put STORE_PATH (pretty (JArr (rows @ [JObj full]))) fs1"
    and t: "io_catch (io_bind (recordDisclosureOnChain S ?st) (\<lambda>r. io_return (put ''onChain'' (JBool True) ?st)))
       (\<lambda>e. io_return (put ''onChainError'' (JStr (message e)) (put ''onChain'' (JBool False) ?st))) (fs, snd (sv_clock S n))
       = Some (Inr full, (fs1, n'))"
    by (auto simp: appendDisclosure_def io_bind_any io_any outside_now load_json_apply save_json_apply as_array_def Let_def)
  from t have f: "fs1 = fs" by (auto simp: any_iff dest: recordDisclosure_files)
  from t have full: "full = put ''onChain'' (JBool True) ?st
      \<or> env_or S auditor_registry_names \<noteq> None
        \<and> (\<exists>e. full = put ''onChainError'' (JStr e) (put ''onChain'' (JBool False) ?st))"
    unfolding io_catch_any io_bind_any io_any using record_unconfigured[of S ?st] by blast
  then have g: "good_row stored" using stored_row_good[OF assms(2)] s by auto
  then have "json_wf (JArr (rows @ [JObj full]))" using assms(4) s by (simp add: good_row_def list_all_iff)
  then have "file_json fs' STORE_PATH (JArr []) = JArr (rows @ [stored])" using fs' s by (simp add: file_json_saved)
  moreover have "obj_get stored k = map_of pack k" if "k \<notin> {''storedAt'', ''onChain'', ''onChainError''}" for k
    using full s that by (auto simp: map_of_put)
  moreover have "obj_get stored ''onChain'' = Some (JBool True)" if "env_or S auditor_registry_names = None"
    using full s that by (auto simp: map_of_put)
  ultimately show ?thesis using g by blast
qed

text \<open>
  C20: Of the disclosures, a query shows, without the hash of the viewing key, exactly those stored for
  the auditor under this hash and, when the query names a transaction, for this transaction, in the
  order in which they were stored; an empty name counts as none. One that has just been stored for the
  auditor authorises the query by itself, whatever the chain's registry says. Without a registry it is
  stored as recorded on chain.
\<close>

theorem disclosure_shown:
  assumes "appendDisclosure S pack (fs, n) = Some (Inr stored, (fs', n'))" and "json_wf (JObj pack)"
    and "file_json fs STORE_PATH (JArr []) = JArr rows" and "list_all good_row rows"
  shows "queryDisclosures S key (Some auditor) txHash (fs', m)
      = Some (Inr (map shown_row [row \<leftarrow> rows @ [stored]. for_key S key auditor row
          \<and> (txHash \<in> {None, Some []} \<or> obj_get row ''txHash'' = map_option JStr txHash)]), (fs', m))
    \<and> (for_key S key auditor (JObj pack) \<longrightarrow>
         authorizeDisclosureQuery S key (Some auditor) (fs', m)
           = Some (Inr \<lparr>da_authorized = True, da_method = CapabilityToken, da_error = None\<rparr>, (fs', m)))
    \<and> (env_or S auditor_registry_names = None \<longrightarrow> obj_get stored ''onChain'' = Some (JBool True))"
proof -
  note st = appendDisclosure_run[OF assms]
  have good: "list_all good_row (rows @ [stored])" using assms(4) st by simp
  have d: "disclosures_of S key (Some auditor) (fs', m) = Some (Inr (filter (for_key S key auditor) (rows @ [stored])), (fs', m))"
    by (rule disclosures_of_good[OF _ good]) (use st in blast)
  have "for_key S key auditor stored \<longleftrightarrow> for_key S key auditor (JObj pack)" using st by (simp add: for_key_def)
  then have "authorizeDisclosureQuery S key (Some auditor) (fs', m)
      = Some (Inr \<lparr>da_authorized = True, da_method = CapabilityToken, da_error = None\<rparr>, (fs', m))"
    if "for_key S key auditor (JObj pack)" using that by (simp add: authorizeDisclosureQuery_def io_bind_apply io_return_apply d)
  moreover have "(\<lambda>row. for_key S key auditor row \<and> (truthy txHash \<longrightarrow> obj_get row ''txHash'' = Some (JStr (the txHash))))
      = (\<lambda>row. for_key S key auditor row \<and> (txHash \<in> {None, Some []} \<or> obj_get row ''txHash'' = map_option JStr txHash))"
    by (cases txHash) (auto simp: truthy_def fun_eq_iff)
  then have "queryDisclosures S key (Some auditor) txHash (fs', m)
      = Some (Inr (map shown_row [row \<leftarrow> rows @ [stored]. for_key S key auditor row
          \<and> (txHash \<in> {None, Some []} \<or> obj_get row ''txHash'' = map_option JStr txHash)]), (fs', m))"
    by (simp only: queryDisclosures_def io_bind_apply d filter_filter io_return_apply option.case sum.case prod.case)
  ultimately show ?thesis using st by blast
qed

section \<open>A demonstration\<close>

definition demo_rows :: "string \<Rightarrow> json list" where
  "demo_rows ds = map (\<lambda>d. new_row (demo_commitment d) None 0) ds"

definition demo_digits :: string where
  "demo_digits = ''12345678''"

definition demo_files :: files where
  "demo_files = put REVOKED_PATH (pretty (JArr (demo_rows demo_digits))) []"

lemma hex_digits: "list_all (\<lambda>d. hex_val d \<noteq> None) demo_digits" "list_all (\<lambda>d. lower d = d) demo_digits"
  by (simp_all add: demo_digits_def hex_val_def lower_def)

lemma demo_commitment_inj: "demo_commitment c = demo_commitment d \<longleftrightarrow> c = d"
  by (simp add: demo_commitment_def)

lemma demo_normalized:
  assumes "hex_val d \<noteq> None" and "lower d = d"
  shows "normalizeCommitment (demo_commitment d) = Inr (demo_commitment d)"
proof -
  have "strip0xi (demo_commitment d) = replicate 64 d" by (simp add: demo_commitment_def strip0xi_def startsWith_def)
  moreover have "is_hex64 (replicate 64 d)" using assms(1) by (simp add: is_hex64_def list_all_iff)
  ultimately show ?thesis using assms(2) by (simp add: normalizeCommitment_def demo_commitment_def)
qed

lemma demo_row_commitments: "row_commitments (demo_rows ds) = Inr (map demo_commitment ds)"
  by (induction ds) (simp_all add: row_commitments_def demo_rows_def new_row_def entry_get_def member_String_def)

lemma demo_find: "find_row (demo_commitment d) (demo_rows ds) = Inr None" if "d \<notin> set ds"
  using that by (induction ds) (auto simp: demo_rows_def new_row_def has_commitment_def entry_get_def demo_commitment_inj)

lemma demo_rows_loaded: "revoked_rows demo_files = Inr (JArr (demo_rows demo_digits))"
proof -
  have "list_all good_row (demo_rows demo_digits)" by (simp add: demo_rows_def list_all_iff new_row_good)
  moreover have "fixture_ok []" by (simp add: fixture_ok_def file_json_def)
  moreover have "demo_rows demo_digits \<noteq> []" by (simp add: demo_rows_def demo_digits_def)
  ultimately have "json_wf (JArr (demo_rows demo_digits))" by (simp add: list_all_iff good_row_def)
  then have kept: "file_json demo_files path d = (if path = REVOKED_PATH then JArr (demo_rows demo_digits) else d)" for path d
    unfolding demo_files_def by (subst file_json_saved) (simp_all add: file_json_def)
  have "REVOKED_FIXTURE_PATH \<noteq> REVOKED_PATH" by (simp add: REVOKED_PATH_def REVOKED_FIXTURE_PATH_def)
  then show ?thesis using \<open>demo_rows demo_digits \<noteq> []\<close>
    by (simp add: revoked_rows_def kept Let_def has_no_rows_def mergeRevokedRows_def iterate_def)
qed

lemma demo_hex_value: "hex_val d \<noteq> None \<Longrightarrow> \<exists>v. BigInt_of (demo_commitment d) = Inr v"
  using hex_text_value[of "replicate 64 d"] by (auto simp: demo_commitment_def list_all_iff)

lemma demo_witness:
  assumes "list_all (\<lambda>d. hex_val d \<noteq> None) ds"
  shows "\<exists>wit. computeRevocationWitness hash (map demo_commitment ds) = Inr wit"
proof -
  have "\<exists>ns. traverse hexToBigInt (map demo_commitment ds) = Inr ns" if "list_all (\<lambda>d. hex_val d \<noteq> None) ds" for ds
    using that
  proof (induction ds)
    case (Cons d ds)
    have "strip0xi (demo_commitment d) = replicate 64 d" by (simp add: demo_commitment_def strip0xi_def startsWith_def)
    with demo_hex_value[of d] Cons.prems have "\<exists>v. hexToBigInt (demo_commitment d) = Inr v"
      by (auto simp: hexToBigInt_def demo_commitment_def Let_def)
    with Cons show ?case by auto
  qed simp
  moreover have "list_all (\<lambda>d. hex_val d \<noteq> None) (take 8 ds)" using assms by (auto simp: list_all_iff dest: in_set_takeD)
  ultimately show ?thesis by (simp add: computeRevocationWitness_def Let_def rmap_def take_map) fastforce
qed

lemma demo_set_root: "setRevocationRoot demo_service registry admin root (fs, n) = Some (Inr ''true'', (fs, n + 3))"
  by (simp add: setRevocationRoot_def ensureAdminKey_def stellar_cli_def outside_def truthy_def io_simps demo_names)

definition demo_ninth :: string where
  "demo_ninth = demo_commitment (CHR ''9'')"

lemma demo_ninth_facts: "normalizeCommitment demo_ninth = Inr demo_ninth" "find_row demo_ninth (demo_rows demo_digits) = Inr None"
  "list_all good_row (demo_rows demo_digits)" "length (demo_rows demo_digits) = 8"
proof -
  show "normalizeCommitment demo_ninth = Inr demo_ninth" unfolding demo_ninth_def
    by (rule demo_normalized) (simp_all add: hex_val_def lower_def)
  show "find_row demo_ninth (demo_rows demo_digits) = Inr None" unfolding demo_ninth_def
    by (rule demo_find) (simp add: demo_digits_def)
qed (simp_all add: demo_rows_def list_all_iff new_row_good demo_digits_def)

lemma demo_fixture: "fixture_ok demo_files"
  by (simp add: fixture_ok_def file_json_def demo_files_def REVOKED_PATH_def REVOKED_FIXTURE_PATH_def)

lemma demo_revocation: "\<exists>x fs' n'. revokeCredential demo_service demo_ninth None (demo_files, 5) = Some (Inr x, (fs', n'))"
proof -
  let ?rows = "\<lambda>now. demo_rows demo_digits @ [new_row demo_ninth None now]"
  obtain now n1 where rec: "recordRevocation demo_service demo_ninth None (demo_rows demo_digits) (demo_files, 5)
      = Some (Inr (?rows now, False), (put REVOKED_PATH (pretty (JArr (?rows now))) demo_files, n1))"
    using recordRevocation_run[OF demo_ninth_facts(2), of demo_service None demo_files 5] by auto
  have "row_commitments (?rows now) = Inr (map demo_commitment (demo_digits @ ''9''))"
    using demo_row_commitments[of demo_digits]
    by (simp add: row_commitments_def traverse_append rbind_Inr_iff new_row_def entry_get_def member_String_def demo_ninth_def)
  moreover obtain wit where "computeRevocationWitness (\<lambda>xs. 7) (map demo_commitment (demo_digits @ ''9'')) = Inr wit"
    using demo_witness[of "demo_digits @ ''9''"] hex_digits by (auto simp: hex_val_def)
  moreover have "env_or demo_service registry_names = Some ''R''" "text_or (demo_serviceEnv ''CONTRACT_ADMIN_PUBLIC_KEY'') None = Some ''A''"
    by (simp_all add: demo_names text_or_def truthy_def)
  ultimately have "\<exists>x fs' n'. revokeOnChain demo_service demo_ninth (?rows now)
      (put REVOKED_PATH (pretty (JArr (?rows now))) demo_files, n1) = Some (Inr x, (fs', n'))"
    by (simp add: revokeOnChain_def io_bind_apply io_res_def demo_set_root saveRevoked_def save_json_apply Let_def io_return_apply
        del: demo_rows_def)
  with rec show ?thesis
    by (simp add: revokeCredential_def io_bind_apply io_res_def demo_ninth_facts loadRevoked_apply demo_rows_loaded as_array_def)
qed

theorem revocation_stays_witness:
  "\<exists>r fs' n' rows row. revokeCredential demo_service demo_ninth None (demo_files, 5) = Some (r, (fs', n'))
    \<and> revoked_rows fs' = Inr (JArr rows) \<and> find_row demo_ninth rows = Inr (Some row)"
proof -
  from demo_revocation obtain x fs' n'
    where run: "revokeCredential demo_service demo_ninth None (demo_files, 5) = Some (Inr x, (fs', n'))" by (elim exE)
  from revocation_stays[OF run demo_ninth_facts(1) demo_rows_loaded demo_ninth_facts(3) demo_fixture] run show ?thesis by (elim exE conjE) (intro exI conjI)
qed

theorem revocation_root_full_witness:
  "\<exists>x fs' n' wit commitments out. revokeCredential demo_service demo_ninth None (demo_files, 5) = Some (Inr x, (fs', n'))
    \<and> root_sent demo_service (rv_root wit) out n' \<and> re_root x = Some (rv_root wit) \<and> re_count x = 9
    \<and> computeRevocationWitness (\<lambda>xs. 7) commitments = Inr wit \<and> row_commitments (demo_rows demo_digits) = Inr commitments"
proof -
  from demo_revocation obtain x fs' n'
    where run: "revokeCredential demo_service demo_ninth None (demo_files, 5) = Some (Inr x, (fs', n'))" by (elim exE)
  from demo_ninth_facts(4) have "8 \<le> length (demo_rows demo_digits)" by simp
  from revocation_root_full[OF run demo_ninth_facts(1) demo_rows_loaded demo_ninth_facts(2) this] demo_ninth_facts(4)
  obtain wit commitments out where "root_sent demo_service (rv_root wit) out n'" "re_root x = Some (rv_root wit)" "re_count x = 9"
    "computeRevocationWitness (\<lambda>xs. 7) commitments = Inr wit" "row_commitments (demo_rows demo_digits) = Inr commitments"
    unfolding demo_service_sel by (elim exE conjE) simp
  with run show ?thesis by (intro exI conjI)
qed

definition demo_notes :: "json list" where
  "demo_notes = map (\<lambda>d. JStr (demo_commitment d)) demo_digits"

lemma known_texts: "IssuerFields.toBigInt (FText ''1'') = Inr 1" "IssuerFields.toBigInt (FText (hex_word 7)) = Inr 7"
  "hex_val d \<noteq> None \<Longrightarrow> \<exists>v. IssuerFields.toBigInt (FText (demo_commitment d)) = Inr v"
proof -
  show "IssuerFields.toBigInt (FText ''1'') = Inr 1"
    using BigInt_toString10[of 1] by (simp only: toBigInt_text constant_texts)
  have "BigInt_of (hex_word 7) = Inr 7" by (rule hex_word_back) simp_all
  then show "IssuerFields.toBigInt (FText (hex_word 7)) = Inr 7" by (simp only: toBigInt_text)
qed (use demo_hex_value in \<open>simp only: toBigInt_text\<close>)

lemma demo_leaves: "list_all (\<lambda>d. hex_val d \<noteq> None) ds \<Longrightarrow>
    \<exists>ns. traverse (\<lambda>l. IssuerFields.toBigInt (FText l)) (map demo_commitment ds @ [hex_word 7]) = Inr ns"
proof (induction ds)
  case (Cons d ds)
  then show ?case using known_texts(3)[of d] by (auto simp del: IssuerFields.toBigInt.simps)
qed (simp add: known_texts(2) del: IssuerFields.toBigInt.simps)

theorem note_root_full_witness:
  "\<exists>st w'. appendNoteCommitment demo_service ''1'' ''1'' (put NOTES_PATH (pretty (JArr demo_notes)) [], 5) = Some (Inr st, w')
    \<and> computeNoteRoot demo_service demo_notes = Inr (no_noteRoot st)"
proof -
  have "json_wf (JArr demo_notes)" by (simp add: demo_notes_def list_all_iff)
  then have rows: "file_json (put NOTES_PATH (pretty (JArr demo_notes)) []) NOTES_PATH (JArr []) = JArr demo_notes"
    by (simp only: file_json_saved) simp
  have "computeNoteCommitment (\<lambda>xs. 7) (FText ''1'') (FText ''1'') = Inr (hex_word 7)"
    by (simp add: computeNoteCommitment_def hash2Fields_def known_texts(1) del: IssuerFields.toBigInt.simps)
  moreover obtain ns where "traverse (\<lambda>l. IssuerFields.toBigInt (FText l)) (map demo_commitment demo_digits @ [hex_word 7]) = Inr ns"
    using demo_leaves[OF hex_digits(1)] by blast
  then obtain ms where "traverse (\<lambda>l. IssuerFields.toBigInt (FText l)) (map demo_commitment demo_digits @ [hex_word 7]) = Inr ns"
    "traverse (\<lambda>l. IssuerFields.toBigInt (FText l)) (map demo_commitment demo_digits) = Inr ms"
    unfolding traverse_append_Inr by blast
  then obtain root root' where "computeNoteRoot demo_service (demo_notes @ [JStr (hex_word 7)]) = Inr root"
    "computeNoteRoot demo_service demo_notes = Inr root'"
    by (simp add: computeNoteRoot_def computeNoteRootFromLeaves_def demo_notes_def comp_def del: IssuerFields.toBigInt.simps)
  ultimately obtain st w' where
    run: "appendNoteCommitment demo_service ''1'' ''1'' (put NOTES_PATH (pretty (JArr demo_notes)) [], 5) = Some (Inr st, w')"
    by (cases "JStr (hex_word 7) \<in> set demo_notes") (simp_all add: appendNoteCommitment_def loadNotes_def saveNotes_def io_bind_apply io_res_def load_json_apply save_json_apply
        rows Let_def io_return_apply as_array_def del: put.simps)
  from note_root_full[OF run rows] have "computeNoteRoot demo_service demo_notes = Inr (no_noteRoot st)"
    by (simp add: demo_notes_def demo_digits_def)
  with run show ?thesis by (intro exI conjI)
qed

definition demo_pack :: "(string \<times> json) list" where
  "demo_pack = [(''auditorId'', JNum 1), (''viewingKeyHash'', JStr (replicate 64 (CHR ''0''))), (''txHash'', JStr ''ab'')]"

theorem disclosure_shown_witness:
  "\<exists>stored fs' n'. appendDisclosure demo_service demo_pack ([], 5) = Some (Inr stored, (fs', n'))
    \<and> queryDisclosures demo_service ''key'' (Some 1) (Some ''ab'') (fs', n') = Some (Inr [shown_row stored], (fs', n'))
    \<and> queryDisclosures demo_service ''key'' (Some 1) (Some ''cd'') (fs', n') = Some (Inr [], (fs', n'))"
proof -
  have "env_or demo_service auditor_registry_names = None"
    by (simp add: env_or_def auditor_registry_names_def demo_serviceEnv_def text_or_def truthy_def)
  then obtain stored fs' n' where run: "appendDisclosure demo_service demo_pack ([], 5) = Some (Inr stored, (fs', n'))"
    by (simp add: appendDisclosure_def io_bind_apply load_json_apply outside_def io_simps now_io_def recordDisclosureOnChain_def Let_def
        file_json_def as_array_def save_json_apply)
  have wf: "json_wf (JObj demo_pack)" by (simp add: demo_pack_def)
  have none: "file_json [] STORE_PATH (JArr []) = JArr []" by (simp add: file_json_def)
  have "for_key demo_service ''key'' 1 stored" "obj_get stored ''txHash'' = Some (JStr ''ab'')"
    using appendDisclosure_run[OF run wf none] by (simp_all add: for_key_def demo_pack_def viewingKeyHash_def member_Number_def)
  with disclosure_shown[OF run wf none, of "''key''" 1 "Some ''ab''" n'] disclosure_shown[OF run wf none, of "''key''" 1 "Some ''cd''" n']
  have "queryDisclosures demo_service ''key'' (Some 1) (Some ''ab'') (fs', n') = Some (Inr [shown_row stored], (fs', n'))"
    "queryDisclosures demo_service ''key'' (Some 1) (Some ''cd'') (fs', n') = Some (Inr [], (fs', n'))" by simp_all
  with run show ?thesis by (intro exI conjI)
qed

end
