(* ===== verification/IssuerCredential.thy ===== *)
theory IssuerCredential
  imports IssuerStore
begin

text \<open>
  Issuing a passport: the inputs of the prover (\<^verbatim>\<open>scripts/generate_prover_toml.js\<close>,
  \<^verbatim>\<open>scripts/generate_pof_prover_toml.js\<close>) and the requests \<^verbatim>\<open>POST /credential\<close>,
  \<^verbatim>\<open>POST /registry/sync-root\<close> and \<^verbatim>\<open>GET /roots\<close> of \<^verbatim>\<open>issuer-service/server.js\<close>.
  Shown: the inputs that are issued satisfy the circuit up to the hashes it wants to be non-zero, that a
  revoked commitment changes nothing about it, and what a passport that is handed out carries.
\<close>

section \<open>Inputs of the prover\<close>

definition hexToBytes32 :: "'n serviceEnv \<Rightarrow> string \<Rightarrow> byte list" where
  "hexToBytes32 S hex = sv_unhex S (padStart0 64 (strip0x hex))"

definition fieldHexToDecimal :: "string \<Rightarrow> string res" where
  "fieldHexToDecimal hex = rmap toString10 (BigInt_of hex)"

definition randomFieldSecret :: "'n serviceEnv \<Rightarrow> ('n, string) service" where
  "randomFieldSecret S = outside (\<lambda>n. case sv_random S n of (bytes, n') \<Rightarrow>
     Some (rmap toString10 (BigInt_of (''0x'' @ bytesToHex bytes)), n'))"

record policyOverride =
  po_min :: "string option"
  po_max :: "string option"
  po_policyId :: "string option"

definition override :: "string \<Rightarrow> string \<Rightarrow> string \<Rightarrow> policyOverride" where
  "override lo hi pol = \<lparr>po_min = Some lo, po_max = Some hi, po_policyId = Some pol\<rparr>"

definition POLICY_OVERRIDES :: "(string \<times> policyOverride) list" where
  "POLICY_OVERRIDES = [(''general-eligibility'', override ''1'' ''999'' ''1''), (''accredited-investor'', override ''1'' ''999'' ''1''),
     (''us-jurisdiction'', override ''840'' ''840'' ''1''), (''sanctions-clear'', override ''1'' ''999'' ''1''),
     (''age-verified'', override ''1'' ''999'' ''1''), (''proof-of-funds'', override ''1'' ''999'' ''2'')]"

definition overrideByKey :: "string \<Rightarrow> policyOverride" where
  "overrideByKey key = (case map_of POLICY_OVERRIDES key of Some p \<Rightarrow> p
     | None \<Rightarrow> if key \<in> set object_members then \<lparr>po_min = None, po_max = None, po_policyId = None\<rparr>
       else the (map_of POLICY_OVERRIDES ''general-eligibility''))"

record proverInputs =
  pv_accredited :: bool
  pv_sanctionsClear :: bool
  pv_jurisdictionCode :: string
  pv_dobTimestamp :: string
  pv_issuerId :: string
  pv_salt :: string
  pv_noteSecret :: string
  pv_noteBlinding :: string
  pv_currentTime :: string
  pv_minJurisdiction :: "string option"
  pv_maxJurisdiction :: "string option"
  pv_policyId :: "string option"
  pv_assetId :: string
  pv_actionId :: string
  pv_root :: string
  pv_revocationRoot :: string
  pv_nullifier :: string
  pv_pathSiblings :: "string list"
  pv_pathBits :: "string list"
  pv_revPathSiblings :: "string list"
  pv_revPathBits :: "string list"

record builtInputs =
  bi_commitment :: string
  bi_nullifier :: string
  bi_root :: string
  bi_revRoot :: string
  bi_policyKey :: string
  bi_noteSecret :: string
  bi_noteBlinding :: string
  bi_issuer :: issuerMeta
  bi_signature :: issuerSignature
  bi_inputs :: proverInputs

definition scope_text :: "(string \<times> string) list \<Rightarrow> string \<Rightarrow> string \<Rightarrow> string" where
  "scope_text scope a b = given (text_or (map_of scope a) (text_or (map_of scope b) (Some ''1''))) ''1''"

definition unsynced :: "string \<Rightarrow> string \<Rightarrow> string \<Rightarrow> js_error" where
  "unsynced root material walletField = Refused (''CredentialRegistry root ('' @ root @ '') does not match credential root ('' @
     material @ '') for walletField='' @ walletField @ ''.'')"

definition revocation_unsynced :: "string \<Rightarrow> string \<Rightarrow> js_error" where
  "revocation_unsynced wit root = Refused (''Revocation witness ('' @ wit @ '') does not match on-chain root ('' @ root @ ''). '' @
     ''Sync issuer-service/fixtures/revoked_commitments.json with CredentialRegistry.'')"

definition revokedWitness :: "'n serviceEnv \<Rightarrow> ('n, revWitness) service" where
  "revokedWitness S = io_bind loadRevoked (\<lambda>loaded. io_res (rbind (as_array loaded) (\<lambda>rows.
     rbind (row_commitments rows) (computeRevocationWitness (sv_hash S)))))"

definition buildProverInputs ::
  "'n serviceEnv \<Rightarrow> string \<Rightarrow> chainRoots \<Rightarrow> string \<Rightarrow> (string \<times> string) list \<Rightarrow> ('n, builtInputs) service" where
  "buildProverInputs S walletField roots key scope = (let pol = overrideByKey key in
     io_bind (io_res (buildCredentialMaterial (sv_hash S) (sv_sha S) walletField (sv_env S) key)) (\<lambda>material.
     if or_root roots = [] \<or> or_revocationRoot roots = [] then io_throw (Refused ''On-chain Merkle roots are required'')
     else if normalizeHex32 (or_root roots) \<noteq> normalizeHex32 (cm_root material)
     then io_throw (unsynced (or_root roots) (cm_root material) walletField)
     else io_bind (revokedWitness S) (\<lambda>wit.
     if map lower (rv_root wit) \<noteq> map lower (or_revocationRoot roots)
     then io_throw (revocation_unsynced (rv_root wit) (or_revocationRoot roots))
     else io_bind (randomFieldSecret S) (\<lambda>noteSecret.
     io_bind (randomFieldSecret S) (\<lambda>noteBlinding.
     let assetId = scope_text scope ''assetId'' ''asset_id''; actionId = scope_text scope ''actionId'' ''action_id'' in
     io_bind (io_res (computeNullifier (sv_hash S) (FText noteSecret) (FText (given (po_policyId pol) undefinedText))
       (FText assetId) (FText actionId))) (\<lambda>nullifier.
     io_bind (io_res (issuerMetadata S)) (\<lambda>issuer.
     io_bind (io_res (signCommitment S (cm_commitment material))) (\<lambda>sig.
     io_bind (outside (now_io (sv_clock S))) (\<lambda>now.
     io_bind (io_res (traverse fieldHexToDecimal [or_root roots, or_revocationRoot roots, nullifier])) (\<lambda>decs.
       io_return \<lparr>bi_commitment = cm_commitment material, bi_nullifier = nullifier, bi_root = or_root roots,
         bi_revRoot = or_revocationRoot roots, bi_policyKey = key, bi_noteSecret = noteSecret, bi_noteBlinding = noteBlinding,
         bi_issuer = issuer, bi_signature = sig,
         bi_inputs = \<lparr>pv_accredited = True, pv_sanctionsClear = True, pv_jurisdictionCode = cm_jurisdictionCode material,
           pv_dobTimestamp = cm_dobTimestamp material, pv_issuerId = cm_issuerId material, pv_salt = cm_salt material,
           pv_noteSecret = noteSecret, pv_noteBlinding = noteBlinding, pv_currentTime = toString10 (now div 1000),
           pv_minJurisdiction = po_min pol, pv_maxJurisdiction = po_max pol, pv_policyId = po_policyId pol,
           pv_assetId = assetId, pv_actionId = actionId, pv_root = decs ! 0, pv_revocationRoot = decs ! 1,
           pv_nullifier = decs ! 2, pv_pathSiblings = cm_pathSiblings material, pv_pathBits = cm_pathBits material,
           pv_revPathSiblings = rv_siblings wit, pv_revPathBits = rv_bits wit\<rparr>\<rparr>))))))))))"

section \<open>Proof of funds\<close>

definition pofNullifier :: "'n serviceEnv \<Rightarrow> string \<Rightarrow> string \<Rightarrow> string res" where
  "pofNullifier S noteSecret pol = computePolicyNullifier (sv_hash S) (FText noteSecret) (FText pol)"

record pofInputs =
  pf_nullifier :: string
  pf_noteSecret :: string
  pf_root :: string
  pf_revocationRoot :: string
  pf_policyId :: string
  pf_nullifierDecimal :: string
  pf_balance :: string
  pf_threshold :: string

definition buildPofProverInputs :: "'n serviceEnv \<Rightarrow> string \<Rightarrow> string \<Rightarrow> ('n, pofInputs) service" where
  "buildPofProverInputs S balance threshold =
     io_bind (randomFieldSecret S) (\<lambda>noteSecret.
     io_bind (io_res (pofNullifier S noteSecret ''2'')) (\<lambda>nullifier.
     io_bind (io_res (fieldHexToDecimal nullifier)) (\<lambda>dec.
       io_return \<lparr>pf_nullifier = nullifier, pf_noteSecret = noteSecret, pf_root = ''0'', pf_revocationRoot = ''0'',
         pf_policyId = ''2'', pf_nullifierDecimal = dec, pf_balance = balance, pf_threshold = threshold\<rparr>)))"

section \<open>Requests\<close>

record reply =
  rp_status :: int
  rp_body :: json

definition ok_reply :: "(string \<times> json) list \<Rightarrow> reply" where
  "ok_reply kvs = \<lparr>rp_status = 200, rp_body = JObj kvs\<rparr>"

definition error_reply :: "int \<Rightarrow> string \<Rightarrow> reply" where
  "error_reply status e = \<lparr>rp_status = status, rp_body = JObj [(''error'', JStr e)]\<rparr>"

definition detail_reply :: "int \<Rightarrow> string \<Rightarrow> js_error \<Rightarrow> reply" where
  "detail_reply status e err = \<lparr>rp_status = status, rp_body = JObj [(''error'', JStr e), (''detail'', JStr (message err))]\<rparr>"

text \<open>\<^verbatim>\<open>String(req.body?.k || d)\<close>.\<close>

definition text_param :: "json \<Rightarrow> string \<Rightarrow> string \<Rightarrow> string" where
  "text_param body k d = (let v = maybe_member (Some body) k in if json_truth v then member_String v else d)"

definition service_material :: "'n serviceEnv \<Rightarrow> string \<Rightarrow> string \<Rightarrow> credentialMaterial res" where
  "service_material S walletField key = buildCredentialMaterial (sv_hash S) (sv_sha S) walletField (sv_env S) key"

text \<open>The roots of the registry after the root of the material was set, when it was another one.\<close>

definition syncedRoots :: "'n serviceEnv \<Rightarrow> credentialMaterial \<Rightarrow> chainRoots \<Rightarrow> ('n, chainRoots \<times> bool) io" where
  "syncedRoots S material roots =
     (if normalizeHex32 (or_root roots) \<noteq> normalizeHex32 (cm_root material)
      then io_bind (syncCredentialRootOnChain S (cm_root material)) (\<lambda>r.
        io_bind (readOnChainRoots S) (\<lambda>roots'. io_return (roots', True)))
      else io_return (roots, False))"

definition roots_json :: "chainRoots \<Rightarrow> (string \<times> json) list" where
  "roots_json r = [(''root'', JStr (or_root r)), (''revocationRoot'', JStr (or_revocationRoot r)), (''noteRoot'', JStr (or_noteRoot r))]"

definition get_roots :: "'n serviceEnv \<Rightarrow> json \<Rightarrow> ('n, reply) service" where
  "get_roots S query =
     (let walletField = text_param query ''walletField'' []; key = text_param query ''policyKey'' ''general-eligibility'';
          shouldSync = maybe_member (Some query) ''sync'' \<in> {Some (JStr ''1''), Some (JStr ''true'')} in
      io_catch (io_bind (if shouldSync \<and> walletField \<noteq> []
          then io_bind (io_res (service_material S walletField key)) (\<lambda>material.
            io_bind (outside (readOnChainRoots S)) (\<lambda>roots.
            io_bind (outside (syncedRoots S material roots)) (\<lambda>u. io_return ())))
          else io_return ()) (\<lambda>u.
        io_bind (outside (readOnChainRoots S)) (\<lambda>roots. io_return (ok_reply (roots_json roots)))))
      (\<lambda>e. io_return (detail_reply 503 ''On-chain roots unavailable'' e)))"

definition post_sync_root :: "'n serviceEnv \<Rightarrow> json \<Rightarrow> ('n, reply) service" where
  "post_sync_root S body =
     (let walletField = text_param body ''walletField'' ''0''; key = text_param body ''policyKey'' ''general-eligibility'' in
      io_catch (io_bind (io_res (service_material S walletField key)) (\<lambda>material.
        io_bind (outside (readOnChainRoots S)) (\<lambda>roots.
        io_bind (outside (syncedRoots S material roots)) (\<lambda>(roots', synced).
          io_return (ok_reply [(''root'', JStr (or_root roots')), (''expectedRoot'', JStr (cm_root material)),
            (''synced'', JBool synced)])))))
      (\<lambda>e. io_return (detail_reply 503 ''Cannot sync eligibility registry root'' e)))"

definition CREDENTIAL_PATH :: "'n serviceEnv \<Rightarrow> string" where
  "CREDENTIAL_PATH S = given (text_or (sv_env S ''CREDENTIAL_FIXTURE_PATH'') None) ''fixtures/credential.json''"

text \<open>\<^verbatim>\<open>JSON.stringify\<close> drops members that are \<^verbatim>\<open>undefined\<close> and writes \<^verbatim>\<open>NaN\<close> as \<^verbatim>\<open>null\<close>.\<close>

definition opt_text :: "string \<Rightarrow> string option \<Rightarrow> (string \<times> json) list" where
  "opt_text k v = opt_member k (map_option JStr v)"

definition num_json :: "int option \<Rightarrow> json" where
  "num_json v = (case v of None \<Rightarrow> JNull | Some n \<Rightarrow> JNum n)"

definition texts_json :: "string list \<Rightarrow> json" where
  "texts_json ss = JArr (map JStr ss)"

definition inputs_json :: "proverInputs \<Rightarrow> json" where
  "inputs_json p = JObj ([(''accredited'', JBool (pv_accredited p)), (''sanctions_clear'', JBool (pv_sanctionsClear p)),
      (''jurisdiction_code'', JStr (pv_jurisdictionCode p)), (''dob_timestamp'', JStr (pv_dobTimestamp p)),
      (''issuer_id'', JStr (pv_issuerId p)), (''salt'', JStr (pv_salt p)), (''note_secret'', JStr (pv_noteSecret p)),
      (''note_blinding'', JStr (pv_noteBlinding p)), (''current_time'', JStr (pv_currentTime p))]
    @ opt_text ''min_jurisdiction'' (pv_minJurisdiction p) @ opt_text ''max_jurisdiction'' (pv_maxJurisdiction p)
    @ opt_text ''policy_id'' (pv_policyId p)
    @ [(''asset_id'', JStr (pv_assetId p)), (''action_id'', JStr (pv_actionId p)), (''root'', JStr (pv_root p)),
      (''revocation_root'', JStr (pv_revocationRoot p)), (''nullifier'', JStr (pv_nullifier p)),
      (''path_siblings'', texts_json (pv_pathSiblings p)), (''path_bits'', texts_json (pv_pathBits p)),
      (''rev_path_siblings'', texts_json (pv_revPathSiblings p)), (''rev_path_bits'', texts_json (pv_revPathBits p))])"

text \<open>\<^verbatim>\<open>{ ...cred, k: v }\<close>.\<close>

definition spread :: "json \<Rightarrow> (string \<times> json) list \<Rightarrow> json" where
  "spread j kvs = JObj (foldl (\<lambda>acc (k, v). put k v acc) (case j of JObj m \<Rightarrow> m | _ \<Rightarrow> []) kvs)"

definition credential_json ::
  "issuerMeta \<Rightarrow> string \<Rightarrow> string \<Rightarrow> json \<Rightarrow> chainRoots \<Rightarrow> builtInputs \<Rightarrow> issuerSignature \<Rightarrow> noteState option \<Rightarrow> int \<Rightarrow> (string \<times> json) list" where
  "credential_json issuer walletField key cred roots built sig note issuedAt = (let pol = IssuerFields.policyByKey key; p = bi_inputs built in
     opt_text ''label'' (sp_title pol) @
     [(''issuerType'', JStr ''eligibility''), (''policyKey'', JStr key), (''issuedAt'', JNum issuedAt),
      (''expiresAt'', JNum (issuedAt + 365 * 24 * 60 * 60 * 1000)),
      (''credential'', spread cred ([(''commitment'', JStr (bi_commitment built)), (''root'', JStr (or_root roots)),
         (''revocationRoot'', JStr (or_revocationRoot roots)), (''nullifier'', JStr (bi_nullifier built))]
         @ opt_member ''policyId'' (map_option JNum (sp_policyId pol))
         @ [(''assetId'', num_json (Number_of (pv_assetId p))), (''actionId'', num_json (Number_of (pv_actionId p))),
         (''noteSecret'', JStr (bi_noteSecret built)), (''noteBlinding'', JStr (bi_noteBlinding built))])),
      (''proverInputs'', inputs_json p), (''issuerStellarPublicKey'', JStr (im_stellarPublicKey issuer)),
      (''issuerId'', num_json (im_issuerId issuer)), (''signatureScheme'', JStr ''ed25519''),
      (''issuerSignatureBase64'', JStr (sg_base64 sig)), (''commitment'', JStr (bi_commitment built)),
      (''walletField'', JStr walletField),
      (''noteCommitment'', case note of None \<Rightarrow> JNull | Some s \<Rightarrow> JStr (no_commitment s)),
      (''noteRoot'', case note of None \<Rightarrow> (if or_noteRoot roots = [] then JNull else JStr (or_noteRoot roots))
        | Some s \<Rightarrow> JStr (no_noteRoot s))])"

text \<open>The note is kept when its root could not be set on chain.\<close>

definition noted :: "'n serviceEnv \<Rightarrow> builtInputs \<Rightarrow> ('n, noteState option) service" where
  "noted S built = io_bind (io_try (appendNoteCommitment S (bi_noteSecret built) (bi_noteBlinding built))) (\<lambda>r. case r of
       Inl e \<Rightarrow> io_return None
     | Inr meta \<Rightarrow> io_bind (io_try (outside (syncNoteRootOnChain S (no_noteRoot meta)))) (\<lambda>u. io_return (Some meta)))"

text \<open>Each step that fails answers for itself; what is thrown between them is not answered.\<close>

definition or_reply :: "('w, 'a) io \<Rightarrow> (js_error \<Rightarrow> reply) \<Rightarrow> ('a \<Rightarrow> ('w, reply) io) \<Rightarrow> ('w, reply) io" where
  "or_reply m failed k = io_bind (io_try m) (\<lambda>r. case r of Inl e \<Rightarrow> io_return (failed e) | Inr a \<Rightarrow> k a)"

definition answer_credential ::
  "'n serviceEnv \<Rightarrow> issuerMeta \<Rightarrow> string \<Rightarrow> string \<Rightarrow> chainRoots \<Rightarrow> builtInputs \<Rightarrow> noteState option \<Rightarrow> ('n, reply) service" where
  "answer_credential S issuer walletField key roots built note =
     io_bind (read_file (CREDENTIAL_PATH S)) (\<lambda>raw.
     io_bind (io_res (case map_option JSON_parse raw of Some (Some j) \<Rightarrow> Inr j | _ \<Rightarrow> Inl (SyntaxError ''JSON.parse''))) (\<lambda>cred.
     io_bind (io_res (signCommitment S (bi_commitment built))) (\<lambda>sig.
     io_bind (io_res (verifyCommitmentSignature S (bi_commitment built) (sg_base64 sig))) (\<lambda>ok.
       if \<not> ok then io_return (error_reply 500 ''Issuer Ed25519 self-check failed'')
       else io_bind (outside (now_io (sv_clock S))) (\<lambda>issuedAt.
         io_return (ok_reply (credential_json issuer walletField key cred roots built sig note issuedAt)))))))"

definition post_credential :: "'n serviceEnv \<Rightarrow> issuerMeta \<Rightarrow> json \<Rightarrow> ('n, reply) service" where
  "post_credential S issuer body =
     io_bind (read_file (CREDENTIAL_PATH S)) (\<lambda>raw.
     if raw = None then io_return \<lparr>rp_status = 503, rp_body = JObj [(''error'', JStr ''Credential fixture missing''),
       (''path'', JStr (CREDENTIAL_PATH S))]\<rparr>
     else let walletField = text_param body ''walletField'' ''0''; key = text_param body ''policyKey'' ''general-eligibility'' in
     or_reply (outside (readOnChainRoots S)) (detail_reply 503 ''Cannot read on-chain Merkle roots'') (\<lambda>roots0.
     io_bind (io_res (service_material S walletField key)) (\<lambda>material.
     or_reply (outside (syncedRoots S material roots0)) (detail_reply 503 ''Cannot sync credential root for dynamic credential'')
       (\<lambda>(roots, synced).
     or_reply (buildProverInputs S walletField roots key []) (detail_reply 500 ''Failed to build prover inputs'') (\<lambda>built.
     io_bind (noted S built) (\<lambda>note.
       answer_credential S issuer walletField key roots built note))))))"

section \<open>The inputs and the circuit\<close>

definition field_text :: "string \<Rightarrow> int option" where
  "field_text s = (case BigInt_of s of Inr n \<Rightarrow> Some (frMod n) | Inl e \<Rightarrow> None)"

text \<open>The field elements the prover makes of the texts.\<close>

definition reads_as :: "proverInputs \<Rightarrow> circuitInputs \<Rightarrow> bool" where
  "reads_as p ci \<longleftrightarrow> ci_accredited ci = pv_accredited p \<and> ci_sanctionsClear ci = pv_sanctionsClear p
     \<and> map field_text [pv_jurisdictionCode p, pv_dobTimestamp p, pv_issuerId p, pv_salt p, pv_noteSecret p, pv_noteBlinding p,
          pv_currentTime p, pv_assetId p, pv_actionId p, pv_root p, pv_revocationRoot p, pv_nullifier p]
       = map Some [ci_jurisdictionCode ci, ci_dobTimestamp ci, ci_issuerId ci, ci_salt ci, ci_noteSecret ci, ci_noteBlinding ci,
          ci_currentTime ci, ci_assetId ci, ci_actionId ci, ci_root ci, ci_revocationRoot ci, ci_nullifier ci]
     \<and> map (\<lambda>t. Option.bind t field_text) [pv_minJurisdiction p, pv_maxJurisdiction p, pv_policyId p]
       = map Some [ci_minJurisdiction ci, ci_maxJurisdiction ci, ci_policyId ci]
     \<and> map (map field_text) [pv_pathSiblings p, pv_pathBits p, pv_revPathSiblings p, pv_revPathBits p]
       = map (map Some) [ci_pathSiblings ci, ci_pathBits ci, ci_revPathSiblings ci, ci_revPathBits ci]"

text \<open>What the service relies on of its hashes and its randomness.\<close>

definition service_laws :: "'n serviceEnv \<Rightarrow> bool" where
  "service_laws S \<longleftrightarrow> canonical_hash (sv_hash S) \<and> (\<forall>s. is_hex64 (sv_sha S s)) \<and> (\<forall>n. length (fst (sv_random S n)) = 31)"

definition is_word :: "string \<Rightarrow> bool" where
  "is_word s \<longleftrightarrow> (\<exists>n. 0 \<le> n \<and> n < 2 ^ 256 \<and> s = hex_word n)"

lemma bytes_word: "length b = 32 \<Longrightarrow> is_word (''0x'' @ bytesToHex b)"
  using fromBytesBE_less[of b] by (auto simp: is_word_def hex32_bytes hex_word_eq intro!: exI[of _ "fromBytesBE b"])

lemma field_text_dec: "0 \<le> n \<Longrightarrow> n < FR_MODULUS \<Longrightarrow> field_text (toString10 n) = Some n"
  by (simp add: field_text_def BigInt_of_def frMod_id isCanonicalFr_def)

lemma frMod_small: "0 \<le> n \<Longrightarrow> n < FR_MODULUS \<Longrightarrow> frMod n = n"
  by (simp add: frMod_id isCanonicalFr_def)

lemma field_text_any: "field_text (toString10 n) = Some (frMod n)"
  by (simp add: field_text_def BigInt_of_def)

lemma randomFieldSecret_run:
  assumes "service_laws S" and "randomFieldSecret S (fs, n) = Some (r, w')"
  shows "\<exists>secret n'. r = Inr (toString10 secret) \<and> 0 \<le> secret \<and> secret < FR_MODULUS \<and> w' = (fs, n')"
proof -
  obtain b n1 where b: "sv_random S n = (b, n1)" by fastforce
  then have "length b = 31" using assms(1) unfolding service_laws_def by (metis fst_conv)
  then have l: "length (bytesToHex b) = 62" by (simp add: length_bytesToHex)
  then have "bytesToHex b \<noteq> []" by auto
  with l obtain v where "BigInt_of (''0x'' @ bytesToHex b) = Inr v" "0 \<le> v" "v < 16 ^ 62"
    using hex_text_value[OF hex_all, of b] by auto
  with assms(2) b less_trans[OF _ field_62, of v] show ?thesis
    by (intro exI[of _ v]) (auto simp: randomFieldSecret_def outside_def io_simps)
qed

lemma override_texts:
  assumes "key \<notin> set object_members"
  shows "\<exists>lo hi pol. overrideByKey key = override (toString10 lo) (toString10 hi) (toString10 pol)
    \<and> 0 \<le> lo \<and> lo \<le> 840 \<and> 840 \<le> hi \<and> hi \<le> 999 \<and> 0 \<le> pol \<and> pol < 3"
proof -
  have "overrideByKey key = override ''1'' ''999'' ''1'' \<or> overrideByKey key = override ''840'' ''840'' ''1''
      \<or> overrideByKey key = override ''1'' ''999'' ''2''"
    using assms by (simp add: overrideByKey_def POLICY_OVERRIDES_def)
  then show ?thesis
  proof (elim disjE)
    assume "overrideByKey key = override ''1'' ''999'' ''1''"
    then show ?thesis by (intro exI[of _ 1] exI[of _ 999] exI[of _ 1]) (simp add: constant_texts)
  next
    assume "overrideByKey key = override ''840'' ''840'' ''1''"
    then show ?thesis by (intro exI[of _ 840] exI[of _ 840] exI[of _ 1]) (simp add: constant_texts)
  next
    assume "overrideByKey key = override ''1'' ''999'' ''2''"
    then show ?thesis by (intro exI[of _ 1] exI[of _ 999] exI[of _ 2]) (simp add: constant_texts)
  qed
qed

lemma words_equal:
  assumes "is_word s" and "0 \<le> n" and "n < 2 ^ 256"
  shows "normalizeHex32 s = normalizeHex32 (hex_word n) \<longleftrightarrow> s = hex_word n" and "map lower (hex_word n) = map lower s \<longleftrightarrow> s = hex_word n"
  using assms normalize_word_inj[of _ n] by (auto simp: is_word_def lower_word)

lemma revokedWitness_run: "revokedWitness S (fs, n) = Some (Inr wit, w') \<longleftrightarrow> w' = (fs, n) \<and> (\<exists>rows commitments.
    revoked_rows fs = Inr (JArr rows) \<and> row_commitments rows = Inr commitments
    \<and> computeRevocationWitness (sv_hash S) commitments = Inr wit)"
  by (auto simp: revokedWitness_def run_iff loadRevoked_apply as_array_Inr rbind_Inr_iff)

lemma built_run:
  assumes "buildProverInputs S walletField roots key [] (fs, n) = Some (Inr b, w')" and "service_laws S"
    and "is_word (or_root roots)" and "is_word (or_revocationRoot roots)"
  shows "\<exists>material wit secret blinding nullifier now. service_material S walletField key = Inr material
    \<and> or_root roots = cm_root material \<and> or_revocationRoot roots = rv_root wit
    \<and> (\<exists>rows commitments. revoked_rows fs = Inr (JArr rows) \<and> row_commitments rows = Inr commitments
        \<and> computeRevocationWitness (sv_hash S) commitments = Inr wit)
    \<and> bi_commitment b = cm_commitment material \<and> 0 \<le> secret \<and> secret < FR_MODULUS \<and> 0 \<le> blinding \<and> blinding < FR_MODULUS
    \<and> computeNullifier (sv_hash S) (FText (toString10 secret)) (FText (given (po_policyId (overrideByKey key)) undefinedText))
        (FText ''1'') (FText ''1'') = Inr nullifier
    \<and> (\<exists>decs. traverse fieldHexToDecimal [cm_root material, rv_root wit, nullifier] = Inr decs
      \<and> bi_inputs b = \<lparr>pv_accredited = True, pv_sanctionsClear = True, pv_jurisdictionCode = cm_jurisdictionCode material,
           pv_dobTimestamp = cm_dobTimestamp material, pv_issuerId = cm_issuerId material, pv_salt = cm_salt material,
           pv_noteSecret = toString10 secret, pv_noteBlinding = toString10 blinding, pv_currentTime = toString10 (now div 1000),
           pv_minJurisdiction = po_min (overrideByKey key), pv_maxJurisdiction = po_max (overrideByKey key),
           pv_policyId = po_policyId (overrideByKey key), pv_assetId = ''1'', pv_actionId = ''1'', pv_root = decs ! 0,
           pv_revocationRoot = decs ! 1, pv_nullifier = decs ! 2, pv_pathSiblings = cm_pathSiblings material,
           pv_pathBits = cm_pathBits material, pv_revPathSiblings = rv_siblings wit, pv_revPathBits = rv_bits wit\<rparr>)"
proof -
  from assms(2) have c: "canonical_hash (sv_hash S)" and sha: "\<forall>s. is_hex64 (sv_sha S s)" by (simp_all add: service_laws_def)
  have scope: "scope_text [] a a' = ''1''" for a a' by (simp add: scope_text_def text_or_def truthy_def)
  from assms(1) obtain material wit secret w1 blinding w2 nullifier issuer sig w3 now decs where
    m: "service_material S walletField key = Inr material"
    and r1: "normalizeHex32 (or_root roots) = normalizeHex32 (cm_root material)"
    and wit: "revokedWitness S (fs, n) = Some (Inr wit, (fs, n))"
    and r2: "map lower (rv_root wit) = map lower (or_revocationRoot roots)"
    and s1: "randomFieldSecret S (fs, n) = Some (Inr secret, w1)" and s2: "randomFieldSecret S w1 = Some (Inr blinding, w2)"
    and nu: "computeNullifier (sv_hash S) (FText secret) (FText (given (po_policyId (overrideByKey key)) undefinedText))
        (FText ''1'') (FText ''1'') = Inr nullifier"
    and decs: "traverse fieldHexToDecimal [or_root roots, or_revocationRoot roots, nullifier] = Inr decs"
    and b: "bi_commitment b = cm_commitment material" "bi_inputs b = \<lparr>pv_accredited = True, pv_sanctionsClear = True,
           pv_jurisdictionCode = cm_jurisdictionCode material,
           pv_dobTimestamp = cm_dobTimestamp material, pv_issuerId = cm_issuerId material, pv_salt = cm_salt material,
           pv_noteSecret = secret, pv_noteBlinding = blinding, pv_currentTime = toString10 (now div 1000),
           pv_minJurisdiction = po_min (overrideByKey key), pv_maxJurisdiction = po_max (overrideByKey key),
           pv_policyId = po_policyId (overrideByKey key), pv_assetId = ''1'', pv_actionId = ''1'', pv_root = decs ! 0,
           pv_revocationRoot = decs ! 1, pv_nullifier = decs ! 2, pv_pathSiblings = cm_pathSiblings material,
           pv_pathBits = cm_pathBits material, pv_revPathSiblings = rv_siblings wit, pv_revPathBits = rv_bits wit\<rparr>"
    unfolding buildProverInputs_def Let_def run_iff scope service_material_def
    by (auto split: if_splits simp: run_iff revokedWitness_run)
  obtain se n1 where se: "secret = toString10 se" "0 \<le> se" "se < FR_MODULUS" "w1 = (fs, n1)"
    using randomFieldSecret_run[OF assms(2) s1] by auto
  obtain bl where bl: "blinding = toString10 bl" "0 \<le> bl" "bl < FR_MODULUS"
    using randomFieldSecret_run[OF assms(2), of fs n1] s2 se(4) by auto
  obtain cc where "cm_root material = hex_word (foldl (level (sv_hash S)) cc (replicate 8 0))"
    using material_facts[OF m[unfolded service_material_def] c sha] by (auto simp: Let_def)
  moreover have "0 \<le> foldl (level (sv_hash S)) cc (replicate 8 0) \<and> foldl (level (sv_hash S)) cc (replicate 8 0) < 2 ^ 256"
    using hash_bounds[OF c] by (simp add: level_def numeral_eq_Suc)
  ultimately have root: "or_root roots = cm_root material" using words_equal(1)[OF assms(3)] r1 by metis
  from wit obtain rows commitments where w: "revoked_rows fs = Inr (JArr rows)" "row_commitments rows = Inr commitments"
    "computeRevocationWitness (sv_hash S) commitments = Inr wit" unfolding revokedWitness_run by blast
  obtain sibs where "rv_root wit = hex_word (accumulated (sv_hash S) sibs 8)" using witness_opens[OF w(3)] by blast
  then have rev: "or_revocationRoot roots = rv_root wit"
    using words_equal(2)[OF assms(4)] accumulated_bounds[OF c] r2 by metis
  show ?thesis
    using m root rev w b se bl nu decs
    by (intro exI[of _ material] exI[of _ wit] exI[of _ se] exI[of _ bl] exI[of _ nullifier] exI[of _ now]) auto
qed

definition canonical_text :: "string \<Rightarrow> bool" where
  "canonical_text s \<longleftrightarrow> (case BigInt_of s of Inr n \<Rightarrow> 0 \<le> n \<and> n < FR_MODULUS | Inl e \<Rightarrow> False)"

lemma hash_canonical: "canonical_hash hash \<Longrightarrow> 0 \<le> hash xs \<and> hash xs < FR_MODULUS"
  by (simp add: canonical_hash_def)

lemma folded_hash: "canonical_hash hash \<Longrightarrow> 0 \<le> acc \<and> acc < FR_MODULUS \<Longrightarrow>
    0 \<le> foldl (level hash) acc xs \<and> foldl (level hash) acc xs < FR_MODULUS"
  by (induction xs arbitrary: acc) (simp_all add: level_def hash_canonical)

lemma FR_word: "n < FR_MODULUS \<Longrightarrow> n < 2 ^ 256"
  by (simp add: FR_MODULUS_def)

lemma word_decimal: "0 \<le> n \<Longrightarrow> n < FR_MODULUS \<Longrightarrow> fieldHexToDecimal (hex_word n) = Inr (toString10 n)"
  using FR_word[of n] by (simp add: fieldHexToDecimal_def hex_word_back)

lemma field_inputs: "IssuerFields.toBigInt (FText (toString10 x)) = Inr x"
  by (simp only: toBigInt_text) (simp add: BigInt_of_def)

lemma field_siblings:
  assumes "list_all canonical_text (map toString10 sibs)"
  shows "map field_text (map toString10 sibs) = map Some sibs"
  using assms by (induction sibs) (auto simp: canonical_text_def BigInt_of_def field_text_dec)

text \<open>
  C12: The inputs of the prover that the service makes satisfy every constraint of the circuit, up to
  the two hashes the circuit wants to be non-zero and a clock past the eighteenth birthday of the fixed
  date of birth: for every policy, every wallet, and whatever commitments are revoked.
\<close>

theorem issued_inputs_prove:
  assumes "buildProverInputs S walletField roots key [] (fs, n) = Some (Inr b, w')" and "service_laws S"
    and "is_word (or_root roots)" and "is_word (or_revocationRoot roots)" and "canonical_text (issuer_id (sv_env S))"
    and "key \<notin> set object_members" and "list_all canonical_text (pv_revPathSiblings (bi_inputs b))"
  shows "\<exists>ci. reads_as (bi_inputs b) ci \<and> bi_commitment b = hex_word (circuit_commitment (sv_hash S) ci)
    \<and> (circuit_main (sv_hash S) ci \<longleftrightarrow> sv_hash S [ci_noteSecret ci, ci_noteBlinding ci] \<noteq> 0
        \<and> circuit_commitment (sv_hash S) ci \<noteq> 0 \<and> 1199188800 \<le> ci_currentTime ci mod 2 ^ 64)"
proof -
  let ?h = "sv_hash S"
  have c: "canonical_hash ?h" and sha: "\<forall>s. is_hex64 (sv_sha S s)" using assms(2) by (simp_all add: service_laws_def)
  from built_run[OF assms(1-4)] obtain material wit secret blinding nullifier now rows commitments decs where
    m: "service_material S walletField key = Inr material" and w: "computeRevocationWitness ?h commitments = Inr wit"
    and se: "0 \<le> secret" "secret < FR_MODULUS" "0 \<le> blinding" "blinding < FR_MODULUS"
    and nu: "computeNullifier ?h (FText (toString10 secret)) (FText (given (po_policyId (overrideByKey key)) undefinedText))
        (FText ''1'') (FText ''1'') = Inr nullifier"
    and decs: "traverse fieldHexToDecimal [cm_root material, rv_root wit, nullifier] = Inr decs"
    and b: "bi_commitment b = cm_commitment material" "bi_inputs b = \<lparr>pv_accredited = True, pv_sanctionsClear = True,
           pv_jurisdictionCode = cm_jurisdictionCode material,
           pv_dobTimestamp = cm_dobTimestamp material, pv_issuerId = cm_issuerId material, pv_salt = cm_salt material,
           pv_noteSecret = toString10 secret, pv_noteBlinding = toString10 blinding, pv_currentTime = toString10 (now div 1000),
           pv_minJurisdiction = po_min (overrideByKey key), pv_maxJurisdiction = po_max (overrideByKey key),
           pv_policyId = po_policyId (overrideByKey key), pv_assetId = ''1'', pv_actionId = ''1'', pv_root = decs ! 0,
           pv_revocationRoot = decs ! 1, pv_nullifier = decs ! 2, pv_pathSiblings = cm_pathSiblings material,
           pv_pathBits = cm_pathBits material, pv_revPathSiblings = rv_siblings wit, pv_revPathBits = rv_bits wit\<rparr>"
    by (elim exE conjE) (rule that)
  from material_facts[OF m[unfolded service_material_def] c sha] obtain salt i where
    i: "BigInt_of (issuer_id (sv_env S)) = Inr i" and salt: "cm_salt material = toString10 salt" "0 \<le> salt" "salt < FR_MODULUS"
    and mf: "cm_commitment material = hex_word (?h [?h [?h [1, 840], ?h [631152000, 1], i], salt])"
      "cm_root material = hex_word (foldl (level ?h) (?h [?h [?h [1, 840], ?h [631152000, 1], i], salt]) (replicate 8 0))"
      "cm_issuerId material = issuer_id (sv_env S)" "cm_jurisdictionCode material = ''840''" "cm_dobTimestamp material = ''631152000''"
      "cm_pathSiblings material = replicate 8 ''0''" "cm_pathBits material = replicate 8 ''0''"
    unfolding Let_def by (elim exE conjE) (rule that)
  from witness_opens[OF w] obtain sibs where sibs: "rv_siblings wit = map toString10 sibs" "rv_bits wit = replicate 8 ''0''"
    "length sibs = 8" "rv_root wit = hex_word (accumulated ?h sibs 8)"
    "compute_revocation_root ?h sibs (replicate 8 0) = Some (accumulated ?h sibs 8)" by blast
  obtain lo hi pol where ov: "overrideByKey key = override (toString10 lo) (toString10 hi) (toString10 pol)"
    "0 \<le> lo" "lo \<le> 840" "840 \<le> hi" "hi \<le> 999" "0 \<le> pol" "pol < 3" using override_texts[OF assms(6)] by blast
  define com where "com = ?h [?h [?h [1, 840], ?h [631152000, 1], i], salt]"
  define R where "R = foldl (level ?h) com (replicate 8 0)"
  define V where "V = accumulated ?h sibs 8"
  define N where "N = ?h [secret, pol, 1, 1]"
  have small: "k < FR_MODULUS" if "k < 1000000000000" for k using that by (simp add: FR_MODULUS_def)
  have pol: "frMod lo = lo" "frMod hi = hi" "frMod pol = pol" using ov small by (auto intro!: frMod_small)
  have R: "0 \<le> R" "R < FR_MODULUS" unfolding R_def com_def using folded_hash[OF c hash_canonical[OF c]] by blast+
  have V: "0 \<le> V" "V < FR_MODULUS" unfolding V_def accumulated_def
    using folded_hash[OF c, of 0 "take 8 sibs"] by (simp_all add: FR_MODULUS_def)
  have N: "0 \<le> N" "N < FR_MODULUS" unfolding N_def using hash_canonical[OF c] by blast+
  have one: "IssuerFields.toBigInt (FText ''1'') = Inr 1" using field_inputs[of 1] by (simp only: constant_texts)
  have nul: "nullifier = hex_word N"
    using nu by (simp add: computeNullifier_def ov(1) override_def field_inputs one N_def del: IssuerFields.toBigInt.simps)
  have d: "decs = [toString10 R, toString10 V, toString10 N]"
    using decs unfolding mf(2) sibs(4) nul com_def[symmetric] R_def[symmetric] V_def[symmetric]
    by (simp add: word_decimal R V N)
  let ?ci = "\<lparr>ci_root = R, ci_revocationRoot = V, ci_policyId = pol, ci_assetId = 1, ci_actionId = 1, ci_nullifier = N,
    ci_noteSecret = secret, ci_noteBlinding = blinding, ci_accredited = True, ci_jurisdictionCode = 840,
    ci_dobTimestamp = 631152000, ci_sanctionsClear = True, ci_issuerId = i, ci_salt = salt,
    ci_currentTime = frMod (now div 1000), ci_minJurisdiction = lo, ci_maxJurisdiction = hi,
    ci_pathSiblings = replicate 8 0, ci_pathBits = replicate 8 0, ci_revPathSiblings = sibs, ci_revPathBits = replicate 8 0\<rparr>"
  have texts: "field_text ''840'' = Some 840" "field_text ''631152000'' = Some 631152000" "field_text ''1'' = Some 1"
    "field_text ''0'' = Some 0"
    using field_text_dec[of 840] field_text_dec[of 631152000] field_text_dec[of 1] field_text_dec[of 0] small by (simp_all add: constant_texts)
  have "field_text (issuer_id (sv_env S)) = Some i"
    using assms(5) i by (simp add: canonical_text_def field_text_def frMod_id isCanonicalFr_def)
  moreover have "map field_text (rv_siblings wit) = map Some sibs"
    using assms(7) field_siblings[of sibs] by (simp add: b(2) sibs(1))
  ultimately have "reads_as (bi_inputs b) ?ci"
    by (simp add: reads_as_def b(2) d mf salt sibs(2) ov(1) override_def texts field_text_any
        frMod_small R V N se salt pol)
  moreover have cc: "circuit_commitment ?h ?ci = com" by (simp add: circuit_commitment_def field_from_u1_def com_def)
  moreover have "compute_merkle_root ?h com (replicate 8 0) (replicate 8 0) = Some R"
    by (simp add: circuit_root_zeros R_def)
  moreover have "circuit_main ?h ?ci \<longleftrightarrow> ?h [secret, blinding] \<noteq> 0 \<and> com \<noteq> 0 \<and> 1199188800 \<le> frMod (now div 1000) mod 2 ^ 64"
    using calculation(3) ov sibs(5)
    by (auto simp: circuit_main_def cc V_def[symmetric] N_def[symmetric] EIGHTEEN_YEARS_SECONDS_def)
  ultimately show ?thesis using b(1) mf(1) by (intro exI[of _ ?ci]) (simp add: com_def)
qed

section \<open>Answers\<close>

lemma or_reply_run [run_iff]: "or_reply m failed k w = Some (Inr rep, w') \<longleftrightarrow> (\<exists>e. m w = Some (Inl e, w') \<and> rep = failed e)
    \<or> (\<exists>a w1. m w = Some (Inr a, w1) \<and> k a w1 = Some (Inr rep, w'))"
  by (auto simp: or_reply_def io_simps io_try_def split: option.splits sum.splits prod.splits)

lemma outside_run [run_iff]: "outside m (fs, n) = Some (r, w') \<longleftrightarrow> (\<exists>n'. m n = Some (r, n') \<and> w' = (fs, n'))"
  by (auto simp: outside_def net_io_def split: option.splits)

lemma read_file_run [run_iff]: "read_file path (fs, n) = Some (r, w') \<longleftrightarrow> r = Inr (map_of fs path) \<and> w' = (fs, n)"
  by (auto simp: read_file_def on_files_def)

lemma built_root:
  assumes "buildProverInputs S walletField roots key scope w = Some (Inr b, w')"
  shows "\<exists>material. service_material S walletField key = Inr material
    \<and> normalizeHex32 (or_root roots) = normalizeHex32 (cm_root material) \<and> bi_commitment b = cm_commitment material"
  using assms unfolding buildProverInputs_def Let_def run_iff service_material_def
  by (auto split: if_splits simp: run_iff)

lemma syncedRoots_run: "syncedRoots S material roots0 n = Some (Inr (roots, synced), n') \<Longrightarrow>
    roots = roots0 \<and> \<not> synced \<or> (\<exists>m. readOnChainRoots S m = Some (Inr roots, n') \<and> synced)"
  by (auto simp: syncedRoots_def run_iff split: if_splits)

lemma answer_run:
  assumes "answer_credential S issuer walletField key roots built note w = Some (Inr rep, w')"
  shows "rp_status rep = 500 \<or> rp_status rep = 200 \<and> (\<exists>cred sig issuedAt. signCommitment S (bi_commitment built) = Inr sig
    \<and> verifyCommitmentSignature S (bi_commitment built) (sg_base64 sig) = Inr True
    \<and> rp_body rep = JObj (credential_json issuer walletField key cred roots built sig note issuedAt))"
proof (cases w)
  case (Pair fs n)
  with assms show ?thesis
    by (auto simp: answer_credential_def run_iff error_reply_def ok_reply_def split: if_splits) blast
qed

text \<open>
  C17: A passport that is handed out says what it was made from: its roots are roots the registry
  answered with, the registry's root is that of the wallet's material, whose commitment is the one the
  passport names, and the signature over that commitment passed the service's own check. Every other answer
  is a 500 or a 503.
\<close>

theorem credential_answer:
  assumes "post_credential S issuer body (fs, n) = Some (Inr rep, w')"
  shows "rp_status rep = 500 \<or> rp_status rep = 503 \<or> rp_status rep = 200 \<and> (\<exists>walletField key material roots built sig note cred issuedAt m m'.
      readOnChainRoots S m = Some (Inr roots, m') \<and> service_material S walletField key = Inr material
    \<and> normalizeHex32 (or_root roots) = normalizeHex32 (cm_root material) \<and> bi_commitment built = cm_commitment material
    \<and> signCommitment S (bi_commitment built) = Inr sig
    \<and> verifyCommitmentSignature S (bi_commitment built) (sg_base64 sig) = Inr True
    \<and> rp_body rep = JObj (credential_json issuer walletField key cred roots built sig note issuedAt))"
proof -
  let ?wallet = "text_param body ''walletField'' ''0''" and ?key = "text_param body ''policyKey'' ''general-eligibility''"
  consider (failed) "rp_status rep = 500 \<or> rp_status rep = 503"
    | (answered) roots0 n0 material roots synced n1 built w1 made w2 where "readOnChainRoots S n = Some (Inr roots0, n0)"
      "syncedRoots S material roots0 n0 = Some (Inr (roots, synced), n1)"
      "buildProverInputs S ?wallet roots ?key [] (fs, n1) = Some (Inr built, w1)"
      "answer_credential S issuer ?wallet ?key roots built made w2 = Some (Inr rep, w')"
    using assms unfolding post_credential_def
    by (auto simp: run_iff detail_reply_def Let_def split: if_splits)
  then show ?thesis
  proof cases
    case answered
    note 2 = this
    have "\<exists>m m'. readOnChainRoots S m = Some (Inr roots, m')" using syncedRoots_run[OF 2(2)] 2(1) by blast
    moreover obtain material where "service_material S ?wallet ?key = Inr material"
      "normalizeHex32 (or_root roots) = normalizeHex32 (cm_root material)" "bi_commitment built = cm_commitment material"
      using built_root[OF 2(3)] by (elim exE conjE)
    moreover note answer_run[OF 2(4)]
    ultimately show ?thesis by (elim disjE conjE exE) (simp, intro disjI2 conjI exI)
  qed blast
qed

section \<open>A demonstration\<close>

definition demo_revoked :: files where
  "demo_revoked = put REVOKED_PATH (pretty (JArr [new_row (hex_word 7) None 0])) [(''fixtures/credential.json'', pretty (JObj []))]"

definition demo_chainRoots :: chainRoots where
  "demo_chainRoots = \<lparr>or_root = hex_word 7, or_revocationRoot = hex_word 7, or_noteRoot = hex_word 7\<rparr>"

lemma issuer_demo_laws: "service_laws demo_service" "canonical_hash (\<lambda>xs. 7)"
  by (simp_all add: service_laws_def canonical_hash_def FR_MODULUS_def is_hex64_def list_all_iff hex_val_def)

lemma seven_word: "is_word (hex_word 7)" "is_hex64 (strip0xi (hex_word 7))" "hex_word 7 \<noteq> []"
  "hex_word 7 = ''0x'' @ bytesToHex word_of_7"
proof -
  show "is_word (hex_word 7)" by (auto simp: is_word_def intro!: exI[of _ 7])
  have "hex_word 7 = ''0x'' @ hex32 7" by (rule hex_word_eq) simp_all
  moreover have "fromBytesBE word_of_7 = 7" by code_simp
  then have "hex32 7 = bytesToHex word_of_7" using hex32_bytes[of word_of_7] by (simp add: word_of_7_def)
  ultimately show "is_hex64 (strip0xi (hex_word 7))" "hex_word 7 \<noteq> []" "hex_word 7 = ''0x'' @ bytesToHex word_of_7"
    using hex_all[of word_of_7] length_bytesToHex[of word_of_7]
    by (simp_all add: strip0xi_def startsWith_def is_hex64_def word_of_7_def)
qed

lemma demo_material: "\<exists>m. service_material demo_service walletField key = Inr m \<and> cm_commitment m = hex_word 7 \<and> cm_root m = hex_word 7"
proof -
  let ?parts = "[''lumengate-credential-v1'', walletField, ''2'']"
  obtain salt where salt: "fieldFromHash (\<lambda>s. replicate 64 (CHR ''0'')) ?parts = Inr (toString10 salt)"
    using fieldFromHash_value[of "\<lambda>s. replicate 64 (CHR ''0'')" ?parts] by (auto simp: is_hex64_def list_all_iff hex_val_def)
  have texts: "IssuerFields.toBigInt (FText ''840'') = Inr 840" "IssuerFields.toBigInt (FText ''631152000'') = Inr 631152000"
    "IssuerFields.toBigInt (FText ''2'') = Inr 2"
    using field_inputs[of 840] field_inputs[of 631152000] field_inputs[of 2] by (simp_all only: constant_texts)
  have zeros: "foldl (level (\<lambda>xs. 7)) a (replicate 8 0) = 7" for a by (simp add: level_def numeral_eq_Suc)
  have sha: "sv_sha demo_service = (\<lambda>s. replicate 64 (CHR ''0''))" by (rule ext) simp
  show ?thesis
    unfolding service_material_def buildCredentialMaterial_def sha Let_def
    by (simp add: demo_names salt texts hash2Fields_def hash3Fields_def field_inputs singleLeafRoot_def known_texts(2) zeros
        del: IssuerFields.toBigInt.simps(2) join.simps)
qed

lemma demo_revocation_witness: "revoked_rows demo_revoked = Inr (JArr [new_row (hex_word 7) None 0])"
  "\<exists>wit. revokedWitness demo_service (demo_revoked, n) = Some (Inr wit, (demo_revoked, n)) \<and> rv_root wit = hex_word 7
    \<and> list_all canonical_text (rv_siblings wit)"
proof -
  have "json_wf (JArr [new_row (hex_word 7) None 0])" by (simp add: new_row_def)
  then have kept: "file_json demo_revoked path d = (if path = REVOKED_PATH then JArr [new_row (hex_word 7) None 0]
      else file_json [(''fixtures/credential.json'', pretty (JObj []))] path d)" for path d
    unfolding demo_revoked_def by (simp only: file_json_saved)
  have "REVOKED_FIXTURE_PATH \<noteq> REVOKED_PATH" "REVOKED_FIXTURE_PATH \<noteq> ''fixtures/credential.json''"
    by (simp_all add: REVOKED_PATH_def REVOKED_FIXTURE_PATH_def)
  then show rows: "revoked_rows demo_revoked = Inr (JArr [new_row (hex_word 7) None 0])"
    by (simp add: revoked_rows_def kept Let_def has_no_rows_def mergeRevokedRows_def iterate_def
        file_json_def[of "[(''fixtures/credential.json'', pretty (JObj []))]"])
  have "row_commitments [new_row (hex_word 7) None 0] = Inr [hex_word 7]"
    by (simp add: row_commitments_def new_row_def entry_get_def member_String_def)
  moreover have "hexToBigInt (hex_word 7) = Inr 7"
  proof -
    have "strip0xi (hex_word 7) = bytesToHex word_of_7" by (simp add: seven_word(4) strip0xi_def startsWith_def)
    moreover have "\<not> list_all (\<lambda>c. c = CHR ''0'') (bytesToHex word_of_7)" by code_simp
    moreover have "BigInt_of (''0x'' @ bytesToHex word_of_7) = Inr 7" using hex_word_back[of 7] by (simp add: seven_word(4))
    ultimately show ?thesis by (simp only: hexToBigInt_def Let_def if_False)
  qed
  moreover have "map toString10 (padded8 [7]) = map toString10 (7 # replicate 7 0)"
    "list_all canonical_text (map toString10 (padded8 [7]))"
    by (simp_all add: padded8_def canonical_text_def FR_MODULUS_def list_all_iff)
  moreover have "accumulated (\<lambda>xs. 7) (padded8 (padded8 [7])) 8 = 7" by (simp add: accumulated_def level_def padded8_def numeral_eq_Suc)
  ultimately show "\<exists>wit. revokedWitness demo_service (demo_revoked, n) = Some (Inr wit, (demo_revoked, n))
      \<and> rv_root wit = hex_word 7 \<and> list_all canonical_text (rv_siblings wit)" using rows
    by (simp add: revokedWitness_def io_bind_apply io_res_def loadRevoked_apply as_array_def computeRevocationWitness_def
        computeRevocationRootFromSiblings_def Let_def)
qed

lemma demo_secret: "\<exists>v. randomFieldSecret demo_service (fs, n) = Some (Inr (toString10 v), (fs, n))"
proof -
  have "randomFieldSecret demo_service (fs, n)
      = Some (rmap toString10 (BigInt_of (''0x'' @ bytesToHex (fst (sv_random demo_service n)))), (fs, n))"
    by (simp add: randomFieldSecret_def outside_def net_io_def)
  moreover obtain v where "BigInt_of (''0x'' @ bytesToHex (fst (sv_random demo_service n))) = Inr v"
    using hex_text_value[OF hex_all, of "fst (sv_random demo_service n)"] length_bytesToHex[of "fst (sv_random demo_service n)"] by fastforce
  ultimately show ?thesis by (intro exI[of _ v]) (simp only: rmap_simps)
qed

text \<open>The inputs are made although the only commitment they are about is the one that was revoked.\<close>

lemma demo_built:
  "\<exists>b. buildProverInputs demo_service ''5'' demo_chainRoots ''us-jurisdiction'' [] (demo_revoked, 1200000000000)
      = Some (Inr b, (demo_revoked, 1200000000000))
    \<and> bi_commitment b = hex_word 7 \<and> pv_currentTime (bi_inputs b) = toString10 1200000000
    \<and> list_all canonical_text (pv_revPathSiblings (bi_inputs b))"
proof -
  obtain m where m: "service_material demo_service ''5'' ''us-jurisdiction'' = Inr m" "cm_commitment m = hex_word 7" "cm_root m = hex_word 7"
    using demo_material by blast
  obtain wit where wit: "revokedWitness demo_service (demo_revoked, 1200000000000) = Some (Inr wit, (demo_revoked, 1200000000000))"
    "rv_root wit = hex_word 7" "list_all canonical_text (rv_siblings wit)" using demo_revocation_witness(2) by blast
  obtain v where v: "randomFieldSecret demo_service (demo_revoked, 1200000000000) = Some (Inr (toString10 v), (demo_revoked, 1200000000000))"
    using demo_secret by blast
  have pol: "overrideByKey ''us-jurisdiction'' = override ''840'' ''840'' ''1''" by (simp add: overrideByKey_def POLICY_OVERRIDES_def)
  have scope: "scope_text [] a a' = ''1''" for a a' by (simp add: scope_text_def text_or_def truthy_def)
  have nul: "computeNullifier (\<lambda>xs. 7) (FText (toString10 v)) (FText ''1'') (FText ''1'') (FText ''1'') = Inr (hex_word 7)"
    by (simp add: computeNullifier_def field_inputs known_texts(1) del: IssuerFields.toBigInt.simps(2))
  have seven: "fieldHexToDecimal (hex_word 7) = Inr (toString10 7)" by (rule word_decimal) (simp_all add: FR_MODULUS_def)
  obtain meta where meta: "issuerMetadata demo_service = Inr meta" by (simp add: issuerMetadata_def loadIssuerKeypair_def demo_names)
  obtain sig where sig: "signCommitment demo_service (hex_word 7) = Inr sig" using demo_signature[OF seven_word(2)] by blast
  show ?thesis
    unfolding buildProverInputs_def Let_def scope pol
    using m wit v nul meta sig
    by (simp add: io_bind_apply io_res_def service_material_def demo_chainRoots_def seven_word(3) override_def seven outside_def net_io_def
        now_io_def io_return_apply)
qed

theorem issued_inputs_prove_witness:
  "\<exists>b w' ci rows row. buildProverInputs demo_service ''5'' demo_chainRoots ''us-jurisdiction'' [] (demo_revoked, 1200000000000) = Some (Inr b, w')
    \<and> revoked_rows demo_revoked = Inr (JArr rows) \<and> find_row (bi_commitment b) rows = Inr (Some row)
    \<and> reads_as (bi_inputs b) ci \<and> circuit_main (\<lambda>xs. 7) ci"
proof -
  obtain b where b: "buildProverInputs demo_service ''5'' demo_chainRoots ''us-jurisdiction'' [] (demo_revoked, 1200000000000)
      = Some (Inr b, (demo_revoked, 1200000000000))" "bi_commitment b = hex_word 7"
    "pv_currentTime (bi_inputs b) = toString10 1200000000" "list_all canonical_text (pv_revPathSiblings (bi_inputs b))"
    using demo_built by blast
  have words: "is_word (or_root demo_chainRoots)" "is_word (or_revocationRoot demo_chainRoots)"
    using seven_word(1) by (simp_all add: demo_chainRoots_def)
  have issuer: "canonical_text (issuer_id (sv_env demo_service))" using BigInt_toString10[of 2]
    by (simp add: demo_names canonical_text_def constant_texts FR_MODULUS_def)
  have key: "''us-jurisdiction'' \<notin> set object_members" by (simp add: object_members_def)
  obtain ci where ci: "reads_as (bi_inputs b) ci" "circuit_main (\<lambda>xs. 7) ci \<longleftrightarrow> 1199188800 \<le> ci_currentTime ci mod 2 ^ 64"
    using issued_inputs_prove[OF b(1) issuer_demo_laws(1) words issuer key b(4)] by (auto simp: circuit_commitment_def)
  have "ci_currentTime ci = 1200000000"
    using ci(1) b(3) field_text_dec[of 1200000000] by (simp add: reads_as_def FR_MODULUS_def)
  with ci have "circuit_main (\<lambda>xs. 7) ci" by simp
  moreover have "find_row (bi_commitment b) [new_row (hex_word 7) None 0] = Inr (Some (new_row (hex_word 7) None 0))"
    by (simp add: b(2) new_row_good(2))
  ultimately show ?thesis using b(1) ci(1) demo_revocation_witness(1) by blast
qed

lemma demo_roots: "readOnChainRoots demo_service n = Some (Inr demo_chainRoots, n + 1)"
  by (simp add: readOnChainRoots_def demo_names io_simps roots_tuple_def hex_field_def demo_chainRoots_def seven_word(4) or_else_def)

lemma append_note_total: "\<exists>r fs'. appendNoteCommitment S a b (fs, n) = Some (r, (fs', n)) \<and> (\<forall>p. p \<noteq> NOTES_PATH \<longrightarrow> map_of fs' p = map_of fs p)"
proof (cases "computeNoteCommitment (sv_hash S) (FText a) (FText b)")
  case (Inr c)
  let ?loaded = "file_json fs NOTES_PATH (JArr [])"
  show ?thesis
  proof (cases "as_array ?loaded")
    case (Inr rows0)
    define rows where "rows = (if JStr c \<in> set rows0 then rows0 else rows0 @ [JStr c])"
    have "appendNoteCommitment S a b (fs, n) = Some (rmap (\<lambda>root. \<lparr>no_commitment = c, no_noteRoot = root, no_count = length rows\<rparr>)
        (computeNoteRoot S rows), (put NOTES_PATH (pretty (JArr rows)) fs, n))"
      unfolding appendNoteCommitment_def io_bind_apply io_res_def \<open>computeNoteCommitment _ _ _ = Inr c\<close> loadNotes_def load_json_apply
        option.case sum.case prod.case Inr Let_def rows_def[symmetric] saveNotes_def save_json_apply
      by (cases "computeNoteRoot S rows") (simp_all only: sum.case rmap_simps io_return_apply)
    then show ?thesis by (simp add: map_of_put)
  qed (use Inr in \<open>simp add: appendNoteCommitment_def loadNotes_def io_bind_apply io_res_def load_json_apply\<close>)
qed (simp add: appendNoteCommitment_def io_bind_apply io_res_def)

lemma demo_noted: "\<exists>made fs' n'. noted demo_service b (fs, n) = Some (Inr made, (fs', n')) \<and> (\<forall>p. p \<noteq> NOTES_PATH \<longrightarrow> map_of fs' p = map_of fs p)"
proof -
  obtain r fs' where r: "appendNoteCommitment demo_service (bi_noteSecret b) (bi_noteBlinding b) (fs, n) = Some (r, (fs', n))"
    "\<forall>p. p \<noteq> NOTES_PATH \<longrightarrow> map_of fs' p = map_of fs p"
    using append_note_total[of demo_service "bi_noteSecret b" "bi_noteBlinding b" fs n] by (elim exE conjE)
  note sync = demo_root_set[of "''set_note_root''"]
  show ?thesis
  proof (cases r)
    case (Inl e)
    with r show ?thesis by (intro exI[of _ None] exI[of _ fs'] exI[of _ n])
      (simp add: noted_def io_bind_apply io_try_def io_return_apply)
  next
    case (Inr st)
    with r show ?thesis by (intro exI[of _ "Some st"] exI[of _ fs'] exI[of _ "n + 4"])
      (simp add: noted_def io_bind_apply io_try_def io_return_apply outside_def net_io_def syncNoteRootOnChain_def sync)
  qed
qed

definition demo_meta :: issuerMeta where
  "demo_meta = \<lparr>im_stellarPublicKey = ''G'', im_issuerId = Some 1, im_pubkeyHex = [], im_pubkeyBytes64 = []\<rparr>"

theorem credential_answer_witness:
  "\<exists>rep w'. post_credential demo_service demo_meta (JObj [(''walletField'', JStr ''5''), (''policyKey'', JStr ''us-jurisdiction'')])
      (demo_revoked, 1199999999999) = Some (Inr rep, w') \<and> rp_status rep = 200
    \<and> (\<exists>roots m m'. readOnChainRoots demo_service m = Some (Inr roots, m'))"
proof -
  have params: "text_param (JObj [(''walletField'', JStr ''5''), (''policyKey'', JStr ''us-jurisdiction'')]) ''walletField'' d = ''5''"
    "text_param (JObj [(''walletField'', JStr ''5''), (''policyKey'', JStr ''us-jurisdiction'')]) ''policyKey'' d = ''us-jurisdiction''" for d
    by (simp_all add: text_param_def maybe_member_def member_String_def)
  obtain m where m: "service_material demo_service ''5'' ''us-jurisdiction'' = Inr m" "cm_root m = hex_word 7"
    using demo_material by blast
  obtain b where b: "buildProverInputs demo_service ''5'' demo_chainRoots ''us-jurisdiction'' [] (demo_revoked, 1200000000000)
      = Some (Inr b, (demo_revoked, 1200000000000))" "bi_commitment b = hex_word 7" using demo_built by blast
  obtain made fs' n' where made: "noted demo_service b (demo_revoked, 1200000000000) = Some (Inr made, (fs', n'))"
    "\<forall>p. p \<noteq> NOTES_PATH \<longrightarrow> map_of fs' p = map_of demo_revoked p" using demo_noted by blast
  have path: "CREDENTIAL_PATH demo_service = ''fixtures/credential.json''"
    by (simp add: CREDENTIAL_PATH_def demo_serviceEnv_def text_or_def truthy_def)
  have kept: "map_of demo_revoked ''fixtures/credential.json'' = Some (pretty (JObj []))"
    by (simp add: demo_revoked_def REVOKED_PATH_def map_of_put)
  have parsed: "JSON_parse (pretty (JObj [])) = Some (JObj [])" unfolding pretty_def by (rule JSON_parse_stringify) (simp_all add: json_ws_def)
  obtain sig where sig: "signCommitment demo_service (hex_word 7) = Inr sig"
    and ok: "verifyCommitmentSignature demo_service (hex_word 7) (sg_base64 sig) = Inr True"
    using demo_signature[OF seven_word(2)] by blast
  have "\<exists>rep w'. answer_credential demo_service demo_meta ''5'' ''us-jurisdiction'' demo_chainRoots b made (fs', n') = Some (Inr rep, w') \<and> rp_status rep = 200"
    using made(2) kept parsed sig ok by (simp add: answer_credential_def io_bind_apply read_file_def on_files_def path NOTES_PATH_def io_res_def b(2)
        outside_def net_io_def now_io_def io_return_apply ok_reply_def)
  then obtain rep w' where rep: "answer_credential demo_service demo_meta ''5'' ''us-jurisdiction'' demo_chainRoots b made (fs', n') = Some (Inr rep, w')"
    "rp_status rep = 200" by blast
  have run: "post_credential demo_service demo_meta (JObj [(''walletField'', JStr ''5''), (''policyKey'', JStr ''us-jurisdiction'')])
      (demo_revoked, 1199999999999) = Some (Inr rep, w')"
    unfolding post_credential_def params Let_def
    using m b made rep demo_roots[of 1199999999999]
    by (simp add: io_bind_apply read_file_def on_files_def path kept or_reply_def io_try_def outside_def net_io_def io_res_def
        syncedRoots_def demo_chainRoots_def io_return_apply)
  from credential_answer[OF run] rep(2) run show ?thesis by auto
qed

end
