(* ===== verification/IssuerTreasury.thy ===== *)
theory IssuerTreasury
  imports IssuerCredential
begin

text \<open>
  The treasury of the testnet faucet (\<^verbatim>\<open>issuer-service/lib/sacLiquidity.js\<close>): which of the
  configured accounts pays, how it is topped up, and the transfer itself. Horizon's accounts and the
  submission of classic transactions are members of the surroundings. Shown: who is asked to pay held
  enough when it was asked, a transfer that is reported was confirmed, deposits leave the reserve, and
  amounts are read as the client reads them.
\<close>

section \<open>Surroundings\<close>

datatype classicAsset = NativeAsset | IssuedAsset (ca_code: string) (ca_issuer: string)

datatype classicOp = ChangeTrust classicAsset string
  | PathPaymentStrictSend classicAsset string string classicAsset string

record balanceRow =
  br_assetType :: string
  br_assetCode :: "string option"
  br_assetIssuer :: "string option"
  br_balance :: "string option"

record 'n treasury =
  ty_service :: "'n serviceEnv"
  ty_loadAccount :: "string \<Rightarrow> string \<Rightarrow> 'n \<Rightarrow> balanceRow list res \<times> 'n"
  ty_submit :: "string \<Rightarrow> keypair \<Rightarrow> classicOp list \<Rightarrow> 'n \<Rightarrow> unit res \<times> 'n"

definition ty_env :: "'n treasury \<Rightarrow> env" where
  "ty_env T = sv_env (ty_service T)"

section \<open>Balances\<close>

definition isMissingBalanceError :: "string \<Rightarrow> bool" where
  "isMissingBalanceError msg \<longleftrightarrow> contains msg ''MissingValue'' \<or> contains msg ''trustline entry is missing''"

definition readSacBalanceRaw :: "'n treasury \<Rightarrow> string \<Rightarrow> string \<Rightarrow> ('n, int) io" where
  "readSacBalanceRaw T sacId holder = (let S = ty_service T in
     io_bind (io_res (getNetworkConfig S)) (\<lambda>(url, passphrase).
     io_bind (io_res (sv_contract S sacId)) (\<lambda>u.
     io_bind (io_res (address_val S holder)) (\<lambda>a.
     io_bind (io_call (cs_simulate (sv_server S url passphrase) \<lparr>tx_source = readOnlyLedgerAccount, tx_contract = sacId,
         tx_method = ''balance'', tx_args = [a], tx_timeout = 30\<rparr>)) (\<lambda>sim. case sim of
         SimError e \<Rightarrow> if isMissingBalanceError e then io_return 0
           else io_throw (Refused (if e = [] then ''SAC balance read failed'' else e))
       | SimSuccess None \<Rightarrow> io_throw (TypeError ''scValToNative'')
       | SimSuccess (Some v) \<Rightarrow> io_res (rbind (sv_native S v) (\<lambda>b. BigInt_of (js_String b))))))))"

definition horizonOf :: "'n treasury \<Rightarrow> string" where
  "horizonOf T = horizonUrl (ty_service T)"

definition friendbotUrl :: "'n treasury \<Rightarrow> string" where
  "friendbotUrl T = given (text_or (ty_env T ''FRIENDBOT_URL'') None) ''https://friendbot.stellar.org''"

text \<open>An account that cannot be loaded is asked for at the friendbot once, whatever that answers.\<close>

definition loadHorizonAccount :: "'n treasury \<Rightarrow> string \<Rightarrow> ('n, balanceRow list) io" where
  "loadHorizonAccount T publicKey =
     io_catch (io_call (ty_loadAccount T (horizonOf T) publicKey)) (\<lambda>e.
       io_bind (http_get (ty_service T) (friendbotUrl T @ ''?addr='' @ publicKey)) (\<lambda>u.
         io_call (ty_loadAccount T (horizonOf T) publicKey)))"

definition humanAmountToStroops :: "string option \<Rightarrow> int res" where
  "humanAmountToStroops human =
     (let raw = trim (given (text_or human None) ''0''); parts = split_on (CHR ''.'') raw;
          whole = hd parts; frac = (case tl parts of [] \<Rightarrow> [] | f # rest \<Rightarrow> f);
          padded = take 7 (frac @ ''0000000'')
      in rbind (BigInt_of (if whole = [] then ''0'' else whole)) (\<lambda>w.
         rmap (\<lambda>f. w * 10000000 + f) (BigInt_of (if padded = [] then ''0'' else padded))))"

definition env_given :: "'n treasury \<Rightarrow> string list \<Rightarrow> string \<Rightarrow> string" where
  "env_given T names d = given (env_or (ty_service T) names) d"

definition getUsdcIssuer :: "'n treasury \<Rightarrow> string" where
  "getUsdcIssuer T = env_given T [''VITE_USDC_ISSUER'', ''USDC_ISSUER'']
     ''GBBD47IF6LWK7P7MDEVSCWR7DPUWV3NY3DTQEVFL4NAT4AQH3ZLLFLA5''"

definition getUsdcAsset :: "'n treasury \<Rightarrow> classicAsset" where
  "getUsdcAsset T = IssuedAsset ''USDC'' (getUsdcIssuer T)"

definition getUsdcSacId :: "'n treasury \<Rightarrow> string" where
  "getUsdcSacId T = env_given T [''VITE_USDC_SAC_ID'', ''USDC_SAC_ID'']
     ''CBIELTK6YBZJU5UP2WWQEUCYKLPU6AUNZ2BQ4WWFEIE3USCIHMXQDAMA''"

definition row_stroops :: "balanceRow option \<Rightarrow> int res" where
  "row_stroops row = (case row of None \<Rightarrow> Inr 0 | Some r \<Rightarrow> humanAmountToStroops (br_balance r))"

definition readClassicUsdcStroops :: "'n treasury \<Rightarrow> string \<Rightarrow> ('n, int) io" where
  "readClassicUsdcStroops T publicKey = io_bind (loadHorizonAccount T publicKey) (\<lambda>balances.
     io_res (row_stroops (List.find (\<lambda>r. br_assetCode r = Some ''USDC'' \<and> br_assetIssuer r = Some (getUsdcIssuer T)) balances)))"

definition readClassicXlmStroops :: "'n treasury \<Rightarrow> string \<Rightarrow> ('n, int) io" where
  "readClassicXlmStroops T publicKey = io_bind (loadHorizonAccount T publicKey) (\<lambda>balances.
     io_res (row_stroops (List.find (\<lambda>r. br_assetType r = ''native'') balances)))"

section \<open>Who can pay\<close>

record candidate =
  cd_label :: string
  cd_publicKey :: string
  cd_secret :: string

definition secret_candidate :: "'n treasury \<Rightarrow> string \<Rightarrow> string \<Rightarrow> candidate list res" where
  "secret_candidate T label1 name = (let secret = ty_env T name in
     if \<not> truthy secret then Inr []
     else rmap (\<lambda>kp. [\<lparr>cd_label = label1, cd_publicKey = kp_public kp, cd_secret = the secret\<rparr>])
       (sv_keypair (ty_service T) (the secret)))"

definition fundingCandidates :: "'n treasury \<Rightarrow> candidate list res" where
  "fundingCandidates T = (let pk = ty_env T ''CONTRACT_ADMIN_PUBLIC_KEY''; secret = ty_env T ''CONTRACT_ADMIN_SECRET_KEY'' in
     rmap concat (traverse (\<lambda>c. c) [
       Inr (if truthy pk \<and> truthy secret then [\<lparr>cd_label = ''admin'', cd_publicKey = the pk, cd_secret = the secret\<rparr>] else []),
       secret_candidate T ''deployer'' ''DEPLOYER_SECRET_KEY'', secret_candidate T ''issuer'' ''ISSUER_STELLAR_SECRET'',
       secret_candidate T ''eligible'' ''ELIGIBLE_WALLET_SECRET'']))"

definition sacTransferFromKeypair :: "'n treasury \<Rightarrow> string \<Rightarrow> candidate \<Rightarrow> string \<Rightarrow> string \<Rightarrow> ('n, string) io" where
  "sacTransferFromKeypair T sacId from1 toAddress amountRaw = (let S = ty_service T in
     io_bind (io_res (getNetworkConfig S)) (\<lambda>(url, passphrase).
     io_bind (io_res (sv_keypair S (cd_secret from1))) (\<lambda>signer.
       if kp_public signer \<noteq> cd_publicKey from1 then io_throw (Refused ''Funding secret does not match source address'')
       else signedCall S (sv_server S url passphrase) (cd_publicKey from1) signer sacId ''transfer''
         [address_val S (cd_publicKey from1), address_val S toAddress, bigint_i128 amountRaw] ''SAC transfer simulation failed'')))"

text \<open>The first candidate whose balance, as it was just read, covers the amount; what cannot be read counts as nothing.\<close>

fun firstFunder :: "'n treasury \<Rightarrow> string \<Rightarrow> int \<Rightarrow> candidate list \<Rightarrow> ('n, candidate option) io" where
  "firstFunder T sacId needed [] = io_return None"
| "firstFunder T sacId needed (c # cs) =
     io_bind (io_catch (readSacBalanceRaw T sacId (cd_publicKey c)) (\<lambda>e. io_return 0)) (\<lambda>balance.
       if needed \<le> balance then io_return (Some c) else firstFunder T sacId needed cs)"

definition pickSacFunder :: "'n treasury \<Rightarrow> string \<Rightarrow> string \<Rightarrow> ('n, candidate option) io" where
  "pickSacFunder T sacId amountRaw =
     io_bind (io_res (BigInt_of amountRaw)) (\<lambda>needed.
     io_bind (io_res (fundingCandidates T)) (firstFunder T sacId needed))"

section \<open>Topping up with USDC\<close>

definition submitClassic :: "'n treasury \<Rightarrow> string \<Rightarrow> classicOp list \<Rightarrow> ('n, unit) io" where
  "submitClassic T sourceSecret ops =
     io_bind (io_res (sv_keypair (ty_service T) sourceSecret)) (\<lambda>source.
     io_bind (loadHorizonAccount T (kp_public source)) (\<lambda>account.
       io_call (ty_submit T (horizonOf T) source ops)))"

definition depositClassicToSac :: "'n treasury \<Rightarrow> string \<Rightarrow> string \<Rightarrow> string \<Rightarrow> ('n, string) io" where
  "depositClassicToSac T sacId holderSecret amountRaw = (let S = ty_service T in
     io_bind (io_res (getNetworkConfig S)) (\<lambda>(url, passphrase).
     io_bind (io_res (sv_keypair S holderSecret)) (\<lambda>holder.
       signedCall S (sv_server S url passphrase) (kp_public holder) holder sacId ''deposit''
         [address_val S (kp_public holder), bigint_i128 amountRaw] ''SAC deposit simulation failed'')))"

definition trust_exists :: "string \<Rightarrow> bool" where
  "trust_exists m \<longleftrightarrow> contains (map lower m) ''exists'' \<or> contains (map lower m) ''trustline''"

text \<open>Ever larger path payments, none of which has to succeed, until the balance suffices.\<close>

fun buyUsdc :: "'n treasury \<Rightarrow> string \<Rightarrow> string \<Rightarrow> int \<Rightarrow> string list \<Rightarrow> int \<Rightarrow> ('n, int) io" where
  "buyUsdc T publicKey secret minStroops [] classic = io_return classic"
| "buyUsdc T publicKey secret minStroops (xlmSend # sends) classic =
     io_bind (io_try (submitClassic T secret [PathPaymentStrictSend NativeAsset xlmSend publicKey (getUsdcAsset T) ''1''])) (\<lambda>r.
     io_bind (readClassicUsdcStroops T publicKey) (\<lambda>classic'.
       if minStroops \<le> classic' then io_return classic' else buyUsdc T publicKey secret minStroops sends classic'))"

definition ensureClassicUsdcOnAccount :: "'n treasury \<Rightarrow> string \<Rightarrow> string \<Rightarrow> int \<Rightarrow> ('n, int) io" where
  "ensureClassicUsdcOnAccount T publicKey secret minStroops =
     io_bind (readClassicUsdcStroops T publicKey) (\<lambda>classic.
     if minStroops \<le> classic then io_return classic
     else io_bind (io_catch (submitClassic T secret [ChangeTrust (getUsdcAsset T) ''100000000''])
         (\<lambda>e. if trust_exists (message e) then io_return () else io_throw e)) (\<lambda>u.
       io_bind (readClassicUsdcStroops T publicKey) (\<lambda>classic'.
         if minStroops \<le> classic' then io_return classic'
         else buyUsdc T publicKey secret minStroops [''25'', ''50'', ''100''] classic')))"

definition RESERVE :: int where "RESERVE = 10000000"

definition deposit_amount :: "int \<Rightarrow> int \<Rightarrow> int" where
  "deposit_amount classic shortfall = (let depositable = (if RESERVE < classic then classic - RESERVE else 0) in
     if depositable < shortfall then depositable else shortfall)"

fun depositLoop :: "'n treasury \<Rightarrow> string \<Rightarrow> candidate \<Rightarrow> int \<Rightarrow> nat \<Rightarrow> int \<Rightarrow> ('n, int) io" where
  "depositLoop T sacId c target 0 sacBalance = io_return sacBalance"
| "depositLoop T sacId c target (Suc left) sacBalance =
     (if target \<le> sacBalance then io_return sacBalance
      else io_bind (ensureClassicUsdcOnAccount T (cd_publicKey c) (cd_secret c) (target - sacBalance)) (\<lambda>u.
        io_bind (readClassicUsdcStroops T (cd_publicKey c)) (\<lambda>classic.
        if classic \<le> 0 then io_return sacBalance
        else if deposit_amount classic (target - sacBalance) \<le> 0 then io_return sacBalance
        else io_bind (depositClassicToSac T sacId (cd_secret c) (toString10 (deposit_amount classic (target - sacBalance)))) (\<lambda>h.
          io_bind (readSacBalanceRaw T sacId (cd_publicKey c)) (depositLoop T sacId c target left)))))"

definition depositAvailableClassicToSac :: "'n treasury \<Rightarrow> string \<Rightarrow> candidate \<Rightarrow> int \<Rightarrow> ('n, int) io" where
  "depositAvailableClassicToSac T sacId c target =
     io_bind (readSacBalanceRaw T sacId (cd_publicKey c)) (\<lambda>sacBalance.
       if target \<le> sacBalance then io_return sacBalance else depositLoop T sacId c target 6 sacBalance)"

text \<open>
  The administrator's account first. Sorting by insertion puts each candidate with this key in front of
  what is sorted already, the others behind.
\<close>

definition primary_first :: "string option \<Rightarrow> candidate list \<Rightarrow> candidate list" where
  "primary_first pk cs = rev (filter (\<lambda>c. Some (cd_publicKey c) = pk) cs) @ filter (\<lambda>c. Some (cd_publicKey c) \<noteq> pk) cs"

fun topUpFirst :: "'n treasury \<Rightarrow> string \<Rightarrow> int \<Rightarrow> candidate list \<Rightarrow> ('n, bool) io" where
  "topUpFirst T sacId needed [] = io_return False"
| "topUpFirst T sacId needed (c # cs) =
     (if cd_secret c = [] then topUpFirst T sacId needed cs
      else io_bind (io_try (depositAvailableClassicToSac T sacId c needed)) (\<lambda>r. case r of
          Inr toppedUp \<Rightarrow> if needed \<le> toppedUp then io_return True else topUpFirst T sacId needed cs
        | Inl e \<Rightarrow> topUpFirst T sacId needed cs))"

definition ensureUsdcSacLiquidity :: "'n treasury \<Rightarrow> string \<Rightarrow> string \<Rightarrow> ('n, bool) io" where
  "ensureUsdcSacLiquidity T sacId amountRaw =
     io_bind (io_res (BigInt_of amountRaw)) (\<lambda>needed.
     io_bind (io_res (fundingCandidates T)) (\<lambda>cs.
       topUpFirst T sacId needed (primary_first (ty_env T ''CONTRACT_ADMIN_PUBLIC_KEY'') cs)))"

section \<open>Topping up with EURC\<close>

definition eurcIssuerOf :: "'n treasury \<Rightarrow> string option" where
  "eurcIssuerOf T = env_or (ty_service T) [''VITE_EURC_ISSUER'', ''EURC_ISSUER'']"

definition mintSacToAddress :: "'n treasury \<Rightarrow> string \<Rightarrow> string \<Rightarrow> string \<Rightarrow> ('n, string) io" where
  "mintSacToAddress T sacId toAddress amountRaw = (let S = ty_service T; secret = ty_env T ''DEPLOYER_SECRET_KEY'' in
     if eurcIssuerOf T = None \<or> \<not> truthy secret then io_throw (Refused ''Deployer EURC issuer not configured'')
     else io_bind (io_res (sv_keypair S (the secret))) (\<lambda>deployer.
       if Some (kp_public deployer) \<noteq> eurcIssuerOf T
       then io_throw (Refused ''DEPLOYER_SECRET_KEY must match VITE_EURC_ISSUER for SAC mint bootstrap'')
       else io_bind (io_res (getNetworkConfig S)) (\<lambda>(url, passphrase).
         signedCall S (sv_server S url passphrase) (kp_public deployer) deployer sacId ''mint''
           [address_val S toAddress, bigint_i128 amountRaw] ''SAC mint simulation failed'')))"

definition ensureDeployerIssuedEurcLiquidity :: "'n treasury \<Rightarrow> string \<Rightarrow> string \<Rightarrow> ('n, bool) io" where
  "ensureDeployerIssuedEurcLiquidity T sacId minRaw =
     (let adminPk = ty_env T ''CONTRACT_ADMIN_PUBLIC_KEY''; secret = ty_env T ''DEPLOYER_SECRET_KEY'' in
      if eurcIssuerOf T = None \<or> \<not> truthy adminPk \<or> \<not> truthy secret then io_return False
      else io_bind (io_res (sv_keypair (ty_service T) (the secret))) (\<lambda>deployer.
        if Some (kp_public deployer) \<noteq> eurcIssuerOf T then io_return False
        else io_bind (readSacBalanceRaw T sacId (the adminPk)) (\<lambda>adminSac.
          io_bind (io_res (BigInt_of minRaw)) (\<lambda>least.
          if least \<le> adminSac then io_return True
          else io_bind (mintSacToAddress T sacId (the adminPk) (toString10 (least * 20))) (\<lambda>h. io_return True)))))"

section \<open>Topping up with XLM\<close>

fun sumReadable :: "'n treasury \<Rightarrow> string \<Rightarrow> candidate list \<Rightarrow> ('n, int) io" where
  "sumReadable T sacId [] = io_return 0"
| "sumReadable T sacId (c # cs) =
     io_bind (io_catch (readSacBalanceRaw T sacId (cd_publicKey c)) (\<lambda>e. io_return 0)) (\<lambda>b.
     io_bind (sumReadable T sacId cs) (\<lambda>rest. io_return (b + rest)))"

definition totalNativeLiquidity :: "'n treasury \<Rightarrow> string \<Rightarrow> ('n, int) io" where
  "totalNativeLiquidity T sacId = io_bind (io_res (fundingCandidates T)) (sumReadable T sacId)"

text \<open>\<^verbatim>\<open>encodeURIComponent\<close> of a text that is already in its UTF-8 form.\<close>

definition uri_char :: "char \<Rightarrow> bool" where
  "uri_char c \<longleftrightarrow> (let n = of_char c :: nat in (65 \<le> n \<and> n \<le> 90) \<or> (97 \<le> n \<and> n \<le> 122) \<or> (48 \<le> n \<and> n \<le> 57))
     \<or> c \<in> set ''-_.!~*()'' \<or> c = CHR 0x27"

definition upper_hex :: "nat \<Rightarrow> char" where
  "upper_hex d = (if d < 10 then char_of (48 + d) else char_of (55 + d))"

definition encodeURIComponent :: "string \<Rightarrow> string" where
  "encodeURIComponent s = concat (map (\<lambda>c. if uri_char c then [c]
     else [CHR ''%'', upper_hex (of_char c div 16), upper_hex (of_char c mod 16)]) s)"

fun friendbotAll :: "'n treasury \<Rightarrow> candidate list \<Rightarrow> ('n, unit) io" where
  "friendbotAll T [] = io_return ()"
| "friendbotAll T (c # cs) =
     io_bind (io_try (http_get (ty_service T) (friendbotUrl T @ ''?addr='' @ encodeURIComponent (cd_publicKey c)))) (\<lambda>r.
       friendbotAll T cs)"

fun nativeRounds :: "'n treasury \<Rightarrow> string \<Rightarrow> int \<Rightarrow> nat \<Rightarrow> ('n, bool) io" where
  "nativeRounds T sacId needed 0 = io_bind (totalNativeLiquidity T sacId) (\<lambda>t. io_return (needed \<le> t))"
| "nativeRounds T sacId needed (Suc left) =
     io_bind (io_res (fundingCandidates T)) (\<lambda>cs.
     io_bind (friendbotAll T cs) (\<lambda>u.
     io_bind (totalNativeLiquidity T sacId) (\<lambda>t. if needed \<le> t then io_return True else nativeRounds T sacId needed left)))"

definition ensureNativeSacLiquidity :: "'n treasury \<Rightarrow> string \<Rightarrow> string \<Rightarrow> ('n, bool) io" where
  "ensureNativeSacLiquidity T sacId amountRaw =
     io_bind (io_res (BigInt_of amountRaw)) (\<lambda>needed.
     io_bind (totalNativeLiquidity T sacId) (\<lambda>t. if needed \<le> t then io_return True else nativeRounds T sacId needed 24))"

section \<open>The transfer\<close>

definition or_funder :: "('n, bool) io \<Rightarrow> ('n, candidate option) io \<Rightarrow> ('n, candidate) io \<Rightarrow> ('n, candidate) io" where
  "or_funder bootstrap pick otherwise = io_bind bootstrap (\<lambda>bootstrapped.
     if bootstrapped then io_bind pick (\<lambda>retry. case retry of Some c \<Rightarrow> io_return c | None \<Rightarrow> otherwise) else otherwise)"

definition treasury_empty :: "string \<Rightarrow> string \<Rightarrow> js_error" where
  "treasury_empty label1 sacId = Refused (label1 @ '' faucet treasury is empty on SAC '' @ sacId @ ''. Fund a faucet wallet with '' @ label1
     @ '' on this SAC, or configure issuer bootstrap keys.'')"

definition ensureSacFaucetLiquidity :: "'n treasury \<Rightarrow> string \<Rightarrow> string \<Rightarrow> string \<Rightarrow> ('n, candidate) io" where
  "ensureSacFaucetLiquidity T sacId amountRaw label1 =
     (let pick = pickSacFunder T sacId amountRaw; S = ty_service T in
      io_bind pick (\<lambda>funder. case funder of Some c \<Rightarrow> io_return c
       | None \<Rightarrow>
          if label1 = ''EURC'' \<and> Some sacId = env_or S [''VITE_EURC_SAC_ID'', ''EURC_SAC_ID'']
          then or_funder (ensureDeployerIssuedEurcLiquidity T sacId amountRaw) pick (io_throw (treasury_empty label1 sacId))
          else if label1 = ''USDC'' \<and> sacId = getUsdcSacId T
          then or_funder (ensureUsdcSacLiquidity T sacId amountRaw) pick (io_throw (treasury_empty label1 sacId))
          else if label1 = ''XLM'' \<and> Some sacId = env_or S [''VITE_NATIVE_SAC_ID'', ''NATIVE_SAC_ID'']
          then or_funder (ensureNativeSacLiquidity T sacId amountRaw) pick (io_throw (treasury_empty label1 sacId))
          else io_throw (treasury_empty label1 sacId)))"

definition sacTransferForFaucet :: "'n treasury \<Rightarrow> string \<Rightarrow> string \<Rightarrow> string \<Rightarrow> string \<Rightarrow> ('n, string) io" where
  "sacTransferForFaucet T sacId toAddress amountRaw label1 =
     io_bind (ensureSacFaucetLiquidity T sacId amountRaw label1) (\<lambda>funder.
       sacTransferFromKeypair T sacId funder toAddress amountRaw)"

section \<open>Properties\<close>

lemma io_catch_run [run_iff]: "io_catch m h w = Some (Inr b, w'') \<longleftrightarrow>
    (\<exists>e w'. m w = Some (Inl e, w') \<and> h e w' = Some (Inr b, w'')) \<or> m w = Some (Inr b, w'')"
  by (auto simp: io_catch_any)

text \<open>
  The account was chosen in the world that is left: it is configured, and the reading of its balance
  that ended there covered the amount; one that is not positive is covered by anything.
\<close>

definition can_pay :: "'n treasury \<Rightarrow> string \<Rightarrow> int \<Rightarrow> candidate \<Rightarrow> 'n \<Rightarrow> bool" where
  "can_pay T sacId needed c w \<longleftrightarrow> (\<exists>cs. fundingCandidates T = Inr cs \<and> c \<in> set cs)
     \<and> (needed \<le> 0 \<or> (\<exists>b n. readSacBalanceRaw T sacId (cd_publicKey c) n = Some (Inr b, w) \<and> needed \<le> b))"

lemma firstFunder_pays:
  "firstFunder T sacId needed cs w = Some (Inr (Some c), w') \<Longrightarrow> fundingCandidates T = Inr (before @ cs) \<Longrightarrow> can_pay T sacId needed c w'"
proof (induction cs arbitrary: w before)
  case (Cons d cs)
  then show ?case
    using Cons.IH[of _ "before @ [d]"] by (fastforce simp: run_iff can_pay_def split: if_splits)
qed (simp add: run_iff)

lemma pickSacFunder_pays:
  "pickSacFunder T sacId amountRaw w = Some (Inr (Some c), w') \<Longrightarrow> BigInt_of amountRaw = Inr needed \<Longrightarrow> can_pay T sacId needed c w'"
  using firstFunder_pays[where before = "[]"] by (fastforce simp: pickSacFunder_def run_iff)

lemma or_funder_run: "or_funder bootstrap pick (io_throw e) w = Some (Inr c, w') \<Longrightarrow> \<exists>w1. pick w1 = Some (Inr (Some c), w')"
  by (auto simp: or_funder_def run_iff split: if_splits option.splits)

lemma ensure_pays:
  "ensureSacFaucetLiquidity T sacId amountRaw label1 w = Some (Inr c, w') \<Longrightarrow> BigInt_of amountRaw = Inr needed
    \<Longrightarrow> can_pay T sacId needed c w'"
  by (auto simp: ensureSacFaucetLiquidity_def Let_def run_iff split: if_splits dest!: or_funder_run dest: pickSacFunder_pays)

text \<open>
  C24: What the treasury reports as paid was paid by one of the configured accounts, whose balance on
  the asset's contract was read last before the payment and covered the amount: the transaction that
  was sent next calls the contract's transfer from this account to the given address over exactly this
  amount, is signed with this account's key, and was confirmed on the ledger under the hash reported.
\<close>

theorem treasury_pays:
  assumes "sacTransferForFaucet T sacId toAddress amountRaw label1 w = Some (Inr h, w')"
  shows "\<exists>needed c kp url passphrase a1 a2 w1. BigInt_of amountRaw = Inr needed \<and> can_pay T sacId needed c w1
    \<and> sv_keypair (ty_service T) (cd_secret c) = Inr kp \<and> kp_public kp = cd_publicKey c
    \<and> getNetworkConfig (ty_service T) = Inr (url, passphrase)
    \<and> address_val (ty_service T) (cd_publicKey c) = Inr a1 \<and> address_val (ty_service T) toAddress = Inr a2
    \<and> call_made (ty_service T) (sv_server (ty_service T) url passphrase) kp (cd_publicKey c) sacId ''transfer''
        [a1, a2, ScI128 needed] h w1 w'"
proof -
  let ?S = "ty_service T"
  from assms obtain c w1 url passphrase kp where pick: "ensureSacFaucetLiquidity T sacId amountRaw label1 w = Some (Inr c, w1)"
    and net: "getNetworkConfig ?S = Inr (url, passphrase)" "sv_keypair ?S (cd_secret c) = Inr kp" "kp_public kp = cd_publicKey c"
    and call: "signedCall ?S (sv_server ?S url passphrase) (cd_publicKey c) kp sacId ''transfer''
         [address_val ?S (cd_publicKey c), address_val ?S toAddress, bigint_i128 amountRaw] ''SAC transfer simulation failed'' w1
       = Some (Inr h, w')"
    by (auto simp: sacTransferForFaucet_def sacTransferFromKeypair_def run_iff Let_def split: if_splits)
  from signedCall_run[OF call] obtain a1 a2 needed where
    "address_val ?S (cd_publicKey c) = Inr a1" "address_val ?S toAddress = Inr a2" "BigInt_of amountRaw = Inr needed"
    "call_made ?S (sv_server ?S url passphrase) kp (cd_publicKey c) sacId ''transfer'' [a1, a2, ScI128 needed] h w1 w'"
    by (auto simp: rbind_Inr_iff rmap_Inr_iff bigint_i128_def i128Val_def split: if_splits)
  with net ensure_pays[OF pick] show ?thesis by blast
qed

text \<open>
  An amount the application reads with seven decimals is read by the treasury as the same number of
  the smallest unit.
\<close>

theorem stroops_agree:
  assumes "parseStellarAmount amount 7 = Inr n"
  shows "humanAmountToStroops (Some amount) = Inr n"
proof -
  let ?parts = "split_on (CHR ''.'') (trim amount)"
  let ?frac = "case tl ?parts of [] \<Rightarrow> [] | f # rest \<Rightarrow> f"
  from assms have t: "trim amount \<noteq> []" and l: "length ?frac \<le> 7"
    and r: "rbind (BigInt_of (hd ?parts)) (\<lambda>w. rmap (\<lambda>f. w * 10 ^ 7 + f) (BigInt_of (padEnd0 7 ?frac))) = Inr n"
    by (auto simp: parseStellarAmount_def Let_def padEnd0_def split: if_splits)
  have "amount \<noteq> []" using t by (cases amount) (auto simp: trim_def)
  then have given: "given (text_or (Some amount) None) ''0'' = amount" by (simp add: text_or_def truthy_def)
  have "''0000000'' = replicate 7 (CHR ''0'')" by (simp add: numeral_eq_Suc)
  then have pad: "take 7 (?frac @ ''0000000'') = padEnd0 7 ?frac" using l by (simp only: padEnd0_def take_append take_replicate) simp
  have "padEnd0 7 ?frac \<noteq> []" using l by (auto simp: padEnd0_def)
  moreover have "BigInt_of ''0'' = BigInt_of []" using BigInt_toString10[of 0] constant_texts(3)
    by (simp add: BigInt_of_def parse_bigint_def trim_def)
  then have "BigInt_of (if hd ?parts = [] then ''0'' else hd ?parts) = BigInt_of (hd ?parts)" by simp
  ultimately show ?thesis using r unfolding humanAmountToStroops_def Let_def given pad by simp
qed

text \<open>What is deposited is needed, and leaves the reserve.\<close>

lemma deposit_leaves_reserve: "0 < deposit_amount classic shortfall \<Longrightarrow>
    deposit_amount classic shortfall \<le> shortfall \<and> deposit_amount classic shortfall + RESERVE \<le> classic"
  by (auto simp: deposit_amount_def Let_def split: if_splits)

section \<open>A demonstration\<close>

definition demo_treasury :: "int treasury" where
  "demo_treasury = \<lparr>ty_service = demo_service\<lparr>sv_env := map_of [(''STELLAR_RPC_URL'', ''r''), (''STELLAR_NETWORK_PASSPHRASE'', ''p''),
       (''CONTRACT_ADMIN_PUBLIC_KEY'', ''a''), (''CONTRACT_ADMIN_SECRET_KEY'', ''a''), (''USDC_SAC_ID'', ''U''), (''RWA_TOKEN_ID'', ''W'')],
       sv_native := (\<lambda>v. Inr (NNum 500000000)), sv_clock := (\<lambda>n. (max 1 n, n))\<rparr>,
     ty_loadAccount = (\<lambda>u a n. (Inr [], n)), ty_submit = (\<lambda>u kp ops n. (Inr (), n))\<rparr>"

lemma demo_treasury_env [simp]: "ty_env demo_treasury = map_of [(''STELLAR_RPC_URL'', ''r''), (''STELLAR_NETWORK_PASSPHRASE'', ''p''),
       (''CONTRACT_ADMIN_PUBLIC_KEY'', ''a''), (''CONTRACT_ADMIN_SECRET_KEY'', ''a''), (''USDC_SAC_ID'', ''U''), (''RWA_TOKEN_ID'', ''W'')]"
  by (simp add: ty_env_def demo_treasury_def)

lemma demo_treasury_sel [simp]:
  "sv_env (ty_service demo_treasury) = ty_env demo_treasury" "sv_native (ty_service demo_treasury) v = Inr (NNum 500000000)"
  "sv_server (ty_service demo_treasury) u p = demo_serviceServer" "sv_contract (ty_service demo_treasury) c = Inr ()"
  "sv_keypair (ty_service demo_treasury) secret = Inr (demo_keypair secret)" "sv_clock (ty_service demo_treasury) n = (max 1 n, n)"
  "sv_fetch (ty_service demo_treasury) req n = (Inr \<lparr>http_ok = True, http_status = 200, http_text = Inr [],
     http_json = Inr (JObj [(''successful'', JBool True)])\<rparr>, n + 1)"
  by (simp_all add: demo_treasury_def ty_env_def)

lemma demo_treasury_network: "getNetworkConfig (ty_service demo_treasury) = Inr (''r'', ''p'')"
  by (simp add: getNetworkConfig_def env_or_def rpc_names_def passphrase_names_def text_or_def truthy_def)

lemma demo_treasury_candidates: "fundingCandidates demo_treasury = Inr [\<lparr>cd_label = ''admin'', cd_publicKey = ''a'', cd_secret = ''a''\<rparr>]"
  by (simp add: fundingCandidates_def secret_candidate_def truthy_def Let_def)

lemma demo_treasury_signed: "signedCall (ty_service demo_treasury) demo_serviceServer source kp contract method1 args failure n
    = (case traverse (\<lambda>a. a) args of Inl e \<Rightarrow> Some (Inl e, n + 1) | Inr vals \<Rightarrow> Some (Inr ''h'', n + 4))"
proof -
  have "waitForTransactionSuccess (ty_service demo_treasury) h m = Some (Inr h, m + 1)" for h and m :: int
    by (simp add: waitForTransactionSuccess_def now_io_def io_simps waitLoop.simps[of _ _ "max 1 m" m] MAX_WAIT_MS_def looked_up_def entry_get_def)
  then show ?thesis
    by (cases "traverse (\<lambda>a. a) args") (simp_all add: signedCall_def io_bind_apply io_res_def Let_def io_call_def io_return_apply)
qed

lemma demo_treasury_balance: "readSacBalanceRaw demo_treasury sacId holder n = Some (Inr 500000000, n + 1)"
  using BigInt_toString10[of 500000000]
  by (simp add: readSacBalanceRaw_def Let_def demo_treasury_network io_bind_apply io_res_def address_val_def io_call_def)

lemma demo_transfer: "0 \<le> amount \<Longrightarrow> amount \<le> 500000000 \<Longrightarrow>
    sacTransferForFaucet demo_treasury sacId toAddress (toString10 amount) label1 n = Some (Inr ''h'', n + 5)"
  by (simp add: sacTransferForFaucet_def ensureSacFaucetLiquidity_def pickSacFunder_def Let_def io_bind_apply io_res_def
      demo_treasury_candidates demo_treasury_balance io_catch_apply io_return_apply sacTransferFromKeypair_def demo_treasury_network
      demo_keypair_def demo_treasury_signed address_val_def bigint_i128_def i128Val_def)

theorem treasury_pays_witness:
  "\<exists>needed c kp a1 a2 w1. sacTransferForFaucet demo_treasury ''U'' ''C'' (toString10 100000000) ''USDC'' 5 = Some (Inr ''h'', 10)
    \<and> needed = 100000000 \<and> can_pay demo_treasury ''U'' needed c w1
    \<and> call_made (ty_service demo_treasury) demo_serviceServer kp (cd_publicKey c) ''U'' ''transfer'' [a1, a2, ScI128 needed] ''h'' w1 10"
proof -
  have run: "sacTransferForFaucet demo_treasury ''U'' ''C'' (toString10 100000000) ''USDC'' 5 = Some (Inr ''h'', 10)"
    using demo_transfer[of 100000000 "''U''" "''C''" "''USDC''" 5] by simp
  from treasury_pays[OF run] obtain needed c kp a1 a2 w1 where "BigInt_of (toString10 100000000) = Inr needed"
    "can_pay demo_treasury ''U'' needed c w1"
    "call_made (ty_service demo_treasury) demo_serviceServer kp (cd_publicKey c) ''U'' ''transfer'' [a1, a2, ScI128 needed] ''h'' w1 10"
    by auto
  moreover from this(1) have "needed = 100000000" by simp
  ultimately show ?thesis using run by blast
qed

theorem stroops_agree_witness: "humanAmountToStroops (Some (decimal_text ''1'' ''5'')) = Inr 15000000"
proof -
  have "list_all is_digit ''1''" "list_all is_digit ''5''" by (simp_all add: is_digit_def dec_val_def)
  then have "parseStellarAmount (decimal_text ''1'' ''5'') 7 = Inr 15000000"
    using parse_decimal_text[of "''1''" "''5''" 7] by (simp add: decimal_def dec_val_def)
  then show ?thesis by (rule stroops_agree)
qed

end
