(* ===== verification/IssuerFaucet.thy ===== *)
theory IssuerFaucet
  imports IssuerTreasury
begin

text \<open>
  The testnet faucet (\<^verbatim>\<open>issuer-service/lib/faucet.js\<close>), its requests in
  \<^verbatim>\<open>server.js\<close>, and the limit of relayer requests
  (\<^verbatim>\<open>relayerRateLimit.js\<close>). A claim is three uninterrupted pieces: the check, the transfer,
  which waits for the network, and the entry in the file. Shown: one claim after the other keeps a day's
  distance, two claims at a time do not, and how many requests of a client the relayer lets pass.
\<close>

section \<open>Claims\<close>

definition CLAIMS_PATH :: string where "CLAIMS_PATH = ''data/faucet_claims.json''"

definition CLAIM_COOLDOWN_MS :: int where "CLAIM_COOLDOWN_MS = 24 * 60 * 60 * 1000"

record faucetSpec =
  fs_amount :: string
  fs_label :: "string option"

definition LIMITS :: "(string \<times> faucetSpec) list" where
  "LIMITS = [(''usdc'', \<lparr>fs_amount = ''100000000'', fs_label = Some ''10 USDC''\<rparr>),
     (''eurc'', \<lparr>fs_amount = ''100000000'', fs_label = Some ''10 EURC''\<rparr>),
     (''xlm'', \<lparr>fs_amount = ''5000000000'', fs_label = Some ''500 XLM''\<rparr>),
     (''treasury'', \<lparr>fs_amount = ''10'', fs_label = Some ''10 treasury units''\<rparr>)]"

text \<open>\<^verbatim>\<open>LIMITS[asset]\<close>, with the members every object has.\<close>

definition faucetLimit :: "string \<Rightarrow> faucetSpec option" where
  "faucetLimit asset = (case map_of LIMITS asset of Some s \<Rightarrow> Some s
     | None \<Rightarrow> if asset \<in> set object_members then Some \<lparr>fs_amount = undefinedText, fs_label = None\<rparr> else None)"

definition loadClaims :: "('n, json) service" where
  "loadClaims = load_json CLAIMS_PATH (JObj [])"

definition saveClaims :: "json \<Rightarrow> ('n, unit) service" where
  "saveClaims rows = save_json CLAIMS_PATH rows"

definition claimKey :: "string \<Rightarrow> string \<Rightarrow> string" where
  "claimKey smartAccountAddress asset = map lower smartAccountAddress @ '':'' @ asset"

record claimStatus =
  cl_available :: bool
  cl_nextClaimAt :: json
  cl_lastClaimAt :: json

text \<open>\<^verbatim>\<open>v + n\<close> of a JSON value and a number.\<close>

fun js_plus :: "json \<Rightarrow> int \<Rightarrow> json" where
  "js_plus (JNum m) n = JNum (m + n)"
| "js_plus (JBool b) n = JNum ((if b then 1 else 0) + n)"
| "js_plus JNull n = JNum n"
| "js_plus j n = JStr (json_String j @ toString10 n)"

definition claimed_status :: "json \<Rightarrow> int \<Rightarrow> claimStatus" where
  "claimed_status last1 now = (if (case member_Number (Some last1) of None \<Rightarrow> False | Some l \<Rightarrow> CLAIM_COOLDOWN_MS \<le> now - l)
     then \<lparr>cl_available = True, cl_nextClaimAt = JNull, cl_lastClaimAt = last1\<rparr>
     else \<lparr>cl_available = False, cl_nextClaimAt = js_plus last1 CLAIM_COOLDOWN_MS, cl_lastClaimAt = last1\<rparr>)"

definition service_now :: "'n serviceEnv \<Rightarrow> ('n, int) service" where
  "service_now S = outside (now_io (sv_clock S))"

definition getClaimStatus :: "'n serviceEnv \<Rightarrow> string \<Rightarrow> string \<Rightarrow> ('n, claimStatus) service" where
  "getClaimStatus S smartAccountAddress asset =
     io_bind loadClaims (\<lambda>rows.
     io_bind (io_res (entry_get rows (claimKey smartAccountAddress asset))) (\<lambda>last1.
     if \<not> json_truth last1 then io_return \<lparr>cl_available = True, cl_nextClaimAt = JNull, cl_lastClaimAt = JNull\<rparr>
     else io_bind (service_now S) (\<lambda>now. io_return (claimed_status (the last1) now))))"

fun statuses :: "'n serviceEnv \<Rightarrow> string \<Rightarrow> (string \<times> faucetSpec) list \<Rightarrow> ('n, (string \<times> faucetSpec \<times> claimStatus) list) service" where
  "statuses S smartAccountAddress [] = io_return []"
| "statuses S smartAccountAddress ((asset, spec) # specs) =
     io_bind (getClaimStatus S smartAccountAddress asset) (\<lambda>st.
     io_bind (statuses S smartAccountAddress specs) (\<lambda>rest. io_return ((asset, spec, st) # rest)))"

definition listFaucetStatus :: "'n serviceEnv \<Rightarrow> string \<Rightarrow> ('n, (string \<times> faucetSpec \<times> claimStatus) list) service" where
  "listFaucetStatus S smartAccountAddress = statuses S smartAccountAddress LIMITS"

text \<open>The first piece of a claim.\<close>

definition checkClaim :: "'n treasury \<Rightarrow> string \<Rightarrow> string \<Rightarrow> ('n, faucetSpec) service" where
  "checkClaim T normalized asset =
     (if \<not> startsWith ''C'' normalized then io_throw (Refused ''Smart account address required'')
      else case faucetLimit asset of None \<Rightarrow> io_throw (Refused ''Unsupported faucet asset'')
      | Some spec \<Rightarrow> io_bind (getClaimStatus (ty_service T) normalized asset) (\<lambda>status.
          if \<not> cl_available status then io_throw (Refused ''Claim available once every 24 hours per asset'')
          else io_return spec))"

definition configured_transfer ::
  "'n treasury \<Rightarrow> string option \<Rightarrow> js_error \<Rightarrow> string \<Rightarrow> faucetSpec \<Rightarrow> string \<Rightarrow> ('n, string option) io" where
  "configured_transfer T sacId missing normalized spec label1 = (case sacId of None \<Rightarrow> io_throw missing
     | Some id1 \<Rightarrow> io_bind (sacTransferForFaucet T id1 normalized (fs_amount spec) label1) (\<lambda>h. io_return (Some h)))"

text \<open>The second one: a transfer of the asset, none for a name that has no branch.\<close>

definition payClaim :: "'n treasury \<Rightarrow> string \<Rightarrow> string \<Rightarrow> faucetSpec \<Rightarrow> ('n, string option) io" where
  "payClaim T normalized asset spec = (let S = ty_service T in
     if asset = ''usdc'' then configured_transfer T (env_or S [''VITE_USDC_SAC_ID'', ''USDC_SAC_ID'']) (Refused ''USDC SAC not configured'') normalized spec ''USDC''
     else if asset = ''eurc'' then configured_transfer T (env_or S [''VITE_EURC_SAC_ID'', ''EURC_SAC_ID'']) (Refused ''EURC SAC not configured'') normalized spec ''EURC''
     else if asset = ''xlm'' then configured_transfer T (env_or S [''VITE_NATIVE_SAC_ID'', ''NATIVE_SAC_ID'']) (Refused ''Native XLM SAC not configured'') normalized spec ''XLM''
     else if asset = ''treasury'' then (case env_or S [''RWA_TOKEN_ID'', ''VITE_RWA_TOKEN_ID''] of
         None \<Rightarrow> io_throw (Refused ''RWA token not configured'')
       | Some tokenId \<Rightarrow> io_bind (adminMintTreasury S tokenId normalized (fs_amount spec)) (\<lambda>h. io_return (Some h)))
     else io_return None)"

record claimResult =
  cr_asset :: string
  cr_amount :: "string option"
  cr_txHash :: "string option"
  cr_smartAccountAddress :: string
  cr_nextClaimAt :: int

text \<open>The third one.\<close>

definition recordClaim :: "'n serviceEnv \<Rightarrow> string \<Rightarrow> string \<Rightarrow> faucetSpec \<Rightarrow> string option \<Rightarrow> ('n, claimResult) service" where
  "recordClaim S normalized asset spec txHash =
     io_bind loadClaims (\<lambda>rows.
     io_bind (service_now S) (\<lambda>now.
     io_bind (io_res (set_member rows (claimKey normalized asset) (JNum now))) (\<lambda>rows'.
     io_bind (saveClaims rows') (\<lambda>u.
     io_bind (service_now S) (\<lambda>later.
       io_return \<lparr>cr_asset = asset, cr_amount = fs_label spec, cr_txHash = txHash, cr_smartAccountAddress = normalized,
         cr_nextClaimAt = later + CLAIM_COOLDOWN_MS\<rparr>)))))"

definition claimTestnetFunds :: "'n treasury \<Rightarrow> string \<Rightarrow> string \<Rightarrow> ('n, claimResult) service" where
  "claimTestnetFunds T smartAccountAddress asset = (let normalized = trim smartAccountAddress in
     io_bind (checkClaim T normalized asset) (\<lambda>spec.
     io_bind (outside (payClaim T normalized asset spec)) (\<lambda>txHash.
       recordClaim (ty_service T) normalized asset spec txHash)))"

text \<open>
  The service runs in one thread, so a claim is interrupted only while it waits for its transfer. Its turns
  are the three pieces; \<^verbatim>\<open>claim_turns\<close> takes the turns of several claims in a given order, over the
  same file and the same network.
\<close>

datatype claimPhase = Asked string string | Checked string string faucetSpec
  | PaidOut string string faucetSpec "string option" | Answered "js_error + claimResult"

type_synonym 'n claimWorld = "files \<times> 'n"

definition next_phase :: "((js_error + 'a) \<times> 'n claimWorld) option \<Rightarrow> ('a \<Rightarrow> claimPhase) \<Rightarrow> (claimPhase \<times> 'n claimWorld) option" where
  "next_phase answer go = map_option (\<lambda>(r, w). (case r of Inl e \<Rightarrow> Answered (Inl e) | Inr x \<Rightarrow> go x, w)) answer"

fun claim_turn :: "'n treasury \<Rightarrow> claimPhase \<Rightarrow> 'n claimWorld \<Rightarrow> (claimPhase \<times> 'n claimWorld) option" where
  "claim_turn T (Asked address1 asset) w = next_phase (checkClaim T (trim address1) asset w) (Checked (trim address1) asset)"
| "claim_turn T (Checked normalized asset spec) w =
     next_phase (outside (payClaim T normalized asset spec) w) (PaidOut normalized asset spec)"
| "claim_turn T (PaidOut normalized asset spec txHash) w =
     next_phase (recordClaim (ty_service T) normalized asset spec txHash w) (\<lambda>r. Answered (Inr r))"
| "claim_turn T (Answered r) w = Some (Answered r, w)"

fun claim_turns :: "'n treasury \<Rightarrow> nat list \<Rightarrow> claimPhase list \<Rightarrow> 'n claimWorld \<Rightarrow> (claimPhase list \<times> 'n claimWorld) option" where
  "claim_turns T [] claims w = Some (claims, w)"
| "claim_turns T (i # order) claims w = (case claim_turn T (claims ! i) w of None \<Rightarrow> None
     | Some (c, w') \<Rightarrow> claim_turns T order (claims[i := c]) w')"

section \<open>Requests\<close>

definition mainnet :: "'n serviceEnv \<Rightarrow> bool" where
  "mainnet S \<longleftrightarrow> sv_env S ''STELLAR_NETWORK_NAME'' = Some ''mainnet''"

definition claim_json :: "claimResult \<Rightarrow> (string \<times> json) list" where
  "claim_json r = [(''asset'', JStr (cr_asset r))] @ opt_text ''amount'' (cr_amount r) @ opt_text ''txHash'' (cr_txHash r)
     @ [(''smartAccountAddress'', JStr (cr_smartAccountAddress r)), (''nextClaimAt'', JNum (cr_nextClaimAt r))]"

definition status_json :: "string \<times> faucetSpec \<times> claimStatus \<Rightarrow> string \<times> json" where
  "status_json = (\<lambda>(asset, spec, st). (asset, JObj ([(''amount'', JStr (fs_amount spec))] @ opt_text ''label'' (fs_label spec)
     @ [(''available'', JBool (cl_available st)), (''nextClaimAt'', cl_nextClaimAt st), (''lastClaimAt'', cl_lastClaimAt st)])))"

definition get_faucet_status :: "'n serviceEnv \<Rightarrow> json \<Rightarrow> ('n, reply) service" where
  "get_faucet_status S query = (let smartAccountAddress = text_param query ''smartAccountAddress'' [] in
     if \<not> startsWith ''C'' smartAccountAddress then io_return (error_reply 400 ''smartAccountAddress query param required'')
     else if mainnet S then io_return (error_reply 403 ''Testnet faucet only'')
     else io_bind (listFaucetStatus S smartAccountAddress) (\<lambda>assets.
       io_return (ok_reply [(''smartAccountAddress'', JStr smartAccountAddress), (''assets'', JObj (map status_json assets))])))"

definition post_faucet_claim :: "'n treasury \<Rightarrow> json \<Rightarrow> ('n, reply) service" where
  "post_faucet_claim T body =
     (let smartAccountAddress = text_param body ''smartAccountAddress'' []; asset = map lower (text_param body ''asset'' []) in
      if \<not> startsWith ''C'' smartAccountAddress then io_return (error_reply 400 ''smartAccountAddress required'')
      else if mainnet (ty_service T) then io_return (error_reply 403 ''Testnet faucet only'')
      else or_reply (claimTestnetFunds T smartAccountAddress asset)
        (\<lambda>e. error_reply (if contains (message e) ''24 hours'' then 429 else 503) (message e))
        (\<lambda>r. io_return (ok_reply (claim_json r))))"

section \<open>The limit of relayer requests\<close>

definition WINDOW_MS :: int where "WINDOW_MS = 60000"

definition MAX_REQUESTS :: nat where "MAX_REQUESTS = 30"

record bucket =
  bk_startedAt :: int
  bk_count :: nat

record relayerRequest =
  rr_forwarded :: "string option"
  rr_remote :: "string option"

definition clientKey :: "relayerRequest \<Rightarrow> string" where
  "clientKey req = (if truthy (rr_forwarded req) then trim (hd (split_on (CHR '','') (the (rr_forwarded req))))
     else given (text_or (rr_remote req) None) ''unknown'')"

definition stepBucket :: "int \<Rightarrow> bucket option \<Rightarrow> bool \<times> bucket" where
  "stepBucket now entry = (case entry of None \<Rightarrow> (True, \<lparr>bk_startedAt = now, bk_count = 1\<rparr>)
     | Some e \<Rightarrow> if WINDOW_MS < now - bk_startedAt e then (True, \<lparr>bk_startedAt = now, bk_count = 1\<rparr>)
         else if MAX_REQUESTS \<le> bk_count e then (False, e) else (True, e\<lparr>bk_count := bk_count e + 1\<rparr>))"

type_synonym buckets = "(string \<times> bucket) list"

definition allowRelayerRequest :: "relayerRequest \<Rightarrow> int \<Rightarrow> buckets \<Rightarrow> bool \<times> buckets" where
  "allowRelayerRequest req now buckets = (let key = clientKey req in
     case stepBucket now (map_of buckets key) of (ok, e) \<Rightarrow> (ok, put key e buckets))"

text \<open>A run of requests with their times: those of a client that pass.\<close>

fun passed :: "string \<Rightarrow> buckets \<Rightarrow> (relayerRequest \<times> int) list \<Rightarrow> int list" where
  "passed key buckets [] = []"
| "passed key buckets ((req, now) # reqs) = (case allowRelayerRequest req now buckets of (ok, buckets') \<Rightarrow>
     (if ok \<and> clientKey req = key then [now] else []) @ passed key buckets' reqs)"

section \<open>Properties of claims\<close>

definition claim_last :: "files \<Rightarrow> string \<Rightarrow> string \<Rightarrow> json option res" where
  "claim_last fs address1 asset = entry_get (file_json fs CLAIMS_PATH (JObj [])) (claimKey address1 asset)"

definition claim_free :: "'n serviceEnv \<Rightarrow> files \<Rightarrow> 'n \<Rightarrow> string \<Rightarrow> string \<Rightarrow> bool" where
  "claim_free S fs n address1 asset \<longleftrightarrow> (\<exists>last1. claim_last fs address1 asset = Inr last1
     \<and> (\<not> json_truth last1 \<or> cl_available (claimed_status (the last1) (fst (sv_clock S n)))))"

lemma service_now_apply [io_simps]: "service_now S (fs, n) = Some (Inr (fst (sv_clock S n)), (fs, snd (sv_clock S n)))"
  by (simp add: service_now_def outside_def net_io_def now_io_def split: prod.split)

lemma checkClaim_iff: "(\<exists>w'. checkClaim T address1 asset (fs, n) = Some (Inr spec, w')) \<longleftrightarrow>
    startsWith ''C'' address1 \<and> faucetLimit asset = Some spec \<and> claim_free (ty_service T) fs n address1 asset"
  by (cases "claim_last fs address1 asset")
    (auto simp: checkClaim_def getClaimStatus_def loadClaims_def claim_free_def claim_last_def io_simps split: option.splits)

lemma checkClaim_free: "checkClaim T address1 asset (fs, n) = Some (Inr spec, w') \<Longrightarrow>
    startsWith ''C'' address1 \<and> faucetLimit asset = Some spec \<and> claim_free (ty_service T) fs n address1 asset"
  by (rule checkClaim_iff[THEN iffD1], rule exI)

lemma checkClaim_files: "checkClaim T address1 asset (fs, n) = Some (r, (fs', n')) \<Longrightarrow> fs' = fs"
  by (auto simp: checkClaim_def getClaimStatus_def loadClaims_def io_simps split: option.splits if_splits sum.splits)

lemma claim_run:
  assumes "claimTestnetFunds T a asset (fs, n) = Some (Inr r, (fs', n'))"
  shows "\<exists>t m rows. t = fst (sv_clock (ty_service T) m) \<and> claim_free (ty_service T) fs n (trim a) asset
    \<and> set_member (file_json fs CLAIMS_PATH (JObj [])) (claimKey (trim a) asset) (JNum t) = Inr rows
    \<and> fs' = put CLAIMS_PATH (pretty rows) fs"
proof -
  from assms obtain spec fs1 n1 h m where c: "checkClaim T (trim a) asset (fs, n) = Some (Inr spec, (fs1, n1))"
    and r: "recordClaim (ty_service T) (trim a) asset spec h (fs1, m) = Some (Inr r, (fs', n'))"
    by (auto simp: claimTestnetFunds_def run_iff Let_def)
  have "fs1 = fs" using checkClaim_files[OF c] .
  moreover have "claim_free (ty_service T) fs n (trim a) asset" using checkClaim_free[OF c] by simp
  ultimately show ?thesis using r
    by (auto simp: recordClaim_def loadClaims_def saveClaims_def run_iff load_json_apply save_json_apply service_now_apply)
qed

text \<open>
  C22: After a claim, the next one of the same account and asset that succeeds, however the address is
  written, begins at least a day after the time that was entered for the first.
\<close>

theorem claim_keeps_distance:
  assumes "claimTestnetFunds T a asset (fs, n) = Some (Inr r, (fs', n'))" and "\<forall>m. 0 < fst (sv_clock (ty_service T) m)"
    and "file_json fs CLAIMS_PATH (JObj []) = JObj kvs" and "json_wf (JObj kvs)"
  shows "\<exists>t m. t = fst (sv_clock (ty_service T) m) \<and> claim_last fs' (trim a) asset = Inr (Some (JNum t))
    \<and> (\<forall>b k r' w. claimKey (trim b) asset = claimKey (trim a) asset
         \<longrightarrow> claimTestnetFunds T b asset (fs', k) = Some (Inr r', w) \<longrightarrow> t + CLAIM_COOLDOWN_MS \<le> fst (sv_clock (ty_service T) k))"
proof -
  let ?key = "claimKey (trim a) asset"
  from claim_run[OF assms(1)] assms(3) obtain t m where t: "t = fst (sv_clock (ty_service T) m)"
    and fs': "fs' = put CLAIMS_PATH (pretty (JObj (put ?key (JNum t) kvs))) fs" by (auto simp: set_member_def)
  have "good_row (JObj (put ?key (JNum t) kvs))" using assms(4) by (intro good_row_put) (simp_all add: good_row_def)
  then have "json_wf (JObj (put ?key (JNum t) kvs))" by (simp only: good_row_def)
  then have "file_json fs' CLAIMS_PATH (JObj []) = JObj (put ?key (JNum t) kvs)" unfolding fs' by (simp only: file_json_saved simp_thms if_True)
  then have l: "claim_last fs' (trim b) asset = Inr (Some (JNum t))" if "claimKey (trim b) asset = ?key" for b
    using that by (simp add: claim_last_def entry_get_def map_of_put)
  have "t + CLAIM_COOLDOWN_MS \<le> fst (sv_clock (ty_service T) k)"
    if key: "claimKey (trim b) asset = ?key" and run: "claimTestnetFunds T b asset (fs', k) = Some (Inr r', w)" for b k r' w
  proof -
    have "claim_free (ty_service T) fs' k (trim b) asset" using claim_run[of T b asset fs' k r' "fst w" "snd w"] run by auto
    moreover have "json_truth (Some (JNum t))" using assms(2) t by (simp add: less_imp_neq[symmetric])
    ultimately show ?thesis by (simp add: claim_free_def l[OF key] claimed_status_def member_Number_def split: if_splits)
  qed
  with t l[of a] show ?thesis by blast
qed

text \<open>A claim whose turns follow one another is the function.\<close>

lemma next_phase_simps [simp]: "next_phase None go = None" "next_phase (Some (Inl e, w)) go = Some (Answered (Inl e), w)"
  "next_phase (Some (Inr x, w)) go = Some (go x, w)"
  by (simp_all add: next_phase_def)

lemma claim_turns_whole: "claim_turns T [0, 0, 0] [Asked a asset] w
    = map_option (\<lambda>(r, w'). ([Answered r], w')) (claimTestnetFunds T a asset w)"
proof (cases "checkClaim T (trim a) asset w")
  case None
  then show ?thesis by (simp add: claimTestnetFunds_def Let_def io_bind_apply)
next
  case (Some x)
  obtain r1 w1 where c: "checkClaim T (trim a) asset w = Some (r1, w1)" using Some by (cases x) simp
  show ?thesis
  proof (cases r1)
    case (Inr spec)
    show ?thesis
    proof (cases "outside (payClaim T (trim a) asset spec) w1")
      case (Some y)
      obtain r2 w2 where p: "outside (payClaim T (trim a) asset spec) w1 = Some (r2, w2)" using Some by (cases y) simp
      show ?thesis
      proof (cases r2)
        case Paid: (Inr h)
        show ?thesis
        proof (cases "recordClaim (ty_service T) (trim a) asset spec h w2")
          case (Some z)
          then show ?thesis using c p Inr Paid
            by (cases z; cases "fst z") (simp_all add: claimTestnetFunds_def Let_def io_bind_apply)
        qed (use c p Inr Paid in \<open>simp add: claimTestnetFunds_def Let_def io_bind_apply\<close>)
      qed (use c p Inr in \<open>simp add: claimTestnetFunds_def Let_def io_bind_apply\<close>)
    qed (use c Inr in \<open>simp add: claimTestnetFunds_def Let_def io_bind_apply\<close>)
  qed (use c in \<open>simp add: claimTestnetFunds_def Let_def io_bind_apply\<close>)
qed

lemma checkClaim_passes:
  assumes "startsWith ''C'' address1" and "faucetLimit asset = Some spec" and "claim_free (ty_service T) fs n address1 asset"
  shows "\<exists>m. m \<in> {n, snd (sv_clock (ty_service T) n)} \<and> checkClaim T address1 asset (fs, n) = Some (Inr spec, (fs, m))"
proof -
  from assms(3) obtain last1 where l: "claim_last fs address1 asset = Inr last1"
    and f: "\<not> json_truth last1 \<or> cl_available (claimed_status (the last1) (fst (sv_clock (ty_service T) n)))"
    by (auto simp: claim_free_def)
  show ?thesis
    using assms(1,2) l f
    by (cases "json_truth last1")
      (auto simp: checkClaim_def getClaimStatus_def loadClaims_def claim_last_def io_bind_apply load_json_apply io_res_def
        service_now_apply io_return_apply)
qed

lemma checkClaim_early:
  assumes "startsWith ''C'' address1" and "faucetLimit asset = Some spec" and "claim_last fs address1 asset = Inr (Some (JNum t))"
    and "t \<noteq> 0" and "fst (sv_clock (ty_service T) n) < t + CLAIM_COOLDOWN_MS"
  shows "checkClaim T address1 asset (fs, n)
    = Some (Inl (Refused ''Claim available once every 24 hours per asset''), (fs, snd (sv_clock (ty_service T) n)))"
  using assms
  by (simp add: checkClaim_def getClaimStatus_def loadClaims_def claim_last_def io_simps claimed_status_def member_Number_def)

lemma recordClaim_runs:
  assumes "file_json fs CLAIMS_PATH (JObj []) = JObj kvs" and "json_wf (JObj kvs)"
  shows "\<exists>r fs' n' kvs'. recordClaim S address1 asset spec h (fs, n) = Some (Inr r, (fs', n')) \<and> cr_txHash r = h
    \<and> claim_last fs' address1 asset = Inr (Some (JNum (fst (sv_clock S n))))
    \<and> file_json fs' CLAIMS_PATH (JObj []) = JObj kvs' \<and> json_wf (JObj kvs')"
proof -
  let ?rows = "put (claimKey address1 asset) (JNum (fst (sv_clock S n))) kvs"
  have "good_row (JObj ?rows)" using assms(2) by (intro good_row_put) (simp_all add: good_row_def)
  then have wf: "json_wf (JObj ?rows)" by (simp only: good_row_def)
  then have f: "file_json (put CLAIMS_PATH (pretty (JObj ?rows)) fs) CLAIMS_PATH (JObj []) = JObj ?rows"
    by (simp only: file_json_saved simp_thms if_True)
  then have "claim_last (put CLAIMS_PATH (pretty (JObj ?rows)) fs) address1 asset = Inr (Some (JNum (fst (sv_clock S n))))"
    by (simp add: claim_last_def entry_get_def map_of_put)
  with f wf assms(1) show ?thesis
    by (simp add: recordClaim_def loadClaims_def saveClaims_def io_bind_apply load_json_apply save_json_apply service_now_apply
        set_member_def io_res_def io_return_apply)
qed

lemma claim_free_later: "claim_free S fs n address1 asset \<Longrightarrow> fst (sv_clock S n) \<le> fst (sv_clock S m) \<Longrightarrow> claim_free S fs m address1 asset"
  by (fastforce simp: claim_free_def claimed_status_def split: option.splits if_splits)

lemma paid_outside: "payClaim T address1 asset spec m = Some (Inr h, m') \<Longrightarrow>
    outside (payClaim T address1 asset spec) (fs, m) = Some (Inr h, (fs, m'))"
  by (simp add: outside_def net_io_def)

text \<open>
  C23: Two requests of the same account and asset that is free to claim are both paid, one transfer after
  the other, and both answered with success when each waits for its transfer while the other has its turn; run
  to its end before the second begins, the first one, which then is the function itself, has the second
  refused for a day.
\<close>

theorem claims_race:
  assumes "startsWith ''C'' (trim a)" and "faucetLimit asset = Some spec" and "claim_free (ty_service T) fs n (trim a) asset"
    and "file_json fs CLAIMS_PATH (JObj []) = JObj kvs" and "json_wf (JObj kvs)"
    and "\<forall>m. \<exists>h m'. payClaim T (trim a) asset spec m = Some (Inr h, m')"
    and "\<forall>m. 0 < fst (sv_clock (ty_service T) m) \<and> fst (sv_clock (ty_service T) m) \<le> fst (sv_clock (ty_service T) (snd (sv_clock (ty_service T) m)))"
  shows "(\<exists>r1 r2 m m1 m2 w'. claim_turns T [0, 1, 0, 1, 0, 1] [Asked a asset, Asked a asset] (fs, n)
        = Some ([Answered (Inr r1), Answered (Inr r2)], w')
      \<and> payClaim T (trim a) asset spec m = Some (Inr (cr_txHash r1), m1)
      \<and> payClaim T (trim a) asset spec m1 = Some (Inr (cr_txHash r2), m2))
    \<and> (\<exists>r1 fs1 n1 t. claimTestnetFunds T a asset (fs, n) = Some (Inr r1, (fs1, n1))
      \<and> claim_turns T [0, 0, 0] [Asked a asset, Asked a asset] (fs, n) = Some ([Answered (Inr r1), Asked a asset], (fs1, n1))
      \<and> claim_last fs1 (trim a) asset = Inr (Some (JNum t))
      \<and> (fst (sv_clock (ty_service T) n1) < t + CLAIM_COOLDOWN_MS \<longrightarrow>
         (\<exists>w'. claim_turns T [1, 1, 1] [Answered (Inr r1), Asked a asset] (fs1, n1)
           = Some ([Answered (Inr r1), Answered (Inl (Refused ''Claim available once every 24 hours per asset''))], w'))))"
    (is "?both \<and> ?serial")
proof
  let ?S = "ty_service T"
  obtain m where c1: "checkClaim T (trim a) asset (fs, n) = Some (Inr spec, (fs, m))" and m: "m \<in> {n, snd (sv_clock ?S n)}"
    using checkClaim_passes[OF assms(1-3)] by blast
  have free: "claim_free ?S fs m (trim a) asset" 
  proof (cases "m = n")
    case False
    then have "m = snd (sv_clock ?S n)" using m by simp
    with assms(7) show ?thesis by (simp add: claim_free_later[OF assms(3)])
  qed (simp add: assms(3))
  obtain m' where c2: "checkClaim T (trim a) asset (fs, m) = Some (Inr spec, (fs, m'))"
    using checkClaim_passes[OF assms(1,2) free] by blast
  obtain h1 m1 where p1: "payClaim T (trim a) asset spec m' = Some (Inr h1, m1)" using assms(6) by blast
  obtain h2 m2 where p2: "payClaim T (trim a) asset spec m1 = Some (Inr h2, m2)" using assms(6) by blast
  obtain r1 fs1 n1 kvs1 where e1: "recordClaim ?S (trim a) asset spec h1 (fs, m2) = Some (Inr r1, (fs1, n1))" "cr_txHash r1 = h1"
    and f1: "file_json fs1 CLAIMS_PATH (JObj []) = JObj kvs1" "json_wf (JObj kvs1)"
    using recordClaim_runs[OF assms(4,5), of ?S "trim a" asset spec h1 m2] by (elim exE conjE)
  obtain r2 w2 where e2: "recordClaim ?S (trim a) asset spec h2 (fs1, n1) = Some (Inr r2, w2)" "cr_txHash r2 = h2"
    using recordClaim_runs[OF f1, of ?S "trim a" asset spec h2 n1] by (elim exE conjE)
  have "claim_turns T [0, 1, 0, 1, 0, 1] [Asked a asset, Asked a asset] (fs, n) = Some ([Answered (Inr r1), Answered (Inr r2)], w2)"
    by (simp add: c1 c2 paid_outside[OF p1] paid_outside[OF p2] e1(1) e2(1))
  with p1 p2 e1(2) e2(2) show ?both by blast
  obtain h m3 where p: "payClaim T (trim a) asset spec m = Some (Inr h, m3)" using assms(6) by blast
  obtain r fs' n' where e: "recordClaim ?S (trim a) asset spec h (fs, m3) = Some (Inr r, (fs', n'))"
    and l: "claim_last fs' (trim a) asset = Inr (Some (JNum (fst (sv_clock ?S m3))))" 
    using recordClaim_runs[OF assms(4,5), of ?S "trim a" asset spec h m3] by (elim exE conjE)
  have "claimTestnetFunds T a asset (fs, n) = Some (Inr r, (fs', n'))"
    by (simp add: claimTestnetFunds_def Let_def io_bind_apply c1 paid_outside[OF p] e)
  moreover have "claim_turns T [0, 0, 0] [Asked a asset, Asked a asset] (fs, n) = Some ([Answered (Inr r), Asked a asset], (fs', n'))"
    by (simp add: c1 paid_outside[OF p] e)
  moreover have "\<exists>w'. claim_turns T [1, 1, 1] [Answered (Inr r), Asked a asset] (fs', n')
      = Some ([Answered (Inr r), Answered (Inl (Refused ''Claim available once every 24 hours per asset''))], w')"
    if early: "fst (sv_clock ?S n') < fst (sv_clock ?S m3) + CLAIM_COOLDOWN_MS"
  proof -
    have "fst (sv_clock ?S m3) \<noteq> 0" using assms(7) by (metis less_irrefl)
    from checkClaim_early[OF assms(1,2) l this early] show ?thesis by simp
  qed
  ultimately show ?serial using l by blast
qed

section \<open>Properties of the limit\<close>

text \<open>The requests of one client alone.\<close>

fun passed_alone :: "bucket option \<Rightarrow> int list \<Rightarrow> int list" where
  "passed_alone entry [] = []"
| "passed_alone entry (now # ts) = (case stepBucket now entry of (ok, e) \<Rightarrow>
     (if ok then [now] else []) @ passed_alone (Some e) ts)"

lemma passed_own: "passed key buckets reqs = passed_alone (map_of buckets key) (map snd (filter (\<lambda>(req, now). clientKey req = key) reqs))"
  by (induction key buckets reqs rule: passed.induct)
    (auto simp: allowRelayerRequest_def Let_def map_of_put split: prod.splits)

lemma passed_window: "(\<forall>t \<in> set ts. t \<le> bk_startedAt e + WINDOW_MS) \<Longrightarrow> length (passed_alone (Some e) ts) \<le> MAX_REQUESTS - bk_count e"
proof (induction ts arbitrary: e)
  case (Cons t ts)
  show ?case
  proof (cases "MAX_REQUESTS \<le> bk_count e")
    case True
    with Cons.IH[of e] Cons.prems show ?thesis by (simp add: stepBucket_def)
  next
    case False
    with Cons.IH[of "e\<lparr>bk_count := bk_count e + 1\<rparr>"] Cons.prems show ?thesis by (simp add: stepBucket_def)
  qed
qed simp

lemma passed_two_windows: "sorted ts \<Longrightarrow> (\<forall>t \<in> set ts. a \<le> t \<and> t \<le> a + WINDOW_MS) \<Longrightarrow>
    length (passed_alone (Some e) ts) \<le> (MAX_REQUESTS - bk_count e) + MAX_REQUESTS"
proof (induction ts arbitrary: e)
  case (Cons t ts)
  consider "WINDOW_MS < t - bk_startedAt e" | "\<not> WINDOW_MS < t - bk_startedAt e" "MAX_REQUESTS \<le> bk_count e"
    | "\<not> WINDOW_MS < t - bk_startedAt e" "bk_count e < MAX_REQUESTS" by linarith
  then show ?case
  proof cases
    case 1
    have "length (passed_alone (Some \<lparr>bk_startedAt = t, bk_count = 1\<rparr>) ts) \<le> MAX_REQUESTS - 1"
      using passed_window[of ts "\<lparr>bk_startedAt = t, bk_count = 1\<rparr>"] Cons.prems by fastforce
    with 1 show ?thesis by (simp add: stepBucket_def MAX_REQUESTS_def)
  next
    case 2
    with Cons.IH[of e] Cons.prems show ?thesis by (simp add: stepBucket_def)
  next
    case 3
    have "length (passed_alone (Some (e\<lparr>bk_count := bk_count e + 1\<rparr>)) ts) \<le> (MAX_REQUESTS - (bk_count e + 1)) + MAX_REQUESTS"
      using Cons.IH[of "e\<lparr>bk_count := bk_count e + 1\<rparr>"] Cons.prems by simp
    with 3 show ?thesis by (simp add: stepBucket_def)
  qed
qed simp

text \<open>
  C25: Of the requests of a client that come in within a minute, in the order of their times, at most
  sixty pass, whatever came before and whoever else asks.
\<close>

theorem relayer_limit:
  assumes "sorted (map snd reqs)" and "\<forall>(req, now) \<in> set reqs. a \<le> now \<and> now \<le> a + WINDOW_MS"
  shows "length (passed key buckets reqs) \<le> 2 * MAX_REQUESTS"
proof -
  define ts where "ts = map snd (filter (\<lambda>(req, now). clientKey req = key) reqs)"
  have s: "sorted ts" unfolding ts_def using assms(1) sorted_filter by blast
  have r: "\<forall>t \<in> set ts. a \<le> t \<and> t \<le> a + WINDOW_MS" using assms(2) by (auto simp: ts_def)
  have "length (passed_alone entry ts) \<le> 2 * MAX_REQUESTS" for entry
  proof (cases entry)
    case (Some e)
    then show ?thesis using passed_two_windows[OF s r, of e] by (simp add: MAX_REQUESTS_def)
  next
    case None
    then have "passed_alone entry ts = passed_alone (Some \<lparr>bk_startedAt = a - WINDOW_MS - 1, bk_count = 0\<rparr>) ts"
      using r by (cases ts) (simp_all add: stepBucket_def)
    with passed_two_windows[OF s r, of "\<lparr>bk_startedAt = a - WINDOW_MS - 1, bk_count = 0\<rparr>"] show ?thesis by simp
  qed
  then show ?thesis unfolding passed_own ts_def .
qed

text \<open>A client is told apart by a header it writes itself: with a new name for each request it is never refused.\<close>

lemma new_name_passes: "map_of buckets (clientKey req) = None \<Longrightarrow> fst (allowRelayerRequest req now buckets)"
  by (simp add: allowRelayerRequest_def Let_def stepBucket_def)

section \<open>A demonstration\<close>

lemma demo_amount: "toString10 100000000 = ''100000000''"
  by (simp add: toString10_def digits_of.simps[of 10] hex_digit_def digit_chars)

lemma demo_limit: "faucetLimit ''usdc'' = Some \<lparr>fs_amount = ''100000000'', fs_label = Some ''10 USDC''\<rparr>"
  by (simp add: faucetLimit_def LIMITS_def)

lemma demo_pays: "outside (payClaim demo_treasury ''CAB'' ''usdc'' \<lparr>fs_amount = ''100000000'', fs_label = Some ''10 USDC''\<rparr>) (fs, n)
    = Some (Inr (Some ''h''), (fs, n + 5))"
  using demo_transfer[of 100000000 "''U''" "''CAB''" "''USDC''" n, unfolded demo_amount]
  by (simp add: payClaim_def configured_transfer_def env_or_def text_or_def truthy_def outside_def net_io_def io_bind_apply io_return_apply)

lemma demo_checked: "checkClaim demo_treasury ''CAB'' ''usdc'' ([], n)
    = Some (Inr \<lparr>fs_amount = ''100000000'', fs_label = Some ''10 USDC''\<rparr>, ([], n))"
  by (simp add: checkClaim_def startsWith_def demo_limit getClaimStatus_def loadClaims_def io_bind_apply load_json_apply io_res_def
      file_json_def entry_get_def io_return_apply)

theorem claim_keeps_distance_witness:
  "\<exists>r fs' n' t. claimTestnetFunds demo_treasury ''CAB'' ''usdc'' ([], 5) = Some (Inr r, (fs', n'))
    \<and> claim_last fs' ''CAB'' ''usdc'' = Inr (Some (JNum t))
    \<and> (\<forall>k r' w. claimTestnetFunds demo_treasury ''CAB'' ''usdc'' (fs', k) = Some (Inr r', w) \<longrightarrow> t + 86400000 \<le> max 1 k)"
proof -
  have t: "trim ''CAB'' = ''CAB''" by (rule trim_id) (simp_all add: js_space_def)
  obtain r fs' n' where run: "claimTestnetFunds demo_treasury ''CAB'' ''usdc'' ([], 5) = Some (Inr r, (fs', n'))"
    by (simp add: claimTestnetFunds_def t Let_def io_bind_apply demo_checked demo_pays recordClaim_def loadClaims_def load_json_apply
        file_json_def set_member_def io_res_def saveClaims_def save_json_apply service_now_apply io_return_apply)
  have none: "file_json [] CLAIMS_PATH (JObj []) = JObj []" by (simp add: file_json_def)
  have clock: "\<forall>m. 0 < fst (sv_clock (ty_service demo_treasury) m)" by (simp add: less_max_iff_disj)
  obtain s where l: "claim_last fs' ''CAB'' ''usdc'' = Inr (Some (JNum s))" and d: "\<forall>b k r' w. claimKey (trim b) ''usdc'' = claimKey ''CAB'' ''usdc''
      \<longrightarrow> claimTestnetFunds demo_treasury b ''usdc'' (fs', k) = Some (Inr r', w) \<longrightarrow> s + 86400000 \<le> max 1 k"
    using claim_keeps_distance[OF run clock none] by (auto simp: t CLAIM_COOLDOWN_MS_def)
  have "\<forall>k r' w. claimTestnetFunds demo_treasury ''CAB'' ''usdc'' (fs', k) = Some (Inr r', w) \<longrightarrow> s + 86400000 \<le> max 1 k"
    using d[rule_format, of "''CAB''"] by (simp only: t simp_thms) blast
  with run l show ?thesis by (intro exI conjI)
qed

theorem claims_race_witness:
  "\<exists>r1 r2 w'. claim_turns demo_treasury [0, 1, 0, 1, 0, 1] [Asked ''CAB'' ''usdc'', Asked ''CAB'' ''usdc''] ([], 5)
    = Some ([Answered (Inr r1), Answered (Inr r2)], w')"
proof -
  have t: "trim ''CAB'' = ''CAB''" by (rule trim_id) (simp_all add: js_space_def)
  have none: "file_json [] CLAIMS_PATH (JObj []) = JObj []" by (simp add: file_json_def)
  have free: "startsWith ''C'' ''CAB''" "claim_free (ty_service demo_treasury) [] 5 ''CAB'' ''usdc''"
    using checkClaim_free[OF demo_checked[of 5]] by simp_all
  have pays: "\<forall>m. \<exists>h m'. payClaim demo_treasury ''CAB'' ''usdc'' \<lparr>fs_amount = ''100000000'', fs_label = Some ''10 USDC''\<rparr> m = Some (Inr h, m')"
  proof
    fix m :: int
    show "\<exists>h m'. payClaim demo_treasury ''CAB'' ''usdc'' \<lparr>fs_amount = ''100000000'', fs_label = Some ''10 USDC''\<rparr> m = Some (Inr h, m')"
      using demo_pays[of "[]" m] by (auto simp: outside_def net_io_def split: option.splits prod.splits)
  qed
  have clock: "\<forall>m. 0 < fst (sv_clock (ty_service demo_treasury) m) \<and>
      fst (sv_clock (ty_service demo_treasury) m) \<le> fst (sv_clock (ty_service demo_treasury) (snd (sv_clock (ty_service demo_treasury) m)))"
    by (simp add: less_max_iff_disj)
  from claims_race[of "''CAB''" "''usdc''", unfolded t, OF free(1) demo_limit free(2) none _ pays clock] show ?thesis by auto
qed

theorem relayer_limit_witness:
  "length (passed ''unknown'' [] (replicate 61 (\<lparr>rr_forwarded = None, rr_remote = None\<rparr>, 5))) \<le> 60"
  using relayer_limit[of "replicate 61 (\<lparr>rr_forwarded = None, rr_remote = None\<rparr>, 5)" 5 "''unknown''" "[]"]
  by (simp add: WINDOW_MS_def MAX_REQUESTS_def)

end
