(* ===== verification/IssuerRelay.thy ===== *)
theory IssuerRelay
  imports IssuerFaucet
begin

text \<open>
  Submitting for the users: the relayer (\<^verbatim>\<open>issuer-service/lib/relayer.js\<close>,
  \<^verbatim>\<open>relayerXdrNormalize.js\<close>) and registering a passkey
  (\<^verbatim>\<open>smartAccount.js\<close>). The relayer's client, the parsing and the building of
  transactions are parameters. Shown: which transactions are changed before they are relayed and to what,
  and that a registered passkey is on the ledger.
\<close>

section \<open>Transactions that are relayed\<close>

record sorobanTx =
  xt_source :: string
  xt_sequence :: string
  xt_fee :: string
  xt_operations :: "string list"
  xt_data :: "string option res"
  xt_memo :: string
  xt_invocation :: string

text \<open>\<^verbatim>\<open>xt_data\<close> is the resource fee of the Soroban data, when reading the envelope finds any.\<close>

record builderInput =
  bd_source :: string
  bd_sequence :: int
  bd_fee :: string
  bd_resourceFee :: string
  bd_memo :: string
  bd_invocation :: string

record 'n relayKit =
  rk_service :: "'n serviceEnv"
  rk_parse :: "string \<Rightarrow> string \<Rightarrow> sorobanTx res"
  rk_simulate :: "string \<Rightarrow> sorobanTx \<Rightarrow> 'n \<Rightarrow> simResponse res \<times> 'n"
  rk_assemble :: "sorobanTx \<Rightarrow> scval option \<Rightarrow> sorobanTx res"
  rk_build :: "builderInput \<Rightarrow> sorobanTx res"
  rk_signed :: "sorobanTx \<Rightarrow> string"
  rk_deployer :: string
  rk_submitXdr :: "string \<Rightarrow> string \<Rightarrow> string \<Rightarrow> 'n \<Rightarrow> json res \<times> 'n"
  rk_submitFunc :: "string \<Rightarrow> string \<Rightarrow> string \<Rightarrow> string list \<Rightarrow> 'n \<Rightarrow> json res \<times> 'n"

definition rk_env :: "'n relayKit \<Rightarrow> env" where
  "rk_env R = sv_env (rk_service R)"

definition env_trimmed :: "'n relayKit \<Rightarrow> string list \<Rightarrow> string \<Rightarrow> string" where
  "env_trimmed R names d = trim (given (env_or (rk_service R) names) d)"

definition resolveRpcUrl :: "'n relayKit \<Rightarrow> string" where
  "resolveRpcUrl R = env_trimmed R rpc_names ''https://soroban-testnet.stellar.org''"

definition resolveNetworkPassphrase :: "'n relayKit \<Rightarrow> string" where
  "resolveNetworkPassphrase R = env_trimmed R passphrase_names ''Test SDF Network ; September 2015''"

definition isSorobanInvokeTx :: "sorobanTx \<Rightarrow> bool" where
  "isSorobanInvokeTx tx \<longleftrightarrow> list_ex (\<lambda>op. op = ''invokeHostFunction'') (xt_operations tx)"

definition feesAlignedWithSorobanResource :: "sorobanTx \<Rightarrow> bool" where
  "feesAlignedWithSorobanResource tx \<longleftrightarrow> (case xt_data tx of Inr (Some resourceFee) \<Rightarrow> xt_fee tx = resourceFee | _ \<Rightarrow> False)"

definition realign :: "'n relayKit \<Rightarrow> sorobanTx \<Rightarrow> string res" where
  "realign R assembled =
     rbind (xt_data assembled) (\<lambda>d. case d of
         None \<Rightarrow> Inl (Refused ''Assembled Soroban transaction is missing extension data'')
       | Some resourceFee \<Rightarrow>
          case xt_operations assembled of [] \<Rightarrow> Inl (TypeError ''Cannot read properties of undefined'')
          | op # ops \<Rightarrow>
            if op \<noteq> ''invokeHostFunction'' then Inl (Refused ''Expected invokeHostFunction operation'')
            else rbind (BigInt_of (xt_sequence assembled)) (\<lambda>sequence.
              rbind (rk_build R \<lparr>bd_source = xt_source assembled, bd_sequence = sequence - 1, bd_fee = ''0'', bd_resourceFee = resourceFee,
                  bd_memo = xt_memo assembled, bd_invocation = xt_invocation assembled\<rparr>) (\<lambda>realigned.
                if \<not> feesAlignedWithSorobanResource realigned
                then Inl (Refused ''Failed to align Soroban transaction fee with resource fee'')
                else Inr (rk_signed R realigned))))"

definition normalizeSignedSorobanXdr :: "'n relayKit \<Rightarrow> string \<Rightarrow> ('n, string) io" where
  "normalizeSignedSorobanXdr R xdrBase64 = (let trimmed = trim xdrBase64 in
     if trimmed = [] then io_return trimmed
     else case rk_parse R trimmed (resolveNetworkPassphrase R) of Inl e \<Rightarrow> io_return trimmed
     | Inr tx \<Rightarrow>
       if \<not> isSorobanInvokeTx tx \<or> xt_source tx \<noteq> rk_deployer R \<or> feesAlignedWithSorobanResource tx then io_return trimmed
       else io_bind (io_call (rk_simulate R (resolveRpcUrl R) tx)) (\<lambda>sim. case sim of
           SimError e \<Rightarrow> io_throw (Refused (''Soroban simulation failed: '' @ e))
         | SimSuccess result \<Rightarrow> io_res (rbind (rk_assemble R tx result) (realign R))))"

section \<open>The relayer\<close>

definition isRelayerEnabled :: "'n relayKit \<Rightarrow> bool" where
  "isRelayerEnabled R \<longleftrightarrow> map lower (trim (given (rk_env R ''RELAYER_ENABLED'') [])) \<in> {''1'', ''true'', ''yes''}"

definition resolveChannelsBaseUrl :: "'n relayKit \<Rightarrow> string" where
  "resolveChannelsBaseUrl R = (let u = trim (given (text_or (rk_env R ''CHANNELS_BASE_URL'') None) []) in
     if u \<noteq> [] then u else ''https://channels.openzeppelin.com/testnet'')"

definition channelsApiKey :: "'n relayKit \<Rightarrow> string" where
  "channelsApiKey R = trim (given (text_or (rk_env R ''CHANNELS_API_KEY'') None) [])"

text \<open>The client is kept under the address and the first eight characters of the key.\<close>

type_synonym channelsClient = "string \<times> string"

type_synonym clientCache = "(string \<times> channelsClient) option"

definition on_cache :: "(clientCache \<Rightarrow> 'a \<times> clientCache) \<Rightarrow> (clientCache \<times> 'n, 'a) io" where
  "on_cache f = (\<lambda>(c, n). case f c of (a, c') \<Rightarrow> Some (Inr a, (c', n)))"

definition getChannelsClient :: "'n relayKit \<Rightarrow> (clientCache \<times> 'n, channelsClient) io" where
  "getChannelsClient R =
     (if \<not> isRelayerEnabled R then io_throw (Refused ''Relayer is disabled (RELAYER_ENABLED=false)'')
      else if channelsApiKey R = [] then io_throw (Refused ''CHANNELS_API_KEY is not configured'')
      else let baseUrl = resolveChannelsBaseUrl R; cacheKey = baseUrl @ '':'' @ take 8 (channelsApiKey R) in
        on_cache (\<lambda>c. case c of
            Some (k, client) \<Rightarrow> if k = cacheKey then (client, c) else ((baseUrl, channelsApiKey R), Some (cacheKey, (baseUrl, channelsApiKey R)))
          | None \<Rightarrow> ((baseUrl, channelsApiKey R), Some (cacheKey, (baseUrl, channelsApiKey R)))))"

record relayerState =
  rs_enabled :: bool
  rs_configured :: bool
  rs_baseUrl :: string

definition relayerStatus :: "'n relayKit \<Rightarrow> relayerState" where
  "relayerStatus R = \<lparr>rs_enabled = isRelayerEnabled R, rs_configured = channelsApiKey R \<noteq> [], rs_baseUrl = resolveChannelsBaseUrl R\<rparr>"

definition text_of :: "json \<Rightarrow> string \<Rightarrow> string" where
  "text_of body k = (case maybe_member (Some body) k of Some (JStr s) \<Rightarrow> trim s | _ \<Rightarrow> [])"

definition texts_of :: "json \<Rightarrow> string \<Rightarrow> string list" where
  "texts_of body k = (case maybe_member (Some body) k of
       Some (JArr xs) \<Rightarrow> List.map_filter (\<lambda>x. case x of JStr s \<Rightarrow> if trim s \<noteq> [] then Some s else None | _ \<Rightarrow> None) xs
     | _ \<Rightarrow> [])"

definition relayed :: "json \<Rightarrow> (string \<times> json) list res" where
  "relayed result = rbind (entry_get result ''transactionId'') (\<lambda>i. rbind (entry_get result ''hash'') (\<lambda>h.
     rmap (\<lambda>s. [(''success'', JBool True)] @ opt_member ''transactionId'' i @ opt_member ''hash'' h @ opt_member ''status'' s)
       (entry_get result ''status'')))"

definition submitViaChannels :: "'n relayKit \<Rightarrow> json \<Rightarrow> (clientCache \<times> 'n, (string \<times> json) list) io" where
  "submitViaChannels R body =
     io_bind (getChannelsClient R) (\<lambda>(baseUrl, key).
     let xdr = text_of body ''xdr''; func = text_of body ''func''; auth = texts_of body ''auth'' in
     if xdr \<noteq> [] then
       io_bind (net_io (normalizeSignedSorobanXdr R xdr)) (\<lambda>normalizedXdr.
       io_bind (net_io (io_call (rk_submitXdr R baseUrl key normalizedXdr))) (\<lambda>result. io_res (relayed result)))
     else if func \<noteq> [] then
       io_bind (net_io (io_call (rk_submitFunc R baseUrl key func auth))) (\<lambda>result. io_res (relayed result))
     else io_throw (Refused ''Provide either xdr or func (+ optional auth)''))"

section \<open>Registering a passkey\<close>

definition requireEnv :: "'n serviceEnv \<Rightarrow> string \<Rightarrow> string res" where
  "requireEnv S name = (if \<not> truthy (sv_env S name) then Inl (Refused (''Missing required environment variable: '' @ name))
     else Inr (strip_cr (trim (the (sv_env S name)))))"

definition requiredPassphrase :: "'n serviceEnv \<Rightarrow> string res" where
  "requiredPassphrase S = rmap (\<lambda>raw. if raw = ''Test'' \<or> raw = ''Test SDF Network'' then ''Test SDF Network ; September 2015'' else raw)
     (requireEnv S ''VITE_NETWORK_PASSPHRASE'')"

fun waitForPasskey :: "'n chainServer \<Rightarrow> string \<Rightarrow> nat \<Rightarrow> ('n, unit) io" where
  "waitForPasskey srv hash1 0 = io_throw (Refused ''Timed out waiting for passkey registration'')"
| "waitForPasskey srv hash1 (Suc left) = io_bind (io_call (cs_getTransaction srv hash1)) (\<lambda>status. case status of
       TxSuccess v \<Rightarrow> io_return ()
     | TxFailed \<Rightarrow> io_throw (Refused ''Passkey registration failed on-chain'')
     | TxNotFound \<Rightarrow> waitForPasskey srv hash1 left)"

definition good_key_data :: "string \<Rightarrow> bool" where
  "good_key_data h \<longleftrightarrow> h \<noteq> [] \<and> all_hex h \<and> 130 \<le> length h \<and> even (length h)"

definition addPasskey :: "'n serviceEnv \<Rightarrow> 'n chainServer \<Rightarrow> keypair \<Rightarrow> string \<Rightarrow> string \<Rightarrow> string \<Rightarrow> ('n, string) io" where
  "addPasskey S srv kp smartAccountId verifierId keyDataHex =
     io_bind (io_call (cs_getAccount srv (kp_public kp))) (\<lambda>acct.
     io_bind (io_res (sv_contract S smartAccountId)) (\<lambda>u.
     io_bind (io_res (traverse (\<lambda>a. a) [cs_address srv (kp_public kp), cs_address srv verifierId,
         Inr (ScBytes (sv_unhex S keyDataHex))])) (\<lambda>args.
     let draft = \<lparr>tx_source = acct, tx_contract = smartAccountId, tx_method = ''add_passkey'', tx_args = args, tx_timeout = 120\<rparr> in
     io_bind (io_call (cs_simulate srv draft)) (\<lambda>sim. case sim of
         SimError e \<Rightarrow> io_throw (Refused (if e = [] then ''Passkey registration simulation failed'' else e))
       | SimSuccess result \<Rightarrow>
         io_bind (io_res (cs_assemble srv draft result)) (\<lambda>built.
         io_bind (io_call (cs_send srv (kp_signTx kp built))) (\<lambda>sent. case snd_status sent of
             SendError e \<Rightarrow> io_throw (Refused ''Passkey registration submission failed'')
           | SendAccepted \<Rightarrow> io_bind (waitForPasskey srv (snd_hash sent) 30) (\<lambda>u. io_return (snd_hash sent))))))))"

definition registerPasskeySigner :: "'n serviceEnv \<Rightarrow> string \<Rightarrow> string \<Rightarrow> string \<Rightarrow> ('n, string) io" where
  "registerPasskeySigner S smartAccountId verifierId keyDataHex =
     (if \<not> sv_isContract S smartAccountId then io_throw (Refused ''smartAccountId must be a valid contract ID'')
      else if \<not> sv_isContract S verifierId then io_throw (Refused ''verifierId must be a valid contract ID'')
      else if \<not> good_key_data keyDataHex
      then io_throw (Refused ''keyDataHex must contain passkey public key and credential ID bytes'')
      else io_bind (io_res (requireEnv S ''CONTRACT_ADMIN_SECRET_KEY'')) (\<lambda>adminSecret.
        io_bind (io_res (requireEnv S ''CONTRACT_ADMIN_PUBLIC_KEY'')) (\<lambda>adminPublic.
        io_bind (io_res (requireEnv S ''VITE_STELLAR_RPC_URL'')) (\<lambda>url.
        io_bind (io_res (requiredPassphrase S)) (\<lambda>passphrase.
        io_bind (io_res (sv_keypair S adminSecret)) (\<lambda>kp.
          if kp_public kp \<noteq> adminPublic
          then io_throw (Refused ''CONTRACT_ADMIN_PUBLIC_KEY does not match CONTRACT_ADMIN_SECRET_KEY'')
          else addPasskey S (sv_server S url passphrase) kp smartAccountId verifierId keyDataHex))))))"

section \<open>Properties\<close>

lemma relay_net_run: "net_io m (s, n) = Some (Inr a, (s', n')) \<longleftrightarrow> s' = s \<and> m n = Some (Inr a, n')"
  by (auto simp: net_io_def split: option.splits)

lemma text_of_trimmed [simp]: "trim (text_of body k) = text_of body k"
  by (simp add: text_of_def split: option.split json.split) (simp add: trim_def)

text \<open>A text that is relayed as it was sent: its transaction is not the well-known deployer's contract
  invocation with a fee of its own, or is none.\<close>

definition relayed_as_sent :: "'n relayKit \<Rightarrow> string \<Rightarrow> bool" where
  "relayed_as_sent R text1 \<longleftrightarrow> (case rk_parse R text1 (resolveNetworkPassphrase R) of Inl e \<Rightarrow> True
     | Inr tx \<Rightarrow> \<not> isSorobanInvokeTx tx \<or> xt_source tx \<noteq> rk_deployer R \<or> feesAlignedWithSorobanResource tx)"

text \<open>The transaction that takes the place of the assembled one: the source, the memo, the invocation and
  the sequence number are the assembled one's, and its fee is the resource fee.\<close>

definition realigned_as :: "'n relayKit \<Rightarrow> sorobanTx \<Rightarrow> sorobanTx \<Rightarrow> bool" where
  "realigned_as R assembled realigned \<longleftrightarrow> (\<exists>resourceFee ops sequence. xt_data assembled = Inr (Some resourceFee)
     \<and> xt_operations assembled = ''invokeHostFunction'' # ops \<and> BigInt_of (xt_sequence assembled) = Inr sequence
     \<and> rk_build R \<lparr>bd_source = xt_source assembled, bd_sequence = sequence - 1, bd_fee = ''0'', bd_resourceFee = resourceFee,
         bd_memo = xt_memo assembled, bd_invocation = xt_invocation assembled\<rparr> = Inr realigned
     \<and> feesAlignedWithSorobanResource realigned)"

lemma realign_iff: "realign R assembled = Inr out \<longleftrightarrow> (\<exists>realigned. realigned_as R assembled realigned \<and> out = rk_signed R realigned)"
  by (cases "xt_operations assembled") (auto simp: realign_def realigned_as_def rbind_Inr_iff split: option.splits)

lemma normalize_iff: "normalizeSignedSorobanXdr R xdr w = Some (Inr out, w') \<longleftrightarrow>
    (if trim xdr = [] \<or> relayed_as_sent R (trim xdr) then out = trim xdr \<and> w' = w
     else \<exists>tx result assembled realigned. rk_parse R (trim xdr) (resolveNetworkPassphrase R) = Inr tx
       \<and> rk_simulate R (resolveRpcUrl R) tx w = (Inr (SimSuccess result), w') \<and> rk_assemble R tx result = Inr assembled
       \<and> realigned_as R assembled realigned \<and> out = rk_signed R realigned)"
proof (cases "trim xdr = [] \<or> (\<exists>e. rk_parse R (trim xdr) (resolveNetworkPassphrase R) = Inl e)")
  case True
  then show ?thesis by (auto simp: normalizeSignedSorobanXdr_def relayed_as_sent_def Let_def run_iff)
next
  case False
  then obtain tx where tx: "trim xdr \<noteq> []" "rk_parse R (trim xdr) (resolveNetworkPassphrase R) = Inr tx"
    by (cases "rk_parse R (trim xdr) (resolveNetworkPassphrase R)") auto
  show ?thesis
  proof (cases "relayed_as_sent R (trim xdr)")
    case True
    with tx show ?thesis by (auto simp: normalizeSignedSorobanXdr_def relayed_as_sent_def Let_def run_iff)
  next
    case False
    with tx show ?thesis
      by (auto simp: normalizeSignedSorobanXdr_def relayed_as_sent_def Let_def run_iff rbind_Inr_iff realign_iff)
  qed
qed

text \<open>
  C26: A text that was submitted is handed to the relayer's network as it is, but for the white space around
  it, unless its transaction is an invocation of the well-known deployer whose fee is not its resource fee. Then it is
  simulated and assembled, and what is handed over is built from the assembled one: its source, its sequence number, its
  memo and its invocation, with a fee that is the resource fee. The reply is what the network answered to that text.
\<close>

theorem relayed_text:
  assumes "submitViaChannels R body (c, w) = Some (Inr reply, (c', w'))" and "text_of body ''xdr'' \<noteq> []"
  shows "\<exists>baseUrl key out w1 result. getChannelsClient R (c, w) = Some (Inr (baseUrl, key), (c', w))
    \<and> rk_submitXdr R baseUrl key out w1 = (Inr result, w') \<and> relayed result = Inr reply
    \<and> (let sent = text_of body ''xdr'' in
       if relayed_as_sent R sent then out = sent \<and> w1 = w
       else \<exists>tx simulated assembled realigned. rk_parse R sent (resolveNetworkPassphrase R) = Inr tx
         \<and> rk_simulate R (resolveRpcUrl R) tx w = (Inr (SimSuccess simulated), w1) \<and> rk_assemble R tx simulated = Inr assembled
         \<and> realigned_as R assembled realigned \<and> out = rk_signed R realigned)"
proof -
  have client: "w2 = w" if "getChannelsClient R (c, w) = Some (Inr k, (c2, w2))" for k c2 w2
    using that by (auto simp: getChannelsClient_def on_cache_def Let_def run_iff split: if_splits option.splits)
  from assms obtain baseUrl key c2 w2 out w1 result where "getChannelsClient R (c, w) = Some (Inr (baseUrl, key), (c2, w2))"
    and "normalizeSignedSorobanXdr R (text_of body ''xdr'') w2 = Some (Inr out, w1)"
    and "rk_submitXdr R baseUrl key out w1 = (Inr result, w')" and "relayed result = Inr reply" and "c' = c2"
    by (auto simp: submitViaChannels_def Let_def run_iff relay_net_run)
  with client assms(2) show ?thesis unfolding Let_def normalize_iff text_of_trimmed by (simp only: simp_thms) blast
qed

lemma waitForPasskey_run: "waitForPasskey srv h k w = Some (Inr u, w') \<Longrightarrow> \<exists>n v. cs_getTransaction srv h n = (Inr (TxSuccess v), w')"
proof (induction k arbitrary: w)
  case (Suc k)
  then obtain status w1 where g: "cs_getTransaction srv h w = (Inr status, w1)" by (auto simp: run_iff)
  with Suc show ?case by (cases status) (auto simp: io_bind_apply io_call_def io_return_apply io_throw_apply)
qed (simp add: run_iff)

text \<open>
  C27: A passkey is reported as registered only when the ledger answered that the transaction which
  adds it to the account succeeded, and its key data is an even number of at least 130 hexadecimal digits.
\<close>

theorem passkey_on_ledger:
  assumes "registerPasskeySigner S smartAccountId verifierId keyDataHex w = Some (Inr hash1, w')"
  shows "good_key_data keyDataHex \<and> (\<exists>url passphrase n v. cs_getTransaction (sv_server S url passphrase) hash1 n = (Inr (TxSuccess v), w'))"
  using assms
  by (auto simp: registerPasskeySigner_def addPasskey_def Let_def run_iff split: if_splits dest!: waitForPasskey_run)

section \<open>A demonstration\<close>

definition demo_relayEnv :: env where
  "demo_relayEnv = map_of [(''CONTRACT_ADMIN_PUBLIC_KEY'', ''a''), (''CONTRACT_ADMIN_SECRET_KEY'', ''a''),
     (''VITE_STELLAR_RPC_URL'', ''r''), (''VITE_NETWORK_PASSPHRASE'', ''p''),
     (''RELAYER_ENABLED'', ''yes''), (''CHANNELS_BASE_URL'', ''r''), (''CHANNELS_API_KEY'', ''p'')]"

definition demo_relayTx :: "string \<Rightarrow> sorobanTx" where
  "demo_relayTx fee = \<lparr>xt_source = ''D'', xt_sequence = ''1'', xt_fee = fee, xt_operations = [''invokeHostFunction''],
     xt_data = Inr (Some ''5''), xt_memo = [], xt_invocation = ''f''\<rparr>"

definition demo_relay :: "int relayKit" where
  "demo_relay = \<lparr>rk_service = demo_service\<lparr>sv_env := demo_relayEnv\<rparr>, rk_parse = (\<lambda>t p. Inr (demo_relayTx ''105'')),
     rk_simulate = (\<lambda>u tx n. (Inr (SimSuccess None), n + 1)), rk_assemble = (\<lambda>tx v. Inr tx),
     rk_build = (\<lambda>b. Inr (demo_relayTx (bd_resourceFee b))), rk_signed = xt_fee, rk_deployer = ''D'',
     rk_submitXdr = (\<lambda>u k x n. (Inr (JObj []), n)), rk_submitFunc = (\<lambda>u k f a n. (Inr (JObj []), n))\<rparr>"

lemma trim_simple: "trim ''a'' = ''a''" "trim ''r'' = ''r''" "trim ''p'' = ''p''" "trim ''X'' = ''X''"
  by (simp_all add: trim_def js_space_def)

definition demo_submitted :: json where
  "demo_submitted = JObj [(''xdr'', JStr ''X'')]"

theorem relayed_text_witness: "submitViaChannels demo_relay demo_submitted (None, 5) = Some (Inr [(''success'', JBool True)], (Some (''r:p'', ''r'', ''p''), 6))
    \<and> (\<exists>realigned. realigned_as demo_relay (demo_relayTx ''105'') realigned)"
proof -
  have "BigInt_of ''1'' = Inr 1" using BigInt_toString10[of 1] by (simp only: constant_texts)
  then have "normalizeSignedSorobanXdr demo_relay ''X'' 5 = Some (Inr ''5'', 6)"
    by (simp add: normalizeSignedSorobanXdr_def Let_def trim_simple demo_relay_def demo_relayTx_def isSorobanInvokeTx_def
        feesAlignedWithSorobanResource_def io_bind_apply io_call_def io_res_def realign_def)
  moreover have "getChannelsClient demo_relay (None, 5) = Some (Inr (''r'', ''p''), (Some (''r:p'', ''r'', ''p''), 5))"
  proof -
    have "map lower (trim ''yes'') = ''yes''" by (simp add: trim_def js_space_def lower_def)
    then show ?thesis
      by (simp add: getChannelsClient_def isRelayerEnabled_def channelsApiKey_def resolveChannelsBaseUrl_def Let_def on_cache_def
          demo_relay_def rk_env_def demo_relayEnv_def text_or_def truthy_def trim_simple)
  qed
  moreover have "text_of demo_submitted ''xdr'' = ''X''" by (simp add: text_of_def demo_submitted_def maybe_member_def trim_simple)
  moreover have "rk_submitXdr demo_relay b k x n = (Inr (JObj []), n)" for b k x n by (simp add: demo_relay_def)
  ultimately have run: "submitViaChannels demo_relay demo_submitted (None, 5) = Some (Inr [(''success'', JBool True)], (Some (''r:p'', ''r'', ''p''), 6))"
    and text1: "text_of demo_submitted ''xdr'' = ''X''"
    by (simp_all add: submitViaChannels_def Let_def net_io_def io_bind_apply io_call_def io_res_def relayed_def entry_get_def opt_member_def)
  have parse: "rk_parse demo_relay t p = Inr (demo_relayTx ''105'')" "rk_assemble demo_relay tx v = Inr tx" for t p tx v
    by (simp_all add: demo_relay_def)
  have no: "\<not> relayed_as_sent demo_relay ''X''"
    by (simp add: relayed_as_sent_def parse) (simp add: demo_relay_def demo_relayTx_def isSorobanInvokeTx_def feesAlignedWithSorobanResource_def)
  from relayed_text[OF run] no run show ?thesis by (auto simp: text1 parse)
qed

theorem passkey_on_ledger_witness:
  "registerPasskeySigner (rk_service demo_relay) ''C'' ''V'' (replicate 130 (CHR ''0'')) 5 = Some (Inr ''h'', 9)
    \<and> (\<exists>n v. cs_getTransaction demo_serviceServer ''h'' n = (Inr (TxSuccess v), 9))"
proof -
  have names: "requireEnv (rk_service demo_relay) ''CONTRACT_ADMIN_SECRET_KEY'' = Inr ''a''"
    "requireEnv (rk_service demo_relay) ''CONTRACT_ADMIN_PUBLIC_KEY'' = Inr ''a''"
    "requireEnv (rk_service demo_relay) ''VITE_STELLAR_RPC_URL'' = Inr ''r''"
    "requiredPassphrase (rk_service demo_relay) = Inr ''p''"
    by (simp_all add: requireEnv_def requiredPassphrase_def demo_relay_def demo_relayEnv_def truthy_def trim_simple strip_cr_def)
  have key: "good_key_data (replicate 130 (CHR ''0''))" by (simp add: good_key_data_def all_hex_def list_all_iff hex_val_def)
  have server: "sv_server (rk_service demo_relay) u p = demo_serviceServer" "sv_isContract (rk_service demo_relay) c"
    "sv_keypair (rk_service demo_relay) x = Inr (demo_keypair x)" "sv_contract (rk_service demo_relay) c = Inr ()" for u p c x
    by (simp_all add: demo_relay_def) (simp_all add: demo_service_def)
  have get: "cs_getTransaction demo_serviceServer h n = (Inr (TxSuccess None), n + 1)" for h n by (simp add: demo_serviceServer_def)
  have wait: "waitForPasskey demo_serviceServer h 30 n = Some (Inr (), n + 1)" for h n
    by (simp add: numeral_eq_Suc get io_bind_apply io_call_def io_return_apply)
  have run: "registerPasskeySigner (rk_service demo_relay) ''C'' ''V'' (replicate 130 (CHR ''0'')) 5 = Some (Inr ''h'', 9)"
    unfolding registerPasskeySigner_def addPasskey_def
    by (simp add: server key names io_bind_apply io_res_def io_call_def Let_def demo_keypair_def wait io_return_apply)
  from passkey_on_ledger[OF run] run show ?thesis by (simp add: server)
qed

end
