(* ===== verification/Spec2Isabelle.thy ===== *)
theory Spec2Isabelle
  imports Replay Auditor Disclosure Builders Sources Cbor SmartSession CtFlow Receipts Sessions Ceremony IssuerRelay
begin

text \<open>
  Verification library of Lumengate: the client (\<^verbatim>\<open>src/app/src\<close>), with the confidential
  token under \<^verbatim>\<open>lib/confidentialToken\<close> and the smart account with its passkeys and the
  settlements under \<^verbatim>\<open>lib\<close>, and the issuer service (\<^verbatim>\<open>src/issuer-service\<close>
  with the modules of \<^verbatim>\<open>src/scripts\<close> it calls), which hands out passports, keeps the
  registry's roots, and serves the faucet and the relayer.

  The program. An account of the confidential token keeps two Pedersen commitments on chain, a
  spendable and a receiving one. The client never reads amounts from the chain: it keeps the openings
  of both commitments, rebuilds them by replaying the contract's events, and proves statements about
  them with circuits whose inputs its witness builders compute. Auditors and recipients of disclosures
  open masked values with Diffie-Hellman keys. Transactions are authorised by a smart account whose
  context rules name the passkey's signer, the compliance policy and, for a trusted device, a session
  key.

  The issuer service answers requests of the client: a passport is a signed commitment together with
  the private inputs of the circuit, whose public inputs must match the roots of the registry on chain,
  which the service sets with the administrator's key. What it has to remember, it keeps in JSON files.

  How a function is translated. A function that can throw returns \<^typ>\<open>js_error + 'a\<close>; an
  \<^verbatim>\<open>async\<close> function is a state transformer over a world of any type
  (\<^verbatim>\<open>io\<close> of theory Prelude: it returns with a result or an exception and a new world, or, for
  a loop that never ends, not at all). Bytes are 8-bit words, field elements and \<^verbatim>\<open>bigint\<close>s are
  integers, numbers that can be \<^verbatim>\<open>NaN\<close> are optional integers, texts are the bytes of their
  UTF-8 form, objects and maps are association lists in insertion order. Waits, traces and console
  output have no counterpart. Code that is not in the repository is an argument of the definitions
  that use it: the curve library and the Poseidon2 permutation (record \<^verbatim>\<open>prims\<close> with the
  named laws \<^verbatim>\<open>curve_laws\<close>), the proving backend, the RPC and HTTP servers, base64url, the
  address codec, XDR serialisation and \<^verbatim>\<open>scValToNative\<close>.

  Theories, in the order of their imports, with what they model and what their lemmas show.

  \<^item> Prelude: results, effects and association lists, shared by all. JsText: integers as text and
    back, trimming, splitting. Json: JSON values, \<^verbatim>\<open>stringify\<close> and \<^verbatim>\<open>parse\<close>, and
    that parsing reads back every value at any indentation.
  \<^item> Field (\<^verbatim>\<open>crypto/field.ts\<close>, \<^verbatim>\<open>crypto/constants.ts\<close>), Primitives, Grumpkin
    (\<^verbatim>\<open>crypto/grumpkin.ts\<close>), Poseidon2 (\<^verbatim>\<open>crypto/poseidon2.ts\<close>), Keys
    (\<^verbatim>\<open>crypto/keys.ts\<close>, \<^verbatim>\<open>crypto/address.ts\<close>): arithmetic, layouts and their round
    trips, the homomorphism of commitments, the agreement of keys. Every masked value the protocol
    sends is one interpretation of the locale \<^verbatim>\<open>masked_channel\<close>: what is sealed opens.
    Primitives also holds a group on which the laws are proved to be satisfiable.
  \<^item> Witness (\<^verbatim>\<open>witness/\<close>) and Builders: the five builders with their guards, and when they
    build.
  \<^item> Events (\<^verbatim>\<open>chain/events.ts\<close>), Indexer (\<^verbatim>\<open>chain/indexer.ts\<close>), IssuerIndexer
    (\<^verbatim>\<open>chain/issuer-indexer.ts\<close> and the rows of the issuer service), EventSource
    (\<^verbatim>\<open>chain/event-source.ts\<close>), Sources: three encodings of one event, each an interpretation
    of the locale \<^verbatim>\<open>event_codec\<close> or compared with one; paging; and what a synchronisation
    over two sources delivers.
  \<^item> Payload (\<^verbatim>\<open>chain/payload.ts\<close>), ChainClient (\<^verbatim>\<open>chain/client.ts\<close>,
    \<^verbatim>\<open>chain/contract.ts\<close>): arguments, simulated reads, invocation with at most sixty polls.
  \<^item> State (\<^verbatim>\<open>state/types.ts\<close>, \<^verbatim>\<open>store.ts\<close>, \<^verbatim>\<open>browser-store.ts\<close>,
    \<^verbatim>\<open>json-store.ts\<close>): openings and the three stores, each an interpretation of the locale
    \<^verbatim>\<open>state_store\<close>. Engine (\<^verbatim>\<open>state/engine.ts\<close>) applies events and verifies
    against the chain; Replay relates it to an abstract contract: the replay of every run of the
    contract from the fresh state opens the commitments on chain, up to one arithmetic mismatch that
    is characterised exactly.
  \<^item> Auditor (\<^verbatim>\<open>auditor/decrypt.ts\<close>), Disclosure (\<^verbatim>\<open>proving/prover.ts\<close>,
    \<^verbatim>\<open>disclosure/\<close>): what auditors read from the events the builders make, and what an
    accepted disclosure guarantees and opens to.
  \<^item> Cbor (\<^verbatim>\<open>lib/webauthnPublicKey.ts\<close>): the passkey's CBOR decoder, total and inverse to
    the canonical encoding, and the extraction of the key. The decoder's fuel is one more than the
    length of the data; every nested value starts at a later byte, so it is enough.
  \<^item> ContextRules (\<^verbatim>\<open>lib/onChainContextRules.ts\<close>): rules decoded two ways, the search for
    the passkey's signer, and which rules the probing finds.
  \<^item> Config (\<^verbatim>\<open>lib/config.ts\<close>): the deployment configuration and the issuer client's
    retries.
  \<^item> SmartAccount and SmartSession (\<^verbatim>\<open>lib/smartAccount.ts\<close>): the checks before a
    settlement; the session's storage, the choice of its rules, its status.
  \<^item> Postconditions: what an effect guarantees of its outcome, and invariants of the world.
    Reconcile: the states the engine hands out as verified are stored and open the chain's
    commitments, for every store that satisfies the locale \<^verbatim>\<open>faithful_store\<close>.
  \<^item> Amounts (\<^verbatim>\<open>lib/assetAmount.ts\<close>), CtAssets (\<^verbatim>\<open>lib/confidentialAssetConfig.ts\<close>),
    CtAccounts (\<^verbatim>\<open>lib/ctRegistration.ts\<close>, \<^verbatim>\<open>lib/retry.ts\<close> and the keys of
    \<^verbatim>\<open>lib/confidentialFlow.ts\<close>), CtBalance (\<^verbatim>\<open>lib/confidentialBalance.ts\<close>, whose
    store interprets \<^verbatim>\<open>faithful_store\<close>), CtTransactions (\<^verbatim>\<open>lib/confidentialSettlement.ts\<close>)
    and CtFlow (\<^verbatim>\<open>lib/confidentialFlow.ts\<close>): the application around the confidential
    token. Their world is the page with its storage and provers, and the network; their lemmas say what
    stored keys, balances and completed payments guarantee whatever the network answers.
  \<^item> ProofBundles (the eligibility proof and its encodings in \<^verbatim>\<open>lib/contracts.ts\<close>, the
    reading of public inputs in \<^verbatim>\<open>lib/prover.ts\<close>, \<^verbatim>\<open>lib/proofBindCache.ts\<close>),
    ContractReads and ContractCalls (the reads, the builders of transactions, submission and the texts of
    errors in \<^verbatim>\<open>lib/contracts.ts\<close>): what a built settlement has been checked for.
  \<^item> Eligibility (\<^verbatim>\<open>lib/assetScope.ts\<close>, \<^verbatim>\<open>credentialProof.ts\<close>,
    \<^verbatim>\<open>scopeNullifier.ts\<close>, \<^verbatim>\<open>productState.ts\<close>, \<^verbatim>\<open>passportLifecycle.ts\<close>,
    \<^verbatim>\<open>proofRecovery.ts\<close>, \<^verbatim>\<open>policies.ts\<close> and the offline part of
    \<^verbatim>\<open>proofLifecycle.ts\<close> and \<^verbatim>\<open>passport.ts\<close>) and LifeCycle (the rest of both,
    \<^verbatim>\<open>passportScopeStatus.ts\<close>, \<^verbatim>\<open>registrySync.ts\<close>): what a passport and a proof
    allow, derived offline and against the chain; the derivations refine one another.
  \<^item> ChainEvents (\<^verbatim>\<open>lib/events.ts\<close>), Activity (\<^verbatim>\<open>lib/activity.ts\<close>,
    \<^verbatim>\<open>chainSnapshot.ts\<close>, \<^verbatim>\<open>portfolio.ts\<close>) and Receipts
    (\<^verbatim>\<open>lib/proofReceipt.ts\<close>, \<^verbatim>\<open>journey.ts\<close>): what the pages tell about
    settlements, and what a receipt that says verified rests on.

  \<^item> Sessions (\<^verbatim>\<open>lib/session.ts\<close>, \<^verbatim>\<open>passkeySession.ts\<close>): the stored
    sessions and the passage between wallet and passkey sessions. Ceremony (\<^verbatim>\<open>passkeyCeremony.ts\<close>,
    \<^verbatim>\<open>passkeyUserHandle.ts\<close>): the queue of passkey prompts as a step relation with its
    invariants, and that every prompt gets its turn.
  \<^item> IssuerFields (\<^verbatim>\<open>issuer-service/lib/poseidonFields.js\<close>, \<^verbatim>\<open>policies.js\<close>,
    \<^verbatim>\<open>credentialCommitment.js\<close>, \<^verbatim>\<open>scripts/compute_revocation_root.js\<close>, and the
    constraints of the two circuits): hashed fields, accumulators and the material of a credential.
    IssuerAdmin (\<^verbatim>\<open>sorobanAdmin.js\<close>, \<^verbatim>\<open>onChainRoots.js\<close>,
    \<^verbatim>\<open>ed25519Issuer.js\<close>, \<^verbatim>\<open>issuerRegistry.js\<close>): the administrator's
    transactions, the roots and the issuer's key. IssuerStore (\<^verbatim>\<open>revoke.js\<close>,
    \<^verbatim>\<open>noteMerkle.js\<close>, \<^verbatim>\<open>disclose.js\<close>): the JSON files. IssuerCredential
    (\<^verbatim>\<open>scripts/generate_prover_toml.js\<close>, \<^verbatim>\<open>generate_pof_prover_toml.js\<close> and the
    requests \<^verbatim>\<open>/roots\<close>, \<^verbatim>\<open>/registry/sync-root\<close> and \<^verbatim>\<open>/credential\<close>
    of \<^verbatim>\<open>server.js\<close>): the inputs the service builds satisfy the circuit, and what a passport
    that is handed out was made from.
  \<^item> IssuerTreasury (\<^verbatim>\<open>sacLiquidity.js\<close>), IssuerFaucet (\<^verbatim>\<open>faucet.js\<close>, its
    requests, \<^verbatim>\<open>relayerRateLimit.js\<close>) and IssuerRelay (\<^verbatim>\<open>relayer.js\<close>,
    \<^verbatim>\<open>relayerXdrNormalize.js\<close>, \<^verbatim>\<open>smartAccount.js\<close>): who pays a claim and how often,
    which transactions are changed before they are relayed, and when a passkey counts as registered.

  Witnesses evaluate the definitions on one demonstration account (theory Builders, over the group
  of residues with a constant permutation), one demonstration network (theories Disclosure and
  Sources) and one demonstration smart account (theory SmartAccount); theory CtAccounts joins them to a page and a
  network that answers for registered accounts. The issuer service has a demonstration of its own (theories
  IssuerAdmin and IssuerCredential).

  Where the model's recursion is bounded: the loops over attempts (60 polls, 12, 8 and 20 probes, 12
  funding checks, 3 requests, 30 and 24 waits of the service) are recursions on the number of attempts left, as in the code. The
  paging loops have no bound in the code; they are partial functions, and that they end is proved for
  servers whose cursors advance.

  Not modelled. The flows that drive the third-party smart-account kit (the second half of
  \<^verbatim>\<open>lib/smartAccount.ts\<close>), the proving backend of
  \<^verbatim>\<open>lib/prover.ts\<close>, the offerings and the dashboard; of the issuer service its index of
  confidential events (only the rows, in IssuerIndexer), the offerings and the remaining requests of
  \<^verbatim>\<open>server.js\<close>. Pages, components, hooks and the React context are rendering and effects;
  the Rust contracts are another language, and what the program relies on of them is a hypothesis where it
  is used.
\<close>

end
